(* ===== verification/Prelude.thy ===== *)
theory Prelude
  imports Main "HOL-Library.AList" "HOL-Library.Sublist" "HOL-Library.Word"
    "HOL-Library.List_Lexorder" "HOL-Library.Char_ord" "HOL-Library.Product_Lexorder" "HOL-Library.Multiset"
begin

text \<open>
  Shared vocabulary of the development: instants, strings, JSON values, hash maps, 64-bit and
  32-bit counters, and the generic list lemmas that several components use.

  \<^item> A Rust \<open>String\<close> is its sequence of UTF-8 bytes, a HOL \<open>string\<close>. The standard-library
    predicates \<open>starts_with\<close>, \<open>contains\<close>, \<open>to_ascii_lowercase\<close> and
    \<open>eq_ignore_ascii_case\<close> are byte-wise and are modelled exactly. \<open>trim\<close> and
    \<open>split_whitespace\<close> are modelled for ASCII white space.
  \<^item> \<open>DateTime<Utc>\<close> and \<open>Instant\<close> are integers (nanoseconds from a fixed origin).
  \<^item> A \<open>DashMap\<close> or \<open>HashMap\<close> is an association list with distinct keys; the list
    order stands for one iteration order.
  \<^item> \<open>serde_json::Value\<close> is the datatype \<open>json\<close>; a floating-point number is kept in
    hundredths, the precision of the literals the code builds, and never read back as a number.
\<close>

section \<open>Collections of facts\<close>

named_theorems dashmap_simps \<open>lookup and domain of the association lists that model hash maps\<close>
named_theorems string_simps \<open>evaluation of the string predicates of the standard library\<close>

section \<open>Instants and durations\<close>

type_synonym instant = int

definition seconds :: "int \<Rightarrow> int" where
  "seconds n = n * 1000000000"

lemma seconds_mono [simp]: "seconds a \<le> seconds b \<longleftrightarrow> a \<le> b"
  by (simp add: seconds_def)

lemma seconds_strict_mono [simp]: "seconds a < seconds b \<longleftrightarrow> a < b"
  by (simp add: seconds_def)

lemma seconds_0 [simp]: "seconds 0 = 0"
  by (simp add: seconds_def)

section \<open>Strings\<close>

definition starts_with :: "string \<Rightarrow> string \<Rightarrow> bool" where
  "starts_with s p = prefix p s"

definition ends_with :: "string \<Rightarrow> string \<Rightarrow> bool" where
  "ends_with s p = suffix p s"

definition contains :: "string \<Rightarrow> string \<Rightarrow> bool" where
  "contains s p = sublist p s"

definition strip_prefix :: "string \<Rightarrow> string \<Rightarrow> string option" where
  "strip_prefix s p = (if prefix p s then Some (drop (length p) s) else None)"

definition ascii_lower_char :: "char \<Rightarrow> char" where
  "ascii_lower_char c =
     (let n = (of_char c :: nat) in if 65 \<le> n \<and> n \<le> 90 then char_of (n + 32) else c)"

definition ascii_upper_char :: "char \<Rightarrow> char" where
  "ascii_upper_char c =
     (let n = (of_char c :: nat) in if 97 \<le> n \<and> n \<le> 122 then char_of (n - 32) else c)"

definition to_ascii_lowercase :: "string \<Rightarrow> string" where
  "to_ascii_lowercase = map ascii_lower_char"

definition to_ascii_uppercase :: "string \<Rightarrow> string" where
  "to_ascii_uppercase = map ascii_upper_char"

definition eq_ignore_ascii_case :: "string \<Rightarrow> string \<Rightarrow> bool" where
  "eq_ignore_ascii_case a b = (to_ascii_lowercase a = to_ascii_lowercase b)"

definition is_ascii_ws :: "char \<Rightarrow> bool" where
  "is_ascii_ws c = (let n = (of_char c :: nat) in n = 32 \<or> (9 \<le> n \<and> n \<le> 13))"

definition trim :: "string \<Rightarrow> string" where
  "trim s = rev (dropWhile is_ascii_ws (rev (dropWhile is_ascii_ws s)))"

fun split_whitespace_aux :: "string \<Rightarrow> string \<Rightarrow> string list" where
  "split_whitespace_aux w [] = (if w = [] then [] else [rev w])"
| "split_whitespace_aux w (c # cs) =
     (if is_ascii_ws c
      then (if w = [] then split_whitespace_aux [] cs else rev w # split_whitespace_aux [] cs)
      else split_whitespace_aux (c # w) cs)"

definition split_whitespace :: "string \<Rightarrow> string list" where
  "split_whitespace s = split_whitespace_aux [] s"

fun join_with :: "string \<Rightarrow> string list \<Rightarrow> string" where
  "join_with sep [] = []"
| "join_with sep [x] = x"
| "join_with sep (x # y # ys) = x @ sep @ join_with sep (y # ys)"

text \<open>Non-ASCII and control characters of the program's literals, as UTF-8 bytes.\<close>

definition newline :: string where "newline = [CHR 0x0A]"
definition em_dash :: string where "em_dash = [CHR 0xE2, CHR 0x80, CHR 0x94]"
definition middle_dot :: string where "middle_dot = [CHR 0xC2, CHR 0xB7]"
definition check_mark :: string where "check_mark = [CHR 0xE2, CHR 0x9C, CHR 0x85]"
definition bullet :: string where "bullet = [CHR 0xE2, CHR 0x80, CHR 0xA2]"
definition ellipsis :: string where "ellipsis = [CHR 0xE2, CHR 0x80, CHR 0xA6]"
definition right_arrow :: string where "right_arrow = [CHR 0xE2, CHR 0x86, CHR 0x92]"

lemmas string_pred_defs =
  starts_with_def ends_with_def contains_def strip_prefix_def eq_ignore_ascii_case_def

lemmas ascii_case_eval =
  to_ascii_lowercase_def to_ascii_uppercase_def ascii_lower_char_def ascii_upper_char_def

lemma starts_with_append [simp]: "starts_with (p @ s) p"
  by (simp add: starts_with_def)

lemma contains_append [simp]: "contains (a @ p @ b) p"
  by (auto simp: contains_def sublist_def)

lemma eq_ignore_ascii_case_refl [simp]: "eq_ignore_ascii_case s s"
  by (simp add: eq_ignore_ascii_case_def)

lemma to_ascii_lowercase_Nil [simp]: "to_ascii_lowercase [] = []"
  by (simp add: to_ascii_lowercase_def)

lemma to_ascii_lowercase_eq_Nil [simp]: "to_ascii_lowercase s = [] \<longleftrightarrow> s = []"
  by (simp add: to_ascii_lowercase_def)

section \<open>Options\<close>

definition or_else :: "'a option \<Rightarrow> 'a option \<Rightarrow> 'a option" where
  "or_else a b = (case a of Some x \<Rightarrow> Some x | None \<Rightarrow> b)"

definition unwrap_or :: "'a option \<Rightarrow> 'a \<Rightarrow> 'a" where
  "unwrap_or a d = (case a of Some x \<Rightarrow> x | None \<Rightarrow> d)"

definition filter_opt :: "('a \<Rightarrow> bool) \<Rightarrow> 'a option \<Rightarrow> 'a option" where
  "filter_opt p a = (case a of Some x \<Rightarrow> if p x then Some x else None | None \<Rightarrow> None)"

lemma or_else_simps [simp]: "or_else (Some x) b = Some x" "or_else None b = b"
  by (simp_all add: or_else_def)

lemma unwrap_or_simps [simp]: "unwrap_or (Some x) d = x" "unwrap_or None d = d"
  by (simp_all add: unwrap_or_def)

lemma filter_opt_simps [simp]:
  "filter_opt p (Some x) = (if p x then Some x else None)" "filter_opt p None = None"
  by (simp_all add: filter_opt_def)

lemma filter_opt_SomeD: "filter_opt p a = Some x \<Longrightarrow> a = Some x \<and> p x"
  by (cases a) (auto split: if_splits)

section \<open>JSON values\<close>

datatype json =
    JNull
  | JBool bool
  | JInt int
  | JFloat int
  | JStr string
  | JArr "json list"
  | JObj "(string \<times> json) list"

fun json_get :: "json \<Rightarrow> string \<Rightarrow> json option" where
  "json_get (JObj kvs) k = map_of kvs k"
| "json_get _ k = None"

fun json_path :: "json \<Rightarrow> string list \<Rightarrow> json option" where
  "json_path v [] = Some v"
| "json_path v (k # ks) = (case json_get v k of Some w \<Rightarrow> json_path w ks | None \<Rightarrow> None)"

fun as_str :: "json \<Rightarrow> string option" where
  "as_str (JStr s) = Some s"
| "as_str _ = None"

fun as_bool :: "json \<Rightarrow> bool option" where
  "as_bool (JBool b) = Some b"
| "as_bool _ = None"

fun as_i64 :: "json \<Rightarrow> int option" where
  "as_i64 (JInt n) = (if - (2 ^ 63) \<le> n \<and> n < 2 ^ 63 then Some n else None)"
| "as_i64 _ = None"

fun as_array :: "json \<Rightarrow> json list option" where
  "as_array (JArr xs) = Some xs"
| "as_array _ = None"

fun is_object :: "json \<Rightarrow> bool" where
  "is_object (JObj _) = True"
| "is_object _ = False"

section \<open>Hash maps as association lists\<close>

type_synonym ('k, 'v) dashmap = "('k \<times> 'v) list"

definition dm_get :: "('k, 'v) dashmap \<Rightarrow> 'k \<Rightarrow> 'v option" where
  "dm_get m k = map_of m k"

definition dm_put :: "'k \<Rightarrow> 'v \<Rightarrow> ('k, 'v) dashmap \<Rightarrow> ('k, 'v) dashmap" where
  "dm_put k v m = AList.update k v m"

definition dm_del :: "'k \<Rightarrow> ('k, 'v) dashmap \<Rightarrow> ('k, 'v) dashmap" where
  "dm_del k m = AList.delete k m"

definition dm_ok :: "('k, 'v) dashmap \<Rightarrow> bool" where
  "dm_ok m = distinct (map fst m)"

lemma dm_get_Nil [simp, dashmap_simps]: "dm_get [] k = None"
  by (simp add: dm_get_def)

lemma dm_get_put [simp, dashmap_simps]:
  "dm_get (dm_put k v m) k' = (if k' = k then Some v else dm_get m k')"
  by (simp add: dm_get_def dm_put_def update_conv')

lemma dm_get_del [simp, dashmap_simps]:
  "dm_get (dm_del k m) k' = (if k' = k then None else dm_get m k')"
  by (simp add: dm_get_def dm_del_def delete_conv')

lemma dm_ok_Nil [simp, dashmap_simps]: "dm_ok []"
  by (simp add: dm_ok_def)

lemma dm_ok_put [simp, dashmap_simps]: "dm_ok m \<Longrightarrow> dm_ok (dm_put k v m)"
  by (simp add: dm_ok_def dm_put_def distinct_update)

lemma dm_ok_del [simp, dashmap_simps]: "dm_ok m \<Longrightarrow> dm_ok (dm_del k m)"
  by (simp add: dm_ok_def dm_del_def distinct_delete)

lemma dm_get_iff_mem: "dm_ok m \<Longrightarrow> dm_get m k = Some v \<longleftrightarrow> (k, v) \<in> set m"
  by (simp add: dm_get_def dm_ok_def)

lemma dm_get_mem: "dm_get m k = Some v \<Longrightarrow> (k, v) \<in> set m"
  by (simp add: dm_get_def map_of_SomeD)

text \<open>Inserting a list of values under their own keys, as the snapshot imports do.\<close>

definition dm_put_all :: "('v \<Rightarrow> 'k) \<Rightarrow> 'v list \<Rightarrow> ('k, 'v) dashmap \<Rightarrow> ('k, 'v) dashmap" where
  "dm_put_all key xs m = fold (\<lambda>x. dm_put (key x) x) xs m"

lemma dm_put_all_simps [simp]:
  "dm_put_all key [] m = m"
  "dm_put_all key (x # xs) m = dm_put_all key xs (dm_put (key x) x m)"
  by (simp_all add: dm_put_all_def)

lemma dm_ok_put_all: "dm_ok m \<Longrightarrow> dm_ok (dm_put_all key xs m)"
  by (induction xs arbitrary: m) simp_all

lemma dm_get_put_all:
  "distinct (map key xs) \<Longrightarrow>
   dm_get (dm_put_all key xs m) k
     = (case find (\<lambda>x. key x = k) xs of Some x \<Rightarrow> Some x | None \<Rightarrow> dm_get m k)"
proof (induction xs arbitrary: m)
  case (Cons x xs)
  then have "key x = k \<Longrightarrow> find (\<lambda>y. key y = k) xs = None"
    by (auto simp: find_None_iff image_iff)
  with Cons show ?case by (auto split: option.split)
qed simp

definition dm_keyed :: "('v \<Rightarrow> 'k) \<Rightarrow> ('k, 'v) dashmap \<Rightarrow> bool" where
  "dm_keyed key m \<longleftrightarrow> dm_ok m \<and> (\<forall>(k, v) \<in> set m. key v = k)"

lemma dm_keyed_Nil [simp]: "dm_keyed key []"
  by (simp add: dm_keyed_def)

lemma set_dm_put: "set (dm_put k v m) \<subseteq> insert (k, v) (set m)"
  unfolding dm_put_def by (induction m) auto

lemma set_dm_del: "set (dm_del k m) \<subseteq> set m"
  unfolding dm_del_def by (auto simp: AList.delete_eq)

lemma dm_keyed_put [simp]: "dm_keyed key m \<Longrightarrow> key v = k \<Longrightarrow> dm_keyed key (dm_put k v m)"
  unfolding dm_keyed_def using set_dm_put [of k v m] by (auto dest!: subsetD)

lemma dm_keyed_del [simp]: "dm_keyed key m \<Longrightarrow> dm_keyed key (dm_del k m)"
  unfolding dm_keyed_def using set_dm_del [of k m] by (auto dest!: subsetD)

lemma dm_keyed_getD: "dm_keyed key m \<Longrightarrow> dm_get m k = Some v \<Longrightarrow> key v = k"
  by (auto simp: dm_keyed_def dest: dm_get_mem)

text \<open>Exporting the values of a keyed map and importing them again loses nothing.\<close>

lemma dm_export_import:
  assumes "dm_keyed key m"
  shows "dm_get (dm_put_all key (map snd m) []) k = dm_get m k"
proof -
  have "map key (map snd m) = map fst m"
    using assms by (auto simp: dm_keyed_def)
  then have d: "distinct (map key (map snd m))"
    using assms by (simp only: dm_keyed_def dm_ok_def)
  have "find (\<lambda>x. key x = k) (map snd m) = dm_get m k"
    using assms unfolding dm_keyed_def dm_get_def
    by (induction m) (auto simp: dm_ok_def)
  with dm_get_put_all [OF d, of "[]" k] show ?thesis
    by (simp split: option.split)
qed

section \<open>Lists updated by a key\<close>

text \<open>
  The idiom \<open>if let Some(pos) = v.iter().position(..) { v[pos] = x } else { v.push(x) }\<close>.
\<close>

fun upsert_by :: "('a \<Rightarrow> 'b) \<Rightarrow> 'a \<Rightarrow> 'a list \<Rightarrow> 'a list" where
  "upsert_by key x [] = [x]"
| "upsert_by key x (y # ys) = (if key y = key x then x # ys else y # upsert_by key x ys)"

lemma set_upsert_by:
  "distinct (map key ys) \<Longrightarrow> set (upsert_by key x ys) = insert x {y \<in> set ys. key y \<noteq> key x}"
  by (induction ys) (auto simp: image_iff)

lemma set_upsert_by_subset: "set (upsert_by key x ys) \<subseteq> insert x (set ys)"
  by (induction ys) auto

lemma keys_upsert_by: "set (map key (upsert_by key x ys)) = insert (key x) (set (map key ys))"
  by (induction ys) auto

lemma distinct_upsert_by: "distinct (map key ys) \<Longrightarrow> distinct (map key (upsert_by key x ys))"
proof (induction ys)
  case (Cons y ys)
  then show ?case using keys_upsert_by [of key x ys] by auto
qed simp

lemma length_upsert_by:
  "length (upsert_by key x ys) = (if key x \<in> key ` set ys then length ys else Suc (length ys))"
  by (induction ys) auto

lemma mem_upsert_by [simp]: "x \<in> set (upsert_by key x ys)"
  by (induction ys) auto

section \<open>Clamping and truncation\<close>

definition clamp :: "'a::linorder \<Rightarrow> 'a \<Rightarrow> 'a \<Rightarrow> 'a" where
  "clamp lo hi x = (if x < lo then lo else if hi < x then hi else x)"

lemma clamp_bounds: "lo \<le> hi \<Longrightarrow> lo \<le> clamp lo hi x \<and> clamp lo hi x \<le> hi"
  by (auto simp: clamp_def)

lemma set_take_subset_of: "set xs \<subseteq> A \<Longrightarrow> set (take n xs) \<subseteq> A"
  by (meson set_take_subset subset_trans)

end
