(* ===== verification/Twin_Model.thy ===== *)
theory Twin_Model
  imports Prelude
begin

text \<open>
  The data model of the status twins (\<open>twin-core/src/model.rs\<close>, \<open>error.rs\<close>,
  \<open>ids.rs\<close>, \<open>time_ist.rs\<close>, the period arithmetic of \<open>config.rs\<close>).
  Record fields carry a prefix per record because several records of the code share field names.

  The formatting functions of \<open>chrono\<close> and the hash \<open>SHA-256\<close> are not part of the
  repository: they are the parameters \<open>strftime\<close>, \<open>rfc3339\<close> (record
  \<open>chrono\<close>) and \<open>sha\<close> (the lower-case hexadecimal digest of a byte string).
\<close>

section \<open>Errors\<close>

datatype twin_error =
    TValidation string
  | TNotFound string
  | TConflict string
  | TAclDenied string
  | TEgress string
  | TStorage string
  | TUpstream string
  | TInternal string

type_synonym 'a twin_result = "twin_error + 'a"

text \<open>The \<open>Display\<close> text of an error, as \<open>thiserror\<close> derives it.\<close>

fun twin_error_to_string :: "twin_error \<Rightarrow> string" where
  "twin_error_to_string (TValidation s) = ''validation: '' @ s"
| "twin_error_to_string (TNotFound s) = ''not found: '' @ s"
| "twin_error_to_string (TConflict s) = ''conflict: '' @ s"
| "twin_error_to_string (TAclDenied s) = ''acl denied: '' @ s"
| "twin_error_to_string (TEgress s) = ''egress: '' @ s"
| "twin_error_to_string (TStorage s) = ''storage: '' @ s"
| "twin_error_to_string (TUpstream s) = ''upstream: '' @ s"
| "twin_error_to_string (TInternal s) = ''internal: '' @ s"

section \<open>Enumerations\<close>

datatype confidence_tier = High | Medium | Blocker

fun tier_as_str :: "confidence_tier \<Rightarrow> string" where
  "tier_as_str High = ''high''"
| "tier_as_str Medium = ''medium''"
| "tier_as_str Blocker = ''blocker''"

definition tier_parse :: "string \<Rightarrow> confidence_tier option" where
  "tier_parse s =
     (let l = to_ascii_lowercase s in
      if l = ''high'' then Some High
      else if l = ''medium'' then Some Medium
      else if l = ''blocker'' then Some Blocker
      else None)"

text \<open>
  Severity of a tier: \<open>High\<close> (shipped work) is the mildest, \<open>Blocker\<close> the most severe.
  The order makes the library's \<open>Max\<close> and \<open>fold max\<close> available for the roll-up.
\<close>

fun tier_severity :: "confidence_tier \<Rightarrow> nat" where
  "tier_severity High = 0"
| "tier_severity Medium = 1"
| "tier_severity Blocker = 2"

lemma tier_severity_inject [simp]: "tier_severity a = tier_severity b \<longleftrightarrow> a = b"
  by (cases a; cases b) auto

instantiation confidence_tier :: linorder
begin

definition less_eq_confidence_tier :: "confidence_tier \<Rightarrow> confidence_tier \<Rightarrow> bool" where
  "less_eq_confidence_tier a b = (tier_severity a \<le> tier_severity b)"

definition less_confidence_tier :: "confidence_tier \<Rightarrow> confidence_tier \<Rightarrow> bool" where
  "less_confidence_tier a b = (tier_severity a < tier_severity b)"

instance
  by standard (auto simp: less_eq_confidence_tier_def less_confidence_tier_def)

end

lemma High_le [simp]: "High \<le> c" and le_Blocker [simp]: "c \<le> Blocker"
  by (cases c; simp add: less_eq_confidence_tier_def)+

lemma not_Medium_le_High [simp]: "\<not> Medium \<le> High"
  by (simp add: less_eq_confidence_tier_def)

datatype twin_kind = Person | Team

fun twin_kind_as_str :: "twin_kind \<Rightarrow> string" where
  "twin_kind_as_str Person = ''person''"
| "twin_kind_as_str Team = ''team''"

definition twin_kind_parse :: "string \<Rightarrow> twin_kind option" where
  "twin_kind_parse s =
     (let l = to_ascii_lowercase s in
      if l = ''person'' then Some Person else if l = ''team'' then Some Team else None)"

datatype draft_status =
    Shadow | Pending | Edited | Vetoed | PublishQueued | Published | Expired | ForceHuman
  | PublishFailed

fun status_as_str :: "draft_status \<Rightarrow> string" where
  "status_as_str Shadow = ''shadow''"
| "status_as_str Pending = ''pending''"
| "status_as_str Edited = ''edited''"
| "status_as_str Vetoed = ''vetoed''"
| "status_as_str PublishQueued = ''publish_queued''"
| "status_as_str Published = ''published''"
| "status_as_str Expired = ''expired''"
| "status_as_str ForceHuman = ''force_human''"
| "status_as_str PublishFailed = ''publish_failed''"

definition status_parse :: "string \<Rightarrow> draft_status option" where
  "status_parse s =
     (let l = to_ascii_lowercase s in
      if l = ''shadow'' then Some Shadow
      else if l = ''pending'' then Some Pending
      else if l = ''edited'' then Some Edited
      else if l = ''vetoed'' then Some Vetoed
      else if l = ''publish_queued'' then Some PublishQueued
      else if l = ''published'' then Some Published
      else if l = ''expired'' then Some Expired
      else if l = ''force_human'' then Some ForceHuman
      else if l = ''publish_failed'' then Some PublishFailed
      else None)"

text \<open>Variant names as \<open>{:?}\<close> prints them; they appear in the conflict messages.\<close>

fun status_debug :: "draft_status \<Rightarrow> string" where
  "status_debug Shadow = ''Shadow''"
| "status_debug Pending = ''Pending''"
| "status_debug Edited = ''Edited''"
| "status_debug Vetoed = ''Vetoed''"
| "status_debug PublishQueued = ''PublishQueued''"
| "status_debug Published = ''Published''"
| "status_debug Expired = ''Expired''"
| "status_debug ForceHuman = ''ForceHuman''"
| "status_debug PublishFailed = ''PublishFailed''"

lemma status_roundtrip: "status_parse (status_as_str s) = Some s"
  by (cases s; simp add: status_parse_def ascii_case_eval)

lemma tier_roundtrip: "tier_parse (tier_as_str c) = Some c"
  by (cases c; simp add: tier_parse_def ascii_case_eval)

lemma twin_kind_roundtrip: "twin_kind_parse (twin_kind_as_str k) = Some k"
  by (cases k; simp add: twin_kind_parse_def ascii_case_eval)

lemma status_as_str_inj: "inj status_as_str"
  by (rule injI) (metis status_roundtrip option.inject)

section \<open>Records\<close>

record twin =
  tw_tenant_id :: string
  tw_twin_id :: string
  tw_twin_kind :: twin_kind
  tw_subject_id :: string
  tw_display_name :: string
  tw_timezone :: string
  tw_channel_id :: string
  tw_shadow_until :: "instant option"
  tw_high_auto_publish :: bool
  tw_enabled :: bool
  tw_config_json :: json
  tw_created_at :: instant
  tw_updated_at :: instant

definition is_in_shadow :: "twin \<Rightarrow> instant \<Rightarrow> bool" where
  "is_in_shadow t now = (case tw_shadow_until t of Some u \<Rightarrow> now < u | None \<Rightarrow> False)"

record ledger_period =
  lp_start :: instant
  lp_end :: instant

record ledger_item =
  li_kind :: string
  li_resource_id :: string
  li_node_id :: string
  li_summary :: string
  li_confidence :: confidence_tier
  li_evidence_refs :: "string list"

record blocker_item =
  bi_node_id :: string
  bi_summary :: string
  bi_confidence :: confidence_tier
  bi_evidence_refs :: "string list"

record status_ledger =
  sl_tenant_id :: string
  sl_person_id :: string
  sl_period :: ledger_period
  sl_confidence_rollup :: confidence_tier
  sl_items :: "ledger_item list"
  sl_open_blockers :: "blocker_item list"
  sl_graph_as_of :: instant
  sl_compiled_at :: instant

record ledger_snapshot =
  ls_tenant_id :: string
  ls_ledger_id :: string
  ls_twin_id :: string
  ls_period_start :: instant
  ls_period_end :: instant
  ls_confidence_rollup :: confidence_tier
  ls_ledger :: status_ledger
  ls_graph_as_of :: instant
  ls_compiled_at :: instant

record draft_delivery =
  dd_tenant_id :: string
  dd_draft_id :: string
  dd_ledger_id :: string
  dd_twin_id :: string
  dd_status :: draft_status
  dd_slack_dm_channel :: string
  dd_slack_dm_ts :: string
  dd_draft_text :: string
  dd_edited_text :: "string option"
  dd_veto_deadline :: "instant option"
  dd_created_at :: instant
  dd_updated_at :: instant

definition publish_body :: "draft_delivery \<Rightarrow> string" where
  "publish_body d = unwrap_or (filter_opt (\<lambda>s. s \<noteq> []) (dd_edited_text d)) (dd_draft_text d)"

record publish_record =
  pr_tenant_id :: string
  pr_publish_id :: string
  pr_ledger_id :: string
  pr_draft_id :: string
  pr_channel_id :: string
  pr_slack_ts :: string
  pr_body_hash :: string
  pr_published_at :: instant

record compile_run =
  cr_tenant_id :: string
  cr_run_id :: string
  cr_twin_id :: string
  cr_status :: string
  cr_error_text :: string
  cr_started_at :: instant
  cr_finished_at :: "instant option"

record slack_user_map =
  sm_tenant_id :: string
  sm_global_user_id :: string
  sm_slack_user_id :: string
  sm_slack_team_id :: string

record graph_node_view =
  nv_node_id :: string
  nv_node_type :: string
  nv_display_name :: string
  nv_resource_id :: string
  nv_properties :: json
  nv_is_private :: bool

record graph_edge_view =
  ev_edge_id :: string
  ev_edge_type :: string
  ev_from_node_id :: string
  ev_to_node_id :: string
  ev_event_id :: string
  ev_properties :: json
  ev_is_private :: bool
  ev_valid_from :: "instant option"

record entity_state_view =
  sv_node_id :: string
  sv_state_key :: string
  sv_state_value :: string
  sv_event_id :: string
  sv_as_of :: instant

record graph_view =
  gv_nodes :: "graph_node_view list"
  gv_edges :: "graph_edge_view list"
  gv_states :: "entity_state_view list"
  gv_blockers :: "graph_edge_view list"
  gv_graph_as_of :: "instant option"

definition empty_graph_view :: graph_view where
  "empty_graph_view =
     \<lparr>gv_nodes = [], gv_edges = [], gv_states = [], gv_blockers = [], gv_graph_as_of = None\<rparr>"

section \<open>Time formatting, identifiers and period arithmetic\<close>

record chrono =
  strftime :: "string \<Rightarrow> instant \<Rightarrow> string"
  rfc3339 :: "instant \<Rightarrow> string"

definition to_ist :: "instant \<Rightarrow> instant" where
  "to_ist dt = dt + seconds (5 * 3600 + 30 * 60)"

definition format_ist_list :: "chrono \<Rightarrow> instant \<Rightarrow> string" where
  "format_ist_list ch dt = strftime ch ''%Y-%m-%d %H:%M IST'' (to_ist dt)"

definition person_twin_id :: "string \<Rightarrow> string" where
  "person_twin_id g = ''twin:person:'' @ g"

definition team_twin_id :: "string \<Rightarrow> string" where
  "team_twin_id g = ''twin:team:'' @ g"

definition ledger_id_for ::
  "(string \<Rightarrow> string) \<Rightarrow> chrono \<Rightarrow> string \<Rightarrow> string \<Rightarrow> instant \<Rightarrow> instant \<Rightarrow> string"
where
  "ledger_id_for sha ch tenant twin_id p_start p_end =
     ''led_'' @ take 24 (sha (tenant @ ''|'' @ twin_id @ ''|'' @ rfc3339 ch p_start @ ''|''
       @ rfc3339 ch p_end))"

definition body_hash :: "(string \<Rightarrow> string) \<Rightarrow> string \<Rightarrow> string" where
  "body_hash sha text = sha text"

definition aligned_period :: "int \<Rightarrow> instant \<Rightarrow> instant \<times> instant" where
  "aligned_period status_window_secs now =
     (let w = max status_window_secs 60;
          ts = now div seconds 1;
          start_ts = ts - ts mod w;
          start = seconds start_ts
      in (start, start + seconds w))"

definition activity_lookback :: "int \<Rightarrow> instant \<Rightarrow> instant \<times> instant" where
  "activity_lookback status_window_secs now = (now - seconds (max status_window_secs 60), now)"

subsection \<open>Facts about the period arithmetic\<close>

lemma div_seconds_bounds: "seconds (now div seconds 1) \<le> now" "now < seconds (now div seconds 1 + 1)"
  by (simp_all add: seconds_def)

lemma le_div_seconds: "seconds k \<le> x \<Longrightarrow> k \<le> x div seconds 1"
  by (simp add: seconds_def)

lemma div_seconds_less: "x < seconds k \<Longrightarrow> x div seconds 1 < k"
  by (simp add: seconds_def)

lemma aligned_period_bounds:
  assumes "aligned_period w now = (a, b)"
  shows "a \<le> now" "now < b" "b - a = seconds (max w 60)"
proof -
  let ?w = "max w 60" and ?ts = "now div seconds 1"
  have a: "a = seconds (?ts - ?ts mod ?w)" and b: "b = a + seconds ?w"
    using assms by (auto simp: aligned_period_def Let_def)
  have m: "0 \<le> ?ts mod ?w" "?ts mod ?w < ?w" by simp_all
  have "seconds (?ts - ?ts mod ?w) \<le> seconds ?ts" using m(1) by (simp only: seconds_mono)
  with a show "a \<le> now" using div_seconds_bounds(1)[of now] by linarith
  have "seconds (?ts + 1) \<le> seconds (?ts - ?ts mod ?w + ?w)"
    using m(2) by (simp only: seconds_mono)
  moreover have "b = seconds (?ts - ?ts mod ?w + ?w)"
    by (simp add: a b seconds_def algebra_simps)
  ultimately show "now < b" using div_seconds_bounds(2)[of now] by linarith
  show "b - a = seconds ?w" by (simp add: b)
qed

text \<open>Two instants of the same bucket have the same period: the ledger id is stable in it.\<close>

lemma aligned_period_stable:
  assumes p: "aligned_period w now = (a, b)" and lo: "a \<le> now'" and hi: "now' < b"
  shows "aligned_period w now' = (a, b)"
proof -
  let ?w = "max w 60" and ?ts = "now div seconds 1" and ?ts' = "now' div seconds 1"
  have w: "?w > 0" by simp
  have a: "a = seconds (?ts - ?ts mod ?w)" and b: "b = a + seconds ?w"
    using p by (auto simp: aligned_period_def Let_def)
  have q: "?ts - ?ts mod ?w = ?w * (?ts div ?w)" by (simp add: minus_mod_eq_mult_div)
  have l: "?w * (?ts div ?w) \<le> ?ts'"
    using lo unfolding a q by (rule le_div_seconds)
  have "now' < seconds (?w * (?ts div ?w) + ?w)"
    using hi unfolding b a q by (simp add: seconds_def)
  then have h: "?ts' < ?w * (?ts div ?w) + ?w"
    by (rule div_seconds_less)
  have gen: "y div v = x div v" if "0 < v" "v * (x div v) \<le> y" "y < v * (x div v) + v" for x y v :: int
    using int_div_pos_eq [of y v "x div v" "y - v * (x div v)"] that by simp
  have "?ts' div ?w = ?ts div ?w"
    by (rule gen [OF w l h])
  then show ?thesis
    using b by (simp add: aligned_period_def Let_def a q minus_mod_eq_mult_div)
qed

end
