(* ===== verification/Twin_Confidence.thy ===== *)
theory Twin_Confidence
  imports Twin_Model
begin

text \<open>
  Deterministic confidence scoring (\<open>twin-core/src/confidence.rs\<close>): the tier of one work item
  and the roll-up of a ledger. The lemmas give the roll-up in closed form, compare it with the
  most severe tier of the ledger, and show it is independent of the order of the items.
\<close>

definition score_item_confidence :: "string \<Rightarrow> bool \<Rightarrow> confidence_tier" where
  "score_item_confidence lifecycle has_activity =
     (let lc = to_ascii_uppercase lifecycle in
      if lc \<in> {''MERGED'', ''CLOSED'', ''DONE'', ''RESOLVED''} then High
      else if lc \<in> {''OPEN'', ''IN_PROGRESS'', ''DRAFT''} \<and> has_activity then Medium
      else if lc \<in> {''OPEN'', ''IN_PROGRESS'', ''DRAFT''} then Medium
      else if has_activity then Medium
      else Medium)"

definition roll_up_confidence :: "ledger_item list \<Rightarrow> blocker_item list \<Rightarrow> confidence_tier" where
  "roll_up_confidence items open_blockers =
     (if open_blockers \<noteq> []
         \<or> list_ex (\<lambda>i. li_confidence i = Blocker) items
         \<or> list_ex (\<lambda>b. bi_confidence b = Blocker) open_blockers
      then Blocker
      else if items = [] then Medium
      else if list_ex (\<lambda>i. li_confidence i = Blocker) items then Blocker
      else if list_all (\<lambda>i. li_confidence i = High) items then High
      else if list_ex (\<lambda>i. li_confidence i = High) items
              \<and> list_all (\<lambda>i. li_confidence i = High \<or> li_confidence i = Medium) items
      then (if list_all (\<lambda>i. li_summary i = []) (filter (\<lambda>i. li_confidence i = Medium) items)
            then High else Medium)
      else Medium)"

definition apply_rollup :: "status_ledger \<Rightarrow> status_ledger" where
  "apply_rollup l =
     l\<lparr>sl_confidence_rollup := roll_up_confidence (sl_items l) (sl_open_blockers l)\<rparr>"

definition has_blocker_signal :: "ledger_item list \<Rightarrow> blocker_item list \<Rightarrow> bool" where
  "has_blocker_signal items bs \<longleftrightarrow> bs \<noteq> [] \<or> (\<exists>i \<in> set items. li_confidence i = Blocker)"

lemma roll_up_Blocker_iff: "roll_up_confidence items bs = Blocker \<longleftrightarrow> has_blocker_signal items bs"
  by (auto simp: roll_up_confidence_def has_blocker_signal_def list_ex_iff list_all_iff)

lemma roll_up_High_iff:
  "roll_up_confidence items bs = High \<longleftrightarrow>
     bs = [] \<and> (\<exists>i \<in> set items. li_confidence i = High)
     \<and> (\<forall>i \<in> set items. li_confidence i = High \<or> (li_confidence i = Medium \<and> li_summary i = []))"
proof (cases "has_blocker_signal items bs")
  case True
  then have "roll_up_confidence items bs = Blocker" by (simp add: roll_up_Blocker_iff)
  with True show ?thesis by (force simp: has_blocker_signal_def)
next
  case False
  then have b: "bs = []" "\<forall>i \<in> set items. li_confidence i \<noteq> Blocker"
    by (auto simp: has_blocker_signal_def)
  then have hm: "\<forall>i \<in> set items. li_confidence i = High \<or> li_confidence i = Medium"
    by (meson confidence_tier.exhaust)
  have nb: "\<not> (\<exists>i \<in> set items. li_confidence i = Blocker)" using b(2) by blast
  show ?thesis
  proof (cases "\<exists>i \<in> set items. li_confidence i = High")
    case True
    then have "items \<noteq> []" by auto
    then have "roll_up_confidence items bs = High \<longleftrightarrow>
      (\<forall>i \<in> set items. li_confidence i = High)
      \<or> (\<forall>i \<in> set items. li_confidence i = Medium \<longrightarrow> li_summary i = [])"
      using True b nb hm by (auto simp add: roll_up_confidence_def list_ex_iff list_all_iff)
    then show ?thesis using True b(1) hm by force
  next
    case False
    then have "roll_up_confidence items bs = Medium"
      using b nb by (cases items) (simp_all add: roll_up_confidence_def list_ex_iff list_all_iff)
    with False show ?thesis by simp
  qed
qed

lemma score_never_blocker: "score_item_confidence l a \<noteq> Blocker"
  by (simp add: score_item_confidence_def Let_def)

text \<open>
  The roll-up in closed form: Blocker exactly when some blocker is open or some item is a
  blocker; High exactly when nothing is blocked, at least one item is High and every other item
  is a Medium one with an empty summary; Medium otherwise (in particular for an empty ledger).
  Reordering items or blockers never changes it.
\<close>

lemma roll_up_closed_form:
  "(roll_up_confidence items bs = Blocker \<longleftrightarrow>
      bs \<noteq> [] \<or> (\<exists>i \<in> set items. li_confidence i = Blocker))
   \<and> (roll_up_confidence items bs = High \<longleftrightarrow>
      bs = [] \<and> (\<exists>i \<in> set items. li_confidence i = High)
      \<and> (\<forall>i \<in> set items. li_confidence i = High \<or> (li_confidence i = Medium \<and> li_summary i = [])))
   \<and> (set items' = set items \<longrightarrow> (bs' = [] \<longleftrightarrow> bs = []) \<longrightarrow>
      roll_up_confidence items' bs' = roll_up_confidence items bs)"
proof (intro conjI impI)
  assume s: "set items' = set items" and e: "bs' = [] \<longleftrightarrow> bs = []"
  have "roll_up_confidence items' bs' = c \<longleftrightarrow> roll_up_confidence items bs = c"
    if "c = High \<or> c = Blocker" for c
    using that s e by (auto simp: roll_up_High_iff roll_up_Blocker_iff has_blocker_signal_def)
  then show "roll_up_confidence items' bs' = roll_up_confidence items bs"
    by (metis confidence_tier.exhaust)
qed (simp_all add: roll_up_Blocker_iff roll_up_High_iff has_blocker_signal_def)

definition sample_item :: "confidence_tier \<Rightarrow> string \<Rightarrow> ledger_item" where
  "sample_item c s = \<lparr>li_kind = ''pr'', li_resource_id = ''r'', li_node_id = ''n'',
     li_summary = s, li_confidence = c, li_evidence_refs = [''event:e1'']\<rparr>"

lemma roll_up_closed_form_witness:
  "roll_up_confidence [sample_item Medium [], sample_item High ''s''] [] = High
   \<and> roll_up_confidence [sample_item High ''s'', sample_item Medium []] [] = High"
proof -
  have h: "roll_up_confidence [sample_item Medium [], sample_item High ''s''] [] = High"
    by (simp add: roll_up_confidence_def sample_item_def)
  have "set [sample_item High ''s'', sample_item Medium []]
        = set [sample_item Medium [], sample_item High ''s'']"
    by auto
  with h roll_up_closed_form
    [of "[sample_item Medium [], sample_item High ''s'']" "[]"
        "[sample_item High ''s'', sample_item Medium []]" "[]"]
  show ?thesis by simp
qed

end
