(* ===== verification/Once_Register.thy ===== *)
theory Once_Register
  imports Prelude
begin

text \<open>
  The interface of a register that accepts one value per key: the first \<open>put\<close> for a key wins
  and reports \<open>True\<close>, later ones change nothing and report \<open>False\<close>. The publish records of
  the twin store and the applied-event set of the graph store both provide it; the exactly-once
  lemmas are proved here once. \<open>fresh v s\<close> is what the provider needs of a new value (a
  publish id that is not in use, say).
\<close>

text \<open>A sequence of puts, each fresh in the state it meets, and the values that won.\<close>

fun puts :: "('v \<Rightarrow> 's \<Rightarrow> 's \<times> bool) \<Rightarrow> 'v list \<Rightarrow> 's \<Rightarrow> 's" where
  "puts put [] s = s"
| "puts put (v # vs) s = puts put vs (fst (put v s))"

fun winners :: "('v \<Rightarrow> 's \<Rightarrow> 's \<times> bool) \<Rightarrow> 'v list \<Rightarrow> 's \<Rightarrow> 'v list" where
  "winners put [] s = []"
| "winners put (v # vs) s = (if snd (put v s) then [v] else []) @ winners put vs (fst (put v s))"

fun all_fresh :: "('v \<Rightarrow> 's \<Rightarrow> 's \<times> bool) \<Rightarrow> ('v \<Rightarrow> 's \<Rightarrow> bool) \<Rightarrow> 'v list \<Rightarrow> 's \<Rightarrow> bool"
where
  "all_fresh put fresh [] s \<longleftrightarrow> True"
| "all_fresh put fresh (v # vs) s \<longleftrightarrow> fresh v s \<and> all_fresh put fresh vs (fst (put v s))"

locale once_register =
  fixes put :: "'v \<Rightarrow> 's \<Rightarrow> 's \<times> bool"
    and get :: "'s \<Rightarrow> 'k \<Rightarrow> 'v option"
    and key :: "'v \<Rightarrow> 'k"
    and fresh :: "'v \<Rightarrow> 's \<Rightarrow> bool"
    and invar :: "'s \<Rightarrow> bool"
  assumes put_new: "invar s \<Longrightarrow> fresh v s \<Longrightarrow> get s (key v) = None \<Longrightarrow>
      snd (put v s) \<and> get (fst (put v s)) = (get s)(key v \<mapsto> v) \<and> invar (fst (put v s))"
    and put_taken: "invar s \<Longrightarrow> get s (key v) = Some w \<Longrightarrow> put v s = (s, False)"
begin

lemma put_result: "invar s \<Longrightarrow> fresh v s \<Longrightarrow> snd (put v s) \<longleftrightarrow> get s (key v) = None"
  using put_new [of s v] put_taken [of s v] by (cases "get s (key v)") auto

lemma put_invar: "invar s \<Longrightarrow> fresh v s \<Longrightarrow> invar (fst (put v s))"
  using put_new [of s v] put_taken [of s v] by (cases "get s (key v)") auto

lemma get_stable: "invar s \<Longrightarrow> fresh v s \<Longrightarrow> get s k = Some w \<Longrightarrow> get (fst (put v s)) k = Some w"
  using put_new [of s v] put_taken [of s v] by (cases "get s (key v)") auto

lemma get_after_put:
  "invar s \<Longrightarrow> fresh v s \<Longrightarrow>
   get (fst (put v s)) (key v) = (case get s (key v) of None \<Rightarrow> Some v | Some w \<Rightarrow> Some w)"
  using put_new [of s v] put_taken [of s v] by (cases "get s (key v)") auto

lemma puts_stable:
  "invar s \<Longrightarrow> all_fresh put fresh vs s \<Longrightarrow> get s k = Some w \<Longrightarrow> get (puts put vs s) k = Some w"
  by (induction vs arbitrary: s) (auto simp: put_invar get_stable)

lemma winners_new: "invar s \<Longrightarrow> all_fresh put fresh vs s \<Longrightarrow> w \<in> set (winners put vs s) \<Longrightarrow> get s (key w) = None"
proof (induction vs arbitrary: s)
  case (Cons v vs)
  let ?s = "fst (put v s)"
  have i: "invar ?s" and f: "all_fresh put fresh vs ?s" using Cons.prems by (auto simp: put_invar)
  show ?case
  proof (cases "w \<in> set (winners put vs ?s)")
    case True
    then have "get ?s (key w) = None" using Cons.IH i f by blast
    then show ?thesis using get_stable [of s v "key w"] Cons.prems by (cases "get s (key w)") auto
  next
    case False
    then show ?thesis using Cons.prems by (auto simp: put_result split: if_splits)
  qed
qed simp

lemma winners_distinct: "invar s \<Longrightarrow> all_fresh put fresh vs s \<Longrightarrow> distinct (map key (winners put vs s))"
proof (induction vs arbitrary: s)
  case (Cons v vs)
  let ?s = "fst (put v s)"
  have i: "invar ?s" and f: "all_fresh put fresh vs ?s" using Cons.prems by (auto simp: put_invar)
  have "get ?s (key v) \<noteq> None"
    using Cons.prems get_after_put [of s v] by (auto split: option.splits)
  then have "key v \<notin> key ` set (winners put vs ?s)"
    using winners_new [OF i f] by (metis image_iff)
  with Cons.IH [OF i f] show ?case by auto
qed simp

lemma winners_stored:
  "invar s \<Longrightarrow> all_fresh put fresh vs s \<Longrightarrow> w \<in> set (winners put vs s) \<Longrightarrow> get (puts put vs s) (key w) = Some w"
proof (induction vs arbitrary: s)
  case (Cons v vs)
  let ?s = "fst (put v s)"
  have i: "invar ?s" and f: "all_fresh put fresh vs ?s" using Cons.prems by (auto simp: put_invar)
  show ?case
  proof (cases "w \<in> set (winners put vs ?s)")
    case True
    then show ?thesis using Cons.IH i f by simp
  next
    case False
    then have "w = v" "get s (key v) = None"
      using Cons.prems by (auto simp: put_result split: if_splits)
    then have "get ?s (key w) = Some w" using Cons.prems get_after_put [of s v] by simp
    then show ?thesis using puts_stable [OF i f] by simp
  qed
qed simp

end

section \<open>Idempotent consumers\<close>

text \<open>
  A consumer that puts the key of a message into the register and, when it was the first to do so,
  applies the message: \<open>apply_m\<close> must leave the register alone.
\<close>

fun deliver :: "('v \<Rightarrow> 's \<Rightarrow> 's \<times> bool) \<Rightarrow> ('m \<Rightarrow> 's \<Rightarrow> 's) \<Rightarrow> 'v \<times> 'm \<Rightarrow> 's \<Rightarrow> 's" where
  "deliver put apply_m (v, m) s = (let (s', first) = put v s in if first then apply_m m s' else s')"

locale idempotent_consumer = once_register put get key "\<lambda>_ _. True" invar
  for put :: "'v \<Rightarrow> 's \<Rightarrow> 's \<times> bool" and get :: "'s \<Rightarrow> 'k \<Rightarrow> 'v option" and key :: "'v \<Rightarrow> 'k"
    and invar :: "'s \<Rightarrow> bool" +
  fixes apply_m :: "'m \<Rightarrow> 's \<Rightarrow> 's"
  assumes apply_get: "invar s \<Longrightarrow> get (apply_m m s) = get s"
    and apply_invar: "invar s \<Longrightarrow> invar (apply_m m s)"
begin

lemma deliver_invar: "invar s \<Longrightarrow> invar (deliver put apply_m x s)"
  using put_invar [where s = s and v = "fst x"] apply_invar by (cases x) (auto split: prod.split)

lemma deliver_get_stable: "invar s \<Longrightarrow> get s k = Some w \<Longrightarrow> get (deliver put apply_m x s) k = Some w"
  using put_invar [where s = s and v = "fst x"] get_stable [where s = s and v = "fst x" and k = k and w = w] by (cases x) (auto simp: apply_get split: prod.split)

lemma deliver_marks: "invar s \<Longrightarrow> get (deliver put apply_m (v, m) s) (key v) \<noteq> None"
  using put_invar [where s = s and v = v] get_after_put [where s = s and v = v]
  by (auto simp: apply_get split: prod.split option.splits)

lemma deliver_known: "invar s \<Longrightarrow> get s (key v) \<noteq> None \<Longrightarrow> deliver put apply_m (v, m) s = s"
  using put_taken [where s = s and v = v] by auto

lemma deliver_all_invar: "invar s \<Longrightarrow> invar (fold (deliver put apply_m) xs s)"
  by (induction xs arbitrary: s) (simp_all add: deliver_invar del: deliver.simps)

lemma deliver_all_stable:
  "invar s \<Longrightarrow> get s k \<noteq> None \<Longrightarrow> get (fold (deliver put apply_m) xs s) k \<noteq> None"
proof (induction xs arbitrary: s)
  case (Cons x xs)
  then show ?case using deliver_get_stable [where s = s and k = k and x = x] deliver_invar [where s = s and x = x] by (auto simp del: deliver.simps)
qed simp

lemma redelivery:
  assumes "invar s"
  shows "fold (deliver put apply_m) (xs @ (v, m) # ys @ (v, m') # zs) s
    = fold (deliver put apply_m) (xs @ (v, m) # ys @ zs) s"
proof -
  let ?run = "fold (deliver put apply_m)"
  let ?s = "?run ys (deliver put apply_m (v, m) (?run xs s))"
  have i: "invar (?run xs s)" "invar (deliver put apply_m (v, m) (?run xs s))" "invar ?s"
    using assms by (simp_all add: deliver_all_invar deliver_invar del: deliver.simps)
  have "get ?s (key v) \<noteq> None"
    by (rule deliver_all_stable [OF i(2) deliver_marks [OF i(1)]])
  then have "deliver put apply_m (v, m') ?s = ?s" using deliver_known i(3) by blast
  then show ?thesis by (simp del: deliver.simps)
qed

end

end
