(* ===== verification/Twin_Store.thy ===== *)
theory Twin_Store
  imports Twin_Model Once_Register
begin

text \<open>
  The embedded twin store (\<open>twin-core/src/store.rs\<close>): its ten maps, every operation of
  \<open>InMemoryTwinStore\<close>, and the snapshot that survives a restart. Reads of the Rust trait that
  cannot fail return their value directly; an operation that can fail returns a
  \<open>twin_result\<close>. \<open>RFC 3339\<close> formatting is the parameter \<open>rfc3339\<close> of \<open>chrono\<close>.
\<close>

record twin_store =
  ts_twins :: "(string \<times> string, twin) dashmap"
  ts_slack_map :: "(string \<times> string, slack_user_map) dashmap"
  ts_ledgers :: "(string \<times> string, ledger_snapshot) dashmap"
  ts_ledger_period :: "(string \<times> string \<times> string \<times> string, string) dashmap"
  ts_drafts :: "(string \<times> string, draft_delivery) dashmap"
  ts_draft_by_ledger :: "(string \<times> string, string) dashmap"
  ts_publishes :: "(string \<times> string, publish_record) dashmap"
  ts_publish_by_ledger :: "(string \<times> string, string) dashmap"
  ts_compile_runs :: "(string \<times> string, compile_run) dashmap"
  ts_tenant_kv :: "(string \<times> string, json) dashmap"

definition new_twin_store :: twin_store where
  "new_twin_store =
     \<lparr>ts_twins = [], ts_slack_map = [], ts_ledgers = [], ts_ledger_period = [], ts_drafts = [],
      ts_draft_by_ledger = [], ts_publishes = [], ts_publish_by_ledger = [], ts_compile_runs = [],
      ts_tenant_kv = []\<rparr>"

section \<open>Tenant key-value blobs, twins, slack maps, compile runs\<close>

definition get_tenant_kv :: "twin_store \<Rightarrow> string \<Rightarrow> string \<Rightarrow> json option" where
  "get_tenant_kv s tenant k = dm_get (ts_tenant_kv s) (tenant, k)"

definition put_tenant_kv :: "string \<Rightarrow> string \<Rightarrow> json \<Rightarrow> twin_store \<Rightarrow> twin_store" where
  "put_tenant_kv tenant k v s = s\<lparr>ts_tenant_kv := dm_put (tenant, k) v (ts_tenant_kv s)\<rparr>"

abbreviation twin_key :: "twin \<Rightarrow> string \<times> string" where
  "twin_key t \<equiv> (tw_tenant_id t, tw_twin_id t)"

definition upsert_twin :: "twin \<Rightarrow> twin_store \<Rightarrow> twin_store" where
  "upsert_twin t s = s\<lparr>ts_twins := dm_put (twin_key t) t (ts_twins s)\<rparr>"

definition get_twin :: "twin_store \<Rightarrow> string \<Rightarrow> string \<Rightarrow> twin option" where
  "get_twin s tenant twin_id = dm_get (ts_twins s) (tenant, twin_id)"

definition list_twins :: "twin_store \<Rightarrow> string \<Rightarrow> twin list" where
  "list_twins s tenant = map snd (filter (\<lambda>e. fst (fst e) = tenant) (ts_twins s))"

abbreviation slack_key :: "slack_user_map \<Rightarrow> string \<times> string" where
  "slack_key m \<equiv> (sm_tenant_id m, sm_global_user_id m)"

definition put_slack_map :: "slack_user_map \<Rightarrow> twin_store \<Rightarrow> twin_store" where
  "put_slack_map m s = s\<lparr>ts_slack_map := dm_put (slack_key m) m (ts_slack_map s)\<rparr>"

definition get_slack_map :: "twin_store \<Rightarrow> string \<Rightarrow> string \<Rightarrow> slack_user_map option" where
  "get_slack_map s tenant user = dm_get (ts_slack_map s) (tenant, user)"

definition list_slack_maps :: "twin_store \<Rightarrow> string \<Rightarrow> slack_user_map list" where
  "list_slack_maps s tenant = map snd (filter (\<lambda>e. fst (fst e) = tenant) (ts_slack_map s))"

definition put_compile_run :: "compile_run \<Rightarrow> twin_store \<Rightarrow> twin_store" where
  "put_compile_run r s =
     s\<lparr>ts_compile_runs := dm_put (cr_tenant_id r, cr_run_id r) r (ts_compile_runs s)\<rparr>"

section \<open>Ledgers\<close>

abbreviation ledger_key :: "ledger_snapshot \<Rightarrow> string \<times> string" where
  "ledger_key l \<equiv> (ls_tenant_id l, ls_ledger_id l)"

definition period_key :: "chrono \<Rightarrow> ledger_snapshot \<Rightarrow> string \<times> string \<times> string \<times> string" where
  "period_key ch l =
     (ls_tenant_id l, ls_twin_id l, rfc3339 ch (ls_period_start l), rfc3339 ch (ls_period_end l))"

definition put_ledger :: "chrono \<Rightarrow> ledger_snapshot \<Rightarrow> twin_store \<Rightarrow> twin_error + twin_store" where
  "put_ledger ch l s =
     (if dm_get (ts_publish_by_ledger s) (ledger_key l) \<noteq> None
      then Inl (TConflict (''ledger '' @ ls_ledger_id l @ '' already published''))
      else
        let pk = period_key ch l;
            ledgers1 = (case dm_get (ts_ledger_period s) pk of
                None \<Rightarrow> ts_ledgers s
              | Some existing_id \<Rightarrow>
                  if existing_id \<noteq> ls_ledger_id l
                  then dm_del (ls_tenant_id l, existing_id) (ts_ledgers s) else ts_ledgers s)
        in Inr (s\<lparr>ts_ledger_period := dm_put pk (ls_ledger_id l) (ts_ledger_period s),
                  ts_ledgers := dm_put (ledger_key l) l ledgers1\<rparr>))"

definition get_ledger :: "twin_store \<Rightarrow> string \<Rightarrow> string \<Rightarrow> ledger_snapshot option" where
  "get_ledger s tenant ledger_id = dm_get (ts_ledgers s) (tenant, ledger_id)"

definition get_ledger_by_period ::
  "chrono \<Rightarrow> twin_store \<Rightarrow> string \<Rightarrow> string \<Rightarrow> instant \<Rightarrow> instant \<Rightarrow> ledger_snapshot option"
where
  "get_ledger_by_period ch s tenant twin_id p_start p_end =
     (case dm_get (ts_ledger_period s) (tenant, twin_id, rfc3339 ch p_start, rfc3339 ch p_end) of
        Some i \<Rightarrow> get_ledger s tenant i
      | None \<Rightarrow> None)"

section \<open>Drafts\<close>

abbreviation draft_key :: "draft_delivery \<Rightarrow> string \<times> string" where
  "draft_key d \<equiv> (dd_tenant_id d, dd_draft_id d)"

abbreviation draft_ledger_key :: "draft_delivery \<Rightarrow> string \<times> string" where
  "draft_ledger_key d \<equiv> (dd_tenant_id d, dd_ledger_id d)"

definition put_draft :: "draft_delivery \<Rightarrow> twin_store \<Rightarrow> twin_error + twin_store" where
  "put_draft d s =
     (if (case dm_get (ts_draft_by_ledger s) (draft_ledger_key d) of
            Some existing_id \<Rightarrow> existing_id \<noteq> dd_draft_id d
          | None \<Rightarrow> False)
      then Inl (TConflict (''draft already exists for ledger '' @ dd_ledger_id d))
      else Inr (s\<lparr>ts_draft_by_ledger :=
                    dm_put (draft_ledger_key d) (dd_draft_id d) (ts_draft_by_ledger s),
                  ts_drafts := dm_put (draft_key d) d (ts_drafts s)\<rparr>))"

definition get_draft :: "twin_store \<Rightarrow> string \<Rightarrow> string \<Rightarrow> draft_delivery option" where
  "get_draft s tenant draft_id = dm_get (ts_drafts s) (tenant, draft_id)"

definition get_draft_by_ledger :: "twin_store \<Rightarrow> string \<Rightarrow> string \<Rightarrow> draft_delivery option" where
  "get_draft_by_ledger s tenant ledger_id =
     (case dm_get (ts_draft_by_ledger s) (tenant, ledger_id) of
        Some i \<Rightarrow> get_draft s tenant i
      | None \<Rightarrow> None)"

definition update_draft :: "draft_delivery \<Rightarrow> twin_store \<Rightarrow> twin_error + twin_store" where
  "update_draft d s =
     (if dm_get (ts_drafts s) (draft_key d) = None
      then Inl (TNotFound (''draft '' @ dd_draft_id d))
      else Inr (s\<lparr>ts_drafts := dm_put (draft_key d) d (ts_drafts s)\<rparr>))"

definition list_drafts_for_twin :: "twin_store \<Rightarrow> string \<Rightarrow> string \<Rightarrow> draft_delivery list" where
  "list_drafts_for_twin s tenant twin_id =
     sort_key (\<lambda>d. - dd_updated_at d)
       (map snd (filter (\<lambda>e. fst (fst e) = tenant \<and> dd_twin_id (snd e) = twin_id) (ts_drafts s)))"

definition latest_draft_for_twin :: "twin_store \<Rightarrow> string \<Rightarrow> string \<Rightarrow> draft_delivery option" where
  "latest_draft_for_twin s tenant twin_id =
     (case list_drafts_for_twin s tenant twin_id of [] \<Rightarrow> None | d # _ \<Rightarrow> Some d)"

section \<open>Publish records\<close>

abbreviation publish_ledger_key :: "publish_record \<Rightarrow> string \<times> string" where
  "publish_ledger_key r \<equiv> (pr_tenant_id r, pr_ledger_id r)"

definition put_publish_if_absent :: "publish_record \<Rightarrow> twin_store \<Rightarrow> twin_store \<times> bool" where
  "put_publish_if_absent r s =
     (if dm_get (ts_publish_by_ledger s) (publish_ledger_key r) \<noteq> None then (s, False)
      else (s\<lparr>ts_publish_by_ledger :=
                dm_put (publish_ledger_key r) (pr_publish_id r) (ts_publish_by_ledger s),
              ts_publishes := dm_put (pr_tenant_id r, pr_publish_id r) r (ts_publishes s)\<rparr>,
            True))"

definition get_publish_by_ledger :: "twin_store \<Rightarrow> string \<Rightarrow> string \<Rightarrow> publish_record option" where
  "get_publish_by_ledger s tenant ledger_id =
     (case dm_get (ts_publish_by_ledger s) (tenant, ledger_id) of
        Some i \<Rightarrow> dm_get (ts_publishes s) (tenant, i)
      | None \<Rightarrow> None)"

section \<open>Snapshots\<close>

record twin_persist_snapshot =
  tps_version :: nat
  tps_saved_at :: "string option"
  tps_twins :: "twin list"
  tps_slack_maps :: "slack_user_map list"
  tps_drafts :: "draft_delivery list"
  tps_ledgers :: "ledger_snapshot list"
  tps_tenant_kv :: "((string \<times> string) \<times> json) list"

definition twin_export_snapshot :: "chrono \<Rightarrow> instant \<Rightarrow> twin_store \<Rightarrow> twin_persist_snapshot" where
  "twin_export_snapshot ch now s =
     \<lparr>tps_version = 2, tps_saved_at = Some (rfc3339 ch now),
      tps_twins = map snd (ts_twins s), tps_slack_maps = map snd (ts_slack_map s),
      tps_drafts = map snd (ts_drafts s), tps_ledgers = map snd (ts_ledgers s),
      tps_tenant_kv = map (\<lambda>e. (fst e, snd e)) (ts_tenant_kv s)\<rparr>"

definition import_draft :: "draft_delivery \<Rightarrow> twin_store \<Rightarrow> twin_store" where
  "import_draft d s =
     s\<lparr>ts_draft_by_ledger := dm_put (draft_ledger_key d) (dd_draft_id d) (ts_draft_by_ledger s),
       ts_drafts := dm_put (draft_key d) d (ts_drafts s)\<rparr>"

definition import_ledger :: "chrono \<Rightarrow> ledger_snapshot \<Rightarrow> twin_store \<Rightarrow> twin_store" where
  "import_ledger ch l s =
     s\<lparr>ts_ledger_period := dm_put (period_key ch l) (ls_ledger_id l) (ts_ledger_period s),
       ts_ledgers := dm_put (ledger_key l) l (ts_ledgers s)\<rparr>"

definition twin_import_snapshot ::
  "chrono \<Rightarrow> twin_persist_snapshot \<Rightarrow> twin_store \<Rightarrow> twin_store"
where
  "twin_import_snapshot ch p s =
     fold (\<lambda>e. put_tenant_kv (fst (fst e)) (snd (fst e)) (snd e)) (tps_tenant_kv p)
       (fold (import_ledger ch) (tps_ledgers p)
         (fold import_draft (tps_drafts p)
           (fold put_slack_map (tps_slack_maps p) (fold upsert_twin (tps_twins p) s))))"

section \<open>The store invariant\<close>

text \<open>
  Every map is keyed by its value's own identifiers; the two indices point at existing records of
  their own ledger, and every draft is the one its ledger's index names.
\<close>

definition twin_store_inv :: "twin_store \<Rightarrow> bool" where
  "twin_store_inv s \<longleftrightarrow>
     dm_keyed twin_key (ts_twins s) \<and> dm_keyed slack_key (ts_slack_map s)
     \<and> dm_keyed ledger_key (ts_ledgers s) \<and> dm_keyed draft_key (ts_drafts s)
     \<and> dm_keyed (\<lambda>r. (pr_tenant_id r, pr_publish_id r)) (ts_publishes s)
     \<and> dm_keyed (\<lambda>r. (cr_tenant_id r, cr_run_id r)) (ts_compile_runs s)
     \<and> dm_ok (ts_tenant_kv s) \<and> dm_ok (ts_draft_by_ledger s) \<and> dm_ok (ts_publish_by_ledger s)
     \<and> dm_ok (ts_ledger_period s)
     \<and> (\<forall>t l i. dm_get (ts_draft_by_ledger s) (t, l) = Some i \<longrightarrow>
          (\<exists>d. dm_get (ts_drafts s) (t, i) = Some d \<and> dd_ledger_id d = l))
     \<and> (\<forall>k d. dm_get (ts_drafts s) k = Some d \<longrightarrow>
          dm_get (ts_draft_by_ledger s) (draft_ledger_key d) = Some (dd_draft_id d))
     \<and> (\<forall>t l i. dm_get (ts_publish_by_ledger s) (t, l) = Some i \<longrightarrow>
          (\<exists>r. dm_get (ts_publishes s) (t, i) = Some r \<and> pr_ledger_id r = l))"

lemma twin_store_inv_new: "twin_store_inv new_twin_store"
  by (simp add: twin_store_inv_def new_twin_store_def)

lemma inv_upsert_twin: "twin_store_inv s \<Longrightarrow> twin_store_inv (upsert_twin t s)"
  by (simp add: twin_store_inv_def upsert_twin_def)

lemma inv_put_slack_map: "twin_store_inv s \<Longrightarrow> twin_store_inv (put_slack_map m s)"
  by (simp add: twin_store_inv_def put_slack_map_def)

lemma inv_put_tenant_kv: "twin_store_inv s \<Longrightarrow> twin_store_inv (put_tenant_kv t k v s)"
  by (simp add: twin_store_inv_def put_tenant_kv_def)

lemma inv_put_compile_run: "twin_store_inv s \<Longrightarrow> twin_store_inv (put_compile_run r s)"
  by (simp add: twin_store_inv_def put_compile_run_def)

lemma inv_put_ledger: "twin_store_inv s \<Longrightarrow> put_ledger ch l s = Inr s' \<Longrightarrow> twin_store_inv s'"
  by (auto simp: twin_store_inv_def put_ledger_def Let_def split: if_splits option.splits)

definition draft_moves_ledger :: "draft_delivery \<Rightarrow> twin_store \<Rightarrow> bool" where
  "draft_moves_ledger d s \<longleftrightarrow>
     (\<exists>d0. dm_get (ts_drafts s) (draft_key d) = Some d0 \<and> dd_ledger_id d0 \<noteq> dd_ledger_id d)"

lemma inv_put_draft:
  assumes i: "twin_store_inv s" and p: "put_draft d s = Inr s'" and m: "\<not> draft_moves_ledger d s"
  shows "twin_store_inv s'"
proof -
  have s': "s' = s\<lparr>ts_draft_by_ledger :=
        dm_put (draft_ledger_key d) (dd_draft_id d) (ts_draft_by_ledger s),
      ts_drafts := dm_put (draft_key d) d (ts_drafts s)\<rparr>"
    and free: "\<And>i. dm_get (ts_draft_by_ledger s) (draft_ledger_key d) = Some i \<Longrightarrow> i = dd_draft_id d"
    using p by (auto simp: put_draft_def split: if_splits option.splits)
  have keyed: "\<And>k d0. dm_get (ts_drafts s) k = Some d0 \<Longrightarrow> draft_key d0 = k"
    using i by (auto simp: twin_store_inv_def dest: dm_keyed_getD)
  have bwd: "\<And>k d0. dm_get (ts_drafts s) k = Some d0 \<Longrightarrow>
      dm_get (ts_draft_by_ledger s) (draft_ledger_key d0) = Some (dd_draft_id d0)"
    and fwd: "\<And>t l i. dm_get (ts_draft_by_ledger s) (t, l) = Some i \<Longrightarrow>
      \<exists>d0. dm_get (ts_drafts s) (t, i) = Some d0 \<and> dd_ledger_id d0 = l"
    using i by (auto simp: twin_store_inv_def)
  have fwd2: "\<exists>d0. dm_get (ts_drafts s') (t, i) = Some d0 \<and> dd_ledger_id d0 = l"
    if "dm_get (ts_draft_by_ledger s') (t, l) = Some i" for t l i
    using that fwd [of t l i] m unfolding s' by (auto simp: draft_moves_ledger_def split: if_splits)
  have bwd2: "dm_get (ts_draft_by_ledger s') (draft_ledger_key d0) = Some (dd_draft_id d0)"
    if "dm_get (ts_drafts s') k = Some d0" for k d0
  proof (cases "k = draft_key d")
    case True
    then show ?thesis using that by (simp add: s')
  next
    case False
    with that have g: "dm_get (ts_drafts s) k = Some d0" by (simp add: s')
    have "draft_ledger_key d0 \<noteq> draft_ledger_key d"
    proof
      assume e: "draft_ledger_key d0 = draft_ledger_key d"
      then have "dd_draft_id d0 = dd_draft_id d" using bwd [OF g] free by simp
      with e keyed [OF g] False show False by simp
    qed
    then show ?thesis using bwd [OF g] by (auto simp: s')
  qed
  show ?thesis
    using i fwd2 bwd2 by (simp add: twin_store_inv_def s')
qed

lemma inv_update_draft:
  assumes i: "twin_store_inv s" and u: "update_draft d s = Inr s'" and m: "\<not> draft_moves_ledger d s"
  shows "twin_store_inv s'"
proof -
  obtain d0 where d0: "dm_get (ts_drafts s) (draft_key d) = Some d0"
    and s': "s' = s\<lparr>ts_drafts := dm_put (draft_key d) d (ts_drafts s)\<rparr>"
    using u by (auto simp: update_draft_def split: if_splits)
  have l: "dd_ledger_id d0 = dd_ledger_id d" using m d0 by (auto simp: draft_moves_ledger_def)
  have k: "draft_key d0 = draft_key d"
    using i d0 by (auto simp: twin_store_inv_def dest: dm_keyed_getD)
  have "dm_get (ts_draft_by_ledger s) (draft_ledger_key d0) = Some (dd_draft_id d0)"
    using i d0 unfolding twin_store_inv_def by blast
  then have "dm_get (ts_draft_by_ledger s) (draft_ledger_key d) = Some (dd_draft_id d)"
    using k l by simp
  moreover have "\<exists>d1. dm_get (ts_drafts s') (t, i) = Some d1 \<and> dd_ledger_id d1 = lg"
    if "dm_get (ts_draft_by_ledger s) (t, lg) = Some i" for t lg i
  proof -
    have "\<exists>d1. dm_get (ts_drafts s) (t, i) = Some d1 \<and> dd_ledger_id d1 = lg"
      using i that by (simp add: twin_store_inv_def)
    then show ?thesis using d0 l by (auto simp: s')
  qed
  ultimately show ?thesis
    using i by (simp add: twin_store_inv_def s')
qed

lemma inv_put_publish:
  assumes i: "twin_store_inv s"
    and f: "dm_get (ts_publishes s) (pr_tenant_id r, pr_publish_id r) = None"
  shows "twin_store_inv (fst (put_publish_if_absent r s))"
proof -
  have k: "dm_keyed (\<lambda>r. (pr_tenant_id r, pr_publish_id r))
      (dm_put (pr_tenant_id r, pr_publish_id r) r (ts_publishes s))"
    using i by (simp add: twin_store_inv_def)
  have "\<forall>t l i. dm_get (ts_publish_by_ledger s) (t, l) = Some i \<longrightarrow>
      (\<exists>r. dm_get (ts_publishes s) (t, i) = Some r \<and> pr_ledger_id r = l)"
    using i by (simp add: twin_store_inv_def)
  with f have "\<forall>t l i. dm_get (ts_publish_by_ledger s) (t, l) = Some i \<longrightarrow>
      (\<exists>r'. dm_get (dm_put (pr_tenant_id r, pr_publish_id r) r (ts_publishes s)) (t, i) = Some r'
         \<and> pr_ledger_id r' = l)"
    by fastforce
  with i k show ?thesis
    by (simp add: twin_store_inv_def put_publish_if_absent_def)
qed

text \<open>Frame facts: which reads an operation leaves alone.\<close>

lemma get_draft_update:
  "update_draft d s = Inr s' \<Longrightarrow>
   get_draft s' t i = (if (t, i) = draft_key d then Some d else get_draft s t i)"
  by (auto simp: update_draft_def get_draft_def split: if_splits)

lemma publish_after_update:
  "update_draft d s = Inr s' \<Longrightarrow> get_publish_by_ledger s' t l = get_publish_by_ledger s t l"
  by (auto simp: update_draft_def get_publish_by_ledger_def split: if_splits option.split)

lemma get_draft_put:
  "put_draft d s = Inr s' \<Longrightarrow>
   get_draft s' t i = (if (t, i) = draft_key d then Some d else get_draft s t i)"
  by (auto simp: put_draft_def get_draft_def split: if_splits option.splits)

lemma upsert_twin_frame [simp]:
  "get_draft (upsert_twin t s) a b = get_draft s a b"
  "get_ledger (upsert_twin t s) a b = get_ledger s a b"
  "get_publish_by_ledger (upsert_twin t s) a b = get_publish_by_ledger s a b"
  "get_draft_by_ledger (upsert_twin t s) a b = get_draft_by_ledger s a b"
  "get_slack_map (upsert_twin t s) a b = get_slack_map s a b"
  by (simp_all add: upsert_twin_def get_draft_def get_ledger_def get_publish_by_ledger_def
    get_draft_by_ledger_def get_slack_map_def split: option.split)

lemma publish_put_frame [simp]:
  "ts_drafts (fst (put_publish_if_absent r s)) = ts_drafts s"
  "ts_draft_by_ledger (fst (put_publish_if_absent r s)) = ts_draft_by_ledger s"
  "ts_ledgers (fst (put_publish_if_absent r s)) = ts_ledgers s"
  by (simp_all add: put_publish_if_absent_def)

section \<open>Publish records are written once\<close>

definition publish_lookup :: "twin_store \<Rightarrow> string \<times> string \<Rightarrow> publish_record option" where
  "publish_lookup s k = get_publish_by_ledger s (fst k) (snd k)"

definition publish_id_unused :: "publish_record \<Rightarrow> twin_store \<Rightarrow> bool" where
  "publish_id_unused r s \<longleftrightarrow> dm_get (ts_publishes s) (pr_tenant_id r, pr_publish_id r) = None"

lemma inv_publish_lookup_None:
  "twin_store_inv s \<Longrightarrow>
   publish_lookup s (t, l) = None \<longleftrightarrow> dm_get (ts_publish_by_ledger s) (t, l) = None"
  unfolding publish_lookup_def get_publish_by_ledger_def twin_store_inv_def
  by (cases "dm_get (ts_publish_by_ledger s) (t, l)") fastforce+

lemma publish_lookup_put:
  assumes i: "twin_store_inv s" and f: "publish_id_unused r s"
    and n: "publish_lookup s (publish_ledger_key r) = None"
  shows "publish_lookup (fst (put_publish_if_absent r s)) =
    (publish_lookup s)(publish_ledger_key r \<mapsto> r)"
proof
  fix k :: "string \<times> string"
  obtain t l where k: "k = (t, l)" by (cases k)
  have free: "dm_get (ts_publish_by_ledger s) (publish_ledger_key r) = None"
    using n inv_publish_lookup_None [OF i] by simp
  show "publish_lookup (fst (put_publish_if_absent r s)) k =
    ((publish_lookup s)(publish_ledger_key r \<mapsto> r)) k"
  proof (cases "k = publish_ledger_key r")
    case True
    then show ?thesis
      using free by (simp add: k publish_lookup_def get_publish_by_ledger_def put_publish_if_absent_def)
  next
    case False
    have "dm_get (ts_publish_by_ledger s) (t, l) = Some j \<Longrightarrow> (t, j) \<noteq> (pr_tenant_id r, pr_publish_id r)"
      for j
      using i f unfolding twin_store_inv_def publish_id_unused_def by fastforce
    with False free show ?thesis
      by (auto simp: k publish_lookup_def get_publish_by_ledger_def put_publish_if_absent_def
        split: option.split)
  qed
qed

interpretation publish_once: once_register put_publish_if_absent publish_lookup publish_ledger_key
  publish_id_unused twin_store_inv
proof
  fix s :: twin_store and r :: publish_record
  assume i: "twin_store_inv s" and f: "publish_id_unused r s"
    and n: "publish_lookup s (publish_ledger_key r) = None"
  have "dm_get (ts_publish_by_ledger s) (publish_ledger_key r) = None"
    using n inv_publish_lookup_None [OF i] by simp
  then have "snd (put_publish_if_absent r s)" by (simp add: put_publish_if_absent_def)
  with i f n show "snd (put_publish_if_absent r s)
      \<and> publish_lookup (fst (put_publish_if_absent r s)) =
          (publish_lookup s)(publish_ledger_key r \<mapsto> r)
      \<and> twin_store_inv (fst (put_publish_if_absent r s))"
    using publish_lookup_put [OF i f n] inv_put_publish [OF i]
    by (simp add: publish_id_unused_def)
next
  fix s :: twin_store and r w :: publish_record
  assume "twin_store_inv s" and "publish_lookup s (publish_ledger_key r) = Some w"
  then have "dm_get (ts_publish_by_ledger s) (publish_ledger_key r) \<noteq> None"
    by (auto simp: publish_lookup_def get_publish_by_ledger_def split: option.splits)
  then show "put_publish_if_absent r s = (s, False)" by (simp add: put_publish_if_absent_def)
qed

section \<open>Histories of store operations\<close>

text \<open>One write of the store; a write that fails leaves the store as it is.\<close>

datatype store_op =
    OpTwin twin
  | OpSlackMap slack_user_map
  | OpLedger ledger_snapshot
  | OpPutDraft draft_delivery
  | OpUpdateDraft draft_delivery
  | OpPublish publish_record
  | OpCompileRun compile_run
  | OpTenantKv string string json

definition keep_on_error :: "'s \<Rightarrow> 'e + 's \<Rightarrow> 's" where
  "keep_on_error s r = (case r of Inl _ \<Rightarrow> s | Inr s' \<Rightarrow> s')"

fun store_step :: "chrono \<Rightarrow> store_op \<Rightarrow> twin_store \<Rightarrow> twin_store" where
  "store_step ch (OpTwin t) s = upsert_twin t s"
| "store_step ch (OpSlackMap m) s = put_slack_map m s"
| "store_step ch (OpLedger l) s = keep_on_error s (put_ledger ch l s)"
| "store_step ch (OpPutDraft d) s = keep_on_error s (put_draft d s)"
| "store_step ch (OpUpdateDraft d) s = keep_on_error s (update_draft d s)"
| "store_step ch (OpPublish r) s = fst (put_publish_if_absent r s)"
| "store_step ch (OpCompileRun r) s = put_compile_run r s"
| "store_step ch (OpTenantKv t k v) s = put_tenant_kv t k v s"

text \<open>
  What the callers keep: a draft never changes its ledger (the delivery service clones the stored
  draft) and a publish id is new (it is a fresh UUID).
\<close>

fun store_op_ok :: "store_op \<Rightarrow> twin_store \<Rightarrow> bool" where
  "store_op_ok (OpPutDraft d) s \<longleftrightarrow> \<not> draft_moves_ledger d s"
| "store_op_ok (OpUpdateDraft d) s \<longleftrightarrow> \<not> draft_moves_ledger d s"
| "store_op_ok (OpPublish r) s \<longleftrightarrow> publish_id_unused r s"
| "store_op_ok _ s \<longleftrightarrow> True"

fun run_store :: "chrono \<Rightarrow> store_op list \<Rightarrow> twin_store \<Rightarrow> twin_store" where
  "run_store ch [] s = s"
| "run_store ch (p # ps) s = run_store ch ps (store_step ch p s)"

fun store_ops_ok :: "chrono \<Rightarrow> store_op list \<Rightarrow> twin_store \<Rightarrow> bool" where
  "store_ops_ok ch [] s \<longleftrightarrow> True"
| "store_ops_ok ch (p # ps) s \<longleftrightarrow> store_op_ok p s \<and> store_ops_ok ch ps (store_step ch p s)"

lemma store_step_inv: "twin_store_inv s \<Longrightarrow> store_op_ok p s \<Longrightarrow> twin_store_inv (store_step ch p s)"
  by (cases p) (auto simp: keep_on_error_def inv_upsert_twin inv_put_slack_map inv_put_compile_run
    inv_put_tenant_kv inv_put_publish publish_id_unused_def
    split: sum.split dest: inv_put_ledger inv_put_draft inv_update_draft)

lemma run_store_inv: "twin_store_inv s \<Longrightarrow> store_ops_ok ch ps s \<Longrightarrow> twin_store_inv (run_store ch ps s)"
  by (induction ps arbitrary: s) (simp_all add: store_step_inv)

lemma inv_one_draft_per_ledger:
  assumes "twin_store_inv s" "get_draft s t i = Some d" "get_draft s t j = Some e"
    "dd_ledger_id d = dd_ledger_id e"
  shows "i = j \<and> get_draft_by_ledger s t (dd_ledger_id d) = Some d"
proof -
  have k: "draft_key d = (t, i)" "draft_key e = (t, j)"
    using assms by (auto simp: twin_store_inv_def get_draft_def dest: dm_keyed_getD)
  have "dm_get (ts_draft_by_ledger s) (draft_ledger_key d) = Some i"
    "dm_get (ts_draft_by_ledger s) (draft_ledger_key e) = Some j"
    using assms k unfolding twin_store_inv_def get_draft_def by (auto; metis)+
  with k assms show ?thesis by (simp add: get_draft_by_ledger_def)
qed


text \<open>
  A published ledger keeps its content. The compiler derives a ledger's id from its tenant, twin
  and period, so a recompile of a period never carries another id.
\<close>

fun ledger_id_derived :: "(string \<Rightarrow> string) \<Rightarrow> chrono \<Rightarrow> store_op \<Rightarrow> bool" where
  "ledger_id_derived sha ch (OpLedger l) \<longleftrightarrow>
     ls_ledger_id l = ledger_id_for sha ch (ls_tenant_id l) (ls_twin_id l) (ls_period_start l)
       (ls_period_end l)"
| "ledger_id_derived sha ch _ \<longleftrightarrow> True"

definition period_index_derived :: "(string \<Rightarrow> string) \<Rightarrow> twin_store \<Rightarrow> bool" where
  "period_index_derived sha s \<longleftrightarrow>
     (\<forall>t tw a b i. dm_get (ts_ledger_period s) (t, tw, a, b) = Some i \<longrightarrow>
        i = ''led_'' @ take 24 (sha (t @ ''|'' @ tw @ ''|'' @ a @ ''|'' @ b)))"

lemma store_frame_ledger:
  "get_ledger (put_slack_map m s) a b = get_ledger s a b"
  "get_ledger (put_compile_run r s) a b = get_ledger s a b"
  "get_ledger (put_tenant_kv t k v s) a b = get_ledger s a b"
  "get_ledger (keep_on_error s (put_draft d s)) a b = get_ledger s a b"
  "get_ledger (keep_on_error s (update_draft d s)) a b = get_ledger s a b"
  "get_ledger (fst (put_publish_if_absent p s)) a b = get_ledger s a b"
  by (auto simp: get_ledger_def put_slack_map_def put_compile_run_def put_tenant_kv_def put_draft_def
    update_draft_def put_publish_if_absent_def keep_on_error_def)

lemma store_frame_publish:
  "get_publish_by_ledger (put_slack_map m s) a b = get_publish_by_ledger s a b"
  "get_publish_by_ledger (put_compile_run r s) a b = get_publish_by_ledger s a b"
  "get_publish_by_ledger (put_tenant_kv t k v s) a b = get_publish_by_ledger s a b"
  "get_publish_by_ledger (keep_on_error s (put_draft d s)) a b = get_publish_by_ledger s a b"
  "get_publish_by_ledger (keep_on_error s (update_draft d s)) a b = get_publish_by_ledger s a b"
  "get_publish_by_ledger (keep_on_error s (put_ledger ch l s)) a b = get_publish_by_ledger s a b"
  by (auto simp: get_publish_by_ledger_def put_slack_map_def put_compile_run_def put_tenant_kv_def
    put_draft_def update_draft_def put_ledger_def keep_on_error_def Let_def split: option.split)

lemma store_frame_period:
  "ts_ledger_period (keep_on_error s (put_draft d s)) = ts_ledger_period s"
  "ts_ledger_period (keep_on_error s (update_draft d s)) = ts_ledger_period s"
  "ts_ledger_period (fst (put_publish_if_absent p s)) = ts_ledger_period s"
  by (simp_all add: put_draft_def update_draft_def put_publish_if_absent_def keep_on_error_def)

lemma period_index_step:
  assumes "period_index_derived sha s" "ledger_id_derived sha ch p"
  shows "period_index_derived sha (store_step ch p s)"
proof (cases p)
  case (OpLedger l)
  with assms show ?thesis
    by (auto simp: period_index_derived_def keep_on_error_def put_ledger_def period_key_def
      ledger_id_for_def Let_def split: option.split)
qed (use assms in \<open>simp_all add: period_index_derived_def store_frame_period upsert_twin_def
      put_slack_map_def put_compile_run_def put_tenant_kv_def\<close>)

lemma publish_stable_step:
  assumes "twin_store_inv s" "store_op_ok p s" "get_publish_by_ledger s t l = Some r"
  shows "get_publish_by_ledger (store_step ch p s) t l = Some r"
proof (cases p)
  case (OpPublish q)
  with assms publish_once.get_stable [of s q "(t, l)" r] show ?thesis
    by (simp add: publish_lookup_def)
qed (use assms in \<open>simp_all add: store_frame_publish\<close>)

lemma ledger_stable_step:
  assumes "twin_store_inv s" "period_index_derived sha s" "ledger_id_derived sha ch p"
    and "get_publish_by_ledger s t l = Some r" "get_ledger s t l = Some L"
  shows "get_ledger (store_step ch p s) t l = Some L"
proof (cases p)
  case (OpLedger l1)
  have pub: "dm_get (ts_publish_by_ledger s) (t, l) \<noteq> None"
    using assms(4) by (auto simp: get_publish_by_ledger_def split: option.splits)
  have same: "dm_get (ts_ledger_period s) (period_key ch l1) = Some i \<Longrightarrow> i = ls_ledger_id l1" for i
    using assms(2,3) by (auto simp: OpLedger period_index_derived_def period_key_def ledger_id_for_def)
  show ?thesis
    using assms(5) pub same
    by (auto simp: OpLedger put_ledger_def get_ledger_def keep_on_error_def Let_def split: option.split)
qed (use assms in \<open>simp_all add: store_frame_ledger\<close>)

lemma published_ledger_run:
  assumes "twin_store_inv s" "store_ops_ok ch ps s" "period_index_derived sha s"
    and "\<forall>p \<in> set ps. ledger_id_derived sha ch p"
    and "get_publish_by_ledger s t l = Some r" "get_ledger s t l = Some L"
  shows "get_publish_by_ledger (run_store ch ps s) t l = Some r
    \<and> get_ledger (run_store ch ps s) t l = Some L"
  using assms
  by (induction ps arbitrary: s)
    (simp_all add: store_step_inv period_index_step publish_stable_step ledger_stable_step)

lemma run_store_append: "run_store ch (ps @ qs) s = run_store ch qs (run_store ch ps s)"
  by (induction ps arbitrary: s) simp_all

lemma store_ops_ok_append:
  "store_ops_ok ch (ps @ qs) s \<longleftrightarrow> store_ops_ok ch ps s \<and> store_ops_ok ch qs (run_store ch ps s)"
  by (induction ps arbitrary: s) simp_all

lemma period_index_run:
  "period_index_derived sha s \<Longrightarrow> \<forall>p \<in> set ps. ledger_id_derived sha ch p \<Longrightarrow>
   period_index_derived sha (run_store ch ps s)"
  by (induction ps arbitrary: s) (simp_all add: period_index_step)

text \<open>
  Once a ledger has a publish record, neither the record nor the ledger it was published from
  changes in any later history of writes: \<open>put_ledger\<close> refuses to replace it, and a recompile of
  the same period cannot drop it because the ids are derived from the period.
\<close>

lemma published_ledger_frozen:
  assumes "store_ops_ok ch (ps @ qs) new_twin_store"
    and "\<forall>p \<in> set (ps @ qs). ledger_id_derived sha ch p"
    and "get_publish_by_ledger (run_store ch ps new_twin_store) t l = Some r"
    and "get_ledger (run_store ch ps new_twin_store) t l = Some L"
  shows "get_publish_by_ledger (run_store ch (ps @ qs) new_twin_store) t l = Some r
    \<and> get_ledger (run_store ch (ps @ qs) new_twin_store) t l = Some L"
proof -
  have "period_index_derived sha new_twin_store"
    by (simp add: period_index_derived_def new_twin_store_def)
  then have "period_index_derived sha (run_store ch ps new_twin_store)"
    using assms(2) by (simp add: period_index_run)
  with assms show ?thesis
    by (simp add: run_store_append store_ops_ok_append published_ledger_run run_store_inv
      [OF twin_store_inv_new])
qed

text \<open>
  Of any sequence of \<open>put_publish_if_absent\<close> calls with fresh publish ids, at most one per
  ledger reports \<open>true\<close>, and the record of that one is what every later lookup returns.
\<close>

lemma publish_recorded_once:
  assumes "twin_store_inv s" and "all_fresh put_publish_if_absent publish_id_unused rs s"
  shows "distinct (map publish_ledger_key (winners put_publish_if_absent rs s))
    \<and> (\<forall>r \<in> set (winners put_publish_if_absent rs s).
         get_publish_by_ledger s (pr_tenant_id r) (pr_ledger_id r) = None
         \<and> get_publish_by_ledger (puts put_publish_if_absent rs s) (pr_tenant_id r) (pr_ledger_id r)
             = Some r)"
  using publish_once.winners_distinct [OF assms] publish_once.winners_new [OF assms]
    publish_once.winners_stored [OF assms]
  by (auto simp: publish_lookup_def)

section \<open>Restart through the snapshot\<close>

definition restart :: "chrono \<Rightarrow> instant \<Rightarrow> twin_store \<Rightarrow> twin_store" where
  "restart ch now s = twin_import_snapshot ch (twin_export_snapshot ch now s) new_twin_store"

lemma fold_upsert_twin:
  "fold upsert_twin ts s = s\<lparr>ts_twins := dm_put_all twin_key ts (ts_twins s)\<rparr>"
  by (induction ts arbitrary: s) (simp_all add: upsert_twin_def)

lemma fold_put_slack_map:
  "fold put_slack_map ms s = s\<lparr>ts_slack_map := dm_put_all slack_key ms (ts_slack_map s)\<rparr>"
  by (induction ms arbitrary: s) (simp_all add: put_slack_map_def)

lemma fold_import_draft:
  "fold import_draft ds s =
     s\<lparr>ts_draft_by_ledger :=
         fold (\<lambda>d. dm_put (draft_ledger_key d) (dd_draft_id d)) ds (ts_draft_by_ledger s),
       ts_drafts := dm_put_all draft_key ds (ts_drafts s)\<rparr>"
  by (induction ds arbitrary: s) (simp_all add: import_draft_def)

lemma fold_import_ledger:
  "fold (import_ledger ch) ls s =
     s\<lparr>ts_ledger_period :=
         fold (\<lambda>l. dm_put (period_key ch l) (ls_ledger_id l)) ls (ts_ledger_period s),
       ts_ledgers := dm_put_all ledger_key ls (ts_ledgers s)\<rparr>"
  by (induction ls arbitrary: s) (simp_all add: import_ledger_def)

lemma fold_put_tenant_kv:
  "fold (\<lambda>e. put_tenant_kv (fst (fst e)) (snd (fst e)) (snd e)) kvs s =
     s\<lparr>ts_tenant_kv := fold (\<lambda>e. dm_put (fst e) (snd e)) kvs (ts_tenant_kv s)\<rparr>"
  by (induction kvs arbitrary: s) (simp_all add: put_tenant_kv_def)

lemma restart_eq:
  "restart ch now s =
     \<lparr>ts_twins = dm_put_all twin_key (map snd (ts_twins s)) [],
      ts_slack_map = dm_put_all slack_key (map snd (ts_slack_map s)) [],
      ts_ledgers = dm_put_all ledger_key (map snd (ts_ledgers s)) [],
      ts_ledger_period =
        fold (\<lambda>l. dm_put (period_key ch l) (ls_ledger_id l)) (map snd (ts_ledgers s)) [],
      ts_drafts = dm_put_all draft_key (map snd (ts_drafts s)) [],
      ts_draft_by_ledger =
        fold (\<lambda>d. dm_put (draft_ledger_key d) (dd_draft_id d)) (map snd (ts_drafts s)) [],
      ts_publishes = [], ts_publish_by_ledger = [], ts_compile_runs = [],
      ts_tenant_kv = fold (\<lambda>e. dm_put (fst e) (snd e)) (ts_tenant_kv s) []\<rparr>"
  by (simp add: restart_def twin_import_snapshot_def twin_export_snapshot_def fold_upsert_twin
    fold_put_slack_map fold_import_draft fold_import_ledger fold_put_tenant_kv new_twin_store_def)

lemma dm_get_refold:
  "dm_ok kvs \<Longrightarrow>
   dm_get (fold (\<lambda>e. dm_put (fst e) (snd e)) kvs m) k
     = (case dm_get kvs k of Some v \<Rightarrow> Some v | None \<Rightarrow> dm_get m k)"
  by (induction kvs arbitrary: m)
    (auto simp: dm_ok_def dm_get_def dm_put_def update_conv' split: option.split
      dest: map_of_SomeD intro: rev_image_eqI)

lemma draft_index_refold:
  "dm_get (fold (\<lambda>d. dm_put (draft_ledger_key d) (dd_draft_id d)) ds m) k = Some i \<longleftrightarrow>
     (case find (\<lambda>d. draft_ledger_key d = k) (rev ds) of
        Some d \<Rightarrow> i = dd_draft_id d | None \<Rightarrow> dm_get m k = Some i)"
  by (induction ds rule: rev_induct) (auto split: option.split)

lemma find_SomeD: "find P xs = Some x \<Longrightarrow> x \<in> set xs \<and> P x"
  by (induction xs) (auto split: if_splits)

lemma restart_draft_index:
  assumes i: "twin_store_inv s"
  shows "dm_get (ts_draft_by_ledger (restart ch now s)) k = dm_get (ts_draft_by_ledger s) k"
proof -
  obtain t l where k: "k = (t, l)" by (cases k)
  let ?ds = "map snd (ts_drafts s)"
  have mem: "dm_get (ts_drafts s) (draft_key d) = Some d" if ds: "d \<in> set ?ds" for d
  proof -
    obtain kd where "(kd, d) \<in> set (ts_drafts s)" using ds by force
    moreover from this have "kd = draft_key d"
      using i by (auto simp: twin_store_inv_def dm_keyed_def)
    ultimately show ?thesis using i by (auto simp: twin_store_inv_def dm_keyed_def dm_get_iff_mem)
  qed
  have idx: "dm_get (ts_draft_by_ledger s) (draft_ledger_key d) = Some (dd_draft_id d)"
    if "d \<in> set ?ds" for d
    using mem [OF that] i unfolding twin_store_inv_def by blast
  show ?thesis
  proof (cases "find (\<lambda>d. draft_ledger_key d = k) (rev ?ds)")
    case (Some d)
    then have d: "d \<in> set ?ds" "draft_ledger_key d = k" using find_SomeD [OF Some] by simp_all
    have "dm_get (ts_draft_by_ledger (restart ch now s)) k = Some (dd_draft_id d)"
      unfolding restart_eq by (simp add: draft_index_refold Some del: map_map)
    with idx [OF d(1)] d(2) show ?thesis by simp
  next
    case None
    have "dm_get (ts_draft_by_ledger s) k = None"
    proof (rule ccontr)
      assume "dm_get (ts_draft_by_ledger s) k \<noteq> None"
      then obtain j d where j: "dm_get (ts_draft_by_ledger s) (t, l) = Some j"
        and d: "dm_get (ts_drafts s) (t, j) = Some d" "dd_ledger_id d = l"
        using i k unfolding twin_store_inv_def by blast
      then have "d \<in> set ?ds" "draft_ledger_key d = k"
        using i k by (auto simp: twin_store_inv_def dest: dm_keyed_getD dm_get_mem intro: rev_image_eqI)
      then show False using None by (auto simp: find_None_iff)
    qed
    moreover have "dm_get (ts_draft_by_ledger (restart ch now s)) k = None"
      unfolding restart_eq using draft_index_refold [of ?ds "[]" k] None
      by (cases "dm_get (fold (\<lambda>d. dm_put (draft_ledger_key d) (dd_draft_id d)) ?ds []) k") (simp, auto)
    ultimately show ?thesis by simp
  qed
qed

lemma restart_reads:
  assumes i: "twin_store_inv s"
  shows "get_twin (restart ch now s) = get_twin s"
    and "get_slack_map (restart ch now s) = get_slack_map s"
    and "get_ledger (restart ch now s) = get_ledger s"
    and "get_draft (restart ch now s) = get_draft s"
    and "get_tenant_kv (restart ch now s) = get_tenant_kv s"
proof -
  have k: "dm_keyed twin_key (ts_twins s)" "dm_keyed slack_key (ts_slack_map s)"
    "dm_keyed ledger_key (ts_ledgers s)" "dm_keyed draft_key (ts_drafts s)" "dm_ok (ts_tenant_kv s)"
    using i by (simp_all add: twin_store_inv_def)
  show "get_twin (restart ch now s) = get_twin s"
    "get_slack_map (restart ch now s) = get_slack_map s"
    "get_ledger (restart ch now s) = get_ledger s"
    "get_draft (restart ch now s) = get_draft s"
    using k by (auto simp: fun_eq_iff get_twin_def get_slack_map_def get_ledger_def get_draft_def
      restart_eq dm_export_import)
  show "get_tenant_kv (restart ch now s) = get_tenant_kv s"
    using k by (simp add: fun_eq_iff get_tenant_kv_def restart_eq dm_get_refold split: option.split)
qed


section \<open>The properties at concrete histories\<close>

definition sample_clock :: chrono where
  "sample_clock = \<lparr>strftime = (\<lambda>f t. f), rfc3339 = (\<lambda>t. if t = 0 then ''T0'' else ''T1'')\<rparr>"

definition sample_period_ledger :: "string \<Rightarrow> ledger_snapshot" where
  "sample_period_ledger i =
     \<lparr>ls_tenant_id = ''t'', ls_ledger_id = i, ls_twin_id = ''w'', ls_period_start = 0,
      ls_period_end = 1, ls_confidence_rollup = Medium,
      ls_ledger = \<lparr>sl_tenant_id = ''t'', sl_person_id = ''p'', sl_period = \<lparr>lp_start = 0, lp_end = 1\<rparr>,
        sl_confidence_rollup = Medium, sl_items = [], sl_open_blockers = [], sl_graph_as_of = 0,
        sl_compiled_at = 0\<rparr>, ls_graph_as_of = 0, ls_compiled_at = 0\<rparr>"

definition sample_draft :: "string \<Rightarrow> string \<Rightarrow> draft_delivery" where
  "sample_draft i l =
     \<lparr>dd_tenant_id = ''t'', dd_draft_id = i, dd_ledger_id = l, dd_twin_id = ''w'',
      dd_status = Pending, dd_slack_dm_channel = [], dd_slack_dm_ts = [], dd_draft_text = ''x'',
      dd_edited_text = None, dd_veto_deadline = None, dd_created_at = 0, dd_updated_at = 0\<rparr>"

definition sample_publish :: "string \<Rightarrow> string \<Rightarrow> publish_record" where
  "sample_publish i l =
     \<lparr>pr_tenant_id = ''t'', pr_publish_id = i, pr_ledger_id = l, pr_draft_id = ''d'',
      pr_channel_id = ''C'', pr_slack_ts = ''1'', pr_body_hash = ''h'', pr_published_at = 0\<rparr>"

lemmas sample_store_defs = sample_clock_def sample_period_ledger_def sample_draft_def
  sample_publish_def new_twin_store_def


lemma published_ledger_frozen_witness:
  "let l = sample_period_ledger ''led_digest'';
       ps = [OpLedger l, OpPublish (sample_publish ''p1'' ''led_digest'')];
       qs = [OpLedger (l\<lparr>ls_confidence_rollup := High\<rparr>), OpPublish (sample_publish ''p2'' ''led_digest'')]
   in get_ledger (run_store sample_clock (ps @ qs) new_twin_store) ''t'' ''led_digest'' = Some l
      \<and> get_publish_by_ledger (run_store sample_clock (ps @ qs) new_twin_store) ''t'' ''led_digest''
          = Some (sample_publish ''p1'' ''led_digest'')"
proof -
  let ?l = "sample_period_ledger ''led_digest''"
  let ?ps = "[OpLedger ?l, OpPublish (sample_publish ''p1'' ''led_digest'')]"
  let ?qs = "[OpLedger (?l\<lparr>ls_confidence_rollup := High\<rparr>),
              OpPublish (sample_publish ''p2'' ''led_digest'')]"
  note defs = sample_store_defs put_ledger_def keep_on_error_def put_publish_if_absent_def
    publish_id_unused_def period_key_def ledger_id_for_def Let_def get_publish_by_ledger_def
    get_ledger_def
  have "store_ops_ok sample_clock (?ps @ ?qs) new_twin_store" by (simp add: defs)
  moreover have "\<forall>p \<in> set (?ps @ ?qs). ledger_id_derived (\<lambda>s. ''digest'') sample_clock p"
    by (simp add: defs)
  moreover have "get_publish_by_ledger (run_store sample_clock ?ps new_twin_store) ''t'' ''led_digest''
      = Some (sample_publish ''p1'' ''led_digest'')" by (simp add: defs)
  moreover have "get_ledger (run_store sample_clock ?ps new_twin_store) ''t'' ''led_digest'' = Some ?l"
    by (simp add: defs)
  ultimately show ?thesis
    using published_ledger_frozen [of sample_clock ?ps ?qs "\<lambda>s. ''digest''" "''t''" "''led_digest''"
        "sample_publish ''p1'' ''led_digest''" ?l]
    unfolding Let_def by blast
qed

lemma publish_recorded_once_witness:
  "get_publish_by_ledger (puts put_publish_if_absent
      [sample_publish ''p1'' ''l'', sample_publish ''p2'' ''l''] new_twin_store) ''t'' ''l''
    = Some (sample_publish ''p1'' ''l'')"
proof -
  let ?rs = "[sample_publish ''p1'' ''l'', sample_publish ''p2'' ''l'']"
  note defs = sample_store_defs put_publish_if_absent_def publish_id_unused_def
  have "all_fresh put_publish_if_absent publish_id_unused ?rs new_twin_store" by (simp add: defs)
  from publish_recorded_once [OF twin_store_inv_new this]
  have "\<forall>r \<in> set (winners put_publish_if_absent ?rs new_twin_store).
      get_publish_by_ledger (puts put_publish_if_absent ?rs new_twin_store) (pr_tenant_id r)
        (pr_ledger_id r) = Some r" by blast
  moreover have "sample_publish ''p1'' ''l'' \<in> set (winners put_publish_if_absent ?rs new_twin_store)"
    by (simp add: defs)
  ultimately show ?thesis by (fastforce simp: sample_publish_def)
qed


end
