(* ===== verification/Text_Util.thy ===== *)
theory Text_Util
  imports Prelude
begin

text \<open>
  String operations of the standard library beyond those of the prelude: characters of a UTF-8
  string, splitting, searching and trimming. \<open>is_alnum\<close> is \<open>char::is_alphanumeric\<close>: exact for ASCII,
  and for other characters the function \<open>uni\<close>, which stands for the Unicode tables.
\<close>

definition utf8_cont :: "char \<Rightarrow> bool" where
  "utf8_cont c = (let n = (of_char c :: nat) in 128 \<le> n \<and> n < 192)"

function utf8_chars :: "string \<Rightarrow> string list" where
  "utf8_chars [] = []"
| "utf8_chars (c # cs) = (c # takeWhile utf8_cont cs) # utf8_chars (dropWhile utf8_cont cs)"
  by pat_completeness auto
termination
  by (relation "measure length") (auto simp: less_Suc_eq_le length_dropWhile_le)

text \<open>\<open>from_utf8\<close> succeeds: the shortest encodings of the code points outside the surrogates.\<close>

fun utf8_valid_nat :: "nat list \<Rightarrow> bool" where
  "utf8_valid_nat [] = True"
| "utf8_valid_nat (a # bs) =
     (let cont = (\<lambda>b. 128 \<le> b \<and> b < (192::nat)) in
      if a < 128 then utf8_valid_nat bs
      else if 194 \<le> a \<and> a < 224 then
        (case bs of b # cs \<Rightarrow> cont b \<and> utf8_valid_nat cs | _ \<Rightarrow> False)
      else if 224 \<le> a \<and> a < 240 then
        (case bs of b # c # ds \<Rightarrow> cont b \<and> cont c \<and> (a = 224 \<longrightarrow> 160 \<le> b) \<and> (a = 237 \<longrightarrow> b < 160)
           \<and> utf8_valid_nat ds | _ \<Rightarrow> False)
      else if 240 \<le> a \<and> a < 245 then
        (case bs of b # c # d # es \<Rightarrow> cont b \<and> cont c \<and> cont d \<and> (a = 240 \<longrightarrow> 144 \<le> b)
           \<and> (a = 244 \<longrightarrow> b < 144) \<and> utf8_valid_nat es | _ \<Rightarrow> False)
      else False)"

definition utf8_valid :: "string \<Rightarrow> bool" where
  "utf8_valid s = utf8_valid_nat (map of_char s)"

definition take_chars :: "nat \<Rightarrow> string \<Rightarrow> string" where
  "take_chars n s = concat (take n (utf8_chars s))"

definition ascii_alnum :: "char \<Rightarrow> bool" where
  "ascii_alnum c = (let n = (of_char c :: nat) in
     (48 \<le> n \<and> n \<le> 57) \<or> (65 \<le> n \<and> n \<le> 90) \<or> (97 \<le> n \<and> n \<le> 122))"

definition is_alnum :: "(string \<Rightarrow> bool) \<Rightarrow> string \<Rightarrow> bool" where
  "is_alnum uni c = (case c of [b] \<Rightarrow> ascii_alnum b | _ \<Rightarrow> uni c)"

fun split_on :: "char \<Rightarrow> string \<Rightarrow> string list" where
  "split_on d [] = [[]]"
| "split_on d (c # cs) =
     (if c = d then [] # split_on d cs
      else (case split_on d cs of [] \<Rightarrow> [[c]] | w # ws \<Rightarrow> (c # w) # ws))"

text \<open>\<open>splitn(2, d)\<close>: the part before the first separator and, when there is one, the rest.\<close>

definition split_once :: "char \<Rightarrow> string \<Rightarrow> string \<times> string option" where
  "split_once d s =
     (let a = takeWhile (\<lambda>c. c \<noteq> d) s; r = dropWhile (\<lambda>c. c \<noteq> d) s
      in (a, if r = [] then None else Some (tl r)))"

fun find_sub :: "string \<Rightarrow> string \<Rightarrow> nat option" where
  "find_sub p [] = (if p = [] then Some 0 else None)"
| "find_sub p (c # cs) = (if prefix p (c # cs) then Some 0 else map_option Suc (find_sub p cs))"

definition first_line :: "string \<Rightarrow> string" where
  "first_line s =
     (let l = takeWhile (\<lambda>c. c \<noteq> CHR 0x0A) s
      in if length l < length s \<and> l \<noteq> [] \<and> last l = CHR 0x0D then butlast l else l)"

function trim_start_matches :: "string \<Rightarrow> string \<Rightarrow> string" where
  "trim_start_matches p s =
     (if p \<noteq> [] \<and> prefix p s then trim_start_matches p (drop (length p) s) else s)"
  by pat_completeness auto
termination
  by (relation "measure (\<lambda>(p, s). length s)") (auto dest: prefix_length_le simp: diff_less length_greater_0_conv prefix_def)

declare trim_start_matches.simps [simp del]

lemma concat_utf8_chars [simp]: "concat (utf8_chars s) = s"
  by (induction s rule: utf8_chars.induct) simp_all

lemma prefix_take_chars: "prefix (take_chars n s) s"
  unfolding take_chars_def
  by (metis append_take_drop_id concat_append concat_utf8_chars prefixI)

lemma split_on_ne: "split_on d s \<noteq> []"
  by (cases s) (auto split: list.splits)

lemma join_split_on: "join_with [d] (split_on d s) = s"
proof (induction s)
  case (Cons c cs)
  obtain w ws where "split_on d cs = w # ws" using split_on_ne by (cases "split_on d cs") auto
  with Cons show ?case by (cases ws) auto
qed simp

lemma split_once_join:
  assumes "d \<notin> set a"
  shows "split_once d (a @ d # b) = (a, Some b)"
proof -
  have "takeWhile (\<lambda>c. c \<noteq> d) (a @ d # b) = a" "dropWhile (\<lambda>c. c \<noteq> d) (a @ d # b) = d # b"
    using assms by (induction a) auto
  then show ?thesis by (simp add: split_once_def)
qed

lemma find_sub_contains: "find_sub p s \<noteq> None \<longleftrightarrow> contains s p"
proof (induction s)
  case (Cons c cs)
  then show ?case by (auto simp: contains_def sublist_Cons_right)
qed (auto simp: contains_def)

text \<open>Decimal numbers: \<open>to_string\<close> of an integer and \<open>parse::<i64>\<close>.\<close>

fun show_nat :: "nat \<Rightarrow> string" where
  "show_nat n = (if n < 10 then [char_of (48 + n)] else show_nat (n div 10) @ [char_of (48 + n mod 10)])"

declare show_nat.simps [simp del]

definition show_int :: "int \<Rightarrow> string" where
  "show_int n = (if n < 0 then CHR ''-'' # show_nat (nat (- n)) else show_nat (nat n))"

definition digit :: "char \<Rightarrow> nat option" where
  "digit c = (let n = (of_char c :: nat) in if 48 \<le> n \<and> n \<le> 57 then Some (n - 48) else None)"

fun parse_digits :: "nat \<Rightarrow> string \<Rightarrow> nat option" where
  "parse_digits acc [] = Some acc"
| "parse_digits acc (c # cs) =
     (case digit c of Some d \<Rightarrow> parse_digits (10 * acc + d) cs | None \<Rightarrow> None)"

definition parse_nat :: "string \<Rightarrow> nat option" where
  "parse_nat s = (if s = [] then None else parse_digits 0 s)"

definition parse_i64 :: "string \<Rightarrow> int option" where
  "parse_i64 s =
     (let r = (case s of
                 [] \<Rightarrow> None
               | c # cs \<Rightarrow>
                   if c = CHR ''-'' then map_option (\<lambda>n. - int n) (parse_nat cs)
                   else if c = CHR ''+'' then map_option int (parse_nat cs)
                   else map_option int (parse_nat s))
      in filter_opt (\<lambda>n. - (2 ^ 63) \<le> n \<and> n < 2 ^ 63) r)"

lemma digit_char_of [simp]: "d < 10 \<Longrightarrow> digit (char_of (48 + d)) = Some d"
  by (simp add: digit_def)

lemma parse_digits_append:
  "parse_digits acc (a @ b) = Option.bind (parse_digits acc a) (\<lambda>n. parse_digits n b)"
  by (induction acc a rule: parse_digits.induct) (auto split: option.splits)

lemma parse_show_nat: "parse_digits 0 (show_nat n) = Some n"
proof (induction n rule: show_nat.induct)
  case (1 n)
  show ?case
  proof (cases "n < 10")
    case True
    then show ?thesis by (simp add: show_nat.simps [of n])
  next
    case False
    then show ?thesis
      using 1 digit_char_of [of "n mod 10"] by (simp add: show_nat.simps [of n] parse_digits_append)
  qed
qed

lemma show_nat_ne [simp]: "show_nat n \<noteq> []"
  by (simp add: show_nat.simps [of n])

lemma show_nat_inj [simp]: "show_nat m = show_nat n \<longleftrightarrow> m = n"
  by (metis option.inject parse_show_nat)

lemma show_nat_digits: "c \<in> set (show_nat n) \<Longrightarrow> digit c \<noteq> None"
proof (induction n rule: show_nat.induct)
  case (1 n)
  then show ?case
    using digit_char_of [of "n mod 10"] digit_char_of [of n]
    by (cases "n < 10") (auto simp: show_nat.simps [of n])
qed

lemma parse_show_int:
  assumes "- (2 ^ 63) \<le> n" "n < 2 ^ 63"
  shows "parse_i64 (show_int n) = Some n"
proof (cases "n < 0")
  case True
  then show ?thesis using assms by (simp add: parse_i64_def show_int_def parse_nat_def parse_show_nat)
next
  case False
  obtain c cs where s: "show_nat (nat n) = c # cs" by (cases "show_nat (nat n)") simp_all
  then have "digit c \<noteq> None" using show_nat_digits [of c "nat n"] by simp
  then have "c \<noteq> CHR ''-''" "c \<noteq> CHR ''+''" by (auto simp: digit_def)
  then show ?thesis
    using False assms s parse_show_nat [of "nat n"] by (simp add: parse_i64_def show_int_def parse_nat_def)
qed

end
