(* ===== verification/Twin_Ledger_Text.thy ===== *)
theory Twin_Ledger_Text
  imports Twin_Model Text_Util
begin

text \<open>
  The text of a draft (\<open>twin-core/src/ledger_text.rs\<close>) and the time labels it uses
  (\<open>time_ist.rs\<close>). \<open>upper\<close> is \<open>char::to_uppercase\<close> for characters outside ASCII;
  the formatting functions of \<open>chrono\<close> are the record \<open>chrono\<close>.
\<close>

definition ist_date_label :: "chrono \<Rightarrow> instant \<Rightarrow> string" where
  "ist_date_label ch dt = strftime ch ''%Y-%m-%d'' (to_ist dt)"

definition lookback_label :: "int \<Rightarrow> string" where
  "lookback_label secs =
     (if 86400 \<le> secs then show_int ((secs + 43200) div 86400) @ ''d''
      else if 3600 \<le> secs then show_int ((secs + 1800) div 3600) @ ''h''
      else show_int ((secs + 30) div 60) @ ''m'')"

definition format_lookback_ist :: "chrono \<Rightarrow> instant \<Rightarrow> instant \<Rightarrow> string" where
  "format_lookback_ist ch start fin =
     (let secs = max ((fin - start) div seconds 1) 0
      in lookback_label secs @ '' ('' @ strftime ch ''%m-%d %H:%M IST'' (to_ist start) @ '' '' @ right_arrow @ '' ''
         @ strftime ch ''%m-%d %H:%M IST'' (to_ist fin) @ '')'')"

definition clean_summary :: "string \<Rightarrow> string" where
  "clean_summary s = trim s"

definition upper_char :: "(string \<Rightarrow> string) \<Rightarrow> string \<Rightarrow> string" where
  "upper_char upper c = (case c of [b] \<Rightarrow> [ascii_upper_char b] | _ \<Rightarrow> upper c)"

definition human_name :: "(string \<Rightarrow> string) \<Rightarrow> string \<Rightarrow> string" where
  "human_name upper person_id =
     (let s = unwrap_or (or_else (strip_prefix person_id ''gu_'') (strip_prefix person_id ''person:'')) person_id
      in if s = [] then ''you''
         else if CHR ''-'' \<in> set s \<and> 20 < length s then ''you''
         else (case utf8_chars s of c # cs \<Rightarrow> upper_char upper c @ concat cs | [] \<Rightarrow> s))"

definition rollup_phrase :: "confidence_tier \<Rightarrow> string" where
  "rollup_phrase c =
     (case c of
        High \<Rightarrow> ''shipped / closed work''
      | Medium \<Rightarrow> ''work in progress''
      | Blocker \<Rightarrow> ''blocked '' @ em_dash @ '' needs attention'')"

definition bullet_line :: "string \<Rightarrow> string" where
  "bullet_line s = bullet @ '' '' @ s"

definition header_lines :: "(string \<Rightarrow> string) \<Rightarrow> chrono \<Rightarrow> status_ledger \<Rightarrow> string list" where
  "header_lines upper ch l =
     [''Status update for '' @ human_name upper (sl_person_id l) @ '' '' @ middle_dot @ '' ''
        @ ist_date_label ch (lp_end (sl_period l)) @ '' IST'',
      ''Lookback: '' @ format_lookback_ist ch (lp_start (sl_period l)) (lp_end (sl_period l)) @ '' '' @ middle_dot @ '' ''
        @ rollup_phrase (sl_confidence_rollup l) @ ''.'',
      []]"

definition item_section :: "string \<Rightarrow> ledger_item list \<Rightarrow> string list" where
  "item_section title items =
     (if items = [] then []
      else [title] @ map (\<lambda>i. bullet_line (clean_summary (li_summary i))) items @ [[]])"

definition blocker_line :: "blocker_item \<Rightarrow> string" where
  "blocker_line b = bullet_line (''Blocker: '' @ (if bi_summary b = [] then bi_node_id b else bi_summary b))"

definition closing_line :: "confidence_tier \<Rightarrow> string" where
  "closing_line c =
     (if c = Blocker then ''Please unblock or reply before this posts to the team channel.''
      else ''Scheduled summary (only when something changes). Approve '' @ middle_dot @ '' Edit '' @ middle_dot
        @ '' Don'' @ [CHR 0x27] @ ''t send.'')"

definition draft_lines :: "(string \<Rightarrow> string) \<Rightarrow> chrono \<Rightarrow> status_ledger \<Rightarrow> string list" where
  "draft_lines upper ch l =
     (if sl_items l = [] \<and> sl_open_blockers l = []
      then header_lines upper ch l @
        [bullet_line ''No code or ticket signals in this window (nothing invented).'']
      else header_lines upper ch l
        @ item_section ''*Completed / closed*'' (take 5 (filter (\<lambda>i. li_confidence i = High) (sl_items l)))
        @ item_section ''*Still open*'' (take 3 (filter (\<lambda>i. li_confidence i = Medium) (sl_items l)))
        @ map blocker_line (take 3 (sl_open_blockers l))
        @ [closing_line (sl_confidence_rollup l)])"

definition render_draft_text :: "(string \<Rightarrow> string) \<Rightarrow> chrono \<Rightarrow> status_ledger \<Rightarrow> string" where
  "render_draft_text upper ch l = join_with newline (draft_lines upper ch l)"

text \<open>A draft is short whatever the ledger holds.\<close>

lemma item_section_length: "length (item_section t items) \<le> length items + 2"
  by (simp add: item_section_def)

lemma draft_is_short: "length (draft_lines upper ch l) \<le> 19"
proof -
  have s: "length (item_section t (take n xs)) \<le> n + 2" for t n and xs :: "ledger_item list"
    using item_section_length [of t "take n xs"] by simp
  have "length (draft_lines upper ch l) \<le> 3 + ((5 + 2) + ((3 + 2) + (3 + 1)))"
    using s [of "''*Completed / closed*''" 5 "filter (\<lambda>i. li_confidence i = High) (sl_items l)"]
      s [of "''*Still open*''" 3 "filter (\<lambda>i. li_confidence i = Medium) (sl_items l)"]
    unfolding draft_lines_def header_lines_def by (simp add: min_def del: append_Cons)
  then show ?thesis by simp
qed

end
