(* ===== verification/Twin_Compiler.thy ===== *)
theory Twin_Compiler
  imports Twin_Confidence Twin_Store Twin_Ledger_Text
begin

text \<open>
  The ledger compiler (\<open>twin-compiler/src/lib.rs\<close>): it reads the graph as the twin's person sees
  it, keeps the work the person is linked to and the blockers, scores and ranks them and stores the ledger.
  The graph source is a parameter (a function of tenant, user, node and hops); \<open>clk\<close> gives the
  readings of the clock in the order in which one run makes them.
\<close>

section \<open>Options and views\<close>

record compile_opts =
  co_period_start :: instant
  co_period_end :: instant
  co_activity_start :: instant
  co_activity_end :: instant
  co_hops :: nat

definition window_opts :: "instant \<Rightarrow> instant \<Rightarrow> nat \<Rightarrow> compile_opts" where
  "window_opts start fin hops =
     \<lparr>co_period_start = start, co_period_end = fin, co_activity_start = start, co_activity_end = fin,
      co_hops = hops\<rparr>"

definition default_compile_opts :: "instant \<Rightarrow> compile_opts" where
  "default_compile_opts now = window_opts (now - seconds (24 * 3600)) now 3"

record compile_outcome =
  oc_run_id :: string
  oc_ledger :: ledger_snapshot
  oc_draft_text :: string
  oc_acl_empty :: bool

type_synonym graph_source = "string \<Rightarrow> string \<Rightarrow> string \<Rightarrow> nat \<Rightarrow> twin_error + graph_view"

definition push_absent :: "('a \<Rightarrow> 'b) \<Rightarrow> 'a \<Rightarrow> 'a list \<Rightarrow> 'a list" where
  "push_absent key x xs = (if list_ex (\<lambda>y. key y = key x) xs then xs else xs @ [x])"

definition merge_graph_view :: "graph_view \<Rightarrow> graph_view \<Rightarrow> graph_view" where
  "merge_graph_view into part =
     \<lparr>gv_nodes = fold (push_absent nv_node_id) (gv_nodes part) (gv_nodes into),
      gv_edges = fold (push_absent ev_edge_id) (gv_edges part) (gv_edges into),
      gv_states = fold (push_absent (\<lambda>s. (sv_node_id s, sv_state_key s))) (gv_states part) (gv_states into),
      gv_blockers = fold (push_absent ev_edge_id) (gv_blockers part) (gv_blockers into),
      gv_graph_as_of = or_else (gv_graph_as_of into) (gv_graph_as_of part)\<rparr>"

section \<open>Demo and seed objects\<close>

definition node_id_is_demo_seed :: "string \<Rightarrow> bool" where
  "node_id_is_demo_seed i =
     (let l = to_ascii_lowercase i in
      list_ex (contains l) [''/pr/story-1'', ''pr:neeljoshi18/ai-manager/pr/story-1'', ''gu_demo_'', ''demo-repo'',
        ''intent_demo'', '':story-1''])"

definition is_demo_flag :: "json \<Rightarrow> bool" where
  "is_demo_flag props = (Option.bind (json_get props ''is_demo'') as_bool = Some True)"

definition seed_of :: "json \<Rightarrow> string option" where
  "seed_of props = map_option to_ascii_lowercase (Option.bind (json_get props ''seed'') as_str)"

definition seed_contains :: "json \<Rightarrow> string list \<Rightarrow> bool" where
  "seed_contains props ws = (case seed_of props of Some s \<Rightarrow> list_ex (contains s) ws | None \<Rightarrow> False)"

definition node_view_is_demo_seed :: "graph_node_view \<Rightarrow> bool" where
  "node_view_is_demo_seed n =
     (node_id_is_demo_seed (nv_node_id n) \<or> node_id_is_demo_seed (nv_resource_id n)
      \<or> is_demo_flag (nv_properties n)
      \<or> seed_contains (nv_properties n) [''graph_story'', ''intent_demo'', ''demo'']
      \<or> (let lab = to_ascii_lowercase (nv_display_name n) in
         contains lab ''hold merge until demo''
         \<or> contains lab ''ready for pilot'' \<and> contains (nv_node_id n) ''story-1''
         \<or> contains lab ''waiting on partner review'' \<and> contains (nv_node_id n) ''story-1''))"

definition endpoint_is_demo_seed :: "graph_node_view list \<Rightarrow> string \<Rightarrow> bool" where
  "endpoint_is_demo_seed nodes i =
     (node_id_is_demo_seed i
      \<or> (case find (\<lambda>n. nv_node_id n = i) nodes of
           Some n \<Rightarrow> is_demo_flag (nv_properties n)
             \<or> seed_contains (nv_properties n) [''graph_story'', ''intent_demo''] \<or> seed_of (nv_properties n) = Some ''seed''
         | None \<Rightarrow> False))"

definition edge_is_demo_seed :: "graph_edge_view \<Rightarrow> graph_node_view list \<Rightarrow> bool" where
  "edge_is_demo_seed e nodes =
     (let eid = to_ascii_lowercase (ev_event_id e) in
      list_ex (contains eid) [''story:blocks'', ''seed:'', ''intent_demo'', ''graph_story''] \<or> starts_with eid ''seed''
      \<or> is_demo_flag (ev_properties e)
      \<or> seed_contains (ev_properties e) [''graph_story'', ''intent_demo'', ''demo'']
      \<or> endpoint_is_demo_seed nodes (ev_from_node_id e) \<or> endpoint_is_demo_seed nodes (ev_to_node_id e))"

section \<open>Subjects and their view\<close>

definition alias_ids :: "twin \<Rightarrow> string list" where
  "alias_ids tw =
     (case Option.bind (json_get (tw_config_json tw) ''provider_aliases'') as_array of
        Some arr \<Rightarrow> List.map_filter (map_option trim \<circ> as_str) arr
      | None \<Rightarrow> [])"

definition subject_ids :: "twin \<Rightarrow> string list" where
  "subject_ids tw =
     fold (\<lambda>s ids. if starts_with s ''gu_'' \<and> s \<notin> set ids then ids @ [s] else ids) (alias_ids tw) [tw_subject_id tw]"

definition subject_node :: "string \<Rightarrow> string" where
  "subject_node sid = ''person:'' @ sid"

text \<open>A subject whose view cannot be read is skipped.\<close>

definition fetch_view :: "graph_source \<Rightarrow> string \<Rightarrow> nat \<Rightarrow> string list \<Rightarrow> graph_view" where
  "fetch_view source tenant hops sids =
     fold (\<lambda>sid view. case source tenant sid (subject_node sid) hops of
             Inr part \<Rightarrow> merge_graph_view view part
           | Inl _ \<Rightarrow> view) sids empty_graph_view"

section \<open>One node\<close>

definition is_pr_node :: "graph_node_view \<Rightarrow> bool" where
  "is_pr_node n \<longleftrightarrow> eq_ignore_ascii_case (nv_node_type n) ''PullRequest'' \<or> starts_with (nv_node_id n) ''pr:''
     \<or> contains (nv_node_id n) ''/pr/''"

definition is_issue_node :: "graph_node_view \<Rightarrow> bool" where
  "is_issue_node n \<longleftrightarrow> eq_ignore_ascii_case (nv_node_type n) ''Issue'' \<or> eq_ignore_ascii_case (nv_node_type n) ''Ticket''
     \<or> starts_with (nv_node_id n) ''issue:'' \<or> starts_with (nv_node_id n) ''ticket:''"

definition is_commit_node :: "graph_node_view \<Rightarrow> bool" where
  "is_commit_node n \<longleftrightarrow> eq_ignore_ascii_case (nv_node_type n) ''Commit'' \<or> starts_with (nv_node_id n) ''commit:''"

definition is_repo_node :: "graph_node_view \<Rightarrow> bool" where
  "is_repo_node n \<longleftrightarrow> eq_ignore_ascii_case (nv_node_type n) ''Repo'' \<or> starts_with (nv_node_id n) ''repo:''"

definition is_work_node :: "graph_node_view \<Rightarrow> bool" where
  "is_work_node n \<longleftrightarrow> is_pr_node n \<or> is_issue_node n \<or> is_commit_node n \<or> is_repo_node n"

definition kind_of :: "graph_node_view \<Rightarrow> string" where
  "kind_of n =
     (if is_pr_node n then ''pr'' else if is_issue_node n then ''issue'' else if is_commit_node n then ''commit''
      else ''repo'')"

text \<open>The edges that tie a node to one of the twin's persons.\<close>

definition ends_at :: "graph_edge_view \<Rightarrow> string \<Rightarrow> bool" where
  "ends_at e i \<longleftrightarrow> ev_to_node_id e = i \<or> ev_from_node_id e = i"

definition two_way_link :: "string \<Rightarrow> string list \<Rightarrow> string \<Rightarrow> graph_edge_view \<Rightarrow> bool" where
  "two_way_link ty persons i e \<longleftrightarrow> eq_ignore_ascii_case (ev_edge_type e) ty \<and> ends_at e i
     \<and> (ev_from_node_id e \<in> set persons \<or> ev_to_node_id e \<in> set persons)"

definition one_way_link :: "string \<Rightarrow> string list \<Rightarrow> string \<Rightarrow> graph_edge_view \<Rightarrow> bool" where
  "one_way_link ty persons i e \<longleftrightarrow> eq_ignore_ascii_case (ev_edge_type e) ty
     \<and> ev_from_node_id e \<in> set persons \<and> ev_to_node_id e = i"

definition person_link :: "string list \<Rightarrow> string \<Rightarrow> graph_edge_view \<Rightarrow> bool" where
  "person_link persons i e \<longleftrightarrow> ev_from_node_id e \<in> set persons \<and> ev_to_node_id e = i
     \<or> ev_to_node_id e \<in> set persons \<and> ev_from_node_id e = i"

definition authored :: "graph_view \<Rightarrow> string list \<Rightarrow> string \<Rightarrow> graph_edge_view option" where
  "authored view persons i = find (two_way_link ''AUTHORED'' persons i) (gv_edges view)"

definition assigned :: "graph_view \<Rightarrow> string list \<Rightarrow> string \<Rightarrow> graph_edge_view option" where
  "assigned view persons i = find (two_way_link ''ASSIGNED_TO'' persons i) (gv_edges view)"

definition pushed :: "graph_view \<Rightarrow> string list \<Rightarrow> string \<Rightarrow> graph_edge_view option" where
  "pushed view persons i = find (one_way_link ''PUSHED_TO'' persons i) (gv_edges view)"

definition checked :: "graph_view \<Rightarrow> string list \<Rightarrow> string \<Rightarrow> graph_edge_view option" where
  "checked view persons i = find (one_way_link ''CHECKED'' persons i) (gv_edges view)"

text \<open>The edges found among the four, in the order in which the code goes through them.\<close>

definition activity_edges :: "graph_view \<Rightarrow> string list \<Rightarrow> string \<Rightarrow> graph_edge_view list" where
  "activity_edges view persons i =
     List.map_filter id [authored view persons i, assigned view persons i, pushed view persons i, checked view persons i]"

definition linked_to_person :: "graph_view \<Rightarrow> string list \<Rightarrow> string \<Rightarrow> bool" where
  "linked_to_person view persons i \<longleftrightarrow>
     activity_edges view persons i \<noteq> [] \<or> list_ex (person_link persons i) (gv_edges view)"

definition node_state :: "graph_view \<Rightarrow> string \<Rightarrow> entity_state_view option" where
  "node_state view i =
     or_else (find (\<lambda>s. sv_node_id s = i \<and> sv_state_key s = ''lifecycle'') (gv_states view))
       (find (\<lambda>s. sv_node_id s = i \<and> sv_state_key s = ''status'') (gv_states view))"

definition lifecycle_of :: "graph_view \<Rightarrow> string \<Rightarrow> string" where
  "lifecycle_of view i = (case node_state view i of Some s \<Rightarrow> sv_state_value s | None \<Rightarrow> ''OPEN'')"

definition open_work :: "graph_node_view \<Rightarrow> string \<Rightarrow> bool" where
  "open_work n lifecycle \<longleftrightarrow> (is_pr_node n \<or> is_issue_node n)
     \<and> lifecycle \<notin> {''MERGED'', ''CLOSED'', ''DONE'', ''RESOLVED''}"

text \<open>The newest time of the activity edges, of any person edge when they have none, and of the state.\<close>

definition later :: "instant option \<Rightarrow> instant \<Rightarrow> instant option" where
  "later cur ts = Some (case cur of Some c \<Rightarrow> max c ts | None \<Rightarrow> ts)"

definition newest_edge :: "graph_edge_view list \<Rightarrow> instant option \<Rightarrow> instant option" where
  "newest_edge es cur = fold (\<lambda>e cur. case ev_valid_from e of Some ts \<Rightarrow> later cur ts | None \<Rightarrow> cur) es cur"

definition activity_time :: "graph_view \<Rightarrow> string list \<Rightarrow> string \<Rightarrow> instant option" where
  "activity_time view persons i =
     (let t1 = newest_edge (activity_edges view persons i) None;
          t2 = (if t1 = None then newest_edge (filter (person_link persons i) (gv_edges view)) None else t1)
      in case node_state view i of Some s \<Rightarrow> later t2 (sv_as_of s) | None \<Rightarrow> t2)"

definition edge_evidence :: "chrono \<Rightarrow> graph_edge_view \<Rightarrow> string list" where
  "edge_evidence ch e =
     [''edge:'' @ ev_edge_id e]
     @ (if ev_event_id e \<noteq> [] then [''event:'' @ ev_event_id e] else [])
     @ (case ev_valid_from e of Some ts \<Rightarrow> [''at:'' @ rfc3339 ch ts] | None \<Rightarrow> [])"

text \<open>Deduplication that keeps the first occurrence.\<close>

definition dedup_keep_first :: "'a list \<Rightarrow> 'a list" where
  "dedup_keep_first xs = fold (\<lambda>x ys. if x \<in> set ys then ys else ys @ [x]) xs []"

definition node_evidence :: "chrono \<Rightarrow> graph_view \<Rightarrow> string list \<Rightarrow> string \<Rightarrow> string list" where
  "node_evidence ch view persons i =
     (let refs = concat (map (edge_evidence ch) (activity_edges view persons i))
            @ (case node_state view i of
                 Some s \<Rightarrow> if sv_event_id s \<noteq> [] then [''event:'' @ sv_event_id s] else []
               | None \<Rightarrow> [])
      in dedup_keep_first (if refs = [] then [''node:'' @ i] else refs))"

definition node_title :: "graph_node_view \<Rightarrow> string" where
  "node_title n =
     unwrap_or (Option.bind (or_else (json_get (nv_properties n) ''title'') (json_get (nv_properties n) ''message'')) as_str)
       (nv_display_name n)"

definition node_summary :: "graph_view \<Rightarrow> string list \<Rightarrow> graph_node_view \<Rightarrow> string" where
  "node_summary view persons n =
     (let i = nv_node_id n; title = node_title n; lifecycle = lifecycle_of view i;
          shown = (if title = [] then nv_resource_id n else title)
      in if is_commit_node n then
           (if title = [] then ''Commit '' @ take_chars 7 (nv_resource_id n) else ''Commit: '' @ title)
         else if is_repo_node n then
           (if pushed view persons i \<noteq> None then ''Pushed to '' @ shown
            else if checked view persons i \<noteq> None then ''CI/activity on '' @ shown
            else ''Active on '' @ shown)
         else if title = [] then
           to_ascii_uppercase (kind_of n) @ '' '' @ nv_resource_id n @ '' ('' @ lifecycle @ '')''
         else if lifecycle \<in> {''MERGED'', ''CLOSED'', ''DONE''} then lifecycle @ '' '' @ kind_of n @ '': '' @ title
         else ''Open '' @ kind_of n @ '': '' @ title)"

text \<open>What becomes of one node: nothing, or an item with the time it is ranked by.\<close>

definition compile_node ::
  "chrono \<Rightarrow> compile_opts \<Rightarrow> graph_view \<Rightarrow> string list \<Rightarrow> graph_node_view \<Rightarrow> (instant option \<times> ledger_item) option" where
  "compile_node ch opts view persons n =
     (let i = nv_node_id n in
      if i \<in> set persons \<or> node_view_is_demo_seed n \<or> \<not> is_work_node n \<or> \<not> linked_to_person view persons i then None
      else
        (let lifecycle = lifecycle_of view i; t = activity_time view persons i in
         if \<not> open_work n lifecycle
            \<and> (case t of Some ts \<Rightarrow> ts < co_activity_start opts \<or> co_activity_end opts < ts | None \<Rightarrow> False)
         then None
         else Some (t,
           \<lparr>li_kind = kind_of n, li_resource_id = (if nv_resource_id n = [] then i else nv_resource_id n),
            li_node_id = i, li_summary = node_summary view persons n,
            li_confidence = score_item_confidence lifecycle True, li_evidence_refs = node_evidence ch view persons i\<rparr>)))"

section \<open>Ranking, blockers and the ledger\<close>

text \<open>Newest first, items without a time last; ties keep the order of the view.\<close>

definition newest_first :: "instant option \<Rightarrow> nat \<times> int" where
  "newest_first t = (case t of Some ts \<Rightarrow> (0, - ts) | None \<Rightarrow> (1, 0))"

definition rank_items :: "(instant option \<times> ledger_item) list \<Rightarrow> (instant option \<times> ledger_item) list" where
  "rank_items xs = sort_key (\<lambda>p. newest_first (fst p)) xs"

fun cap_commits :: "nat \<Rightarrow> ledger_item list \<Rightarrow> ledger_item list" where
  "cap_commits k [] = []"
| "cap_commits k (it # its) =
     (if li_kind it = ''commit'' then (if 5 < k + 1 then cap_commits (k + 1) its else it # cap_commits (k + 1) its)
      else it # cap_commits k its)"

definition ledger_items :: "chrono \<Rightarrow> compile_opts \<Rightarrow> graph_view \<Rightarrow> string list \<Rightarrow> ledger_item list" where
  "ledger_items ch opts view persons =
     cap_commits 0 (map snd (rank_items (List.map_filter (compile_node ch opts view persons) (gv_nodes view))))"

definition is_block_edge :: "graph_edge_view \<Rightarrow> bool" where
  "is_block_edge e \<longleftrightarrow> eq_ignore_ascii_case (ev_edge_type e) ''BLOCKS'' \<or> eq_ignore_ascii_case (ev_edge_type e) ''BLOCKED_BY''"

definition block_target :: "graph_edge_view \<Rightarrow> string" where
  "block_target e =
     (if eq_ignore_ascii_case (ev_edge_type e) ''BLOCKED_BY'' then ev_from_node_id e else ev_to_node_id e)"

definition compile_blocker :: "graph_view \<Rightarrow> graph_edge_view \<Rightarrow> blocker_item option" where
  "compile_blocker view e =
     (if edge_is_demo_seed e (gv_nodes view) then None
      else if node_id_is_demo_seed (block_target e) \<or> node_id_is_demo_seed (ev_from_node_id e)
        \<or> node_id_is_demo_seed (ev_to_node_id e) then None
      else Some
        \<lparr>bi_node_id = block_target e,
         bi_summary = unwrap_or (Option.bind (json_get (ev_properties e) ''summary'') as_str) (''Blocked via '' @ ev_edge_type e),
         bi_confidence = Blocker,
         bi_evidence_refs = filter (\<lambda>s. \<not> ends_with s '':'') [''edge:'' @ ev_edge_id e, ''event:'' @ ev_event_id e]\<rparr>)"

fun dedup_adjacent :: "('a \<Rightarrow> 'b) \<Rightarrow> 'a list \<Rightarrow> 'a list" where
  "dedup_adjacent key [] = []"
| "dedup_adjacent key [x] = [x]"
| "dedup_adjacent key (x # y # ys) =
     (if key y = key x then dedup_adjacent key (x # ys) else x # dedup_adjacent key (y # ys))"

definition ledger_blockers :: "graph_view \<Rightarrow> blocker_item list" where
  "ledger_blockers view =
     dedup_adjacent bi_node_id (sort_key bi_node_id
       (List.map_filter (compile_blocker view) (gv_blockers view @ filter is_block_edge (gv_edges view))))"

definition compile_ledger ::
  "chrono \<Rightarrow> twin \<Rightarrow> compile_opts \<Rightarrow> graph_view \<Rightarrow> string list \<Rightarrow> instant \<Rightarrow> instant \<Rightarrow> status_ledger" where
  "compile_ledger ch tw opts view persons as_of compiled_at =
     apply_rollup
       \<lparr>sl_tenant_id = tw_tenant_id tw, sl_person_id = tw_subject_id tw,
        sl_period = \<lparr>lp_start = co_activity_start opts, lp_end = co_activity_end opts\<rparr>,
        sl_confidence_rollup = Medium, sl_items = ledger_items ch opts view persons,
        sl_open_blockers = ledger_blockers view, sl_graph_as_of = as_of, sl_compiled_at = compiled_at\<rparr>"

definition view_is_empty :: "graph_view \<Rightarrow> bool" where
  "view_is_empty view \<longleftrightarrow> gv_nodes view = [] \<and> gv_edges view = [] \<and> gv_blockers view = []"

text \<open>What the run needs from outside: digest, formats, upper case and a fresh id.\<close>

record compile_env =
  ce_sha :: "string \<Rightarrow> string"
  ce_chrono :: chrono
  ce_upper :: "string \<Rightarrow> string"
  ce_uuid :: string
  ce_clock :: "nat \<Rightarrow> instant"

definition compile_person ::
  "compile_env \<Rightarrow> graph_source \<Rightarrow> twin \<Rightarrow> compile_opts \<Rightarrow> twin_store \<Rightarrow> (twin_error + compile_outcome) \<times> twin_store"
where
  "compile_person env source tw opts s =
     (if tw_twin_kind tw \<noteq> Person then (Inl (TValidation ''compile_person requires person twin''), s)
      else if tw_tenant_id tw = [] then (Inl (TValidation ''tenant_id required''), s)
      else
        (let ch = ce_chrono env; run_id = ''run_'' @ ce_uuid env; sids = subject_ids tw;
             view = fetch_view source (tw_tenant_id tw) (co_hops opts) sids;
             as_of = unwrap_or (gv_graph_as_of view) (ce_clock env 1);
             ledger = compile_ledger ch tw opts view (map subject_node sids) as_of (ce_clock env 2);
             snap = \<lparr>ls_tenant_id = tw_tenant_id tw,
               ls_ledger_id = ledger_id_for (ce_sha env) ch (tw_tenant_id tw) (tw_twin_id tw) (co_period_start opts)
                 (co_period_end opts),
               ls_twin_id = tw_twin_id tw, ls_period_start = co_period_start opts, ls_period_end = co_period_end opts,
               ls_confidence_rollup = sl_confidence_rollup ledger, ls_ledger = ledger, ls_graph_as_of = as_of,
               ls_compiled_at = ce_clock env 2\<rparr>
         in case put_ledger ch snap s of
              Inl e \<Rightarrow> (Inl e, s)
            | Inr s1 \<Rightarrow>
                (Inr \<lparr>oc_run_id = run_id, oc_ledger = snap,
                   oc_draft_text = render_draft_text (ce_upper env) ch ledger, oc_acl_empty = view_is_empty view\<rparr>,
                 put_compile_run
                   \<lparr>cr_tenant_id = tw_tenant_id tw, cr_run_id = run_id, cr_twin_id = tw_twin_id tw, cr_status = ''ok'',
                    cr_error_text = [], cr_started_at = ce_clock env 0, cr_finished_at = Some (ce_clock env 3)\<rparr> s1)))"

end
