(* ===== verification/Twin_Digest.thy ===== *)
theory Twin_Digest
  imports Twin_Compiler
begin

text \<open>
  What a compiled digest contains (\<open>compile_person\<close> of \<open>twin-compiler\<close>): which nodes of
  the fetched views become items, in which order, on what evidence, and when the digest is blocked.
\<close>

section \<open>List helpers\<close>

lemma push_absent_keys: "key ` set (push_absent key x xs) = insert (key x) (key ` set xs)"
  by (auto simp: push_absent_def list_ex_iff image_iff) (metis imageI)

lemma push_absent_set: "set (push_absent key x xs) \<subseteq> insert x (set xs)"
  by (auto simp: push_absent_def)

lemma distinct_push_absent: "distinct (map key xs) \<Longrightarrow> distinct (map key (push_absent key x xs))"
  by (auto simp: push_absent_def list_ex_iff image_iff)

lemma distinct_fold_push: "distinct (map key xs) \<Longrightarrow> distinct (map key (fold (push_absent key) ys xs))"
  by (induction ys arbitrary: xs) (simp_all add: distinct_push_absent)

lemma set_fold_push: "set (fold (push_absent key) ys xs) \<subseteq> set xs \<union> set ys"
proof (induction ys arbitrary: xs)
  case (Cons y ys)
  then show ?case using push_absent_set [of key y xs] by fastforce
qed simp

lemma distinct_merged_nodes:
  "distinct (map nv_node_id (gv_nodes view)) \<Longrightarrow> distinct (map nv_node_id (gv_nodes (merge_graph_view view part)))"
  by (simp add: merge_graph_view_def distinct_fold_push)

lemma fetched_nodes_distinct: "distinct (map nv_node_id (gv_nodes (fetch_view source tenant hops sids)))"
proof -
  have "distinct (map nv_node_id (gv_nodes view)) \<Longrightarrow> distinct (map nv_node_id (gv_nodes
      (fold (\<lambda>sid view. case source tenant sid (subject_node sid) hops of
             Inr part \<Rightarrow> merge_graph_view view part | Inl _ \<Rightarrow> view) sids view)))" for view
    by (induction sids arbitrary: view) (simp_all add: distinct_merged_nodes split: sum.split)
  then show ?thesis by (simp add: fetch_view_def empty_graph_view_def)
qed

text \<open>The capping of commits keeps everything else and the first five commits.\<close>

lemma cap_commits_others: "filter (\<lambda>i. li_kind i \<noteq> ''commit'') (cap_commits k its) = filter (\<lambda>i. li_kind i \<noteq> ''commit'') its"
  by (induction k its rule: cap_commits.induct) auto

lemma cap_commits_commits:
  "filter (\<lambda>i. li_kind i = ''commit'') (cap_commits k its) = take (5 - k) (filter (\<lambda>i. li_kind i = ''commit'') its)"
proof (induction k its rule: cap_commits.induct)
  case (2 k it its)
  then show ?case by (cases "k < 5") (auto simp: Suc_diff_Suc take_Suc_conv_app_nth [symmetric] take_Cons')
qed simp

lemma cap_commits_subseq: "subseq (cap_commits k its) its"
  by (induction k its rule: cap_commits.induct) (auto intro: subseq_Cons')

lemma sorted_wrt_subseq: "subseq xs ys \<Longrightarrow> sorted_wrt R ys \<Longrightarrow> sorted_wrt R xs"
  by (induction rule: list_emb.induct) (auto dest: list_emb_set)

lemma distinct_subseq: "subseq xs ys \<Longrightarrow> distinct ys \<Longrightarrow> distinct xs"
  by (induction rule: list_emb.induct) (auto dest: list_emb_set)

lemma sort_key_of_map: "sort_key f (map g xs) = map g (sort_key (f \<circ> g) xs)"
proof -
  have "insort_key f (g x) (map g ys) = map g (insort_key (f \<circ> g) x ys)" for x ys
    by (induction ys) auto
  then show ?thesis by (induction xs) simp_all
qed

lemma set_dedup_keep_first: "set (dedup_keep_first xs) = set xs" "distinct (dedup_keep_first xs)"
proof -
  have "set (fold (\<lambda>x ys. if x \<in> set ys then ys else ys @ [x]) xs ys) = set ys \<union> set xs \<and>
    (distinct ys \<longrightarrow> distinct (fold (\<lambda>x ys. if x \<in> set ys then ys else ys @ [x]) xs ys))" for ys
    by (induction xs arbitrary: ys) auto
  from this [of "[]"] show "set (dedup_keep_first xs) = set xs" "distinct (dedup_keep_first xs)"
    by (simp_all add: dedup_keep_first_def)
qed

section \<open>Which nodes make the digest\<close>

lemma find_link_tied:
  assumes "find P es = Some e" "\<And>e. P e \<Longrightarrow> person_link persons i e"
  shows "e \<in> set es \<and> person_link persons i e"
  using assms by (auto simp: find_Some_iff)

lemma two_way_tied: "i \<notin> set persons \<Longrightarrow> two_way_link ty persons i e \<Longrightarrow> person_link persons i e"
  by (auto simp: two_way_link_def ends_at_def person_link_def)

lemma one_way_tied: "one_way_link ty persons i e \<Longrightarrow> person_link persons i e"
  by (simp add: one_way_link_def person_link_def)

lemma activity_edges_tied:
  assumes "i \<notin> set persons" "e \<in> set (activity_edges view persons i)"
  shows "e \<in> set (gv_edges view) \<and> person_link persons i e"
proof -
  have "authored view persons i = Some e \<or> assigned view persons i = Some e \<or> pushed view persons i = Some e
      \<or> checked view persons i = Some e"
    using assms(2) unfolding activity_edges_def List.map_filter_def
    by (auto split: if_splits)
  moreover note two = find_link_tied [OF _ two_way_tied [OF assms(1)]] and one = find_link_tied [OF _ one_way_tied]
  ultimately show ?thesis
    unfolding authored_def assigned_def pushed_def checked_def by (elim disjE) (erule two one; assumption)+
qed

lemma linked_iff:
  assumes "i \<notin> set persons"
  shows "linked_to_person view persons i \<longleftrightarrow> (\<exists>e \<in> set (gv_edges view). person_link persons i e)"
  unfolding linked_to_person_def list_ex_iff
  using activity_edges_tied [OF assms, of _ view] by (metis list.set_intros(1) neq_Nil_conv)

definition in_window :: "compile_opts \<Rightarrow> instant option \<Rightarrow> bool" where
  "in_window opts t = (case t of Some ts \<Rightarrow> co_activity_start opts \<le> ts \<and> ts \<le> co_activity_end opts | None \<Rightarrow> True)"

definition digest_worthy :: "compile_opts \<Rightarrow> graph_view \<Rightarrow> string list \<Rightarrow> graph_node_view \<Rightarrow> bool" where
  "digest_worthy opts view persons n \<longleftrightarrow>
     nv_node_id n \<notin> set persons \<and> \<not> node_view_is_demo_seed n \<and> is_work_node n \<and>
     (\<exists>e \<in> set (gv_edges view). person_link persons (nv_node_id n) e) \<and>
     (open_work n (lifecycle_of view (nv_node_id n)) \<or> in_window opts (activity_time view persons (nv_node_id n)))"

definition node_item :: "chrono \<Rightarrow> graph_view \<Rightarrow> string list \<Rightarrow> graph_node_view \<Rightarrow> ledger_item" where
  "node_item ch view persons n =
     \<lparr>li_kind = kind_of n, li_resource_id = (if nv_resource_id n = [] then nv_node_id n else nv_resource_id n),
      li_node_id = nv_node_id n, li_summary = node_summary view persons n,
      li_confidence = score_item_confidence (lifecycle_of view (nv_node_id n)) True,
      li_evidence_refs = node_evidence ch view persons (nv_node_id n)\<rparr>"

lemma compile_node_worthy:
  "compile_node ch opts view persons n =
     (if digest_worthy opts view persons n
      then Some (activity_time view persons (nv_node_id n), node_item ch view persons n) else None)"
proof (cases "nv_node_id n \<in> set persons")
  case False
  have "\<not> in_window opts t \<longleftrightarrow> (case t of Some ts \<Rightarrow> ts < co_activity_start opts \<or> co_activity_end opts < ts | None \<Rightarrow> False)" for t
    by (auto simp: in_window_def split: option.split)
  then show ?thesis
    by (simp add: compile_node_def Let_def digest_worthy_def node_item_def linked_iff [OF False])
qed (simp add: compile_node_def digest_worthy_def)

definition worthy_ranked :: "compile_opts \<Rightarrow> graph_view \<Rightarrow> string list \<Rightarrow> graph_node_view list" where
  "worthy_ranked opts view persons =
     sort_key (\<lambda>n. newest_first (activity_time view persons (nv_node_id n)))
       (filter (digest_worthy opts view persons) (gv_nodes view))"

lemma ledger_items_worthy:
  "ledger_items ch opts view persons = cap_commits 0 (map (node_item ch view persons) (worthy_ranked opts view persons))"
proof -
  have m: "List.map_filter (compile_node ch opts view persons) ns =
      map (\<lambda>n. (activity_time view persons (nv_node_id n), node_item ch view persons n))
        (filter (digest_worthy opts view persons) ns)" for ns
    by (induction ns) (simp_all add: List.map_filter_def compile_node_worthy)
  show ?thesis
    unfolding ledger_items_def rank_items_def m sort_key_of_map worthy_ranked_def by (simp add: comp_def)
qed

lemma node_item_simps [simp]:
  "li_node_id (node_item ch view persons n) = nv_node_id n" "li_kind (node_item ch view persons n) = kind_of n"
  by (simp_all add: node_item_def)

lemma worthy_ranked_set: "set (worthy_ranked opts view persons) = {n \<in> set (gv_nodes view). digest_worthy opts view persons n}"
  by (auto simp: worthy_ranked_def)

lemma worthy_ranked_sorted:
  "sorted (map (\<lambda>n. newest_first (activity_time view persons (nv_node_id n))) (worthy_ranked opts view persons))"
  by (simp add: worthy_ranked_def)

lemma worthy_ranked_distinct:
  "distinct (map nv_node_id (gv_nodes view)) \<Longrightarrow> distinct (map nv_node_id (worthy_ranked opts view persons))"
  unfolding worthy_ranked_def by (metis distinct_map_filter mset_eq_imp_distinct_iff mset_map mset_sort)

text \<open>The items that are not commits are the worthy nodes that are not, and the commits the first five.\<close>

lemma ledger_item_ids:
  defines "ids c its \<equiv> map li_node_id (filter (\<lambda>i. (li_kind i = ''commit'') = c) its)"
    and "rank c opts view persons \<equiv> map nv_node_id (filter (\<lambda>n. (kind_of n = ''commit'') = c) (worthy_ranked opts view persons))"
  shows "ids False (ledger_items ch opts view persons) = rank False opts view persons"
    "ids True (ledger_items ch opts view persons) = take 5 (rank True opts view persons)"
  unfolding ids_def rank_def ledger_items_worthy
  by (simp_all add: cap_commits_others cap_commits_commits filter_map comp_def take_map)

lemma compile_person_ledger:
  assumes "fst (compile_person env source tw opts s) = Inr out"
  shows "ls_ledger (oc_ledger out) = compile_ledger (ce_chrono env) tw opts
      (fetch_view source (tw_tenant_id tw) (co_hops opts) (subject_ids tw)) (map subject_node (subject_ids tw))
      (ls_graph_as_of (oc_ledger out)) (ls_compiled_at (oc_ledger out))"
    "tw_twin_kind tw = Person \<and> tw_tenant_id tw \<noteq> []"
    "oc_draft_text out = render_draft_text (ce_upper env) (ce_chrono env) (ls_ledger (oc_ledger out))"
    "get_ledger (snd (compile_person env source tw opts s)) (tw_tenant_id tw) (ls_ledger_id (oc_ledger out)) = Some (oc_ledger out)"
  using assms
  by (auto simp: compile_person_def Let_def put_ledger_def get_ledger_def put_compile_run_def
      split: if_splits option.splits sum.splits)

definition digest_items :: "compile_outcome \<Rightarrow> ledger_item list" where
  "digest_items out = sl_items (ls_ledger (oc_ledger out))"

definition worthy_nodes :: "compile_opts \<Rightarrow> graph_view \<Rightarrow> string list \<Rightarrow> graph_node_view set" where
  "worthy_nodes opts view persons = {n \<in> set (gv_nodes view). digest_worthy opts view persons n}"

lemma digest_items_eq:
  assumes "fst (compile_person env source tw opts s) = Inr out"
  shows "digest_items out = ledger_items (ce_chrono env) opts
    (fetch_view source (tw_tenant_id tw) (co_hops opts) (subject_ids tw)) (map subject_node (subject_ids tw))"
  by (simp add: digest_items_def compile_person_ledger(1) [OF assms] compile_ledger_def apply_rollup_def)

text \<open>
  C23. A compiled digest is exactly the person's work: its items that are not commits are the work nodes of the
  fetched views that are tied to the person by an edge, are no demo objects and are open or active in the
  window; of the commits it holds the newest five, or all if there are fewer; every node appears once, and
  the items are ordered from the newest activity to the oldest, undated ones last.
\<close>

theorem digest_is_the_linked_work:
  fixes env source tw opts s out
  assumes "fst (compile_person env source tw opts s) = Inr out"
  defines "view \<equiv> fetch_view source (tw_tenant_id tw) (co_hops opts) (subject_ids tw)"
    and "persons \<equiv> map subject_node (subject_ids tw)"
  defines "time \<equiv> \<lambda>i. newest_first (activity_time view persons i)"
  shows "distinct (map li_node_id (digest_items out)) \<and> sorted (map (time \<circ> li_node_id) (digest_items out)) \<and>
    {li_node_id i | i. i \<in> set (digest_items out) \<and> li_kind i \<noteq> ''commit''}
      = {nv_node_id n | n. n \<in> worthy_nodes opts view persons \<and> kind_of n \<noteq> ''commit''} \<and>
    (\<exists>newest older. newest @ older = filter (\<lambda>n. kind_of n = ''commit'') (worthy_ranked opts view persons) \<and>
      [li_node_id i. i \<leftarrow> digest_items out, li_kind i = ''commit''] = map nv_node_id newest \<and>
      (length newest = 5 \<or> older = []))"
proof -
  let ?w = "worthy_ranked opts view persons" and ?ch = "ce_chrono env"
  have items: "digest_items out = ledger_items ?ch opts view persons"
    unfolding digest_items_eq [OF assms(1)] view_def persons_def ..
  have sub: "subseq (map li_node_id (digest_items out)) (map nv_node_id ?w)"
    using subseq_map [OF cap_commits_subseq [of 0 "map (node_item ?ch view persons) ?w"], of li_node_id]
    by (simp add: items ledger_items_worthy comp_def)
  have "distinct (map nv_node_id ?w)"
    by (rule worthy_ranked_distinct) (simp add: view_def fetched_nodes_distinct)
  with sub have d: "distinct (map li_node_id (digest_items out))" by (rule distinct_subseq)
  have "sorted (map time (map nv_node_id ?w))" using worthy_ranked_sorted [of view persons opts] by (simp add: time_def comp_def)
  moreover have "subseq (map time (map li_node_id (digest_items out))) (map time (map nv_node_id ?w))"
    using sub by (rule subseq_map)
  ultimately have o: "sorted (map (time \<circ> li_node_id) (digest_items out))"
    by (simp add: sorted_wrt_subseq)
  note ids = ledger_item_ids [of ?ch opts view persons, folded items]
  have "{li_node_id i | i. i \<in> set (digest_items out) \<and> li_kind i \<noteq> ''commit''}
      = set (map li_node_id (filter (\<lambda>i. (li_kind i = ''commit'') = False) (digest_items out)))" by auto
  also have "... = {nv_node_id n | n. n \<in> worthy_nodes opts view persons \<and> kind_of n \<noteq> ''commit''}"
    unfolding ids(1) by (auto simp: worthy_ranked_set worthy_nodes_def)
  finally have others: "{li_node_id i | i. i \<in> set (digest_items out) \<and> li_kind i \<noteq> ''commit''}
      = {nv_node_id n | n. n \<in> worthy_nodes opts view persons \<and> kind_of n \<noteq> ''commit''}" .
  let ?c = "filter (\<lambda>n. kind_of n = ''commit'') ?w"
  have l: "[li_node_id i. i \<leftarrow> xs, li_kind i = ''commit''] = map li_node_id (filter (\<lambda>i. (li_kind i = ''commit'') = True) xs)" for xs
    by (induction xs) auto
  have "take 5 ?c @ drop 5 ?c = ?c \<and> [li_node_id i. i \<leftarrow> digest_items out, li_kind i = ''commit''] = map nv_node_id (take 5 ?c)
      \<and> (length (take 5 ?c) = 5 \<or> drop 5 ?c = [])"
    unfolding l ids(2) by (auto simp: take_map min_def)
  then show ?thesis using d o others by blast
qed

section \<open>Evidence and blockers\<close>

text \<open>Every reference an item gives comes from an edge to the person, from the state of the node, or is the node.\<close>

definition real_evidence :: "chrono \<Rightarrow> graph_view \<Rightarrow> string list \<Rightarrow> string \<Rightarrow> string \<Rightarrow> bool" where
  "real_evidence ch view persons i r \<longleftrightarrow>
     (\<exists>e \<in> set (gv_edges view). person_link persons i e \<and> r \<in> set (edge_evidence ch e)) \<or>
     (\<exists>st \<in> set (gv_states view). sv_node_id st = i \<and> r = ''event:'' @ sv_event_id st) \<or> r = ''node:'' @ i"

lemma node_state_mem: "node_state view i = Some st \<Longrightarrow> st \<in> set (gv_states view) \<and> sv_node_id st = i"
  by (auto simp: node_state_def or_else_def find_Some_iff split: option.splits)

lemma node_evidence_real:
  assumes "i \<notin> set persons" "r \<in> set (node_evidence ch view persons i)"
  shows "real_evidence ch view persons i r"
proof -
  consider e where "e \<in> set (activity_edges view persons i)" "r \<in> set (edge_evidence ch e)"
    | st where "node_state view i = Some st" "r = ''event:'' @ sv_event_id st"
    | "r = ''node:'' @ i"
    using assms(2) by (auto simp: node_evidence_def Let_def set_dedup_keep_first(1) split: if_splits option.splits)
  then show ?thesis
  proof cases
    case 1
    then show ?thesis using activity_edges_tied [OF assms(1) 1(1)] unfolding real_evidence_def by blast
  next
    case 2
    then show ?thesis using node_state_mem [OF 2(1)] unfolding real_evidence_def by blast
  qed (simp add: real_evidence_def)
qed

lemma node_evidence_ne: "node_evidence ch view persons i \<noteq> []" "distinct (node_evidence ch view persons i)"
proof -
  have "set (node_evidence ch view persons i) \<noteq> {}" by (simp add: node_evidence_def Let_def set_dedup_keep_first(1))
  then show "node_evidence ch view persons i \<noteq> []" by auto
qed (simp add: node_evidence_def Let_def set_dedup_keep_first(2))

lemma set_cap_commits: "set (cap_commits k its) \<subseteq> set its"
  by (induction k its rule: cap_commits.induct) auto

lemma digest_item_node:
  assumes "it \<in> set (ledger_items ch opts view persons)"
  obtains n where "n \<in> worthy_nodes opts view persons" "it = node_item ch view persons n"
proof -
  have "it \<in> set (map (node_item ch view persons) (worthy_ranked opts view persons))"
    using assms set_cap_commits unfolding ledger_items_worthy by blast
  then show ?thesis using that by (auto simp: worthy_ranked_set worthy_nodes_def)
qed

text \<open>Blockers: one per target, in the order of the targets, and one for every live blocking edge.\<close>

lemma dedup_adjacent_set: "key ` set (dedup_adjacent key xs) = key ` set xs"
  by (induction key xs rule: dedup_adjacent.induct) auto

lemma dedup_adjacent_sorted:
  "sorted (map key xs) \<Longrightarrow> sorted_wrt (\<lambda>a b. key a < key b) (dedup_adjacent key xs)"
proof (induction key xs rule: dedup_adjacent.induct)
  case (3 key x y ys)
  show ?case
  proof (cases "key y = key x")
    case False
    have "key z \<in> key ` set (y # ys)" if "z \<in> set (dedup_adjacent key (y # ys))" for z
      using that dedup_adjacent_set [of key "y # ys"] by blast
    moreover have "key x < k" if "k \<in> key ` set (y # ys)" for k
      using that 3(3) False by (auto simp: order.strict_iff_order)
    ultimately show ?thesis using 3 False by auto
  qed (use 3 in simp)
qed simp_all

definition live_block :: "graph_view \<Rightarrow> graph_edge_view \<Rightarrow> bool" where
  "live_block view e \<longleftrightarrow> (e \<in> set (gv_blockers view) \<or> e \<in> set (gv_edges view) \<and> is_block_edge e)
     \<and> compile_blocker view e \<noteq> None"

lemma compile_blocker_target: "compile_blocker view e = Some b \<Longrightarrow> bi_node_id b = block_target e"
  by (auto simp: compile_blocker_def split: if_splits)

lemma set_map_filter: "set (List.map_filter f xs) = {y. \<exists>x \<in> set xs. f x = Some y}"
  by (auto simp: List.map_filter_def image_iff) (metis option.sel)

lemma ledger_blocker_ids: "bi_node_id ` set (ledger_blockers view) = {block_target e | e. live_block view e}"
proof -
  have "bi_node_id ` set (ledger_blockers view)
      = bi_node_id ` {b. \<exists>e \<in> set (gv_blockers view @ filter is_block_edge (gv_edges view)). compile_blocker view e = Some b}"
    unfolding ledger_blockers_def dedup_adjacent_set set_sort set_map_filter ..
  also have "... = {block_target e | e. live_block view e}" (is "?L = ?R")
  proof (intro set_eqI iffI)
    fix i assume "i \<in> ?L"
    then obtain b e where e: "e \<in> set (gv_blockers view @ filter is_block_edge (gv_edges view))"
      "compile_blocker view e = Some b" "i = bi_node_id b" by blast
    then show "i \<in> ?R" using compile_blocker_target [OF e(2)] by (auto simp: live_block_def)
  next
    fix i assume "i \<in> ?R"
    then obtain e b where e: "live_block view e" "i = block_target e" "compile_blocker view e = Some b"
      by (auto simp: live_block_def)
    then have "i = bi_node_id b" "e \<in> set (gv_blockers view @ filter is_block_edge (gv_edges view))"
      using compile_blocker_target [OF e(3)] by (auto simp: live_block_def)
    with e(3) show "i \<in> ?L" by blast
  qed
  finally show ?thesis .
qed

lemma ledger_blockers_distinct: "distinct (map bi_node_id (ledger_blockers view))"
proof -
  have "sorted_wrt (\<lambda>a b. bi_node_id a < bi_node_id b) (ledger_blockers view)"
    unfolding ledger_blockers_def by (rule dedup_adjacent_sorted) simp
  then have "sorted_wrt (<) (map bi_node_id (ledger_blockers view))" by (simp add: sorted_wrt_map)
  then show ?thesis by (simp add: strict_sorted_iff)
qed

lemma item_never_blocker: "score_item_confidence lc b \<noteq> Blocker"
  by (simp add: score_item_confidence_def Let_def)

text \<open>A digest is blocked exactly when a live blocking edge was seen.\<close>

lemma digest_blocked_iff:
  "sl_confidence_rollup (compile_ledger ch tw opts view persons t u) = Blocker \<longleftrightarrow> (\<exists>e. live_block view e)"
proof -
  have "\<not> (\<exists>i \<in> set (ledger_items ch opts view persons). li_confidence i = Blocker)"
    by (auto elim!: digest_item_node simp: node_item_def item_never_blocker)
  moreover have "ledger_blockers view \<noteq> [] \<longleftrightarrow> (\<exists>e. live_block view e)"
  proof -
    have "ledger_blockers view = [] \<longleftrightarrow> bi_node_id ` set (ledger_blockers view) = {}" by simp
    then show ?thesis unfolding ledger_blocker_ids by auto
  qed
  ultimately show ?thesis
    by (simp add: compile_ledger_def apply_rollup_def roll_up_Blocker_iff has_blocker_signal_def)
qed

text \<open>Resolved work is scored as completed and yet called open in its summary.\<close>

lemma resolved_work_called_open:
  assumes "lifecycle_of view (nv_node_id n) = ''RESOLVED''" "node_title n \<noteq> []" "\<not> is_commit_node n" "\<not> is_repo_node n"
  shows "li_confidence (node_item ch view persons n) = High \<and>
    li_summary (node_item ch view persons n) = ''Open '' @ kind_of n @ '': '' @ node_title n"
  using assms by (simp add: node_item_def node_summary_def Let_def score_item_confidence_def ascii_case_eval)

section \<open>A concrete digest\<close>

definition digest_node :: "string \<Rightarrow> string \<Rightarrow> graph_node_view" where
  "digest_node i ty = \<lparr>nv_node_id = i, nv_node_type = ty, nv_display_name = ''work'', nv_resource_id = i,
     nv_properties = JObj [], nv_is_private = False\<rparr>"

definition digest_edge :: "string \<Rightarrow> graph_edge_view" where
  "digest_edge i = \<lparr>ev_edge_id = ''e'', ev_edge_type = ''AUTHORED'', ev_from_node_id = ''person:gu_a'', ev_to_node_id = i,
     ev_event_id = ''v'', ev_properties = JObj [], ev_is_private = False, ev_valid_from = Some 5\<rparr>"

definition digest_source :: graph_source where
  "digest_source tenant sid pn hops = Inr
     \<lparr>gv_nodes = [digest_node ''person:gu_a'' ''Person'', digest_node ''issue:1'' ''Issue'', digest_node ''issue:2'' ''Issue''],
      gv_edges = [digest_edge ''issue:1''], gv_states = [], gv_blockers = [], gv_graph_as_of = Some 9\<rparr>"

definition digest_twin :: twin where
  "digest_twin = \<lparr>tw_tenant_id = ''ten'', tw_twin_id = ''twin:person:gu_a'', tw_twin_kind = Person, tw_subject_id = ''gu_a'',
     tw_display_name = ''A'', tw_timezone = ''UTC'', tw_channel_id = ''C'', tw_shadow_until = None,
     tw_high_auto_publish = False, tw_enabled = True, tw_config_json = JObj [], tw_created_at = 0, tw_updated_at = 0\<rparr>"

definition digest_env :: compile_env where
  "digest_env = \<lparr>ce_sha = (\<lambda>s. s), ce_chrono = \<lparr>strftime = (\<lambda>f t. f), rfc3339 = (\<lambda>t. [])\<rparr>, ce_upper = (\<lambda>s. s),
     ce_uuid = ''u'', ce_clock = (\<lambda>n. int n)\<rparr>"

lemma compile_into_new_store:
  assumes "tw_twin_kind tw = Person" "tw_tenant_id tw \<noteq> []"
  shows "\<exists>out. fst (compile_person env source tw opts new_twin_store) = Inr out"
  using assms by (auto simp: compile_person_def Let_def put_ledger_def new_twin_store_def split: option.split)

lemma digest_worthy_sample:
  defines "view \<equiv> fetch_view digest_source ''ten'' 3 (subject_ids digest_twin)"
  shows "worthy_nodes (window_opts 0 10 3) view [''person:gu_a''] = {digest_node ''issue:1'' ''Issue''}"
    "subject_ids digest_twin = [''gu_a'']"
proof -
  show ids: "subject_ids digest_twin = [''gu_a'']" by (simp add: subject_ids_def alias_ids_def digest_twin_def)
  have v: "gv_nodes view = [digest_node ''person:gu_a'' ''Person'', digest_node ''issue:1'' ''Issue'', digest_node ''issue:2'' ''Issue'']"
    "gv_edges view = [digest_edge ''issue:1'']" "gv_states view = []"
    unfolding view_def ids
    by (simp_all add: fetch_view_def digest_source_def merge_graph_view_def empty_graph_view_def push_absent_def digest_node_def)
  have work: "is_work_node (digest_node ''issue:1'' ''Issue'')" "is_issue_node (digest_node ''issue:1'' ''Issue'')"
    by (simp_all add: is_work_node_def is_issue_node_def digest_node_def)
  have seed: "\<not> node_view_is_demo_seed (digest_node ''issue:1'' ''Issue'')"
    by code_simp
  have "lifecycle_of view ''issue:1'' = ''OPEN''" by (simp add: lifecycle_of_def node_state_def v)
  then have one: "digest_worthy (window_opts 0 10 3) view [''person:gu_a''] (digest_node ''issue:1'' ''Issue'')"
    using work seed by (simp add: digest_worthy_def v person_link_def digest_edge_def open_work_def digest_node_def)
  have two: "\<not> digest_worthy (window_opts 0 10 3) view [''person:gu_a''] (digest_node ''issue:2'' ''Issue'')"
    and self: "\<not> digest_worthy (window_opts 0 10 3) view [''person:gu_a''] (digest_node ''person:gu_a'' ''Person'')"
    by (simp_all add: digest_worthy_def v person_link_def digest_edge_def digest_node_def)
  show "worthy_nodes (window_opts 0 10 3) view [''person:gu_a''] = {digest_node ''issue:1'' ''Issue''}"
    unfolding worthy_nodes_def v(1) using one two self by auto
qed

theorem digest_is_the_linked_work_witness:
  "\<exists>out. fst (compile_person digest_env digest_source digest_twin (window_opts 0 10 3) new_twin_store) = Inr out \<and>
     {li_node_id i | i. i \<in> set (digest_items out) \<and> li_kind i \<noteq> ''commit''} = {''issue:1''}"
proof -
  have t: "tw_twin_kind digest_twin = Person" "tw_tenant_id digest_twin = ''ten''" by (simp_all add: digest_twin_def)
  then obtain out where out: "fst (compile_person digest_env digest_source digest_twin (window_opts 0 10 3) new_twin_store) = Inr out"
    using compile_into_new_store [of digest_twin digest_env digest_source "window_opts 0 10 3"] by auto
  have "kind_of (digest_node ''issue:1'' ''Issue'') = ''issue''" by code_simp
  moreover have "co_hops (window_opts 0 10 3) = 3" by (simp add: window_opts_def)
  moreover have "map subject_node [''gu_a''] = [''person:gu_a'']" by (simp add: subject_node_def)
  ultimately have "{li_node_id i | i. i \<in> set (digest_items out) \<and> li_kind i \<noteq> ''commit''} = {''issue:1''}"
    using digest_is_the_linked_work [OF out] digest_worthy_sample t by (simp add: digest_node_def)
  with out show ?thesis by blast
qed

end
