(* ===== verification/Twin_State_Machine.thy ===== *)
theory Twin_State_Machine
  imports Twin_Model
begin

text \<open>
  The pure delivery state machine of a draft (\<open>twin-core/src/state_machine.rs\<close>): the events,
  the transition function, the initial status after a compile, and the two guards. The lemmas
  give the complete conditions under which a draft is queued for its channel post, and lift them
  to whole runs: consent is always in the run's events or in the policy of the tier, and a veto
  is final.
\<close>

datatype delivery_event =
    EvEnterShadow | EvLeaveShadow | EvDmSent | EvEdit | EvVeto | EvMediumSilenceTimeout
  | EvExplicitPublish | EvHighAutoPublish | EvForceHuman | EvPublishSucceeded | EvPublishFailed

fun apply_delivery_event ::
  "draft_status \<Rightarrow> delivery_event \<Rightarrow> confidence_tier \<Rightarrow> bool \<Rightarrow> draft_status option"
where
  "apply_delivery_event Shadow EvLeaveShadow _ _ = Some Pending"
| "apply_delivery_event Shadow EvEnterShadow _ _ = Some Shadow"
| "apply_delivery_event Pending EvEdit _ _ = Some Edited"
| "apply_delivery_event Pending EvVeto _ _ = Some Vetoed"
| "apply_delivery_event Pending EvMediumSilenceTimeout c _ =
     (if c = Medium then Some PublishQueued else None)"
| "apply_delivery_event Pending EvExplicitPublish _ _ = Some PublishQueued"
| "apply_delivery_event Pending EvHighAutoPublish c hap =
     (if c = High \<and> hap then Some PublishQueued else None)"
| "apply_delivery_event Pending EvForceHuman c _ =
     (if c = Blocker then Some ForceHuman else None)"
| "apply_delivery_event Pending EvPublishFailed _ _ = Some PublishFailed"
| "apply_delivery_event Edited EvExplicitPublish _ _ = Some PublishQueued"
| "apply_delivery_event Edited EvMediumSilenceTimeout c _ =
     (if c = Medium then Some PublishQueued else None)"
| "apply_delivery_event Edited EvVeto _ _ = Some Vetoed"
| "apply_delivery_event ForceHuman EvExplicitPublish _ _ = Some PublishQueued"
| "apply_delivery_event ForceHuman EvVeto _ _ = Some Vetoed"
| "apply_delivery_event ForceHuman EvEdit _ _ = Some Edited"
| "apply_delivery_event PublishQueued EvPublishSucceeded _ _ = Some Published"
| "apply_delivery_event PublishQueued EvPublishFailed _ _ = Some PublishFailed"
| "apply_delivery_event Vetoed _ _ _ = None"
| "apply_delivery_event Published _ _ _ = None"
| "apply_delivery_event PublishFailed EvExplicitPublish _ _ = Some PublishQueued"
| "apply_delivery_event PublishFailed EvHighAutoPublish c hap =
     (if c = High \<and> hap then Some PublishQueued else None)"
| "apply_delivery_event Pending EvDmSent _ _ = Some Pending"
| "apply_delivery_event Shadow EvDmSent _ _ = None"
| "apply_delivery_event _ _ _ _ = None"

fun initial_draft_status :: "bool \<Rightarrow> confidence_tier \<Rightarrow> bool \<Rightarrow> draft_status" where
  "initial_draft_status in_shadow c hap =
     (if in_shadow then Shadow
      else case c of
        Blocker \<Rightarrow> ForceHuman
      | High \<Rightarrow> (if hap then PublishQueued else Pending)
      | Medium \<Rightarrow> Pending)"

definition silence_may_publish :: "confidence_tier \<Rightarrow> bool" where
  "silence_may_publish c = (c = Medium)"

definition may_channel_publish :: "draft_status \<Rightarrow> bool" where
  "may_channel_publish s = (s = PublishQueued)"

text \<open>A run of events, for a fixed tier and auto-publish policy; \<open>None\<close> is an illegal event.\<close>

fun run_delivery ::
  "confidence_tier \<Rightarrow> bool \<Rightarrow> draft_status \<Rightarrow> delivery_event list \<Rightarrow> draft_status option"
where
  "run_delivery c hap s [] = Some s"
| "run_delivery c hap s (e # es) =
     (case apply_delivery_event s e c hap of
        None \<Rightarrow> None
      | Some s' \<Rightarrow> run_delivery c hap s' es)"

section \<open>Single steps\<close>

lemma queue_gate_cases:
  "apply_delivery_event s e c hap = Some PublishQueued \<longleftrightarrow>
     (e = EvExplicitPublish \<and> s \<in> {Pending, Edited, ForceHuman, PublishFailed})
   \<or> (e = EvMediumSilenceTimeout \<and> c = Medium \<and> s \<in> {Pending, Edited})
   \<or> (e = EvHighAutoPublish \<and> c = High \<and> hap \<and> s \<in> {Pending, PublishFailed})"
  by (cases s; cases e; simp)

lemma publish_gate_cases:
  "apply_delivery_event s e c hap = Some Published \<longleftrightarrow>
     s = PublishQueued \<and> e = EvPublishSucceeded"
  by (cases s; cases e; simp)

lemma veto_gate_cases:
  "apply_delivery_event s e c hap = Some Vetoed \<longleftrightarrow>
     e = EvVeto \<and> s \<in> {Pending, Edited, ForceHuman}"
  by (cases s; cases e; simp)

lemma edit_gate_cases:
  "apply_delivery_event s e c hap = Some Edited \<longleftrightarrow> e = EvEdit \<and> s \<in> {Pending, ForceHuman}"
  by (cases s; cases e; simp)

lemma never_into_expired: "apply_delivery_event s e c hap \<noteq> Some Expired"
  by (cases s; cases e; simp)

lemma expired_is_stuck: "apply_delivery_event Expired e c hap = None"
  by (cases e) auto

lemma shadow_exit_cases:
  "apply_delivery_event Shadow e c hap = Some s \<longleftrightarrow>
     (e = EvLeaveShadow \<and> s = Pending) \<or> (e = EvEnterShadow \<and> s = Shadow)"
  by (cases e) auto

lemma terminal_iff_stuck:
  "(\<forall>e. apply_delivery_event s e c hap = None) \<longleftrightarrow> s \<in> {Vetoed, Published, Expired}"
proof (cases s)
  case Shadow
  then show ?thesis by (auto intro: exI [of _ EvLeaveShadow])
next
  case Pending
  then show ?thesis by (auto intro: exI [of _ EvEdit])
next
  case Edited
  then show ?thesis by (auto intro: exI [of _ EvVeto])
next
  case PublishQueued
  then show ?thesis by (auto intro: exI [of _ EvPublishFailed])
next
  case ForceHuman
  then show ?thesis by (auto intro: exI [of _ EvVeto])
next
  case PublishFailed
  then show ?thesis by (auto intro: exI [of _ EvExplicitPublish])
qed (auto simp: expired_is_stuck)

section \<open>Runs\<close>

lemma run_delivery_append:
  "run_delivery c hap s (es @ es') =
     (case run_delivery c hap s es of None \<Rightarrow> None | Some s' \<Rightarrow> run_delivery c hap s' es')"
  by (induction es arbitrary: s) (auto split: option.splits)

text \<open>What the events of a run (with the policy of the tier) can justify a channel post.\<close>

definition consented :: "confidence_tier \<Rightarrow> bool \<Rightarrow> delivery_event list \<Rightarrow> bool" where
  "consented c hap es =
     (EvExplicitPublish \<in> set es
      \<or> (c = Medium \<and> EvMediumSilenceTimeout \<in> set es)
      \<or> (c = High \<and> hap))"

lemma consented_Cons [simp]:
  "consented c hap (e # es) \<longleftrightarrow>
     e = EvExplicitPublish \<or> (c = Medium \<and> e = EvMediumSilenceTimeout) \<or> consented c hap es"
  by (auto simp: consented_def)

lemma run_needs_consent:
  "run_delivery c hap s es = Some s' \<Longrightarrow> s' \<in> {PublishQueued, Published} \<Longrightarrow>
   s \<in> {PublishQueued, Published} \<or> consented c hap es"
proof (induction es arbitrary: s)
  case Nil
  then show ?case by simp
next
  case (Cons e es)
  then obtain t where t: "apply_delivery_event s e c hap = Some t"
    and r: "run_delivery c hap t es = Some s'"
    by (auto split: option.splits)
  from Cons.IH [OF r Cons.prems(2)] show ?case
  proof
    assume "t \<in> {PublishQueued, Published}"
    then show ?thesis
      using t by (auto simp: queue_gate_cases publish_gate_cases consented_def)
  qed simp
qed

lemma run_from_terminal:
  "s \<in> {Vetoed, Published, Expired} \<Longrightarrow> run_delivery c hap s es = Some s' \<Longrightarrow> es = [] \<and> s' = s"
  by (cases es) (auto simp: expired_is_stuck)

lemma run_never_expired:
  "run_delivery c hap s es = Some Expired \<Longrightarrow> s = Expired"
proof (induction es arbitrary: s)
  case Nil
  then show ?case by simp
next
  case (Cons e es)
  then obtain t where t: "apply_delivery_event s e c hap = Some t"
    and r: "run_delivery c hap t es = Some Expired"
    by (auto split: option.splits)
  from Cons.IH [OF r] t show ?case by (simp add: never_into_expired)
qed

lemma run_from_shadow:
  "run_delivery c hap Shadow es = Some s \<Longrightarrow> EvLeaveShadow \<notin> set es \<Longrightarrow> s = Shadow"
  by (induction es) (auto simp: shadow_exit_cases split: option.splits)

section \<open>Properties\<close>

text \<open>
  Consent. Whenever the delivery state machine takes a draft from the status it gets after a
  compile to the queue for the channel or to published, the run contains an explicit publish by a
  human, or the tier is Medium and the silence timeout fired, or the tier is High and the twin has
  opted in to automatic publishing. A Blocker draft is therefore never posted without an explicit
  human publish.
\<close>

lemma publish_needs_consent:
  assumes "run_delivery c hap (initial_draft_status in_shadow c hap) es = Some s"
    and "s \<in> {PublishQueued, Published}"
  shows "(EvExplicitPublish \<in> set es
      \<or> (c = Medium \<and> EvMediumSilenceTimeout \<in> set es) \<or> (c = High \<and> hap))
    \<and> (c = Blocker \<longrightarrow> EvExplicitPublish \<in> set es)"
proof -
  have "initial_draft_status in_shadow c hap \<in> {PublishQueued, Published} \<Longrightarrow> c = High \<and> hap"
    by (cases c) (auto split: if_splits)
  with run_needs_consent [OF assms] show ?thesis
    by (auto simp: consented_def)
qed

lemma publish_needs_consent_witness:
  "run_delivery Blocker True (initial_draft_status False Blocker True)
     [EvEdit, EvExplicitPublish, EvPublishSucceeded] = Some Published
   \<and> EvExplicitPublish \<in> set [EvEdit, EvExplicitPublish, EvPublishSucceeded]"
proof -
  have r: "run_delivery Blocker True (initial_draft_status False Blocker True)
     [EvEdit, EvExplicitPublish, EvPublishSucceeded] = Some Published"
    by simp
  show ?thesis
    using r publish_needs_consent [OF r] by simp
qed

text \<open>
  Terminal states. A status accepts no event at all exactly when it is vetoed, published or
  expired; so a run that reaches a veto ends there, and no further event, an explicit publish
  included, is ever accepted.
\<close>

lemma veto_is_final:
  "((\<forall>e. apply_delivery_event s e c hap = None) \<longleftrightarrow> s \<in> {Vetoed, Published, Expired})
   \<and> (run_delivery c hap s0 es = Some Vetoed \<longrightarrow> es' \<noteq> [] \<longrightarrow> run_delivery c hap s0 (es @ es') = None)"
proof (intro conjI impI)
  assume v: "run_delivery c hap s0 es = Some Vetoed" and "es' \<noteq> []"
  then show "run_delivery c hap s0 (es @ es') = None"
    by (cases es') (simp_all add: run_delivery_append)
qed (rule terminal_iff_stuck)

lemma veto_is_final_witness:
  "run_delivery Medium False Pending ([EvEdit, EvVeto] @ [EvExplicitPublish]) = None"
proof -
  have v: "run_delivery Medium False Pending [EvEdit, EvVeto] = Some Vetoed" by simp
  show ?thesis
    using veto_is_final [of Vetoed Medium False Pending "[EvEdit, EvVeto]" "[EvExplicitPublish]"] v
    by simp
qed

end
