(* ===== verification/Twin_Notify.thy ===== *)
theory Twin_Notify
  imports Twin_Model
begin

text \<open>
  Notify policy v1 (\<open>twin-core/src/notify_policy.rs\<close>): the fingerprint of a ledger's story, the
  persisted per-twin notify state, the decision whether a compile may send a direct message, and
  the bookkeeping after a message. \<open>sha\<close> is the hexadecimal SHA-256 digest; what the code
  relies on is \<open>hex_digest sha\<close>: its output is made of hexadecimal digits and is not empty.
\<close>

definition hex_digest :: "(string \<Rightarrow> string) \<Rightarrow> bool" where
  "hex_digest sha \<longleftrightarrow> (\<forall>s. sha s \<noteq> [] \<and> set (sha s) \<subseteq> set ''0123456789abcdef'')"

record notify_state =
  ns_last_fingerprint :: string
  ns_last_dm_at :: "string option"
  ns_last_dm_day :: string
  ns_dms_today :: "32 word"

definition default_notify_state :: notify_state where
  "default_notify_state =
     \<lparr>ns_last_fingerprint = [], ns_last_dm_at = None, ns_last_dm_day = [], ns_dms_today = 0\<rparr>"

datatype suppress_reason = SupUnchanged | SupDailyCap | SupEmpty | SupQuiet | SupShadow

fun suppress_as_str :: "suppress_reason \<Rightarrow> string" where
  "suppress_as_str SupUnchanged = ''unchanged''"
| "suppress_as_str SupDailyCap = ''daily_cap''"
| "suppress_as_str SupEmpty = ''empty''"
| "suppress_as_str SupQuiet = ''quiet''"
| "suppress_as_str SupShadow = ''shadow''"

record notify_decision =
  nd_allow_dm :: bool
  nd_fingerprint :: string
  nd_has_new_blocker :: bool
  nd_suppress :: "suppress_reason option"

definition normalize_summary :: "string \<Rightarrow> string" where
  "normalize_summary s = join_with '' '' (split_whitespace s)"

definition item_line :: "ledger_item \<Rightarrow> string" where
  "item_line it = ''i:'' @ li_kind it @ ''|'' @ li_resource_id it @ ''|'' @ li_node_id it @ ''|''
     @ normalize_summary (li_summary it)"

definition blocker_line :: "blocker_item \<Rightarrow> string" where
  "blocker_line b = ''b:'' @ bi_node_id b @ ''|'' @ normalize_summary (bi_summary b)"

definition fingerprint_text :: "status_ledger \<Rightarrow> string" where
  "fingerprint_text l =
     join_with [CHR 0x0A]
       ((''rollup:'' @ tier_as_str (sl_confidence_rollup l))
        # map item_line
            (sort_key (\<lambda>i. (li_resource_id i, li_node_id i, li_kind i)) (sl_items l))
        @ map blocker_line (sort_key bi_node_id (sl_open_blockers l)))"

definition ledger_fingerprint :: "(string \<Rightarrow> string) \<Rightarrow> status_ledger \<Rightarrow> string" where
  "ledger_fingerprint sha l = sha (fingerprint_text l)"

definition ledger_is_empty :: "status_ledger \<Rightarrow> bool" where
  "ledger_is_empty l \<longleftrightarrow> sl_items l = [] \<and> sl_open_blockers l = []"

section \<open>Persistence of the notify state in the twin's configuration\<close>

text \<open>The derived \<open>Serialize\<close>/\<open>Deserialize\<close> of \<open>NotifyState\<close>.\<close>

definition notify_state_to_json :: "notify_state \<Rightarrow> json" where
  "notify_state_to_json s =
     JObj [(''last_fingerprint'', JStr (ns_last_fingerprint s)),
           (''last_dm_at'', (case ns_last_dm_at s of None \<Rightarrow> JNull | Some t \<Rightarrow> JStr t)),
           (''last_dm_day'', JStr (ns_last_dm_day s)),
           (''dms_today'', JInt (uint (ns_dms_today s)))]"

fun opt_str_of_json :: "json option \<Rightarrow> string option option" where
  "opt_str_of_json None = Some None"
| "opt_str_of_json (Some JNull) = Some None"
| "opt_str_of_json (Some (JStr s)) = Some (Some s)"
| "opt_str_of_json (Some _) = None"

fun u32_of_json :: "json \<Rightarrow> 32 word option" where
  "u32_of_json (JInt n) = (if 0 \<le> n \<and> n < 2 ^ 32 then Some (word_of_int n) else None)"
| "u32_of_json _ = None"

definition notify_state_of_fields ::
  "json option \<Rightarrow> json option \<Rightarrow> json option \<Rightarrow> json option \<Rightarrow> notify_state option"
where
  "notify_state_of_fields fp at day n =
     (case (Option.bind fp as_str, opt_str_of_json at, Option.bind day as_str,
            Option.bind n u32_of_json) of
        (Some f, Some a, Some d, Some k) \<Rightarrow>
          Some \<lparr>ns_last_fingerprint = f, ns_last_dm_at = a, ns_last_dm_day = d, ns_dms_today = k\<rparr>
      | _ \<Rightarrow> None)"

fun notify_state_of_json :: "json \<Rightarrow> notify_state option" where
  "notify_state_of_json (JObj kvs) =
     notify_state_of_fields (map_of kvs ''last_fingerprint'') (map_of kvs ''last_dm_at'')
       (map_of kvs ''last_dm_day'') (map_of kvs ''dms_today'')"
| "notify_state_of_json (JArr [a, b, c, d]) =
     notify_state_of_fields (Some a) (Some b) (Some c) (Some d)"
| "notify_state_of_json _ = None"

definition notify_config_key :: string where
  "notify_config_key = ''notify_v1''"

definition load_notify_state :: "twin \<Rightarrow> notify_state" where
  "load_notify_state t =
     unwrap_or (Option.bind (json_get (tw_config_json t) notify_config_key) notify_state_of_json)
       default_notify_state"

definition write_notify_state :: "instant \<Rightarrow> twin \<Rightarrow> notify_state \<Rightarrow> twin" where
  "write_notify_state now t s =
     (let cfg = (if is_object (tw_config_json t) then tw_config_json t else JObj []);
          cfg' = (case cfg of
                    JObj kvs \<Rightarrow> JObj (AList.update notify_config_key (notify_state_to_json s) kvs)
                  | v \<Rightarrow> v)
      in t\<lparr>tw_config_json := cfg', tw_updated_at := now\<rparr>)"

lemma notify_state_json_roundtrip: "notify_state_of_json (notify_state_to_json s) = Some s"
proof -
  have "uint (ns_dms_today s) < 2 ^ 32" using uint_bounded [of "ns_dms_today s"] by simp
  then show ?thesis
    by (simp add: notify_state_to_json_def notify_state_of_fields_def split: option.split)
qed

lemma load_write_notify_state: "load_notify_state (write_notify_state now t s) = s"
  by (cases "tw_config_json t")
     (simp_all add: load_notify_state_def write_notify_state_def Let_def update_conv'
       notify_state_json_roundtrip)

section \<open>The decision\<close>

definition has_blocker :: "status_ledger \<Rightarrow> bool" where
  "has_blocker l \<longleftrightarrow> sl_open_blockers l \<noteq> [] \<or> sl_confidence_rollup l = Blocker"

definition is_new_blocker :: "status_ledger \<Rightarrow> notify_state \<Rightarrow> string \<Rightarrow> bool" where
  "is_new_blocker l st fp \<longleftrightarrow>
     has_blocker l
     \<and> (ns_last_fingerprint st = [] \<or> \<not> contains (ns_last_fingerprint st) ''b:''
        \<or> fp \<noteq> ns_last_fingerprint st)"

definition dms_on_day :: "notify_state \<Rightarrow> string \<Rightarrow> 32 word" where
  "dms_on_day st day = (if ns_last_dm_day st = day then ns_dms_today st else 0)"

definition utc_day :: "chrono \<Rightarrow> instant \<Rightarrow> string" where
  "utc_day ch now = strftime ch ''%Y-%m-%d'' now"

definition decide_notify ::
  "(string \<Rightarrow> string) \<Rightarrow> chrono \<Rightarrow> status_ledger \<Rightarrow> notify_state \<Rightarrow> instant \<Rightarrow> 32 word
   \<Rightarrow> bool \<Rightarrow> bool \<Rightarrow> bool \<Rightarrow> notify_decision"
where
  "decide_notify sha ch l st now max_dms_per_day allow_notify force_notify in_shadow =
     (let fp = ledger_fingerprint sha l; nb = is_new_blocker l st fp in
      if in_shadow
      then \<lparr>nd_allow_dm = False, nd_fingerprint = fp, nd_has_new_blocker = nb,
            nd_suppress = Some SupShadow\<rparr>
      else if \<not> allow_notify \<and> \<not> force_notify
      then \<lparr>nd_allow_dm = False, nd_fingerprint = fp, nd_has_new_blocker = nb,
            nd_suppress = Some SupQuiet\<rparr>
      else if ledger_is_empty l
      then \<lparr>nd_allow_dm = False, nd_fingerprint = fp, nd_has_new_blocker = False,
            nd_suppress = Some SupEmpty\<rparr>
      else if force_notify
      then \<lparr>nd_allow_dm = True, nd_fingerprint = fp, nd_has_new_blocker = nb,
            nd_suppress = None\<rparr>
      else if ns_last_fingerprint st \<noteq> [] \<and> ns_last_fingerprint st = fp
      then \<lparr>nd_allow_dm = False, nd_fingerprint = fp, nd_has_new_blocker = False,
            nd_suppress = Some SupUnchanged\<rparr>
      else if max_dms_per_day > 0 \<and> dms_on_day st (utc_day ch now) \<ge> max_dms_per_day \<and> \<not> nb
      then \<lparr>nd_allow_dm = False, nd_fingerprint = fp, nd_has_new_blocker = nb,
            nd_suppress = Some SupDailyCap\<rparr>
      else \<lparr>nd_allow_dm = True, nd_fingerprint = fp, nd_has_new_blocker = nb,
            nd_suppress = None\<rparr>)"

definition sat_add1 :: "32 word \<Rightarrow> 32 word" where
  "sat_add1 w = (if w = - 1 then w else w + 1)"

definition record_dm_sent :: "chrono \<Rightarrow> notify_state \<Rightarrow> string \<Rightarrow> instant \<Rightarrow> notify_state" where
  "record_dm_sent ch st fp now =
     (let day = utc_day ch now;
          st1 = (if ns_last_dm_day st = day
                 then st\<lparr>ns_dms_today := sat_add1 (ns_dms_today st)\<rparr>
                 else st\<lparr>ns_last_dm_day := day, ns_dms_today := 1\<rparr>)
      in st1\<lparr>ns_last_fingerprint := fp, ns_last_dm_at := Some (rfc3339 ch now)\<rparr>)"

definition record_suppressed_unchanged :: "notify_state \<Rightarrow> string \<Rightarrow> notify_state" where
  "record_suppressed_unchanged st fp =
     (if ns_last_fingerprint st = [] then st\<lparr>ns_last_fingerprint := fp\<rparr> else st)"

section \<open>Lemmas\<close>

lemma unat_sat_add1: "unat (sat_add1 w) = min (Suc (unat w)) (2 ^ 32 - 1)"
proof (cases "w = - 1")
  case True
  have "unat (- 1 :: 32 word) = 2 ^ 32 - 1"
    by (simp add: unsigned_minus_1_eq_mask mask_eq_exp_minus_1)
  with True show ?thesis by (simp add: sat_add1_def)
next
  case False
  then have "1 + w \<noteq> 0" by (metis add.commute add_eq_0_iff2)
  then have "unat (w + 1) = Suc (unat w)" by (metis add.commute unatSuc)
  moreover have "unat (w + 1) < 2 ^ 32" using unsigned_less [of "w + 1", where ?'a = nat] by simp
  ultimately show ?thesis using False by (simp add: sat_add1_def)
qed

lemma fingerprint_of_decision [simp]:
  "nd_fingerprint (decide_notify sha ch l st now m a f s) = ledger_fingerprint sha l"
  by (simp add: decide_notify_def Let_def)

lemma suppress_iff: "nd_suppress (decide_notify sha ch l st now m a f s) = None \<longleftrightarrow>
    nd_allow_dm (decide_notify sha ch l st now m a f s)"
  by (simp add: decide_notify_def Let_def)

lemma allow_dm_iff:
  "nd_allow_dm (decide_notify sha ch l st now m a f s) \<longleftrightarrow>
     \<not> s \<and> (a \<or> f) \<and> \<not> ledger_is_empty l
     \<and> (f \<or> ((ns_last_fingerprint st = [] \<or> ns_last_fingerprint st \<noteq> ledger_fingerprint sha l)
             \<and> (m = 0 \<or> dms_on_day st (utc_day ch now) < m
                 \<or> is_new_blocker l st (ledger_fingerprint sha l))))"
  by (auto simp: decide_notify_def Let_def word_gt_0 not_le)

lemma hex_digest_no_marker: "hex_digest sha \<Longrightarrow> \<not> contains (sha s) ''b:''"
proof
  assume h: "hex_digest sha" and "contains (sha s) ''b:''"
  then have "CHR '':'' \<in> set (sha s)"
    by (auto simp: contains_def sublist_def)
  with h show False by (fastforce simp: hex_digest_def)
qed

lemma sort_key_perm:
  "mset xs = mset ys \<Longrightarrow> inj_on f (set xs) \<Longrightarrow> sort_key f xs = sort_key f ys"
  by (rule sort_key_inj_key_eq) simp_all

lemma day_after_dm [simp]: "ns_last_dm_day (record_dm_sent ch st fp now) = utc_day ch now"
  by (simp add: record_dm_sent_def Let_def)

lemma dms_after_dm:
  "unat (dms_on_day (record_dm_sent ch st fp now) (utc_day ch now))
     = min (Suc (unat (dms_on_day st (utc_day ch now)))) (2 ^ 32 - 1)"
  by (auto simp: record_dm_sent_def Let_def dms_on_day_def unat_sat_add1)

lemma fingerprint_after_dm [simp]: "ns_last_fingerprint (record_dm_sent ch st fp now) = fp"
  by (simp add: record_dm_sent_def Let_def)

section \<open>Properties\<close>

text \<open>
  The complete decision table. A direct message is allowed exactly when the twin has left its
  shadow period, notification is allowed or forced, the ledger is not empty, and either the send
  is forced or the story changed and the day's cap is not used up (a cap of 0 means no cap) or a
  new blocker appeared. A suppressed message always carries a reason and an allowed one never.
\<close>

lemma decide_notify_table:
  "(nd_allow_dm (decide_notify sha ch l st now m allow force shadow) \<longleftrightarrow>
      \<not> shadow \<and> (allow \<or> force) \<and> (sl_items l \<noteq> [] \<or> sl_open_blockers l \<noteq> [])
      \<and> (force \<or> ((ns_last_fingerprint st = [] \<or> ns_last_fingerprint st \<noteq> ledger_fingerprint sha l)
                    \<and> (m = 0 \<or> dms_on_day st (utc_day ch now) < m
                        \<or> is_new_blocker l st (ledger_fingerprint sha l)))))
   \<and> (nd_suppress (decide_notify sha ch l st now m allow force shadow) = None \<longleftrightarrow>
      nd_allow_dm (decide_notify sha ch l st now m allow force shadow))"
  by (auto simp: suppress_iff allow_dm_iff ledger_is_empty_def)

text \<open>
  One compile round of a twin outside its shadow period, scheduled (not forced): decide, and on a
  message update the state as the delivery worker does. \<open>dm_count\<close> counts the messages of a run.
\<close>

definition notify_round ::
  "(string \<Rightarrow> string) \<Rightarrow> chrono \<Rightarrow> 32 word \<Rightarrow> notify_state \<Rightarrow> status_ledger \<times> instant
   \<Rightarrow> notify_state \<times> bool"
where
  "notify_round sha ch m st r =
     (let d = decide_notify sha ch (fst r) st (snd r) m True False False in
      if nd_allow_dm d then (record_dm_sent ch st (nd_fingerprint d) (snd r), True) else (st, False))"

fun dm_count ::
  "(string \<Rightarrow> string) \<Rightarrow> chrono \<Rightarrow> 32 word \<Rightarrow> notify_state \<Rightarrow> (status_ledger \<times> instant) list \<Rightarrow> nat"
where
  "dm_count sha ch m st [] = 0"
| "dm_count sha ch m st (r # rs) =
     (let (st', sent) = notify_round sha ch m st r in
      (if sent then 1 else 0) + dm_count sha ch m st' rs)"

lemma dm_count_bound:
  "0 < m \<Longrightarrow> (\<forall>(l, now) \<in> set rs. utc_day ch now = day \<and> \<not> has_blocker l) \<Longrightarrow>
   dm_count sha ch m st rs + unat (dms_on_day st day) \<le> max (unat m) (unat (dms_on_day st day))"
proof (induction rs arbitrary: st)
  case Nil
  then show ?case by simp
next
  case (Cons r rs)
  obtain l now where r: "r = (l, now)" by (cases r)
  from Cons.prems r have day: "utc_day ch now = day" and nb: "\<not> has_blocker l" by auto
  let ?d = "decide_notify sha ch l st now m True False False"
  let ?st' = "record_dm_sent ch st (nd_fingerprint ?d) now"
  show ?case
  proof (cases "nd_allow_dm ?d")
    case True
    then have lt: "unat (dms_on_day st day) < unat m"
      using nb day Cons.prems(1) by (auto simp: allow_dm_iff is_new_blocker_def word_less_nat_alt)
    have "unat m \<le> 2 ^ 32 - 1" using unsigned_less [of m, where ?'a = nat] by simp
    then have "unat (dms_on_day ?st' day) = Suc (unat (dms_on_day st day))"
      using dms_after_dm [of ch st "nd_fingerprint ?d" now] lt day by simp
    with Cons.IH [of ?st'] Cons.prems True lt r show ?thesis
      by (simp add: notify_round_def Let_def)
  next
    case False
    with Cons.IH [of st] Cons.prems r show ?thesis by (simp add: notify_round_def Let_def)
  qed
qed

text \<open>
  The daily cap. Over any sequence of scheduled compile rounds that fall on one UTC day and
  whose ledgers carry no blocker, from any persisted notify state, the messages sent together with
  those already counted for the day never exceed the cap (or what was already sent before).
\<close>

lemma daily_cap_respected:
  assumes "0 < m" and "\<forall>(l, now) \<in> set rs. utc_day ch now = day \<and> \<not> has_blocker l"
  shows "dm_count sha ch m st rs + unat (dms_on_day st day)
           \<le> max (unat m) (unat (dms_on_day st day))"
  using assms by (rule dm_count_bound)

definition sample_chrono :: chrono where
  "sample_chrono = \<lparr>strftime = (\<lambda>f t. if t < seconds 86400 then ''1970-01-01'' else ''later''),
     rfc3339 = (\<lambda>t. if t < seconds 86400 then ''early'' else ''late'')\<rparr>"

definition sample_ledger :: "string \<Rightarrow> blocker_item list \<Rightarrow> status_ledger" where
  "sample_ledger s bs =
     \<lparr>sl_tenant_id = ''t'', sl_person_id = ''gu_a'', sl_period = \<lparr>lp_start = 0, lp_end = 1\<rparr>,
      sl_confidence_rollup = (if bs = [] then Medium else Blocker),
      sl_items = [\<lparr>li_kind = ''pr'', li_resource_id = s, li_node_id = s, li_summary = s,
                   li_confidence = Medium, li_evidence_refs = []\<rparr>],
      sl_open_blockers = bs, sl_graph_as_of = 0, sl_compiled_at = 0\<rparr>"

definition sample_sha :: "string \<Rightarrow> string" where
  "sample_sha s = (if contains s ''x'' then ''a1'' else ''b2'')"

lemma daily_cap_respected_witness:
  "dm_count sample_sha sample_chrono 1 default_notify_state
     [(sample_ledger ''x'' [], 5), (sample_ledger ''y'' [], 6)] \<le> 1"
proof -
  have "\<forall>(l, now) \<in> set [(sample_ledger ''x'' [], 5), (sample_ledger ''y'' [], 6)].
      utc_day sample_chrono now = ''1970-01-01'' \<and> \<not> has_blocker l"
    by (simp add: utc_day_def sample_chrono_def sample_ledger_def has_blocker_def seconds_def)
  from daily_cap_respected [OF _ this, of 1 sample_sha default_notify_state] show ?thesis
    by (simp add: dms_on_day_def default_notify_state_def)
qed

text \<open>
  What "new blocker" means. The last fingerprint is a hexadecimal digest, so the test whether
  it contains \<open>b:\<close> never succeeds: every ledger with a blocker counts as a new blocker, an old
  blocker included, and whenever the story changed such a ledger is allowed a message whatever the
  daily cap and however many messages the day has already seen.
\<close>

lemma blocker_always_counts_as_new:
  assumes "hex_digest sha" and "ns_last_fingerprint st = ledger_fingerprint sha l0"
  shows "(is_new_blocker l st (ledger_fingerprint sha l) \<longleftrightarrow> has_blocker l)
    \<and> (has_blocker l \<longrightarrow> ledger_fingerprint sha l \<noteq> ledger_fingerprint sha l0 \<longrightarrow> \<not> ledger_is_empty l
        \<longrightarrow> nd_allow_dm (decide_notify sha ch l st now m True False False))"
proof -
  have "\<not> contains (ns_last_fingerprint st) ''b:''"
    using assms by (simp add: ledger_fingerprint_def hex_digest_no_marker)
  then have "is_new_blocker l st (ledger_fingerprint sha l) \<longleftrightarrow> has_blocker l"
    by (auto simp: is_new_blocker_def)
  with assms(2) show ?thesis by (auto simp: allow_dm_iff)
qed

definition sample_blocker :: blocker_item where
  "sample_blocker = \<lparr>bi_node_id = ''pr:1'', bi_summary = ''waits'', bi_confidence = Blocker,
     bi_evidence_refs = []\<rparr>"

definition capped_state :: notify_state where
  "capped_state = \<lparr>ns_last_fingerprint = ledger_fingerprint sample_sha (sample_ledger ''x'' [sample_blocker]),
     ns_last_dm_at = Some ''early'', ns_last_dm_day = ''1970-01-01'', ns_dms_today = 5\<rparr>"

lemma blocker_always_counts_as_new_witness:
  "nd_allow_dm (decide_notify sample_sha sample_chrono (sample_ledger ''y'' [sample_blocker])
     capped_state 7 1 True False False)"
proof -
  have h: "hex_digest sample_sha" by (simp add: hex_digest_def sample_sha_def)
  have f: "ns_last_fingerprint capped_state
      = ledger_fingerprint sample_sha (sample_ledger ''x'' [sample_blocker])"
    by (simp add: capped_state_def)
  have "ledger_fingerprint sample_sha (sample_ledger ''y'' [sample_blocker])
      \<noteq> ledger_fingerprint sample_sha (sample_ledger ''x'' [sample_blocker])"
    by code_simp
  with blocker_always_counts_as_new [OF h f, of "sample_ledger ''y'' [sample_blocker]"
      sample_chrono 7 1]
  show ?thesis
    by (simp add: has_blocker_def sample_ledger_def ledger_is_empty_def)
qed

text \<open>
  The fingerprint depends on the story, not on its order: two ledgers with the same roll-up and
  the same multisets of items and blockers, whose items have distinct (resource, node, kind) and
  whose blockers have distinct nodes, have the same fingerprint, hence the second one never causes
  a second message. Times, tenant, tiers of single items and evidence do not enter it.
\<close>

lemma fingerprint_order_independent:
  assumes "sl_confidence_rollup l' = sl_confidence_rollup l"
    and "mset (sl_items l') = mset (sl_items l)"
    and "mset (sl_open_blockers l') = mset (sl_open_blockers l)"
    and "inj_on (\<lambda>i. (li_resource_id i, li_node_id i, li_kind i)) (set (sl_items l'))"
    and "inj_on bi_node_id (set (sl_open_blockers l'))"
  shows "ledger_fingerprint sha l' = ledger_fingerprint sha l
    \<and> (\<forall>ch st now now' m a s. nd_allow_dm (decide_notify sha ch l st now m a False s) \<longrightarrow>
         ledger_fingerprint sha l \<noteq> [] \<longrightarrow>
         \<not> nd_allow_dm (decide_notify sha ch l' (record_dm_sent ch st (ledger_fingerprint sha l) now)
              now' m a False s))"
proof -
  have f: "ledger_fingerprint sha l' = ledger_fingerprint sha l"
    using assms by (simp add: ledger_fingerprint_def fingerprint_text_def sort_key_perm [OF assms(2,4)]
      sort_key_perm [OF assms(3,5)])
  then show ?thesis by (simp add: allow_dm_iff)
qed

definition two_item_ledger :: "bool \<Rightarrow> status_ledger" where
  "two_item_ledger flip =
     (let a = sl_items (sample_ledger ''x'' []); b = sl_items (sample_ledger ''y'' []) in
      (sample_ledger ''x'' [])\<lparr>sl_items := (if flip then b @ a else a @ b)\<rparr>)"

lemma fingerprint_order_independent_witness:
  "ledger_fingerprint sample_sha (two_item_ledger True)
     = ledger_fingerprint sample_sha (two_item_ledger False)"
  by (rule fingerprint_order_independent [THEN conjunct1])
     (simp_all add: two_item_ledger_def sample_ledger_def inj_on_def)

text \<open>A scheduled first compile with one item may send its message; a forced empty one may not.\<close>

lemma decide_notify_table_witness:
  "nd_allow_dm (decide_notify sample_sha sample_chrono (sample_ledger ''x'' []) default_notify_state 7
      1 True False False)
   \<and> \<not> nd_allow_dm (decide_notify sample_sha sample_chrono ((sample_ledger ''x'' [])\<lparr>sl_items := []\<rparr>)
      default_notify_state 7 1 True True False)"
  using decide_notify_table [of sample_sha sample_chrono "sample_ledger ''x'' []" default_notify_state 7
      1 True False False]
    decide_notify_table [of sample_sha sample_chrono "(sample_ledger ''x'' [])\<lparr>sl_items := []\<rparr>"
      default_notify_state 7 1 True True False]
  by (simp add: default_notify_state_def sample_ledger_def dms_on_day_def)

end
