(* ===== verification/Twin_Delivery.thy ===== *)
theory Twin_Delivery
  imports Twin_Store Twin_State_Machine Twin_Notify
begin

text \<open>
  The delivery worker (\<open>twin-delivery/src/worker.rs\<close>, \<open>lib.rs\<close>, \<open>delivery.rs\<close>,
  \<open>policy.rs\<close>, \<open>mock_slack.rs\<close>): start of a delivery after a compile, the silence
  timeout, the explicit publish, veto and edit, over the twin store and a chat client.

  \<^item> The world is the twin store and the log of chat calls. A chat client (trait
    \<open>DeliveryClient\<close>) is a function from the log so far and the request to the response, so
    every stateful client is covered; \<open>mock_client\<close> is the repository's own mock.
  \<^item> A log entry also records, for the statements below only, the ledger it was made for and
    whether the call was made to publish.
  \<^item> \<open>clk i\<close> is the i-th reading of the clock within a call, \<open>did\<close> and \<open>pid\<close> are the
    UUIDs drawn for a draft and a publish record.
\<close>

section \<open>The chat client\<close>

datatype adapter_kind = AdSlack | AdTeams | AdMock

fun adapter_as_str :: "adapter_kind \<Rightarrow> string" where
  "adapter_as_str AdSlack = ''slack''"
| "adapter_as_str AdTeams = ''teams''"
| "adapter_as_str AdMock = ''mock''"

definition adapter_from_env :: "string option \<Rightarrow> string option \<Rightarrow> adapter_kind" where
  "adapter_from_env delivery_adapter chat_adapter =
     (let raw = to_ascii_lowercase (trim (unwrap_or (or_else delivery_adapter chat_adapter) []))
      in if raw \<in> {''teams'', ''msteams'', ''microsoft_teams''} then AdTeams
         else if raw = ''mock'' then AdMock else AdSlack)"

record post_result =
  po_channel :: string
  po_ts :: string

datatype chat_post =
    ChatDm string string
  | ChatChannel string string
  | ChatDraftDm string string string string

record chat_call =
  cc_ledger :: "string \<times> string"
  cc_publish :: bool
  cc_post :: chat_post
  cc_result :: "twin_error + post_result"

record delivery_client =
  dc_adapter_kind :: adapter_kind
  dc_post :: "chat_call list \<Rightarrow> chat_post \<Rightarrow> twin_error + post_result"

record delivery_world =
  dw_store :: twin_store
  dw_log :: "chat_call list"

definition post_chat ::
  "delivery_client \<Rightarrow> string \<times> string \<Rightarrow> bool \<Rightarrow> chat_post \<Rightarrow> delivery_world
   \<Rightarrow> (twin_error + post_result) \<times> delivery_world"
where
  "post_chat c k publish p w =
     (let r = dc_post c (dw_log w) p
      in (r, w\<lparr>dw_log := dw_log w @ [\<lparr>cc_ledger = k, cc_publish = publish, cc_post = p, cc_result = r\<rparr>]\<rparr>))"

definition draft_dm_plain_text :: "string \<Rightarrow> string \<Rightarrow> string" where
  "draft_dm_plain_text draft_text deadline_s =
     draft_text @ newline @ newline @ ''*Approve* '' @ middle_dot @ '' *Edit* '' @ middle_dot
     @ '' *Don'' @ [CHR 0x27] @ ''t send*'' @ newline
     @ ''We'' @ [CHR 0x27] @ ''ll only ping again if this status story changes.'' @ newline
     @ ''Window until '' @ deadline_s @ ''.''"

definition succeeded :: "chat_call \<Rightarrow> bool" where
  "succeeded c = (case cc_result c of Inl _ \<Rightarrow> False | Inr _ \<Rightarrow> True)"

text \<open>The mock client of the tests; its counter counts the calls that were recorded.\<close>

definition mock_response ::
  "(nat \<Rightarrow> string) \<Rightarrow> bool \<Rightarrow> chat_call list \<Rightarrow> chat_post \<Rightarrow> twin_error + post_result"
where
  "mock_response show_nat fail_channel log p =
     (let n = Suc (length (filter succeeded log)) in
      case p of
        ChatDm user _ \<Rightarrow> Inr \<lparr>po_channel = ''D'' @ user, po_ts = ''dm.'' @ show_nat n\<rparr>
      | ChatDraftDm user _ _ _ \<Rightarrow> Inr \<lparr>po_channel = ''D'' @ user, po_ts = ''dm.'' @ show_nat n\<rparr>
      | ChatChannel channel _ \<Rightarrow>
          if fail_channel then Inl (TEgress ''mock channel fail'')
          else Inr \<lparr>po_channel = channel, po_ts = ''ch.'' @ show_nat n\<rparr>)"

definition mock_client :: "(nat \<Rightarrow> string) \<Rightarrow> bool \<Rightarrow> delivery_client" where
  "mock_client show_nat fail_channel =
     \<lparr>dc_adapter_kind = AdMock, dc_post = mock_response show_nat fail_channel\<rparr>"

section \<open>Policy and chat user\<close>

record delivery_policy =
  dp_medium_veto_window_secs :: int
  dp_blocker_veto_window_secs :: int
  dp_max_dms_per_day :: "32 word"

definition default_delivery_policy :: "32 word option \<Rightarrow> delivery_policy" where
  "default_delivery_policy max_status_dms_per_day =
     \<lparr>dp_medium_veto_window_secs = 2 * 3600, dp_blocker_veto_window_secs = 24 * 3600,
      dp_max_dms_per_day = unwrap_or max_status_dms_per_day 1\<rparr>"

record delivery_service =
  ds_client :: delivery_client
  ds_policy :: delivery_policy
  ds_sha :: "string \<Rightarrow> string"
  ds_chrono :: chrono

definition resolve_chat_user_id :: "twin_store \<Rightarrow> twin \<Rightarrow> adapter_kind \<Rightarrow> string" where
  "resolve_chat_user_id s t a =
     (let slack = map_option sm_slack_user_id (get_slack_map s (tw_tenant_id t) (tw_subject_id t)) in
      case a of
        AdTeams \<Rightarrow>
          (case filter_opt (\<lambda>x. x \<noteq> [])
                  (Option.bind (json_get (tw_config_json t) ''teams_user_id'') as_str) of
             Some tid \<Rightarrow> tid
           | None \<Rightarrow>
              (case filter_opt (\<lambda>u. starts_with u ''29:'' \<or> starts_with u ''a:'' \<or> contains u ''@'') slack of
                 Some u \<Rightarrow> u
               | None \<Rightarrow> ''teams_'' @ tw_subject_id t))
      | _ \<Rightarrow> unwrap_or slack (''U_'' @ tw_subject_id t))"

section \<open>Publishing to the channel\<close>

definition set_status :: "draft_delivery \<Rightarrow> draft_status \<Rightarrow> instant \<Rightarrow> draft_delivery" where
  "set_status d st t = d\<lparr>dd_status := st, dd_updated_at := t\<rparr>"

text \<open>\<open>draft.status = st; draft.updated_at = t; self.store.update_draft(draft.clone()).await?\<close>\<close>

definition finish_draft ::
  "draft_delivery \<Rightarrow> draft_status \<Rightarrow> instant \<Rightarrow> twin_error + 'a \<Rightarrow> delivery_world
   \<Rightarrow> (twin_error + 'a) \<times> draft_delivery \<times> delivery_world"
where
  "finish_draft d st t r w =
     (let d' = set_status d st t in
      case update_draft d' (dw_store w) of
        Inl e \<Rightarrow> (Inl e, d', w)
      | Inr s \<Rightarrow> (r, d', w\<lparr>dw_store := s\<rparr>))"

definition channel_unavailable :: "string \<Rightarrow> string \<Rightarrow> bool" where
  "channel_unavailable msg channel \<longleftrightarrow>
     contains msg ''not_in_channel'' \<or> contains msg ''channel_not_found''
     \<or> contains msg ''is_archived'' \<or> channel = ''C_TEAM'' \<or> channel = []"

definition fallback_text :: "string \<Rightarrow> string \<Rightarrow> string" where
  "fallback_text channel body =
     check_mark @ '' *Approved* (channel share skipped '' @ em_dash @ '' invite the bot to `''
     @ channel @ ''` for team posts).'' @ newline @ newline @ body"

definition make_publish_record ::
  "(string \<Rightarrow> string) \<Rightarrow> draft_delivery \<Rightarrow> string \<Rightarrow> string \<Rightarrow> string \<Rightarrow> instant \<Rightarrow> publish_record"
where
  "make_publish_record sha d pid channel ts now =
     \<lparr>pr_tenant_id = dd_tenant_id d, pr_publish_id = ''pub_'' @ pid, pr_ledger_id = dd_ledger_id d,
      pr_draft_id = dd_draft_id d, pr_channel_id = channel, pr_slack_ts = ts,
      pr_body_hash = body_hash sha (publish_body d), pr_published_at = now\<rparr>"

definition publish_fallback ::
  "delivery_service \<Rightarrow> twin \<Rightarrow> string \<Rightarrow> (nat \<Rightarrow> instant) \<Rightarrow> draft_delivery \<Rightarrow> string \<Rightarrow> string
   \<Rightarrow> delivery_world \<Rightarrow> (twin_error + publish_record option) \<times> draft_delivery \<times> delivery_world"
where
  "publish_fallback sv tw pid clk d channel msg w =
     (let user = resolve_chat_user_id (dw_store w) tw (dc_adapter_kind (ds_client sv));
          (r, w1) = post_chat (ds_client sv) (draft_ledger_key d) True
                      (ChatDm user (fallback_text channel (publish_body d))) w
      in case r of
           Inr dm \<Rightarrow>
             (let rec = make_publish_record (ds_sha sv) d pid (''dm_fallback:'' @ po_channel dm)
                          (po_ts dm) (clk 0);
                  w2 = w1\<lparr>dw_store := fst (put_publish_if_absent rec (dw_store w1))\<rparr>
              in finish_draft d Published (clk 1) (Inr (Some rec)) w2)
         | Inl e2 \<Rightarrow>
             finish_draft d PublishFailed (clk 0)
               (Inl (TEgress (''channel post failed ('' @ msg @ ''); DM fallback also failed (''
                  @ twin_error_to_string e2 @ ''). Invite bot to channel '' @ channel
                  @ '' or check vault token.''))) w1)"

definition publish_posted ::
  "delivery_service \<Rightarrow> string \<Rightarrow> (nat \<Rightarrow> instant) \<Rightarrow> draft_delivery \<Rightarrow> string \<Rightarrow> string
   \<Rightarrow> delivery_world \<Rightarrow> (twin_error + publish_record option) \<times> draft_delivery \<times> delivery_world"
where
  "publish_posted sv pid clk d channel ts w =
     (let rec = make_publish_record (ds_sha sv) d pid channel ts (clk 0);
          (s', inserted) = put_publish_if_absent rec (dw_store w);
          w' = w\<lparr>dw_store := s'\<rparr>
      in if \<not> inserted
         then finish_draft d Published (clk 1)
                (Inr (get_publish_by_ledger s' (dd_tenant_id d) (dd_ledger_id d))) w'
         else finish_draft d Published (clk 1) (Inr (Some rec)) w')"

definition try_publish_channel ::
  "delivery_service \<Rightarrow> twin \<Rightarrow> string \<Rightarrow> (nat \<Rightarrow> instant) \<Rightarrow> draft_delivery \<Rightarrow> delivery_world
   \<Rightarrow> (twin_error + publish_record option) \<times> draft_delivery \<times> delivery_world"
where
  "try_publish_channel sv tw pid clk d w =
     (if dd_status d = Vetoed
      then (Inl (TConflict (''vetoed '' @ em_dash @ '' never channel post'')), d, w)
      else if dd_status d = Shadow
      then (Inl (TConflict (''shadow '' @ em_dash @ '' no publish'')), d, w)
      else if dd_status d = Published
      then (Inr (get_publish_by_ledger (dw_store w) (dd_tenant_id d) (dd_ledger_id d)), d, w)
      else if dd_status d \<noteq> PublishQueued then (Inr None, d, w)
      else case get_publish_by_ledger (dw_store w) (dd_tenant_id d) (dd_ledger_id d) of
        Some existing \<Rightarrow>
          (let d' = set_status d Published (clk 0)
           in (Inr (Some existing), d',
               w\<lparr>dw_store := keep_on_error (dw_store w) (update_draft d' (dw_store w))\<rparr>))
      | None \<Rightarrow>
          (let channel = (if tw_channel_id tw = [] then ''C_TEAM'' else tw_channel_id tw);
               (r, w1) = post_chat (ds_client sv) (draft_ledger_key d) True
                           (ChatChannel channel (publish_body d)) w
           in case r of
                Inr p \<Rightarrow> publish_posted sv pid clk d channel (po_ts p) w1
              | Inl e \<Rightarrow>
                  if channel_unavailable (twin_error_to_string e) channel
                  then publish_fallback sv tw pid clk d channel (twin_error_to_string e) w1
                  else finish_draft d PublishFailed (clk 0) (Inl e) w1))"

section \<open>Silence timeout, explicit publish, veto and edit\<close>

definition not_found_draft :: "string \<Rightarrow> twin_error" where
  "not_found_draft i = TNotFound (''draft '' @ i)"

definition with_draft_and_ledger ::
  "string \<Rightarrow> string \<Rightarrow> (draft_delivery \<Rightarrow> ledger_snapshot \<Rightarrow> (twin_error + 'a) \<times> delivery_world)
   \<Rightarrow> delivery_world \<Rightarrow> (twin_error + 'a) \<times> delivery_world"
where
  "with_draft_and_ledger tenant i k w =
     (case get_draft (dw_store w) tenant i of
        None \<Rightarrow> (Inl (not_found_draft i), w)
      | Some d \<Rightarrow>
          (case get_ledger (dw_store w) tenant (dd_ledger_id d) of
             None \<Rightarrow> (Inl (TNotFound ''ledger''), w)
           | Some l \<Rightarrow> k d l))"

definition drop_draft ::
  "(twin_error + 'a) \<times> draft_delivery \<times> delivery_world \<Rightarrow> (twin_error + draft_delivery \<times> 'a) \<times> delivery_world"
where
  "drop_draft x = (case x of (Inl e, d, w) \<Rightarrow> (Inl e, w) | (Inr v, d, w) \<Rightarrow> (Inr (d, v), w))"

definition silence_timeout ::
  "delivery_service \<Rightarrow> twin \<Rightarrow> string \<Rightarrow> string \<Rightarrow> string \<Rightarrow> (nat \<Rightarrow> instant) \<Rightarrow> delivery_world
   \<Rightarrow> (twin_error + draft_delivery \<times> publish_record option) \<times> delivery_world"
where
  "silence_timeout sv tw tenant i pid clk w =
     with_draft_and_ledger tenant i (\<lambda>d l.
       if \<not> silence_may_publish (ls_confidence_rollup l)
       then (Inl (TConflict ''silence timeout does not auto-publish for this confidence tier''), w)
       else case apply_delivery_event (dd_status d) EvMediumSilenceTimeout (ls_confidence_rollup l)
                   (tw_high_auto_publish tw) of
          None \<Rightarrow> (Inl (TConflict (''silence not allowed from status '' @ status_debug (dd_status d))), w)
        | Some next_st \<Rightarrow>
            (let d' = set_status d next_st (clk 0) in
             case update_draft d' (dw_store w) of
               Inl e \<Rightarrow> (Inl e, w)
             | Inr s \<Rightarrow>
                 if dd_status d' = PublishQueued
                 then drop_draft (try_publish_channel sv tw pid (\<lambda>n. clk (Suc n)) d' (w\<lparr>dw_store := s\<rparr>))
                 else (Inr (d', None), w\<lparr>dw_store := s\<rparr>))) w"

definition explicit_publish ::
  "delivery_service \<Rightarrow> twin \<Rightarrow> string \<Rightarrow> string \<Rightarrow> string \<Rightarrow> (nat \<Rightarrow> instant) \<Rightarrow> delivery_world
   \<Rightarrow> (twin_error + draft_delivery \<times> publish_record option) \<times> delivery_world"
where
  "explicit_publish sv tw tenant i pid clk w =
     with_draft_and_ledger tenant i (\<lambda>d l.
       if dd_status d = Published
       then (Inr (d, get_publish_by_ledger (dw_store w) tenant (dd_ledger_id d)), w)
       else if dd_status d = Vetoed
       then (Inl (TConflict (''vetoed '' @ em_dash @ '' never channel post'')), w)
       else if dd_status d \<noteq> PublishQueued
       then (case apply_delivery_event (dd_status d) EvExplicitPublish (ls_confidence_rollup l)
                    (tw_high_auto_publish tw) of
            None \<Rightarrow> (Inl (TConflict (''cannot publish from status '' @ status_debug (dd_status d))), w)
          | Some next_st \<Rightarrow>
              (let d' = set_status d next_st (clk 0) in
               case update_draft d' (dw_store w) of
                 Inl e \<Rightarrow> (Inl e, w)
               | Inr s \<Rightarrow>
                   drop_draft (try_publish_channel sv tw pid (\<lambda>n. clk (Suc n)) d' (w\<lparr>dw_store := s\<rparr>))))
       else drop_draft (try_publish_channel sv tw pid clk d w)) w"

definition veto_draft ::
  "string \<Rightarrow> string \<Rightarrow> (nat \<Rightarrow> instant) \<Rightarrow> delivery_world \<Rightarrow> (twin_error + draft_delivery) \<times> delivery_world"
where
  "veto_draft tenant i clk w =
     with_draft_and_ledger tenant i (\<lambda>d l.
       case apply_delivery_event (dd_status d) EvVeto (ls_confidence_rollup l) False of
         None \<Rightarrow> (Inl (TConflict (''cannot veto from '' @ status_debug (dd_status d))), w)
       | Some next_st \<Rightarrow>
           (let d' = set_status d next_st (clk 0) in
            case update_draft d' (dw_store w) of
              Inl e \<Rightarrow> (Inl e, w)
            | Inr s \<Rightarrow> (Inr d', w\<lparr>dw_store := s\<rparr>))) w"

definition edit_draft ::
  "string \<Rightarrow> string \<Rightarrow> string \<Rightarrow> (nat \<Rightarrow> instant) \<Rightarrow> delivery_world
   \<Rightarrow> (twin_error + draft_delivery) \<times> delivery_world"
where
  "edit_draft tenant i edited_text clk w =
     with_draft_and_ledger tenant i (\<lambda>d l.
       case apply_delivery_event (dd_status d) EvEdit (ls_confidence_rollup l) False of
         None \<Rightarrow> (Inl (TConflict (''cannot edit from '' @ status_debug (dd_status d))), w)
       | Some next_st \<Rightarrow>
           (let d' = d\<lparr>dd_status := next_st, dd_edited_text := Some edited_text,
                       dd_updated_at := clk 0\<rparr> in
            case update_draft d' (dw_store w) of
              Inl e \<Rightarrow> (Inl e, w)
            | Inr s \<Rightarrow> (Inr d', w\<lparr>dw_store := s\<rparr>))) w"

section \<open>Start of a delivery after a compile\<close>

record delivery_start_result =
  dr_draft :: draft_delivery
  dr_dm_sent :: bool
  dr_suppressed :: "string option"

definition draft_is_open :: "draft_status \<Rightarrow> bool" where
  "draft_is_open st \<longleftrightarrow> st \<in> {Pending, ForceHuman, Edited, Shadow}"

definition was_emptyish :: "draft_delivery \<Rightarrow> bool" where
  "was_emptyish d \<longleftrightarrow>
     contains (dd_draft_text d) ''No code or ticket signals''
     \<or> contains (dd_draft_text d) ''nothing invented'' \<or> trim (dd_draft_text d) = []"

definition now_has_items :: "ledger_snapshot \<Rightarrow> bool" where
  "now_has_items l \<longleftrightarrow> sl_items (ls_ledger l) \<noteq> [] \<or> sl_open_blockers (ls_ledger l) \<noteq> []"

text \<open>Steps that the upgrade path and the path for a new draft write alike.\<close>

definition quiet_status :: "bool \<Rightarrow> bool \<Rightarrow> bool \<Rightarrow> draft_status \<Rightarrow> draft_status" where
  "quiet_status allow force in_shadow st =
     (if (\<not> allow \<and> \<not> force) \<and> \<not> in_shadow
      then (if st = PublishQueued then Pending else st) else st)"

definition dm_status :: "draft_status \<Rightarrow> bool" where
  "dm_status st \<longleftrightarrow> st \<in> {Pending, ForceHuman, PublishQueued}"

definition veto_deadline_for ::
  "delivery_policy \<Rightarrow> instant \<Rightarrow> draft_status \<Rightarrow> confidence_tier \<Rightarrow> instant option \<Rightarrow> instant option"
where
  "veto_deadline_for p now st c otherwise =
     (if st \<in> {Pending, ForceHuman} \<and> c = Medium
      then Some (now + seconds (dp_medium_veto_window_secs p))
      else if st \<in> {Pending, ForceHuman} \<and> c = Blocker
      then Some (now + seconds (dp_blocker_veto_window_secs p))
      else if st = Pending \<and> c = High
      then Some (now + seconds (dp_medium_veto_window_secs p))
      else otherwise)"

definition deadline_text :: "chrono \<Rightarrow> instant option \<Rightarrow> string" where
  "deadline_text ch d = (case d of Some t \<Rightarrow> format_ist_list ch t | None \<Rightarrow> ''none'')"

text \<open>\<open>let mut t = twin.clone(); write_notify_state(..); let _ = store.upsert_twin(t)\<close>\<close>

definition save_notify_state ::
  "instant \<Rightarrow> twin \<Rightarrow> notify_state \<Rightarrow> delivery_world \<Rightarrow> delivery_world"
where
  "save_notify_state now t ns w =
     w\<lparr>dw_store := upsert_twin (write_notify_state now t ns) (dw_store w)\<rparr>"

definition upgrade_will_dm :: "notify_decision \<Rightarrow> bool \<Rightarrow> draft_status \<Rightarrow> bool" where
  "upgrade_will_dm dec in_shadow st \<longleftrightarrow>
     (nd_allow_dm dec \<and> dm_status st)
     \<and> nd_suppress dec \<notin> {Some SupUnchanged, Some SupDailyCap, Some SupEmpty, Some SupQuiet,
                            Some SupShadow}
     \<and> \<not> in_shadow"

text \<open>The interactive draft message and, when it was sent, the notify state saved after it: both paths
  write this block alike.\<close>

definition post_draft_message ::
  "delivery_service \<Rightarrow> twin \<Rightarrow> string \<Rightarrow> instant \<Rightarrow> instant \<Rightarrow> instant option \<Rightarrow> string \<Rightarrow> notify_state
   \<Rightarrow> draft_delivery \<Rightarrow> delivery_world \<Rightarrow> draft_delivery \<times> bool \<times> delivery_world"
where
  "post_draft_message sv tw text t now deadline fp ns d w =
     (let user = resolve_chat_user_id (dw_store w) tw (dc_adapter_kind (ds_client sv));
          (r, w1) = post_chat (ds_client sv) (draft_ledger_key d) False
            (ChatDraftDm user (dd_draft_id d) text (deadline_text (ds_chrono sv) deadline)) w
      in case r of
           Inr dm \<Rightarrow>
             (d\<lparr>dd_slack_dm_channel := po_channel dm, dd_slack_dm_ts := po_ts dm\<rparr>, True,
              save_notify_state t tw (record_dm_sent (ds_chrono sv) ns fp now) w1)
         | Inl e \<Rightarrow> (d, False, w1))"

definition deliver_upgrade ::
  "delivery_service \<Rightarrow> twin \<Rightarrow> string \<Rightarrow> instant \<Rightarrow> (nat \<Rightarrow> instant) \<Rightarrow> notify_state
   \<Rightarrow> notify_decision \<Rightarrow> bool \<Rightarrow> draft_delivery \<Rightarrow> delivery_world
   \<Rightarrow> (twin_error + delivery_start_result) \<times> delivery_world"
where
  "deliver_upgrade sv tw text now clk ns dec will_dm d w =
     (let (d2, dm_sent, w2) =
            (if will_dm \<and> dd_status d \<in> {Pending, ForceHuman}
             then post_draft_message sv tw text (clk 0) now (dd_veto_deadline d)
                    (nd_fingerprint dec) ns d w
             else if nd_suppress dec = Some SupUnchanged
             then (d, False, save_notify_state (clk 0) tw
                     (ns\<lparr>ns_last_fingerprint := nd_fingerprint dec\<rparr>) w)
             else (d, False, w));
          d3 = d2\<lparr>dd_updated_at := now\<rparr>
      in case update_draft d3 (dw_store w2) of
           Inl e \<Rightarrow> (Inl e, w2)
         | Inr s \<Rightarrow>
             (Inr \<lparr>dr_draft = d3, dr_dm_sent = dm_sent,
                   dr_suppressed = (if dm_sent then None
                     else or_else (map_option suppress_as_str (nd_suppress dec)) (Some ''no_dm''))\<rparr>,
              w2\<lparr>dw_store := s\<rparr>))"

definition upgrade_existing_draft ::
  "delivery_service \<Rightarrow> twin \<Rightarrow> ledger_snapshot \<Rightarrow> string \<Rightarrow> instant \<Rightarrow> bool \<Rightarrow> bool
   \<Rightarrow> (nat \<Rightarrow> instant) \<Rightarrow> draft_delivery \<Rightarrow> delivery_world
   \<Rightarrow> (twin_error + delivery_start_result) \<times> delivery_world"
where
  "upgrade_existing_draft sv tw l text now allow force clk d w =
     (let in_shadow = is_in_shadow tw now;
          ns = load_notify_state tw;
          dec = decide_notify (ds_sha sv) (ds_chrono sv) (ls_ledger l) ns now
                  (dp_max_dms_per_day (ds_policy sv)) allow force in_shadow;
          st0 = quiet_status allow force in_shadow
                  (initial_draft_status in_shadow (ls_confidence_rollup l) (tw_high_auto_publish tw));
          will_dm = upgrade_will_dm dec in_shadow st0;
          st = (if in_shadow then Shadow else st0);
          deadline = veto_deadline_for (ds_policy sv) now st (ls_confidence_rollup l)
                       (dd_veto_deadline d)
      in deliver_upgrade sv tw text now clk ns dec will_dm
           (d\<lparr>dd_status := st, dd_veto_deadline := deadline\<rparr>) w)"

definition new_will_dm :: "notify_decision \<Rightarrow> bool \<Rightarrow> draft_status \<Rightarrow> bool" where
  "new_will_dm dec in_shadow st \<longleftrightarrow>
     (nd_allow_dm dec \<and> dm_status st)
     \<and> \<not> (nd_suppress dec = Some SupUnchanged \<or> nd_suppress dec = Some SupDailyCap
          \<or> nd_suppress dec = Some SupEmpty \<or> nd_suppress dec = Some SupQuiet)
     \<and> \<not> (in_shadow \<or> nd_suppress dec = Some SupShadow)"

text \<open>The branch for a High draft with automatic publishing: optional notice, store, publish.\<close>

definition auto_publish_notice :: "string \<Rightarrow> string" where
  "auto_publish_notice text = ''Auto-publishing high confidence status:'' @ newline @ text"

definition start_auto_publish ::
  "delivery_service \<Rightarrow> twin \<Rightarrow> string \<Rightarrow> instant \<Rightarrow> string \<Rightarrow> (nat \<Rightarrow> instant) \<Rightarrow> notify_state
   \<Rightarrow> notify_decision \<Rightarrow> draft_delivery \<Rightarrow> delivery_world
   \<Rightarrow> (twin_error + delivery_start_result) \<times> delivery_world"
where
  "start_auto_publish sv tw text now pid clk ns dec d w =
     (let user = resolve_chat_user_id (dw_store w) tw (dc_adapter_kind (ds_client sv));
          (r, w1) = post_chat (ds_client sv) (draft_ledger_key d) False
            (ChatDm user (auto_publish_notice text)) w;
          d1 = (case r of
                  Inr dm \<Rightarrow> d\<lparr>dd_slack_dm_channel := po_channel dm, dd_slack_dm_ts := po_ts dm\<rparr>
                | Inl e \<Rightarrow> d)
      in case put_draft d1 (dw_store w1) of
           Inl e \<Rightarrow> (Inl e, w1)
         | Inr s \<Rightarrow>
             (case try_publish_channel sv tw pid clk d1 (w1\<lparr>dw_store := s\<rparr>) of
                (Inl e, d2, w2) \<Rightarrow> (Inl e, w2)
              | (Inr p, d2, w2) \<Rightarrow>
                  (Inr \<lparr>dr_draft = d2, dr_dm_sent = (dd_slack_dm_ts d2 \<noteq> []), dr_suppressed = None\<rparr>,
                   save_notify_state (clk 2) tw
                     (record_dm_sent (ds_chrono sv) ns (nd_fingerprint dec) now) w2)))"

definition deliver_new_draft ::
  "delivery_service \<Rightarrow> twin \<Rightarrow> confidence_tier \<Rightarrow> string \<Rightarrow> instant \<Rightarrow> string \<Rightarrow> (nat \<Rightarrow> instant)
   \<Rightarrow> notify_state \<Rightarrow> notify_decision \<Rightarrow> bool \<Rightarrow> draft_delivery \<Rightarrow> delivery_world
   \<Rightarrow> (twin_error + delivery_start_result) \<times> delivery_world"
where
  "deliver_new_draft sv tw tier text now pid clk ns dec will_dm d w =
     (if dd_status d = Shadow \<or> \<not> will_dm
      then (case put_draft d (dw_store w) of
         Inl e \<Rightarrow> (Inl e, w)
       | Inr s \<Rightarrow>
           (Inr \<lparr>dr_draft = d, dr_dm_sent = False,
                 dr_suppressed = or_else (map_option suppress_as_str (nd_suppress dec))
                   (Some ''no_dm'')\<rparr>,
            if nd_suppress dec = Some SupUnchanged
            then save_notify_state (clk 0) tw (ns\<lparr>ns_last_fingerprint := nd_fingerprint dec\<rparr>)
                   (w\<lparr>dw_store := s\<rparr>)
            else w\<lparr>dw_store := s\<rparr>))
      else if dd_status d = PublishQueued \<and> tier = High \<and> tw_high_auto_publish tw
      then start_auto_publish sv tw text now pid clk ns dec d w
      else
        (let (d1, dm_sent, w1) =
           (if dd_status d \<in> {Pending, ForceHuman}
            then post_draft_message sv tw text (clk 0) now (dd_veto_deadline d)
                   (nd_fingerprint dec) ns d w
            else (d, False, w))
         in case put_draft d1 (dw_store w1) of
              Inl e \<Rightarrow> (Inl e, w1)
            | Inr s \<Rightarrow>
                (Inr \<lparr>dr_draft = d1, dr_dm_sent = dm_sent,
                      dr_suppressed = (if dm_sent then None
                        else map_option suppress_as_str (nd_suppress dec))\<rparr>,
                 w1\<lparr>dw_store := s\<rparr>)))"

definition start_new_draft ::
  "delivery_service \<Rightarrow> twin \<Rightarrow> ledger_snapshot \<Rightarrow> string \<Rightarrow> instant \<Rightarrow> bool \<Rightarrow> bool
   \<Rightarrow> string \<Rightarrow> string \<Rightarrow> (nat \<Rightarrow> instant) \<Rightarrow> delivery_world
   \<Rightarrow> (twin_error + delivery_start_result) \<times> delivery_world"
where
  "start_new_draft sv tw l text now allow force did pid clk w =
     (let in_shadow = is_in_shadow tw now;
          ns = load_notify_state tw;
          dec = decide_notify (ds_sha sv) (ds_chrono sv) (ls_ledger l) ns now
                  (dp_max_dms_per_day (ds_policy sv)) allow force in_shadow;
          st0 = quiet_status allow force in_shadow
                  (initial_draft_status in_shadow (ls_confidence_rollup l) (tw_high_auto_publish tw));
          will_dm = new_will_dm dec in_shadow st0;
          st = (if in_shadow \<or> nd_suppress dec = Some SupShadow then Shadow else st0);
          deadline = veto_deadline_for (ds_policy sv) now st (ls_confidence_rollup l) None;
          d = \<lparr>dd_tenant_id = tw_tenant_id tw, dd_draft_id = ''dft_'' @ did,
               dd_ledger_id = ls_ledger_id l, dd_twin_id = tw_twin_id tw, dd_status = st,
               dd_slack_dm_channel = [], dd_slack_dm_ts = [], dd_draft_text = text,
               dd_edited_text = None, dd_veto_deadline = deadline, dd_created_at = now,
               dd_updated_at = now\<rparr>
      in deliver_new_draft sv tw (ls_confidence_rollup l) text now pid clk ns dec will_dm d w)"

definition start_after_compile_opts ::
  "delivery_service \<Rightarrow> twin \<Rightarrow> ledger_snapshot \<Rightarrow> string \<Rightarrow> instant \<Rightarrow> bool \<Rightarrow> bool
   \<Rightarrow> string \<Rightarrow> string \<Rightarrow> (nat \<Rightarrow> instant) \<Rightarrow> delivery_world
   \<Rightarrow> (twin_error + delivery_start_result) \<times> delivery_world"
where
  "start_after_compile_opts sv tw l text now allow force did pid clk w =
     (case get_draft_by_ledger (dw_store w) (tw_tenant_id tw) (ls_ledger_id l) of
        Some existing \<Rightarrow>
          (let openish = draft_is_open (dd_status existing);
               d = (if openish then existing\<lparr>dd_draft_text := text, dd_updated_at := now\<rparr>
                    else existing);
               already_dm = (dd_slack_dm_ts existing \<noteq> []);
               result = \<lparr>dr_draft = d, dr_dm_sent = already_dm,
                         dr_suppressed = (if already_dm then None else Some ''existing_draft'')\<rparr>
           in if \<not> (was_emptyish existing \<and> now_has_items l \<and> \<not> already_dm \<and> openish)
              then (if openish
                    then (case update_draft d (dw_store w) of
                            Inl e \<Rightarrow> (Inl e, w)
                          | Inr s \<Rightarrow> (Inr result, w\<lparr>dw_store := s\<rparr>))
                    else (Inr result, w))
              else upgrade_existing_draft sv tw l text now allow force clk d w)
      | None \<Rightarrow> start_new_draft sv tw l text now allow force did pid clk w)"

definition start_after_compile ::
  "delivery_service \<Rightarrow> twin \<Rightarrow> ledger_snapshot \<Rightarrow> string \<Rightarrow> instant \<Rightarrow> string \<Rightarrow> string
   \<Rightarrow> (nat \<Rightarrow> instant) \<Rightarrow> delivery_world \<Rightarrow> (twin_error + draft_delivery) \<times> delivery_world"
where
  "start_after_compile sv tw l text now did pid clk w =
     (case start_after_compile_opts sv tw l text now True False did pid clk w of
        (Inl e, w') \<Rightarrow> (Inl e, w')
      | (Inr r, w') \<Rightarrow> (Inr (dr_draft r), w'))"

section \<open>The worker as a sequence of elementary effects\<close>

text \<open>
  The abstract specification of the worker: what one elementary effect on the world may be. Every
  operation is shown to be a sequence of such effects, and the invariants are proved on them.
\<close>

definition draft_closed :: "draft_delivery \<Rightarrow> bool" where
  "draft_closed d \<longleftrightarrow> dd_status d = Vetoed \<or> dd_status d = Published"

definition ledger_published :: "twin_store \<Rightarrow> string \<times> string \<Rightarrow> bool" where
  "ledger_published s k \<longleftrightarrow> publish_lookup s k \<noteq> None"

inductive effect :: "delivery_world \<Rightarrow> delivery_world \<Rightarrow> bool" where
  eff_twin: "effect w (w\<lparr>dw_store := upsert_twin t (dw_store w)\<rparr>)"
| eff_slack: "effect w (w\<lparr>dw_store := put_slack_map m (dw_store w)\<rparr>)"
| eff_kv: "effect w (w\<lparr>dw_store := put_tenant_kv t k v (dw_store w)\<rparr>)"
| eff_run: "effect w (w\<lparr>dw_store := put_compile_run r (dw_store w)\<rparr>)"
| eff_ledger: "put_ledger ch l (dw_store w) = Inr s \<Longrightarrow> effect w (w\<lparr>dw_store := s\<rparr>)"
| eff_call: "\<not> cc_publish c \<Longrightarrow> effect w (w\<lparr>dw_log := dw_log w @ [c]\<rparr>)"
| eff_new:
    "put_draft d (dw_store w) = Inr s \<Longrightarrow> dm_get (ts_drafts (dw_store w)) (draft_key d) = None \<Longrightarrow>
     \<not> draft_closed d \<Longrightarrow> effect w (w\<lparr>dw_store := s\<rparr>)"
| eff_update:
    "dm_get (ts_drafts (dw_store w)) (draft_key d') = Some d \<Longrightarrow> dd_ledger_id d' = dd_ledger_id d \<Longrightarrow>
     \<not> draft_closed d \<Longrightarrow>
     (dd_status d' = Published \<Longrightarrow> ledger_published (dw_store w) (draft_ledger_key d)) \<Longrightarrow>
     update_draft d' (dw_store w) = Inr s \<Longrightarrow> effect w (w\<lparr>dw_store := s\<rparr>)"
| eff_publish_failed:
    "dm_get (ts_drafts (dw_store w)) (draft_key d) = Some d \<Longrightarrow> dd_status d = PublishQueued \<Longrightarrow>
     cc_ledger c = draft_ledger_key d \<Longrightarrow> \<not> succeeded c \<Longrightarrow> effect w (w\<lparr>dw_log := dw_log w @ [c]\<rparr>)"
| eff_published:
    "dm_get (ts_drafts (dw_store w)) (draft_key d) = Some d \<Longrightarrow> dd_status d = PublishQueued \<Longrightarrow>
     \<not> ledger_published (dw_store w) (draft_ledger_key d) \<Longrightarrow> cc_ledger c = draft_ledger_key d \<Longrightarrow>
     cc_publish c \<Longrightarrow> succeeded c \<Longrightarrow> publish_ledger_key r = draft_ledger_key d \<Longrightarrow> publish_id_unused r (dw_store w) \<Longrightarrow>
     effect w (w\<lparr>dw_log := dw_log w @ [c], dw_store := fst (put_publish_if_absent r (dw_store w))\<rparr>)"

inductive_cases effectE: "effect w w'"

abbreviation effects :: "delivery_world \<Rightarrow> delivery_world \<Rightarrow> bool" where
  "effects \<equiv> effect\<^sup>*\<^sup>*"

text \<open>Calls made to publish a ledger that the chat accepted.\<close>

definition published_posts :: "string \<times> string \<Rightarrow> delivery_world \<Rightarrow> chat_call list" where
  "published_posts k w = filter (\<lambda>c. cc_ledger c = k \<and> cc_publish c \<and> succeeded c) (dw_log w)"

definition publish_calls :: "string \<times> string \<Rightarrow> delivery_world \<Rightarrow> chat_call list" where
  "publish_calls k w = filter (\<lambda>c. cc_ledger c = k \<and> cc_publish c) (dw_log w)"

definition world_inv :: "delivery_world \<Rightarrow> bool" where
  "world_inv w \<longleftrightarrow>
     twin_store_inv (dw_store w)
     \<and> (\<forall>k d. dm_get (ts_drafts (dw_store w)) k = Some d \<longrightarrow> dd_status d = Published \<longrightarrow>
          ledger_published (dw_store w) (draft_ledger_key d))
     \<and> (\<forall>k. length (published_posts k w) = (if ledger_published (dw_store w) k then 1 else 0))"

lemma world_inv_store: "world_inv w \<Longrightarrow> twin_store_inv (dw_store w)"
  by (simp add: world_inv_def)

lemma world_inv_published:
  "world_inv w \<Longrightarrow> dm_get (ts_drafts (dw_store w)) k = Some d \<Longrightarrow> dd_status d = Published \<Longrightarrow>
   ledger_published (dw_store w) (draft_ledger_key d)"
  unfolding world_inv_def by blast

lemma world_inv_posts:
  "world_inv w \<Longrightarrow> length (published_posts k w) = (if ledger_published (dw_store w) k then 1 else 0)"
  unfolding world_inv_def by blast

lemma world_inv_new: "world_inv \<lparr>dw_store = new_twin_store, dw_log = []\<rparr>"
  by (simp add: world_inv_def twin_store_inv_new published_posts_def)
    (simp add: new_twin_store_def ledger_published_def publish_lookup_def get_publish_by_ledger_def)

lemma drafts_frame [simp]:
  "ts_drafts (upsert_twin t s) = ts_drafts s"
  "ts_drafts (put_slack_map m s) = ts_drafts s"
  "ts_drafts (put_tenant_kv t' k v s) = ts_drafts s"
  "ts_drafts (put_compile_run r s) = ts_drafts s"
  "publish_lookup (put_compile_run r s) = publish_lookup s"
  "publish_lookup (upsert_twin t s) = publish_lookup s"
  "publish_lookup (put_slack_map m s) = publish_lookup s"
  "publish_lookup (put_tenant_kv t' k v s) = publish_lookup s"
  by (auto simp: upsert_twin_def put_slack_map_def put_tenant_kv_def put_compile_run_def publish_lookup_def
    get_publish_by_ledger_def fun_eq_iff split: option.split)

lemma ledger_frame:
  "put_ledger ch l s = Inr s' \<Longrightarrow> ts_drafts s' = ts_drafts s \<and> publish_lookup s' = publish_lookup s"
  by (auto simp: put_ledger_def publish_lookup_def get_publish_by_ledger_def fun_eq_iff Let_def
    split: if_splits option.split)

lemma draft_write_frame:
  "put_draft d s = Inr s' \<Longrightarrow>
     ts_drafts s' = dm_put (draft_key d) d (ts_drafts s) \<and> publish_lookup s' = publish_lookup s"
  "update_draft d s = Inr s' \<Longrightarrow>
     ts_drafts s' = dm_put (draft_key d) d (ts_drafts s) \<and> publish_lookup s' = publish_lookup s"
  by (auto simp: put_draft_def update_draft_def publish_lookup_def get_publish_by_ledger_def
    fun_eq_iff split: if_splits option.splits)

lemma published_posts_append:
  "published_posts k (w\<lparr>dw_log := dw_log w @ [c]\<rparr>) =
     published_posts k w @ (if cc_ledger c = k \<and> cc_publish c \<and> succeeded c then [c] else [])"
  by (simp add: published_posts_def)

lemma effect_store_inv:
  assumes "effect w w'" "twin_store_inv (dw_store w)"
  shows "twin_store_inv (dw_store w')"
  using assms
proof (cases rule: effect.cases)
  case (eff_update d' d s)
  then have "\<not> draft_moves_ledger d' (dw_store w)" by (simp add: draft_moves_ledger_def)
  with eff_update assms show ?thesis using inv_update_draft by simp
next
  case (eff_new d s)
  then have "\<not> draft_moves_ledger d (dw_store w)" by (simp add: draft_moves_ledger_def)
  with eff_new assms show ?thesis using inv_put_draft by simp
qed (auto simp: inv_upsert_twin inv_put_slack_map inv_put_tenant_kv inv_put_compile_run publish_id_unused_def
    intro: inv_put_publish
    dest: inv_put_ledger)

lemma published_after_put:
  assumes "twin_store_inv s" "publish_id_unused r s" "\<not> ledger_published s (publish_ledger_key r)"
  shows "ledger_published (fst (put_publish_if_absent r s)) k
    \<longleftrightarrow> k = publish_ledger_key r \<or> ledger_published s k"
  using assms publish_lookup_put [of s r] by (auto simp: ledger_published_def)

lemma effect_published_keep:
  assumes "effect w w'" "twin_store_inv (dw_store w)" "ledger_published (dw_store w) k"
  shows "ledger_published (dw_store w') k"
  using assms
proof (cases rule: effect.cases)
  case (eff_published d c r)
  then show ?thesis using assms by (simp add: published_after_put)
qed (auto simp: ledger_published_def dest: ledger_frame draft_write_frame)

lemma effect_draft_published:
  assumes "effect w w'" "world_inv w"
    and "dm_get (ts_drafts (dw_store w')) k = Some d" "dd_status d = Published"
  shows "ledger_published (dw_store w') (draft_ledger_key d)"
proof -
  have si: "twin_store_inv (dw_store w)" using assms(2) by (rule world_inv_store)
  have old: "ledger_published (dw_store w') (draft_ledger_key d)"
    if "dm_get (ts_drafts (dw_store w)) k = Some d"
    using effect_published_keep [OF assms(1) si] world_inv_published [OF assms(2) that assms(4)] .
  from assms(1) show ?thesis
  proof (cases rule: effect.cases)
    case (eff_new e s)
    then show ?thesis using old assms(3,4) draft_write_frame(1) [of e "dw_store w" s]
      by (auto simp: draft_closed_def split: if_splits)
  next
    case (eff_update e e0 s)
    have t: "dd_tenant_id e = dd_tenant_id e0"
      using si eff_update(2) by (auto simp: twin_store_inv_def dest: dm_keyed_getD)
    show ?thesis
    proof (cases "k = draft_key e")
      case True
      then have "d = e" using eff_update assms(3) draft_write_frame(2) by fastforce
      then have "ledger_published (dw_store w) (draft_ledger_key d)"
        using eff_update t assms(4) by auto
      then show ?thesis by (rule effect_published_keep [OF assms(1) si])
    next
      case False
      then show ?thesis using old eff_update assms(3) draft_write_frame(2) [of e "dw_store w" s]
        by auto
    qed
  qed (use old assms(3) ledger_frame in \<open>auto\<close>)
qed

lemma effect_posts_bound:
  assumes "effect w w'" "world_inv w"
  shows "length (published_posts k w') = (if ledger_published (dw_store w') k then 1 else 0)"
proof -
  have si: "twin_store_inv (dw_store w)" using assms(2) by (rule world_inv_store)
  have b: "length (published_posts k w) = (if ledger_published (dw_store w) k then 1 else 0)"
    using assms(2) by (rule world_inv_posts)
  from assms(1) show ?thesis
  proof (cases rule: effect.cases)
    case (eff_published d c r)
    then have p: "ledger_published (dw_store w') j \<longleftrightarrow> j = draft_ledger_key d \<or> ledger_published (dw_store w) j"
      for j using si by (simp add: published_after_put)
    have "published_posts k w' = published_posts k (w\<lparr>dw_log := dw_log w @ [c]\<rparr>)"
      using eff_published by (simp add: published_posts_def)
    with b p eff_published show ?thesis by (auto simp: published_posts_append)
  qed (use b in \<open>auto simp: published_posts_append published_posts_def ledger_published_def
        split: if_splits dest: ledger_frame draft_write_frame\<close>)
qed

lemma effect_world_inv: "effect w w' \<Longrightarrow> world_inv w \<Longrightarrow> world_inv w'"
  unfolding world_inv_def [of w']
  by (auto intro: effect_store_inv world_inv_store effect_draft_published effect_posts_bound
    simp del: if_split_asm simp: effect_posts_bound)

lemma effects_world_inv: "effects w w' \<Longrightarrow> world_inv w \<Longrightarrow> world_inv w'"
  by (induction rule: rtranclp_induct) (auto intro: effect_world_inv)

lemma effect_closed_draft:
  assumes "effect w w'" "dm_get (ts_drafts (dw_store w)) k = Some d" "draft_closed d"
  shows "dm_get (ts_drafts (dw_store w')) k = Some d"
  using assms
proof (cases rule: effect.cases)
  case (eff_new e s)
  then show ?thesis using assms draft_write_frame(1) [of e "dw_store w" s] by auto
next
  case (eff_update e e0 s)
  then show ?thesis using assms draft_write_frame(2) [of e "dw_store w" s] by auto
qed (auto dest: ledger_frame)

lemma effects_closed_draft:
  "effects w w' \<Longrightarrow> dm_get (ts_drafts (dw_store w)) k = Some d \<Longrightarrow> draft_closed d \<Longrightarrow>
   dm_get (ts_drafts (dw_store w')) k = Some d"
  by (induction rule: rtranclp_induct) (auto intro: effect_closed_draft)

text \<open>A ledger has one draft, so no publish call for it is made once that draft is vetoed.\<close>

lemma effect_closed_no_call:
  assumes "effect w w'" "twin_store_inv (dw_store w)"
    and "dm_get (ts_drafts (dw_store w)) k = Some d" "draft_closed d"
  shows "publish_calls (draft_ledger_key d) w' = publish_calls (draft_ledger_key d) w"
proof -
  have idx: "dm_get (ts_draft_by_ledger (dw_store w)) (draft_ledger_key e) = Some (dd_draft_id e)"
    and key: "draft_key e = j" if "dm_get (ts_drafts (dw_store w)) j = Some e" for j e
    using assms(2) that unfolding twin_store_inv_def by (blast dest: dm_keyed_getD)+
  have other: "draft_ledger_key e \<noteq> draft_ledger_key d"
    if "dm_get (ts_drafts (dw_store w)) (draft_key e) = Some e" "dd_status e = PublishQueued" for e
  proof
    assume l: "draft_ledger_key e = draft_ledger_key d"
    have "dd_draft_id e = dd_draft_id d" using idx [OF that(1)] idx [OF assms(3)] l by simp
    with l have "draft_key e = k" using key [OF assms(3)] by simp
    with that(1) assms(3) have "e = d" by simp
    with that(2) assms(4) show False by (simp add: draft_closed_def)
  qed
  from assms(1) show ?thesis
    by (cases rule: effect.cases) (auto simp: publish_calls_def dest: other)
qed

lemma effects_closed_no_call:
  assumes "effects w w'" "world_inv w" "dm_get (ts_drafts (dw_store w)) k = Some d" "draft_closed d"
  shows "publish_calls (draft_ledger_key d) w' = publish_calls (draft_ledger_key d) w"
  using assms(1)
proof (induction rule: rtranclp_induct)
  case (step y z)
  have "twin_store_inv (dw_store y)" using effects_world_inv [OF step(1) assms(2)]
    by (rule world_inv_store)
  moreover have "dm_get (ts_drafts (dw_store y)) k = Some d"
    using effects_closed_draft [OF step(1) assms(3,4)] .
  ultimately show ?case using effect_closed_no_call [OF step(2)] assms(4) step(3) by simp
qed simp

section \<open>Every operation is a sequence of effects\<close>

definition fresh_publish_id :: "string \<Rightarrow> string \<Rightarrow> twin_store \<Rightarrow> bool" where
  "fresh_publish_id tenant pid s \<longleftrightarrow> dm_get (ts_publishes s) (tenant, ''pub_'' @ pid) = None"

lemma post_chat_simps [simp]:
  "fst (post_chat c k b p w) = dc_post c (dw_log w) p"
  "snd (post_chat c k b p w) = w\<lparr>dw_log := dw_log w @
     [\<lparr>cc_ledger = k, cc_publish = b, cc_post = p, cc_result = dc_post c (dw_log w) p\<rparr>]\<rparr>"
  by (simp_all add: post_chat_def Let_def)

lemma post_chat_eq:
  "post_chat c k b p w = (r, w1) \<Longrightarrow>
   w1 = w\<lparr>dw_log := dw_log w @ [\<lparr>cc_ledger = k, cc_publish = b, cc_post = p, cc_result = r\<rparr>]\<rparr>"
  by (auto simp: post_chat_def Let_def)

lemma effects_call:
  "post_chat c k False p w = (r, w1) \<Longrightarrow> effects w w1"
  by (auto dest!: post_chat_eq intro!: r_into_rtranclp eff_call)

lemma effects_save_notify: "effects w (save_notify_state t tw ns w)"
  by (auto simp: save_notify_state_def intro!: r_into_rtranclp eff_twin)

lemma update_present:
  "dm_get (ts_drafts s) (draft_key d) \<noteq> None \<Longrightarrow>
   update_draft d s = Inr (s\<lparr>ts_drafts := dm_put (draft_key d) d (ts_drafts s)\<rparr>)"
  by (simp add: update_draft_def)

lemma set_status_simps [simp]:
  "dd_status (set_status d st t) = st" "draft_key (set_status d st t) = draft_key d"
  "dd_tenant_id (set_status d st t) = dd_tenant_id d" "dd_draft_id (set_status d st t) = dd_draft_id d"
  "dd_ledger_id (set_status d st t) = dd_ledger_id d" "publish_body (set_status d st t) = publish_body d"
  by (simp_all add: set_status_def publish_body_def)

lemma update_effect:
  assumes "dm_get (ts_drafts (dw_store w)) (draft_key d') = Some d" "dd_ledger_id d' = dd_ledger_id d"
    "\<not> draft_closed d"
    "dd_status d' = Published \<Longrightarrow> ledger_published (dw_store w) (draft_ledger_key d)"
  shows "\<exists>s. update_draft d' (dw_store w) = Inr s \<and> effect w (w\<lparr>dw_store := s\<rparr>)
    \<and> dm_get (ts_drafts s) (draft_key d') = Some d' \<and> ts_publishes s = ts_publishes (dw_store w)
    \<and> publish_lookup s = publish_lookup (dw_store w)"
proof -
  let ?s = "(dw_store w)\<lparr>ts_drafts := dm_put (draft_key d') d' (ts_drafts (dw_store w))\<rparr>"
  have u: "update_draft d' (dw_store w) = Inr ?s" using assms(1) by (simp add: update_present)
  with draft_write_frame(2) [OF u] eff_update [OF assms(1-3)] assms(4) show ?thesis by simp
qed

lemma finish_draft_effects:
  assumes "dm_get (ts_drafts (dw_store w)) (draft_key d) = Some d" "\<not> draft_closed d"
    "st = Published \<Longrightarrow> ledger_published (dw_store w) (draft_ledger_key d)"
  shows "effects w (snd (snd (finish_draft d st t r w)))"
  using update_effect [of w "set_status d st t" d] assms by (auto simp: finish_draft_def Let_def)

lemma publish_record_key [simp]:
  "publish_ledger_key (make_publish_record sha d pid c ts t) = draft_ledger_key d"
  "pr_tenant_id (make_publish_record sha d pid c ts t) = dd_tenant_id d"
  "pr_publish_id (make_publish_record sha d pid c ts t) = ''pub_'' @ pid"
  "pr_ledger_id (make_publish_record sha d pid c ts t) = dd_ledger_id d"
  by (simp_all add: make_publish_record_def)

lemma effects_published:
  assumes i: "twin_store_inv (dw_store w)"
    and d: "dm_get (ts_drafts (dw_store w)) (draft_key d) = Some d" "dd_status d = PublishQueued"
    and n: "\<not> ledger_published (dw_store w) (draft_ledger_key d)"
    and f: "fresh_publish_id (dd_tenant_id d) pid (dw_store w)"
    and c: "post_chat c (draft_ledger_key d) True p w = (Inr x, w1)"
    and r: "r = make_publish_record sha d pid ch ts t0"
  shows "effects w (snd (snd (finish_draft d Published t v
            (w1\<lparr>dw_store := fst (put_publish_if_absent r (dw_store w1))\<rparr>))))"
    and "snd (put_publish_if_absent r (dw_store w1))"
proof -
  note w1 = post_chat_eq [OF c]
  have key: "publish_ledger_key r = draft_ledger_key d" by (simp add: r)
  have unused: "publish_id_unused r (dw_store w)"
    using f by (simp add: r publish_id_unused_def fresh_publish_id_def)
  let ?w2 = "w1\<lparr>dw_store := fst (put_publish_if_absent r (dw_store w1))\<rparr>"
  have "effect w ?w2"
    using eff_published [OF d n _ _ _ key unused] by (simp add: w1 succeeded_def)
  moreover have "effects ?w2 (snd (snd (finish_draft d Published t v ?w2)))"
    using d published_after_put [OF i unused, of "draft_ledger_key d"] n key
    by (intro finish_draft_effects) (simp_all add: w1 draft_closed_def)
  ultimately show "effects w (snd (snd (finish_draft d Published t v ?w2)))"
    by (rule converse_rtranclp_into_rtranclp)
  show "snd (put_publish_if_absent r (dw_store w1))"
    using publish_once.put_result [OF i unused] n key by (simp add: w1 ledger_published_def)
qed

lemma effect_post_failed:
  assumes "dm_get (ts_drafts (dw_store w)) (draft_key d) = Some d" "dd_status d = PublishQueued"
    and "post_chat c (draft_ledger_key d) True p w = (Inl e, w1)"
  shows "effect w w1 \<and> dw_store w1 = dw_store w"
  using eff_publish_failed [OF assms(1,2)] post_chat_eq [OF assms(3)] by (simp add: succeeded_def)

lemma publish_fallback_effects:
  assumes i: "twin_store_inv (dw_store w)"
    and d: "dm_get (ts_drafts (dw_store w)) (draft_key d) = Some d" "dd_status d = PublishQueued"
    and n: "\<not> ledger_published (dw_store w) (draft_ledger_key d)"
    and f: "fresh_publish_id (dd_tenant_id d) pid (dw_store w)"
  shows "effects w (snd (snd (publish_fallback sv tw pid clk d channel msg w)))"
proof -
  let ?p = "ChatDm (resolve_chat_user_id (dw_store w) tw (dc_adapter_kind (ds_client sv)))
    (fallback_text channel (publish_body d))"
  obtain r w1 where c: "post_chat (ds_client sv) (draft_ledger_key d) True ?p w = (r, w1)"
    by fastforce
  show ?thesis
  proof (cases r)
    case (Inr x)
    from effects_published(1) [OF i d n f c [unfolded Inr] refl] show ?thesis
      by (simp add: publish_fallback_def c Inr Let_def)
  next
    case (Inl e)
    note e1 = effect_post_failed [OF d c [unfolded Inl]]
    then have "effects w1 (snd (snd (finish_draft d PublishFailed t v w1)))"
      for t and v :: "twin_error + publish_record option"
      using d by (intro finish_draft_effects) (simp_all add: draft_closed_def)
    with e1 show ?thesis
      by (auto simp: publish_fallback_def c Inl Let_def intro: converse_rtranclp_into_rtranclp)
  qed
qed

lemma try_publish_effects:
  assumes i: "twin_store_inv (dw_store w)"
    and d: "dm_get (ts_drafts (dw_store w)) (draft_key d) = Some d"
    and f: "fresh_publish_id (dd_tenant_id d) pid (dw_store w)"
  shows "effects w (snd (snd (try_publish_channel sv tw pid clk d w)))"
proof (cases "dd_status d = PublishQueued")
  case False
  then show ?thesis by (simp add: try_publish_channel_def)
next
  case q: True
  note unf = try_publish_channel_def q
  show ?thesis
  proof (cases "get_publish_by_ledger (dw_store w) (dd_tenant_id d) (dd_ledger_id d)")
    case (Some ex)
    then have "ledger_published (dw_store w) (draft_ledger_key d)"
      by (simp add: ledger_published_def publish_lookup_def)
    with update_effect [of w "set_status d Published (clk 0)" d] d q
    show ?thesis by (auto simp: unf Some Let_def keep_on_error_def draft_closed_def)
  next
    case None
    then have n: "\<not> ledger_published (dw_store w) (draft_ledger_key d)"
      by (simp add: ledger_published_def publish_lookup_def)
    define channel where "channel = (if tw_channel_id tw = [] then ''C_TEAM'' else tw_channel_id tw)"
    obtain r w1 where
      c: "post_chat (ds_client sv) (draft_ledger_key d) True (ChatChannel channel (publish_body d)) w = (r, w1)"
      by fastforce
    have eq: "try_publish_channel sv tw pid clk d w =
      (case r of
         Inr p \<Rightarrow> publish_posted sv pid clk d channel (po_ts p) w1
       | Inl e \<Rightarrow>
           if channel_unavailable (twin_error_to_string e) channel
           then publish_fallback sv tw pid clk d channel (twin_error_to_string e) w1
           else finish_draft d PublishFailed (clk 0) (Inl e) w1)"
      using c by (simp add: unf None Let_def flip: channel_def)
    show ?thesis
    proof (cases r)
      case (Inr x)
      note e = effects_published [OF i d q n f c [unfolded Inr] refl]
      then show ?thesis
        by (simp add: eq Inr publish_posted_def Let_def case_prod_beta)
    next
      case (Inl e)
      note e1 = effect_post_failed [OF d q c [unfolded Inl]]
      have "effects w1 (snd (snd (publish_fallback sv tw pid clk d channel msg w1)))" for channel msg
        using e1 i d q n f by (intro publish_fallback_effects) simp_all
      moreover have "effects w1 (snd (snd (finish_draft d PublishFailed (clk 0) v w1)))"
        for v :: "twin_error + publish_record option"
        using e1 d q by (intro finish_draft_effects) (simp_all add: draft_closed_def)
      ultimately show ?thesis
        using e1 by (auto simp: eq Inl intro: converse_rtranclp_into_rtranclp)
    qed
  qed
qed

lemma event_open:
  "apply_delivery_event (dd_status d) e c h = Some st \<Longrightarrow> \<not> draft_closed d"
  by (auto simp: draft_closed_def)

lemma with_draft_effects:
  assumes i: "twin_store_inv (dw_store w)"
    and k: "\<And>d l. dm_get (ts_drafts (dw_store w)) (draft_key d) = Some d \<Longrightarrow> dd_tenant_id d = tenant \<Longrightarrow>
      dd_draft_id d = j \<Longrightarrow> effects w (snd (k d l))"
  shows "effects w (snd (with_draft_and_ledger tenant j k w))"
proof (cases "get_draft (dw_store w) tenant j")
  case (Some d)
  then have g: "dm_get (ts_drafts (dw_store w)) (tenant, j) = Some d" by (simp add: get_draft_def)
  with i have "draft_key d = (tenant, j)" by (auto simp: twin_store_inv_def dest: dm_keyed_getD)
  with g k show ?thesis by (auto simp: with_draft_and_ledger_def Some split: option.split)
qed (simp add: with_draft_and_ledger_def)

lemma snd_drop_draft [simp]: "snd (drop_draft x) = snd (snd x)"
  by (simp add: drop_draft_def split: prod.split sum.split)

lemma event_update:
  assumes d: "dm_get (ts_drafts (dw_store w)) (draft_key d) = Some d"
    and e: "apply_delivery_event (dd_status d) e c h = Some (dd_status d')" "e \<noteq> EvPublishSucceeded"
    and k: "draft_key d' = draft_key d" "dd_ledger_id d' = dd_ledger_id d"
    and u: "update_draft d' (dw_store w) = Inr s"
  shows "effect w (w\<lparr>dw_store := s\<rparr>)" "dm_get (ts_drafts s) (draft_key d') = Some d'"
    "ts_publishes s = ts_publishes (dw_store w)"
proof -
  have st: "dd_status d' \<noteq> Published" using e publish_gate_cases by metis
  have "\<not> draft_closed d" by (rule event_open [OF e(1)])
  with update_effect [of w d' d] d k st u
  show "effect w (w\<lparr>dw_store := s\<rparr>)" "dm_get (ts_drafts s) (draft_key d') = Some d'"
    "ts_publishes s = ts_publishes (dw_store w)" by auto
qed

lemma event_update_effects:
  "dm_get (ts_drafts (dw_store w)) (draft_key d) = Some d \<Longrightarrow>
   apply_delivery_event (dd_status d) e c h = Some (dd_status d') \<Longrightarrow> e \<noteq> EvPublishSucceeded \<Longrightarrow>
   draft_key d' = draft_key d \<Longrightarrow> dd_ledger_id d' = dd_ledger_id d \<Longrightarrow>
   update_draft d' (dw_store w) = Inr s \<Longrightarrow> effects w (w\<lparr>dw_store := s\<rparr>)"
  by (rule r_into_rtranclp, rule event_update(1))

lemma event_status_effects:
  "dm_get (ts_drafts (dw_store w)) (draft_key d) = Some d \<Longrightarrow>
   apply_delivery_event (dd_status d) e c h = Some st \<Longrightarrow> e \<noteq> EvPublishSucceeded \<Longrightarrow>
   update_draft (set_status d st t) (dw_store w) = Inr s \<Longrightarrow> effects w (w\<lparr>dw_store := s\<rparr>)"
  by (rule event_update_effects [of w d e c h "set_status d st t"]) simp_all

lemma event_edit_effects:
  "dm_get (ts_drafts (dw_store w)) (draft_key d) = Some d \<Longrightarrow>
   apply_delivery_event (dd_status d) EvEdit c h = Some st \<Longrightarrow>
   update_draft (d\<lparr>dd_status := st, dd_edited_text := x, dd_updated_at := t\<rparr>) (dw_store w) = Inr s \<Longrightarrow>
   effects w (w\<lparr>dw_store := s\<rparr>)"
  by (rule event_update_effects
    [of w d EvEdit c h "d\<lparr>dd_status := st, dd_edited_text := x, dd_updated_at := t\<rparr>"]) simp_all

lemma event_then_publish_effects:
  assumes i: "twin_store_inv (dw_store w)"
    and d: "dm_get (ts_drafts (dw_store w)) (draft_key d) = Some d"
    and e: "apply_delivery_event (dd_status d) e c h = Some st" "e \<noteq> EvPublishSucceeded"
    and f: "fresh_publish_id (dd_tenant_id d) pid (dw_store w)"
    and u: "update_draft (set_status d st t) (dw_store w) = Inr s"
  shows "effects w (snd (snd (try_publish_channel sv tw pid clk (set_status d st t) (w\<lparr>dw_store := s\<rparr>))))"
proof -
  let ?d = "set_status d st t" and ?w = "w\<lparr>dw_store := s\<rparr>"
  note ev = event_update [OF d, of e c h ?d s]
  have "effects ?w (snd (snd (try_publish_channel sv tw pid clk ?d ?w)))"
    using effect_store_inv [OF ev(1) i] ev(2,3) e u f
    by (intro try_publish_effects) (simp_all add: fresh_publish_id_def)
  with ev(1) e u show ?thesis by (simp add: converse_rtranclp_into_rtranclp)
qed

lemma silence_timeout_effects:
  assumes i: "twin_store_inv (dw_store w)" and f: "fresh_publish_id tenant pid (dw_store w)"
  shows "effects w (snd (silence_timeout sv tw tenant j pid clk w))"
  unfolding silence_timeout_def
proof (rule with_draft_effects [OF i], goal_cases)
  case (1 d l)
  show ?case
    using f 1(2) event_status_effects [OF 1(1), of EvMediumSilenceTimeout]
      event_then_publish_effects [OF i 1(1), of EvMediumSilenceTimeout]
    by (auto simp: Let_def split: option.split sum.split)
qed

lemma explicit_publish_effects:
  assumes i: "twin_store_inv (dw_store w)" and f: "fresh_publish_id tenant pid (dw_store w)"
  shows "effects w (snd (explicit_publish sv tw tenant j pid clk w))"
  unfolding explicit_publish_def
proof (rule with_draft_effects [OF i], goal_cases)
  case (1 d l)
  show ?case
    using f 1(2) try_publish_effects [OF i 1(1)]
      event_then_publish_effects [OF i 1(1), of EvExplicitPublish]
    by (auto simp: Let_def split: option.split sum.split)
qed

lemma veto_draft_effects:
  assumes i: "twin_store_inv (dw_store w)"
  shows "effects w (snd (veto_draft tenant j clk w))"
  unfolding veto_draft_def
proof (rule with_draft_effects [OF i], goal_cases)
  case (1 d l)
  show ?case
    using event_status_effects [OF 1(1), of EvVeto]
    by (auto simp: Let_def split: option.split sum.split)
qed

lemma edit_draft_effects:
  assumes i: "twin_store_inv (dw_store w)"
  shows "effects w (snd (edit_draft tenant j txt clk w))"
  unfolding edit_draft_def
proof (rule with_draft_effects [OF i], goal_cases)
  case (1 d l)
  show ?case
    using event_edit_effects [OF 1(1)]
    by (auto simp: Let_def split: option.split sum.split)
qed

definition fresh_draft_id :: "string \<Rightarrow> string \<Rightarrow> twin_store \<Rightarrow> bool" where
  "fresh_draft_id tenant did s \<longleftrightarrow> dm_get (ts_drafts s) (tenant, ''dft_'' @ did) = None"

lemma start_status:
  "quiet_status a f sh (initial_draft_status sh c h) \<noteq> Vetoed"
  "quiet_status a f sh (initial_draft_status sh c h) \<noteq> Published"
  by (cases c; simp add: quiet_status_def)+

lemma put_draft_effect:
  assumes "put_draft d (dw_store w) = Inr s" "dm_get (ts_drafts (dw_store w)) (draft_key d) = None"
    "\<not> draft_closed d"
  shows "effect w (w\<lparr>dw_store := s\<rparr>)" "dm_get (ts_drafts s) (draft_key d) = Some d"
    "ts_publishes s = ts_publishes (dw_store w)"
  using eff_new [OF assms] draft_write_frame(1) [OF assms(1)] assms(1)
  by (auto simp: put_draft_def split: if_splits option.splits)

lemma save_notify_frame [simp]:
  "ts_drafts (dw_store (save_notify_state t tw ns w)) = ts_drafts (dw_store w)"
  by (simp add: save_notify_state_def)

lemma call_frame: "post_chat c k b p w = (r, w1) \<Longrightarrow> dw_store w1 = dw_store w"
  by (auto dest: post_chat_eq)

lemma start_auto_publish_effects:
  assumes i: "twin_store_inv (dw_store w)"
    and d: "dm_get (ts_drafts (dw_store w)) (draft_key d) = None" "\<not> draft_closed d"
    and f: "fresh_publish_id (dd_tenant_id d) pid (dw_store w)"
  shows "effects w (snd (start_auto_publish sv tw text now pid clk ns dec d w))"
proof -
  let ?p = "ChatDm (resolve_chat_user_id (dw_store w) tw (dc_adapter_kind (ds_client sv)))
    (auto_publish_notice text)"
  obtain r w1 where c: "post_chat (ds_client sv) (draft_ledger_key d) False ?p w = (r, w1)" by fastforce
  note st = call_frame [OF c]
  define d1 where "d1 = (case r of
     Inr dm \<Rightarrow> d\<lparr>dd_slack_dm_channel := po_channel dm, dd_slack_dm_ts := po_ts dm\<rparr> | Inl e \<Rightarrow> d)"
  have d1: "draft_key d1 = draft_key d" "\<not> draft_closed d1"
    using d by (auto simp: d1_def draft_closed_def split: sum.split)
  show ?thesis
  proof (cases "put_draft d1 (dw_store w1)")
    case (Inl e)
    then show ?thesis using effects_call [OF c]
      by (simp add: start_auto_publish_def Let_def c flip: d1_def)
  next
    case (Inr s)
    let ?w2 = "w1\<lparr>dw_store := s\<rparr>"
    note e = put_draft_effect [OF Inr, unfolded st, unfolded d1, OF d(1) d1(2)]
    have e1: "effect w1 ?w2" using put_draft_effect(1) [OF Inr] d d1 st by simp
    have "effects ?w2 (snd (snd (try_publish_channel sv tw pid clk d1 ?w2)))"
      using effect_store_inv [OF e1] i st e f d1(1)
      by (intro try_publish_effects) (simp_all add: fresh_publish_id_def)
    with effects_call [OF c] e1
    have t: "effects w (snd (snd (try_publish_channel sv tw pid clk d1 ?w2)))" by (meson rtranclp.rtrancl_into_rtrancl rtranclp_trans)
    show ?thesis
      using t rtranclp_trans [OF t effects_save_notify]
      by (auto simp: start_auto_publish_def Let_def c Inr split: prod.split sum.split simp flip: d1_def)
  qed
qed

lemma post_draft_message_props:
  assumes "post_draft_message sv tw text t now dl fp ns d w = (d1, b, w1)"
  shows "effects w w1" "ts_drafts (dw_store w1) = ts_drafts (dw_store w)"
    "draft_key d1 = draft_key d" "dd_ledger_id d1 = dd_ledger_id d" "dd_status d1 = dd_status d"
proof -
  let ?p = "ChatDraftDm (resolve_chat_user_id (dw_store w) tw (dc_adapter_kind (ds_client sv)))
    (dd_draft_id d) text (deadline_text (ds_chrono sv) dl)"
  obtain r w0 where c: "post_chat (ds_client sv) (draft_ledger_key d) False ?p w = (r, w0)" by fastforce
  have e: "effects w (save_notify_state t' tw ns' w0)" for t' ns'
    using effects_call [OF c] effects_save_notify by (rule rtranclp_trans)
  show "effects w w1" "ts_drafts (dw_store w1) = ts_drafts (dw_store w)"
    "draft_key d1 = draft_key d" "dd_ledger_id d1 = dd_ledger_id d" "dd_status d1 = dd_status d"
    using assms effects_call [OF c] e call_frame [OF c]
    by (auto simp: post_draft_message_def c Let_def split: sum.splits)
qed

lemma deliver_new_draft_effects:
  assumes i: "twin_store_inv (dw_store w)"
    and d: "dm_get (ts_drafts (dw_store w)) (draft_key d) = None" "\<not> draft_closed d"
    and f: "fresh_publish_id (dd_tenant_id d) pid (dw_store w)"
  shows "effects w (snd (deliver_new_draft sv tw tier text now pid clk ns dec will_dm d w))"
proof -
  have put: "effects w0 (w0\<lparr>dw_store := s\<rparr>)"
    if "put_draft d0 (dw_store w0) = Inr s" "dm_get (ts_drafts (dw_store w0)) (draft_key d0) = None"
      "\<not> draft_closed d0" for w0 d0 s
    using put_draft_effect(1) [OF that] by blast
  obtain d1 b w1 where
    m: "post_draft_message sv tw text (clk 0) now (dd_veto_deadline d) (nd_fingerprint dec) ns d w = (d1, b, w1)"
    by (metis prod_cases3)
  note mp = post_draft_message_props [OF m]
  have "effects w (w1\<lparr>dw_store := s\<rparr>)" if "put_draft d1 (dw_store w1) = Inr s" for s
    using mp(1) put [OF that] mp(2-5) d by (simp add: draft_closed_def rtranclp_trans)
  moreover have "effects w (save_notify_state t tw n (w\<lparr>dw_store := s\<rparr>))"
    if "put_draft d (dw_store w) = Inr s" for s t n
    using put [OF that d] effects_save_notify by (rule rtranclp_trans)
  ultimately show ?thesis
    using put [OF _ d] mp(1) start_auto_publish_effects [OF i d f, of sv tw "text" now clk ns dec]
    by (simp add: deliver_new_draft_def m split: sum.split)
qed

lemma deliver_upgrade_effects:
  assumes d: "dm_get (ts_drafts (dw_store w)) (draft_key d) = Some d0" "\<not> draft_closed d0"
    "dd_ledger_id d = dd_ledger_id d0" "\<not> draft_closed d"
  shows "effects w (snd (deliver_upgrade sv tw text now clk ns dec will_dm d w))"
proof -
  have up: "effects w0 (w0\<lparr>dw_store := s\<rparr>)"
    if "update_draft (d1\<lparr>dd_updated_at := now\<rparr>) (dw_store w0) = Inr s"
      "ts_drafts (dw_store w0) = ts_drafts (dw_store w)"
      "draft_key d1 = draft_key d" "dd_ledger_id d1 = dd_ledger_id d" "dd_status d1 = dd_status d"
    for w0 d1 s
    using update_effect [of w0 "d1\<lparr>dd_updated_at := now\<rparr>" d0] that d by (auto simp: draft_closed_def)
  obtain d1 b w1 where
    m: "post_draft_message sv tw text (clk 0) now (dd_veto_deadline d) (nd_fingerprint dec) ns d w = (d1, b, w1)"
    by (metis prod_cases3)
  note mp = post_draft_message_props [OF m]
  have "effects w (w1\<lparr>dw_store := s\<rparr>)"
    if "update_draft (d1\<lparr>dd_updated_at := now\<rparr>) (dw_store w1) = Inr s" for s
    using mp(1) up [OF that mp(2-5)] by (rule rtranclp_trans)
  moreover have "effects w ((save_notify_state t tw n w)\<lparr>dw_store := s\<rparr>)"
    if "update_draft (d\<lparr>dd_updated_at := now\<rparr>) (dw_store (save_notify_state t tw n w)) = Inr s" for s t n
    using effects_save_notify up [OF that] by (rule rtranclp_trans) simp_all
  ultimately show ?thesis
    using up [of d w] mp(1) effects_save_notify
    by (simp add: deliver_upgrade_def m Let_def split: sum.split)
qed

lemma start_new_draft_effects:
  assumes i: "twin_store_inv (dw_store w)"
    and f: "fresh_draft_id (tw_tenant_id tw) did (dw_store w)"
      "fresh_publish_id (tw_tenant_id tw) pid (dw_store w)"
  shows "effects w (snd (start_new_draft sv tw l text now allow force did pid clk w))"
  unfolding start_new_draft_def Let_def
  using start_status f
  by (intro deliver_new_draft_effects [OF i])
    (simp_all add: fresh_draft_id_def draft_closed_def del: initial_draft_status.simps)

lemma start_after_compile_opts_effects:
  assumes i: "twin_store_inv (dw_store w)"
    and f: "fresh_draft_id (tw_tenant_id tw) did (dw_store w)"
      "fresh_publish_id (tw_tenant_id tw) pid (dw_store w)"
  shows "effects w (snd (start_after_compile_opts sv tw l text now allow force did pid clk w))"
proof (cases "get_draft_by_ledger (dw_store w) (tw_tenant_id tw) (ls_ledger_id l)")
  case None
  with start_new_draft_effects [OF i f] show ?thesis by (simp add: start_after_compile_opts_def)
next
  case (Some d)
  then obtain j where "dm_get (ts_drafts (dw_store w)) (tw_tenant_id tw, j) = Some d"
    by (auto simp: get_draft_by_ledger_def get_draft_def split: option.splits)
  moreover from this i have "draft_key d = (tw_tenant_id tw, j)"
    by (auto simp: twin_store_inv_def dest: dm_keyed_getD)
  ultimately have g: "dm_get (ts_drafts (dw_store w)) (draft_key d) = Some d" by simp
  have up: "effects w (w\<lparr>dw_store := s\<rparr>)"
    if "update_draft (d\<lparr>dd_draft_text := text, dd_updated_at := now\<rparr>) (dw_store w) = Inr s"
      "\<not> draft_closed d" for s
    using update_effect [of w "d\<lparr>dd_draft_text := text, dd_updated_at := now\<rparr>" d] that g
    by (auto simp: draft_closed_def)
  have upgrade: "effects w (snd (upgrade_existing_draft sv tw l text now allow force clk
      (d\<lparr>dd_draft_text := text, dd_updated_at := now\<rparr>) w))" if "\<not> draft_closed d"
    unfolding upgrade_existing_draft_def Let_def
    using start_status g that
    by (intro deliver_upgrade_effects [of _ _ d])
      (simp_all add: draft_closed_def del: initial_draft_status.simps)
  have opened: "draft_is_open (dd_status d) \<Longrightarrow> \<not> draft_closed d"
    by (auto simp: draft_is_open_def draft_closed_def)
  show ?thesis
    using up upgrade opened by (simp add: start_after_compile_opts_def Some Let_def split: sum.split)
qed

section \<open>Histories of the worker\<close>

datatype delivery_op =
    DStart twin ledger_snapshot string instant bool bool string string "nat \<Rightarrow> instant"
  | DSilence twin string string string "nat \<Rightarrow> instant"
  | DPublish twin string string string "nat \<Rightarrow> instant"
  | DVeto string string "nat \<Rightarrow> instant"
  | DEdit string string string "nat \<Rightarrow> instant"
  | DLedger ledger_snapshot
  | DTwin twin
  | DSlackMap slack_user_map

fun delivery_step :: "delivery_service \<Rightarrow> delivery_op \<Rightarrow> delivery_world \<Rightarrow> delivery_world" where
  "delivery_step sv (DStart tw l txt now allow force did pid clk) w =
     snd (start_after_compile_opts sv tw l txt now allow force did pid clk w)"
| "delivery_step sv (DSilence tw t j pid clk) w = snd (silence_timeout sv tw t j pid clk w)"
| "delivery_step sv (DPublish tw t j pid clk) w = snd (explicit_publish sv tw t j pid clk w)"
| "delivery_step sv (DVeto t j clk) w = snd (veto_draft t j clk w)"
| "delivery_step sv (DEdit t j txt clk) w = snd (edit_draft t j txt clk w)"
| "delivery_step sv (DLedger l) w =
     w\<lparr>dw_store := keep_on_error (dw_store w) (put_ledger (ds_chrono sv) l (dw_store w))\<rparr>"
| "delivery_step sv (DTwin t) w = w\<lparr>dw_store := upsert_twin t (dw_store w)\<rparr>"
| "delivery_step sv (DSlackMap m) w = w\<lparr>dw_store := put_slack_map m (dw_store w)\<rparr>"

text \<open>The UUIDs an operation draws are new in the state it meets.\<close>

fun uuids_fresh :: "delivery_op \<Rightarrow> delivery_world \<Rightarrow> bool" where
  "uuids_fresh (DStart tw l txt now allow force did pid clk) w \<longleftrightarrow>
     fresh_draft_id (tw_tenant_id tw) did (dw_store w)
     \<and> fresh_publish_id (tw_tenant_id tw) pid (dw_store w)"
| "uuids_fresh (DSilence tw t j pid clk) w \<longleftrightarrow> fresh_publish_id t pid (dw_store w)"
| "uuids_fresh (DPublish tw t j pid clk) w \<longleftrightarrow> fresh_publish_id t pid (dw_store w)"
| "uuids_fresh _ w \<longleftrightarrow> True"

fun run_worker :: "delivery_service \<Rightarrow> delivery_op list \<Rightarrow> delivery_world \<Rightarrow> delivery_world" where
  "run_worker sv [] w = w"
| "run_worker sv (p # ps) w = run_worker sv ps (delivery_step sv p w)"

fun worker_run_ok :: "delivery_service \<Rightarrow> delivery_op list \<Rightarrow> delivery_world \<Rightarrow> bool" where
  "worker_run_ok sv [] w \<longleftrightarrow> True"
| "worker_run_ok sv (p # ps) w \<longleftrightarrow> uuids_fresh p w \<and> worker_run_ok sv ps (delivery_step sv p w)"

definition new_world :: delivery_world where
  "new_world = \<lparr>dw_store = new_twin_store, dw_log = []\<rparr>"

lemma delivery_step_effects:
  assumes "twin_store_inv (dw_store w)" "uuids_fresh p w"
  shows "effects w (delivery_step sv p w)"
proof (cases p)
  case (DLedger l)
  have "effects w (w\<lparr>dw_store := s\<rparr>)" if "put_ledger (ds_chrono sv) l (dw_store w) = Inr s" for s
    using eff_ledger [OF that] by blast
  then show ?thesis by (auto simp: DLedger keep_on_error_def split: sum.split)
qed (use assms in \<open>auto simp: start_after_compile_opts_effects silence_timeout_effects
      explicit_publish_effects veto_draft_effects edit_draft_effects
      intro: r_into_rtranclp eff_twin eff_slack\<close>)

lemma run_worker_effects:
  "world_inv w \<Longrightarrow> worker_run_ok sv ps w \<Longrightarrow> effects w (run_worker sv ps w)"
proof (induction ps arbitrary: w)
  case (Cons p ps)
  have e: "effects w (delivery_step sv p w)"
    using Cons.prems by (auto intro: delivery_step_effects world_inv_store)
  then have "effects (delivery_step sv p w) (run_worker sv ps (delivery_step sv p w))"
    using Cons effects_world_inv by simp
  with e show ?case by simp
qed simp

lemma run_worker_append: "run_worker sv (ps @ qs) w = run_worker sv qs (run_worker sv ps w)"
  by (induction ps arbitrary: w) simp_all

lemma worker_run_ok_append:
  "worker_run_ok sv (ps @ qs) w \<longleftrightarrow> worker_run_ok sv ps w \<and> worker_run_ok sv qs (run_worker sv ps w)"
  by (induction ps arbitrary: w) simp_all

lemma run_worker_inv: "worker_run_ok sv ps new_world \<Longrightarrow> world_inv (run_worker sv ps new_world)"
  using run_worker_effects [of new_world sv ps] effects_world_inv world_inv_new
  by (simp add: new_world_def)

section \<open>Properties\<close>

text \<open>
  C1. Exactly-once publishing, for a worker whose operations do not overlap. After any history of
  compiles, timeouts, publishes, vetoes and edits, over any chat client: the chat accepted at most
  one publish call per ledger, it accepted one exactly when a publish record of the ledger exists,
  and every draft marked published has that record.
\<close>

theorem publish_exactly_once:
  assumes "worker_run_ok sv ps new_world"
  defines "w \<equiv> run_worker sv ps new_world"
  shows "length (published_posts (t, l) w)
      = (if get_publish_by_ledger (dw_store w) t l \<noteq> None then 1 else 0)
    \<and> (get_draft (dw_store w) t i = Some d \<longrightarrow> dd_status d = Published \<longrightarrow>
         get_publish_by_ledger (dw_store w) t (dd_ledger_id d) \<noteq> None)"
proof -
  have i: "world_inv w" using run_worker_inv [OF assms(1)] by (simp add: w_def)
  have "dd_tenant_id d = t" if "get_draft (dw_store w) t i = Some d"
    using that world_inv_store [OF i] by (auto simp: twin_store_inv_def get_draft_def dest: dm_keyed_getD)
  then show ?thesis
    using world_inv_posts [OF i, of "(t, l)"] world_inv_published [OF i, of "(t, i)" d]
    by (auto simp: ledger_published_def publish_lookup_def get_draft_def)
qed

text \<open>
  C2. A veto holds. Once a draft is vetoed, no later history changes the draft in any field, and
  no call to publish its ledger is ever made, whatever the twins, ledgers and requests are.
\<close>

theorem veto_stops_publishing:
  assumes "worker_run_ok sv (ps @ qs) new_world"
    and "get_draft (dw_store (run_worker sv ps new_world)) t i = Some d"
    and "dd_status d = Vetoed"
  shows "get_draft (dw_store (run_worker sv (ps @ qs) new_world)) t i = Some d
    \<and> publish_calls (t, dd_ledger_id d) (run_worker sv (ps @ qs) new_world)
        = publish_calls (t, dd_ledger_id d) (run_worker sv ps new_world)"
proof -
  let ?w = "run_worker sv ps new_world"
  have i: "world_inv ?w" and ok: "worker_run_ok sv qs ?w"
    using assms(1) run_worker_inv by (simp_all add: worker_run_ok_append)
  have g: "dm_get (ts_drafts (dw_store ?w)) (t, i) = Some d" using assms(2) by (simp add: get_draft_def)
  have k: "dd_tenant_id d = t"
    using g world_inv_store [OF i] by (auto simp: twin_store_inv_def dest: dm_keyed_getD)
  have c: "draft_closed d" using assms(3) by (simp add: draft_closed_def)
  note e = run_worker_effects [OF i ok]
  show ?thesis
    using effects_closed_draft [OF e g c] effects_closed_no_call [OF e i g c] k
    by (simp add: run_worker_append get_draft_def)
qed

lemma save_notify_log [simp]: "dw_log (save_notify_state t tw ns w) = dw_log w"
  by (simp add: save_notify_state_def)

lemma shadow_new_draft:
  "is_in_shadow tw now \<Longrightarrow>
   dw_log (snd (start_new_draft sv tw l txt now allow force did pid clk w)) = dw_log w
   \<and> (\<forall>r. fst (start_new_draft sv tw l txt now allow force did pid clk w) = Inr r \<longrightarrow>
        dd_status (dr_draft r) = Shadow \<and> \<not> dr_dm_sent r)"
  by (auto simp: start_new_draft_def Let_def deliver_new_draft_def split: sum.split)

lemma shadow_upgrade:
  "is_in_shadow tw now \<Longrightarrow>
   dw_log (snd (upgrade_existing_draft sv tw l txt now allow force clk d w)) = dw_log w"
  by (auto simp: upgrade_existing_draft_def Let_def deliver_upgrade_def upgrade_will_dm_def
    split: sum.split)

text \<open>
  C3. Shadow mode. While a twin is in its shadow period a compile makes no chat call of any kind,
  whether notification is forced or not, and a draft it creates is a shadow draft without a
  message; and a shadow draft cannot be published, timed out, edited or vetoed: each request is
  refused and leaves the world as it is.
\<close>

theorem shadow_stays_private:
  "(is_in_shadow tw now \<longrightarrow>
      dw_log (snd (start_after_compile_opts sv tw l txt now allow force did pid clk w)) = dw_log w
      \<and> (\<forall>r. get_draft_by_ledger (dw_store w) (tw_tenant_id tw) (ls_ledger_id l) = None \<longrightarrow>
           fst (start_after_compile_opts sv tw l txt now allow force did pid clk w) = Inr r \<longrightarrow>
           dd_status (dr_draft r) = Shadow \<and> \<not> dr_dm_sent r))
   \<and> (get_draft (dw_store w) t i = Some d \<longrightarrow> dd_status d = Shadow \<longrightarrow>
        (\<exists>e1 e2 e3 e4. explicit_publish sv tw t i pid clk w = (Inl e1, w)
          \<and> silence_timeout sv tw t i pid clk w = (Inl e2, w)
          \<and> edit_draft t i txt clk w = (Inl e3, w) \<and> veto_draft t i clk w = (Inl e4, w)))"
proof (intro conjI impI)
  assume sh: "is_in_shadow tw now"
  then show "dw_log (snd (start_after_compile_opts sv tw l txt now allow force did pid clk w)) = dw_log w"
    using shadow_new_draft shadow_upgrade
    by (auto simp: start_after_compile_opts_def Let_def split: option.split sum.split)
  show "\<forall>r. get_draft_by_ledger (dw_store w) (tw_tenant_id tw) (ls_ledger_id l) = None \<longrightarrow>
           fst (start_after_compile_opts sv tw l txt now allow force did pid clk w) = Inr r \<longrightarrow>
           dd_status (dr_draft r) = Shadow \<and> \<not> dr_dm_sent r"
    using shadow_new_draft [OF sh] by (simp add: start_after_compile_opts_def)
next
  assume g: "get_draft (dw_store w) t i = Some d" and s: "dd_status d = Shadow"
  then show "\<exists>e1 e2 e3 e4. explicit_publish sv tw t i pid clk w = (Inl e1, w)
          \<and> silence_timeout sv tw t i pid clk w = (Inl e2, w)
          \<and> edit_draft t i txt clk w = (Inl e3, w) \<and> veto_draft t i clk w = (Inl e4, w)"
    by (auto simp: explicit_publish_def silence_timeout_def edit_draft_def veto_draft_def
      with_draft_and_ledger_def shadow_exit_cases split: option.split)
qed

text \<open>What a publish that succeeds leaves behind.\<close>

lemma update_ledgers_frame: "update_draft d s = Inr s' \<Longrightarrow> ts_ledgers s' = ts_ledgers s"
  by (auto simp: update_draft_def split: if_splits)

lemma finish_draft_result:
  "finish_draft d st t r w = (Inr v, d', w') \<Longrightarrow>
   r = Inr v \<and> d' = set_status d st t \<and> update_draft d' (dw_store w) = Inr (dw_store w')
   \<and> dw_log w' = dw_log w"
  by (auto simp: finish_draft_def Let_def split: sum.splits)

lemma publish_lookup_after_put:
  assumes "twin_store_inv s" "get_publish_by_ledger s (pr_tenant_id r) (pr_ledger_id r) = None"
    and "publish_id_unused r s"
  shows "get_publish_by_ledger (fst (put_publish_if_absent r s)) (pr_tenant_id r) (pr_ledger_id r) = Some r"
  using publish_lookup_put [OF assms(1,3)] assms(2) by (simp add: publish_lookup_def fun_eq_iff)

lemma try_publish_result:
  assumes i: "twin_store_inv (dw_store w)" and f: "fresh_publish_id (dd_tenant_id d) pid (dw_store w)"
    and g: "dm_get (ts_drafts (dw_store w)) (draft_key d) \<noteq> None"
    and q: "dd_status d = PublishQueued"
    and r: "try_publish_channel sv tw pid clk d w = (Inr v, d', w')"
  shows "dd_status d' = Published \<and> draft_key d' = draft_key d \<and> dd_ledger_id d' = dd_ledger_id d
    \<and> dm_get (ts_drafts (dw_store w')) (draft_key d) = Some d'
    \<and> get_publish_by_ledger (dw_store w') (dd_tenant_id d) (dd_ledger_id d) = v \<and> v \<noteq> None
    \<and> ts_ledgers (dw_store w') = ts_ledgers (dw_store w)"
proof (cases "get_publish_by_ledger (dw_store w) (dd_tenant_id d) (dd_ledger_id d)")
  case (Some ex)
  then show ?thesis
    using r q g
    by (auto simp: try_publish_channel_def Let_def keep_on_error_def update_present
      get_publish_by_ledger_def split: option.splits)
next
  case None
  have put: "get_publish_by_ledger (fst (put_publish_if_absent p (dw_store w))) (dd_tenant_id d) (dd_ledger_id d) = Some p"
    if "p = make_publish_record (ds_sha sv) d pid c ts t" for p c ts t
    using publish_lookup_after_put [OF i, of p] None f that
    by (simp add: publish_id_unused_def fresh_publish_id_def)
  have snd_put: "snd (put_publish_if_absent p (dw_store w))"
    if "p = make_publish_record (ds_sha sv) d pid c ts t" for p c ts t
    using publish_once.put_result [OF i, of p] None f that
    by (simp add: publish_id_unused_def fresh_publish_id_def publish_lookup_def)
  have fin: "?thesis"
    if fd: "finish_draft d Published t (Inr (Some p)) w1 = (Inr v, d', w')"
      and st: "dw_store w1 = fst (put_publish_if_absent p (dw_store w))"
      and p: "p = make_publish_record (ds_sha sv) d pid c ts t0" for t w1 p c ts t0
  proof -
    have v: "v = Some p" and d': "d' = set_status d Published t"
      and u: "update_draft d' (dw_store w1) = Inr (dw_store w')"
      using finish_draft_result [OF fd] by auto
    have "get_publish_by_ledger (dw_store w') (dd_tenant_id d) (dd_ledger_id d) = Some p"
      using publish_after_update [OF u] put [OF p] st by simp
    moreover have "ts_ledgers (dw_store w') = ts_ledgers (dw_store w)"
      using update_ledgers_frame [OF u] st by simp
    ultimately show ?thesis using draft_write_frame(2) [OF u] v by (simp add: d')
  qed
  define channel where "channel = (if tw_channel_id tw = [] then ''C_TEAM'' else tw_channel_id tw)"
  obtain x w1 where
    c: "post_chat (ds_client sv) (draft_ledger_key d) True (ChatChannel channel (publish_body d)) w = (x, w1)"
    by fastforce
  have eq: "try_publish_channel sv tw pid clk d w =
    (case x of
       Inr p \<Rightarrow> publish_posted sv pid clk d channel (po_ts p) w1
     | Inl e \<Rightarrow>
         if channel_unavailable (twin_error_to_string e) channel
         then publish_fallback sv tw pid clk d channel (twin_error_to_string e) w1
         else finish_draft d PublishFailed (clk 0) (Inl e) w1)"
    using c by (simp add: try_publish_channel_def q None Let_def flip: channel_def)
  show ?thesis
  proof (cases x)
    case (Inr y)
    let ?p = "make_publish_record (ds_sha sv) d pid channel (po_ts y) (clk 0)"
    show ?thesis
      using r snd_put [of ?p] call_frame [OF c]
      by (intro fin [of "clk 1" ?p "w1\<lparr>dw_store := fst (put_publish_if_absent ?p (dw_store w))\<rparr>"])
        (auto simp: eq Inr publish_posted_def Let_def case_prod_beta)
  next
    case (Inl e)
    have no: False if "finish_draft d st t (Inl e) w0 = (Inr v, d', w')" for st t e w0
      using finish_draft_result [OF that] by simp
    let ?q = "ChatDm (resolve_chat_user_id (dw_store w1) tw (dc_adapter_kind (ds_client sv)))
      (fallback_text channel (publish_body d))"
    obtain y w2 where c2: "post_chat (ds_client sv) (draft_ledger_key d) True ?q w1 = (y, w2)" by fastforce
    have fb: "publish_fallback sv tw pid clk d channel (twin_error_to_string e) w1 = (Inr v, d', w')"
      using r no by (auto simp: eq Inl split: if_splits)
    with c2 no obtain dm where y: "y = Inr dm" by (cases y) (auto simp: publish_fallback_def Let_def)
    let ?p = "make_publish_record (ds_sha sv) d pid (''dm_fallback:'' @ po_channel dm) (po_ts dm) (clk 0)"
    show ?thesis
      using fb c2 y call_frame [OF c] call_frame [OF c2]
      by (intro fin [of "clk 1" ?p "w2\<lparr>dw_store := fst (put_publish_if_absent ?p (dw_store w2))\<rparr>"])
        (auto simp: publish_fallback_def Let_def)
  qed
qed

lemma drop_draft_Inr:
  "drop_draft x = (Inr (d, v), w) \<longleftrightarrow> x = (Inr v, d, w)"
  by (cases x; cases "fst x") (auto simp: drop_draft_def)

lemma explicit_publish_result:
  assumes wi: "world_inv w" and f: "fresh_publish_id t pid (dw_store w)"
    and r: "explicit_publish sv tw t i pid clk w = (Inr (d, v), w')"
  shows "dd_status d = Published \<and> get_draft (dw_store w') t i = Some d
    \<and> get_publish_by_ledger (dw_store w') t (dd_ledger_id d) = v \<and> v \<noteq> None
    \<and> get_ledger (dw_store w') t (dd_ledger_id d) \<noteq> None"
proof -
  note si = world_inv_store [OF wi]
  obtain d0 l where g: "get_draft (dw_store w) t i = Some d0"
    and l: "get_ledger (dw_store w) t (dd_ledger_id d0) = Some l"
    using r by (auto simp: explicit_publish_def with_draft_and_ledger_def split: option.splits)
  have k: "draft_key d0 = (t, i)" and g': "dm_get (ts_drafts (dw_store w)) (draft_key d0) = Some d0"
    using g si by (auto simp: get_draft_def twin_store_inv_def dest: dm_keyed_getD)
  have fin: ?thesis
    if "try_publish_channel sv tw pid c d1 w1 = (Inr v, d, w')" "twin_store_inv (dw_store w1)"
      "dm_get (ts_drafts (dw_store w1)) (draft_key d1) \<noteq> None" "dd_status d1 = PublishQueued"
      "ts_publishes (dw_store w1) = ts_publishes (dw_store w)"
      "ts_ledgers (dw_store w1) = ts_ledgers (dw_store w)"
      "draft_key d1 = (t, i)" "dd_ledger_id d1 = dd_ledger_id d0" for c d1 w1
    using try_publish_result [OF that(2) _ that(3,4,1)] that f l
    by (auto simp: fresh_publish_id_def get_draft_def get_ledger_def)
  show ?thesis
  proof (cases "dd_status d0 = Published")
    case True
    then show ?thesis
      using r g l world_inv_published [OF wi g'] k
      by (auto simp: explicit_publish_def with_draft_and_ledger_def ledger_published_def
        publish_lookup_def)
  next
    case notpub: False
    show ?thesis
    proof (cases "dd_status d0 = PublishQueued")
      case True
      then have "try_publish_channel sv tw pid clk d0 w = (Inr v, d, w')"
        using r g l by (simp add: explicit_publish_def with_draft_and_ledger_def drop_draft_Inr)
      then show ?thesis by (rule fin) (use si g' k True in auto)
    next
      case False
      obtain st s where
        e: "apply_delivery_event (dd_status d0) EvExplicitPublish (ls_confidence_rollup l)
              (tw_high_auto_publish tw) = Some st"
        and u: "update_draft (set_status d0 st (clk 0)) (dw_store w) = Inr s"
        and t: "try_publish_channel sv tw pid (\<lambda>n. clk (Suc n)) (set_status d0 st (clk 0)) (w\<lparr>dw_store := s\<rparr>)
              = (Inr v, d, w')"
        using r g l notpub False
        by (auto simp: explicit_publish_def with_draft_and_ledger_def Let_def drop_draft_Inr
          split: option.splits sum.splits if_splits)
      have st: "st = PublishQueued" using e by (cases "dd_status d0") auto
      note ev = event_update [OF g' , of EvExplicitPublish _ _ "set_status d0 st (clk 0)" s]
      have si': "twin_store_inv s" using effect_store_inv [OF ev(1) si] e u by simp
      have "ts_ledgers s = ts_ledgers (dw_store w)"
        using u by (auto simp: update_draft_def split: if_splits)
      with t show ?thesis
        by (intro fin [OF t]) (use si' ev(2,3) e u st k in auto)
    qed
  qed
qed

text \<open>
  Publishing is idempotent. When an explicit publish succeeds it returns a publish record,
  which is the stored one; publishing the same draft again then returns that record, makes no chat
  call and changes nothing.
\<close>

lemma explicit_publish_idempotent:
  assumes "worker_run_ok sv (ps @ [DPublish tw t i pid clk]) new_world"
    and "explicit_publish sv tw t i pid clk (run_worker sv ps new_world) = (Inr (d, v), w')"
  shows "v \<noteq> None \<and> explicit_publish sv tw' t i pid' clk' w' = (Inr (d, v), w')"
proof -
  have i: "world_inv (run_worker sv ps new_world)"
    and f: "fresh_publish_id t pid (dw_store (run_worker sv ps new_world))"
    using assms(1) by (auto simp: worker_run_ok_append intro: run_worker_inv)
  from explicit_publish_result [OF i f assms(2)] show ?thesis
    by (auto simp: explicit_publish_def with_draft_and_ledger_def)
qed

lemma try_publish_accepts:
  assumes i: "twin_store_inv (dw_store w)" and f: "fresh_publish_id (dd_tenant_id d) pid (dw_store w)"
    and g: "dm_get (ts_drafts (dw_store w)) (draft_key d) \<noteq> None" and q: "dd_status d = PublishQueued"
    and n: "get_publish_by_ledger (dw_store w) (dd_tenant_id d) (dd_ledger_id d) = None"
    and a: "\<forall>log ch txt. \<exists>p. dc_post (ds_client sv) log (ChatChannel ch txt) = Inr p"
  shows "\<exists>d' r w'. try_publish_channel sv tw pid clk d w = (Inr (Some r), d', w')
    \<and> dd_veto_deadline d' = dd_veto_deadline d"
proof -
  define channel where "channel = (if tw_channel_id tw = [] then ''C_TEAM'' else tw_channel_id tw)"
  obtain p w1 where
    c: "post_chat (ds_client sv) (draft_ledger_key d) True (ChatChannel channel (publish_body d)) w = (Inr p, w1)"
    using a by (metis post_chat_simps(1) prod.collapse)
  let ?r = "make_publish_record (ds_sha sv) d pid channel (po_ts p) (clk 0)"
  have eq: "try_publish_channel sv tw pid clk d w = publish_posted sv pid clk d channel (po_ts p) w1"
    using c by (simp add: try_publish_channel_def q n Let_def flip: channel_def)
  have "snd (put_publish_if_absent ?r (dw_store w))"
    using publish_once.put_result [OF i, of ?r] n f
    by (simp add: publish_id_unused_def fresh_publish_id_def publish_lookup_def)
  moreover have "dm_get (ts_drafts (fst (put_publish_if_absent ?r (dw_store w)))) (draft_key d) \<noteq> None"
    using g by simp
  ultimately show ?thesis
    using call_frame [OF c] update_present
      [of "fst (put_publish_if_absent ?r (dw_store w))" "set_status d Published (clk 1)"]
    by (auto simp: eq publish_posted_def Let_def case_prod_beta finish_draft_def)
      (auto simp: set_status_def)
qed

text \<open>
  The silence timeout ignores the veto deadline. For a pending or edited draft of a Medium
  ledger, \<open>silence_timeout\<close> queues and publishes whatever the deadline and the clock are: with
  a client that accepts channel posts the draft is published at once, however far the deadline of
  its veto window lies ahead; for another tier it is refused. The architecture document promises
  silence as consent only after the deadline, and no caller checks it.
\<close>

lemma silence_ignores_deadline:
  assumes "world_inv w" and "get_draft (dw_store w) t i = Some d"
    and "dd_status d \<in> {Pending, Edited}" and "get_ledger (dw_store w) t (dd_ledger_id d) = Some l"
    and "get_publish_by_ledger (dw_store w) t (dd_ledger_id d) = None"
    and "fresh_publish_id t pid (dw_store w)"
    and "\<forall>log ch txt. \<exists>p. dc_post (ds_client sv) log (ChatChannel ch txt) = Inr p"
  shows "if ls_confidence_rollup l = Medium
    then \<exists>d' r w'. silence_timeout sv tw t i pid clk w = (Inr (d', Some r), w')
           \<and> dd_status d' = Published \<and> dd_veto_deadline d' = dd_veto_deadline d
           \<and> length (published_posts (t, dd_ledger_id d) w') = 1
    else \<exists>e. silence_timeout sv tw t i pid clk w = (Inl e, w)"
proof (cases "ls_confidence_rollup l = Medium")
  case False
  with assms(2,4) show ?thesis
    by (simp add: silence_timeout_def with_draft_and_ledger_def silence_may_publish_def)
next
  case True
  note si = world_inv_store [OF assms(1)]
  have k: "draft_key d = (t, i)" and g: "dm_get (ts_drafts (dw_store w)) (draft_key d) = Some d"
    using assms(2) si by (auto simp: get_draft_def twin_store_inv_def dest: dm_keyed_getD)
  define d1 where "d1 = set_status d PublishQueued (clk 0)"
  obtain s where u: "update_draft d1 (dw_store w) = Inr s"
    using g by (simp add: d1_def update_present)
  have ev: "apply_delivery_event (dd_status d) EvMediumSilenceTimeout Medium h = Some PublishQueued" for h
    using assms(3) by auto
  have e1: "effect w (w\<lparr>dw_store := s\<rparr>)" and g1: "dm_get (ts_drafts s) (draft_key d1) = Some d1"
    and p1: "ts_publishes s = ts_publishes (dw_store w)"
    using event_update [OF g, of EvMediumSilenceTimeout Medium _ d1 s] ev u by (simp_all add: d1_def)
  let ?w1 = "w\<lparr>dw_store := s\<rparr>"
  have i1: "twin_store_inv s" using effect_store_inv [OF e1 si] by simp
  have n1: "get_publish_by_ledger s t (dd_ledger_id d) = None"
    using publish_after_update [OF u] assms(5) by simp
  have f1: "fresh_publish_id t pid s" using assms(6) p1 by (simp add: fresh_publish_id_def)
  have d1: "dd_tenant_id d1 = t" "dd_ledger_id d1 = dd_ledger_id d" "dd_status d1 = PublishQueued"
    "dd_veto_deadline d1 = dd_veto_deadline d"
    using k by (simp_all add: d1_def set_status_def)
  obtain d' r w' where t: "try_publish_channel sv tw pid (\<lambda>n. clk (Suc n)) d1 ?w1 = (Inr (Some r), d', w')"
    and d': "dd_veto_deadline d' = dd_veto_deadline d1"
    using try_publish_accepts [of ?w1 d1 pid sv tw "\<lambda>n. clk (Suc n)"] i1 g1 n1 f1 d1 assms(7) by auto
  note res = try_publish_result [of ?w1, simplified, OF i1 _ _ d1(3) t]
  have st: "silence_timeout sv tw t i pid clk w = (Inr (d', Some r), w')"
    using assms(2,4) True ev u t
    by (simp add: silence_timeout_def with_draft_and_ledger_def silence_may_publish_def Let_def
      drop_draft_def d1_def)
  have "world_inv w'"
    using effects_world_inv [OF silence_timeout_effects [OF si assms(6)] assms(1), of sv tw i clk] st
    by simp
  from world_inv_posts [OF this, of "(t, dd_ledger_id d)"] res f1 g1 d1
  have "dd_status d' = Published \<and> length (published_posts (t, dd_ledger_id d) w') = 1"
    by (simp add: ledger_published_def publish_lookup_def)
  with st d' d1(4) True show ?thesis by auto
qed

section \<open>The properties at concrete histories\<close>

definition sample_twin :: twin where
  "sample_twin = \<lparr>tw_tenant_id = ''t'', tw_twin_id = ''w'', tw_twin_kind = Person, tw_subject_id = ''u'',
     tw_display_name = ''A'', tw_timezone = ''IST'', tw_channel_id = ''C1'', tw_shadow_until = None,
     tw_high_auto_publish = False, tw_enabled = True, tw_config_json = JObj [], tw_created_at = 0,
     tw_updated_at = 0\<rparr>"

definition sample_service :: delivery_service where
  "sample_service = \<lparr>ds_client = mock_client (\<lambda>n. replicate n CHR ''1'') False,
     ds_policy = default_delivery_policy None, ds_sha = (\<lambda>s. ''a1''), ds_chrono = sample_clock\<rparr>"

definition sample_start :: "string \<Rightarrow> string \<Rightarrow> delivery_op" where
  "sample_start did pid =
     DStart sample_twin (sample_period_ledger ''l'') ''done'' 7 False False did pid (\<lambda>n. 8)"

definition sample_history :: "delivery_op list" where
  "sample_history = [DLedger (sample_period_ledger ''l''), sample_start ''1'' ''1'']"

definition sample_pending :: draft_delivery where
  "sample_pending = (sample_draft ''dft_1'' ''l'')\<lparr>dd_draft_text := ''done'',
     dd_veto_deadline := Some (7 + seconds 7200), dd_created_at := 7, dd_updated_at := 7\<rparr>"

definition sample_store :: twin_store where
  "sample_store = new_twin_store\<lparr>
     ts_ledgers := [((''t'', ''l''), sample_period_ledger ''l'')],
     ts_ledger_period := [((''t'', ''w'', ''T0'', ''T1''), ''l'')],
     ts_drafts := [((''t'', ''dft_1''), sample_pending)],
     ts_draft_by_ledger := [((''t'', ''l''), ''dft_1'')]\<rparr>"

lemma sample_after_ledger:
  "put_ledger sample_clock (sample_period_ledger ''l'') new_twin_store
     = Inr (new_twin_store\<lparr>ts_ledgers := [((''t'', ''l''), sample_period_ledger ''l'')],
              ts_ledger_period := [((''t'', ''w'', ''T0'', ''T1''), ''l'')]\<rparr>)"
  by (simp add: put_ledger_def sample_store_defs period_key_def dm_put_def Let_def)

lemma sample_after_start:
  "run_worker sample_service sample_history new_world = \<lparr>dw_store = sample_store, dw_log = []\<rparr>"
  by (simp add: sample_history_def sample_start_def sample_service_def new_world_def keep_on_error_def
    sample_after_ledger start_after_compile_opts_def)
    (simp add: sample_store_defs sample_store_def sample_twin_def sample_pending_def
      get_draft_by_ledger_def start_new_draft_def Let_def
      is_in_shadow_def decide_notify_def quiet_status_def load_notify_state_def default_notify_state_def
      deliver_new_draft_def put_draft_def dm_put_def veto_deadline_for_def default_delivery_policy_def
      notify_config_key_def new_will_dm_def)

lemma sample_history_ok: "worker_run_ok sample_service sample_history new_world"
  by (simp add: sample_history_def sample_start_def sample_service_def new_world_def keep_on_error_def
    sample_after_ledger sample_twin_def fresh_draft_id_def fresh_publish_id_def)
    (simp add: new_twin_store_def)

definition sample_published :: draft_delivery where
  "sample_published = sample_pending\<lparr>dd_status := Published, dd_updated_at := 9\<rparr>"

definition sample_record :: publish_record where
  "sample_record = \<lparr>pr_tenant_id = ''t'', pr_publish_id = ''pub_1'', pr_ledger_id = ''l'',
     pr_draft_id = ''dft_1'', pr_channel_id = ''C1'', pr_slack_ts = ''ch.1'', pr_body_hash = ''a1'',
     pr_published_at = 9\<rparr>"

definition sample_published_world :: delivery_world where
  "sample_published_world = \<lparr>dw_store = sample_store\<lparr>
       ts_drafts := [((''t'', ''dft_1''), sample_published)],
       ts_publishes := [((''t'', ''pub_1''), sample_record)],
       ts_publish_by_ledger := [((''t'', ''l''), ''pub_1'')]\<rparr>,
     dw_log = [\<lparr>cc_ledger = (''t'', ''l''), cc_publish = True, cc_post = ChatChannel ''C1'' ''done'',
       cc_result = Inr \<lparr>po_channel = ''C1'', po_ts = ''ch.1''\<rparr>\<rparr>]\<rparr>"

lemma sample_store_reads:
  "get_draft sample_store ''t'' ''dft_1'' = Some sample_pending"
  "get_ledger sample_store ''t'' ''l'' = Some (sample_period_ledger ''l'')"
  "get_publish_by_ledger sample_store ''t'' ''l'' = None"
  "dd_ledger_id sample_pending = ''l''" "dd_status sample_pending = Pending"
  by (simp_all add: get_draft_def get_ledger_def get_publish_by_ledger_def sample_store_def
    sample_store_defs sample_pending_def dm_get_def)

lemmas sample_publish_defs = try_publish_channel_def set_status_def update_draft_def Let_def
  post_chat_def publish_posted_def make_publish_record_def put_publish_if_absent_def finish_draft_def
  drop_draft_def mock_client_def mock_response_def publish_body_def body_hash_def
  get_publish_by_ledger_def keep_on_error_def dm_put_def dm_get_def

lemma sample_explicit_publish:
  "explicit_publish sample_service sample_twin ''t'' ''dft_1'' ''1'' (\<lambda>n. 9)
     \<lparr>dw_store = sample_store, dw_log = []\<rparr>
   = (Inr (sample_published, Some sample_record), sample_published_world)"
  unfolding explicit_publish_def with_draft_and_ledger_def
  by (simp add: sample_store_reads)
    (simp add: sample_publish_defs sample_store_def sample_store_defs sample_pending_def
      sample_published_def sample_record_def sample_published_world_def sample_service_def
      sample_twin_def)

theorem publish_exactly_once_witness:
  "length (published_posts (''t'', ''l'') (run_worker sample_service
     (sample_history @ [DPublish sample_twin ''t'' ''dft_1'' ''1'' (\<lambda>n. 9)]) new_world)) = 1"
proof -
  let ?ps = "sample_history @ [DPublish sample_twin ''t'' ''dft_1'' ''1'' (\<lambda>n. 9)]"
  have "worker_run_ok sample_service ?ps new_world"
    by (simp add: worker_run_ok_append sample_history_ok sample_after_start fresh_publish_id_def)
      (simp add: sample_store_def new_twin_store_def)
  from publish_exactly_once [OF this, of "''t''" "''l''"]
  have "length (published_posts (''t'', ''l'') (run_worker sample_service ?ps new_world))
    = (if get_publish_by_ledger (dw_store (run_worker sample_service ?ps new_world)) ''t'' ''l'' \<noteq> None
       then 1 else 0)" by blast
  moreover have "get_publish_by_ledger (dw_store (run_worker sample_service ?ps new_world)) ''t'' ''l'' \<noteq> None"
    by (simp add: run_worker_append sample_after_start sample_explicit_publish)
      (simp add: sample_published_world_def get_publish_by_ledger_def dm_get_def)
  ultimately show ?thesis by simp
qed

lemma sample_veto:
  "veto_draft ''t'' ''dft_1'' (\<lambda>n. 9) \<lparr>dw_store = sample_store, dw_log = []\<rparr>
   = (Inr (sample_pending\<lparr>dd_status := Vetoed, dd_updated_at := 9\<rparr>),
      \<lparr>dw_store = sample_store\<lparr>ts_drafts :=
         [((''t'', ''dft_1''), sample_pending\<lparr>dd_status := Vetoed, dd_updated_at := 9\<rparr>)]\<rparr>, dw_log = []\<rparr>)"
  unfolding veto_draft_def with_draft_and_ledger_def
  by (simp add: sample_store_reads)
    (simp add: sample_publish_defs sample_store_def sample_store_defs sample_pending_def)

theorem veto_stops_publishing_witness:
  "publish_calls (''t'', ''l'') (run_worker sample_service
     ((sample_history @ [DVeto ''t'' ''dft_1'' (\<lambda>n. 9)])
       @ [DPublish sample_twin ''t'' ''dft_1'' ''1'' (\<lambda>n. 9)]) new_world) = []"
proof -
  let ?ps = "sample_history @ [DVeto ''t'' ''dft_1'' (\<lambda>n. 9)]"
  let ?qs = "[DPublish sample_twin ''t'' ''dft_1'' ''1'' (\<lambda>n. 9)]"
  let ?d = "sample_pending\<lparr>dd_status := Vetoed, dd_updated_at := 9\<rparr>"
  have r: "run_worker sample_service ?ps new_world
      = \<lparr>dw_store = sample_store\<lparr>ts_drafts := [((''t'', ''dft_1''), ?d)]\<rparr>, dw_log = []\<rparr>"
    by (simp add: run_worker_append sample_after_start sample_veto)
  have "worker_run_ok sample_service (?ps @ ?qs) new_world"
    by (simp add: worker_run_ok_append run_worker_append sample_history_ok sample_after_start
        sample_veto fresh_publish_id_def)
      (simp add: sample_store_def new_twin_store_def)
  moreover have "get_draft (dw_store (run_worker sample_service ?ps new_world)) ''t'' ''dft_1'' = Some ?d"
    by (simp add: r get_draft_def dm_get_def)
  ultimately show ?thesis
    using veto_stops_publishing [of sample_service ?ps ?qs "''t''" "''dft_1''" ?d]
    by (simp add: r sample_store_reads publish_calls_def)
qed

theorem shadow_stays_private_witness:
  "dw_log (snd (start_after_compile_opts sample_service
      (sample_twin\<lparr>tw_shadow_until := Some 10\<rparr>) (sample_period_ledger ''l'') ''done'' 7 True True
      ''1'' ''1'' (\<lambda>n. 8) new_world)) = []"
proof -
  have "is_in_shadow (sample_twin\<lparr>tw_shadow_until := Some 10\<rparr>) 7" by (simp add: is_in_shadow_def)
  then show ?thesis
    using shadow_stays_private [of "sample_twin\<lparr>tw_shadow_until := Some 10\<rparr>" 7 sample_service
        "sample_period_ledger ''l''" "''done''" True True "''1''" "''1''" "\<lambda>n. 8" new_world]
    by (simp add: new_world_def)
qed

lemma explicit_publish_idempotent_witness:
  "explicit_publish sample_service sample_twin ''t'' ''dft_1'' ''2'' (\<lambda>n. 11) sample_published_world
     = (Inr (sample_published, Some sample_record), sample_published_world)"
proof -
  have "worker_run_ok sample_service
      (sample_history @ [DPublish sample_twin ''t'' ''dft_1'' ''1'' (\<lambda>n. 9)]) new_world"
    by (simp add: worker_run_ok_append sample_history_ok sample_after_start fresh_publish_id_def)
      (simp add: sample_store_def new_twin_store_def)
  from explicit_publish_idempotent [OF this, of sample_published "Some sample_record"
      sample_published_world sample_twin "''2''" "\<lambda>n. 11"]
  show ?thesis by (simp add: sample_after_start sample_explicit_publish)
qed

text \<open>The deadline lies two hours after the compile at 7; the timeout arrives at 9.\<close>

lemma silence_ignores_deadline_witness:
  "\<exists>d' r w'. silence_timeout sample_service sample_twin ''t'' ''dft_1'' ''1'' (\<lambda>n. 9)
       \<lparr>dw_store = sample_store, dw_log = []\<rparr> = (Inr (d', Some r), w')
     \<and> dd_status d' = Published \<and> dd_veto_deadline d' = Some (7 + seconds 7200)"
proof -
  let ?w = "\<lparr>dw_store = sample_store, dw_log = []\<rparr>"
  have i: "world_inv ?w" using run_worker_inv [OF sample_history_ok] by (simp add: sample_after_start)
  have g: "get_draft (dw_store ?w) ''t'' ''dft_1'' = Some sample_pending"
    by (simp add: sample_store_reads)
  have f: "fresh_publish_id ''t'' ''1'' (dw_store ?w)"
    by (simp add: fresh_publish_id_def sample_store_def new_twin_store_def)
  have a: "\<forall>log ch txt. \<exists>p. dc_post (ds_client sample_service) log (ChatChannel ch txt) = Inr p"
    by (simp add: sample_service_def mock_client_def mock_response_def Let_def)
  have m: "ls_confidence_rollup (sample_period_ledger ''l'') = Medium"
    "dd_veto_deadline sample_pending = Some (7 + seconds 7200)"
    by (simp_all add: sample_period_ledger_def sample_pending_def)
  from silence_ignores_deadline [OF i g _ _ _ f a, of "sample_period_ledger ''l''" sample_twin "\<lambda>n. 9"] m
  show ?thesis by (auto simp: sample_store_reads)
qed

end
