(* ===== verification/Twin_Publish_Race.thy ===== *)
theory Twin_Publish_Race
  imports Twin_Delivery
begin

text \<open>
  Overlapping requests on one draft. \<open>twin-delivery\<close> runs under an asynchronous web server, so
  two explicit publishes, or a publish and a veto, of the same draft interleave at every
  \<open>await\<close>. Here \<open>explicit_publish\<close> (with \<open>try_publish_channel\<close>) and \<open>veto_draft\<close> are cut at
  their calls of the store and the chat client, one step each; a worker run alone is shown to be
  the operation of \<open>Twin_Delivery\<close>, and the step relation interleaves any number of workers.

  What survives interleaving is the publish record; what does not is the single chat post and the
  veto, for which two schedules are given.
\<close>

section \<open>The publish request, one await at a time\<close>

datatype publisher =
    PStart
  | PHaveDraft draft_delivery
  | PReturnExisting draft_delivery
  | PQueue draft_delivery
  | PTry draft_delivery
  | PPost draft_delivery
  | PFallback draft_delivery string string
  | PRecord draft_delivery publish_record
  | PRecordFallback draft_delivery publish_record
  | PLost draft_delivery
  | PSetExisting draft_delivery publish_record
  | PSetPublished draft_delivery "publish_record option"
  | PSetFailed draft_delivery twin_error
  | PDone "twin_error + draft_delivery \<times> publish_record option"

definition publish_channel :: "twin \<Rightarrow> string" where
  "publish_channel tw = (if tw_channel_id tw = [] then ''C_TEAM'' else tw_channel_id tw)"

text \<open>\<open>t\<close>, \<open>i\<close>: tenant and draft id of the request; \<open>now\<close>: the clock, constant here.\<close>

fun publisher_step ::
  "delivery_service \<Rightarrow> twin \<Rightarrow> string \<Rightarrow> string \<Rightarrow> string \<Rightarrow> instant \<Rightarrow> publisher \<Rightarrow> delivery_world
   \<Rightarrow> publisher \<times> delivery_world"
where
  "publisher_step sv tw t i pid now PStart w =
     (case get_draft (dw_store w) t i of
        None \<Rightarrow> (PDone (Inl (not_found_draft i)), w)
      | Some d \<Rightarrow> (PHaveDraft d, w))"
| "publisher_step sv tw t i pid now (PHaveDraft d) w =
     (case get_ledger (dw_store w) t (dd_ledger_id d) of
        None \<Rightarrow> (PDone (Inl (TNotFound ''ledger'')), w)
      | Some l \<Rightarrow>
          if dd_status d = Published then (PReturnExisting d, w)
          else if dd_status d = Vetoed
          then (PDone (Inl (TConflict (''vetoed '' @ em_dash @ '' never channel post''))), w)
          else if dd_status d \<noteq> PublishQueued
          then (case apply_delivery_event (dd_status d) EvExplicitPublish (ls_confidence_rollup l)
                       (tw_high_auto_publish tw) of
                  None \<Rightarrow> (PDone (Inl (TConflict (''cannot publish from status ''
                            @ status_debug (dd_status d)))), w)
                | Some st \<Rightarrow> (PQueue (set_status d st now), w))
          else (PTry d, w))"
| "publisher_step sv tw t i pid now (PReturnExisting d) w =
     (PDone (Inr (d, get_publish_by_ledger (dw_store w) t (dd_ledger_id d))), w)"
| "publisher_step sv tw t i pid now (PQueue d) w =
     (case update_draft d (dw_store w) of
        Inl e \<Rightarrow> (PDone (Inl e), w)
      | Inr s \<Rightarrow> (PTry d, w\<lparr>dw_store := s\<rparr>))"
| "publisher_step sv tw t i pid now (PTry d) w =
     (case get_publish_by_ledger (dw_store w) (dd_tenant_id d) (dd_ledger_id d) of
        Some ex \<Rightarrow> (PSetExisting d ex, w)
      | None \<Rightarrow> (PPost d, w))"
| "publisher_step sv tw t i pid now (PPost d) w =
     (let channel = publish_channel tw;
          (r, w1) = post_chat (ds_client sv) (draft_ledger_key d) True
                      (ChatChannel channel (publish_body d)) w
      in case r of
           Inr p \<Rightarrow> (PRecord d (make_publish_record (ds_sha sv) d pid channel (po_ts p) now), w1)
         | Inl e \<Rightarrow>
             if channel_unavailable (twin_error_to_string e) channel
             then (PFallback d channel (twin_error_to_string e), w1)
             else (PSetFailed d e, w1))"
| "publisher_step sv tw t i pid now (PFallback d channel msg) w =
     (let user = resolve_chat_user_id (dw_store w) tw (dc_adapter_kind (ds_client sv));
          (r, w1) = post_chat (ds_client sv) (draft_ledger_key d) True
                      (ChatDm user (fallback_text channel (publish_body d))) w
      in case r of
           Inr dm \<Rightarrow>
             (PRecordFallback d (make_publish_record (ds_sha sv) d pid
                (''dm_fallback:'' @ po_channel dm) (po_ts dm) now), w1)
         | Inl e2 \<Rightarrow>
             (PSetFailed d (TEgress (''channel post failed ('' @ msg @ ''); DM fallback also failed (''
                  @ twin_error_to_string e2 @ ''). Invite bot to channel '' @ channel
                  @ '' or check vault token.'')), w1))"
| "publisher_step sv tw t i pid now (PRecord d r) w =
     (let (s, inserted) = put_publish_if_absent r (dw_store w); w1 = w\<lparr>dw_store := s\<rparr>
      in if inserted then (PSetPublished d (Some r), w1) else (PLost d, w1))"
| "publisher_step sv tw t i pid now (PRecordFallback d r) w =
     (PSetPublished d (Some r), w\<lparr>dw_store := fst (put_publish_if_absent r (dw_store w))\<rparr>)"
| "publisher_step sv tw t i pid now (PLost d) w =
     (PSetPublished d (get_publish_by_ledger (dw_store w) (dd_tenant_id d) (dd_ledger_id d)), w)"
| "publisher_step sv tw t i pid now (PSetExisting d r) w =
     (let d' = set_status d Published now in
      (PDone (Inr (d', Some r)),
       w\<lparr>dw_store := keep_on_error (dw_store w) (update_draft d' (dw_store w))\<rparr>))"
| "publisher_step sv tw t i pid now (PSetPublished d v) w =
     (let d' = set_status d Published now in
      case update_draft d' (dw_store w) of
        Inl e \<Rightarrow> (PDone (Inl e), w)
      | Inr s \<Rightarrow> (PDone (Inr (d', v)), w\<lparr>dw_store := s\<rparr>))"
| "publisher_step sv tw t i pid now (PSetFailed d e) w =
     (let d' = set_status d PublishFailed now in
      case update_draft d' (dw_store w) of
        Inl e' \<Rightarrow> (PDone (Inl e'), w)
      | Inr s \<Rightarrow> (PDone (Inl e), w\<lparr>dw_store := s\<rparr>))"
| "publisher_step sv tw t i pid now (PDone r) w = (PDone r, w)"

section \<open>The veto request\<close>

datatype vetoer =
    VStart
  | VHaveDraft draft_delivery
  | VUpdate draft_delivery
  | VDone "twin_error + draft_delivery"

fun vetoer_step ::
  "string \<Rightarrow> string \<Rightarrow> instant \<Rightarrow> vetoer \<Rightarrow> delivery_world \<Rightarrow> vetoer \<times> delivery_world"
where
  "vetoer_step t i now VStart w =
     (case get_draft (dw_store w) t i of
        None \<Rightarrow> (VDone (Inl (not_found_draft i)), w)
      | Some d \<Rightarrow> (VHaveDraft d, w))"
| "vetoer_step t i now (VHaveDraft d) w =
     (case get_ledger (dw_store w) t (dd_ledger_id d) of
        None \<Rightarrow> (VDone (Inl (TNotFound ''ledger'')), w)
      | Some l \<Rightarrow>
          (case apply_delivery_event (dd_status d) EvVeto (ls_confidence_rollup l) False of
             None \<Rightarrow> (VDone (Inl (TConflict (''cannot veto from '' @ status_debug (dd_status d)))), w)
           | Some st \<Rightarrow> (VUpdate (set_status d st now), w)))"
| "vetoer_step t i now (VUpdate d) w =
     (case update_draft d (dw_store w) of
        Inl e \<Rightarrow> (VDone (Inl e), w)
      | Inr s \<Rightarrow> (VDone (Inr d), w\<lparr>dw_store := s\<rparr>))"
| "vetoer_step t i now (VDone r) w = (VDone r, w)"

section \<open>A worker alone is the operation\<close>

fun run_publisher ::
  "nat \<Rightarrow> delivery_service \<Rightarrow> twin \<Rightarrow> string \<Rightarrow> string \<Rightarrow> string \<Rightarrow> instant \<Rightarrow> publisher \<Rightarrow> delivery_world
   \<Rightarrow> publisher \<times> delivery_world"
where
  "run_publisher 0 sv tw t i pid now p w = (p, w)"
| "run_publisher (Suc n) sv tw t i pid now p w =
     (case publisher_step sv tw t i pid now p w of (p', w') \<Rightarrow> run_publisher n sv tw t i pid now p' w')"

lemma run_publisher_done [simp]: "run_publisher n sv tw t i pid now (PDone r) w = (PDone r, w)"
  by (induction n) simp_all

abbreviation outcome ::
  "(twin_error + publish_record option) \<times> draft_delivery \<times> delivery_world \<Rightarrow> publisher \<times> delivery_world"
where
  "outcome x \<equiv> (case drop_draft x of (r, w') \<Rightarrow> (PDone r, w'))"

lemma finish_step:
  "publisher_step sv tw t i pid now (PSetPublished d v) w = outcome (finish_draft d Published now (Inr v) w)"
  "publisher_step sv tw t i pid now (PSetFailed d e) w = outcome (finish_draft d PublishFailed now (Inl e) w)"
  by (simp_all add: finish_draft_def Let_def drop_draft_def split: sum.split)

lemma run_publisher_finish:
  "run_publisher (Suc n) sv tw t i pid now (PSetPublished d v) w
     = outcome (finish_draft d Published now (Inr v) w)"
  "run_publisher (Suc n) sv tw t i pid now (PSetFailed d e) w
     = outcome (finish_draft d PublishFailed now (Inl e) w)"
  unfolding run_publisher.simps finish_step by (simp_all split: prod.split)

lemma run_publisher_lost:
  "run_publisher (Suc (Suc n)) sv tw t i pid now (PLost d) w
     = outcome (finish_draft d Published now
         (Inr (get_publish_by_ledger (dw_store w) (dd_tenant_id d) (dd_ledger_id d))) w)"
  by (subst run_publisher.simps) (simp add: run_publisher_finish del: run_publisher.simps(2))

lemma run_publisher_posted:
  "run_publisher (Suc (Suc (Suc n))) sv tw t i pid now
     (PRecord d (make_publish_record (ds_sha sv) d pid ch ts now)) w
   = outcome (publish_posted sv pid (\<lambda>_. now) d ch ts w)"
  by (subst run_publisher.simps)
    (simp add: publish_posted_def Let_def case_prod_beta run_publisher_finish run_publisher_lost
      del: run_publisher.simps(2))

lemma run_publisher_fallback:
  "run_publisher (Suc (Suc (Suc n))) sv tw t i pid now (PFallback d ch msg) w
   = outcome (publish_fallback sv tw pid (\<lambda>_. now) d ch msg w)"
proof -
  obtain r w1 where c: "post_chat (ds_client sv) (draft_ledger_key d) True
      (ChatDm (resolve_chat_user_id (dw_store w) tw (dc_adapter_kind (ds_client sv)))
        (fallback_text ch (publish_body d))) w = (r, w1)" by fastforce
  show ?thesis
  proof (cases r)
    case (Inl e)
    then show ?thesis
      by (subst run_publisher.simps)
        (simp add: c publish_fallback_def Let_def run_publisher_finish del: run_publisher.simps(2))
  next
    case (Inr dm)
    then show ?thesis
      by (subst run_publisher.simps, simp add: c del: run_publisher.simps(2), subst run_publisher.simps)
        (simp add: c publish_fallback_def Let_def run_publisher_finish del: run_publisher.simps(2))
  qed
qed

lemma run_publisher_try:
  assumes q: "dd_status d = PublishQueued"
  shows "run_publisher (Suc (Suc (Suc (Suc (Suc n))))) sv tw t i pid now (PTry d) w
    = outcome (try_publish_channel sv tw pid (\<lambda>_. now) d w)"
proof (cases "get_publish_by_ledger (dw_store w) (dd_tenant_id d) (dd_ledger_id d)")
  case (Some ex)
  then show ?thesis
    by (simp add: try_publish_channel_def q Let_def drop_draft_def)
next
  case None
  obtain r w1 where c: "post_chat (ds_client sv) (draft_ledger_key d) True
      (ChatChannel (publish_channel tw) (publish_body d)) w = (r, w1)" by fastforce
  have eq: "try_publish_channel sv tw pid (\<lambda>_. now) d w =
    (case r of
       Inr p \<Rightarrow> publish_posted sv pid (\<lambda>_. now) d (publish_channel tw) (po_ts p) w1
     | Inl e \<Rightarrow>
         if channel_unavailable (twin_error_to_string e) (publish_channel tw)
         then publish_fallback sv tw pid (\<lambda>_. now) d (publish_channel tw) (twin_error_to_string e) w1
         else finish_draft d PublishFailed now (Inl e) w1)"
    using c by (simp add: try_publish_channel_def q None Let_def flip: publish_channel_def)
  have st: "run_publisher (Suc (Suc (Suc (Suc (Suc n))))) sv tw t i pid now (PTry d) w
    = run_publisher (Suc (Suc (Suc (Suc n)))) sv tw t i pid now (PPost d) w"
    by (subst run_publisher.simps) (simp add: None del: run_publisher.simps(2))
  show ?thesis
    unfolding st eq
    by (subst run_publisher.simps)
      (simp add: c run_publisher_posted run_publisher_fallback run_publisher_finish
        del: run_publisher.simps(2) split: sum.split)
qed

text \<open>
  The steps are the operation: a publish request that no other request interrupts ends after
  at most eight steps with the result and the world of \<open>explicit_publish\<close>.
\<close>

lemma publisher_alone_is_explicit_publish:
  "run_publisher 8 sv tw t i pid now PStart w
     = (case explicit_publish sv tw t i pid (\<lambda>_. now) w of (r, w') \<Rightarrow> (PDone r, w'))"
proof (cases "get_draft (dw_store w) t i")
  case None
  then show ?thesis
    by (simp add: explicit_publish_def with_draft_and_ledger_def eval_nat_numeral)
next
  case (Some d)
  show ?thesis
  proof (cases "get_ledger (dw_store w) t (dd_ledger_id d)")
    case None
    with Some show ?thesis
      by (simp add: explicit_publish_def with_draft_and_ledger_def eval_nat_numeral)
  next
    case l: (Some l)
    have six: "run_publisher 6 sv tw t i pid now (PTry d') w'
        = outcome (try_publish_channel sv tw pid (\<lambda>_. now) d' w')"
      and five: "run_publisher 5 sv tw t i pid now (PTry d') w'
        = outcome (try_publish_channel sv tw pid (\<lambda>_. now) d' w')"
      if "dd_status d' = PublishQueued" for d' w'
      using run_publisher_try [OF that, of 1] run_publisher_try [OF that, of 0]
      by (simp_all add: eval_nat_numeral del: run_publisher.simps(2))
    have start: "run_publisher 8 sv tw t i pid now PStart w = run_publisher 6 sv tw t i pid now p w"
      if "publisher_step sv tw t i pid now (PHaveDraft d) w = (p, w)" for p
      using that Some by (simp add: eval_nat_numeral)
    have queue: "run_publisher 6 sv tw t i pid now (PQueue d') w
        = (case update_draft d' (dw_store w) of Inl e \<Rightarrow> (PDone (Inl e), w)
           | Inr s \<Rightarrow> run_publisher 5 sv tw t i pid now (PTry d') (w\<lparr>dw_store := s\<rparr>))" for d'
      by (simp add: eval_nat_numeral split: sum.split)
    have ret: "run_publisher 6 sv tw t i pid now (PReturnExisting d) w
        = (PDone (Inr (d, get_publish_by_ledger (dw_store w) t (dd_ledger_id d))), w)"
      by (simp add: eval_nat_numeral)
    have "apply_delivery_event (dd_status d) EvExplicitPublish c h = Some st \<Longrightarrow> st = PublishQueued"
      for c h st by (cases "dd_status d") auto
    then show ?thesis
      by (cases "dd_status d = PublishQueued"; cases "dd_status d = Published"; cases "dd_status d = Vetoed";
          cases "apply_delivery_event (dd_status d) EvExplicitPublish (ls_confidence_rollup l)
            (tw_high_auto_publish tw)")
        (simp_all add: explicit_publish_def with_draft_and_ledger_def Some l start queue ret six five
          Let_def split: sum.split)
  qed
qed

section \<open>Interleaving\<close>

datatype worker = WPublish twin string publisher | WVeto vetoer

fun worker_step ::
  "delivery_service \<Rightarrow> string \<Rightarrow> string \<Rightarrow> instant \<Rightarrow> worker \<Rightarrow> delivery_world \<Rightarrow> worker \<times> delivery_world"
where
  "worker_step sv t i now (WPublish tw pid p) w =
     (case publisher_step sv tw t i pid now p w of (p', w') \<Rightarrow> (WPublish tw pid p', w'))"
| "worker_step sv t i now (WVeto v) w =
     (case vetoer_step t i now v w of (v', w') \<Rightarrow> (WVeto v', w'))"

inductive race ::
  "delivery_service \<Rightarrow> string \<Rightarrow> string \<Rightarrow> instant \<Rightarrow> worker list \<times> delivery_world
   \<Rightarrow> worker list \<times> delivery_world \<Rightarrow> bool"
  for sv t i now
where
  race_step:
    "j < length ws \<Longrightarrow> worker_step sv t i now (ws ! j) w = (x, w') \<Longrightarrow>
     race sv t i now (ws, w) (ws[j := x], w')"

inductive_cases raceE: "race sv t i now (ws, w) st"

text \<open>A schedule names the worker of each step; running one is a path of the relation.\<close>

fun run_schedule ::
  "delivery_service \<Rightarrow> string \<Rightarrow> string \<Rightarrow> instant \<Rightarrow> nat list \<Rightarrow> worker list \<times> delivery_world
   \<Rightarrow> worker list \<times> delivery_world"
where
  "run_schedule sv t i now [] st = st"
| "run_schedule sv t i now (j # js) (ws, w) =
     (if j < length ws
      then (case worker_step sv t i now (ws ! j) w of (x, w') \<Rightarrow>
              run_schedule sv t i now js (ws[j := x], w'))
      else (ws, w))"

lemma run_schedule_race: "(race sv t i now)\<^sup>*\<^sup>* st (run_schedule sv t i now js st)"
proof (induction js arbitrary: st)
  case (Cons j js)
  obtain ws w where st: "st = (ws, w)" by (cases st)
  show ?case
  proof (cases "j < length ws")
    case True
    obtain x w' where x: "worker_step sv t i now (ws ! j) w = (x, w')" by fastforce
    have "race sv t i now st (ws[j := x], w')" using race_step [OF True x] st by simp
    then show ?thesis using Cons.IH [of "(ws[j := x], w')"] True x st
      by (simp add: converse_rtranclp_into_rtranclp)
  qed (simp add: st)
qed simp

section \<open>What survives interleaving\<close>

definition same_draft :: "string \<Rightarrow> string \<Rightarrow> string \<Rightarrow> draft_delivery \<Rightarrow> bool" where
  "same_draft t i l d \<longleftrightarrow> draft_key d = (t, i) \<and> dd_ledger_id d = l"

definition race_store_ok :: "string \<Rightarrow> string \<Rightarrow> string \<Rightarrow> twin_store \<Rightarrow> bool" where
  "race_store_ok t i l s \<longleftrightarrow> twin_store_inv s
     \<and> (\<forall>d. get_draft s t i = Some d \<longrightarrow>
          same_draft t i l d \<and> (dd_status d = Published \<longrightarrow> ledger_published s (t, l)))"

fun publisher_ok :: "string \<Rightarrow> string \<Rightarrow> string \<Rightarrow> string \<Rightarrow> twin_store \<Rightarrow> publisher \<Rightarrow> bool" where
  "publisher_ok t i l pid s PStart \<longleftrightarrow> fresh_publish_id t pid s"
| "publisher_ok t i l pid s (PHaveDraft d) \<longleftrightarrow> same_draft t i l d \<and> fresh_publish_id t pid s
     \<and> (dd_status d = Published \<longrightarrow> ledger_published s (t, l))"
| "publisher_ok t i l pid s (PReturnExisting d) \<longleftrightarrow> same_draft t i l d \<and> ledger_published s (t, l)"
| "publisher_ok t i l pid s (PQueue d) \<longleftrightarrow> same_draft t i l d \<and> fresh_publish_id t pid s
     \<and> dd_status d = PublishQueued"
| "publisher_ok t i l pid s (PTry d) \<longleftrightarrow> same_draft t i l d \<and> fresh_publish_id t pid s"
| "publisher_ok t i l pid s (PPost d) \<longleftrightarrow> same_draft t i l d \<and> fresh_publish_id t pid s"
| "publisher_ok t i l pid s (PRecord d r) \<longleftrightarrow> same_draft t i l d \<and> fresh_publish_id t pid s
     \<and> publish_ledger_key r = (t, l) \<and> pr_publish_id r = ''pub_'' @ pid"
| "publisher_ok t i l pid s (PLost d) \<longleftrightarrow> same_draft t i l d \<and> ledger_published s (t, l)"
| "publisher_ok t i l pid s (PSetExisting d r) \<longleftrightarrow> same_draft t i l d \<and> publish_lookup s (t, l) = Some r"
| "publisher_ok t i l pid s (PSetPublished d v) \<longleftrightarrow>
     same_draft t i l d \<and> v \<noteq> None \<and> publish_lookup s (t, l) = v"
| "publisher_ok t i l pid s (PDone (Inr (d, v))) \<longleftrightarrow> v \<noteq> None \<and> publish_lookup s (t, l) = v"
| "publisher_ok t i l pid s (PDone (Inl e)) \<longleftrightarrow> True"
| "publisher_ok t i l pid s _ \<longleftrightarrow> False"

fun vetoer_ok :: "string \<Rightarrow> string \<Rightarrow> string \<Rightarrow> vetoer \<Rightarrow> bool" where
  "vetoer_ok t i l (VHaveDraft d) \<longleftrightarrow> same_draft t i l d"
| "vetoer_ok t i l (VUpdate d) \<longleftrightarrow> same_draft t i l d \<and> dd_status d = Vetoed"
| "vetoer_ok t i l _ \<longleftrightarrow> True"

text \<open>What one step may do to the store as the other workers see it.\<close>

definition race_frame :: "string \<Rightarrow> string \<Rightarrow> string set \<Rightarrow> twin_store \<Rightarrow> twin_store \<Rightarrow> bool" where
  "race_frame t l pids s s' \<longleftrightarrow>
     (\<forall>r. publish_lookup s (t, l) = Some r \<longrightarrow> publish_lookup s' (t, l) = Some r)
     \<and> (\<forall>pid. pid \<notin> pids \<longrightarrow> fresh_publish_id t pid s \<longrightarrow> fresh_publish_id t pid s')"

lemma race_frame_refl [simp]: "race_frame t l pids s s"
  by (simp add: race_frame_def)

lemma publisher_ok_frame:
  "publisher_ok t i l pid s p \<Longrightarrow> race_frame t l pids s s' \<Longrightarrow> pid \<notin> pids \<Longrightarrow> publisher_ok t i l pid s' p"
  by (induction t i l pid s p rule: publisher_ok.induct) (auto simp: race_frame_def ledger_published_def)

lemma race_update:
  assumes s: "race_store_ok t i l s" and d: "same_draft t i l d"
    and p: "dd_status d = Published \<Longrightarrow> ledger_published s (t, l)"
    and u: "update_draft d s = Inr s'"
  shows "race_store_ok t i l s'" "race_frame t l pids s s'" "publish_lookup s' = publish_lookup s"
proof -
  note fr = draft_write_frame(2) [OF u]
  have "\<not> draft_moves_ledger d s"
    using s d by (auto simp: draft_moves_ledger_def race_store_ok_def same_draft_def get_draft_def)
  then have "twin_store_inv s'" using inv_update_draft [OF _ u] s by (simp add: race_store_ok_def)
  with s d p fr show "race_store_ok t i l s'"
    by (auto simp: race_store_ok_def get_draft_def same_draft_def ledger_published_def)
  have "ts_publishes s' = ts_publishes s" using u by (auto simp: update_draft_def split: if_splits)
  with fr show "race_frame t l pids s s'" "publish_lookup s' = publish_lookup s"
    by (simp_all add: race_frame_def fresh_publish_id_def)
qed

lemma race_put_publish:
  assumes s: "race_store_ok t i l s" and f: "fresh_publish_id t pid s"
    and r: "publish_ledger_key r = (t, l)" "pr_publish_id r = ''pub_'' @ pid"
    and e: "put_publish_if_absent r s = (s', ins)"
  shows "race_store_ok t i l s'" "race_frame t l {pid} s s'"
    "ledger_published s' (t, l)" "ins \<Longrightarrow> publish_lookup s' (t, l) = Some r"
proof -
  have i: "twin_store_inv s" using s by (simp add: race_store_ok_def)
  have u: "publish_id_unused r s" using f r by (simp add: publish_id_unused_def fresh_publish_id_def)
  have s': "s' = fst (put_publish_if_absent r s)" and ins: "ins = snd (put_publish_if_absent r s)"
    using e by simp_all
  have lk: "publish_lookup s' (t, l) = (case publish_lookup s (t, l) of None \<Rightarrow> Some r | Some x \<Rightarrow> Some x)"
    using publish_once.get_after_put [OF i u] r by (simp add: s')
  have fr: "fresh_publish_id t q s \<Longrightarrow> q \<noteq> pid \<Longrightarrow> fresh_publish_id t q s'" for q
    using r by (auto simp: s' fresh_publish_id_def put_publish_if_absent_def)
  show pub: "ledger_published s' (t, l)" using lk by (simp add: ledger_published_def split: option.splits)
  show "race_frame t l {pid} s s'" using lk fr by (auto simp: race_frame_def)
  show "publish_lookup s' (t, l) = Some r" if ins
    using publish_once.put_result [OF i u] ins that lk r by simp
  have "twin_store_inv s'" using publish_once.put_invar [OF i u] by (simp add: s')
  with s pub show "race_store_ok t i l s'"
    by (auto simp: race_store_ok_def get_draft_def s')
qed

definition accepts_channel_posts :: "delivery_client \<Rightarrow> bool" where
  "accepts_channel_posts c \<longleftrightarrow> (\<forall>log ch txt. \<exists>p. dc_post c log (ChatChannel ch txt) = Inr p)"

definition step_keeps ::
  "string \<Rightarrow> string \<Rightarrow> string \<Rightarrow> string set \<Rightarrow> twin_store \<Rightarrow> twin_store \<Rightarrow> bool" where
  "step_keeps t i l pids s s' \<longleftrightarrow> race_store_ok t i l s' \<and> race_frame t l pids s s'"

lemma set_status_same [simp]: "same_draft t i l (set_status d st n) \<longleftrightarrow> same_draft t i l d"
  by (simp add: same_draft_def)

lemma publisher_step_ok:
  assumes a: "accepts_channel_posts (ds_client sv)" and s: "race_store_ok t i l (dw_store w)"
    and p: "publisher_ok t i l pid (dw_store w) p"
    and e: "publisher_step sv tw t i pid now p w = (p', w')"
  shows "publisher_ok t i l pid (dw_store w') p' \<and> step_keeps t i l {pid} (dw_store w) (dw_store w')"
proof -
  have upd: "race_store_ok t i l s' \<and> race_frame t l {pid} (dw_store w) s' \<and> publish_lookup s' = publish_lookup (dw_store w)
      \<and> (fresh_publish_id t pid (dw_store w) \<longrightarrow> fresh_publish_id t pid s')"
    if "same_draft t i l d" "dd_status d = Published \<Longrightarrow> ledger_published (dw_store w) (t, l)"
      "update_draft d (dw_store w) = Inr s'" for d s'
    using race_update [OF s that] by (auto simp: race_frame_def)
  show ?thesis
  proof (cases p)
    case PStart
    with p e s show ?thesis by (auto simp: step_keeps_def race_store_ok_def split: option.splits)
  next
    case (PHaveDraft d)
    have "apply_delivery_event (dd_status d) EvExplicitPublish c h = Some st \<Longrightarrow> st = PublishQueued"
      for c h st by (cases "dd_status d") auto
    with PHaveDraft p e s show ?thesis
      by (auto simp: step_keeps_def split: option.splits if_splits)
  next
    case (PReturnExisting d)
    with p e s show ?thesis by (auto simp: step_keeps_def same_draft_def ledger_published_def publish_lookup_def)
  next
    case (PQueue d)
    show ?thesis
    proof (cases "update_draft d (dw_store w)")
      case (Inl x)
      with PQueue p e s show ?thesis by (auto simp: step_keeps_def)
    next
      case (Inr s')
      with upd [OF _ _ Inr] PQueue p e show ?thesis by (auto simp: step_keeps_def)
    qed
  next
    case (PTry d)
    with p e s show ?thesis
      by (auto simp: step_keeps_def same_draft_def publish_lookup_def split: option.splits)
  next
    case (PPost d)
    with p e s a show ?thesis
      by (auto simp: step_keeps_def same_draft_def accepts_channel_posts_def post_chat_def Let_def
        fresh_publish_id_def split: sum.splits prod.splits if_splits) (metis sum.distinct(1))+
  next
    case (PRecord d r)
    obtain s' ins where pt: "put_publish_if_absent r (dw_store w) = (s', ins)" by fastforce
    from PRecord p have "fresh_publish_id t pid (dw_store w)" "publish_ledger_key r = (t, l)"
      "pr_publish_id r = ''pub_'' @ pid" by simp_all
    note rp = race_put_publish [OF s this pt]
    from PRecord p e pt rp show ?thesis by (cases ins) (auto simp: step_keeps_def)
  next
    case (PLost d)
    with p e s show ?thesis by (auto simp: step_keeps_def same_draft_def ledger_published_def publish_lookup_def)
  next
    case (PSetExisting d r)
    have k: "same_draft t i l (set_status d Published now)" "ledger_published (dw_store w) (t, l)"
      using PSetExisting p by (auto simp: ledger_published_def)
    show ?thesis
    proof (cases "update_draft (set_status d Published now) (dw_store w)")
      case (Inl x)
      with PSetExisting p e s show ?thesis by (auto simp: step_keeps_def keep_on_error_def Let_def)
    next
      case (Inr s')
      with upd [OF k(1) k(2) Inr] PSetExisting p e show ?thesis
        by (auto simp: step_keeps_def keep_on_error_def Let_def)
    qed
  next
    case (PSetPublished d v)
    have k: "same_draft t i l (set_status d Published now)" "ledger_published (dw_store w) (t, l)"
      using PSetPublished p by (auto simp: ledger_published_def)
    show ?thesis
    proof (cases "update_draft (set_status d Published now) (dw_store w)")
      case (Inl x)
      with PSetPublished p e s show ?thesis by (auto simp: step_keeps_def Let_def)
    next
      case (Inr s')
      with upd [OF k(1) k(2) Inr] PSetPublished p e show ?thesis
        by (auto simp: step_keeps_def Let_def)
    qed
  next
    case (PDone r)
    with p e s show ?thesis by (auto simp: step_keeps_def)
  qed (use p in auto)
qed

lemma vetoer_step_ok:
  assumes s: "race_store_ok t i l (dw_store w)" and v: "vetoer_ok t i l v"
    and e: "vetoer_step t i now v w = (v', w')"
  shows "vetoer_ok t i l v' \<and> step_keeps t i l {} (dw_store w) (dw_store w')"
proof (cases v)
  case (VUpdate d)
  with v have d: "same_draft t i l d" "dd_status d = Vetoed" by auto
  show ?thesis
  proof (cases "update_draft d (dw_store w)")
    case (Inl x)
    with VUpdate e s show ?thesis by (auto simp: step_keeps_def)
  next
    case (Inr s')
    with race_update(1,2) [OF s d(1) _ Inr] d VUpdate e show ?thesis
      by (auto simp: step_keeps_def)
  qed
next
  case (VHaveDraft d)
  with v e s show ?thesis
    by (auto simp: step_keeps_def veto_gate_cases dest: event_open split: option.splits)
      (cases "dd_status d"; simp)+
qed (use s e v in \<open>auto simp: step_keeps_def race_store_ok_def split: option.splits\<close>)

fun worker_ok :: "string \<Rightarrow> string \<Rightarrow> string \<Rightarrow> twin_store \<Rightarrow> worker \<Rightarrow> bool" where
  "worker_ok t i l s (WPublish tw pid p) \<longleftrightarrow> publisher_ok t i l pid s p"
| "worker_ok t i l s (WVeto v) \<longleftrightarrow> vetoer_ok t i l v"

fun worker_pid :: "worker \<Rightarrow> string option" where
  "worker_pid (WPublish tw pid p) = Some pid"
| "worker_pid (WVeto v) = None"

definition distinct_pids :: "worker list \<Rightarrow> bool" where
  "distinct_pids ws \<longleftrightarrow>
     (\<forall>j < length ws. \<forall>k < length ws. j \<noteq> k \<longrightarrow> worker_pid (ws ! j) \<noteq> None \<longrightarrow>
        worker_pid (ws ! j) \<noteq> worker_pid (ws ! k))"

definition race_inv :: "string \<Rightarrow> string \<Rightarrow> string \<Rightarrow> worker list \<times> delivery_world \<Rightarrow> bool" where
  "race_inv t i l st \<longleftrightarrow>
     race_store_ok t i l (dw_store (snd st)) \<and> distinct_pids (fst st)
     \<and> (\<forall>j < length (fst st). worker_ok t i l (dw_store (snd st)) (fst st ! j))"

lemma worker_step_ok:
  assumes "accepts_channel_posts (ds_client sv)" "race_store_ok t i l (dw_store w)"
    "worker_ok t i l (dw_store w) x" "worker_step sv t i now x w = (x', w')"
  shows "worker_ok t i l (dw_store w') x' \<and> worker_pid x' = worker_pid x
    \<and> step_keeps t i l (set_option (worker_pid x)) (dw_store w) (dw_store w')"
proof (cases x)
  case (WPublish tw pid p)
  with assms publisher_step_ok [OF assms(1,2), of pid p tw now] show ?thesis
    by (auto split: prod.splits)
next
  case (WVeto v)
  with assms vetoer_step_ok [OF assms(2), of v now] show ?thesis by (auto split: prod.splits)
qed

lemma worker_ok_frame:
  "worker_ok t i l s x \<Longrightarrow> race_frame t l pids s s' \<Longrightarrow> set_option (worker_pid x) \<inter> pids = {} \<Longrightarrow>
   worker_ok t i l s' x"
  by (cases x) (auto intro: publisher_ok_frame)

lemma race_inv_step:
  assumes a: "accepts_channel_posts (ds_client sv)" and inv: "race_inv t i l st"
    and r: "race sv t i now st st'"
  shows "race_inv t i l st' \<and> (\<exists>pids. race_frame t l pids (dw_store (snd st)) (dw_store (snd st')))"
proof -
  from r obtain ws w j x w' where st: "st = (ws, w)" and j: "j < length ws"
    and x: "worker_step sv t i now (ws ! j) w = (x, w')" and st': "st' = (ws[j := x], w')"
    by (cases rule: race.cases) auto
  from inv have so: "race_store_ok t i l (dw_store w)" and d: "distinct_pids ws"
    and ok: "\<And>k. k < length ws \<Longrightarrow> worker_ok t i l (dw_store w) (ws ! k)"
    by (auto simp: race_inv_def st)
  from worker_step_ok [OF a so ok [OF j] x]
  have xo: "worker_ok t i l (dw_store w') x" and px: "worker_pid x = worker_pid (ws ! j)"
    and so': "race_store_ok t i l (dw_store w')"
    and fr: "race_frame t l (set_option (worker_pid (ws ! j))) (dw_store w) (dw_store w')"
    by (auto simp: step_keeps_def)
  have "worker_ok t i l (dw_store w') (ws ! k)" if "k < length ws" "k \<noteq> j" for k
  proof (rule worker_ok_frame [OF ok [OF that(1)] fr])
    show "set_option (worker_pid (ws ! k)) \<inter> set_option (worker_pid (ws ! j)) = {}"
      using d that j by (force simp: distinct_pids_def)
  qed
  moreover have "distinct_pids (ws[j := x])"
    using d px j unfolding distinct_pids_def by (auto simp: nth_list_update)
  ultimately show ?thesis
    using xo so' fr by (auto simp: race_inv_def st st' nth_list_update [OF j])
qed

lemma race_inv_steps:
  assumes "accepts_channel_posts (ds_client sv)" "(race sv t i now)\<^sup>*\<^sup>* st st'" "race_inv t i l st"
  shows "race_inv t i l st'
    \<and> (\<forall>r. publish_lookup (dw_store (snd st)) (t, l) = Some r \<longrightarrow>
         publish_lookup (dw_store (snd st')) (t, l) = Some r)"
  using assms(2)
proof (induction rule: rtranclp_induct)
  case base
  then show ?case using assms(3) by simp
next
  case (step y z)
  then have "race_inv t i l y" by simp
  from race_inv_step [OF assms(1) this step(2)] step(3) show ?case by (auto simp: race_frame_def)
qed

definition starting :: "worker \<Rightarrow> bool" where
  "starting x \<longleftrightarrow> (case x of WPublish tw pid p \<Rightarrow> p = PStart | WVeto v \<Rightarrow> v = VStart)"

lemma race_inv_start:
  assumes "world_inv w" "\<And>d. get_draft (dw_store w) t i = Some d \<Longrightarrow> dd_ledger_id d = l"
    "\<forall>x \<in> set ws. starting x" "distinct_pids ws"
    "\<forall>x \<in> set ws. \<forall>pid \<in> set_option (worker_pid x). fresh_publish_id t pid (dw_store w)"
  shows "race_inv t i l (ws, w)"
proof -
  have "worker_ok t i l (dw_store w) x" if "x \<in> set ws" for x
    using assms(3,5) that by (cases x) (auto simp: starting_def)
  moreover have "race_store_ok t i l (dw_store w)"
    using assms(2) world_inv_store [OF assms(1)] world_inv_published [OF assms(1)]
    by (fastforce simp: race_store_ok_def same_draft_def get_draft_def twin_store_inv_def
      dest: dm_keyed_getD)
  ultimately show ?thesis using assms(4) by (simp add: race_inv_def)
qed


section \<open>What does not survive interleaving\<close>

definition race_world :: delivery_world where
  "race_world = \<lparr>dw_store = sample_store, dw_log = []\<rparr>"

definition two_publishers :: "worker list" where
  "two_publishers = [WPublish sample_twin ''1'' PStart, WPublish sample_twin ''2'' PStart]"

definition publisher_and_vetoer :: "worker list" where
  "publisher_and_vetoer = [WPublish sample_twin ''1'' PStart, WVeto VStart]"

abbreviation sample_schedule :: "nat list \<Rightarrow> worker list \<Rightarrow> worker list \<times> delivery_world" where
  "sample_schedule js ws \<equiv> run_schedule sample_service ''t'' ''dft_1'' 9 js (ws, race_world)"

lemmas race_eval = race_world_def sample_store_def sample_store_defs sample_pending_def
  get_draft_def get_ledger_def sample_publish_defs sample_service_def sample_twin_def
  publish_channel_def

lemma sample_world_inv: "world_inv race_world"
  using run_worker_inv [OF sample_history_ok] by (simp add: sample_after_start race_world_def)

lemma two_publishers_run:
  "length (published_posts (''t'', ''l'') (snd (sample_schedule [0, 0, 0, 0, 1, 1, 1, 0, 1, 0, 0, 1, 1, 1] two_publishers))) = 2
   \<and> (\<exists>d1 d2 r. fst (sample_schedule [0, 0, 0, 0, 1, 1, 1, 0, 1, 0, 0, 1, 1, 1] two_publishers) =
        [WPublish sample_twin ''1'' (PDone (Inr (d1, Some r))), WPublish sample_twin ''2'' (PDone (Inr (d2, Some r)))])"
  by (simp add: two_publishers_def race_eval published_posts_def succeeded_def)


text \<open>
  A veto that overlaps a publish can be lost. There is a schedule in which the veto request
  has returned success and the stored draft is vetoed, and after which the publish request, which
  had read the draft before, overwrites the status, posts to the channel and ends with the draft
  published.
\<close>

lemma interleaved_veto_is_lost:
  "\<exists>ws w ws' w' d.
     (race sample_service ''t'' ''dft_1'' 9)\<^sup>*\<^sup>* (publisher_and_vetoer, race_world) (ws, w)
     \<and> WVeto (VDone (Inr d)) \<in> set ws \<and> get_draft (dw_store w) ''t'' ''dft_1'' = Some d
     \<and> dd_status d = Vetoed \<and> published_posts (''t'', ''l'') w = []
     \<and> (race sample_service ''t'' ''dft_1'' 9)\<^sup>*\<^sup>* (ws, w) (ws', w')
     \<and> map_option dd_status (get_draft (dw_store w') ''t'' ''dft_1'') = Some Published
     \<and> length (published_posts (''t'', ''l'') w') = 1"
proof -
  let ?st = "sample_schedule [0, 1, 1, 1] publisher_and_vetoer"
  let ?st' = "run_schedule sample_service ''t'' ''dft_1'' 9 [0, 0, 0, 0, 0, 0] ?st"
  have "\<exists>d. WVeto (VDone (Inr d)) \<in> set (fst ?st)
     \<and> get_draft (dw_store (snd ?st)) ''t'' ''dft_1'' = Some d \<and> dd_status d = Vetoed
     \<and> published_posts (''t'', ''l'') (snd ?st) = []
     \<and> map_option dd_status (get_draft (dw_store (snd ?st')) ''t'' ''dft_1'') = Some Published
     \<and> length (published_posts (''t'', ''l'') (snd ?st')) = 1"
    by (simp add: publisher_and_vetoer_def race_eval published_posts_def succeeded_def)
  moreover have "(race sample_service ''t'' ''dft_1'' 9)\<^sup>*\<^sup>* (publisher_and_vetoer, race_world) ?st"
    "(race sample_service ''t'' ''dft_1'' 9)\<^sup>*\<^sup>* ?st ?st'"
    by (rule run_schedule_race)+
  ultimately show ?thesis by (metis prod.collapse)
qed


end
