(* ===== verification/Graph_Model.thy ===== *)
theory Graph_Model
  imports Prelude
begin

text \<open>
  Data of the organisation graph (\<open>graph-core/src/model.rs\<close>, \<open>error.rs\<close>, \<open>ids.rs\<close>) and
  its access rule (\<open>acl.rs\<close>). \<open>sha\<close> is the hexadecimal SHA-256 digest.
\<close>

section \<open>Errors and records\<close>

datatype graph_error =
    GValidation string
  | GNotFound string
  | GAclDenied string
  | GDuplicateEvent string
  | GStorage string
  | GInternal string

fun graph_error_to_string :: "graph_error \<Rightarrow> string" where
  "graph_error_to_string (GValidation s) = ''validation: '' @ s"
| "graph_error_to_string (GNotFound s) = ''not found: '' @ s"
| "graph_error_to_string (GAclDenied s) = ''acl denied: '' @ s"
| "graph_error_to_string (GDuplicateEvent s) = ''duplicate event: '' @ s"
| "graph_error_to_string (GStorage s) = ''storage: '' @ s"
| "graph_error_to_string (GInternal s) = ''internal: '' @ s"

record graph_node =
  gn_tenant_id :: string
  gn_node_id :: string
  gn_node_type :: string
  gn_display_name :: string
  gn_resource_id :: string
  gn_properties :: json
  gn_is_private :: bool
  gn_allowed_group_ids :: "string list"
  gn_acl_version :: "64 word"

record graph_edge =
  ge_tenant_id :: string
  ge_edge_id :: string
  ge_edge_type :: string
  ge_from_node_id :: string
  ge_to_node_id :: string
  ge_valid_from :: instant
  ge_valid_to :: "instant option"
  ge_event_id :: string
  ge_properties :: json
  ge_is_private :: bool
  ge_allowed_group_ids :: "string list"
  ge_acl_version :: "64 word"

record entity_state =
  es_tenant_id :: string
  es_node_id :: string
  es_state_key :: string
  es_state_value :: string
  es_as_of :: instant
  es_event_id :: string
  es_is_private :: bool
  es_allowed_group_ids :: "string list"

record query_context =
  qc_tenant_id :: string
  qc_global_user_id :: string
  qc_group_ids :: "string list"

record neighborhood_result =
  nb_root :: graph_node
  nb_nodes :: "graph_node list"
  nb_edges :: "graph_edge list"
  nb_hops :: nat

record graph_path =
  gp_nodes :: "graph_node list"
  gp_edges :: "graph_edge list"

datatype project_status = Applied | Duplicate | Skipped

record project_outcome =
  po_event_id :: string
  po_tenant_id :: string
  po_status :: project_status
  po_nodes_upserted :: nat
  po_edges_upserted :: nat

record graph_mutation =
  gm_nodes :: "graph_node list"
  gm_edges :: "graph_edge list"
  gm_states :: "entity_state list"

definition empty_mutation :: graph_mutation where
  "empty_mutation = \<lparr>gm_nodes = [], gm_edges = [], gm_states = []\<rparr>"

section \<open>Access rule\<close>

definition acl_allows :: "query_context \<Rightarrow> bool \<Rightarrow> string list \<Rightarrow> bool" where
  "acl_allows ctx is_private allowed_group_ids =
     (if qc_tenant_id ctx = [] then False
      else if \<not> is_private then True
      else if allowed_group_ids = [] then False
      else list_ex (\<lambda>g. list_ex (\<lambda>ug. ug = g) (qc_group_ids ctx)) allowed_group_ids)"

lemma acl_allows_iff:
  "acl_allows ctx p gs \<longleftrightarrow>
     qc_tenant_id ctx \<noteq> [] \<and> (\<not> p \<or> set gs \<inter> set (qc_group_ids ctx) \<noteq> {})"
  by (auto simp: acl_allows_def list_ex_iff)

section \<open>Identifiers\<close>

definition person_node_id :: "string \<Rightarrow> string" where
  "person_node_id g = (if g = [] then ''person:unknown'' else ''person:'' @ g)"

definition person_from_provider :: "string \<Rightarrow> string" where
  "person_from_provider p = ''person:prov:'' @ p"

definition repo_node_id :: "string \<Rightarrow> string" where
  "repo_node_id r = ''repo:'' @ r"

definition pr_node_id :: "string \<Rightarrow> string" where
  "pr_node_id r = ''pr:'' @ r"

definition issue_node_id :: "string \<Rightarrow> string" where
  "issue_node_id r = ''issue:'' @ r"

definition team_node_id :: "string \<Rightarrow> string" where
  "team_node_id t = ''team:'' @ t"

definition channel_node_id :: "string \<Rightarrow> string" where
  "channel_node_id c = ''channel:'' @ c"

definition commit_node_id :: "string \<Rightarrow> string \<Rightarrow> string" where
  "commit_node_id repo c = ''commit:'' @ repo @ '':'' @ c"

definition edge_id ::
  "(string \<Rightarrow> string) \<Rightarrow> string \<Rightarrow> string \<Rightarrow> string \<Rightarrow> string \<Rightarrow> string \<Rightarrow> string" where
  "edge_id sha tenant etype from_id to_id event_id =
     ''e_'' @ sha (tenant @ ''|'' @ etype @ ''|'' @ from_id @ ''|'' @ to_id @ ''|'' @ event_id)"

definition stable_edge_id ::
  "(string \<Rightarrow> string) \<Rightarrow> string \<Rightarrow> string \<Rightarrow> string \<Rightarrow> string \<Rightarrow> string" where
  "stable_edge_id sha tenant etype from_id to_id =
     ''es_'' @ sha (tenant @ ''|'' @ etype @ ''|'' @ from_id @ ''|'' @ to_id)"

end
