(* ===== verification/Graph_Store.thy ===== *)
theory Graph_Store
  imports Graph_Model Once_Register
begin

text \<open>
  The embedded graph store (\<open>graph-core/src/store.rs\<close>, \<open>InMemoryGraphStore\<close>): event marks,
  mutations, and every read. \<open>now\<close> is the reading of the clock a query makes. Saving the store
  to disk after each mutation is not modelled; the snapshot it writes is.
\<close>

record graph_store =
  gs_applied :: "(string \<times> string, unit) dashmap"
  gs_nodes :: "(string \<times> string, graph_node) dashmap"
  gs_edges :: "(string, graph_edge list) dashmap"
  gs_states :: "(string \<times> string \<times> string, entity_state) dashmap"

definition new_graph_store :: graph_store where
  "new_graph_store = \<lparr>gs_applied = [], gs_nodes = [], gs_edges = [], gs_states = []\<rparr>"

section \<open>Visibility\<close>

definition visible_node :: "query_context \<Rightarrow> graph_node \<Rightarrow> bool" where
  "visible_node ctx n \<longleftrightarrow>
     gn_tenant_id n = qc_tenant_id ctx \<and> acl_allows ctx (gn_is_private n) (gn_allowed_group_ids n)"

definition visible_edge :: "query_context \<Rightarrow> graph_edge \<Rightarrow> bool" where
  "visible_edge ctx e \<longleftrightarrow>
     ge_tenant_id e = qc_tenant_id ctx \<and> acl_allows ctx (ge_is_private e) (ge_allowed_group_ids e)"

definition active_edge :: "graph_edge \<Rightarrow> instant \<Rightarrow> bool" where
  "active_edge e as_of \<longleftrightarrow>
     ge_valid_from e \<le> as_of \<and> (case ge_valid_to e of Some t \<Rightarrow> as_of < t | None \<Rightarrow> True)"

section \<open>Writes\<close>

definition mark_event_applied :: "string \<times> string \<Rightarrow> graph_store \<Rightarrow> graph_store \<times> bool" where
  "mark_event_applied key s =
     (if dm_get (gs_applied s) key \<noteq> None then (s, False)
      else (s\<lparr>gs_applied := dm_put key () (gs_applied s)\<rparr>, True))"

definition insert_node :: "graph_node \<Rightarrow> graph_store \<Rightarrow> graph_store" where
  "insert_node n s = s\<lparr>gs_nodes := dm_put (gn_tenant_id n, gn_node_id n) n (gs_nodes s)\<rparr>"

definition tenant_edges :: "graph_store \<Rightarrow> string \<Rightarrow> graph_edge list" where
  "tenant_edges s t = unwrap_or (dm_get (gs_edges s) t) []"

definition upsert_edge :: "graph_edge \<Rightarrow> graph_store \<Rightarrow> graph_store" where
  "upsert_edge e s =
     s\<lparr>gs_edges := dm_put (ge_tenant_id e)
        (upsert_by ge_edge_id e (tenant_edges s (ge_tenant_id e))) (gs_edges s)\<rparr>"

definition state_prio :: "string \<Rightarrow> nat" where
  "state_prio v =
     (if v = ''MERGED'' then 3 else if v = ''CLOSED'' then 2 else if v = ''OPEN'' then 1 else 0)"

abbreviation state_key_of :: "entity_state \<Rightarrow> string \<times> string \<times> string" where
  "state_key_of st \<equiv> (es_tenant_id st, es_node_id st, es_state_key st)"

text \<open>Which of the stored and the incoming state of one key is kept.\<close>

definition keep_state :: "entity_state option \<Rightarrow> entity_state \<Rightarrow> entity_state" where
  "keep_state old st =
     (case old of
        None \<Rightarrow> st
      | Some ex \<Rightarrow>
          if es_as_of ex > es_as_of st then ex
          else if es_as_of ex = es_as_of st \<and> es_event_id ex \<noteq> es_event_id st
                  \<and> es_state_value ex \<noteq> es_state_value st
          then (if state_prio (es_state_value st) \<ge> state_prio (es_state_value ex) then st else ex)
          else st)"

definition upsert_state :: "entity_state \<Rightarrow> graph_store \<Rightarrow> graph_store" where
  "upsert_state st s =
     s\<lparr>gs_states := dm_put (state_key_of st) (keep_state (dm_get (gs_states s) (state_key_of st)) st)
        (gs_states s)\<rparr>"

definition apply_mutation :: "graph_mutation \<Rightarrow> graph_store \<Rightarrow> graph_store" where
  "apply_mutation m s =
     fold upsert_state (gm_states m) (fold upsert_edge (gm_edges m) (fold insert_node (gm_nodes m) s))"

section \<open>Point reads\<close>

definition get_node :: "graph_store \<Rightarrow> query_context \<Rightarrow> string \<Rightarrow> graph_node option" where
  "get_node s ctx i = filter_opt (visible_node ctx) (dm_get (gs_nodes s) (qc_tenant_id ctx, i))"

definition state_allowed :: "query_context \<Rightarrow> entity_state \<Rightarrow> bool" where
  "state_allowed ctx st \<longleftrightarrow> acl_allows ctx (es_is_private st) (es_allowed_group_ids st)"

definition get_state :: "graph_store \<Rightarrow> query_context \<Rightarrow> string \<Rightarrow> string \<Rightarrow> entity_state option" where
  "get_state s ctx i k =
     (let found = dm_get (gs_states s) (qc_tenant_id ctx, i, k) in
      if get_node s ctx i = None
         \<and> (case found of Some st \<Rightarrow> \<not> state_allowed ctx st | None \<Rightarrow> True)
      then None
      else filter_opt (state_allowed ctx) found)"

section \<open>Neighbourhood\<close>

definition other_end :: "graph_edge \<Rightarrow> string \<Rightarrow> string option" where
  "other_end e i =
     (if ge_from_node_id e = i then Some (ge_to_node_id e)
      else if ge_to_node_id e = i then Some (ge_from_node_id e) else None)"

text \<open>The loop state: seen node ids, nodes and edges found, and the next frontier.\<close>

record nb_state =
  nbs_seen :: "string set"
  nbs_nodes :: "graph_node list"
  nbs_edges :: "graph_edge list"
  nbs_next :: "string list"

definition nb_edge ::
  "graph_store \<Rightarrow> query_context \<Rightarrow> instant \<Rightarrow> string \<Rightarrow> graph_edge \<Rightarrow> nb_state \<Rightarrow> nb_state" where
  "nb_edge s ctx now i e st =
     (if \<not> visible_edge ctx e \<or> \<not> active_edge e now then st
      else case other_end e i of
        None \<Rightarrow> st
      | Some j \<Rightarrow>
          (case get_node s ctx j of
             None \<Rightarrow> st
           | Some n \<Rightarrow>
               (let st1 = (if list_ex (\<lambda>x. ge_edge_id x = ge_edge_id e) (nbs_edges st) then st
                           else st\<lparr>nbs_edges := nbs_edges st @ [e]\<rparr>)
                in if j \<in> nbs_seen st1 then st1
                   else st1\<lparr>nbs_seen := insert j (nbs_seen st1), nbs_nodes := nbs_nodes st1 @ [n],
                            nbs_next := nbs_next st1 @ [j]\<rparr>)))"

definition nb_visit ::
  "graph_store \<Rightarrow> query_context \<Rightarrow> instant \<Rightarrow> graph_edge list \<Rightarrow> string \<Rightarrow> nb_state \<Rightarrow> nb_state" where
  "nb_visit s ctx now all_edges i st = fold (nb_edge s ctx now i) all_edges st"

definition nb_round ::
  "graph_store \<Rightarrow> query_context \<Rightarrow> instant \<Rightarrow> graph_edge list \<Rightarrow> string list \<Rightarrow> nb_state \<Rightarrow> nb_state" where
  "nb_round s ctx now all_edges frontier st =
     fold (nb_visit s ctx now all_edges) frontier (st\<lparr>nbs_next := []\<rparr>)"

fun nb_rounds ::
  "nat \<Rightarrow> graph_store \<Rightarrow> query_context \<Rightarrow> instant \<Rightarrow> graph_edge list \<Rightarrow> string list \<Rightarrow> nb_state
   \<Rightarrow> nb_state"
where
  "nb_rounds 0 s ctx now all_edges frontier st = st"
| "nb_rounds (Suc k) s ctx now all_edges frontier st =
     (let st' = nb_round s ctx now all_edges frontier st in
      if nbs_next st' = [] then st' else nb_rounds k s ctx now all_edges (nbs_next st') st')"

definition neighborhood ::
  "graph_store \<Rightarrow> query_context \<Rightarrow> instant \<Rightarrow> string \<Rightarrow> nat \<Rightarrow> graph_error + neighborhood_result" where
  "neighborhood s ctx now root_id hops =
     (case get_node s ctx root_id of
        None \<Rightarrow> Inl (GNotFound (''node '' @ root_id))
      | Some root \<Rightarrow>
          (let h = clamp 1 6 hops;
               st = nb_rounds h s ctx now (tenant_edges s (qc_tenant_id ctx)) [root_id]
                      \<lparr>nbs_seen = {root_id}, nbs_nodes = [root], nbs_edges = [], nbs_next = []\<rparr>
           in Inr \<lparr>nb_root = root, nb_nodes = nbs_nodes st, nb_edges = nbs_edges st, nb_hops = h\<rparr>))"

section \<open>Paths\<close>

text \<open>
  Breadth-first search: the queue, the distances and the predecessor map of the loop. Scanning the
  edges of one node either reaches the target (\<open>Inl\<close> with the predecessor map) or returns the
  loop state.
\<close>

type_synonym prev_map = "(string, string \<times> graph_edge) dashmap"

fun path_scan ::
  "graph_store \<Rightarrow> query_context \<Rightarrow> instant \<Rightarrow> string \<Rightarrow> string \<Rightarrow> nat \<Rightarrow> graph_edge list
   \<Rightarrow> string list \<Rightarrow> (string, nat) dashmap \<Rightarrow> prev_map
   \<Rightarrow> prev_map + string list \<times> (string, nat) dashmap \<times> prev_map"
where
  "path_scan s ctx now to_id cur d [] q dist prev = Inr (q, dist, prev)"
| "path_scan s ctx now to_id cur d (e # es) q dist prev =
     (if \<not> visible_edge ctx e \<or> \<not> active_edge e now
      then path_scan s ctx now to_id cur d es q dist prev
      else case other_end e cur of
        None \<Rightarrow> path_scan s ctx now to_id cur d es q dist prev
      | Some other \<Rightarrow>
          if get_node s ctx other = None then path_scan s ctx now to_id cur d es q dist prev
          else if dm_get dist other \<noteq> None then path_scan s ctx now to_id cur d es q dist prev
          else
            (let dist' = dm_put other (d + 1) dist; prev' = dm_put other (cur, e) prev in
             if other = to_id then Inl prev'
             else path_scan s ctx now to_id cur d es (q @ [other]) dist' prev'))"

definition edge_ends :: "graph_edge list \<Rightarrow> string set" where
  "edge_ends es = ge_from_node_id ` set es \<union> ge_to_node_id ` set es"

lemma finite_edge_ends [simp]: "finite (edge_ends es)"
  by (simp add: edge_ends_def)

lemma other_end_ends: "e \<in> set es \<Longrightarrow> other_end e i = Some j \<Longrightarrow> j \<in> edge_ends es"
  by (auto simp: other_end_def edge_ends_def split: if_splits)

lemma path_scan_measure:
  assumes "path_scan s ctx now to_id cur d es q dist prev = Inr (q', dist', prev')"
    and "set es \<subseteq> set all"
  shows "card (edge_ends all - dom (dm_get dist')) + length q'
    \<le> card (edge_ends all - dom (dm_get dist)) + length q"
  using assms
proof (induction s ctx now to_id cur d es q dist prev rule: path_scan.induct)
  case (2 s ctx now to_id cur d e es q dist prev)
  show ?case
  proof (cases "visible_edge ctx e \<and> active_edge e now \<and> (\<exists>j. other_end e cur = Some j
      \<and> get_node s ctx j \<noteq> None \<and> dm_get dist j = None)")
    case False
    then show ?thesis using 2 by (auto split: option.splits if_splits)
  next
    case True
    then obtain j where j: "other_end e cur = Some j" "dm_get dist j = None" by blast
    with True 2(6) have r: "path_scan s ctx now to_id cur d es (q @ [j]) (dm_put j (d + 1) dist)
        (dm_put j (cur, e) prev) = Inr (q', dist', prev')" and t: "j \<noteq> to_id"
      by (auto simp: Let_def split: if_splits)
    have IH: "card (edge_ends all - dom (dm_get dist')) + length q'
        \<le> card (edge_ends all - dom (dm_get (dm_put j (d + 1) dist))) + length (q @ [j])"
      using "2.IH"(5) [OF _ j(1) _ _ refl refl t r] True j 2(7) by (simp del: dm_get_put)
    have mem: "j \<in> edge_ends all - dom (dm_get dist)"
      using other_end_ends [OF _ j(1), of all] j(2) 2(7) by auto
    have "edge_ends all - dom (dm_get (dm_put j (d + 1) dist)) = (edge_ends all - dom (dm_get dist)) - {j}"
      by (auto simp: dom_def)
    then have "Suc (card (edge_ends all - dom (dm_get (dm_put j (d + 1) dist))))
        = card (edge_ends all - dom (dm_get dist))"
      using mem card_Suc_Diff1 [of "edge_ends all - dom (dm_get dist)" j] by simp
    with IH show ?thesis by simp
  qed
qed simp

function path_search ::
  "graph_store \<Rightarrow> query_context \<Rightarrow> instant \<Rightarrow> string \<Rightarrow> nat \<Rightarrow> graph_edge list
   \<Rightarrow> string list \<Rightarrow> (string, nat) dashmap \<Rightarrow> prev_map \<Rightarrow> prev_map option"
where
  "path_search s ctx now to_id max_hops es [] dist prev = None"
| "path_search s ctx now to_id max_hops es (cur # q) dist prev =
     (let d = unwrap_or (dm_get dist cur) 0 in
      if d \<ge> max_hops then path_search s ctx now to_id max_hops es q dist prev
      else case path_scan s ctx now to_id cur d es q dist prev of
        Inl prev' \<Rightarrow> Some prev'
      | Inr (q', dist', prev') \<Rightarrow> path_search s ctx now to_id max_hops es q' dist' prev')"
  by pat_completeness auto
termination
  by (relation "measure (\<lambda>(s, ctx, now, to_id, mh, es, q, dist, prev).
        card (edge_ends es - dom (dm_get dist)) + length q)")
    (auto simp: less_Suc_eq_le dest!: path_scan_measure [OF _ subset_refl])

partial_function (option) walk_back ::
  "prev_map \<Rightarrow> string \<Rightarrow> string \<Rightarrow> string list \<Rightarrow> graph_edge list
   \<Rightarrow> (string list \<times> graph_edge list) option"
where
  "walk_back prev from_id walk ns es =
     (if walk = from_id then Some (ns, es)
      else case dm_get prev walk of
        None \<Rightarrow> None
      | Some (p, e) \<Rightarrow> walk_back prev from_id p (p # ns) (e # es))"

text \<open>
  The outer option is \<open>None\<close> where the code would panic or loop while it walks back; the inner one
  is its result.
\<close>

definition path ::
  "graph_store \<Rightarrow> query_context \<Rightarrow> instant \<Rightarrow> string \<Rightarrow> string \<Rightarrow> nat \<Rightarrow> graph_path option option" where
  "path s ctx now from_id to_id max_hops =
     (let mh = clamp 1 6 max_hops in
      if get_node s ctx from_id = None \<or> get_node s ctx to_id = None then Some None
      else case path_search s ctx now to_id mh (tenant_edges s (qc_tenant_id ctx)) [from_id]
                  (dm_put from_id 0 []) [] of
        None \<Rightarrow> Some None
      | Some prev \<Rightarrow>
          (case walk_back prev from_id to_id [to_id] [] of
             None \<Rightarrow> None
           | Some (ids, es) \<Rightarrow>
               Some (Some \<lparr>gp_nodes = List.map_filter (get_node s ctx) ids, gp_edges = es\<rparr>)))"

section \<open>Listings and snapshots\<close>

definition blockers :: "graph_store \<Rightarrow> query_context \<Rightarrow> instant \<Rightarrow> string \<Rightarrow> graph_edge list" where
  "blockers s ctx now i =
     filter (\<lambda>e. visible_edge ctx e \<and> active_edge e now
        \<and> (ge_edge_type e = ''BLOCKS'' \<or> ge_edge_type e = ''BLOCKED_BY'')
        \<and> (ge_from_node_id e = i \<or> ge_to_node_id e = i)) (tenant_edges s (qc_tenant_id ctx))"

definition count_nodes :: "graph_store \<Rightarrow> string \<Rightarrow> nat" where
  "count_nodes s t = length (filter (\<lambda>e. fst (fst e) = t) (gs_nodes s))"

definition count_edges :: "graph_store \<Rightarrow> string \<Rightarrow> nat" where
  "count_edges s t = length (tenant_edges s t)"

definition event_applied :: "graph_store \<Rightarrow> string \<Rightarrow> string \<Rightarrow> bool" where
  "event_applied s t e \<longleftrightarrow> dm_get (gs_applied s) (t, e) \<noteq> None"

definition list_nodes_by_type ::
  "graph_store \<Rightarrow> query_context \<Rightarrow> string \<Rightarrow> nat \<Rightarrow> graph_node list" where
  "list_nodes_by_type s ctx ty limit =
     take (clamp 1 500 limit) (sort_key gn_node_id (map snd (filter (\<lambda>e. fst (fst e) = qc_tenant_id ctx
        \<and> eq_ignore_ascii_case (gn_node_type (snd e)) ty \<and> visible_node ctx (snd e)) (gs_nodes s))))"

definition list_edges_by_type ::
  "graph_store \<Rightarrow> query_context \<Rightarrow> instant \<Rightarrow> string \<Rightarrow> nat \<Rightarrow> graph_edge list" where
  "list_edges_by_type s ctx now ty limit =
     take (clamp 1 500 limit) (sort_key ge_edge_id (filter (\<lambda>e. visible_edge ctx e \<and> active_edge e now
        \<and> eq_ignore_ascii_case (ge_edge_type e) ty) (tenant_edges s (qc_tenant_id ctx))))"

definition node_type_rank :: "string \<Rightarrow> nat" where
  "node_type_rank t =
     (if t = ''Person'' then 0 else if t = ''Repo'' then 1 else if t = ''PullRequest'' then 2
      else if t = ''Issue'' \<or> t = ''Ticket'' then 3 else if t = ''Intent'' then 4
      else if t = ''Team'' \<or> t = ''Channel'' then 5 else if t = ''Commit'' then 9 else 6)"

definition edge_type_rank :: "string \<Rightarrow> nat" where
  "edge_type_rank t =
     (if t = ''BLOCKS'' \<or> t = ''BLOCKED_BY'' then 0 else if t = ''CLAIMS'' \<or> t = ''ABOUT'' then 1
      else if t = ''AUTHORED'' \<or> t = ''ASSIGNED_TO'' then 2
      else if t = ''BELONGS_TO'' \<or> t = ''MEMBER_OF'' then 3 else if t = ''CHECKED'' then 4
      else if t = ''PUSHED_TO'' then 8 else 5)"

definition graph_snapshot ::
  "graph_store \<Rightarrow> query_context \<Rightarrow> instant \<Rightarrow> nat \<Rightarrow> nat \<Rightarrow> graph_node list \<times> graph_edge list" where
  "graph_snapshot s ctx now node_limit edge_limit =
     (let nl = clamp 1 2000 node_limit; el = clamp 1 4000 edge_limit;
          nodes = take nl (sort_key (\<lambda>n. (node_type_rank (gn_node_type n), gn_node_id n))
            (map snd (filter (\<lambda>e. fst (fst e) = qc_tenant_id ctx \<and> visible_node ctx (snd e))
              (gs_nodes s))));
          all = filter (\<lambda>e. visible_edge ctx e \<and> active_edge e now) (tenant_edges s (qc_tenant_id ctx));
          ids = map gn_node_id nodes;
          kept = (if length nodes = nl
                  then filter (\<lambda>e. ge_from_node_id e \<in> set ids \<and> ge_to_node_id e \<in> set ids) all
                  else all)
      in (nodes, take el (sort_key (\<lambda>e. (edge_type_rank (ge_edge_type e), - ge_valid_from e)) kept)))"

record graph_persist_snapshot =
  gps_version :: nat
  gps_saved_at :: "string option"
  gps_nodes :: "graph_node list"
  gps_edges :: "graph_edge list"
  gps_states :: "entity_state list"
  gps_applied :: "(string \<times> string) list"

definition graph_export_snapshot :: "(instant \<Rightarrow> string) \<Rightarrow> instant \<Rightarrow> graph_store \<Rightarrow> graph_persist_snapshot" where
  "graph_export_snapshot rfc3339 now s =
     \<lparr>gps_version = 1, gps_saved_at = Some (rfc3339 now), gps_nodes = map snd (gs_nodes s),
      gps_edges = concat (map snd (gs_edges s)), gps_states = map snd (gs_states s),
      gps_applied = map fst (gs_applied s)\<rparr>"

definition import_edge :: "graph_edge \<Rightarrow> graph_store \<Rightarrow> graph_store" where
  "import_edge e s =
     s\<lparr>gs_edges := dm_put (ge_tenant_id e) (tenant_edges s (ge_tenant_id e) @ [e]) (gs_edges s)\<rparr>"

definition import_state :: "entity_state \<Rightarrow> graph_store \<Rightarrow> graph_store" where
  "import_state st s = s\<lparr>gs_states := dm_put (state_key_of st) st (gs_states s)\<rparr>"

definition import_applied :: "string \<times> string \<Rightarrow> graph_store \<Rightarrow> graph_store" where
  "import_applied k s = s\<lparr>gs_applied := dm_put k () (gs_applied s)\<rparr>"

definition graph_import_snapshot :: "graph_persist_snapshot \<Rightarrow> graph_store \<Rightarrow> graph_store" where
  "graph_import_snapshot p s =
     fold import_applied (gps_applied p) (fold import_state (gps_states p)
       (fold import_edge (gps_edges p) (fold insert_node (gps_nodes p) s)))"

section \<open>Event marks\<close>

text \<open>The applied-event set is a register whose value is the key itself.\<close>

definition mark_lookup :: "graph_store \<Rightarrow> string \<times> string \<Rightarrow> (string \<times> string) option" where
  "mark_lookup s k = map_option (\<lambda>_. k) (dm_get (gs_applied s) k)"

interpretation event_marks: once_register mark_event_applied mark_lookup "\<lambda>k. k" "\<lambda>_ _. True" "\<lambda>_. True"
proof
  fix s :: graph_store and v :: "string \<times> string"
  assume "mark_lookup s v = None"
  then show "snd (mark_event_applied v s)
      \<and> mark_lookup (fst (mark_event_applied v s)) = (mark_lookup s)(v \<mapsto> v) \<and> True"
    by (auto simp: mark_event_applied_def mark_lookup_def fun_eq_iff)
next
  fix s :: graph_store and v w :: "string \<times> string"
  assume "mark_lookup s v = Some w"
  then show "mark_event_applied v s = (s, False)"
    by (auto simp: mark_event_applied_def mark_lookup_def)
qed

section \<open>Entity states converge\<close>

definition state_rank :: "entity_state \<Rightarrow> instant \<times> nat" where
  "state_rank st = (es_as_of st, state_prio (es_state_value st))"

definition events_determine_values :: "entity_state set \<Rightarrow> bool" where
  "events_determine_values S \<longleftrightarrow>
     (\<forall>a \<in> S. \<forall>b \<in> S. es_event_id a = es_event_id b \<longrightarrow> es_as_of a = es_as_of b \<longrightarrow>
        es_state_value a = es_state_value b)"

lemma keep_state_rank:
  assumes "events_determine_values {ex, st}"
  shows "state_rank (keep_state (Some ex) st) = max (state_rank ex) (state_rank st)"
proof (cases "es_as_of ex" "es_as_of st" rule: linorder_cases)
  case less
  then show ?thesis by (simp add: keep_state_def state_rank_def max_def less_eq_prod_def)
next
  case greater
  then show ?thesis by (simp add: keep_state_def state_rank_def max_def less_eq_prod_def)
next
  case equal
  have "es_event_id ex = es_event_id st \<Longrightarrow> es_state_value ex = es_state_value st"
    using assms equal unfolding events_determine_values_def by blast
  with equal show ?thesis
    by (cases "es_event_id ex = es_event_id st"; cases "es_state_value ex = es_state_value st")
      (simp_all add: keep_state_def state_rank_def max_def less_eq_prod_def)
qed

lemma events_determine_values_mono:
  "events_determine_values T \<Longrightarrow> S \<subseteq> T \<Longrightarrow> events_determine_values S"
  unfolding events_determine_values_def by blast

lemma keep_state_mem: "keep_state old st \<in> insert st (set_option old)"
  by (auto simp: keep_state_def split: option.split)

lemma Max_insert_max:
  "finite B \<Longrightarrow> Max (insert (max a b) B) = Max (insert a (insert b B))" for a :: "'a::linorder"
  by (cases "B = {}") (simp_all add: max.assoc)

lemma fold_keep_state:
  assumes "events_determine_values (insert ex (set sts))"
  shows "\<exists>st \<in> insert ex (set sts). fold (\<lambda>st old. Some (keep_state old st)) sts (Some ex) = Some st
    \<and> state_rank st = Max (state_rank ` insert ex (set sts))"
  using assms
proof (induction sts arbitrary: ex)
  case (Cons st sts)
  let ?k = "keep_state (Some ex) st"
  have k: "?k \<in> {ex, st}" using keep_state_mem [of "Some ex" st] by auto
  have d: "events_determine_values (insert ?k (set sts))" "events_determine_values {ex, st}"
    using k by (auto intro!: events_determine_values_mono [OF Cons.prems])
  from Cons.IH [OF d(1)] obtain r where r: "r \<in> insert ?k (set sts)"
    "fold (\<lambda>st old. Some (keep_state old st)) sts (Some ?k) = Some r"
    "state_rank r = Max (state_rank ` insert ?k (set sts))" by blast
  have "Max (state_rank ` insert ?k (set sts)) = Max (state_rank ` insert ex (set (st # sts)))"
    using Max_insert_max [of "state_rank ` set sts" "state_rank ex" "state_rank st"]
    by (simp only: image_insert list.simps(15) keep_state_rank [OF d(2)] finite_imageI finite_set)
  with r k show ?case by auto
qed simp

lemma get_upsert_states:
  "dm_get (gs_states (fold upsert_state sts s)) k =
     fold (\<lambda>st old. Some (keep_state old st)) (filter (\<lambda>st. state_key_of st = k) sts) (dm_get (gs_states s) k)"
proof (induction sts arbitrary: s)
  case (Cons st sts)
  have "dm_get (gs_states (upsert_state st s)) k =
      (if state_key_of st = k then Some (keep_state (dm_get (gs_states s) k) st) else dm_get (gs_states s) k)"
    by (simp only: upsert_state_def graph_store.simps dm_get_put) auto
  with Cons show ?case by simp
qed simp

text \<open>The lifecycle values of a pull request.\<close>

definition lifecycle_values :: "string set" where
  "lifecycle_values = {''OPEN'', ''CLOSED'', ''MERGED''}"

lemma lifecycle_rank_inj:
  "es_state_value a \<in> lifecycle_values \<Longrightarrow> es_state_value b \<in> lifecycle_values \<Longrightarrow>
   state_rank a = state_rank b \<Longrightarrow> es_as_of a = es_as_of b \<and> es_state_value a = es_state_value b"
  by (auto simp: lifecycle_values_def state_rank_def state_prio_def)

lemma final_state:
  assumes "dm_get (gs_states s) k = None" and "filter (\<lambda>st. state_key_of st = k) sts \<noteq> []"
    and "events_determine_values (set sts)"
  shows "\<exists>st \<in> set sts. dm_get (gs_states (fold upsert_state sts s)) k = Some st
    \<and> state_rank st = Max (state_rank ` {st \<in> set sts. state_key_of st = k})"
proof -
  let ?f = "filter (\<lambda>st. state_key_of st = k) sts"
  obtain x xs where f: "?f = x # xs" using assms(2) by (cases ?f) auto
  then have sub: "insert x (set xs) = {st \<in> set sts. state_key_of st = k}"
    by (metis list.simps(15) set_filter)
  then have "events_determine_values (insert x (set xs))"
    using assms(3) by (auto intro: events_determine_values_mono)
  from fold_keep_state [OF this] sub show ?thesis
    by (auto simp: get_upsert_states f assms(1)) (simp_all add: keep_state_def)
qed

text \<open>
  State updates converge whatever order events arrive in. Deliver the same lifecycle updates
  of a pull request in two different orders (no event carrying two values for one time): the graph
  ends with the same time and the same value, those of the latest update, and at equal times the
  furthest of open, closed, merged.
\<close>

lemma lifecycle_converges:
  assumes "mset sts = mset sts'" and "events_determine_values (set sts)"
    and "\<forall>st \<in> set sts. es_state_value st \<in> lifecycle_values"
    and "dm_get (gs_states s) k = None"
  shows "map_option (\<lambda>st. (es_as_of st, es_state_value st)) (dm_get (gs_states (fold upsert_state sts s)) k)
    = map_option (\<lambda>st. (es_as_of st, es_state_value st)) (dm_get (gs_states (fold upsert_state sts' s)) k)"
proof -
  have set: "set sts' = set sts" using assms(1) by (metis set_mset_mset)
  show ?thesis
  proof (cases "filter (\<lambda>st. state_key_of st = k) sts = []")
    case True
    then have "filter (\<lambda>st. state_key_of st = k) sts' = []" using set by (auto simp: filter_empty_conv)
    with True show ?thesis by (simp add: get_upsert_states)
  next
    case False
    then have "filter (\<lambda>st. state_key_of st = k) sts' \<noteq> []" using set by (auto simp: filter_empty_conv)
    from final_state [OF assms(4) this] final_state [OF assms(4) False assms(2)] assms(2,3) set
    obtain a b where "a \<in> set sts" "b \<in> set sts" "state_rank a = state_rank b"
      "dm_get (gs_states (fold upsert_state sts s)) k = Some a"
      "dm_get (gs_states (fold upsert_state sts' s)) k = Some b" by auto
    with assms(3) lifecycle_rank_inj [of a b] show ?thesis by auto
  qed
qed

end
