(* ===== verification/Graph_Query.thy ===== *)
theory Graph_Query
  imports Graph_Store
begin

text \<open>
  What the queries of the graph store compute. The visible graph of a caller is the relation
  \<open>linked\<close>: two nodes joined by an active edge that the caller may see, the far end visible too.
  \<open>neighborhood\<close> is shown to be the ball of that graph, \<open>path\<close> to be a shortest path in it, and
  no query to return anything the caller may not see.
\<close>

definition edges_of_tenant :: "string \<Rightarrow> graph_edge list \<Rightarrow> bool" where
  "edges_of_tenant t es \<longleftrightarrow> distinct (map ge_edge_id es) \<and> ge_tenant_id ` set es \<subseteq> {t}"

definition graph_store_inv :: "graph_store \<Rightarrow> bool" where
  "graph_store_inv s \<longleftrightarrow>
     dm_keyed (\<lambda>n. (gn_tenant_id n, gn_node_id n)) (gs_nodes s) \<and> dm_ok (gs_applied s)
     \<and> dm_keyed state_key_of (gs_states s) \<and> dm_ok (gs_edges s)
     \<and> (\<forall>t es. dm_get (gs_edges s) t = Some es \<longrightarrow> edges_of_tenant t es)"

definition step_edge ::
  "graph_store \<Rightarrow> query_context \<Rightarrow> instant \<Rightarrow> graph_edge \<Rightarrow> string \<Rightarrow> string \<Rightarrow> bool" where
  "step_edge s ctx now e x y \<longleftrightarrow>
     e \<in> set (tenant_edges s (qc_tenant_id ctx)) \<and> visible_edge ctx e \<and> active_edge e now
     \<and> other_end e x = Some y \<and> get_node s ctx y \<noteq> None"

definition linked :: "graph_store \<Rightarrow> query_context \<Rightarrow> instant \<Rightarrow> string \<Rightarrow> string \<Rightarrow> bool" where
  "linked s ctx now x y \<longleftrightarrow> (\<exists>e. step_edge s ctx now e x y)"

lemma get_nodeD:
  "graph_store_inv s \<Longrightarrow> get_node s ctx i = Some n \<Longrightarrow>
   gn_node_id n = i \<and> visible_node ctx n \<and> gn_tenant_id n = qc_tenant_id ctx"
  by (auto simp: get_node_def graph_store_inv_def dest!: filter_opt_SomeD dest: dm_keyed_getD)

section \<open>The neighbourhood is the ball around its root\<close>

primrec ball :: "graph_store \<Rightarrow> query_context \<Rightarrow> instant \<Rightarrow> string \<Rightarrow> nat \<Rightarrow> string set" where
  "ball s ctx now r 0 = {r}"
| "ball s ctx now r (Suc k) =
     ball s ctx now r k \<union> {y. \<exists>x \<in> ball s ctx now r k. linked s ctx now x y}"

lemma ball_mono: "ball s ctx now r k \<subseteq> ball s ctx now r (Suc k)"
  by auto

lemma ball_iff_walk:
  "y \<in> ball s ctx now r k \<longleftrightarrow> (\<exists>j \<le> k. (linked s ctx now ^^ j) r y)"
proof (induction k arbitrary: y)
  case (Suc k)
  have "y \<in> ball s ctx now r (Suc k) \<longleftrightarrow> (\<exists>j \<le> k. (linked s ctx now ^^ j) r y)
      \<or> (\<exists>j \<le> k. (linked s ctx now ^^ Suc j) r y)"
    using Suc.IH by auto
  also have "\<dots> \<longleftrightarrow> (\<exists>j \<le> Suc k. (linked s ctx now ^^ j) r y)"
  proof
    assume "\<exists>j \<le> Suc k. (linked s ctx now ^^ j) r y"
    then obtain j where j: "j \<le> Suc k" "(linked s ctx now ^^ j) r y" by blast
    show "(\<exists>j \<le> k. (linked s ctx now ^^ j) r y) \<or> (\<exists>j \<le> k. (linked s ctx now ^^ Suc j) r y)"
    proof (cases j)
      case 0
      then show ?thesis using j by blast
    next
      case (Suc i)
      then show ?thesis using j by blast
    qed
  qed (meson Suc_le_mono le_Suc_eq)
  finally show ?case .
qed auto

lemma ball_stable: "ball s ctx now r (Suc k) = ball s ctx now r k \<Longrightarrow> ball s ctx now r (k + j) = ball s ctx now r k"
proof (induction j)
  case (Suc j)
  then have "ball s ctx now r (Suc (k + j)) = ball s ctx now r (Suc k)" by simp
  with Suc show ?case by simp
qed simp

definition nb_ok :: "graph_store \<Rightarrow> query_context \<Rightarrow> instant \<Rightarrow> nb_state \<Rightarrow> bool" where
  "nb_ok s ctx now st \<longleftrightarrow>
     set (map gn_node_id (nbs_nodes st)) = nbs_seen st \<and> distinct (map gn_node_id (nbs_nodes st))
     \<and> (\<forall>n \<in> set (nbs_nodes st). get_node s ctx (gn_node_id n) = Some n)
     \<and> (\<forall>e \<in> set (nbs_edges st). e \<in> set (tenant_edges s (qc_tenant_id ctx)) \<and> visible_edge ctx e
          \<and> active_edge e now \<and> ge_from_node_id e \<in> nbs_seen st \<and> ge_to_node_id e \<in> nbs_seen st)
     \<and> set (nbs_next st) \<subseteq> nbs_seen st"

lemma other_end_pair: "other_end e i = Some j \<Longrightarrow> {ge_from_node_id e, ge_to_node_id e} = {i, j}"
  by (auto simp: other_end_def split: if_splits)

lemma nb_edge_result:
  assumes inv: "graph_store_inv s" and e: "e \<in> set (tenant_edges s (qc_tenant_id ctx))"
    and i: "i \<in> nbs_seen st" and ok: "nb_ok s ctx now st"
  shows "nb_ok s ctx now (nb_edge s ctx now i e st)
    \<and> nbs_seen (nb_edge s ctx now i e st) = nbs_seen st \<union> {y. step_edge s ctx now e i y}
    \<and> set (nbs_next (nb_edge s ctx now i e st))
        = set (nbs_next st) \<union> ({y. step_edge s ctx now e i y} - nbs_seen st)"
proof (cases "\<exists>j. step_edge s ctx now e i j")
  case False
  then have "nb_edge s ctx now i e st = st"
    using e by (auto simp: nb_edge_def step_edge_def split: option.split)
  with False ok show ?thesis by simp
next
  case True
  then obtain j n where j: "step_edge s ctx now e i j" and n: "get_node s ctx j = Some n"
    by (auto simp: step_edge_def)
  have single: "{y. step_edge s ctx now e i y} = {j}" using j by (auto simp: step_edge_def)
  have ends: "ge_from_node_id e \<in> insert j (nbs_seen st)" "ge_to_node_id e \<in> insert j (nbs_seen st)"
    using other_end_pair [of e i j] j i by (auto simp: step_edge_def)
  note id = get_nodeD [OF inv n]
  show ?thesis
    using j n id ok ends e unfolding single nb_ok_def nb_edge_def
    by (auto simp: step_edge_def Let_def)
qed

lemma nb_visit_result:
  assumes inv: "graph_store_inv s" and es: "set es \<subseteq> set (tenant_edges s (qc_tenant_id ctx))"
    and i: "i \<in> nbs_seen st" and ok: "nb_ok s ctx now st"
  shows "nb_ok s ctx now (nb_visit s ctx now es i st)
    \<and> nbs_seen (nb_visit s ctx now es i st) = nbs_seen st \<union> {y. \<exists>e \<in> set es. step_edge s ctx now e i y}
    \<and> set (nbs_next (nb_visit s ctx now es i st))
        = set (nbs_next st) \<union> ({y. \<exists>e \<in> set es. step_edge s ctx now e i y} - nbs_seen st)"
  using es i ok
proof (induction es arbitrary: st)
  case (Cons e es)
  let ?st = "nb_edge s ctx now i e st"
  from Cons.prems have "e \<in> set (tenant_edges s (qc_tenant_id ctx))" by simp
  note r = nb_edge_result [OF inv this Cons.prems(2,3)]
  with Cons.prems have "i \<in> nbs_seen ?st" "set es \<subseteq> set (tenant_edges s (qc_tenant_id ctx))" by auto
  with Cons.IH [of ?st] r show ?case by (auto simp: nb_visit_def)
qed (simp add: nb_visit_def)

lemma step_edges_linked:
  "{y. \<exists>e \<in> set (tenant_edges s (qc_tenant_id ctx)). step_edge s ctx now e i y} = {y. linked s ctx now i y}"
  by (auto simp: linked_def step_edge_def)

lemma nb_fold_result:
  assumes inv: "graph_store_inv s" and "set frontier \<subseteq> nbs_seen st" and "nb_ok s ctx now st"
  defines "st' \<equiv> fold (nb_visit s ctx now (tenant_edges s (qc_tenant_id ctx))) frontier st"
  shows "nb_ok s ctx now st'
    \<and> nbs_seen st' = nbs_seen st \<union> {y. \<exists>x \<in> set frontier. linked s ctx now x y}
    \<and> set (nbs_next st') = set (nbs_next st) \<union> ({y. \<exists>x \<in> set frontier. linked s ctx now x y} - nbs_seen st)"
  using assms(2,3) unfolding st'_def
proof (induction frontier arbitrary: st)
  case (Cons i frontier)
  let ?st = "nb_visit s ctx now (tenant_edges s (qc_tenant_id ctx)) i st"
  from Cons.prems have "i \<in> nbs_seen st" by simp
  note r = nb_visit_result [OF inv subset_refl this Cons.prems(2), unfolded step_edges_linked]
  with Cons.prems have "set frontier \<subseteq> nbs_seen ?st" by auto
  with Cons.IH [of ?st] r show ?case by auto
qed simp

lemma nb_rounds_result:
  assumes inv: "graph_store_inv s"
    and "nb_ok s ctx now st" "nbs_seen st = ball s ctx now r k" "set frontier \<subseteq> nbs_seen st"
    and "\<And>x y. x \<in> nbs_seen st \<Longrightarrow> x \<notin> set frontier \<Longrightarrow> linked s ctx now x y \<Longrightarrow> y \<in> nbs_seen st"
  defines "es \<equiv> tenant_edges s (qc_tenant_id ctx)"
  shows "nb_ok s ctx now (nb_rounds h s ctx now es frontier st)
    \<and> nbs_seen (nb_rounds h s ctx now es frontier st) = ball s ctx now r (k + h)"
  using assms(2-5)
proof (induction h arbitrary: st frontier k)
  case (Suc h)
  let ?st = "nb_round s ctx now es frontier st"
  have ok: "nb_ok s ctx now (st\<lparr>nbs_next := []\<rparr>)" using Suc.prems(1) by (simp add: nb_ok_def)
  have fr: "set frontier \<subseteq> nbs_seen (st\<lparr>nbs_next := []\<rparr>)" using Suc.prems(3) by simp
  note r = nb_fold_result [OF inv fr ok, folded es_def nb_round_def]
  have grow: "ball s ctx now r k \<union> {y. \<exists>x \<in> set frontier. linked s ctx now x y} = ball s ctx now r (Suc k)"
    using Suc.prems(3,4) unfolding Suc.prems(2) by (auto; blast)
  have seen: "nbs_seen ?st = ball s ctx now r (Suc k)"
    using r grow Suc.prems(2) by simp
  have nxt: "set (nbs_next ?st) = ball s ctx now r (Suc k) - ball s ctx now r k"
    using r grow Suc.prems(2) by auto
  show ?case
  proof (cases "nbs_next ?st = []")
    case True
    then have "ball s ctx now r (Suc k) = ball s ctx now r k"
      using nxt ball_mono [of s ctx now r k] by auto
    then have "ball s ctx now r (k + Suc h) = ball s ctx now r (Suc k)"
      using ball_stable [of s ctx now r k "Suc h"] by simp
    with r seen True show ?thesis by simp
  next
    case False
    have "nb_ok s ctx now (nb_rounds h s ctx now es (nbs_next ?st) ?st)
      \<and> nbs_seen (nb_rounds h s ctx now es (nbs_next ?st) ?st) = ball s ctx now r (Suc k + h)"
    proof (rule Suc.IH)
      show "nb_ok s ctx now ?st" using r by simp
      show "nbs_seen ?st = ball s ctx now r (Suc k)" by (rule seen)
      show "set (nbs_next ?st) \<subseteq> nbs_seen ?st" using nxt seen by auto
      show "y \<in> nbs_seen ?st" if "x \<in> nbs_seen ?st" "x \<notin> set (nbs_next ?st)" "linked s ctx now x y" for x y
        using that unfolding seen nxt by auto
    qed
    with False show ?thesis by (simp add: Let_def)
  qed
qed simp

text \<open>
  C8. The neighbourhood query returns exactly the ball: the ids of its nodes are the ids reachable
  from the root in at most the clamped number of hops over active edges visible to the caller,
  through nodes visible to the caller; each node appears once, and every edge is active, visible
  and joins two returned nodes. It fails exactly when the root is not visible.
\<close>

theorem neighborhood_is_visible_ball:
  assumes "graph_store_inv s"
  shows "case neighborhood s ctx now root_id hops of
      Inl e \<Rightarrow> get_node s ctx root_id = None \<and> e = GNotFound (''node '' @ root_id)
    | Inr nb \<Rightarrow>
        get_node s ctx root_id = Some (nb_root nb) \<and> nb_hops nb = clamp 1 6 hops
        \<and> gn_node_id ` set (nb_nodes nb)
            = {y. \<exists>j \<le> clamp 1 6 hops. (linked s ctx now ^^ j) root_id y}
        \<and> distinct (map gn_node_id (nb_nodes nb))
        \<and> (\<forall>n \<in> set (nb_nodes nb). visible_node ctx n \<and> get_node s ctx (gn_node_id n) = Some n)
        \<and> (\<forall>e \<in> set (nb_edges nb). visible_edge ctx e \<and> active_edge e now
             \<and> {ge_from_node_id e, ge_to_node_id e} \<subseteq> gn_node_id ` set (nb_nodes nb))"
proof (cases "get_node s ctx root_id")
  case None
  then show ?thesis by (simp add: neighborhood_def)
next
  case (Some n)
  let ?st = "\<lparr>nbs_seen = {root_id}, nbs_nodes = [n], nbs_edges = [], nbs_next = []\<rparr>"
  let ?es = "tenant_edges s (qc_tenant_id ctx)"
  let ?r = "nb_rounds (clamp 1 6 hops) s ctx now ?es [root_id] ?st"
  have "nb_ok s ctx now ?st" using get_nodeD [OF assms Some] Some by (simp add: nb_ok_def)
  from nb_rounds_result [OF assms this, of root_id 0 "[root_id]" "clamp 1 6 hops"]
  have r: "nb_ok s ctx now ?r" "nbs_seen ?r = ball s ctx now root_id (clamp 1 6 hops)" by auto
  have ids: "gn_node_id ` set (nbs_nodes ?r)
      = {y. \<exists>j \<le> clamp 1 6 hops. (linked s ctx now ^^ j) root_id y}"
    using r ball_iff_walk [of _ s ctx now root_id "clamp 1 6 hops"] by (auto simp: nb_ok_def)
  have vis: "visible_node ctx m" if "m \<in> set (nbs_nodes ?r)" for m
    using r(1) that by (auto simp: nb_ok_def dest: get_nodeD [OF assms])
  have eq: "neighborhood s ctx now root_id hops
      = Inr \<lparr>nb_root = n, nb_nodes = nbs_nodes ?r, nb_edges = nbs_edges ?r, nb_hops = clamp 1 6 hops\<rparr>"
    by (simp add: neighborhood_def Some Let_def)
  have "distinct (map gn_node_id (nbs_nodes ?r))
      \<and> (\<forall>m \<in> set (nbs_nodes ?r). get_node s ctx (gn_node_id m) = Some m)
      \<and> (\<forall>e \<in> set (nbs_edges ?r). visible_edge ctx e \<and> active_edge e now
             \<and> {ge_from_node_id e, ge_to_node_id e} \<subseteq> gn_node_id ` set (nbs_nodes ?r))"
    using r(1) by (auto simp: nb_ok_def)
  then show ?thesis using ids vis Some by (simp add: eq)
qed

section \<open>Paths are shortest visible walks\<close>

text \<open>A walk: its node ids and the edges between them.\<close>

fun walk_ok ::
  "graph_store \<Rightarrow> query_context \<Rightarrow> instant \<Rightarrow> string list \<Rightarrow> graph_edge list \<Rightarrow> bool" where
  "walk_ok s ctx now [x] [] \<longleftrightarrow> get_node s ctx x \<noteq> None"
| "walk_ok s ctx now (x # y # ids) (e # es) \<longleftrightarrow>
     get_node s ctx x \<noteq> None \<and> step_edge s ctx now e x y \<and> walk_ok s ctx now (y # ids) es"
| "walk_ok s ctx now _ _ \<longleftrightarrow> False"

lemma walk_ok_length: "walk_ok s ctx now ids es \<Longrightarrow> length ids = Suc (length es)"
  by (induction s ctx now ids es rule: walk_ok.induct) auto

lemma walk_ok_visible: "walk_ok s ctx now ids es \<Longrightarrow> x \<in> set ids \<Longrightarrow> get_node s ctx x \<noteq> None"
  by (induction s ctx now ids es rule: walk_ok.induct) auto

lemma walk_ok_edges:
  "walk_ok s ctx now ids es \<Longrightarrow> e \<in> set es \<Longrightarrow>
   visible_edge ctx e \<and> active_edge e now \<and> ge_from_node_id e \<in> set ids \<and> ge_to_node_id e \<in> set ids"
  by (induction s ctx now ids es rule: walk_ok.induct)
    (auto simp: step_edge_def other_end_def split: if_splits)

lemma walk_ok_snoc:
  "walk_ok s ctx now (ids @ [x]) es \<Longrightarrow> step_edge s ctx now e x y \<Longrightarrow>
   walk_ok s ctx now (ids @ [x, y]) (es @ [e])"
proof (induction ids arbitrary: es)
  case Nil
  then show ?case by (cases es) (auto simp: step_edge_def)
next
  case (Cons a ids)
  then obtain b where b: "ids @ [x] = b # tl (ids @ [x])" by (cases ids) auto
  with Cons.prems(1) obtain e0 es0 where es: "es = e0 # es0" by (cases es; cases ids) auto
  have bb: "ids @ [x, y] = b # tl (ids @ [x, y])" using b by (cases ids) auto
  have "walk_ok s ctx now (ids @ [x]) es0" using Cons.prems(1) b es
    by (metis append_Cons walk_ok.simps(2))
  with Cons.IH Cons.prems(2) have "walk_ok s ctx now (ids @ [x, y]) (es0 @ [e])" by blast
  with Cons.prems(1) b bb es show ?case by (metis append_Cons walk_ok.simps(2))
qed

lemma walk_ok_relpow:
  "walk_ok s ctx now ids es \<Longrightarrow> (linked s ctx now ^^ length es) (hd ids) (last ids)"
proof (induction s ctx now ids es rule: walk_ok.induct)
  case (2 s ctx now x y ids e es)
  then have "linked s ctx now x y" unfolding linked_def by auto
  moreover from 2 have "(linked s ctx now ^^ length es) y (last (y # ids))" by auto
  ultimately have "(linked s ctx now ^^ Suc (length es)) x (last (y # ids))" by (rule relpowp_Suc_I2)
  then show ?case by simp
qed auto

text \<open>The predecessor map is a tree of shortest-so-far walks.\<close>

definition tree_ok ::
  "graph_store \<Rightarrow> query_context \<Rightarrow> instant \<Rightarrow> string \<Rightarrow> (string, nat) dashmap \<Rightarrow> prev_map \<Rightarrow> bool" where
  "tree_ok s ctx now from_id dist prev \<longleftrightarrow>
     get_node s ctx from_id \<noteq> None \<and> dm_get dist from_id = Some 0
     \<and> (\<forall>x d. dm_get dist x = Some d \<longrightarrow> x \<noteq> from_id \<longrightarrow>
          (\<exists>p e d'. d = Suc d' \<and> dm_get prev x = Some (p, e) \<and> dm_get dist p = Some d'
             \<and> step_edge s ctx now e p x))"

lemma walk_back_tree:
  assumes "tree_ok s ctx now from_id dist prev"
  shows "dm_get dist x = Some d \<Longrightarrow>
    \<exists>ids es. walk_back prev from_id x ns fs = Some (ids @ ns, es @ fs)
      \<and> walk_ok s ctx now (ids @ [x]) es \<and> hd (ids @ [x]) = from_id \<and> length es = d"
proof (induction d arbitrary: x ns fs)
  case 0
  then have "x = from_id" using assms by (auto simp: tree_ok_def)
  then show ?case
    using assms by (intro exI [of _ "[]"]) (simp add: walk_back.simps tree_ok_def)
next
  case (Suc d)
  then have x: "x \<noteq> from_id" using assms by (auto simp: tree_ok_def)
  with Suc.prems assms obtain p e d' where "Suc d = Suc d'" "dm_get prev x = Some (p, e)"
    "dm_get dist p = Some d'" "step_edge s ctx now e p x" unfolding tree_ok_def by blast
  then have pe: "dm_get prev x = Some (p, e)" "dm_get dist p = Some d" "step_edge s ctx now e p x"
    by simp_all
  from Suc.IH [OF pe(2), of "p # ns" "e # fs"] obtain ids es where
    w: "walk_back prev from_id p (p # ns) (e # fs) = Some (ids @ p # ns, es @ e # fs)"
      "walk_ok s ctx now (ids @ [p]) es" "hd (ids @ [p]) = from_id" "length es = d" by blast
  have "walk_back prev from_id x ns fs = Some ((ids @ [p]) @ ns, (es @ [e]) @ fs)"
    using x pe(1) w(1) by (subst walk_back.simps) simp
  moreover have "walk_ok s ctx now ((ids @ [p]) @ [x]) (es @ [e])"
    using walk_ok_snoc [OF w(2) pe(3)] by simp
  moreover have "hd ((ids @ [p]) @ [x]) = from_id" using w(3) by (cases ids) auto
  ultimately show ?case using w(4) by (metis length_append_singleton)
qed

text \<open>One scan: what it adds to the queue, the distances and the tree.\<close>

definition scan_adds ::
  "(string, nat) dashmap \<Rightarrow> prev_map \<Rightarrow> (string, nat) dashmap \<Rightarrow> prev_map \<Rightarrow> nat \<Rightarrow> string list \<Rightarrow> bool" where
  "scan_adds dist prev dist' prev' d new \<longleftrightarrow>
     distinct new \<and> (\<forall>y \<in> set new. dm_get dist y = None)
     \<and> dm_get dist' = (\<lambda>y. if y \<in> set new then Some (Suc d) else dm_get dist y)
     \<and> (\<forall>y. y \<notin> set new \<longrightarrow> dm_get prev' y = dm_get prev y)"

lemma tree_ok_extend:
  assumes t: "tree_ok s ctx now from_id dist prev" and c: "dm_get dist cur = Some d"
    and j: "step_edge s ctx now e cur j" "dm_get dist j = None"
  shows "tree_ok s ctx now from_id (dm_put j (Suc d) dist) (dm_put j (cur, e) prev)"
proof -
  have f: "j \<noteq> from_id" and cj: "cur \<noteq> j" using t c j(2) by (auto simp: tree_ok_def)
  have old: "\<exists>p e d'. d0 = Suc d' \<and> dm_get prev x = Some (p, e) \<and> dm_get dist p = Some d' \<and> p \<noteq> j
      \<and> step_edge s ctx now e p x" if "dm_get dist x = Some d0" "x \<noteq> from_id" for x d0
  proof -
    from t that obtain p e d' where "d0 = Suc d'" "dm_get prev x = Some (p, e)" "dm_get dist p = Some d'"
      "step_edge s ctx now e p x" unfolding tree_ok_def by blast
    moreover from this j(2) have "p \<noteq> j" by auto
    ultimately show ?thesis by blast
  qed
  have "\<exists>p e' d'. d0 = Suc d' \<and> dm_get (dm_put j (cur, e) prev) x = Some (p, e')
      \<and> dm_get (dm_put j (Suc d) dist) p = Some d' \<and> step_edge s ctx now e' p x"
    if "dm_get (dm_put j (Suc d) dist) x = Some d0" "x \<noteq> from_id" for x d0
  proof (cases "x = j")
    case True
    then show ?thesis using that j(1) c cj by simp
  next
    case False
    with that have "dm_get dist x = Some d0" by simp
    from old [OF this that(2)] False show ?thesis by auto
  qed
  then show ?thesis using t f unfolding tree_ok_def by simp
qed

lemma path_scan_Inr:
  assumes "path_scan s ctx now to_id cur d es q dist prev = Inr (q', dist', prev')"
    and "set es \<subseteq> set (tenant_edges s (qc_tenant_id ctx))"
    and "tree_ok s ctx now from_id dist prev" "dm_get dist cur = Some d"
  shows "\<exists>new. q' = q @ new \<and> scan_adds dist prev dist' prev' d new
    \<and> tree_ok s ctx now from_id dist' prev' \<and> to_id \<notin> set new
    \<and> (\<forall>e \<in> set es. \<forall>y. step_edge s ctx now e cur y \<longrightarrow> dm_get dist' y \<noteq> None)"
  using assms
proof (induction es arbitrary: q dist prev)
  case Nil
  then show ?case by (intro exI [of _ "[]"]) (simp add: scan_adds_def)
next
  case (Cons e es)
  note scan = Cons.prems(1) and tree0 = Cons.prems(3) and cur0 = Cons.prems(4)
  have sub: "set es \<subseteq> set (tenant_edges s (qc_tenant_id ctx))" and e: "e \<in> set (tenant_edges s (qc_tenant_id ctx))"
    using Cons.prems(2) by auto
  show ?case
  proof (cases "\<exists>j. step_edge s ctx now e cur j \<and> dm_get dist j = None")
    case False
    then have "path_scan s ctx now to_id cur d es q dist prev = Inr (q', dist', prev')"
      using scan e by (auto simp: step_edge_def split: option.splits if_splits)
    from Cons.IH [OF this sub tree0 cur0] obtain new where
      new: "q' = q @ new" "scan_adds dist prev dist' prev' d new" "tree_ok s ctx now from_id dist' prev'"
        "to_id \<notin> set new" "\<forall>e \<in> set es. \<forall>y. step_edge s ctx now e cur y \<longrightarrow> dm_get dist' y \<noteq> None"
      by blast
    have "dm_get dist' y \<noteq> None" if "step_edge s ctx now e cur y" for y
      using False that new(2) by (auto simp: scan_adds_def)
    with new show ?thesis by (intro exI [of _ new]) auto
  next
    case True
    then obtain j where j: "step_edge s ctx now e cur j" "dm_get dist j = None" by blast
    let ?dist = "dm_put j (d + 1) dist" and ?prev = "dm_put j (cur, e) prev"
    have step: "visible_edge ctx e" "active_edge e now" "other_end e cur = Some j" "get_node s ctx j \<noteq> None"
      using j(1) by (simp_all add: step_edge_def)
    have t: "j \<noteq> to_id" and r: "path_scan s ctx now to_id cur d es (q @ [j]) ?dist ?prev = Inr (q', dist', prev')"
      using scan step j(2) by (auto simp: Let_def split: if_splits)
    have tree: "tree_ok s ctx now from_id ?dist ?prev"
      using tree_ok_extend [OF tree0 cur0 j] by simp
    have "dm_get ?dist cur = Some d" using cur0 j(2) by auto
    from Cons.IH [OF r sub tree this] obtain new where
      new: "q' = q @ [j] @ new" "scan_adds ?dist ?prev dist' prev' d new" "tree_ok s ctx now from_id dist' prev'"
        "to_id \<notin> set new" "\<forall>e \<in> set es. \<forall>y. step_edge s ctx now e cur y \<longrightarrow> dm_get dist' y \<noteq> None"
      by (auto simp del: dm_get_put)
    have "scan_adds dist prev dist' prev' d (j # new)"
      using new(2) j(2) by (auto simp: scan_adds_def fun_eq_iff split: if_splits)
    moreover have "y = j" if "step_edge s ctx now e cur y" for y
      using that step(3) by (simp add: step_edge_def)
    ultimately show ?thesis
      using new t by (intro exI [of _ "j # new"]) (auto simp: scan_adds_def)
  qed
qed

lemma path_scan_Inl:
  assumes "path_scan s ctx now to_id cur d es q dist prev = Inl prev'"
    and "set es \<subseteq> set (tenant_edges s (qc_tenant_id ctx))"
    and "tree_ok s ctx now from_id dist prev" "dm_get dist cur = Some d" "dm_get dist to_id = None"
  shows "\<exists>dist'. tree_ok s ctx now from_id dist' prev' \<and> dm_get dist' to_id = Some (Suc d)"
  using assms
proof (induction es arbitrary: q dist prev)
  case (Cons e es)
  note scan = Cons.prems(1) and tree0 = Cons.prems(3) and cur0 = Cons.prems(4)
  have sub: "set es \<subseteq> set (tenant_edges s (qc_tenant_id ctx))" and e: "e \<in> set (tenant_edges s (qc_tenant_id ctx))"
    using Cons.prems(2) by auto
  show ?case
  proof (cases "\<exists>j. step_edge s ctx now e cur j \<and> dm_get dist j = None")
    case False
    then have "path_scan s ctx now to_id cur d es q dist prev = Inl prev'"
      using scan e by (auto simp: step_edge_def split: option.splits if_splits)
    from Cons.IH [OF this sub tree0 cur0 Cons.prems(5)] show ?thesis .
  next
    case True
    then obtain j where j: "step_edge s ctx now e cur j" "dm_get dist j = None" by blast
    let ?dist = "dm_put j (Suc d) dist" and ?prev = "dm_put j (cur, e) prev"
    have step: "visible_edge ctx e" "active_edge e now" "other_end e cur = Some j" "get_node s ctx j \<noteq> None"
      using j(1) by (simp_all add: step_edge_def)
    note tree = tree_ok_extend [OF tree0 cur0 j]
    show ?thesis
    proof (cases "j = to_id")
      case True
      then have "prev' = ?prev" using scan step j(2) by (auto simp: Let_def)
      with tree True show ?thesis by (intro exI [of _ ?dist]) simp
    next
      case False
      then have r: "path_scan s ctx now to_id cur d es (q @ [j]) ?dist ?prev = Inl prev'"
        using scan step j(2) by (auto simp: Let_def)
      have "dm_get ?dist cur = Some d" "dm_get ?dist to_id = None"
        using cur0 j(2) False Cons.prems(5) by auto
      from Cons.IH [OF r sub tree this] show ?thesis .
    qed
  qed
qed simp

lemma path_scan_to_known:
  "dm_get dist to_id \<noteq> None \<Longrightarrow> path_scan s ctx now to_id cur d es q dist prev \<noteq> Inl prev'"
proof (induction es arbitrary: q dist prev)
  case (Cons e es)
  then show ?case by (auto simp: Let_def split: option.split)
qed simp

definition bfs_inv ::
  "graph_store \<Rightarrow> query_context \<Rightarrow> instant \<Rightarrow> string \<Rightarrow> string \<Rightarrow> nat \<Rightarrow> string list
   \<Rightarrow> (string, nat) dashmap \<Rightarrow> prev_map \<Rightarrow> bool" where
  "bfs_inv s ctx now from_id to_id mh q dist prev \<longleftrightarrow>
     tree_ok s ctx now from_id dist prev \<and> distinct q \<and> (\<forall>x \<in> set q. dm_get dist x \<noteq> None)
     \<and> sorted (map (\<lambda>x. the (dm_get dist x)) q)
     \<and> (\<forall>c q'. q = c # q' \<longrightarrow> (\<forall>x d. dm_get dist x = Some d \<longrightarrow> d \<le> Suc (the (dm_get dist c))))
     \<and> (\<forall>x d y. dm_get dist x = Some d \<longrightarrow> x \<notin> set q \<longrightarrow> d < mh \<longrightarrow> linked s ctx now x y \<longrightarrow>
          (\<exists>d'. dm_get dist y = Some d' \<and> d' \<le> Suc d))
     \<and> (to_id \<noteq> from_id \<longrightarrow> dm_get dist to_id = None)"

lemma bfs_covers:
  assumes i: "bfs_inv s ctx now from_id to_id mh q dist prev"
    and q: "\<And>x. x \<in> set q \<Longrightarrow> D \<le> the (dm_get dist x)" and "D \<le> mh"
  shows "(linked s ctx now ^^ k) from_id x \<Longrightarrow> k \<le> D \<Longrightarrow> \<exists>d. dm_get dist x = Some d \<and> d \<le> k"
proof (induction k arbitrary: x)
  case 0
  then show ?case using i by (auto simp: bfs_inv_def tree_ok_def)
next
  case (Suc k)
  then obtain z where z: "(linked s ctx now ^^ k) from_id z" "linked s ctx now z x" by auto
  with Suc obtain dz where dz: "dm_get dist z = Some dz" "dz \<le> k" by auto
  with q [of z] Suc.prems(2) have "z \<notin> set q" by auto
  moreover have "dz < mh" using dz(2) Suc.prems(2) assms(3) by simp
  ultimately obtain d' where "dm_get dist x = Some d'" "d' \<le> Suc dz"
    using i dz(1) z(2) unfolding bfs_inv_def by blast
  with dz(2) show ?case by auto
qed

lemma bfs_drop:
  assumes i: "bfs_inv s ctx now from_id to_id mh (cur # q) dist prev"
    and d: "dm_get dist cur = Some d" "mh \<le> d"
  shows "bfs_inv s ctx now from_id to_id mh q dist prev"
proof -
  have "\<forall>x dx. dm_get dist x = Some dx \<longrightarrow> dx \<le> Suc (the (dm_get dist c))" if "q = c # q'" for c q'
  proof (intro allI impI)
    fix x dx assume "dm_get dist x = Some dx"
    with i d have "dx \<le> Suc d" unfolding bfs_inv_def by fastforce
    moreover have "d \<le> the (dm_get dist c)" using i d that by (auto simp: bfs_inv_def)
    ultimately show "dx \<le> Suc (the (dm_get dist c))" by simp
  qed
  moreover have "\<exists>d'. dm_get dist y = Some d' \<and> d' \<le> Suc dx"
    if x: "dm_get dist x = Some dx" "x \<notin> set q" "dx < mh" "linked s ctx now x y" for x dx y
  proof -
    have "x \<noteq> cur" using x(1,3) d by auto
    then have "x \<notin> set (cur # q)" using x(2) by simp
    with i x show ?thesis unfolding bfs_inv_def by blast
  qed
  moreover have "tree_ok s ctx now from_id dist prev" "distinct q" "\<forall>x \<in> set q. dm_get dist x \<noteq> None"
    "sorted (map (\<lambda>x. the (dm_get dist x)) q)" "to_id \<noteq> from_id \<longrightarrow> dm_get dist to_id = None"
    using i by (simp_all add: bfs_inv_def)
  ultimately show ?thesis unfolding bfs_inv_def by blast
qed

lemma bfs_scan:
  assumes i: "bfs_inv s ctx now from_id to_id mh (cur # q) dist prev"
    and d: "dm_get dist cur = Some d"
    and r: "path_scan s ctx now to_id cur d (tenant_edges s (qc_tenant_id ctx)) q dist prev
      = Inr (q', dist', prev')"
  shows "bfs_inv s ctx now from_id to_id mh q' dist' prev'"
proof -
  have t: "tree_ok s ctx now from_id dist prev" using i by (simp add: bfs_inv_def)
  from path_scan_Inr [OF r subset_refl t d] obtain new where q': "q' = q @ new"
    and adds: "scan_adds dist prev dist' prev' d new" and t': "tree_ok s ctx now from_id dist' prev'"
    and to: "to_id \<notin> set new"
    and nb: "\<And>e y. e \<in> set (tenant_edges s (qc_tenant_id ctx)) \<Longrightarrow> step_edge s ctx now e cur y \<Longrightarrow>
      dm_get dist' y \<noteq> None" by blast
  have dist': "dm_get dist' y = (if y \<in> set new then Some (Suc d) else dm_get dist y)" for y
    using adds by (simp add: scan_adds_def)
  have new: "distinct new" "\<And>y. y \<in> set new \<Longrightarrow> dm_get dist y = None"
    using adds by (auto simp: scan_adds_def)
  have bound: "dx \<le> Suc d" if "dm_get dist' x = Some dx" for x dx
  proof (cases "x \<in> set new")
    case False
    with that dist' have "dm_get dist x = Some dx" by simp
    with i d show ?thesis unfolding bfs_inv_def by fastforce
  qed (use that dist' in simp)
  have qd: "dm_get dist x \<noteq> None" "d \<le> the (dm_get dist x)" "x \<notin> set new" if "x \<in> set q" for x
    using i d that new(2) by (auto simp: bfs_inv_def)
  have q_new: "map (\<lambda>x. the (dm_get dist' x)) q' = map (\<lambda>x. the (dm_get dist x)) q @ map (\<lambda>_. Suc d) new"
    using qd(3) by (auto simp: q' dist')
  have "sorted (map (\<lambda>x. the (dm_get dist' x)) q')"
    unfolding q_new sorted_append
  proof (intro conjI ballI)
    show "sorted (map (\<lambda>x. the (dm_get dist x)) q)" using i by (simp add: bfs_inv_def)
    show "sorted (map (\<lambda>_. Suc d) new)" by (induction new) auto
    fix a b assume "a \<in> set (map (\<lambda>x. the (dm_get dist x)) q)" "b \<in> set (map (\<lambda>_. Suc d) new)"
    then obtain x where x: "x \<in> set q" "a = the (dm_get dist x)" and b: "b = Suc d" by auto
    from qd [OF x(1)] obtain dx where "dm_get dist x = Some dx" "x \<notin> set new" by auto
    with bound [of x dx] x b show "a \<le> b" by (simp add: dist')
  qed
  moreover have "\<forall>x dx. dm_get dist' x = Some dx \<longrightarrow> dx \<le> Suc (the (dm_get dist' c))"
    if "q' = c # q0" for c q0
  proof -
    have "d \<le> the (dm_get dist' c)"
    proof (cases "c \<in> set new")
      case True
      then show ?thesis by (simp add: dist')
    next
      case False
      with that q' have "c \<in> set q" by (cases q) auto
      with qd False show ?thesis by (simp add: dist')
    qed
    with bound show ?thesis by (meson Suc_le_mono le_trans)
  qed
  moreover have "\<exists>d'. dm_get dist' y = Some d' \<and> d' \<le> Suc dx"
    if x: "dm_get dist' x = Some dx" "x \<notin> set q'" "dx < mh" "linked s ctx now x y" for x dx y
  proof (cases "x = cur")
    case True
    then have "dx = d" using x d dist' new(2) by (auto split: if_splits)
    moreover obtain dy where "dm_get dist' y = Some dy"
      using nb x(4) True by (auto simp: linked_def step_edge_def)
    ultimately show ?thesis using bound by blast
  next
    case False
    then have "dm_get dist x = Some dx" "x \<notin> set (cur # q)" using x q' dist' by auto
    with i x(3,4) obtain d' where "dm_get dist y = Some d'" "d' \<le> Suc dx"
      unfolding bfs_inv_def by blast
    with new(2) dist' show ?thesis by (metis option.distinct(1))
  qed
  moreover have "distinct q'" "\<forall>x \<in> set q'. dm_get dist' x \<noteq> None"
    using i new qd by (auto simp: bfs_inv_def q' dist')
  moreover have "to_id \<noteq> from_id \<longrightarrow> dm_get dist' to_id = None"
    using i to by (simp add: bfs_inv_def dist')
  ultimately show ?thesis using t' unfolding bfs_inv_def by blast
qed

lemma path_search_result:
  assumes "bfs_inv s ctx now from_id to_id mh q dist prev"
    and "es = tenant_edges s (qc_tenant_id ctx)"
  shows "case path_search s ctx now to_id mh es q dist prev of
      None \<Rightarrow> to_id = from_id \<or> (\<forall>k \<le> mh. \<not> (linked s ctx now ^^ k) from_id to_id)
    | Some prev' \<Rightarrow> to_id \<noteq> from_id
        \<and> (\<exists>dist' d. tree_ok s ctx now from_id dist' prev' \<and> dm_get dist' to_id = Some d \<and> d \<le> mh
            \<and> (\<forall>k < d. \<not> (linked s ctx now ^^ k) from_id to_id))"
  using assms
proof (induction s ctx now to_id mh es q dist prev rule: path_search.induct)
  case (1 s ctx now to_id mh es dist prev)
  have "\<not> (linked s ctx now ^^ k) from_id to_id" if "to_id \<noteq> from_id" "k \<le> mh" for k
    using bfs_covers [OF 1(1), of mh k to_id] that 1(1) by (auto simp: bfs_inv_def)
  then show ?case by auto
next
  case (2 s ctx now to_id mh es cur q dist prev)
  from 2(3) obtain d where d: "dm_get dist cur = Some d" by (auto simp: bfs_inv_def)
  note IH = 2(1,2) [OF refl] and inv = 2(3) and es = 2(4)
  show ?case
  proof (cases "mh \<le> d")
    case True
    with IH(1) bfs_drop [OF inv d] d es show ?thesis by simp
  next
    case False
    show ?thesis
    proof (cases "path_scan s ctx now to_id cur d es q dist prev")
      case (Inr x)
      obtain q' dist' prev' where x: "x = (q', dist', prev')" by (cases x)
      have "bfs_inv s ctx now from_id to_id mh q' dist' prev'"
        using bfs_scan [OF inv d] Inr es x by simp
      moreover have "path_search s ctx now to_id mh es (cur # q) dist prev
          = path_search s ctx now to_id mh es q' dist' prev'"
        using d False Inr x by simp
      moreover have "\<not> mh \<le> unwrap_or (dm_get dist cur) 0"
        "path_scan s ctx now to_id cur (unwrap_or (dm_get dist cur) 0) es q dist prev = Inr x"
        using d False Inr by simp_all
      ultimately show ?thesis using IH(2) [OF _ _ x [symmetric] refl _ es] by simp
    next
      case (Inl prev')
      have to: "to_id \<noteq> from_id \<and> dm_get dist to_id = None"
      proof (cases "to_id = from_id")
        case True
        have "tree_ok s ctx now from_id dist prev" using inv by (simp add: bfs_inv_def)
        then have "dm_get dist to_id \<noteq> None" using True by (simp add: tree_ok_def)
        then show ?thesis using path_scan_to_known Inl by blast
      next
        case False
        then show ?thesis using inv by (simp add: bfs_inv_def)
      qed
      have "tree_ok s ctx now from_id dist prev" using inv by (simp add: bfs_inv_def)
      from path_scan_Inl [OF Inl [unfolded es] subset_refl this d] to obtain dist' where
        t: "tree_ok s ctx now from_id dist' prev'" "dm_get dist' to_id = Some (Suc d)" by auto
      have "d \<le> the (dm_get dist x)" if "x \<in> set (cur # q)" for x
        using inv d that by (auto simp: bfs_inv_def)
      from bfs_covers [OF inv this] False to
      have "\<not> (linked s ctx now ^^ k) from_id to_id" if "k < Suc d" for k
        using that by (metis less_Suc_eq_le not_less_eq_eq nle_le option.distinct(1))
      with t to False d Inl show ?thesis by (auto simp: Let_def)
    qed
  qed
qed

lemma map_filter_visible:
  assumes "graph_store_inv s" "\<forall>x \<in> set ids. get_node s ctx x \<noteq> None"
  shows "map gn_node_id (List.map_filter (get_node s ctx) ids) = ids
    \<and> (\<forall>n \<in> set (List.map_filter (get_node s ctx) ids). visible_node ctx n)"
  using assms(2)
proof (induction ids)
  case (Cons x ids)
  then obtain n where "get_node s ctx x = Some n" by auto
  with Cons get_nodeD [OF assms(1) this] show ?case by (simp add: List.map_filter_simps)
qed (simp add: List.map_filter_simps)

text \<open>
  C9. The path query never panics and is exact: it answers with a path exactly when the two nodes
  are different, both visible, and joined by a visible walk of at most the clamped number of hops;
  the path it returns is such a walk from one to the other, all its nodes and edges visible and its
  edges active, and no walk is shorter. From a node to itself it answers with no path.
\<close>

theorem path_is_shortest_visible_walk:
  assumes inv: "graph_store_inv s"
  shows "\<exists>r. path s ctx now from_id to_id mh = Some r
    \<and> (r \<noteq> None \<longleftrightarrow> from_id \<noteq> to_id \<and> get_node s ctx from_id \<noteq> None \<and> get_node s ctx to_id \<noteq> None
         \<and> (\<exists>k \<le> clamp 1 6 mh. (linked s ctx now ^^ k) from_id to_id))
    \<and> (\<forall>p. r = Some p \<longrightarrow>
         (let ids = map gn_node_id (gp_nodes p) in
          walk_ok s ctx now ids (gp_edges p) \<and> hd ids = from_id \<and> last ids = to_id
          \<and> (\<forall>n \<in> set (gp_nodes p). visible_node ctx n)
          \<and> (\<forall>e \<in> set (gp_edges p). visible_edge ctx e \<and> active_edge e now)
          \<and> length (gp_edges p) \<le> clamp 1 6 mh
          \<and> (\<forall>k < length (gp_edges p). \<not> (linked s ctx now ^^ k) from_id to_id)))"
proof (cases "get_node s ctx from_id = None \<or> get_node s ctx to_id = None")
  case True
  then show ?thesis by (intro exI [of _ None]) (auto simp: path_def Let_def)
next
  case vis: False
  let ?mh = "clamp 1 6 mh" and ?es = "tenant_edges s (qc_tenant_id ctx)"
  define search where "search = path_search s ctx now to_id ?mh ?es [from_id] (dm_put from_id 0 []) []"
  have "bfs_inv s ctx now from_id to_id ?mh [from_id] (dm_put from_id 0 []) []"
    using vis by (auto simp: bfs_inv_def tree_ok_def)
  note res = path_search_result [OF this refl, folded search_def]
  have eq: "path s ctx now from_id to_id mh = (case search of
        None \<Rightarrow> Some None
      | Some prev \<Rightarrow>
          (case walk_back prev from_id to_id [to_id] [] of
             None \<Rightarrow> None
           | Some (ids, es) \<Rightarrow>
               Some (Some \<lparr>gp_nodes = List.map_filter (get_node s ctx) ids, gp_edges = es\<rparr>)))"
    unfolding path_def Let_def search_def by (rule if_not_P [OF vis])
  show ?thesis
  proof (cases search)
    case None
    with res have n: "to_id = from_id \<or> (\<forall>k \<le> ?mh. \<not> (linked s ctx now ^^ k) from_id to_id)" by simp
    with None show ?thesis by (intro exI [of _ None]) (auto simp: eq)
  next
    case (Some prev)
    with res obtain dist' d where ne: "to_id \<noteq> from_id"
      and t: "tree_ok s ctx now from_id dist' prev" and dd: "dm_get dist' to_id = Some d" "d \<le> ?mh"
      and short: "\<forall>k < d. \<not> (linked s ctx now ^^ k) from_id to_id" by auto
    from walk_back_tree [OF t dd(1), of "[to_id]" "[]"] obtain ids es where
      w: "walk_back prev from_id to_id [to_id] [] = Some (ids @ [to_id], es)"
        "walk_ok s ctx now (ids @ [to_id]) es" "hd (ids @ [to_id]) = from_id" "length es = d" by auto
    let ?p = "\<lparr>gp_nodes = List.map_filter (get_node s ctx) (ids @ [to_id]), gp_edges = es\<rparr>"
    have r: "path s ctx now from_id to_id mh = Some (Some ?p)" by (simp add: eq Some w(1))
    have mf: "map gn_node_id (gp_nodes ?p) = ids @ [to_id]" "\<forall>n \<in> set (gp_nodes ?p). visible_node ctx n"
      using map_filter_visible [OF inv, of "ids @ [to_id]" ctx] walk_ok_visible [OF w(2)] by auto
    have walk: "(linked s ctx now ^^ d) from_id to_id"
      using walk_ok_relpow [OF w(2)] w(3,4) by simp
    show ?thesis
      using vis ne dd(2) walk short w(2-4) walk_ok_edges [OF w(2)] mf
      by (intro exI [of _ "Some ?p"]) (auto simp: r Let_def simp del: map_map)
  qed
qed

section \<open>Queries depend on the visible part only\<close>

text \<open>The store without what the caller may not see.\<close>

definition visible_part :: "query_context \<Rightarrow> graph_store \<Rightarrow> graph_store" where
  "visible_part ctx s = s\<lparr>
     gs_nodes := filter (\<lambda>(k, n). visible_node ctx n) (gs_nodes s),
     gs_edges := map (\<lambda>(t, es). (t, filter (visible_edge ctx) es)) (gs_edges s),
     gs_states := filter (\<lambda>(k, st). state_allowed ctx st) (gs_states s)\<rparr>"

lemma dm_get_filter:
  "dm_ok m \<Longrightarrow> dm_get (filter (\<lambda>(k, v). p v) m) k = filter_opt p (dm_get m k)"
  unfolding dm_get_def dm_ok_def
  by (induction m) (auto simp: filter_opt_def map_of_eq_None_iff [THEN iffD2] image_iff split: option.splits
      dest!: map_of_SomeD)

lemma dm_get_map_snd: "dm_get (map (\<lambda>(k, v). (k, f v)) m) k = map_option f (dm_get m k)"
  unfolding dm_get_def by (induction m) auto

lemma filter_opt_idem: "filter_opt p (filter_opt p x) = filter_opt p x"
  by (cases x) auto

lemma tenant_edges_visible_part:
  "tenant_edges (visible_part ctx s) t = filter (visible_edge ctx) (tenant_edges s t)"
  by (cases "dm_get (gs_edges s) t") (simp_all add: tenant_edges_def visible_part_def dm_get_map_snd)

lemma get_node_visible_part:
  "graph_store_inv s \<Longrightarrow> get_node (visible_part ctx s) ctx = get_node s ctx"
  by (rule ext) (simp add: get_node_def visible_part_def graph_store_inv_def dm_keyed_def
      dm_get_filter filter_opt_idem)

lemma get_state_eq: "get_state s ctx i k = filter_opt (state_allowed ctx) (dm_get (gs_states s) (qc_tenant_id ctx, i, k))"
  by (auto simp: get_state_def Let_def split: option.split)

lemma nb_edge_cong:
  assumes "get_node s ctx = get_node s' ctx"
  shows "nb_edge s ctx now = nb_edge s' ctx now"
  by (intro ext) (unfold nb_edge_def assms, rule refl)

lemma nb_visit_filter:
  "get_node s ctx = get_node s' ctx \<Longrightarrow>
   nb_visit s' ctx now (filter (visible_edge ctx) es) i st = nb_visit s ctx now es i st"
proof (induction es arbitrary: st)
  case (Cons e es)
  then show ?case using nb_edge_cong [OF Cons.prems]
    by (auto simp: nb_visit_def) (simp add: nb_edge_def)
qed (simp add: nb_visit_def)

lemma nb_rounds_filter:
  "get_node s ctx = get_node s' ctx \<Longrightarrow>
   nb_rounds h s' ctx now (filter (visible_edge ctx) es) fr st = nb_rounds h s ctx now es fr st"
proof (induction h arbitrary: fr st)
  case (Suc h)
  have "nb_visit s' ctx now (filter (visible_edge ctx) es) = nb_visit s ctx now es"
    using nb_visit_filter [OF Suc.prems] by (intro ext)
  then show ?case by (simp add: nb_round_def Let_def Suc.IH [OF Suc.prems])
qed simp

lemma nb_rounds_cong:
  "get_node s ctx = get_node s' ctx \<Longrightarrow> nb_rounds h s ctx now es fr st = nb_rounds h s' ctx now es fr st"
  using nb_rounds_filter [of s ctx s'] nb_rounds_filter [of s' ctx s'] by simp

lemma path_scan_filter:
  "get_node s ctx = get_node s' ctx \<Longrightarrow>
   path_scan s' ctx now to_id cur d (filter (visible_edge ctx) es) q dist prev
     = path_scan s ctx now to_id cur d es q dist prev"
  by (induction es arbitrary: q dist prev) (auto split: option.split simp: Let_def)

lemma path_search_filter:
  assumes "get_node s ctx = get_node s' ctx"
  shows "path_search s' ctx now to_id mh (filter (visible_edge ctx) es) q dist prev
     = path_search s ctx now to_id mh es q dist prev"
  using assms
proof (induction s ctx now to_id mh es q dist prev rule: path_search.induct)
  case (2 s ctx now to_id mh es cur q dist prev)
  note IH = 2(1,2) [OF refl] and g = 2(3)
  let ?d = "unwrap_or (dm_get dist cur) 0"
  show ?case
  proof (cases "mh \<le> ?d")
    case True
    with IH(1) g show ?thesis by simp
  next
    case False
    show ?thesis
    proof (cases "path_scan s ctx now to_id cur ?d es q dist prev")
      case (Inl p)
      with False show ?thesis by (simp add: path_scan_filter [OF g])
    next
      case (Inr x)
      obtain q' dist' prev' where x: "x = (q', dist', prev')" by (cases x)
      from IH(2) [OF False Inr x [symmetric] refl g] False Inr x show ?thesis
        by (simp add: path_scan_filter [OF g])
    qed
  qed
qed simp

lemma path_search_cong:
  "get_node s ctx = get_node s' ctx \<Longrightarrow>
   path_search s ctx now to_id mh es q dist prev = path_search s' ctx now to_id mh es q dist prev"
  using path_search_filter [of s ctx s'] path_search_filter [of s' ctx s'] by simp

lemma filter_visible_nodes:
  "filter (\<lambda>e. P e \<and> visible_node ctx (snd e)) (filter (\<lambda>(k, n). visible_node ctx n) xs)
     = filter (\<lambda>e. P e \<and> visible_node ctx (snd e)) xs"
  by (induction xs) auto

lemma filter_visible_nodes2:
  "filter (\<lambda>e. P e \<and> Q e \<and> visible_node ctx (snd e)) (filter (\<lambda>(k, n). visible_node ctx n) xs)
     = filter (\<lambda>e. P e \<and> Q e \<and> visible_node ctx (snd e)) xs"
  by (induction xs) auto

lemma filter_visible_edges:
  "filter (\<lambda>e. visible_edge ctx e \<and> P e) (filter (visible_edge ctx) xs) = filter (\<lambda>e. visible_edge ctx e \<and> P e) xs"
  by (induction xs) auto

text \<open>
  No query tells a caller anything about what the caller may not see: every read of the store
  gives the same answer, errors included, on the store from which the hidden nodes, edges and
  states have been removed.
\<close>

lemma reads_visible_part:
  assumes "graph_store_inv s"
  shows "get_node (visible_part ctx s) ctx i = get_node s ctx i"
    "get_state (visible_part ctx s) ctx i key = get_state s ctx i key"
    "neighborhood (visible_part ctx s) ctx now i hops = neighborhood s ctx now i hops"
    "path (visible_part ctx s) ctx now i j hops = path s ctx now i j hops"
    "blockers (visible_part ctx s) ctx now i = blockers s ctx now i"
    "list_nodes_by_type (visible_part ctx s) ctx ty n = list_nodes_by_type s ctx ty n"
    "list_edges_by_type (visible_part ctx s) ctx now ty n = list_edges_by_type s ctx now ty n"
    "graph_snapshot (visible_part ctx s) ctx now n m = graph_snapshot s ctx now n m"
proof -
  note g = get_node_visible_part [OF assms] and e = tenant_edges_visible_part
  show "get_node (visible_part ctx s) ctx i = get_node s ctx i" by (simp add: g)
  show "get_state (visible_part ctx s) ctx i key = get_state s ctx i key"
    using assms by (simp add: get_state_eq visible_part_def dm_get_filter graph_store_inv_def
        dm_keyed_def filter_opt_idem)
  show "neighborhood (visible_part ctx s) ctx now i hops = neighborhood s ctx now i hops"
    by (unfold neighborhood_def g e nb_rounds_filter [OF g [symmetric]], rule refl)
  show "path (visible_part ctx s) ctx now i j hops = path s ctx now i j hops"
    by (unfold path_def g e path_search_filter [OF g [symmetric]], rule refl)
  show "blockers (visible_part ctx s) ctx now i = blockers s ctx now i"
    by (simp only: blockers_def e filter_visible_edges)
  show "list_nodes_by_type (visible_part ctx s) ctx ty n = list_nodes_by_type s ctx ty n"
    by (simp add: list_nodes_by_type_def visible_part_def filter_visible_nodes2 del: filter_filter)
  show "list_edges_by_type (visible_part ctx s) ctx now ty n = list_edges_by_type s ctx now ty n"
    by (simp only: list_edges_by_type_def e filter_visible_edges)
  show "graph_snapshot (visible_part ctx s) ctx now n m = graph_snapshot s ctx now n m"
    by (simp only: graph_snapshot_def e filter_visible_edges)
      (simp add: visible_part_def filter_visible_nodes del: filter_filter)
qed

section \<open>Well-formed stores\<close>

lemma graph_store_inv_new [simp]: "graph_store_inv new_graph_store"
  by (simp add: graph_store_inv_def new_graph_store_def)

lemma graph_store_inv_mark [simp]: "graph_store_inv s \<Longrightarrow> graph_store_inv (fst (mark_event_applied k s))"
  by (simp add: graph_store_inv_def mark_event_applied_def)

lemma graph_store_inv_node [simp]: "graph_store_inv s \<Longrightarrow> graph_store_inv (insert_node n s)"
  by (simp add: graph_store_inv_def insert_node_def)

lemma edges_of_tenant_upsert:
  assumes "edges_of_tenant t es" "ge_tenant_id e = t"
  shows "edges_of_tenant t (upsert_by ge_edge_id e es)"
  using assms distinct_upsert_by [of ge_edge_id es e] set_upsert_by_subset [of ge_edge_id e es]
  unfolding edges_of_tenant_def by blast

lemma edges_of_tenant_lookup: "graph_store_inv s \<Longrightarrow> edges_of_tenant t (tenant_edges s t)"
  by (cases "dm_get (gs_edges s) t") (simp_all add: tenant_edges_def graph_store_inv_def edges_of_tenant_def)

lemma graph_store_inv_edge [simp]: "graph_store_inv s \<Longrightarrow> graph_store_inv (upsert_edge e s)"
  using edges_of_tenant_upsert [OF edges_of_tenant_lookup refl, of s e]
  by (simp add: graph_store_inv_def upsert_edge_def)

lemma graph_store_inv_state [simp]: "graph_store_inv s \<Longrightarrow> graph_store_inv (upsert_state st s)"
proof -
  assume s: "graph_store_inv s"
  let ?st = "keep_state (dm_get (gs_states s) (state_key_of st)) st"
  have "state_key_of ?st = state_key_of st"
  proof (cases "dm_get (gs_states s) (state_key_of st)")
    case (Some ex)
    have "dm_keyed state_key_of (gs_states s)" using s by (simp add: graph_store_inv_def)
    from dm_keyed_getD [OF this Some] keep_state_mem [of "Some ex" st] Some show ?thesis
      by (elim insertE) simp_all
  qed (simp add: keep_state_def)
  with s show ?thesis by (simp add: graph_store_inv_def upsert_state_def)
qed

lemma graph_store_inv_fold:
  "(\<And>x s. graph_store_inv s \<Longrightarrow> graph_store_inv (f x s)) \<Longrightarrow> graph_store_inv s \<Longrightarrow> graph_store_inv (fold f xs s)"
  by (induction xs arbitrary: s) auto

lemma graph_store_inv_apply [simp]: "graph_store_inv s \<Longrightarrow> graph_store_inv (apply_mutation m s)"
  unfolding apply_mutation_def by (intro graph_store_inv_fold) simp_all

section \<open>Restart\<close>

lemma gs_fold_insert_node:
  "fold insert_node ns s = s\<lparr>gs_nodes := dm_put_all (\<lambda>n. (gn_tenant_id n, gn_node_id n)) ns (gs_nodes s)\<rparr>"
  by (induction ns arbitrary: s) (simp_all add: insert_node_def)

lemma gs_fold_import_state:
  "fold import_state sts s = s\<lparr>gs_states := dm_put_all state_key_of sts (gs_states s)\<rparr>"
  by (induction sts arbitrary: s) (simp_all add: import_state_def)

lemma tenant_edges_import:
  "tenant_edges (fold import_edge es s) t = tenant_edges s t @ filter (\<lambda>e. ge_tenant_id e = t) es"
proof (induction es arbitrary: s)
  case (Cons e es)
  have "tenant_edges (import_edge e s) t = tenant_edges s t @ (if ge_tenant_id e = t then [e] else [])"
    by (simp add: tenant_edges_def import_edge_def)
  with Cons show ?case by simp
qed simp

lemma import_edge_rest:
  "gs_nodes (fold import_edge es s) = gs_nodes s" "gs_states (fold import_edge es s) = gs_states s"
  "gs_applied (fold import_edge es s) = gs_applied s"
  by (induction es arbitrary: s) (simp_all add: import_edge_def)

lemma import_applied_rest:
  "gs_nodes (fold import_applied ks s) = gs_nodes s" "gs_states (fold import_applied ks s) = gs_states s"
  "gs_edges (fold import_applied ks s) = gs_edges s"
  "dm_get (gs_applied (fold import_applied ks s)) k = (if k \<in> set ks then Some () else dm_get (gs_applied s) k)"
  by (induction ks arbitrary: s) (simp_all add: import_applied_def)

lemma tenant_edges_applied: "tenant_edges (fold import_applied ks s) t = tenant_edges s t"
  by (simp add: tenant_edges_def import_applied_rest)

lemma tenant_edges_states: "tenant_edges (s\<lparr>gs_states := m\<rparr>) t = tenant_edges s t"
  by (simp add: tenant_edges_def)

lemma tenant_edges_empty: "gs_edges s = [] \<Longrightarrow> tenant_edges s t = []"
  by (simp add: tenant_edges_def)

lemma exported_edges:
  assumes "dm_ok m" "\<And>t es. dm_get m t = Some es \<Longrightarrow> edges_of_tenant t es"
  shows "filter (\<lambda>e. ge_tenant_id e = t) (concat (map snd m)) = unwrap_or (dm_get m t) []"
proof -
  have "\<forall>(t', es) \<in> set m. ge_tenant_id ` set es \<subseteq> {t'}"
    using assms by (auto simp: dm_get_iff_mem edges_of_tenant_def)
  with assms(1) show ?thesis
    unfolding dm_ok_def dm_get_def
  proof (induction m)
    case (Cons x m)
    obtain t' es where x: "x = (t', es)" by (cases x)
    have "filter (\<lambda>e. ge_tenant_id e = t) es = (if t' = t then es else [])"
      using Cons.prems(2) x by (auto simp: filter_empty_conv intro!: filter_True)
    moreover have "t' = t \<Longrightarrow> map_of m t = None"
      using Cons.prems(1) x by (auto simp: map_of_eq_None_iff)
    ultimately show ?case using Cons x by (cases "t = t'") simp_all
  qed simp
qed

definition restarted :: "(instant \<Rightarrow> string) \<Rightarrow> instant \<Rightarrow> graph_store \<Rightarrow> graph_store" where
  "restarted rfc3339 now s = graph_import_snapshot (graph_export_snapshot rfc3339 now s) new_graph_store"

lemma restarted_lookups:
  assumes "graph_store_inv s"
  shows "dm_get (gs_nodes (restarted f now s)) k = dm_get (gs_nodes s) k"
    and "dm_get (gs_states (restarted f now s)) st = dm_get (gs_states s) st"
    and "dm_get (gs_applied (restarted f now s)) a = dm_get (gs_applied s) a"
    and "tenant_edges (restarted f now s) t = tenant_edges s t"
proof -
  have inv: "dm_keyed (\<lambda>n. (gn_tenant_id n, gn_node_id n)) (gs_nodes s)" "dm_keyed state_key_of (gs_states s)"
    "dm_ok (gs_applied s)" "dm_ok (gs_edges s)" "\<And>t es. dm_get (gs_edges s) t = Some es \<Longrightarrow> edges_of_tenant t es"
    using assms by (auto simp: graph_store_inv_def)
  note defs = restarted_def graph_import_snapshot_def graph_export_snapshot_def new_graph_store_def
    gs_fold_insert_node gs_fold_import_state import_edge_rest import_applied_rest
  show "dm_get (gs_nodes (restarted f now s)) k = dm_get (gs_nodes s) k"
    using dm_export_import [OF inv(1)] by (simp add: defs)
  show "dm_get (gs_states (restarted f now s)) st = dm_get (gs_states s) st"
    using dm_export_import [OF inv(2)] by (simp add: defs)
  have "a \<in> fst ` set (gs_applied s) \<longleftrightarrow> dm_get (gs_applied s) a = Some ()"
    using inv(3) by (auto simp: dm_get_iff_mem intro: rev_image_eqI)
  then show "dm_get (gs_applied (restarted f now s)) a = dm_get (gs_applied s) a"
    by (cases "dm_get (gs_applied s) a") (simp_all add: defs)
  have "tenant_edges (restarted f now s) t = filter (\<lambda>e. ge_tenant_id e = t) (concat (map snd (gs_edges s)))"
    by (simp add: defs tenant_edges_import tenant_edges_applied tenant_edges_states tenant_edges_empty)
  then show "tenant_edges (restarted f now s) t = tenant_edges s t"
    using exported_edges [OF inv(4,5)] by (simp add: tenant_edges_def)
qed

text \<open>
  The embedded graph survives a restart: after exporting the store and importing the snapshot
  into a new one, every event mark, node and state is found as before, every tenant has the same
  edges in the same order, and the walks over them answer the same.
\<close>

lemma graph_restart_roundtrip:
  assumes "graph_store_inv s"
  shows "event_applied (restarted fmt t s) tn ev = event_applied s tn ev
    \<and> get_node (restarted fmt t s) ctx i = get_node s ctx i
    \<and> get_state (restarted fmt t s) ctx i key = get_state s ctx i key
    \<and> tenant_edges (restarted fmt t s) tn = tenant_edges s tn
    \<and> neighborhood (restarted fmt t s) ctx now i hops = neighborhood s ctx now i hops
    \<and> path (restarted fmt t s) ctx now i j hops = path s ctx now i j hops
    \<and> blockers (restarted fmt t s) ctx now i = blockers s ctx now i"
proof -
  let ?r = "restarted fmt t s"
  note l = restarted_lookups [OF assms]
  have g: "get_node s ctx = get_node ?r ctx" by (rule ext) (simp add: get_node_def l)
  have nb: "neighborhood ?r ctx now i hops = neighborhood s ctx now i hops"
    unfolding neighborhood_def l g [symmetric]
    using nb_rounds_cong [OF g [symmetric]] by presburger
  have pt: "path ?r ctx now i j hops = path s ctx now i j hops"
    unfolding path_def l g [symmetric] path_search_cong [OF g [symmetric]] by (rule refl)
  show ?thesis
    by (simp add: nb pt) (simp add: l get_node_def get_state_def event_applied_def blockers_def)
qed

section \<open>A small graph\<close>

definition sample_node :: "string \<Rightarrow> bool \<Rightarrow> graph_node" where
  "sample_node i private = \<lparr>gn_tenant_id = ''t'', gn_node_id = i, gn_node_type = ''Issue'', gn_display_name = i,
     gn_resource_id = i, gn_properties = JNull, gn_is_private = private, gn_allowed_group_ids = [''grp''],
     gn_acl_version = 1\<rparr>"

definition sample_edge :: "string \<Rightarrow> string \<Rightarrow> string \<Rightarrow> graph_edge" where
  "sample_edge i x y = \<lparr>ge_tenant_id = ''t'', ge_edge_id = i, ge_edge_type = ''BLOCKS'', ge_from_node_id = x,
     ge_to_node_id = y, ge_valid_from = 1, ge_valid_to = None, ge_event_id = ''ev'', ge_properties = JNull,
     ge_is_private = False, ge_allowed_group_ids = [], ge_acl_version = 1\<rparr>"

definition sample_mutation :: graph_mutation where
  "sample_mutation = \<lparr>gm_nodes = [sample_node ''a'' False, sample_node ''b'' False, sample_node ''c'' True],
     gm_edges = [sample_edge ''e1'' ''a'' ''b'', sample_edge ''e2'' ''b'' ''c''], gm_states = []\<rparr>"

definition sample_graph :: graph_store where
  "sample_graph = apply_mutation sample_mutation new_graph_store"

definition outsider :: query_context where
  "outsider = \<lparr>qc_tenant_id = ''t'', qc_global_user_id = ''gu_x'', qc_group_ids = []\<rparr>"

lemma sample_graph_inv: "graph_store_inv sample_graph"
  by (simp add: sample_graph_def)

lemmas sample_graph_eval =
  sample_graph_def sample_mutation_def apply_mutation_def new_graph_store_def insert_node_def upsert_edge_def
  tenant_edges_def sample_node_def sample_edge_def outsider_def visible_node_def visible_edge_def
  active_edge_def acl_allows_def

lemma sample_graph_value:
  "sample_graph = \<lparr>gs_applied = [],
     gs_nodes = [((''t'', ''a''), sample_node ''a'' False), ((''t'', ''b''), sample_node ''b'' False),
       ((''t'', ''c''), sample_node ''c'' True)],
     gs_edges = [(''t'', [sample_edge ''e1'' ''a'' ''b'', sample_edge ''e2'' ''b'' ''c''])], gs_states = []\<rparr>"
  by code_simp

lemma sample_blockers:
  "blockers sample_graph outsider 5 ''b'' = [sample_edge ''e1'' ''a'' ''b'', sample_edge ''e2'' ''b'' ''c'']"
  by code_simp

lemma sample_visible: "get_node sample_graph outsider ''a'' \<noteq> None" "get_node sample_graph outsider ''b'' \<noteq> None"
  "get_node sample_graph outsider ''c'' = None"
  by code_simp+

lemma sample_linked: "linked sample_graph outsider 5 ''b'' ''a''"
  unfolding linked_def
  by (rule exI [of _ "sample_edge ''e1'' ''a'' ''b''"]) code_simp

lemma sample_neighborhood:
  "map_sum id (\<lambda>nb. (map gn_node_id (nb_nodes nb), map ge_edge_id (nb_edges nb)))
     (neighborhood sample_graph outsider 5 ''b'' 3) = Inr ([''b'', ''a''], [''e1''])"
  by code_simp

text \<open>The neighbourhood of \<open>b\<close> leaves the hidden issue \<open>c\<close> out, with the edge to it.\<close>

theorem neighborhood_is_visible_ball_witness:
  "\<exists>nb. neighborhood sample_graph outsider 5 ''b'' 3 = Inr nb \<and> map gn_node_id (nb_nodes nb) = [''b'', ''a'']
     \<and> {''a'', ''b''} = {y. \<exists>j \<le> clamp 1 6 3. (linked sample_graph outsider 5 ^^ j) ''b'' y}"
proof -
  obtain nb where nb: "neighborhood sample_graph outsider 5 ''b'' 3 = Inr nb" "map gn_node_id (nb_nodes nb) = [''b'', ''a'']"
    using sample_neighborhood by (cases "neighborhood sample_graph outsider 5 ''b'' 3") auto
  moreover have "gn_node_id ` set (nb_nodes nb) = {''a'', ''b''}"
    using arg_cong [OF nb(2), of set] by auto
  ultimately show ?thesis
    using neighborhood_is_visible_ball [OF sample_graph_inv, where ctx = outsider and now = 5 and root_id = "''b''" and hops = 3]
    by auto
qed

theorem path_is_shortest_visible_walk_witness:
  "\<exists>p. path sample_graph outsider 5 ''b'' ''a'' 3 = Some (Some p) \<and> last (map gn_node_id (gp_nodes p)) = ''a''
     \<and> length (gp_edges p) \<le> 3"
proof -
  obtain r where r: "path sample_graph outsider 5 ''b'' ''a'' 3 = Some r"
    "r \<noteq> None \<longleftrightarrow> ''b'' \<noteq> ''a'' \<and> get_node sample_graph outsider ''b'' \<noteq> None
       \<and> get_node sample_graph outsider ''a'' \<noteq> None
       \<and> (\<exists>k \<le> clamp 1 6 3. (linked sample_graph outsider 5 ^^ k) ''b'' ''a'')"
    "\<forall>p. r = Some p \<longrightarrow> (let ids = map gn_node_id (gp_nodes p) in last ids = ''a'' \<and> length (gp_edges p) \<le> clamp 1 6 3)"
    using path_is_shortest_visible_walk [OF sample_graph_inv, where ctx = outsider and now = 5
        and from_id = "''b''" and to_id = "''a''" and mh = 3]
    unfolding Let_def by blast
  have "(linked sample_graph outsider 5 ^^ 1) ''b'' ''a''" using sample_linked by (simp only: relpowp_1)
  then have "\<exists>k \<le> clamp 1 6 3. (linked sample_graph outsider 5 ^^ k) ''b'' ''a''"
    by (intro exI [of _ 1]) (simp add: clamp_def)
  then obtain p where "r = Some p" using r(2) sample_visible by auto
  with r show ?thesis by (auto simp: Let_def clamp_def)
qed

lemma graph_restart_roundtrip_witness:
  "blockers (restarted (\<lambda>_. ''2026'') 7 sample_graph) outsider 5 ''b''
     = [sample_edge ''e1'' ''a'' ''b'', sample_edge ''e2'' ''b'' ''c'']"
  using graph_restart_roundtrip [OF sample_graph_inv, where ctx = outsider and now = 5 and i = "''b''" and t = 7
      and fmt = "\<lambda>_. ''2026''"]
    sample_blockers by simp

text \<open>
  The blocker listing, unlike the neighbourhood, does not ask whether the far end of an edge is
  visible: it names a node the caller cannot read.
\<close>

lemma blockers_name_hidden_node:
  "map ge_to_node_id (blockers sample_graph outsider 5 ''b'') = [''b'', ''c''] \<and> get_node sample_graph outsider ''c'' = None"
  unfolding sample_blockers by code_simp

end
