(* ===== verification/Graph_Membership.thy ===== *)
theory Graph_Membership
  imports Graph_Model Text_Util
begin

text \<open>
  Group membership of users (\<open>graph-core/src/membership.rs\<close>): the interface of a membership store,
  the embedded implementation with its snapshot, and the membership changes of identity events.
  A \<open>HashSet\<close> of groups is a list without duplicates.
\<close>

section \<open>The interface\<close>

text \<open>What the projection and the query layer rely on, for one (tenant, user) key at a time.\<close>

locale membership_store =
  fixes add :: "'key \<Rightarrow> string \<Rightarrow> 's \<Rightarrow> 's"
    and remove :: "'key \<Rightarrow> string \<Rightarrow> 's \<Rightarrow> 's"
    and groups :: "'s \<Rightarrow> 'key \<Rightarrow> string set"
  assumes groups_add: "groups (add k g s) k' = (if k' = k then insert g (groups s k) else groups s k')"
    and groups_remove: "groups (remove k g s) k' = (if k' = k then groups s k - {g} else groups s k')"
begin

lemma remove_revokes: "g \<notin> groups (remove k g s) k"
  by (simp add: groups_remove)

lemma remove_idem: "groups (remove k g (remove k g s)) = groups (remove k g s)"
  by (rule ext) (simp add: groups_remove)

lemma add_idem: "groups (add k g (add k g s)) = groups (add k g s)"
  by (rule ext) (simp add: groups_add)

lemma add_remove: "g \<notin> groups s k \<Longrightarrow> groups (remove k g (add k g s)) = groups s"
  by (rule ext) (simp add: groups_remove groups_add)

text \<open>A history of changes: the last change of a group for a key decides.\<close>

primrec run :: "('key \<times> string \<times> bool) list \<Rightarrow> 's \<Rightarrow> 's" where
  "run [] s = s"
| "run (c # cs) s = run cs (case c of (k, g, joined) \<Rightarrow> if joined then add k g s else remove k g s)"

lemma run_append: "run (cs @ cs') s = run cs' (run cs s)"
  by (induction cs arbitrary: s) simp_all

lemma last_change_decides:
  "(\<forall>c \<in> set cs. (fst c, fst (snd c)) \<noteq> (k, g)) \<Longrightarrow> g \<in> groups (run cs s) k \<longleftrightarrow> g \<in> groups s k"
proof (induction cs arbitrary: s)
  case (Cons c cs)
  obtain k' g' j where c: "c = (k', g', j)" by (cases c)
  with Cons.prems have "(k', g') \<noteq> (k, g)" by auto
  then have "g \<in> groups (if j then add k' g' s else remove k' g' s) k \<longleftrightarrow> g \<in> groups s k"
    by (auto simp: groups_add groups_remove)
  with Cons c show ?case by simp
qed simp

lemma run_member:
  assumes "\<forall>c \<in> set cs. (fst c, fst (snd c)) \<noteq> (k, g)"
  shows "g \<in> groups (run (pre @ (k, g, j) # cs) s) k \<longleftrightarrow> j"
  using last_change_decides [OF assms] by (simp add: run_append groups_add groups_remove)

end

section \<open>The embedded store\<close>

type_synonym membership = "(string \<times> string, string list) dashmap"

definition new_membership :: membership where
  "new_membership = []"

definition set_groups :: "string \<Rightarrow> string \<Rightarrow> string list \<Rightarrow> membership \<Rightarrow> membership" where
  "set_groups t u gs m = dm_put (t, u) (remdups gs) m"

definition add_group :: "string \<Rightarrow> string \<Rightarrow> string \<Rightarrow> membership \<Rightarrow> membership" where
  "add_group t u g m = dm_put (t, u) (List.insert g (unwrap_or (dm_get m (t, u)) [])) m"

definition remove_group :: "string \<Rightarrow> string \<Rightarrow> string \<Rightarrow> membership \<Rightarrow> membership" where
  "remove_group t u g m =
     (case dm_get m (t, u) of Some gs \<Rightarrow> dm_put (t, u) (removeAll g gs) m | None \<Rightarrow> m)"

definition get_groups :: "membership \<Rightarrow> string \<Rightarrow> string \<Rightarrow> string list" where
  "get_groups m t u = unwrap_or (dm_get m (t, u)) []"

definition apply_membership_change ::
  "string \<Rightarrow> string \<Rightarrow> string \<Rightarrow> string \<Rightarrow> membership \<Rightarrow> graph_error + membership" where
  "apply_membership_change t u g change m =
     (if u = [] \<or> g = [] then Inl (GValidation ''membership change requires user and group'')
      else if change = ''removed_from_group'' then Inr (remove_group t u g m)
      else if change = ''added_to_group'' then Inr (add_group t u g m)
      else Inl (GValidation (''unknown membership change_type: '' @ change)))"

interpretation embedded: membership_store
  "\<lambda>k. add_group (fst k) (snd k)" "\<lambda>k. remove_group (fst k) (snd k)"
  "\<lambda>m k. set (get_groups m (fst k) (snd k))"
proof
  fix k k' :: "string \<times> string" and g m
  show "set (get_groups (add_group (fst k) (snd k) g m) (fst k') (snd k'))
      = (if k' = k then insert g (set (get_groups m (fst k) (snd k))) else set (get_groups m (fst k') (snd k')))"
    by (auto simp: get_groups_def add_group_def prod_eq_iff)
  show "set (get_groups (remove_group (fst k) (snd k) g m) (fst k') (snd k'))
      = (if k' = k then set (get_groups m (fst k) (snd k)) - {g} else set (get_groups m (fst k') (snd k')))"
    by (cases k; cases k'; cases "dm_get m k") (auto simp: get_groups_def remove_group_def)
qed

section \<open>The snapshot\<close>

text \<open>The snapshot's map is keyed by the text \<open>tenant|user\<close>.\<close>

record membership_snapshot =
  ms_version :: nat
  ms_saved_at :: "string option"
  ms_users :: "(string \<times> string list) list"

definition membership_key :: "string \<times> string \<Rightarrow> string" where
  "membership_key k = fst k @ CHR ''|'' # snd k"

definition membership_export :: "string \<Rightarrow> membership \<Rightarrow> membership_snapshot" where
  "membership_export saved_at m =
     \<lparr>ms_version = 1, ms_saved_at = Some saved_at,
      ms_users = sort_key fst (fold (\<lambda>(k, gs). dm_put (membership_key k) (sort gs)) m [])\<rparr>"

definition import_user :: "string \<times> string list \<Rightarrow> membership \<Rightarrow> membership" where
  "import_user e m =
     (case split_once CHR ''|'' (fst e) of
        (t, u) \<Rightarrow> if t = [] \<or> unwrap_or u [] = [] then m
                   else dm_put (t, unwrap_or u []) (remdups (snd e)) m)"

definition membership_import :: "membership_snapshot \<Rightarrow> membership \<Rightarrow> membership" where
  "membership_import snap m = fold import_user (ms_users snap) []"

definition plain_key :: "string \<times> string \<Rightarrow> bool" where
  "plain_key k \<longleftrightarrow> fst k \<noteq> [] \<and> CHR ''|'' \<notin> set (fst k) \<and> snd k \<noteq> []"

definition membership_ok :: "membership \<Rightarrow> bool" where
  "membership_ok m \<longleftrightarrow> dm_ok m \<and> (\<forall>(k, gs) \<in> set m. plain_key k \<and> distinct gs)"

lemma membership_key_inj:
  assumes "plain_key a" "plain_key b" "membership_key a = membership_key b"
  shows "a = b"
proof -
  have "split_once CHR ''|'' (membership_key k) = (fst k, Some (snd k))" if "plain_key k" for k
    using that by (simp add: membership_key_def plain_key_def split_once_join)
  with assms show ?thesis by (metis option.inject prod.inject prod_eq_iff)
qed

lemma import_plain:
  "plain_key k \<Longrightarrow> import_user (membership_key k, gs) m = dm_put k (remdups gs) m"
  by (simp add: import_user_def membership_key_def plain_key_def split_once_join)

lemma dm_put_fresh: "k \<notin> fst ` set m \<Longrightarrow> dm_put k v m = m @ [(k, v)]"
  unfolding dm_put_def by (induction m) auto

lemma exported_users:
  assumes "inj_on membership_key (fst ` set m)" "dm_ok m"
    and "\<And>k. k \<in> fst ` set m \<Longrightarrow> membership_key k \<notin> fst ` set us"
  shows "fold (\<lambda>(k, gs). dm_put (membership_key k) (sort gs)) m us
    = us @ map (\<lambda>(k, gs). (membership_key k, sort gs)) m"
  using assms
proof (induction m arbitrary: us)
  case (Cons e m)
  obtain k gs where e: "e = (k, gs)" by (cases e)
  let ?us = "us @ [(membership_key k, sort gs)]"
  have "membership_key k' \<notin> fst ` set ?us" if k': "k' \<in> fst ` set m" for k'
  proof -
    have "k' \<noteq> k" "k' \<in> fst ` set (e # m)" "k \<in> fst ` set (e # m)"
      using Cons.prems(2) k' by (auto simp: e dm_ok_def)
    then have "membership_key k' \<noteq> membership_key k" using Cons.prems(1) by (metis inj_onD)
    with Cons.prems(3) [of k'] k' show ?thesis by simp
  qed
  moreover have "inj_on membership_key (fst ` set m)" "dm_ok m"
    using Cons.prems by (auto simp: e dm_ok_def)
  moreover have "dm_put (membership_key k) (sort gs) us = ?us"
    using Cons.prems(3) by (intro dm_put_fresh) (auto simp: e)
  ultimately show ?case using Cons.IH [of ?us] by (simp add: e)
qed simp

lemma imported_users:
  assumes "\<forall>x \<in> set us. \<exists>k. plain_key k \<and> fst x = membership_key k" and "distinct (map fst us)"
  shows "dm_get (fold import_user us m) k =
    (case map_of us (membership_key k) of
       Some gs \<Rightarrow> if plain_key k then Some (remdups gs) else dm_get m k
     | None \<Rightarrow> dm_get m k)"
  using assms
proof (induction us arbitrary: m)
  case (Cons x us)
  from Cons.prems(1) obtain k' gs where x: "x = (membership_key k', gs)" and k': "plain_key k'"
    by (cases x) auto
  have IH: "dm_get (fold import_user us (import_user x m)) k =
    (case map_of us (membership_key k) of
       Some gs \<Rightarrow> if plain_key k then Some (remdups gs) else dm_get (import_user x m) k
     | None \<Rightarrow> dm_get (import_user x m) k)" using Cons by simp
  have imp: "import_user (membership_key k', gs) m = dm_put k' (remdups gs) m" using k' by (rule import_plain)
  show ?case
  proof (cases "k = k'")
    case True
    then have "map_of us (membership_key k) = None"
      using Cons.prems(2) by (auto simp: x map_of_eq_None_iff)
    then show ?thesis using IH True k' by (simp add: x imp)
  next
    case False
    then have ne: "plain_key k \<Longrightarrow> membership_key k' \<noteq> membership_key k"
      using membership_key_inj k' by blast
    have "dm_get (import_user x m) k = dm_get m k" using imp False by (simp add: x)
    with IH ne show ?thesis
      by (cases "membership_key k' = membership_key k") (auto simp: x split: option.splits)
  qed
qed simp

lemma distinct_sort_key_fst:
  "distinct (map fst us) \<Longrightarrow> distinct (map fst (sort_key fst us))" for us :: "('a::linorder \<times> 'b) list"
  by (simp add: distinct_map)

lemma map_of_sort_key:
  assumes "distinct (map fst us)"
  shows "map_of (sort_key fst us) x = map_of us x"
proof -
  have "distinct (map fst (sort_key fst us))" by (rule distinct_sort_key_fst [OF assms])
  then show ?thesis using assms by (metis map_of_eq_Some_iff not_None_eq set_sort)
qed

text \<open>
  Group membership survives a restart: for tenants whose id is not empty and has no vertical
  bar, and users with a non-empty id, exporting the membership table and importing it again gives
  every user the same groups.
\<close>

lemma membership_roundtrip:
  assumes "membership_ok m"
  shows "set (get_groups (membership_import (membership_export now m) []) t u) = set (get_groups m t u)"
proof -
  let ?f = "\<lambda>(k, gs). (membership_key k, sort gs)"
  have plain: "\<And>k. k \<in> fst ` set m \<Longrightarrow> plain_key k" and ok: "dm_ok m"
    using assms by (auto simp: membership_ok_def)
  have inj: "inj_on membership_key (fst ` set m)"
    by (intro inj_onI) (use membership_key_inj plain in blast)
  have us: "ms_users (membership_export now m) = sort_key fst (map ?f m)"
    using exported_users [OF inj ok, of "[]"] by (simp add: membership_export_def)
  have keys: "map fst (map ?f m) = map membership_key (map fst m)" by auto
  have d: "distinct (map fst (map ?f m))"
    using ok inj unfolding keys by (simp only: dm_ok_def distinct_map set_map)
  note d' = distinct_sort_key_fst [OF d]
  have all: "\<forall>x \<in> set (sort_key fst (map ?f m)). \<exists>k. plain_key k \<and> fst x = membership_key k"
  proof
    fix x assume "x \<in> set (sort_key fst (map ?f m))"
    then obtain k gs where kg: "(k, gs) \<in> set m" "x = ?f (k, gs)" by auto
    then have "k \<in> fst ` set m" by (auto intro: rev_image_eqI)
    then have "plain_key k" by (rule plain)
    with kg show "\<exists>k. plain_key k \<and> fst x = membership_key k" by (intro exI [of _ k]) simp
  qed
  have mo: "map_of (map ?f m) (membership_key k) = map_option sort (dm_get m k)" if k: "plain_key k" for k
    using inj plain unfolding dm_get_def
  proof (induction m)
    case (Cons e m)
    obtain k' gs where e: "e = (k', gs)" by (cases e)
    with Cons.prems have "plain_key k'" by auto
    with k have "membership_key k' = membership_key k \<longleftrightarrow> k' = k" using membership_key_inj by blast
    with Cons show ?case by (auto simp: e)
  qed simp
  have "dm_get (fold import_user (sort_key fst (map ?f m)) []) (t, u)
      = (if plain_key (t, u) then map_option (remdups \<circ> sort) (dm_get m (t, u)) else None)"
    using mo [of "(t, u)"] by (simp add: imported_users [OF all d'] map_of_sort_key [OF d] split: option.split)
  moreover have "dm_get m (t, u) = None" if "\<not> plain_key (t, u)"
    using plain that unfolding dm_get_def by (auto simp: map_of_eq_None_iff)
  ultimately show ?thesis
    by (cases "dm_get m (t, u)") (auto simp: get_groups_def membership_import_def us)
qed

lemma membership_roundtrip_witness:
  "set (get_groups (membership_import (membership_export ''now''
      (add_group ''ten'' ''gu|a'' ''eng'' (set_groups ''ten'' ''gu_b'' [''ops'', ''eng''] new_membership))) [])
      ''ten'' ''gu|a'') = {''eng''}"
proof -
  let ?m = "add_group ''ten'' ''gu|a'' ''eng'' (set_groups ''ten'' ''gu_b'' [''ops'', ''eng''] new_membership)"
  have "membership_ok ?m" "set (get_groups ?m ''ten'' ''gu|a'') = {''eng''}" by code_simp+
  with membership_roundtrip [of ?m "''now''" "''ten''" "''gu|a''"] show ?thesis by simp
qed

text \<open>Without the condition two keys can share one entry of the snapshot.\<close>

lemma membership_keys_collide: "membership_key (''a'', ''b|c'') = membership_key (''a|b'', ''c'')"
  by (simp add: membership_key_def)

text \<open>
  The last change decides membership: after any history of additions and removals a user is in
  a group exactly when the last change of that group for that user and tenant was an addition, so
  a removal revokes the group whatever came before it and whatever other users do after it.
\<close>

lemma last_membership_change_decides:
  assumes "\<forall>c \<in> set cs. (fst c, fst (snd c)) \<noteq> ((t, u), g)"
  shows "g \<in> set (get_groups (embedded.run (pre @ ((t, u), g, joined) # cs) m) t u) \<longleftrightarrow> joined"
  using embedded.run_member [OF assms] by simp

lemma last_membership_change_decides_witness:
  "''eng'' \<notin> set (get_groups (embedded.run
     [((''t'', ''a''), ''eng'', True), ((''t'', ''a''), ''eng'', False), ((''t'', ''b''), ''eng'', True)] []) ''t'' ''a'')"
  using last_membership_change_decides [of "[((''t'', ''b''), ''eng'', True)]" "''t''" "''a''" "''eng''"
    "[((''t'', ''a''), ''eng'', True)]" False "[]"] by simp

end
