(* ===== verification/Graph_Event.thy ===== *)
theory Graph_Event
  imports Graph_Model Text_Util
begin

text \<open>
  The telemetry event as the graph reads it (\<open>graph-core/src/v1_event.rs\<close>) and the environment
  of the projection: the SHA-256 digest in hexadecimal and the Unicode class of alphanumeric
  characters.
\<close>

record v1_actor =
  va_global_user_id :: string
  va_provider_user_id :: string
  va_email :: string
  va_display_name :: string

record v1_acl =
  vl_tenant_id :: string
  vl_allowed_group_ids :: "string list"
  vl_is_private :: bool
  vl_acl_version :: "64 word"

record v1_event =
  ev_event_id :: string
  ev_tenant_id :: string
  ev_provider :: string
  ev_category :: string
  ev_event_type :: string
  ev_event_timestamp :: instant
  ev_ingested_at :: instant
  ev_actor :: v1_actor
  ev_acl :: v1_acl
  ev_resource_id :: string
  ev_parent_resource_id :: string
  ev_attributes :: json
  ev_raw_payload_s3_uri :: string
  ev_event_sequence_number :: "64 word"

record v1_acl_revocation =
  rv_event_id :: string
  rv_tenant_id :: string
  rv_global_user_id :: string
  rv_provider_user_id :: string
  rv_provider :: string
  rv_group_id :: string
  rv_change_type :: string
  rv_acl_version :: "64 word"
  rv_timestamp :: instant

datatype v1_bus_payload = PEvent v1_event | PAcl v1_acl_revocation

record project_env =
  env_sha :: "string \<Rightarrow> string"
  env_alnum :: "string \<Rightarrow> bool"

definition person_key :: "v1_event \<Rightarrow> string" where
  "person_key ev =
     (if va_global_user_id (ev_actor ev) \<noteq> [] then va_global_user_id (ev_actor ev)
      else if va_provider_user_id (ev_actor ev) \<noteq> [] then ''prov:'' @ va_provider_user_id (ev_actor ev)
      else ''unknown'')"

definition attr :: "v1_event \<Rightarrow> string \<Rightarrow> json option" where
  "attr ev k = json_get (ev_attributes ev) k"

definition opt_str :: "json option \<Rightarrow> string option" where
  "opt_str v = Option.bind v as_str"

text \<open>Nodes and edges that carry the event's tenant, access fields and time.\<close>

definition ev_node ::
  "v1_event \<Rightarrow> string \<Rightarrow> string \<Rightarrow> string \<Rightarrow> string \<Rightarrow> json \<Rightarrow> bool \<Rightarrow> graph_node" where
  "ev_node ev nid ty display resource props private =
     \<lparr>gn_tenant_id = ev_tenant_id ev, gn_node_id = nid, gn_node_type = ty, gn_display_name = display,
      gn_resource_id = resource, gn_properties = props, gn_is_private = private,
      gn_allowed_group_ids = vl_allowed_group_ids (ev_acl ev), gn_acl_version = vl_acl_version (ev_acl ev)\<rparr>"

definition ev_edge ::
  "v1_event \<Rightarrow> string \<Rightarrow> string \<Rightarrow> string \<Rightarrow> string \<Rightarrow> json \<Rightarrow> graph_edge" where
  "ev_edge ev eid ty from_id to_id props =
     \<lparr>ge_tenant_id = ev_tenant_id ev, ge_edge_id = eid, ge_edge_type = ty, ge_from_node_id = from_id,
      ge_to_node_id = to_id, ge_valid_from = ev_event_timestamp ev, ge_valid_to = None,
      ge_event_id = ev_event_id ev, ge_properties = props, ge_is_private = vl_is_private (ev_acl ev),
      ge_allowed_group_ids = vl_allowed_group_ids (ev_acl ev), ge_acl_version = vl_acl_version (ev_acl ev)\<rparr>"

definition ev_state :: "v1_event \<Rightarrow> string \<Rightarrow> string \<Rightarrow> string \<Rightarrow> entity_state" where
  "ev_state ev nid key val =
     \<lparr>es_tenant_id = ev_tenant_id ev, es_node_id = nid, es_state_key = key, es_state_value = val,
      es_as_of = ev_event_timestamp ev, es_event_id = ev_event_id ev,
      es_is_private = vl_is_private (ev_acl ev), es_allowed_group_ids = vl_allowed_group_ids (ev_acl ev)\<rparr>"

lemma ev_node_simps [simp]:
  "gn_tenant_id (ev_node ev i ty d r p b) = ev_tenant_id ev"
  "gn_node_id (ev_node ev i ty d r p b) = i"
  "gn_node_type (ev_node ev i ty d r p b) = ty"
  "gn_is_private (ev_node ev i ty d r p b) = b"
  "gn_allowed_group_ids (ev_node ev i ty d r p b) = vl_allowed_group_ids (ev_acl ev)"
  "gn_acl_version (ev_node ev i ty d r p b) = vl_acl_version (ev_acl ev)"
  by (simp_all add: ev_node_def)

lemma ev_edge_simps [simp]:
  "ge_tenant_id (ev_edge ev i ty a b p) = ev_tenant_id ev"
  "ge_edge_id (ev_edge ev i ty a b p) = i"
  "ge_edge_type (ev_edge ev i ty a b p) = ty"
  "ge_from_node_id (ev_edge ev i ty a b p) = a"
  "ge_to_node_id (ev_edge ev i ty a b p) = b"
  "ge_valid_from (ev_edge ev i ty a b p) = ev_event_timestamp ev"
  "ge_valid_to (ev_edge ev i ty a b p) = None"
  "ge_event_id (ev_edge ev i ty a b p) = ev_event_id ev"
  "ge_is_private (ev_edge ev i ty a b p) = vl_is_private (ev_acl ev)"
  "ge_allowed_group_ids (ev_edge ev i ty a b p) = vl_allowed_group_ids (ev_acl ev)"
  by (simp_all add: ev_edge_def)

lemma ev_state_simps [simp]:
  "es_tenant_id (ev_state ev n k v) = ev_tenant_id ev"
  "es_node_id (ev_state ev n k v) = n"
  "es_state_key (ev_state ev n k v) = k"
  "es_state_value (ev_state ev n k v) = v"
  "es_as_of (ev_state ev n k v) = ev_event_timestamp ev"
  "es_event_id (ev_state ev n k v) = ev_event_id ev"
  "es_is_private (ev_state ev n k v) = vl_is_private (ev_acl ev)"
  "es_allowed_group_ids (ev_state ev n k v) = vl_allowed_group_ids (ev_acl ev)"
  by (simp_all add: ev_state_def)

end
