(* ===== verification/Graph_Intent.thy ===== *)
theory Graph_Intent
  imports Graph_Event
begin

text \<open>
  Rule-based classification of the intent of a work item, and the intent node and edges a projected
  work item gets (\<open>graph-core/src/intent.rs\<close>, up to \<open>merge_intent_into\<close>). A confidence is kept in
  hundredths, the precision of the literals of the rules.
\<close>

section \<open>Types\<close>

datatype intent_type = Ship | Blocked | Fix | Explore | Review | Freeze | Other

fun intent_as_str :: "intent_type \<Rightarrow> string" where
  "intent_as_str Ship = ''SHIP''"
| "intent_as_str Blocked = ''BLOCKED''"
| "intent_as_str Fix = ''FIX''"
| "intent_as_str Explore = ''EXPLORE''"
| "intent_as_str Review = ''REVIEW''"
| "intent_as_str Freeze = ''FREEZE''"
| "intent_as_str Other = ''OTHER''"

definition intent_parse :: "string \<Rightarrow> intent_type option" where
  "intent_parse s =
     (let u = to_ascii_uppercase (trim s) in
      if u \<in> {''SHIP'', ''SHIPPING'', ''RELEASE''} then Some Ship
      else if u \<in> {''BLOCKED'', ''BLOCKER'', ''BLOCKING''} then Some Blocked
      else if u \<in> {''FIX'', ''BUGFIX'', ''HOTFIX''} then Some Fix
      else if u \<in> {''EXPLORE'', ''SPIKE'', ''POC'', ''RESEARCH''} then Some Explore
      else if u \<in> {''REVIEW'', ''RFC''} then Some Review
      else if u \<in> {''FREEZE'', ''HOLD'', ''PAUSE''} then Some Freeze
      else if u = ''OTHER'' then Some Other
      else None)"

record intent_claim =
  ic_intent_type :: intent_type
  ic_summary :: string
  ic_about_node_id :: string
  ic_owner_node_id :: "string option"
  ic_confidence :: nat
  ic_evidence :: "string list"

definition intent_node_id :: "string \<Rightarrow> string \<Rightarrow> string" where
  "intent_node_id owner about = ''intent:'' @ owner @ '':'' @ about"

section \<open>Reading an event\<close>

definition json_array :: "json option \<Rightarrow> json list" where
  "json_array v = unwrap_or (Option.bind v as_array) []"

text \<open>A label is a string or an object with a \<open>name\<close>.\<close>

definition label_text :: "json \<Rightarrow> string option" where
  "label_text l = or_else (as_str l) (opt_str (json_get l ''name''))"

definition extract_text_from_event :: "v1_event \<Rightarrow> string \<times> string list \<times> string" where
  "extract_text_from_event ev =
     (let title = unwrap_or (opt_str (or_else (or_else (attr ev ''title'') (attr ev ''summary'')) (attr ev ''name''))) [];
          body = unwrap_or (opt_str (or_else (or_else (attr ev ''body'') (attr ev ''description''))
                   (attr ev ''body_preview''))) [];
          labels = List.map_filter label_text (json_array (attr ev ''labels''));
          labels = (case opt_str (attr ev ''label'') of Some s \<Rightarrow> labels @ [s] | None \<Rightarrow> labels);
          labels = (if unwrap_or (Option.bind (attr ev ''draft'') as_bool) False then labels @ [''draft''] else labels)
      in (title, labels, body))"

definition infer_intent_source :: "v1_event \<Rightarrow> graph_node \<Rightarrow> string" where
  "infer_intent_source ev about =
     (let nt = to_ascii_lowercase (gn_node_type about); et = to_ascii_lowercase (ev_event_type ev);
          provider = to_ascii_lowercase (ev_provider ev)
      in if contains nt ''pull'' \<or> contains nt ''merge_request'' \<or> contains et ''pull_request''
            \<or> contains et ''merge_request''
         then (if contains provider ''gitlab'' then ''gitlab_mr'' else ''github_pr'')
         else if contains nt ''issue'' \<or> contains et ''issue''
         then (if contains provider ''jira'' then ''jira_issue''
               else if contains provider ''linear'' then ''linear_issue'' else ''github_issue'')
         else ''work_item'')"

section \<open>Classification\<close>

definition title_is_weak_noise :: "project_env \<Rightarrow> string \<Rightarrow> bool" where
  "title_is_weak_noise env title =
     (let t = trim title in
      if t = [] \<or> length t \<le> 3 then True
      else if \<not> list_ex (is_alnum (env_alnum env)) (utf8_chars t) then True
      else to_ascii_lowercase t \<in> {''wip'', ''tmp'', ''temp'', ''test'', ''asdf'', ''foo'', ''bar'', ''pr'',
             ''update'', ''...''})"

text \<open>What one (lower-case) label says, in the order the code asks.\<close>

definition label_word :: "string \<Rightarrow> (intent_type \<times> nat) option" where
  "label_word l =
     (if contains l ''blocked'' \<or> l = ''blocker'' \<or> l = ''wip-blocked'' then Some (Blocked, 95)
      else if contains l ''freeze'' \<or> l = ''do-not-merge'' \<or> l = ''hold'' then Some (Freeze, 90)
      else if l = ''bug'' \<or> l = ''fix'' \<or> l = ''hotfix'' then Some (Fix, 90)
      else if l = ''spike'' \<or> l = ''exploration'' \<or> l = ''rfc''
      then Some (if l = ''rfc'' then Review else Explore, 85)
      else None)"

definition label_intent :: "string \<Rightarrow> (intent_type \<times> nat) option" where
  "label_intent l =
     (case intent_parse l of
        Some t \<Rightarrow> if t \<noteq> Other then Some (t, 95) else label_word l
      | None \<Rightarrow> label_word l)"

fun first_label :: "string list \<Rightarrow> (intent_type \<times> nat \<times> string list) option" where
  "first_label [] = None"
| "first_label (l # ls) =
     (case label_intent l of Some (t, c) \<Rightarrow> Some (t, c, [''label:'' @ l]) | None \<Rightarrow> first_label ls)"

definition intent_patterns :: "(string \<times> intent_type \<times> nat) list" where
  "intent_patterns =
     [(''blocked by'', Blocked, 90), (''blocked on'', Blocked, 90), (''waiting on'', Blocked, 80),
      (''blocked:'', Blocked, 85), (''[blocked]'', Blocked, 90), (''code freeze'', Freeze, 90),
      (''do not merge'', Freeze, 90), (''donotmerge'', Freeze, 90), (''hold merge'', Freeze, 80),
      (''freeze '', Freeze, 75), (''hotfix'', Fix, 85), (''bugfix'', Fix, 85), (''fix:'', Fix, 80),
      (''fix('', Fix, 75), (''fix '', Fix, 70), (''spike:'', Explore, 85), (''spike '', Explore, 80),
      (''poc:'', Explore, 80), (''explore '', Explore, 70), (''research '', Explore, 70),
      (''rfc:'', Review, 85), (''wip:'', Explore, 60), (''[wip]'', Explore, 65),
      (''ready to ship'', Ship, 90), (''ship '', Ship, 75), (''release '', Ship, 75),
      (''deploy '', Ship, 70), (''launch '', Ship, 70), (''merge to main'', Ship, 75),
      (''feat:'', Ship, 65), (''feature:'', Ship, 65), ('' impl '', Ship, 55)]"

definition intent_hay :: "string \<Rightarrow> string list \<Rightarrow> string \<Rightarrow> string" where
  "intent_hay title labels body =
     to_ascii_lowercase title @ '' '' @ join_with '' '' (map to_ascii_lowercase labels) @ '' ''
       @ to_ascii_lowercase body"

definition classify_text ::
  "project_env \<Rightarrow> string \<Rightarrow> string \<Rightarrow> intent_type \<times> nat \<times> string list" where
  "classify_text env title hay =
     (case find (\<lambda>(p, t, c). contains hay p) intent_patterns of
        Some (p, t, c) \<Rightarrow> (t, c, [''text:'' @ p])
      | None \<Rightarrow>
          if title_is_weak_noise env title
          then (if contains hay ''pull_request'' \<or> contains hay ''pullrequest''
                then (Ship, 35, [''default:open_pr_weak'']) else (Other, 25, [''default:other'']))
          else if contains hay ''pull_request'' \<or> length (trim title) > 3
          then (Ship, 40, [''default:work_item''])
          else (Other, 30, [''default:other'']))"

definition classify_intent ::
  "project_env \<Rightarrow> string \<Rightarrow> string list \<Rightarrow> string \<Rightarrow> intent_type \<times> nat \<times> string list" where
  "classify_intent env title labels body =
     (let label_l = map to_ascii_lowercase labels in
      case first_label label_l of
        Some r \<Rightarrow> r
      | None \<Rightarrow>
          if ''draft'' \<in> set label_l then (Freeze, 80, [''label:draft''])
          else if ''wip'' \<in> set label_l then (Explore, 70, [''label:wip''])
          else classify_text env title (intent_hay title labels body))"

section \<open>Attaching an intent\<close>

definition attach_intent_mutation ::
  "project_env \<Rightarrow> v1_event \<Rightarrow> graph_node \<Rightarrow> string \<Rightarrow> string \<Rightarrow> string list \<Rightarrow> string \<Rightarrow> graph_mutation" where
  "attach_intent_mutation env ev about owner title labels body =
     (if eq_ignore_ascii_case (gn_node_type about) ''Commit'' then empty_mutation
      else
        (let (itype, conf, evidence) = classify_intent env title labels body;
             iid = intent_node_id owner (gn_node_id about);
             summary = (if title = [] then intent_as_str itype @ '' on '' @ gn_resource_id about
                        else intent_as_str itype @ '': '' @ title);
             intent = ev_node ev iid ''Intent'' summary (gn_resource_id about)
               (JObj [(''intent_type'', JStr (intent_as_str itype)), (''confidence'', JFloat (int conf)),
                  (''evidence'', JArr (map JStr evidence)), (''about_node_id'', JStr (gn_node_id about)),
                  (''owner_node_id'', JStr owner), (''classified_by'', JStr ''rules_v0''),
                  (''source'', JStr (infer_intent_source ev about)), (''is_demo'', JBool False),
                  (''event_id'', JStr (ev_event_id ev))]) (vl_is_private (ev_acl ev));
             claims = ev_edge ev (stable_edge_id (env_sha env) (ev_tenant_id ev) ''CLAIMS'' owner iid)
               ''CLAIMS'' owner iid (JObj [(''intent_type'', JStr (intent_as_str itype))]);
             about_e = ev_edge ev (stable_edge_id (env_sha env) (ev_tenant_id ev) ''ABOUT'' iid (gn_node_id about))
               ''ABOUT'' iid (gn_node_id about) (JObj [])
         in \<lparr>gm_nodes = [intent], gm_edges = [claims, about_e], gm_states = []\<rparr>))"

definition merge_intent_into ::
  "project_env \<Rightarrow> graph_mutation \<Rightarrow> v1_event \<Rightarrow> string \<Rightarrow> graph_mutation" where
  "merge_intent_into env base ev about_id =
     (case find (\<lambda>n. gn_node_id n = about_id) (gm_nodes base) of
        None \<Rightarrow> base
      | Some about \<Rightarrow>
          if eq_ignore_ascii_case (gn_node_type about) ''Commit'' then base
          else
            (let owner = (case find (\<lambda>n. gn_node_type n = ''Person'') (gm_nodes base) of
                   Some n \<Rightarrow> gn_node_id n
                 | None \<Rightarrow>
                     if va_global_user_id (ev_actor ev) = []
                     then ''person:prov:'' @ va_provider_user_id (ev_actor ev)
                     else person_node_id (va_global_user_id (ev_actor ev)));
                 (title, labels, body) = extract_text_from_event ev;
                 m = attach_intent_mutation env ev about owner title labels body
             in base\<lparr>gm_nodes := gm_nodes base @ gm_nodes m, gm_edges := gm_edges base @ gm_edges m\<rparr>))"

definition claim_from_work_node :: "project_env \<Rightarrow> graph_node \<Rightarrow> string option \<Rightarrow> intent_claim" where
  "claim_from_work_node env work owner =
     (let props = gn_properties work;
          title = unwrap_or (opt_str (or_else (json_get props ''title'') (json_get props ''summary'')))
                    (gn_display_name work);
          labels = List.map_filter label_text (json_array (json_get props ''labels''));
          body = unwrap_or (opt_str (or_else (json_get props ''body'') (json_get props ''description''))) [];
          (t, c, evidence) = classify_intent env title labels body
      in \<lparr>ic_intent_type = t,
          ic_summary = (if title = [] then intent_as_str t else intent_as_str t @ '': '' @ title),
          ic_about_node_id = gn_node_id work, ic_owner_node_id = owner, ic_confidence = c,
          ic_evidence = evidence\<rparr>)"

end
