(* ===== verification/Graph_Project.thy ===== *)
theory Graph_Project
  imports Graph_Query Graph_Membership Graph_Intent
begin

text \<open>
  The projection of telemetry events into the graph (\<open>graph-core/src/project.rs\<close>): the mapping of
  every kind of event to nodes, edges and states, and the engine that applies each event once.
\<close>

section \<open>Mapping\<close>

definition person_node :: "v1_event \<Rightarrow> graph_node" where
  "person_node ev =
     (let key = person_key ev;
          nid = (if starts_with key ''prov:'' then person_from_provider (trim_start_matches ''prov:'' key)
                 else person_node_id key);
          a = ev_actor ev
      in ev_node ev nid ''Person''
           (if va_display_name a = [] then va_provider_user_id a else va_display_name a)
           (va_provider_user_id a)
           (JObj [(''email'', JStr (va_email a)), (''provider_user_id'', JStr (va_provider_user_id a))]) False)"

definition first_two_segments :: "string \<Rightarrow> string" where
  "first_two_segments s = join_with ''/'' (take 2 (split_on CHR ''/'' s))"

definition pr_lifecycle :: "string \<Rightarrow> string" where
  "pr_lifecycle ty =
     (if contains ty ''merged'' then ''MERGED''
      else if contains ty ''closed'' then ''CLOSED''
      else if contains ty ''reopened'' \<or> contains ty ''opened'' then ''OPEN''
      else ''OPEN'')"

definition blocks_edge :: "project_env \<Rightarrow> v1_event \<Rightarrow> string \<Rightarrow> json \<Rightarrow> graph_edge option" where
  "blocks_edge env ev pr_id b =
     (case as_str b of
        None \<Rightarrow> None
      | Some target \<Rightarrow>
          (let to = (if contains target ''/pr/'' then pr_node_id target else issue_node_id target) in
           Some (ev_edge ev (edge_id (env_sha env) (ev_tenant_id ev) ''BLOCKS'' pr_id to (ev_event_id ev))
                   ''BLOCKS'' pr_id to (JObj []))))"

definition pr_repo :: "v1_event \<Rightarrow> string" where
  "pr_repo ev =
     (if ev_parent_resource_id ev = [] then first_two_segments (ev_resource_id ev) else ev_parent_resource_id ev)"

definition pr_resource :: "v1_event \<Rightarrow> string" where
  "pr_resource ev = (if ev_resource_id ev = [] then pr_repo ev @ ''/pr/unknown'' else ev_resource_id ev)"

definition map_pull_request :: "project_env \<Rightarrow> v1_event \<Rightarrow> graph_mutation" where
  "map_pull_request env ev =
     (let private = vl_is_private (ev_acl ev); sha = env_sha env; t = ev_tenant_id ev;
          repo_res = pr_repo ev; pr_res = pr_resource ev;
          person = person_node ev;
          repo = ev_node ev (repo_node_id repo_res) ''Repo'' repo_res repo_res (JObj []) private;
          title = unwrap_or (opt_str (attr ev ''title'')) [];
          pr = ev_node ev (pr_node_id pr_res) ''PullRequest'' (if title = [] then pr_res else title) pr_res
                 (ev_attributes ev) private;
          pr_id = pr_node_id pr_res;
          authored = ev_edge ev (edge_id sha t ''AUTHORED'' (gn_node_id person) pr_id (ev_event_id ev))
                 ''AUTHORED'' (gn_node_id person) pr_id (JObj []);
          belongs = ev_edge ev (stable_edge_id sha t ''BELONGS_TO'' pr_id (repo_node_id repo_res))
                 ''BELONGS_TO'' pr_id (repo_node_id repo_res) (JObj []);
          state = ev_state ev pr_id ''lifecycle'' (pr_lifecycle (ev_event_type ev));
          blocks = List.map_filter (blocks_edge env ev pr_id) (json_array (attr ev ''blocks''))
      in merge_intent_into env
           \<lparr>gm_nodes = [person, repo, pr], gm_edges = [authored, belongs] @ blocks, gm_states = [state]\<rparr> ev pr_id)"

text \<open>The first key of a list whose value is a string with the given property.\<close>

fun first_str :: "(string \<Rightarrow> bool) \<Rightarrow> json \<Rightarrow> string list \<Rightarrow> string option" where
  "first_str ok v [] = None"
| "first_str ok v (k # ks) =
     (case opt_str (json_get v k) of
        Some s \<Rightarrow> if ok s then Some s else first_str ok v ks
      | None \<Rightarrow> first_str ok v ks)"

definition extract_assignee_key :: "v1_event \<Rightarrow> string option" where
  "extract_assignee_key ev =
     (let nested = (case attr ev ''assignee'' of
            Some v \<Rightarrow> if is_object v
              then first_str (\<lambda>s. s \<noteq> []) v
                [''global_user_id'', ''id'', ''login'', ''accountId'', ''account_id'', ''name'']
              else None
          | None \<Rightarrow> None)
      in or_else nested (first_str (\<lambda>s. s \<noteq> [] \<and> s \<noteq> ''null'') (ev_attributes ev)
           [''assignee'', ''assignee_id'', ''assignee_account_id'', ''assignee_login'',
            ''assignee_global_user_id'']))"

definition person_node_for_key :: "v1_event \<Rightarrow> string \<Rightarrow> string option \<Rightarrow> graph_node" where
  "person_node_for_key ev key display =
     (let nid = (if starts_with key ''gu_'' \<or> CHR 0x40 \<in> set key then person_node_id key
                 else if starts_with key ''person:'' then key
                 else person_from_provider key)
      in ev_node ev nid ''Person'' (unwrap_or display key) key (JObj [(''assignee_key'', JStr key)]) False)"

definition issue_resource :: "v1_event \<Rightarrow> string" where
  "issue_resource ev =
     (let parent = (if ev_parent_resource_id ev = [] then ''project'' else ev_parent_resource_id ev)
      in if ev_resource_id ev = [] then parent @ ''/issue/unknown'' else ev_resource_id ev)"

definition map_issue :: "project_env \<Rightarrow> v1_event \<Rightarrow> graph_mutation" where
  "map_issue env ev =
     (let private = vl_is_private (ev_acl ev); sha = env_sha env; t = ev_tenant_id ev;
          res = issue_resource ev; issue_id = issue_node_id res;
          person = person_node ev;
          issue = ev_node ev issue_id ''Issue''
            (unwrap_or (opt_str (or_else (attr ev ''summary'') (attr ev ''title''))) res) res (ev_attributes ev) private;
          authored = ev_edge ev (edge_id sha t ''AUTHORED'' (gn_node_id person) issue_id (ev_event_id ev))
            ''AUTHORED'' (gn_node_id person) issue_id (JObj []);
          status = unwrap_or (opt_str (or_else (attr ev ''status'') (attr ev ''state''))) ''unknown'';
          state = ev_state ev issue_id ''status'' status;
          et_l = to_ascii_lowercase (ev_event_type ev);
          assigned = (\<lambda>who props. ev_edge ev (stable_edge_id sha t ''ASSIGNED_TO'' issue_id who)
            ''ASSIGNED_TO'' issue_id who props);
          (more_nodes, more_edges) =
            (case extract_assignee_key ev of
               Some akey \<Rightarrow>
                 (let assignee = person_node_for_key ev akey None in
                  ([assignee], [assigned (gn_node_id assignee) (JObj [(''assignee_key'', JStr akey)])]))
             | None \<Rightarrow>
                 if contains et_l ''assign'' then ([], [assigned (gn_node_id (person_node ev)) (JObj [])])
                 else ([], []))
      in merge_intent_into env
           \<lparr>gm_nodes = [person, issue] @ more_nodes, gm_edges = authored # more_edges, gm_states = [state]\<rparr>
           ev issue_id)"

definition leaves_group :: "string \<Rightarrow> bool" where
  "leaves_group et \<longleftrightarrow> contains et ''remove'' \<or> contains et ''left'' \<or> contains et ''deleted''"

definition joins_group :: "string \<Rightarrow> bool" where
  "joins_group et \<longleftrightarrow> contains et ''add'' \<or> contains et ''join'' \<or> contains et ''created''"

definition map_team_membership :: "project_env \<Rightarrow> v1_event \<Rightarrow> graph_mutation" where
  "map_team_membership env ev =
     (let team = unwrap_or (opt_str (or_else (or_else (or_else (or_else (attr ev ''team'') (attr ev ''group_name''))
                   (attr ev ''group_id'')) (attr ev ''channel'')) (attr ev ''org''))) []
      in if team = [] then empty_mutation
         else if leaves_group (to_ascii_lowercase (ev_event_type ev)) then empty_mutation
         else
           (let person = person_node ev;
                team_node = ev_node ev (team_node_id team) ''Team'' team team (JObj []) False;
                edge = ev_edge ev (stable_edge_id (env_sha env) (ev_tenant_id ev) ''MEMBER_OF'' (gn_node_id person)
                    (team_node_id team)) ''MEMBER_OF'' (gn_node_id person) (team_node_id team)
                    (JObj [(''team'', JStr team)])
            in \<lparr>gm_nodes = [person, team_node], gm_edges = [edge], gm_states = []\<rparr>))"

definition push_repo :: "v1_event \<Rightarrow> string" where
  "push_repo ev =
     (if ev_parent_resource_id ev = []
      then (case find_sub ''/ref/'' (ev_resource_id ev) of
              Some i \<Rightarrow> take i (ev_resource_id ev)
            | None \<Rightarrow> first_two_segments (ev_resource_id ev))
      else ev_parent_resource_id ev)"

definition commit_item :: "project_env \<Rightarrow> v1_event \<Rightarrow> string \<Rightarrow> string \<Rightarrow> json \<Rightarrow> (graph_node \<times> graph_edge) option" where
  "commit_item env ev repo_res person_id c =
     (let sha = unwrap_or (opt_str (json_get c ''id'')) [] in
      if sha = [] then None
      else
        (let cid = commit_node_id repo_res sha;
             msg = take_chars 240 (trim (first_line (unwrap_or (opt_str (json_get c ''message'')) [])));
             node = ev_node ev cid ''Commit'' (take_chars 7 sha) sha
               (JObj [(''message'', JStr msg), (''title'', JStr msg), (''sha'', JStr sha)]) (vl_is_private (ev_acl ev));
             edge = ev_edge ev (edge_id (env_sha env) (ev_tenant_id ev) ''AUTHORED'' person_id cid
                 (ev_event_id ev @ '':'' @ sha)) ''AUTHORED'' person_id cid (JObj [])
         in Some (node, edge)))"

definition map_push :: "project_env \<Rightarrow> v1_event \<Rightarrow> graph_mutation" where
  "map_push env ev =
     (let repo_res = push_repo ev in
      if repo_res = [] then empty_mutation
      else
        (let person = person_node ev;
             repo = ev_node ev (repo_node_id repo_res) ''Repo'' repo_res repo_res (JObj []) (vl_is_private (ev_acl ev));
             pushed = ev_edge ev (edge_id (env_sha env) (ev_tenant_id ev) ''PUSHED_TO'' (gn_node_id person)
                 (repo_node_id repo_res) (ev_event_id ev)) ''PUSHED_TO'' (gn_node_id person) (repo_node_id repo_res)
                 (JObj [(''ref'', JStr (unwrap_or (opt_str (attr ev ''ref'')) [])),
                    (''commit_count'', unwrap_or (attr ev ''commit_count'') JNull)]);
             commits = List.map_filter (commit_item env ev repo_res (gn_node_id person))
                 (take 20 (json_array (attr ev ''commits'')))
         in \<lparr>gm_nodes = [person, repo] @ map fst commits, gm_edges = pushed # map snd commits, gm_states = []\<rparr>))"

definition map_check_activity :: "project_env \<Rightarrow> v1_event \<Rightarrow> graph_mutation" where
  "map_check_activity env ev =
     (let repo_res = (if ev_parent_resource_id ev \<noteq> [] then ev_parent_resource_id ev
                      else first_two_segments (ev_resource_id ev))
      in if repo_res = [] \<or> repo_res = ev_resource_id ev \<and> CHR ''/'' \<notin> set (ev_resource_id ev)
         then empty_mutation
         else
           (let person = person_node ev;
                repo = ev_node ev (repo_node_id repo_res) ''Repo'' repo_res repo_res (JObj []) (vl_is_private (ev_acl ev));
                edge = ev_edge ev (edge_id (env_sha env) (ev_tenant_id ev) ''CHECKED'' (gn_node_id person)
                    (repo_node_id repo_res) (ev_event_id ev)) ''CHECKED'' (gn_node_id person) (repo_node_id repo_res)
                    (JObj [(''event_type'', JStr (ev_event_type ev))])
            in \<lparr>gm_nodes = [person, repo], gm_edges = [edge], gm_states = []\<rparr>))"

definition map_communication :: "project_env \<Rightarrow> v1_event \<Rightarrow> graph_mutation" where
  "map_communication env ev =
     (let channel = unwrap_or (opt_str (or_else (attr ev ''channel'') (attr ev ''conversation_id''))) ''unknown'';
          person = person_node ev;
          ch = ev_node ev (channel_node_id channel) ''Channel'' channel channel (JObj []) (vl_is_private (ev_acl ev));
          edge = ev_edge ev (edge_id (env_sha env) (ev_tenant_id ev) ''DISCUSSED_IN'' (gn_node_id person)
              (channel_node_id channel) (ev_event_id ev)) ''DISCUSSED_IN'' (gn_node_id person) (channel_node_id channel)
              (JObj [(''preview'', unwrap_or (attr ev ''text_preview'') (JStr []))])
      in \<lparr>gm_nodes = [person, ch], gm_edges = [edge], gm_states = []\<rparr>)"

definition map_blocker_hint :: "project_env \<Rightarrow> v1_event \<Rightarrow> graph_mutation" where
  "map_blocker_hint env ev =
     (case (opt_str (attr ev ''from_resource_id''), opt_str (attr ev ''to_resource_id'')) of
        (Some f, Some t) \<Rightarrow>
          (let from_n = pr_node_id f; to_n = pr_node_id t
           in \<lparr>gm_nodes = [],
               gm_edges = [ev_edge ev (edge_id (env_sha env) (ev_tenant_id ev) ''BLOCKS'' from_n to_n (ev_event_id ev))
                  ''BLOCKS'' from_n to_n (JObj [])],
               gm_states = []\<rparr>)
      | _ \<Rightarrow> empty_mutation)"

definition is_pr_event :: "string \<Rightarrow> bool" where
  "is_pr_event et \<longleftrightarrow> starts_with et ''pull_request.'' \<or> contains et ''merge_request.''"

definition map_event_rest :: "project_env \<Rightarrow> v1_event \<Rightarrow> graph_mutation" where
  "map_event_rest env ev =
     (let et = ev_event_type ev; et_l = to_ascii_lowercase et in
      if starts_with et ''issue.'' \<or> contains et_l ''jira:'' \<or> starts_with et ''linear.''
         \<or> contains et_l ''issue.assigned'' \<or> contains et_l ''issue_assigned''
      then map_issue env ev
      else if et = ''push'' \<or> starts_with et ''push'' then map_push env ev
      else if starts_with et ''check_suite.'' \<or> starts_with et ''check_run.'' \<or> starts_with et ''status.''
         \<or> starts_with et ''workflow_run.'' \<or> starts_with et ''deployment.'' \<or> starts_with et ''branch.''
      then map_check_activity env ev
      else if starts_with et ''slack.'' \<or> starts_with et ''teams.'' then map_communication env ev
      else if contains et_l ''block'' then map_blocker_hint env ev
      else empty_mutation)"

definition map_event :: "project_env \<Rightarrow> v1_event \<Rightarrow> graph_mutation" where
  "map_event env ev =
     (let et = ev_event_type ev; et_l = to_ascii_lowercase et in
      if is_pr_event et then map_pull_request env ev
      else if eq_ignore_ascii_case (ev_category ev) ''identity'' \<or> contains et_l ''identity''
         \<or> contains et_l ''member'' \<and> \<not> contains et_l ''comment''
      then (let m = map_team_membership env ev in
            if gm_nodes m \<noteq> [] \<or> gm_edges m \<noteq> [] then m else map_event_rest env ev)
      else map_event_rest env ev)"

section \<open>The engine\<close>

record project_world =
  pw_store :: graph_store
  pw_members :: membership

definition try_membership_from_identity_event :: "v1_event \<Rightarrow> membership \<Rightarrow> membership" where
  "try_membership_from_identity_event ev m =
     (let team = unwrap_or (opt_str (or_else (or_else (attr ev ''team'') (attr ev ''group_name'')) (attr ev ''channel''))) [];
          member = unwrap_or (opt_str (or_else (attr ev ''member'') (attr ev ''user''))) (va_global_user_id (ev_actor ev));
          et = to_ascii_lowercase (ev_event_type ev)
      in if team = [] \<or> member = [] then m
         else if \<not> leaves_group et \<and> \<not> joins_group et then m
         else
           (let change = (if leaves_group et then ''removed_from_group'' else ''added_to_group'');
                uid = (if va_global_user_id (ev_actor ev) \<noteq> [] then va_global_user_id (ev_actor ev) else member)
            in case apply_membership_change (ev_tenant_id ev) uid team change m of Inr m' \<Rightarrow> m' | Inl _ \<Rightarrow> m))"

definition is_identity_event :: "v1_event \<Rightarrow> bool" where
  "is_identity_event ev \<longleftrightarrow> eq_ignore_ascii_case (ev_category ev) ''identity''
     \<or> contains (ev_event_type ev) ''identity'' \<or> contains (ev_event_type ev) ''member''"

definition outcome :: "string \<Rightarrow> string \<Rightarrow> project_status \<Rightarrow> nat \<Rightarrow> nat \<Rightarrow> project_outcome" where
  "outcome e t st n k =
     \<lparr>po_event_id = e, po_tenant_id = t, po_status = st, po_nodes_upserted = n, po_edges_upserted = k\<rparr>"

definition project_event :: "project_env \<Rightarrow> v1_event \<Rightarrow> project_world \<Rightarrow> project_world \<times> project_outcome" where
  "project_event env ev w =
     (let (store, first) = mark_event_applied (ev_tenant_id ev, ev_event_id ev) (pw_store w);
          w = w\<lparr>pw_store := store\<rparr>
      in if \<not> first then (w, outcome (ev_event_id ev) (ev_tenant_id ev) Duplicate 0 0)
         else
           (let w = (if is_identity_event ev
                     then w\<lparr>pw_members := try_membership_from_identity_event ev (pw_members w)\<rparr> else w);
                m = map_event env ev
            in if gm_nodes m = [] \<and> gm_edges m = [] \<and> gm_states m = []
               then (w, outcome (ev_event_id ev) (ev_tenant_id ev) Skipped 0 0)
               else (w\<lparr>pw_store := apply_mutation m (pw_store w)\<rparr>,
                     outcome (ev_event_id ev) (ev_tenant_id ev) Applied (length (gm_nodes m)) (length (gm_edges m)))))"

definition project_acl_revocation ::
  "v1_acl_revocation \<Rightarrow> project_world \<Rightarrow> project_world \<times> (graph_error + project_outcome)" where
  "project_acl_revocation rv w =
     (let (store, first) = mark_event_applied (rv_tenant_id rv, rv_event_id rv) (pw_store w);
          w = w\<lparr>pw_store := store\<rparr>
      in if \<not> first then (w, Inr (outcome (rv_event_id rv) (rv_tenant_id rv) Duplicate 0 0))
         else case apply_membership_change (rv_tenant_id rv) (rv_global_user_id rv) (rv_group_id rv)
                (rv_change_type rv) (pw_members w) of
                Inl e \<Rightarrow> (w, Inl e)
              | Inr m \<Rightarrow> (w\<lparr>pw_members := m\<rparr>, Inr (outcome (rv_event_id rv) (rv_tenant_id rv) Applied 0 0)))"

section \<open>What a mapped event carries\<close>

definition ev_node_ok :: "v1_event \<Rightarrow> graph_node \<Rightarrow> bool" where
  "ev_node_ok ev n \<longleftrightarrow> gn_tenant_id n = ev_tenant_id ev
     \<and> gn_allowed_group_ids n = vl_allowed_group_ids (ev_acl ev) \<and> gn_acl_version n = vl_acl_version (ev_acl ev)
     \<and> gn_is_private n = (vl_is_private (ev_acl ev) \<and> gn_node_type n \<notin> {''Person'', ''Team''})"

definition ev_edge_ok :: "v1_event \<Rightarrow> graph_edge \<Rightarrow> bool" where
  "ev_edge_ok ev e \<longleftrightarrow> ge_tenant_id e = ev_tenant_id ev \<and> ge_event_id e = ev_event_id ev
     \<and> ge_is_private e = vl_is_private (ev_acl ev) \<and> ge_allowed_group_ids e = vl_allowed_group_ids (ev_acl ev)
     \<and> ge_valid_from e = ev_event_timestamp ev \<and> ge_valid_to e = None"

definition ev_state_ok :: "v1_event \<Rightarrow> entity_state \<Rightarrow> bool" where
  "ev_state_ok ev st \<longleftrightarrow> es_tenant_id st = ev_tenant_id ev \<and> es_event_id st = ev_event_id ev
     \<and> es_is_private st = vl_is_private (ev_acl ev) \<and> es_allowed_group_ids st = vl_allowed_group_ids (ev_acl ev)
     \<and> es_as_of st = ev_event_timestamp ev"

definition ends_in :: "graph_node list \<Rightarrow> graph_edge \<Rightarrow> bool" where
  "ends_in ns e \<longleftrightarrow> ge_edge_type e = ''BLOCKS''
     \<or> ge_from_node_id e \<in> gn_node_id ` set ns \<and> ge_to_node_id e \<in> gn_node_id ` set ns"

definition ev_mutation :: "v1_event \<Rightarrow> graph_mutation \<Rightarrow> bool" where
  "ev_mutation ev m \<longleftrightarrow> list_all (ev_node_ok ev) (gm_nodes m)
     \<and> list_all (\<lambda>e. ev_edge_ok ev e \<and> ends_in (gm_nodes m) e) (gm_edges m) \<and> list_all (ev_state_ok ev) (gm_states m)"

lemma ev_ok_simps [simp]:
  "ev_node_ok ev (ev_node ev i ty d r p b) \<longleftrightarrow> b = (vl_is_private (ev_acl ev) \<and> ty \<notin> {''Person'', ''Team''})"
  "ev_edge_ok ev (ev_edge ev i ty x y p)" "ev_state_ok ev (ev_state ev n k v)"
  by (simp_all add: ev_node_ok_def ev_edge_ok_def ev_state_ok_def)

lemma person_node_ok [simp]: "ev_node_ok ev (person_node ev)" "ev_node_ok ev (person_node_for_key ev k d)"
  by (simp_all add: person_node_def person_node_for_key_def Let_def)

lemma person_node_type [simp]:
  "gn_node_type (person_node ev) = ''Person''" "gn_node_type (person_node_for_key ev k d) = ''Person''"
  by (simp_all add: person_node_def person_node_for_key_def Let_def)

lemma ev_mutation_empty [simp]: "ev_mutation ev empty_mutation"
  by (simp add: ev_mutation_def empty_mutation_def)

lemma ends_in_mono: "ends_in ns e \<Longrightarrow> ends_in (ns @ ms) e"
  by (auto simp: ends_in_def)

lemma ev_mutation_merge:
  assumes m: "ev_mutation ev m" and p: "\<exists>n \<in> set (gm_nodes m). gn_node_type n = ''Person''"
  shows "ev_mutation ev (merge_intent_into env m ev about_id)"
proof (cases "find (\<lambda>n. gn_node_id n = about_id) (gm_nodes m)")
  case None
  then show ?thesis using m by (simp add: merge_intent_into_def)
next
  case (Some about)
  then have about: "about \<in> set (gm_nodes m)" by (auto simp: find_Some_iff)
  obtain owner where owner: "find (\<lambda>n. gn_node_type n = ''Person'') (gm_nodes m) = Some owner"
    using p by (cases "find (\<lambda>n. gn_node_type n = ''Person'') (gm_nodes m)") (auto simp: find_None_iff)
  then have "owner \<in> set (gm_nodes m)" by (auto simp: find_Some_iff)
  note nodes = about this
  obtain title labels body where tx: "extract_text_from_event ev = (title, labels, body)"
    by (cases "extract_text_from_event ev")
  obtain t c w where cl: "classify_intent env title labels body = (t, c, w)"
    by (cases "classify_intent env title labels body")
  show ?thesis
    using m nodes Some owner
    by (auto simp: merge_intent_into_def tx cl attach_intent_mutation_def Let_def ev_mutation_def empty_mutation_def
        list_all_iff ends_in_def)
qed

lemma ev_mutation_pull_request: "ev_mutation ev (map_pull_request env ev)"
  unfolding map_pull_request_def Let_def
  by (rule ev_mutation_merge)
    (auto simp: ev_mutation_def list_all_iff map_filter_def blocks_edge_def ends_in_def Let_def split: option.splits)

lemma ev_mutation_issue: "ev_mutation ev (map_issue env ev)"
  unfolding map_issue_def Let_def case_prod_unfold
  by (rule ev_mutation_merge)
    (auto simp: ev_mutation_def list_all_iff ends_in_def split: option.splits)

lemma ev_mutation_team: "ev_mutation ev (map_team_membership env ev)"
  by (auto simp: map_team_membership_def Let_def ev_mutation_def ends_in_def empty_mutation_def)

lemma ev_mutation_push: "ev_mutation ev (map_push env ev)"
proof -
  have "ev_node_ok ev (fst x)" "ev_edge_ok ev (snd x)" "ge_from_node_id (snd x) = p"
    "ge_to_node_id (snd x) = gn_node_id (fst x)"
    if "commit_item env ev r p c = Some x" for r p c x
    using that by (auto simp: commit_item_def Let_def split: if_splits)
  then show ?thesis
    by (auto simp: map_push_def Let_def ev_mutation_def list_all_iff map_filter_def ends_in_def empty_mutation_def
        intro: rev_image_eqI)
qed

lemma ev_mutation_check: "ev_mutation ev (map_check_activity env ev)"
  by (auto simp: map_check_activity_def Let_def ev_mutation_def ends_in_def empty_mutation_def)

lemma ev_mutation_communication: "ev_mutation ev (map_communication env ev)"
  by (auto simp: map_communication_def Let_def ev_mutation_def ends_in_def)

lemma ev_mutation_blocker: "ev_mutation ev (map_blocker_hint env ev)"
  by (auto simp: map_blocker_hint_def Let_def ev_mutation_def ends_in_def empty_mutation_def split: option.splits)

lemma ev_mutation_rest: "ev_mutation ev (map_event_rest env ev)"
  unfolding map_event_rest_def Let_def
  by (simp add: ev_mutation_issue ev_mutation_push ev_mutation_check ev_mutation_communication ev_mutation_blocker)

lemma ev_mutation_map_event: "ev_mutation ev (map_event env ev)"
  unfolding map_event_def Let_def
  by (simp add: ev_mutation_rest ev_mutation_team ev_mutation_pull_request)

text \<open>
  Access fields follow the event. Every node, edge and state an event is mapped to belongs to
  the event's tenant and carries its groups; edges and states are private exactly when the event
  is, and so are nodes other than people and teams, which are public in the tenant. Edges and
  states carry the event's id and time, and apart from \<open>BLOCKS\<close> edges both ends of an edge are
  nodes of the same mutation.
\<close>

lemma map_event_confined:
  "set (gm_nodes (map_event env ev)) \<subseteq> {n. gn_tenant_id n = ev_tenant_id ev
      \<and> gn_allowed_group_ids n = vl_allowed_group_ids (ev_acl ev)
      \<and> gn_is_private n = (vl_is_private (ev_acl ev) \<and> gn_node_type n \<notin> {''Person'', ''Team''})}
   \<and> set (gm_edges (map_event env ev)) \<subseteq> {e. ge_tenant_id e = ev_tenant_id ev
      \<and> ge_is_private e = vl_is_private (ev_acl ev) \<and> ge_allowed_group_ids e = vl_allowed_group_ids (ev_acl ev)
      \<and> ge_event_id e = ev_event_id ev \<and> ge_valid_from e = ev_event_timestamp ev \<and> ge_valid_to e = None
      \<and> (ge_edge_type e = ''BLOCKS''
         \<or> {ge_from_node_id e, ge_to_node_id e} \<subseteq> gn_node_id ` set (gm_nodes (map_event env ev)))}
   \<and> set (gm_states (map_event env ev)) \<subseteq> {st. es_tenant_id st = ev_tenant_id ev
      \<and> es_is_private st = vl_is_private (ev_acl ev) \<and> es_allowed_group_ids st = vl_allowed_group_ids (ev_acl ev)
      \<and> es_event_id st = ev_event_id ev \<and> es_as_of st = ev_event_timestamp ev}"
  using ev_mutation_map_event [of ev env]
  by (auto simp: ev_mutation_def list_all_iff ev_node_ok_def ev_edge_ok_def ev_state_ok_def ends_in_def)

section \<open>What an outsider sees of a private event\<close>

lemma get_node_insert:
  "get_node (insert_node n s) ctx i = Some m \<Longrightarrow> get_node s ctx i = Some m \<or> m = n \<and> visible_node ctx n"
  by (auto simp: get_node_def insert_node_def split: if_splits dest!: filter_opt_SomeD)

lemma get_node_insert_nodes:
  "get_node (fold insert_node ns s) ctx i = Some m \<Longrightarrow> get_node s ctx i = Some m \<or> m \<in> set ns \<and> visible_node ctx m"
proof (induction ns arbitrary: s)
  case (Cons n ns)
  then have "get_node (insert_node n s) ctx i = Some m \<or> m \<in> set ns \<and> visible_node ctx m" by simp
  then show ?case using get_node_insert [of n s ctx i m] by auto
qed simp

lemma upsert_edges_rest [simp]:
  "gs_nodes (fold upsert_edge es s) = gs_nodes s" "gs_states (fold upsert_edge es s) = gs_states s"
  "gs_applied (fold upsert_edge es s) = gs_applied s"
  by (induction es arbitrary: s) (simp_all add: upsert_edge_def)

lemma upsert_states_rest [simp]:
  "gs_nodes (fold upsert_state sts s) = gs_nodes s" "gs_edges (fold upsert_state sts s) = gs_edges s"
  "gs_applied (fold upsert_state sts s) = gs_applied s"
  by (induction sts arbitrary: s) (simp_all add: upsert_state_def)

lemma insert_nodes_rest [simp]:
  "gs_states (fold insert_node ns s) = gs_states s" "gs_edges (fold insert_node ns s) = gs_edges s"
  "gs_applied (fold insert_node ns s) = gs_applied s"
  by (induction ns arbitrary: s) (simp_all add: insert_node_def)

lemma set_tenant_edges_upsert:
  "set (tenant_edges (fold upsert_edge es s) t) \<subseteq> set es \<union> set (tenant_edges s t)"
proof (induction es arbitrary: s)
  case (Cons e es)
  have "set (tenant_edges (upsert_edge e s) t) \<subseteq> insert e (set (tenant_edges s t))"
    using set_upsert_by_subset [of ge_edge_id e "tenant_edges s t"]
    by (auto simp: upsert_edge_def tenant_edges_def)
  with Cons [of "upsert_edge e s"] show ?case by auto
qed simp

lemma fold_keep_mem:
  "fold (\<lambda>st old. Some (keep_state old st)) sts old = Some st \<Longrightarrow> st \<in> set sts \<or> old = Some st"
proof (induction sts arbitrary: old)
  case (Cons x sts)
  then have "st \<in> set sts \<or> st = keep_state old x" by auto
  with keep_state_mem [of old x] show ?case by (cases old) auto
qed simp

lemma get_state_upserts:
  "get_state (fold upsert_state sts s) ctx i k = Some st \<Longrightarrow>
   get_state s ctx i k = Some st \<or> st \<in> set sts \<and> state_allowed ctx st"
  by (auto simp: get_state_eq get_upsert_states dest!: filter_opt_SomeD fold_keep_mem)

lemma acl_denies:
  "set gs \<inter> set (qc_group_ids ctx) = {} \<Longrightarrow> \<not> acl_allows ctx True gs"
  by (simp add: acl_allows_iff)

text \<open>
  C11. A private event reveals nothing to a caller outside its groups: whatever the caller sees of
  the graph after the event (node, edge or state) the caller saw before it, apart from the public
  nodes of people and teams.
\<close>

theorem private_event_reveals_nothing:
  assumes "vl_is_private (ev_acl ev)"
    and "set (vl_allowed_group_ids (ev_acl ev)) \<inter> set (qc_group_ids ctx) = {}"
  shows "(get_node (apply_mutation (map_event env ev) s) ctx i = Some n \<longrightarrow>
        get_node s ctx i = Some n \<or> gn_node_type n \<in> {''Person'', ''Team''})
    \<and> (get_state (apply_mutation (map_event env ev) s) ctx i k = Some st \<longrightarrow> get_state s ctx i k = Some st)
    \<and> set (filter (visible_edge ctx) (tenant_edges (apply_mutation (map_event env ev) s) t)) \<subseteq> set (tenant_edges s t)"
proof -
  define s' where "s' = apply_mutation (map_event env ev) s"
  let ?m = "map_event env ev"
  have m: "ev_mutation ev ?m" by (rule ev_mutation_map_event)
  have gn: "get_node s' ctx = get_node (fold insert_node (gm_nodes ?m) s) ctx"
    by (rule ext) (simp add: s'_def apply_mutation_def get_node_def)
  have gs: "get_state s' ctx = get_state (fold upsert_state (gm_states ?m) s) ctx"
    by (intro ext) (simp add: s'_def apply_mutation_def get_state_eq get_upsert_states)
  have te: "tenant_edges s' t = tenant_edges (fold upsert_edge (gm_edges ?m) (fold insert_node (gm_nodes ?m) s)) t"
    "tenant_edges (fold insert_node (gm_nodes ?m) s) t = tenant_edges s t"
    by (simp_all add: s'_def apply_mutation_def tenant_edges_def)
  have "gn_node_type n \<in> {''Person'', ''Team''}" if "n \<in> set (gm_nodes ?m)" "visible_node ctx n"
    using m that assms(1) acl_denies [OF assms(2)]
    by (auto simp: ev_mutation_def list_all_iff ev_node_ok_def visible_node_def)
  moreover have "\<not> visible_edge ctx e" if "e \<in> set (gm_edges ?m)" for e
    using m that assms(1) acl_denies [OF assms(2)]
    by (auto simp: ev_mutation_def list_all_iff ev_edge_ok_def visible_edge_def)
  moreover have "\<not> state_allowed ctx st" if "st \<in> set (gm_states ?m)"
    using m that assms(1) acl_denies [OF assms(2)]
    by (auto simp: ev_mutation_def list_all_iff ev_state_ok_def state_allowed_def)
  ultimately show ?thesis
    using get_node_insert_nodes [of "gm_nodes ?m" s ctx i n] get_state_upserts [of "gm_states ?m" s ctx i k st]
      set_tenant_edges_upsert [of "gm_edges ?m" "fold insert_node (gm_nodes ?m) s" t]
    unfolding s'_def [symmetric] gn gs te by auto
qed

section \<open>Each message once\<close>

definition handle_payload :: "project_env \<Rightarrow> v1_bus_payload \<Rightarrow> project_world \<Rightarrow> project_world" where
  "handle_payload env p w =
     (case p of PEvent ev \<Rightarrow> fst (project_event env ev w) | PAcl rv \<Rightarrow> fst (project_acl_revocation rv w))"

fun payload_key :: "v1_bus_payload \<Rightarrow> string \<times> string" where
  "payload_key (PEvent ev) = (ev_tenant_id ev, ev_event_id ev)"
| "payload_key (PAcl rv) = (rv_tenant_id rv, rv_event_id rv)"

definition world_mark :: "string \<times> string \<Rightarrow> project_world \<Rightarrow> project_world \<times> bool" where
  "world_mark k w = (let (s, first) = mark_event_applied k (pw_store w) in (w\<lparr>pw_store := s\<rparr>, first))"

definition world_lookup :: "project_world \<Rightarrow> string \<times> string \<Rightarrow> (string \<times> string) option" where
  "world_lookup w = mark_lookup (pw_store w)"

fun world_apply :: "project_env \<Rightarrow> v1_bus_payload \<Rightarrow> project_world \<Rightarrow> project_world" where
  "world_apply env (PEvent ev) w =
     \<lparr>pw_store = apply_mutation (map_event env ev) (pw_store w),
      pw_members = (if is_identity_event ev then try_membership_from_identity_event ev (pw_members w)
                    else pw_members w)\<rparr>"
| "world_apply env (PAcl rv) w =
     (case apply_membership_change (rv_tenant_id rv) (rv_global_user_id rv) (rv_group_id rv)
             (rv_change_type rv) (pw_members w) of
        Inl e \<Rightarrow> w | Inr m \<Rightarrow> w\<lparr>pw_members := m\<rparr>)"

lemma apply_mutation_nothing:
  "gm_nodes m = [] \<Longrightarrow> gm_edges m = [] \<Longrightarrow> gm_states m = [] \<Longrightarrow> apply_mutation m s = s"
  by (simp add: apply_mutation_def)

lemma handle_payload_deliver:
  "handle_payload env p = deliver world_mark (world_apply env) (payload_key p, p)"
  by (rule ext, cases p)
    (auto simp: handle_payload_def project_event_def project_acl_revocation_def world_mark_def apply_mutation_nothing
      Let_def split: prod.split sum.split)

lemma mark_lookup_apply [simp]: "mark_lookup (apply_mutation m s) = mark_lookup s"
  by (rule ext) (simp add: mark_lookup_def apply_mutation_def)

interpretation projection: idempotent_consumer world_mark world_lookup "\<lambda>k. k" "\<lambda>_. True" "world_apply env"
  for env
proof
  fix w :: project_world and v :: "string \<times> string"
  assume "world_lookup w v = None"
  then show "snd (world_mark v w) \<and> world_lookup (fst (world_mark v w)) = (world_lookup w)(v \<mapsto> v) \<and> True"
    using event_marks.put_new [of "pw_store w" v]
    by (auto simp: world_mark_def world_lookup_def split: prod.split)
next
  fix w :: project_world and v x :: "string \<times> string"
  assume "world_lookup w v = Some x"
  then show "world_mark v w = (w, False)"
    using event_marks.put_taken [of "pw_store w" v x] by (auto simp: world_mark_def world_lookup_def)
next
  fix w :: project_world and p
  show "world_lookup (world_apply env p w) = world_lookup w"
    by (cases p) (auto simp: world_lookup_def split: sum.split)
qed simp

lemma fold_handle_payload:
  "fold (handle_payload env) ps = fold (deliver world_mark (world_apply env)) (map (\<lambda>p. (payload_key p, p)) ps)"
  by (induction ps) (simp_all add: handle_payload_deliver del: deliver.simps)

text \<open>
  At-least-once delivery is exactly-once projection: wherever a message is redelivered in a
  history of events and revocations, with any other messages in between, dropping the second
  delivery leaves the same graph, the same memberships and the same marks.
\<close>

lemma redelivery_changes_nothing:
  "fold (handle_payload env) (xs @ p # ys @ p # zs) w = fold (handle_payload env) (xs @ p # ys @ zs) w"
  using projection.redelivery [where s = w and env = env and xs = "map (\<lambda>p. (payload_key p, p)) xs"
      and v = "payload_key p" and m = p and ys = "map (\<lambda>p. (payload_key p, p)) ys" and m' = p
      and zs = "map (\<lambda>p. (payload_key p, p)) zs"]
  by (simp only: fold_handle_payload list.map map_append simp_thms)

end
