(* ===== verification/Graph_Order.thy ===== *)
theory Graph_Order
  imports Graph_Project
begin

text \<open>
  Consequences of the projection across events: the lifecycle of a pull request does not depend on
  the order its events arrive in, a revocation takes effect on the next read, and what the early
  event mark does to a revocation that fails.
\<close>

section \<open>Order of events\<close>

definition project_all :: "project_env \<Rightarrow> v1_event list \<Rightarrow> project_world \<Rightarrow> project_world" where
  "project_all env evs w = fold (\<lambda>ev w. fst (project_event env ev w)) evs w"

lemma project_event_states:
  assumes "dm_get (gs_applied (pw_store w)) (ev_tenant_id ev, ev_event_id ev) = None"
  shows "gs_states (pw_store (fst (project_event env ev w)))
      = gs_states (fold upsert_state (gm_states (map_event env ev)) (pw_store w))
    \<and> gs_applied (pw_store (fst (project_event env ev w)))
      = dm_put (ev_tenant_id ev, ev_event_id ev) () (gs_applied (pw_store w))"
proof -
  have gs: "gs_states (fold upsert_state sts s) = gs_states (fold upsert_state sts s')"
    if "gs_states s = gs_states s'" for sts s s'
    using that by (induction sts arbitrary: s s') (simp_all add: upsert_state_def)
  show ?thesis
    using assms
    by (auto simp: project_event_def mark_event_applied_def Let_def apply_mutation_def intro: gs)
qed

lemma fold_upsert_states_cong:
  "gs_states s = gs_states s' \<Longrightarrow> gs_states (fold upsert_state sts s) = gs_states (fold upsert_state sts s')"
  by (induction sts arbitrary: s s') (simp_all add: upsert_state_def)

lemma project_all_states:
  assumes "distinct (map (\<lambda>ev. (ev_tenant_id ev, ev_event_id ev)) evs)"
    and "\<forall>ev \<in> set evs. dm_get (gs_applied (pw_store w)) (ev_tenant_id ev, ev_event_id ev) = None"
  shows "gs_states (pw_store (project_all env evs w))
    = gs_states (fold upsert_state (concat (map (\<lambda>ev. gm_states (map_event env ev)) evs)) (pw_store w))"
  using assms unfolding project_all_def
proof (induction evs arbitrary: w)
  case (Cons ev evs)
  let ?w = "fst (project_event env ev w)"
  from Cons.prems(2) have "dm_get (gs_applied (pw_store w)) (ev_tenant_id ev, ev_event_id ev) = None" by simp
  note s = project_event_states [OF this, of env]
  have "\<forall>ev' \<in> set evs. dm_get (gs_applied (pw_store ?w)) (ev_tenant_id ev', ev_event_id ev') = None"
  proof
    fix ev' assume e: "ev' \<in> set evs"
    then have "(ev_tenant_id ev', ev_event_id ev') \<in> (\<lambda>ev. (ev_tenant_id ev, ev_event_id ev)) ` set evs"
      by (rule imageI)
    with Cons.prems(1) have "(ev_tenant_id ev', ev_event_id ev') \<noteq> (ev_tenant_id ev, ev_event_id ev)" by force
    with s Cons.prems(2) e show "dm_get (gs_applied (pw_store ?w)) (ev_tenant_id ev', ev_event_id ev') = None"
      by (simp del: prod.inject)
  qed
  with Cons.IH [of ?w] Cons.prems(1)
  have "gs_states (pw_store (fold (\<lambda>ev w. fst (project_event env ev w)) evs ?w))
    = gs_states (fold upsert_state (concat (map (\<lambda>ev. gm_states (map_event env ev)) evs)) (pw_store ?w))"
    by simp
  also have "\<dots> = gs_states (fold upsert_state (concat (map (\<lambda>ev. gm_states (map_event env ev)) evs))
      (fold upsert_state (gm_states (map_event env ev)) (pw_store w)))"
    using s by (intro fold_upsert_states_cong) blast
  finally show ?case by simp
qed simp

lemma gm_states_merge [simp]: "gm_states (merge_intent_into env m ev a) = gm_states m"
  by (auto simp: merge_intent_into_def Let_def split: option.split prod.split)

lemma pr_event_states:
  "is_pr_event (ev_event_type ev) \<Longrightarrow> gm_states (map_event env ev)
    = [ev_state ev (pr_node_id (pr_resource ev)) ''lifecycle'' (pr_lifecycle (ev_event_type ev))]"
  by (simp add: map_event_def map_pull_request_def Let_def)

lemma pr_lifecycle_values: "pr_lifecycle ty \<in> lifecycle_values"
  by (simp add: pr_lifecycle_def lifecycle_values_def)

lemma concat_singletons: "\<forall>x \<in> set xs. f x = [g x] \<Longrightarrow> concat (map f xs) = map g xs"
  by (induction xs) simp_all

text \<open>
  C10. The lifecycle of pull requests does not depend on delivery order. Project the same pull
  request events (different event ids, not projected before) in any two orders into a graph that
  has no lifecycle yet for a pull request: it ends with the same lifecycle value and time.
\<close>

theorem lifecycle_ignores_delivery_order:
  assumes "mset evs = mset evs'" and "distinct (map ev_event_id evs)"
    and "\<forall>ev \<in> set evs. ev_tenant_id ev = t \<and> is_pr_event (ev_event_type ev)
          \<and> dm_get (gs_applied (pw_store w)) (t, ev_event_id ev) = None"
    and "dm_get (gs_states (pw_store w)) (t, i, ''lifecycle'') = None"
  shows "map_option (\<lambda>st. (es_as_of st, es_state_value st))
      (dm_get (gs_states (pw_store (project_all env evs w))) (t, i, ''lifecycle''))
    = map_option (\<lambda>st. (es_as_of st, es_state_value st))
      (dm_get (gs_states (pw_store (project_all env evs' w))) (t, i, ''lifecycle''))"
proof -
  let ?st = "\<lambda>ev. ev_state ev (pr_node_id (pr_resource ev)) ''lifecycle'' (pr_lifecycle (ev_event_type ev))"
  have set: "set evs' = set evs" using assms(1) by (metis set_mset_mset)
  have st: "gs_states (pw_store (project_all env es w)) = gs_states (fold upsert_state (map ?st es) (pw_store w))"
    if es: "mset es = mset evs" for es
  proof -
    have mem: "set es = set evs" using es by (metis set_mset_mset)
    have "distinct (map ev_event_id es)"
      using assms(2) mset_eq_imp_distinct_iff [of "map ev_event_id es" "map ev_event_id evs"] es by simp
    then have d: "distinct (map (\<lambda>ev. (ev_tenant_id ev, ev_event_id ev)) es)"
      by (auto simp: distinct_map inj_on_def)
    have fr: "\<forall>ev \<in> set es. dm_get (gs_applied (pw_store w)) (ev_tenant_id ev, ev_event_id ev) = None"
      using assms(3) mem by simp
    have c: "concat (map (\<lambda>ev. gm_states (map_event env ev)) es) = map ?st es"
    proof -
      have "\<forall>ev \<in> set es. gm_states (map_event env ev) = [?st ev]"
        using assms(3) mem pr_event_states by blast
      then show ?thesis by (rule concat_singletons)
    qed
    show ?thesis using project_all_states [OF d fr, of env] by (simp only: c)
  qed
  have inj: "ev_event_id a = ev_event_id b \<Longrightarrow> a = b" if "a \<in> set evs" "b \<in> set evs" for a b
    using assms(2) that by (auto simp: distinct_map inj_on_def)
  have "events_determine_values (set (map ?st evs))"
    unfolding events_determine_values_def
  proof (intro ballI impI)
    fix a b assume a: "a \<in> set (map ?st evs)" "b \<in> set (map ?st evs)" and e: "es_event_id a = es_event_id b"
    then obtain x y where x: "x \<in> set evs" "a = ?st x" and y: "y \<in> set evs" "b = ?st y" by auto
    with e have "ev_event_id x = ev_event_id y" by simp
    with inj x y have "x = y" by blast
    with x y show "es_state_value a = es_state_value b" by simp
  qed
  moreover have "\<forall>s \<in> set (map ?st evs). es_state_value s \<in> lifecycle_values"
    using pr_lifecycle_values by auto
  moreover have "mset (map ?st evs) = mset (map ?st evs')" using assms(1) by simp
  ultimately show ?thesis
    using lifecycle_converges [OF _ _ _ assms(4)] st [OF refl] st [of evs'] assms(1) by simp
qed

definition sample_event :: "string \<Rightarrow> string \<Rightarrow> instant \<Rightarrow> bool \<Rightarrow> v1_event" where
  "sample_event i ty ts private =
     \<lparr>ev_event_id = i, ev_tenant_id = ''ten'', ev_provider = ''github'', ev_category = ''code'', ev_event_type = ty,
      ev_event_timestamp = ts, ev_ingested_at = ts,
      ev_actor = \<lparr>va_global_user_id = ''gu_alice'', va_provider_user_id = ''42'', va_email = ''a'', va_display_name = ''Alice''\<rparr>,
      ev_acl = \<lparr>vl_tenant_id = ''ten'', vl_allowed_group_ids = [''grp_eng''], vl_is_private = private, vl_acl_version = 1\<rparr>,
      ev_resource_id = ''acme/app/pr/7'', ev_parent_resource_id = ''acme/app'',
      ev_attributes = JObj [(''title'', JStr ''Feat: x'')], ev_raw_payload_s3_uri = [], ev_event_sequence_number = 1\<rparr>"

definition sample_env :: project_env where
  "sample_env = \<lparr>env_sha = (\<lambda>s. s), env_alnum = (\<lambda>_. True)\<rparr>"

definition empty_world :: project_world where
  "empty_world = \<lparr>pw_store = new_graph_store, pw_members = new_membership\<rparr>"

theorem lifecycle_ignores_delivery_order_witness:
  "map_option (\<lambda>st. (es_as_of st, es_state_value st)) (dm_get (gs_states (pw_store (project_all sample_env
      [sample_event ''e1'' ''pull_request.opened'' 1 False, sample_event ''e2'' ''pull_request.merged'' 5 False] empty_world)))
        (''ten'', ''pr:acme/app/pr/7'', ''lifecycle''))
   = map_option (\<lambda>st. (es_as_of st, es_state_value st)) (dm_get (gs_states (pw_store (project_all sample_env
      [sample_event ''e2'' ''pull_request.merged'' 5 False, sample_event ''e1'' ''pull_request.opened'' 1 False] empty_world)))
        (''ten'', ''pr:acme/app/pr/7'', ''lifecycle''))"
  by (rule lifecycle_ignores_delivery_order)
    (auto simp: sample_event_def empty_world_def new_graph_store_def is_pr_event_def starts_with_def)

theorem private_event_reveals_nothing_witness:
  "get_node (apply_mutation (map_event sample_env (sample_event ''e'' ''pull_request.opened'' 1 True)) new_graph_store)
     \<lparr>qc_tenant_id = ''ten'', qc_global_user_id = ''gu_bob'', qc_group_ids = [''grp_ops'']\<rparr> ''pr:acme/app/pr/7'' = None"
proof (rule ccontr)
  let ?ctx = "\<lparr>qc_tenant_id = ''ten'', qc_global_user_id = ''gu_bob'', qc_group_ids = [''grp_ops'']\<rparr>"
  let ?ev = "sample_event ''e'' ''pull_request.opened'' 1 True"
  let ?s = "apply_mutation (map_event sample_env ?ev) new_graph_store"
  assume "get_node ?s ?ctx ''pr:acme/app/pr/7'' \<noteq> None"
  then obtain n where n: "get_node ?s ?ctx ''pr:acme/app/pr/7'' = Some n" by auto
  moreover have "vl_is_private (ev_acl ?ev)"
    "set (vl_allowed_group_ids (ev_acl ?ev)) \<inter> set (qc_group_ids ?ctx) = {}"
    by (simp_all add: sample_event_def)
  ultimately have "get_node new_graph_store ?ctx ''pr:acme/app/pr/7'' = Some n \<or> gn_node_type n \<in> {''Person'', ''Team''}"
    using private_event_reveals_nothing [where ev = ?ev and ctx = ?ctx and env = sample_env and s = new_graph_store] by blast
  moreover have "get_node new_graph_store ?ctx ''pr:acme/app/pr/7'' = None"
    by (simp add: get_node_def new_graph_store_def)
  moreover have "map_option gn_node_type (dm_get (gs_nodes ?s) (''ten'', ''pr:acme/app/pr/7'')) = Some ''PullRequest''"
    by code_simp
  ultimately show False using n by (auto simp: get_node_def dest!: filter_opt_SomeD)
qed

section \<open>Revocations\<close>

text \<open>
  C12. A revocation takes effect at once: after a first-time removal for a known user, the user's
  groups no longer contain the group, so a read with those groups finds no private node, edge or
  state that only this group may see, in any graph.
\<close>

theorem revocation_takes_effect:
  assumes "dm_get (gs_applied (pw_store w)) (rv_tenant_id rv, rv_event_id rv) = None"
    and "rv_change_type rv = ''removed_from_group''" "rv_global_user_id rv \<noteq> []" "rv_group_id rv \<noteq> []"
    and "project_acl_revocation rv w = (w', r)"
    and "qc_group_ids ctx = get_groups (pw_members w') (rv_tenant_id rv) (rv_global_user_id rv)"
  shows "r = Inr (outcome (rv_event_id rv) (rv_tenant_id rv) Applied 0 0)
    \<and> rv_group_id rv \<notin> set (qc_group_ids ctx)
    \<and> (get_node s ctx i = Some n \<longrightarrow> gn_is_private n \<longrightarrow> set (gn_allowed_group_ids n) \<noteq> {rv_group_id rv})
    \<and> (get_state s ctx i k = Some st \<longrightarrow> es_is_private st \<longrightarrow> set (es_allowed_group_ids st) \<noteq> {rv_group_id rv})
    \<and> (e \<in> set (blockers s ctx now i) \<longrightarrow> ge_is_private e \<longrightarrow> set (ge_allowed_group_ids e) \<noteq> {rv_group_id rv})"
proof -
  have w': "pw_members w' = remove_group (rv_tenant_id rv) (rv_global_user_id rv) (rv_group_id rv) (pw_members w)"
    and r: "r = Inr (outcome (rv_event_id rv) (rv_tenant_id rv) Applied 0 0)"
    using assms(1-5)
    by (auto simp: project_acl_revocation_def mark_event_applied_def apply_membership_change_def Let_def)
  have g: "rv_group_id rv \<notin> set (qc_group_ids ctx)"
    using embedded.remove_revokes [of "rv_group_id rv" "(rv_tenant_id rv, rv_global_user_id rv)" "pw_members w"]
    by (simp add: assms(6) w')
  then have "\<not> acl_allows ctx True gs" if "set gs = {rv_group_id rv}" for gs
    using that by (intro acl_denies) auto
  then show ?thesis
    using r g
    by (auto simp: get_node_def get_state_eq blockers_def visible_node_def visible_edge_def state_allowed_def
        dest!: filter_opt_SomeD)
qed

definition sample_revocation :: "string \<Rightarrow> v1_acl_revocation" where
  "sample_revocation user =
     \<lparr>rv_event_id = ''r1'', rv_tenant_id = ''ten'', rv_global_user_id = user, rv_provider_user_id = ''42'',
      rv_provider = ''github'', rv_group_id = ''grp_eng'', rv_change_type = ''removed_from_group'',
      rv_acl_version = 2, rv_timestamp = 7\<rparr>"

theorem revocation_takes_effect_witness:
  "''grp_eng'' \<notin> set (get_groups (pw_members (fst (project_acl_revocation (sample_revocation ''gu_alice'')
      \<lparr>pw_store = new_graph_store, pw_members = set_groups ''ten'' ''gu_alice'' [''grp_eng'', ''grp_ops''] new_membership\<rparr>)))
      ''ten'' ''gu_alice'')"
proof -
  let ?w = "\<lparr>pw_store = new_graph_store, pw_members = set_groups ''ten'' ''gu_alice'' [''grp_eng'', ''grp_ops''] new_membership\<rparr>"
  let ?p = "project_acl_revocation (sample_revocation ''gu_alice'') ?w"
  let ?ctx = "\<lparr>qc_tenant_id = ''ten'', qc_global_user_id = ''gu_alice'',
    qc_group_ids = get_groups (pw_members (fst ?p)) ''ten'' ''gu_alice''\<rparr>"
  have "rv_group_id (sample_revocation ''gu_alice'') \<notin> set (qc_group_ids ?ctx)"
    using revocation_takes_effect [where rv = "sample_revocation ''gu_alice''" and w = ?w and w' = "fst ?p"
        and r = "snd ?p" and ctx = ?ctx]
    by (simp add: sample_revocation_def new_graph_store_def)
  then show ?thesis by (simp add: sample_revocation_def)
qed

text \<open>
  A revocation that cannot be applied is lost for good. When the message names the user only
  by provider id (or no group), projecting it fails, but its event is already marked: every retry
  reports a duplicate, and the memberships never change.
\<close>

lemma failed_revocation_is_lost:
  assumes "rv_global_user_id rv = [] \<or> rv_group_id rv = []"
    and "dm_get (gs_applied (pw_store w)) (rv_tenant_id rv, rv_event_id rv) = None"
    and "project_acl_revocation rv w = (w', r)"
  shows "r = Inl (GValidation ''membership change requires user and group'')
    \<and> pw_members w' = pw_members w
    \<and> project_acl_revocation rv w' = (w', Inr (outcome (rv_event_id rv) (rv_tenant_id rv) Duplicate 0 0))"
  using assms
  by (auto simp: project_acl_revocation_def mark_event_applied_def apply_membership_change_def Let_def)

lemma failed_revocation_is_lost_witness:
  "snd (project_acl_revocation (sample_revocation []) (fst (project_acl_revocation (sample_revocation []) empty_world)))
     = Inr (outcome ''r1'' ''ten'' Duplicate 0 0)"
proof -
  have "dm_get (gs_applied (pw_store empty_world)) (rv_tenant_id (sample_revocation []), rv_event_id (sample_revocation [])) = None"
    by (simp add: empty_world_def new_graph_store_def)
  from failed_revocation_is_lost [OF _ this surjective_pairing] show ?thesis
    by (simp add: sample_revocation_def)
qed

section \<open>Access versions\<close>

text \<open>The access version of a node is stored and never compared: the last writer wins.\<close>

lemma insert_node_ignores_acl_version:
  "get_node (insert_node n s) \<lparr>qc_tenant_id = gn_tenant_id n, qc_global_user_id = u, qc_group_ids = gs\<rparr> (gn_node_id n)
     = filter_opt (visible_node \<lparr>qc_tenant_id = gn_tenant_id n, qc_global_user_id = u, qc_group_ids = gs\<rparr>) (Some n)"
  by (simp add: get_node_def insert_node_def)

end
