(* ===== verification/Graph_Conflicts.thy ===== *)
theory Graph_Conflicts
  imports Graph_Intent Graph_Store
begin

text \<open>
  Conflict cards over the intents of a graph (\<open>graph-core/src/intent.rs\<close>, from
  \<open>work_labels\<close> to the end): the indices built from the ABOUT edges and the
  \<open>about_node_id\<close> properties, the cards of each kind, and the deduplication and order of the
  result. The parsers of dates are parameters. A hash map or hash set is a list without repeated
  keys, in insertion order. The lemmas determine the cards exactly: which pairs of intents give a
  SHIP-against-FREEZE card, that identifiers are not repeated, and the order of the list.
\<close>

datatype conflict_kind =
  DualBlocks | ShipVsFreeze | DualOwners | OpenBlocker | MergeFriction | StaleReview | CiBlocked

datatype conflict_severity = SevHigh | SevMedium | SevLow

fun severity_rank :: "conflict_severity \<Rightarrow> nat" where
  "severity_rank SevHigh = 3"
| "severity_rank SevMedium = 2"
| "severity_rank SevLow = 1"

record conflict_card =
  cc_conflict_id :: string
  cc_kind :: conflict_kind
  cc_summary :: string
  cc_severity :: conflict_severity
  cc_node_ids :: "string list"
  cc_owner_node_ids :: "string list"
  cc_intent_types :: "string list"
  cc_evidence :: "string list"
  cc_is_demo :: bool

text \<open>The date parsers of \<open>chrono\<close>; a date without time gives its day number.\<close>

record date_parsers =
  dt_rfc3339 :: "string \<Rightarrow> instant option"
  dt_naive :: "string \<Rightarrow> string \<Rightarrow> instant option"
  dt_date :: "string \<Rightarrow> string \<Rightarrow> int option"

section \<open>Seed data\<close>

definition node_is_demo :: "graph_node \<Rightarrow> bool" where
  "node_is_demo n =
     (let props = gn_properties n; i = to_ascii_lowercase (gn_node_id n);
          resource = to_ascii_lowercase (gn_resource_id n)
      in if unwrap_or (Option.bind (json_get props ''is_demo'') as_bool) False then True
         else if unwrap_or (map_option (\<lambda>s. s \<noteq> []) (opt_str (json_get props ''seed''))) False then True
         else contains i ''gu_demo_'' \<or> contains i ''demo-repo'' \<or> contains resource ''demo-repo'')"

definition intents_all_demo :: "graph_node list \<Rightarrow> bool" where
  "intents_all_demo ns \<longleftrightarrow> ns \<noteq> [] \<and> list_all node_is_demo ns"

definition note_mixed_seed :: "string list \<Rightarrow> graph_node list \<Rightarrow> string list" where
  "note_mixed_seed evidence ns =
     (if list_ex node_is_demo ns \<and> \<not> intents_all_demo ns then evidence @ [''includes_seed_intent'']
      else evidence)"

section \<open>Signals on a work item\<close>

definition work_label :: "json \<Rightarrow> string option" where
  "work_label l = map_option to_ascii_lowercase (label_text l)"

definition work_labels :: "graph_node \<Rightarrow> string list" where
  "work_labels work =
     (let props = gn_properties work in
      List.map_filter work_label (json_array (json_get props ''labels''))
      @ (case opt_str (json_get props ''label'') of Some s \<Rightarrow> [to_ascii_lowercase s] | None \<Rightarrow> []))"

definition work_text_hay :: "graph_node \<Rightarrow> string" where
  "work_text_hay work =
     (let props = gn_properties work;
          title = unwrap_or (opt_str (or_else (json_get props ''title'') (json_get props ''summary'')))
                    (gn_display_name work);
          body = unwrap_or (opt_str (or_else (json_get props ''body'') (json_get props ''description''))) []
      in to_ascii_lowercase (title @ '' '' @ body))"

definition parse_prop_datetime :: "date_parsers \<Rightarrow> string \<Rightarrow> instant option" where
  "parse_prop_datetime dp s =
     or_else (dt_rfc3339 dp s)
       (or_else (dt_naive dp ''%Y-%m-%dT%H:%M:%SZ'' s)
          (or_else (dt_naive dp ''%Y-%m-%dT%H:%M:%S'' s)
             (map_option (\<lambda>d. seconds (86400 * d)) (dt_date dp ''%Y-%m-%d'' s))))"

text \<open>Whole days of a duration, truncated toward zero.\<close>

definition num_days :: "int \<Rightarrow> int" where
  "num_days d = (if 0 \<le> d then d div seconds 86400 else - ((- d) div seconds 86400))"

definition conflict_phrases :: "string list" where
  "conflict_phrases =
     [''merge conflict'', ''has conflicts'', ''conflicting files'', ''resolve conflicts'',
      ''fix merge conflicts'', ''conflicts with'']"

definition detect_merge_friction :: "graph_node \<Rightarrow> string list option" where
  "detect_merge_friction work =
     (let props = gn_properties work;
          e1 = (if Option.bind (json_get props ''mergeable'') as_bool = Some False
                then [''mergeable:false''] else []);
          e2 = (case opt_str (or_else (json_get props ''mergeable_state'') (json_get props ''mergeableState'')) of
                  Some ms \<Rightarrow>
                    (let l = to_ascii_lowercase ms in
                     if l \<in> {''dirty'', ''conflicted'', ''unstable'', ''blocked''}
                     then [''mergeable_state:'' @ l] else [])
                | None \<Rightarrow> []);
          hay = work_text_hay work;
          e3 = (case find (\<lambda>p. contains hay p) conflict_phrases of
                  Some p \<Rightarrow> [''text:'' @ p] | None \<Rightarrow> []);
          evidence = e1 @ e2 @ e3
      in if evidence = [] then None else Some evidence)"

definition closed_states :: "string list" where
  "closed_states = [''closed'', ''merged'', ''done'', ''resolved'', ''declined'']"

definition activity_keys :: "string list" where
  "activity_keys = [''updated_at'', ''updatedAt'', ''last_activity_at'', ''pushed_at'', ''review_requested_at'']"

text \<open>The first activity field that is seven days old or more.\<close>

fun age_signal :: "date_parsers \<Rightarrow> json \<Rightarrow> instant \<Rightarrow> string list \<Rightarrow> string list" where
  "age_signal dp props as_of [] = []"
| "age_signal dp props as_of (key # keys) =
     (case Option.bind (opt_str (json_get props key)) (parse_prop_datetime dp) of
        Some dt \<Rightarrow>
          if 7 \<le> num_days (as_of - dt) then [key @ ''_age_days:'' @ show_int (num_days (as_of - dt))]
          else age_signal dp props as_of keys
      | None \<Rightarrow> age_signal dp props as_of keys)"

definition has_reviewers :: "json \<Rightarrow> bool" where
  "has_reviewers props =
     (case or_else (json_get props ''requested_reviewers'') (json_get props ''requestedReviewers'') of
        Some v \<Rightarrow> unwrap_or (or_else (map_option (\<lambda>a. a \<noteq> []) (as_array v))
                              (map_option (\<lambda>s. s \<noteq> []) (as_str v))) False
      | None \<Rightarrow> False)"

definition detect_stale_review :: "date_parsers \<Rightarrow> graph_node \<Rightarrow> instant \<Rightarrow> string list option" where
  "detect_stale_review dp work as_of =
     (let nt = to_ascii_lowercase (gn_node_type work);
          is_pr = contains nt ''pull'' \<or> contains nt ''merge_request'' \<or> starts_with (gn_node_id work) ''pr:'';
          props = gn_properties work;
          state = to_ascii_lowercase (unwrap_or
            (opt_str (or_else (or_else (json_get props ''state'') (json_get props ''status''))
               (json_get props ''lifecycle''))) ''open'')
      in if state \<in> set closed_states then None
         else
           (let e1 = (if list_ex (\<lambda>l. l = ''stale'' \<or> contains l ''stale'') (work_labels work)
                      then [''label:stale''] else []);
                e2 = e1 @ age_signal dp props as_of activity_keys;
                e3 = (if has_reviewers props \<and> list_ex (\<lambda>e. contains e ''_age_days:'') e2
                      then e2 @ [''review_requested_stall''] else e2)
            in if e3 = [] then None
               else if \<not> is_pr \<and> \<not> list_ex (\<lambda>e. starts_with e ''label:stale'') e3 then None
               else Some e3))"

definition ci_bad_values :: "(string \<times> string) list" where
  "ci_bad_values =
     [(''check_conclusion'', ''failure''), (''check_conclusion'', ''cancelled''), (''ci_status'', ''failure''),
      (''ci_status'', ''failed''), (''ci_status'', ''error''), (''status'', ''failure''),
      (''conclusion'', ''failure''), (''checks_state'', ''failure''), (''checks_state'', ''failing'')]"

definition ci_value :: "json \<Rightarrow> string \<times> string \<Rightarrow> string option" where
  "ci_value props kb =
     (case opt_str (json_get props (fst kb)) of
        Some s \<Rightarrow> if eq_ignore_ascii_case s (snd kb) then Some (fst kb @ '':'' @ s) else None
      | None \<Rightarrow> None)"

definition ci_label :: "string \<Rightarrow> bool" where
  "ci_label l \<longleftrightarrow> l = ''ci-fail'' \<or> l = ''ci-failure'' \<or> l = ''checks-fail'' \<or> l = ''ci-failed''
     \<or> contains l ''ci-fail''"

definition detect_ci_failure :: "graph_node \<Rightarrow> string list option" where
  "detect_ci_failure work =
     (let props = gn_properties work;
          evidence = List.map_filter (ci_value props) ci_bad_values
            @ (if Option.bind (json_get props ''ci_failed'') as_bool = Some True then [''ci_failed:true''] else [])
            @ (if Option.bind (json_get props ''checks_passing'') as_bool = Some False
               then [''checks_passing:false''] else [])
            @ map (\<lambda>l. ''label:'' @ l) (filter ci_label (work_labels work))
      in if evidence = [] then None else Some evidence)"

section \<open>Intents and the work they are about\<close>

definition is_intent :: "graph_node \<Rightarrow> bool" where
  "is_intent n = eq_ignore_ascii_case (gn_node_type n) ''Intent''"

definition intent_type_of :: "graph_node \<Rightarrow> string" where
  "intent_type_of n = unwrap_or (opt_str (json_get (gn_properties n) ''intent_type'')) []"

definition owner_of :: "graph_node \<Rightarrow> string option" where
  "owner_of n = opt_str (json_get (gn_properties n) ''owner_node_id'')"

definition about_of :: "graph_node \<Rightarrow> string option" where
  "about_of n = opt_str (json_get (gn_properties n) ''about_node_id'')"

definition edge_active :: "instant \<Rightarrow> graph_edge \<Rightarrow> bool" where
  "edge_active as_of e \<longleftrightarrow>
     ge_valid_from e \<le> as_of \<and> unwrap_or (map_option (\<lambda>t. as_of < t) (ge_valid_to e)) True"

definition is_about_edge :: "graph_edge \<Rightarrow> bool" where
  "is_about_edge e = eq_ignore_ascii_case (ge_edge_type e) ''ABOUT''"

definition is_blocks_edge :: "graph_edge \<Rightarrow> bool" where
  "is_blocks_edge e = eq_ignore_ascii_case (ge_edge_type e) ''BLOCKS''"

type_synonym about_index = "(string, graph_node list) dashmap"

definition about_push :: "string \<Rightarrow> graph_node \<Rightarrow> about_index \<Rightarrow> about_index" where
  "about_push w n m = dm_put w (unwrap_or (dm_get m w) [] @ [n]) m"

definition about_edge_step :: "graph_node list \<Rightarrow> graph_edge \<Rightarrow> about_index \<Rightarrow> about_index" where
  "about_edge_step intents e m =
     (if is_about_edge e
      then (case find (\<lambda>i. gn_node_id i = ge_from_node_id e) intents of
              Some i \<Rightarrow> about_push (ge_to_node_id e) i m
            | None \<Rightarrow> m)
      else m)"

definition about_prop_step :: "graph_node \<Rightarrow> about_index \<Rightarrow> about_index" where
  "about_prop_step i m =
     (case about_of i of
        Some w \<Rightarrow>
          if list_ex (\<lambda>j. gn_node_id j = gn_node_id i) (unwrap_or (dm_get m w) []) then m
          else about_push w i m
      | None \<Rightarrow> m)"

definition about_work :: "graph_node list \<Rightarrow> graph_edge list \<Rightarrow> about_index" where
  "about_work intents active =
     fold about_prop_step intents (fold (about_edge_step intents) active [])"

text \<open>The sorted intent types of a list of intents, without repetition.\<close>

definition sorted_types :: "graph_node list \<Rightarrow> string list" where
  "sorted_types ns = remdups_adj (sort (filter (\<lambda>s. s \<noteq> []) (map intent_type_of ns)))"

section \<open>Cards\<close>

definition owner_cards :: "string \<Rightarrow> string \<Rightarrow> graph_node list \<Rightarrow> conflict_card list" where
  "owner_cards tenant w ns =
     (if length ns < 2 then []
      else
        (let types = sorted_types ns;
             owners = List.map_filter owner_of ns;
             unique = remdups owners;
             evidence = note_mixed_seed (map gn_display_name ns) ns;
             node_ids = w # map gn_node_id ns
         in if 1 < length unique
            then
              (let clash = ''SHIP'' \<in> set types \<and> ''FREEZE'' \<in> set types in
               [\<lparr>cc_conflict_id = ''cfl_'' @ tenant @ ''_'' @ w @ ''_owners'',
                 cc_kind = (if clash then ShipVsFreeze else DualOwners),
                 cc_summary = (if clash then ''SHIP vs FREEZE on '' @ w
                   else ''Multiple owners claim intents on '' @ w @ '': '' @ join_with '', '' types),
                 cc_severity = (if clash then SevHigh else SevMedium),
                 cc_node_ids = node_ids, cc_owner_node_ids = unique, cc_intent_types = types,
                 cc_evidence = evidence, cc_is_demo = intents_all_demo ns\<rparr>])
            else if ''SHIP'' \<in> set types \<and> ''FREEZE'' \<in> set types
            then [\<lparr>cc_conflict_id = ''cfl_'' @ tenant @ ''_'' @ w @ ''_ship_freeze'',
                   cc_kind = ShipVsFreeze, cc_summary = ''SHIP vs FREEZE on '' @ w,
                   cc_severity = SevHigh, cc_node_ids = node_ids, cc_owner_node_ids = owners,
                   cc_intent_types = types, cc_evidence = evidence,
                   cc_is_demo = intents_all_demo ns\<rparr>]
            else []))"

definition mutual_card :: "string \<Rightarrow> about_index \<Rightarrow> graph_edge \<Rightarrow> graph_edge \<Rightarrow> conflict_card list" where
  "mutual_card tenant idx a b =
     (if ge_from_node_id a = ge_to_node_id b \<and> ge_to_node_id a = ge_from_node_id b
      then [\<lparr>cc_conflict_id = ''cfl_'' @ tenant @ ''_mutual_'' @ ge_from_node_id a @ ''_'' @ ge_to_node_id a,
             cc_kind = DualBlocks,
             cc_summary = ''Mutual BLOCKS between '' @ ge_from_node_id a @ '' and '' @ ge_to_node_id a,
             cc_severity = SevHigh, cc_node_ids = [ge_from_node_id a, ge_to_node_id a],
             cc_owner_node_ids = [], cc_intent_types = [''BLOCKED''],
             cc_evidence = [ge_edge_id a, ge_edge_id b],
             cc_is_demo = intents_all_demo
               (concat (map (\<lambda>w. unwrap_or (dm_get idx w) []) [ge_from_node_id a, ge_to_node_id a]))\<rparr>]
      else [])"

fun mutual_cards :: "string \<Rightarrow> about_index \<Rightarrow> graph_edge list \<Rightarrow> conflict_card list" where
  "mutual_cards tenant idx [] = []"
| "mutual_cards tenant idx (a # bs) =
     concat (map (mutual_card tenant idx a) bs) @ mutual_cards tenant idx bs"

definition blocked_card :: "string \<Rightarrow> graph_node \<Rightarrow> conflict_card list" where
  "blocked_card tenant i =
     (if intent_type_of i = ''BLOCKED''
      then [\<lparr>cc_conflict_id = ''cfl_'' @ tenant @ ''_blocked_'' @ gn_node_id i,
             cc_kind = OpenBlocker, cc_summary = gn_display_name i, cc_severity = SevMedium,
             cc_node_ids = filter (\<lambda>s. s \<noteq> []) [gn_node_id i, unwrap_or (about_of i) []],
             cc_owner_node_ids = (case owner_of i of Some o' \<Rightarrow> [o'] | None \<Rightarrow> []),
             cc_intent_types = [''BLOCKED''],
             cc_evidence = note_mixed_seed
               (List.map_filter as_str (json_array (json_get (gn_properties i) ''evidence''))) [i],
             cc_is_demo = intents_all_demo [i]\<rparr>]
      else [])"

definition blocks_ship_card :: "string \<Rightarrow> about_index \<Rightarrow> graph_edge \<Rightarrow> conflict_card list" where
  "blocks_ship_card tenant idx e =
     (case dm_get idx (ge_to_node_id e) of
        Some ns \<Rightarrow>
          if list_ex (\<lambda>i. intent_type_of i = ''SHIP'') ns
          then [\<lparr>cc_conflict_id = ''cfl_'' @ tenant @ ''_blocks_ship_'' @ ge_from_node_id e @ ''_'' @ ge_to_node_id e,
                 cc_kind = DualBlocks,
                 cc_summary = ge_from_node_id e @ '' blocks SHIP target '' @ ge_to_node_id e,
                 cc_severity = SevHigh, cc_node_ids = [ge_from_node_id e, ge_to_node_id e],
                 cc_owner_node_ids = [], cc_intent_types = [''SHIP'', ''BLOCKED''],
                 cc_evidence = note_mixed_seed [ge_edge_id e] ns,
                 cc_is_demo = intents_all_demo ns\<rparr>]
          else []
      | None \<Rightarrow> [])"

definition is_work_item :: "graph_node \<Rightarrow> bool" where
  "is_work_item n =
     (let t = to_ascii_lowercase (gn_node_type n) in
      contains t ''pull'' \<or> t = ''issue'' \<or> contains t ''merge_request''
      \<or> starts_with (gn_node_id n) ''pr:'' \<or> starts_with (gn_node_id n) ''issue:'')"

definition work_ids :: "about_index \<Rightarrow> graph_node list \<Rightarrow> string list" where
  "work_ids idx nodes = fold (\<lambda>i js. if i \<in> set js then js else js @ [i])
       (map gn_node_id (filter is_work_item nodes)) (map fst idx)"

definition node_by_id :: "graph_node list \<Rightarrow> string \<Rightarrow> graph_node option" where
  "node_by_id nodes i = map_of (rev (map (\<lambda>n. (gn_node_id n, n)) nodes)) i"

text \<open>The card about a signal found on a work item.\<close>

definition friction_card ::
  "string \<Rightarrow> string \<Rightarrow> conflict_kind \<Rightarrow> string \<Rightarrow> conflict_severity \<Rightarrow> string list \<Rightarrow> bool
   \<Rightarrow> graph_node list \<Rightarrow> string list option \<Rightarrow> string \<Rightarrow> conflict_card list" where
  "friction_card tenant tag kind label sev types demo about found w =
     (case found of
        Some ev \<Rightarrow>
          [\<lparr>cc_conflict_id = ''cfl_'' @ tenant @ tag @ w, cc_kind = kind, cc_summary = label @ w,
            cc_severity = sev, cc_node_ids = w # map gn_node_id about,
            cc_owner_node_ids = List.map_filter owner_of about, cc_intent_types = types,
            cc_evidence = note_mixed_seed ev about, cc_is_demo = demo\<rparr>]
      | None \<Rightarrow> [])"

definition work_cards ::
  "date_parsers \<Rightarrow> string \<Rightarrow> graph_node list \<Rightarrow> about_index \<Rightarrow> instant \<Rightarrow> string \<Rightarrow> conflict_card list" where
  "work_cards dp tenant nodes idx as_of w =
     (case node_by_id nodes w of
        None \<Rightarrow> []
      | Some work \<Rightarrow>
          (let about = unwrap_or (dm_get idx w) []; types = sorted_types about;
               demo = intents_all_demo about \<or> about = [] \<and> node_is_demo work
           in friction_card tenant ''_merge_friction_'' MergeFriction ''Merge friction on '' SevHigh types demo
                about (detect_merge_friction work) w
              @ friction_card tenant ''_stale_review_'' StaleReview ''Stale / stalled review on '' SevMedium
                  types demo about (detect_stale_review dp work as_of) w
              @ (if list_ex (\<lambda>i. intent_type_of i = ''SHIP'') about
                 then friction_card tenant ''_ci_blocked_'' CiBlocked ''CI blocked SHIP on '' SevHigh [''SHIP'']
                        (intents_all_demo about) about (detect_ci_failure work) w
                 else [])))"

section \<open>The list of conflicts\<close>

text \<open>\<open>retain\<close> with a set of the identifiers seen so far.\<close>

fun retain_new :: "('a \<Rightarrow> 'b) \<Rightarrow> 'b list \<Rightarrow> 'a list \<Rightarrow> 'a list" where
  "retain_new key seen [] = []"
| "retain_new key seen (x # xs) =
     (if key x \<in> set seen then retain_new key seen xs else x # retain_new key (key x # seen) xs)"

definition all_cards ::
  "date_parsers \<Rightarrow> string \<Rightarrow> graph_node list \<Rightarrow> graph_edge list \<Rightarrow> instant \<Rightarrow> conflict_card list" where
  "all_cards dp tenant nodes edges as_of =
     (let active = filter (edge_active as_of) edges;
          intents = filter is_intent nodes;
          idx = about_work intents active;
          blocks = filter (\<lambda>e. is_blocks_edge e) active
      in concat (map (\<lambda>(w, ns). owner_cards tenant w ns) idx)
         @ mutual_cards tenant idx blocks
         @ concat (map (blocked_card tenant) intents)
         @ concat (map (blocks_ship_card tenant idx) blocks)
         @ concat (map (work_cards dp tenant nodes idx as_of) (work_ids idx nodes)))"

definition card_order :: "conflict_card \<Rightarrow> nat \<times> string" where
  "card_order c = (3 - severity_rank (cc_severity c), cc_conflict_id c)"

definition detect_conflicts ::
  "date_parsers \<Rightarrow> string \<Rightarrow> graph_node list \<Rightarrow> graph_edge list \<Rightarrow> instant \<Rightarrow> conflict_card list" where
  "detect_conflicts dp tenant nodes edges as_of =
     sort_key card_order (retain_new cc_conflict_id [] (all_cards dp tenant nodes edges as_of))"

section \<open>Deduplication and order\<close>

lemma retain_new_keys: "key ` set (retain_new key seen xs) = key ` set xs - set seen"
  by (induction key seen xs rule: retain_new.induct) auto

lemma retain_new_subset: "set (retain_new key seen xs) \<subseteq> set xs"
  by (induction key seen xs rule: retain_new.induct) auto

lemma distinct_retain_new: "distinct (map key (retain_new key seen xs))"
proof (induction key seen xs rule: retain_new.induct)
  case (2 key seen x xs)
  have "key x \<notin> key ` set (retain_new key (key x # seen) xs)"
    unfolding retain_new_keys by simp
  then show ?case using 2 by auto
qed simp

text \<open>What comes first with a new identifier is kept.\<close>

lemma retain_new_prefix:
  "distinct (map key xs) \<Longrightarrow> key ` set xs \<inter> set seen = {} \<Longrightarrow> set xs \<subseteq> set (retain_new key seen (xs @ ys))"
proof (induction xs arbitrary: seen)
  case (Cons x xs)
  then have "set xs \<subseteq> set (retain_new key (key x # seen) (xs @ ys))" by (intro Cons.IH) auto
  then show ?case using Cons.prems by auto
qed simp

lemma detect_conflicts_set:
  "set (detect_conflicts dp tenant nodes edges as_of)
     = set (retain_new cc_conflict_id [] (all_cards dp tenant nodes edges as_of))"
  by (simp add: detect_conflicts_def)

lemma detect_conflicts_distinct: "distinct (map cc_conflict_id (detect_conflicts dp tenant nodes edges as_of))"
proof -
  let ?xs = "retain_new cc_conflict_id [] (all_cards dp tenant nodes edges as_of)"
  have "mset (map cc_conflict_id (detect_conflicts dp tenant nodes edges as_of)) = mset (map cc_conflict_id ?xs)"
    by (simp add: detect_conflicts_def)
  then show ?thesis using distinct_retain_new mset_eq_imp_distinct_iff by blast
qed

lemma detect_conflicts_order:
  "sorted_wrt (\<lambda>a b. severity_rank (cc_severity b) \<le> severity_rank (cc_severity a))
     (detect_conflicts dp tenant nodes edges as_of)"
proof -
  have "sorted_wrt (\<lambda>a b. card_order a \<le> card_order b) (detect_conflicts dp tenant nodes edges as_of)"
    using sorted_sort_key [of card_order] unfolding detect_conflicts_def sorted_wrt_map .
  moreover have "severity_rank (cc_severity b) \<le> severity_rank (cc_severity a)" if "card_order a \<le> card_order b" for a b
    using that by (cases "cc_severity a"; cases "cc_severity b") (simp_all add: card_order_def)
  ultimately show ?thesis by (rule sorted_wrt_mono_rel [rotated])
qed

section \<open>The index of intents\<close>

text \<open>The intents that are about a work item: by a live ABOUT edge, or by their own property.\<close>

definition intents_about :: "graph_node list \<Rightarrow> graph_edge list \<Rightarrow> instant \<Rightarrow> string \<Rightarrow> graph_node set" where
  "intents_about nodes edges as_of w =
     {i \<in> set nodes. is_intent i \<and>
        (about_of i = Some w
         \<or> (\<exists>e\<in>set edges. edge_active as_of e \<and> is_about_edge e
              \<and> ge_from_node_id e = gn_node_id i \<and> ge_to_node_id e = w))}"

definition index_inv :: "graph_node list \<Rightarrow> about_index \<Rightarrow> bool" where
  "index_inv intents m \<longleftrightarrow> dm_ok m \<and> (\<forall>(w, ns)\<in>set m. ns \<noteq> [] \<and> set ns \<subseteq> set intents)"

definition listed :: "about_index \<Rightarrow> string \<Rightarrow> graph_node set" where
  "listed m w = set (unwrap_or (dm_get m w) [])"

lemma index_inv_ok: "index_inv intents m \<Longrightarrow> dm_ok m"
  by (simp add: index_inv_def)

lemma index_inv_entry: "index_inv intents m \<Longrightarrow> (w, ns) \<in> set m \<Longrightarrow> ns \<noteq> [] \<and> set ns \<subseteq> set intents"
  unfolding index_inv_def by blast

lemma index_inv_listed: "index_inv intents m \<Longrightarrow> listed m w \<subseteq> set intents"
  using dm_get_mem [of m w] index_inv_entry [of intents m w] by (cases "dm_get m w") (auto simp: listed_def)

lemma index_inv_push:
  assumes "index_inv intents m" "i \<in> set intents"
  shows "index_inv intents (about_push w i m)"
    and "listed (about_push w i m) v = listed m v \<union> (if v = w then {i} else {})"
proof -
  let ?l = "unwrap_or (dm_get m w) [] @ [i]"
  have l: "set ?l \<subseteq> set intents" using index_inv_listed [OF assms(1), of w] assms(2) by (simp add: listed_def)
  have "vs \<noteq> [] \<and> set vs \<subseteq> set intents" if "(v, vs) \<in> set (dm_put w ?l m)" for v vs
  proof -
    have "vs = ?l \<or> (v, vs) \<in> set m" using that set_dm_put [of w ?l m] by blast
    then show ?thesis using l index_inv_entry [OF assms(1)] by blast
  qed
  then show "index_inv intents (about_push w i m)"
    using index_inv_ok [OF assms(1)] unfolding index_inv_def about_push_def by (simp only: dm_ok_put) blast
  show "listed (about_push w i m) v = listed m v \<union> (if v = w then {i} else {})"
    by (auto simp: listed_def about_push_def)
qed

lemma find_by_id:
  assumes "distinct (map gn_node_id intents)"
  shows "find (\<lambda>i. gn_node_id i = k) intents = Some i \<longleftrightarrow> i \<in> set intents \<and> gn_node_id i = k"
  using assms by (induction intents) auto

lemma index_inv_edge:
  assumes "index_inv intents m" "distinct (map gn_node_id intents)"
  shows "index_inv intents (about_edge_step intents e m)
    \<and> listed (about_edge_step intents e m) w = listed m w \<union>
        {i \<in> set intents. is_about_edge e \<and> ge_from_node_id e = gn_node_id i
           \<and> ge_to_node_id e = w}"
proof (cases "is_about_edge e")
  case about: True
  show ?thesis
  proof (cases "find (\<lambda>i. gn_node_id i = ge_from_node_id e) intents")
    case None
    then have "about_edge_step intents e m = m" using about by (simp add: about_edge_step_def)
    moreover have "gn_node_id i \<noteq> ge_from_node_id e" if "i \<in> set intents" for i
      using None that by (simp add: find_None_iff)
    ultimately show ?thesis using assms(1) by force
  next
    case (Some i)
    then have i: "i \<in> set intents" "gn_node_id i = ge_from_node_id e" using find_by_id [OF assms(2)] by auto
    have "j = i" if "j \<in> set intents" "gn_node_id j = gn_node_id i" for j
      using that assms(2) i(1) by (simp add: distinct_map inj_on_def)
    then have "j \<in> set intents \<and> ge_from_node_id e = gn_node_id j \<longleftrightarrow> j = i" for j
      using i(1) unfolding i(2) [symmetric] by metis
    then have "{j \<in> set intents. is_about_edge e \<and> ge_from_node_id e = gn_node_id j \<and> ge_to_node_id e = w}
        = (if w = ge_to_node_id e then {i} else {})"
      using about by (simp only: simp_thms if_cancel) (cases "w = ge_to_node_id e"; simp; blast)
    then show ?thesis
      using index_inv_push [OF assms(1) i(1)] Some about by (simp add: about_edge_step_def)
  qed
qed (use assms(1) in \<open>simp add: about_edge_step_def\<close>)

lemma index_inv_prop:
  assumes "index_inv intents m" "distinct (map gn_node_id intents)" "i \<in> set intents"
  shows "index_inv intents (about_prop_step i m)
    \<and> listed (about_prop_step i m) w = listed m w \<union> (if about_of i = Some w then {i} else {})"
proof (cases "about_of i")
  case (Some v)
  have "i \<in> listed m v" if "j \<in> listed m v" "gn_node_id j = gn_node_id i" for j
  proof -
    have "j \<in> set intents" using that(1) index_inv_listed [OF assms(1)] by blast
    then show ?thesis using that assms(2,3) by (metis distinct_map inj_on_def)
  qed
  then show ?thesis
    using Some index_inv_push [OF assms(1,3)] assms(1)
    by (auto simp: about_prop_step_def list_ex_iff listed_def)
qed (use assms(1) in \<open>simp add: about_prop_step_def\<close>)

lemma about_work_lists:
  assumes "distinct (map gn_node_id intents)"
  shows "index_inv intents (about_work intents active)
    \<and> listed (about_work intents active) w = {i \<in> set intents. about_of i = Some w
        \<or> (\<exists>e\<in>set active. is_about_edge e \<and> ge_from_node_id e = gn_node_id i
             \<and> ge_to_node_id e = w)}"
proof -
  let ?on = "\<lambda>i e. is_about_edge e \<and> ge_from_node_id e = gn_node_id i \<and> ge_to_node_id e = w"
  have e: "index_inv intents m \<Longrightarrow> index_inv intents (fold (about_edge_step intents) es m)
      \<and> listed (fold (about_edge_step intents) es m) w = listed m w \<union> {i \<in> set intents. \<exists>e\<in>set es. ?on i e}" for m es
  proof (induction es arbitrary: m)
    case (Cons e es)
    note s = index_inv_edge [OF Cons.prems assms, of e w]
    have "{i \<in> set intents. \<exists>e'\<in>set (e # es). ?on i e'}
        = {i \<in> set intents. ?on i e} \<union> {i \<in> set intents. \<exists>e'\<in>set es. ?on i e'}" by auto
    then show ?case using Cons.IH [OF conjunct1 [OF s]] conjunct2 [OF s] by (simp only: fold_simps) blast
  qed simp
  have p: "index_inv intents m \<Longrightarrow> set js \<subseteq> set intents \<Longrightarrow> index_inv intents (fold about_prop_step js m)
      \<and> listed (fold about_prop_step js m) w = listed m w \<union> {i \<in> set js. about_of i = Some w}" for m js
  proof (induction js arbitrary: m)
    case (Cons j js)
    have j: "j \<in> set intents" "set js \<subseteq> set intents" using Cons.prems(2) by auto
    note s = index_inv_prop [OF Cons.prems(1) assms j(1), of w]
    have "{i \<in> set (j # js). about_of i = Some w}
        = (if about_of j = Some w then {j} else {}) \<union> {i \<in> set js. about_of i = Some w}" by auto
    then show ?case using Cons.IH [OF conjunct1 [OF s] j(2)] conjunct2 [OF s] by (simp only: fold_simps) blast
  qed simp
  have i: "index_inv intents []" "listed [] w = {}" by (simp_all add: index_inv_def listed_def)
  note e' = e [OF i(1), of active]
  have "{i \<in> set intents. about_of i = Some w \<or> (\<exists>e\<in>set active. ?on i e)}
      = {i \<in> set intents. \<exists>e\<in>set active. ?on i e} \<union> {i \<in> set intents. about_of i = Some w}" by auto
  then show ?thesis
    using p [OF conjunct1 [OF e'] order_refl] conjunct2 [OF e'] i(2) by (simp add: about_work_def)
qed

section \<open>What the cards say\<close>

lemma types_mem: "t \<noteq> [] \<Longrightarrow> t \<in> set (sorted_types ns) \<longleftrightarrow> (\<exists>i\<in>set ns. intent_type_of i = t)"
  by (auto simp: sorted_types_def)

text \<open>A set of intents clashes when one of them wants to ship and another one to freeze.\<close>

definition clashing :: "graph_node set \<Rightarrow> bool" where
  "clashing is \<longleftrightarrow> (\<exists>i\<in>is. intent_type_of i = ''SHIP'') \<and> (\<exists>i\<in>is. intent_type_of i = ''FREEZE'')"

lemma clashing_iff_types:
  "clashing (set ns) \<longleftrightarrow> ''SHIP'' \<in> set (sorted_types ns) \<and> ''FREEZE'' \<in> set (sorted_types ns)"
  by (simp add: clashing_def types_mem)

lemma clashing_two: "clashing (set ns) \<Longrightarrow> \<not> length ns < 2"
  by (cases ns rule: remdups_adj.cases) (auto simp: clashing_def)

lemma owner_cards_simps:
  "clashing (set ns) \<Longrightarrow> \<exists>c. owner_cards tenant w ns = [c] \<and> cc_kind c = ShipVsFreeze"
  "c \<in> set (owner_cards tenant w ns) \<Longrightarrow> cc_kind c = ShipVsFreeze \<longleftrightarrow> clashing (set ns)"
  "c \<in> set (owner_cards tenant w ns) \<Longrightarrow> cc_node_ids c = w # map gn_node_id ns"
  "c \<in> set (owner_cards tenant w ns) \<Longrightarrow> cc_is_demo c \<longleftrightarrow> (\<forall>i\<in>set ns. node_is_demo i)"
  "c \<in> set (owner_cards tenant w ns) \<Longrightarrow> cc_kind c = ShipVsFreeze \<Longrightarrow> cc_severity c = SevHigh"
  unfolding clashing_iff_types using clashing_two [of ns, unfolded clashing_iff_types]
  by (auto simp: owner_cards_def Let_def intents_all_demo_def list_all_iff split: if_splits)

lemma owner_card_id:
  "map cc_conflict_id (owner_cards tenant w ns) \<in>
     {[], [''cfl_'' @ tenant @ ''_'' @ w @ ''_owners''], [''cfl_'' @ tenant @ ''_'' @ w @ ''_ship_freeze'']}"
  by (simp add: owner_cards_def Let_def)

lemma owner_id_suffix:
  assumes "w @ a = v @ b" "a \<in> {''_owners'', ''_ship_freeze''}" "b \<in> {''_owners'', ''_ship_freeze''}"
  shows "w = v"
proof (cases "a = b")
  case False
  have "last (w @ a) = last (v @ b)" using assms(1) by (rule arg_cong)
  then show ?thesis using assms(2,3) False by (elim insertE emptyE) simp_all
qed (use assms(1) in simp)

lemma owner_card_of:
  "c \<in> set (owner_cards tenant w ns) \<Longrightarrow>
     \<exists>a\<in>{''_owners'', ''_ship_freeze''}. cc_conflict_id c = ''cfl_'' @ tenant @ ''_'' @ w @ a"
  by (simp add: owner_cards_def Let_def split: if_splits)

lemma owner_cards_one: "length (owner_cards tenant w ns) \<le> 1"
  by (simp add: owner_cards_def Let_def)

lemma owner_ids_apart:
  assumes "c \<in> set (owner_cards tenant w ns)" "d \<in> set (owner_cards tenant v vs)" "v \<noteq> w"
  shows "cc_conflict_id c \<noteq> cc_conflict_id d"
proof -
  obtain a b where a: "a \<in> {''_owners'', ''_ship_freeze''}" "cc_conflict_id c = ''cfl_'' @ tenant @ ''_'' @ w @ a"
    and b: "b \<in> {''_owners'', ''_ship_freeze''}" "cc_conflict_id d = ''cfl_'' @ tenant @ ''_'' @ v @ b"
    using owner_card_of [OF assms(1)] owner_card_of [OF assms(2)] by blast
  show ?thesis
    unfolding a(2) b(2) using owner_id_suffix [OF _ a(1) b(1), of w v] assms(3) by (simp only: same_append_eq) blast
qed

lemma owner_ids_distinct:
  "distinct (map fst m) \<Longrightarrow> distinct (map cc_conflict_id (concat (map (\<lambda>(w, ns). owner_cards tenant w ns) m)))"
proof (induction m)
  case (Cons p m)
  obtain w ns where p: "p = (w, ns)" by (cases p)
  have "cc_conflict_id c \<noteq> cc_conflict_id d"
    if "c \<in> set (owner_cards tenant w ns)" "(v, vs) \<in> set m" "d \<in> set (owner_cards tenant v vs)" for c d v vs
  proof -
    have "v \<in> fst ` set m" using that(2) by force
    then have "v \<noteq> w" using Cons.prems unfolding p by auto
    then show ?thesis using owner_ids_apart that(1,3) by blast
  qed
  then have "cc_conflict_id ` set (owner_cards tenant w ns)
      \<inter> cc_conflict_id ` set (concat (map (\<lambda>(w, ns). owner_cards tenant w ns) m)) = {}"
    by fastforce
  moreover have "distinct (map cc_conflict_id (owner_cards tenant w ns))"
    using owner_cards_one [of tenant w ns] by (cases "owner_cards tenant w ns") auto
  ultimately show ?case using Cons.IH Cons.prems unfolding p by (simp add: image_Un)
qed simp

text \<open>The owner cards are never dropped by the deduplication, and no other card is of their kind.\<close>

lemma other_cards_kind:
  "c \<in> set (mutual_cards tenant idx bs) \<Longrightarrow> cc_kind c \<noteq> ShipVsFreeze"
  "c \<in> set (blocked_card tenant i) \<Longrightarrow> cc_kind c \<noteq> ShipVsFreeze"
  "c \<in> set (blocks_ship_card tenant idx e) \<Longrightarrow> cc_kind c \<noteq> ShipVsFreeze"
  "c \<in> set (work_cards dp tenant nodes idx as_of w) \<Longrightarrow> cc_kind c \<noteq> ShipVsFreeze"
proof -
  show "c \<in> set (mutual_cards tenant idx bs) \<Longrightarrow> cc_kind c \<noteq> ShipVsFreeze"
    by (induction tenant idx bs rule: mutual_cards.induct) (auto simp: mutual_card_def split: if_splits)
  show "c \<in> set (blocked_card tenant i) \<Longrightarrow> cc_kind c \<noteq> ShipVsFreeze"
    by (simp add: blocked_card_def split: if_splits)
  show "c \<in> set (blocks_ship_card tenant idx e) \<Longrightarrow> cc_kind c \<noteq> ShipVsFreeze"
    by (cases "dm_get idx (ge_to_node_id e)") (simp_all add: blocks_ship_card_def split: if_splits)
  have "d \<in> set (friction_card tenant tag k l sv ts dm ab f w) \<Longrightarrow> k \<noteq> ShipVsFreeze \<Longrightarrow> cc_kind d \<noteq> ShipVsFreeze"
    for d tag k l sv ts dm ab f by (cases f) (simp_all add: friction_card_def)
  then show "c \<in> set (work_cards dp tenant nodes idx as_of w) \<Longrightarrow> cc_kind c \<noteq> ShipVsFreeze"
    unfolding work_cards_def Let_def
    by (cases "node_by_id nodes w") (fastforce split: if_splits)+
qed

lemma index_inv_about:
  assumes "distinct (map gn_node_id nodes)"
  shows "index_inv (filter is_intent nodes) (about_work (filter is_intent nodes) active)"
  using about_work_lists [of "filter is_intent nodes"] distinct_map_filter [OF assms] by blast

lemma listed_about:
  assumes "distinct (map gn_node_id nodes)"
  shows "listed (about_work (filter is_intent nodes) (filter (edge_active as_of) edges)) w
    = intents_about nodes edges as_of w"
  using about_work_lists [of "filter is_intent nodes" "filter (edge_active as_of) edges" w]
    distinct_map_filter [OF assms]
  by (auto simp: intents_about_def)

lemma ship_freeze_cards:
  fixes nodes edges as_of
  defines "idx \<equiv> about_work (filter is_intent nodes) (filter (edge_active as_of) edges)"
  assumes "dm_ok idx" "cc_kind c = ShipVsFreeze"
  shows "c \<in> set (detect_conflicts dp tenant nodes edges as_of)
    \<longleftrightarrow> (\<exists>w ns. (w, ns) \<in> set idx \<and> c \<in> set (owner_cards tenant w ns))"
proof -
  let ?own = "concat (map (\<lambda>(w, ns). owner_cards tenant w ns) idx)"
  let ?bs = "filter is_blocks_edge (filter (edge_active as_of) edges)"
  define rest where "rest = mutual_cards tenant idx ?bs @ concat (map (blocked_card tenant) (filter is_intent nodes))
      @ concat (map (blocks_ship_card tenant idx) ?bs)
      @ concat (map (work_cards dp tenant nodes idx as_of) (work_ids idx nodes))"
  have r: "all_cards dp tenant nodes edges as_of = ?own @ rest" "\<forall>d\<in>set rest. cc_kind d \<noteq> ShipVsFreeze"
    unfolding rest_def by (simp add: all_cards_def Let_def idx_def) (auto dest: other_cards_kind)
  have "set ?own \<subseteq> set (retain_new cc_conflict_id [] (?own @ rest))"
    by (intro retain_new_prefix owner_ids_distinct) (use assms(2) in \<open>simp_all add: dm_ok_def\<close>)
  moreover have "set (retain_new cc_conflict_id [] (?own @ rest)) \<subseteq> set ?own \<union> set rest"
    using retain_new_subset [of cc_conflict_id "[]" "?own @ rest"] by simp
  ultimately have "c \<in> set (detect_conflicts dp tenant nodes edges as_of) \<longleftrightarrow> c \<in> set ?own"
    using r(2) assms(3) unfolding detect_conflicts_set r(1) by blast
  then show ?thesis by auto
qed


text \<open>
  C13. Conflicts between shipping and freezing are reported exactly. With distinct node identifiers
  there is a SHIP-against-FREEZE card for a work item just when, among the intents about it (by a
  live ABOUT edge or by their own property), one says SHIP and one says FREEZE, whether or not
  they have the same owner. Such a card is of high severity, names exactly the intents about the
  item, and is marked as demo data only when all of them are. No identifier is listed twice, and
  more severe cards come first.
\<close>

theorem ship_freeze_reported:
  assumes "distinct (map gn_node_id nodes)"
  shows "((\<exists>c\<in>set (detect_conflicts dp tenant nodes edges as_of).
            cc_kind c = ShipVsFreeze \<and> hd (cc_node_ids c) = w)
           \<longleftrightarrow> clashing (intents_about nodes edges as_of w))
    \<and> (c \<in> set (detect_conflicts dp tenant nodes edges as_of) \<longrightarrow> cc_kind c = ShipVsFreeze \<longrightarrow>
         cc_severity c = SevHigh
         \<and> set (tl (cc_node_ids c)) = gn_node_id ` intents_about nodes edges as_of (hd (cc_node_ids c))
         \<and> (cc_is_demo c \<longleftrightarrow> (\<forall>i\<in>intents_about nodes edges as_of (hd (cc_node_ids c)). node_is_demo i)))
    \<and> distinct (map cc_conflict_id (detect_conflicts dp tenant nodes edges as_of))
    \<and> sorted_wrt (\<lambda>a b. severity_rank (cc_severity b) \<le> severity_rank (cc_severity a))
        (detect_conflicts dp tenant nodes edges as_of)"
proof -
  define idx where "idx = about_work (filter is_intent nodes) (filter (edge_active as_of) edges)"
  have ok: "dm_ok idx"
    unfolding idx_def using index_inv_about [OF assms] by (rule index_inv_ok)
  have ns: "set ns = intents_about nodes edges as_of v" if "(v, ns) \<in> set idx" for v ns
    using that listed_about [OF assms, of as_of edges v] unfolding idx_def [symmetric] listed_def
    by (simp add: dm_get_iff_mem [OF ok, symmetric])
  note mem = ship_freeze_cards [OF ok [unfolded idx_def], folded idx_def]
  let ?cs = "detect_conflicts dp tenant nodes edges as_of"
  have ex: "\<exists>c\<in>set ?cs. cc_kind c = ShipVsFreeze \<and> hd (cc_node_ids c) = w"
    if cl: "clashing (intents_about nodes edges as_of w)"
  proof -
    have "listed idx w \<noteq> {}"
      using cl listed_about [OF assms, of as_of edges w] unfolding idx_def [symmetric] by (auto simp: clashing_def)
    then obtain ns where w: "(w, ns) \<in> set idx"
      using dm_get_mem [of idx w] by (cases "dm_get idx w") (auto simp: listed_def)
    obtain c where "c \<in> set (owner_cards tenant w ns)" "cc_kind c = ShipVsFreeze"
      using owner_cards_simps(1) [of ns tenant w] cl ns [OF w] by auto
    then show ?thesis using mem [of c dp tenant] w owner_cards_simps(3) [of c tenant w ns] by fastforce
  qed
  have card: "clashing (intents_about nodes edges as_of (hd (cc_node_ids c)))
      \<and> cc_severity c = SevHigh
      \<and> set (tl (cc_node_ids c)) = gn_node_id ` intents_about nodes edges as_of (hd (cc_node_ids c))
      \<and> (cc_is_demo c \<longleftrightarrow> (\<forall>i\<in>intents_about nodes edges as_of (hd (cc_node_ids c)). node_is_demo i))"
    if c: "c \<in> set ?cs" "cc_kind c = ShipVsFreeze" for c
  proof -
    obtain v ns where v: "(v, ns) \<in> set idx" "c \<in> set (owner_cards tenant v ns)"
      using mem [OF c(2), of dp tenant] c(1) by blast
    note simps = owner_cards_simps(2-5) [OF v(2)]
    show ?thesis using simps c(2) ns [OF v(1)] by simp
  qed
  have "(\<exists>c\<in>set ?cs. cc_kind c = ShipVsFreeze \<and> hd (cc_node_ids c) = w)
      \<longleftrightarrow> clashing (intents_about nodes edges as_of w)"
  proof
    assume "\<exists>c\<in>set ?cs. cc_kind c = ShipVsFreeze \<and> hd (cc_node_ids c) = w"
    then obtain d where "d \<in> set ?cs" "cc_kind d = ShipVsFreeze" "hd (cc_node_ids d) = w" by (elim bexE conjE)
    then show "clashing (intents_about nodes edges as_of w)" using conjunct1 [OF card [of d]] by simp
  qed (rule ex)
  then show ?thesis
    using card [of c] detect_conflicts_distinct detect_conflicts_order by (intro conjI impI) simp_all
qed

section \<open>A sample graph\<close>

definition sample_intent :: "string \<Rightarrow> string \<Rightarrow> string \<Rightarrow> graph_node" where
  "sample_intent i kind owner =
     \<lparr>gn_tenant_id = ''t'', gn_node_id = i, gn_node_type = ''Intent'', gn_display_name = kind,
      gn_resource_id = ''acme/app'',
      gn_properties = JObj [(''intent_type'', JStr kind), (''owner_node_id'', JStr owner),
        (''about_node_id'', JStr ''pr:1'')],
      gn_is_private = False, gn_allowed_group_ids = [], gn_acl_version = 0\<rparr>"

definition sample_intents :: "graph_node list" where
  "sample_intents = [sample_intent ''intent:a'' ''SHIP'' ''person:a'', sample_intent ''intent:b'' ''FREEZE'' ''person:a'']"

definition no_dates :: date_parsers where
  "no_dates = \<lparr>dt_rfc3339 = (\<lambda>s. None), dt_naive = (\<lambda>f s. None), dt_date = (\<lambda>f s. None)\<rparr>"

theorem ship_freeze_reported_witness:
  "\<exists>c. c \<in> set (detect_conflicts no_dates ''t'' sample_intents [] 5) \<and> cc_kind c = ShipVsFreeze
      \<and> cc_severity c = SevHigh"
proof -
  have d: "distinct (map gn_node_id sample_intents)" by (simp add: sample_intents_def sample_intent_def)
  have m: "sample_intent i k p \<in> set sample_intents
      \<Longrightarrow> sample_intent i k p \<in> intents_about sample_intents [] 5 ''pr:1''" for i k p
    by (simp add: intents_about_def sample_intent_def is_intent_def about_of_def opt_str_def)
  have t: "intent_type_of (sample_intent i k p) = k" for i k p
    by (simp add: intent_type_of_def sample_intent_def opt_str_def)
  have "clashing (intents_about sample_intents [] 5 ''pr:1'')"
    unfolding clashing_def
    by (intro conjI bexI [OF _ m [of "''intent:a''" "''SHIP''" "''person:a''"]]
        bexI [OF _ m [of "''intent:b''" "''FREEZE''" "''person:a''"]]) (simp_all add: t sample_intents_def)
  then obtain c where "c \<in> set (detect_conflicts no_dates ''t'' sample_intents [] 5)" "cc_kind c = ShipVsFreeze"
    using ship_freeze_reported [OF d, of no_dates "''t''" "[]" 5 "''pr:1''"] by blast
  then show ?thesis using ship_freeze_reported [OF d, of no_dates "''t''" "[]" 5 "''pr:1''" c] by blast
qed

end
