(* ===== verification/Egress_Redact.thy ===== *)
theory Egress_Redact
  imports Text_Util
begin

text \<open>
  Redaction of secrets in response bodies (\<open>vertical-security/src/redact.rs\<close>). \<open>replace_all\<close> is
  \<open>str::replace\<close>: every non-overlapping occurrence, from the left.
\<close>

function replace_all :: "string \<Rightarrow> string \<Rightarrow> string \<Rightarrow> string" where
  "replace_all s r b =
     (if s \<noteq> [] \<and> prefix s b then r @ replace_all s r (drop (length s) b)
      else case b of [] \<Rightarrow> [] | c # cs \<Rightarrow> c # replace_all s r cs)"
  by pat_completeness auto
termination
  by (relation "measure (\<lambda>(s, r, b). length b)") (auto simp: prefix_def)

declare replace_all.simps [simp del]

lemma replace_all_nil [simp]: "replace_all s r [] = []"
  by (subst replace_all.simps) simp

lemma replace_all_skip: "\<not> (s \<noteq> [] \<and> prefix s (c # cs)) \<Longrightarrow> replace_all s r (c # cs) = c # replace_all s r cs"
  by (subst replace_all.simps) (simp only: if_False list.case)

lemma replace_all_hit: "s \<noteq> [] \<Longrightarrow> prefix s b \<Longrightarrow> replace_all s r b = r @ replace_all s r (drop (length s) b)"
  by (subst replace_all.simps) simp

definition redaction_mark :: string where
  "redaction_mark = ''[REDACTED]''"

definition redact_one :: "string \<Rightarrow> string \<Rightarrow> string" where
  "redact_one s out =
     (if s = [] then out else if contains out s then replace_all s redaction_mark out else out)"

definition redact_secrets :: "string \<Rightarrow> string list \<Rightarrow> string" where
  "redact_secrets body secrets = fold redact_one secrets body"

text \<open>
  A secret that can be redacted for sure: not empty, no brackets, and not a part of the word
  between the brackets of the mark.
\<close>

definition redactable :: "string \<Rightarrow> bool" where
  "redactable s \<longleftrightarrow> s \<noteq> [] \<and> CHR ''['' \<notin> set s \<and> CHR '']'' \<notin> set s \<and> \<not> contains ''REDACTED'' s"

lemma sublist_sep:
  assumes "d \<notin> set t" "sublist t (x @ d # z)"
  shows "sublist t x \<or> sublist t z"
  using assms by (auto simp: sublist_append sublist_Cons_right prefix_Cons suffix_def prefix_def append_eq_append_conv2
      append_eq_Cons_conv Cons_eq_append_conv)

lemma redaction_mark_split: "redaction_mark = CHR ''['' # ''REDACTED'' @ [CHR '']'']"
  by (simp add: redaction_mark_def)

lemma contains_around_mark:
  assumes "redactable t" "contains (u @ redaction_mark @ y) t"
  shows "contains u t \<or> contains y t"
proof -
  have "CHR ''['' \<notin> set t" "CHR '']'' \<notin> set t" "\<not> sublist t ''REDACTED''"
    using assms(1) by (simp_all add: redactable_def contains_def)
  moreover have "sublist t (u @ CHR ''['' # (''REDACTED'' @ CHR '']'' # y))"
    using assms(2) by (simp add: contains_def redaction_mark_def)
  ultimately show ?thesis
    using sublist_sep [of "CHR ''[''" t u] sublist_sep [of "CHR '']''" t "''REDACTED''" y]
    by (auto simp: contains_def)
qed

text \<open>Redacting one secret brings no other redactable text into the body.\<close>

lemma replace_all_no_new:
  assumes "redactable t"
  shows "contains (u @ replace_all s redaction_mark b) t \<Longrightarrow> contains (u @ b) t"
proof (induction "length b" arbitrary: b u rule: less_induct)
  case less
  show ?case
  proof (cases "s \<noteq> [] \<and> prefix s b")
    case True
    then have len: "length (drop (length s) b) < length b" by (auto simp: prefix_def)
    have "contains (u @ redaction_mark @ replace_all s redaction_mark (drop (length s) b)) t"
      using less.prems True by (simp add: replace_all_hit)
    from contains_around_mark [OF assms this] show ?thesis
    proof
      assume "contains u t"
      then show ?thesis by (auto simp: contains_def sublist_append)
    next
      assume "contains (replace_all s redaction_mark (drop (length s) b)) t"
      then have "contains (drop (length s) b) t" using less.hyps [OF len, of "[]"] by simp
      then show ?thesis
        by (metis append_take_drop_id contains_def sublist_append)
    qed
  next
    case False
    then show ?thesis
    proof (cases b)
      case (Cons c cs)
      then have "contains ((u @ [c]) @ replace_all s redaction_mark cs) t"
        using less.prems replace_all_skip [of s c cs] False by simp
      from less.hyps [OF _ this] Cons show ?thesis by simp
    qed (use less.prems in simp)
  qed
qed

text \<open>An occurrence of the replaced secret after the replacement started before the text replaced.\<close>

lemma replace_all_starts_before:
  assumes "redactable s"
  shows "contains (u @ replace_all s redaction_mark b) s \<Longrightarrow>
    \<exists>u1 u2. u = u1 @ u2 \<and> u2 \<noteq> [] \<and> prefix s (u2 @ b)"
proof (induction "length b" arbitrary: b u rule: less_induct)
  case less
  have inside: "\<exists>u1 u2. u = u1 @ u2 \<and> u2 \<noteq> [] \<and> prefix s (u2 @ b)" if "contains u s" for u
  proof -
    from that obtain x y where "u = x @ s @ y" by (auto simp: contains_def sublist_def)
    then show ?thesis
      using assms by (intro exI [of _ x] exI [of _ "s @ y"]) (auto simp: redactable_def)
  qed
  show ?case
  proof (cases "s \<noteq> [] \<and> prefix s b")
    case True
    then have len: "length (drop (length s) b) < length b" by (auto simp: prefix_def)
    have "contains (u @ redaction_mark @ replace_all s redaction_mark (drop (length s) b)) s"
      using less.prems True by (simp add: replace_all_hit)
    from contains_around_mark [OF assms this] show ?thesis
      using inside less.hyps [OF len, of "[]"] by auto
  next
    case False
    show ?thesis
    proof (cases b)
      case Nil
      then show ?thesis using less.prems inside by simp
    next
      case (Cons c cs)
      then have "contains ((u @ [c]) @ replace_all s redaction_mark cs) s"
        using less.prems replace_all_skip [of s c cs] False by simp
      from less.hyps [OF _ this] Cons obtain u1 u2 where
        u: "u @ [c] = u1 @ u2" "u2 \<noteq> []" "prefix s (u2 @ cs)" by auto
      then obtain u2' where u2: "u2 = u2' @ [c]" "u = u1 @ u2'"
        by (metis append_butlast_last_id append_assoc last_appendR last_snoc butlast_append butlast_snoc)
      have "u2' \<noteq> []"
      proof
        assume "u2' = []"
        with u(3) u2(1) Cons False assms show False by (auto simp: redactable_def)
      qed
      with u2 u(3) Cons show ?thesis by auto
    qed
  qed
qed

lemma redact_one_removes: "redactable s \<Longrightarrow> \<not> contains (redact_one s b) s"
  using replace_all_starts_before [of s "[]" b] by (auto simp: redact_one_def redactable_def)

lemma redact_one_no_new: "redactable t \<Longrightarrow> contains (redact_one s b) t \<Longrightarrow> contains b t"
  using replace_all_no_new [of t "[]" s b] by (auto simp: redact_one_def split: if_splits)

lemma redact_fold_no_new: "redactable t \<Longrightarrow> contains (fold redact_one ss b) t \<Longrightarrow> contains b t"
  by (induction ss arbitrary: b) (auto dest: redact_one_no_new)

lemma redacted:
  assumes "s \<in> set secrets" "redactable s"
  shows "\<not> contains (redact_secrets body secrets) s"
proof
  obtain xs ys where "secrets = xs @ s # ys" using assms(1) by (meson split_list)
  moreover assume "contains (redact_secrets body secrets) s"
  ultimately have "contains (fold redact_one ys (redact_one s (fold redact_one xs body))) s"
    by (simp add: redact_secrets_def)
  with assms(2) have "contains (redact_one s (fold redact_one xs body)) s" by (rule redact_fold_no_new)
  with redact_one_removes [OF assms(2)] show False by blast
qed

end
