(* ===== verification/Egress_Proxy.thy ===== *)
theory Egress_Proxy
  imports Egress_Redact
begin

text \<open>
  The credential egress proxy (\<open>vertical-security/src/registry.rs\<close>, \<open>secrets.rs\<close>, \<open>proxy.rs\<close>): a
  caller names a tool, the proxy checks the target host against the tool's list and adds the
  tool's credential. The URL parser, the validity checks of HTTP header names and values and the
  upstream server are the functions of \<open>proxy_env\<close>. Log lines are left out.
\<close>

section \<open>Registry and secrets\<close>

record tool_config =
  tc_hosts :: "string list"
  tc_secret :: string
  tc_header :: string
  tc_prefix :: string

type_synonym tool_registry = "(string, tool_config) dashmap"

definition default_header :: string where
  "default_header = ''Authorization''"

definition new_registry :: "(string, tool_config) dashmap \<Rightarrow> tool_registry" where
  "new_registry tools = map (\<lambda>(k, v). (k, v\<lparr>tc_hosts := map to_ascii_lowercase (tc_hosts v)\<rparr>)) tools"

definition registry_get :: "tool_registry \<Rightarrow> string \<Rightarrow> tool_config option" where
  "registry_get reg tool = dm_get reg tool"

definition host_only :: "string \<Rightarrow> string" where
  "host_only host = fst (split_once CHR 0x3A (to_ascii_lowercase host))"

definition host_allowed :: "tool_registry \<Rightarrow> string \<Rightarrow> string \<Rightarrow> bool" where
  "host_allowed reg tool host =
     (case registry_get reg tool of Some c \<Rightarrow> host_only host \<in> set (tc_hosts c) | None \<Rightarrow> False)"

type_synonym secrets_store = "(string, string) dashmap"

definition secrets_get :: "secrets_store \<Rightarrow> string \<Rightarrow> string option" where
  "secrets_get m name = dm_get m name"

definition secret_values :: "secrets_store \<Rightarrow> string list" where
  "secret_values m = map snd m"

section \<open>Requests and responses\<close>

type_synonym header_map = "(string \<times> string) list"

record parsed_url =
  pu_text :: string
  pu_host :: "string option"

record proxy_request =
  pr_method :: string
  pr_path :: string
  pr_query :: "string option"
  pr_headers :: header_map
  pr_body :: "string + string"

record upstream_request =
  ur_method :: string
  ur_url :: parsed_url
  ur_headers :: header_map
  ur_body :: "string option"

record upstream_response =
  us_status :: nat
  us_headers :: header_map
  us_body :: "string + string"

record proxy_response =
  ps_status :: nat
  ps_headers :: header_map
  ps_body :: string

record proxy_env =
  px_parse_url :: "string \<Rightarrow> parsed_url option"
  px_header_name :: "string \<Rightarrow> string option"
  px_header_value :: "string \<Rightarrow> bool"
  px_to_str :: "string \<Rightarrow> string option"
  px_send :: "upstream_request \<Rightarrow> string + upstream_response"

record proxy_state =
  px_registry :: tool_registry
  px_secrets :: secrets_store
  px_redact_responses :: bool

definition new_proxy_state :: "tool_registry \<Rightarrow> secrets_store \<Rightarrow> proxy_state" where
  "new_proxy_state reg secrets =
     \<lparr>px_registry = reg, px_secrets = secrets, px_redact_responses = True\<rparr>"

definition tool_header :: string where
  "tool_header = ''x-ai-manager-tool''"

definition is_hop_by_hop :: "string \<Rightarrow> bool" where
  "is_hop_by_hop name \<longleftrightarrow> to_ascii_lowercase name \<in>
     {''connection'', ''keep-alive'', ''proxy-authenticate'', ''proxy-authorization'', ''te'', ''trailers'',
      ''transfer-encoding'', ''upgrade'', ''content-length''}"

section \<open>The target\<close>

definition http_prefix :: "string \<Rightarrow> bool" where
  "http_prefix s \<longleftrightarrow> starts_with s ''http://'' \<or> starts_with s ''https://''"

definition fix_collapsed_scheme :: "string \<Rightarrow> string" where
  "fix_collapsed_scheme rest =
     (case strip_prefix rest ''https:/'' of
        Some after \<Rightarrow> if starts_with after ''/'' then ''https:/'' @ after else ''https://'' @ after
      | None \<Rightarrow>
          (case strip_prefix rest ''http:/'' of
             Some after \<Rightarrow> if starts_with after ''/'' then ''http:/'' @ after else ''http://'' @ after
           | None \<Rightarrow> rest))"

definition candidate_url :: "string \<Rightarrow> string + string" where
  "candidate_url path =
     (let rest = unwrap_or (strip_prefix path ''/'') path in
      if rest = [] \<or> rest = ''healthz'' then Inl ''missing target URL in path''
      else case strip_prefix rest ''proxy/'' of
        Some after \<Rightarrow> Inr (if http_prefix after then after else ''https://'' @ after)
      | None \<Rightarrow>
          if http_prefix rest then Inr rest
          else if starts_with rest ''http:/'' \<or> starts_with rest ''https:/'' then Inr (fix_collapsed_scheme rest)
          else Inl ''path must be /https://host/... or /proxy/host/...'')"

definition resolve_target_url :: "proxy_env \<Rightarrow> string \<Rightarrow> string option \<Rightarrow> string + parsed_url" where
  "resolve_target_url env path query =
     (case candidate_url path of
        Inl e \<Rightarrow> Inl e
      | Inr c \<Rightarrow>
          (let with_query = (case query of
                 Some q \<Rightarrow> if CHR 0x3F \<in> set c then c else c @ ''?'' @ q
               | None \<Rightarrow> c)
           in case px_parse_url env with_query of Some u \<Rightarrow> Inr u | None \<Rightarrow> Inl ''invalid target URL''))"

section \<open>The handler\<close>

definition plain_response :: "nat \<Rightarrow> string \<Rightarrow> proxy_response" where
  "plain_response status body = \<lparr>ps_status = status, ps_headers = [], ps_body = body\<rparr>"

definition tool_of :: "proxy_env \<Rightarrow> header_map \<Rightarrow> string option" where
  "tool_of env hs =
     filter_opt (\<lambda>s. s \<noteq> []) (map_option trim (Option.bind (dm_get hs tool_header) (px_to_str env)))"

definition forward_header :: "string \<times> string \<Rightarrow> header_map \<Rightarrow> header_map" where
  "forward_header h fwd =
     (if is_hop_by_hop (fst h) \<or> fst h = tool_header \<or> fst h = ''authorization'' \<or> fst h = ''host'' then fwd
      else dm_put (fst h) (snd h) fwd)"

definition forwarded_headers :: "header_map \<Rightarrow> header_map" where
  "forwarded_headers hs = fold forward_header hs []"

definition response_header :: "string \<times> string \<Rightarrow> header_map \<Rightarrow> header_map" where
  "response_header h hs =
     (if is_hop_by_hop (fst h) \<or> fst h = ''transfer-encoding'' then hs else dm_put (fst h) (snd h) hs)"

definition final_body :: "proxy_state \<Rightarrow> string \<Rightarrow> string" where
  "final_body st body =
     (if px_redact_responses st
      then (if utf8_valid body then redact_secrets body (secret_values (px_secrets st)) else body)
      else body)"

definition relay_response :: "proxy_state \<Rightarrow> string + upstream_response \<Rightarrow> proxy_response" where
  "relay_response st outcome =
     (case outcome of
        Inl e \<Rightarrow> plain_response 502 (''upstream error: '' @ e)
      | Inr r \<Rightarrow>
          (case us_body r of
             Inl e \<Rightarrow> plain_response 502 (''upstream body error: '' @ e)
           | Inr body \<Rightarrow>
               \<lparr>ps_status = (if 100 \<le> us_status r \<and> us_status r < 1000 then us_status r else 502),
                ps_headers = fold response_header (us_headers r) [], ps_body = final_body st body\<rparr>))"

text \<open>
  The handler: the request it sends upstream, if it sends one, and its response.
\<close>

definition proxy_handler ::
  "proxy_env \<Rightarrow> proxy_state \<Rightarrow> proxy_request \<Rightarrow> upstream_request option \<times> proxy_response" where
  "proxy_handler env st req =
     (case tool_of env (pr_headers req) of
        None \<Rightarrow> (None, plain_response 400 ''missing X-AI-Manager-Tool header'')
      | Some tool \<Rightarrow>
          (case resolve_target_url env (pr_path req) (pr_query req) of
             Inl msg \<Rightarrow> (None, plain_response 400 msg)
           | Inr target \<Rightarrow>
               (case pu_host target of
                  None \<Rightarrow> (None, plain_response 400 ''target URL missing host'')
                | Some host \<Rightarrow>
                    (case registry_get (px_registry st) tool of
                       None \<Rightarrow> (None, plain_response 403 ''unknown tool'')
                     | Some cfg \<Rightarrow>
                         if \<not> host_allowed (px_registry st) tool host
                         then (None, plain_response 403 ''host not allowlisted for tool'')
                         else
                           (case secrets_get (px_secrets st) (tc_secret cfg) of
                              None \<Rightarrow> (None, plain_response 503 ''secret not available'')
                            | Some secret \<Rightarrow>
                                (case pr_body req of
                                   Inl e \<Rightarrow> (None, plain_response 400 (''failed to read body: '' @ e))
                                 | Inr body \<Rightarrow>
                                     (case px_header_name env (tc_header cfg) of
                                        Some hn \<Rightarrow>
                                          if px_header_value env (tc_prefix cfg @ secret)
                                          then
                                            (let up = \<lparr>ur_method = pr_method req, ur_url = target,
                                                   ur_headers = dm_put hn (tc_prefix cfg @ secret)
                                                     (forwarded_headers (pr_headers req)),
                                                   ur_body = (if body = [] then None else Some body)\<rparr>
                                             in (Some up, relay_response st (px_send env up)))
                                          else (None, plain_response 500 ''invalid header config for tool'')
                                      | None \<Rightarrow> (None, plain_response 500 ''invalid header config for tool''))))))))"

section \<open>Credentials reach listed hosts only\<close>

lemma forwarded_headers_dom:
  "dm_get (fold forward_header hs fwd) k \<noteq> None \<Longrightarrow>
   dm_get fwd k \<noteq> None \<or> (\<not> is_hop_by_hop k \<and> k \<noteq> tool_header \<and> k \<noteq> ''authorization'' \<and> k \<noteq> ''host''
     \<and> k \<in> fst ` set hs)"
proof (induction hs arbitrary: fwd)
  case (Cons h hs)
  then have "dm_get (forward_header h fwd) k \<noteq> None \<or> (\<not> is_hop_by_hop k \<and> k \<noteq> tool_header
      \<and> k \<noteq> ''authorization'' \<and> k \<noteq> ''host'' \<and> k \<in> fst ` set hs)" by simp
  then show ?case by (auto simp: forward_header_def split: if_splits)
qed simp

lemma proxy_handler_sent:
  assumes "proxy_handler env st req = (Some up, resp)"
  shows "\<exists>tool cfg host secret hn. tool_of env (pr_headers req) = Some tool
    \<and> registry_get (px_registry st) tool = Some cfg \<and> pu_host (ur_url up) = Some host
    \<and> host_only host \<in> set (tc_hosts cfg) \<and> secrets_get (px_secrets st) (tc_secret cfg) = Some secret
    \<and> px_header_name env (tc_header cfg) = Some hn
    \<and> ur_headers up = dm_put hn (tc_prefix cfg @ secret) (forwarded_headers (pr_headers req))
    \<and> resolve_target_url env (pr_path req) (pr_query req) = Inr (ur_url up)
    \<and> resp = relay_response st (px_send env up)"
  using assms
  by (auto simp: proxy_handler_def host_allowed_def Let_def split: option.splits sum.splits if_splits)

text \<open>
  C14. A credential leaves the proxy only for a listed host. Whenever the proxy sends a request
  upstream, the caller's tool is registered, the host of the URL it sends to is on that tool's
  list, and the request carries that tool's credential in the tool's header; of the caller's own
  headers it never forwards \<open>authorization\<close>, \<open>host\<close>, the tool header or a hop-by-hop header.
\<close>

theorem credential_only_to_listed_host:
  assumes "proxy_handler env st req = (Some up, resp)"
  shows "\<exists>tool cfg host secret hn. tool_of env (pr_headers req) = Some tool
    \<and> registry_get (px_registry st) tool = Some cfg
    \<and> pu_host (ur_url up) = Some host \<and> host_only host \<in> set (tc_hosts cfg)
    \<and> secrets_get (px_secrets st) (tc_secret cfg) = Some secret
    \<and> px_header_name env (tc_header cfg) = Some hn
    \<and> dm_get (ur_headers up) hn = Some (tc_prefix cfg @ secret)
    \<and> (\<forall>k. dm_get (ur_headers up) k \<noteq> None \<longrightarrow> k = hn \<or>
         \<not> is_hop_by_hop k \<and> k \<noteq> tool_header \<and> k \<noteq> ''authorization'' \<and> k \<noteq> ''host'' \<and> k \<in> fst ` set (pr_headers req))"
proof -
  from proxy_handler_sent [OF assms] obtain tool cfg host secret hn where
    h: "tool_of env (pr_headers req) = Some tool" "registry_get (px_registry st) tool = Some cfg"
      "pu_host (ur_url up) = Some host" "host_only host \<in> set (tc_hosts cfg)"
      "secrets_get (px_secrets st) (tc_secret cfg) = Some secret" "px_header_name env (tc_header cfg) = Some hn"
      "ur_headers up = dm_put hn (tc_prefix cfg @ secret) (forwarded_headers (pr_headers req))" by blast
  have "k = hn \<or> \<not> is_hop_by_hop k \<and> k \<noteq> tool_header \<and> k \<noteq> ''authorization'' \<and> k \<noteq> ''host''
      \<and> k \<in> fst ` set (pr_headers req)" if "dm_get (ur_headers up) k \<noteq> None" for k
    using forwarded_headers_dom [of "pr_headers req" "[]" k] that h(7)
    by (auto simp: forwarded_headers_def split: if_splits)
  moreover have "dm_get (ur_headers up) hn = Some (tc_prefix cfg @ secret)" by (simp add: h(7))
  ultimately show ?thesis using h(1-6) by blast
qed

section \<open>Responses\<close>

text \<open>
  C15. The response body gives no redactable secret back. With redaction on, a body of valid UTF-8
  that the proxy relays contains no secret of the store that the mark can stand for: not empty, without brackets, and
  not part of the word \<open>REDACTED\<close>.
\<close>

theorem relayed_body_hides_secrets:
  assumes "proxy_handler env st req = (Some up, resp)" and "px_redact_responses st"
    and "px_send env up = Inr r" and "us_body r = Inr body" and "utf8_valid body"
    and "s \<in> set (secret_values (px_secrets st))" and "redactable s"
  shows "ps_body resp = redact_secrets body (secret_values (px_secrets st)) \<and> \<not> contains (ps_body resp) s"
proof -
  have "resp = relay_response st (px_send env up)" using proxy_handler_sent [OF assms(1)] by blast
  then have "ps_body resp = redact_secrets body (secret_values (px_secrets st))"
    using assms(2-5) by (simp add: relay_response_def final_body_def)
  with redacted [OF assms(6,7)] show ?thesis by simp
qed

text \<open>
  Response headers are not redacted: a header the upstream sends once and that is not hop-by-hop
  comes back as it is, a credential in it included.
\<close>

lemma response_headers_fold:
  "k \<notin> fst ` set hs \<Longrightarrow> dm_get (fold response_header hs m) k = dm_get m k"
  by (induction hs arbitrary: m) (auto simp: response_header_def)

lemma relayed_header_verbatim:
  assumes "us_headers r = xs @ (k, v) # ys" "k \<notin> fst ` set ys" "\<not> is_hop_by_hop k" "us_body r = Inr body"
  shows "dm_get (ps_headers (relay_response st (Inr r))) k = Some v"
proof -
  have "k \<noteq> ''transfer-encoding''"
    using assms(3) by (auto simp: is_hop_by_hop_def to_ascii_lowercase_def ascii_lower_char_def)
  then show ?thesis
    using assms by (simp add: relay_response_def response_headers_fold response_header_def)
qed

section \<open>An example\<close>

definition sample_registry :: tool_registry where
  "sample_registry = new_registry [(''github_api'', \<lparr>tc_hosts = [''API.github.com''], tc_secret = ''GITHUB_TOKEN'',
     tc_header = default_header, tc_prefix = ''Bearer ''\<rparr>)]"

definition echo_env :: proxy_env where
  "echo_env = \<lparr>px_parse_url = (\<lambda>u. Some \<lparr>pu_text = u, pu_host = Some ''api.github.com''\<rparr>),
     px_header_name = (\<lambda>n. Some (to_ascii_lowercase n)), px_header_value = (\<lambda>_. True), px_to_str = Some,
     px_send = (\<lambda>up. Inr \<lparr>us_status = 200, us_headers = [],
       us_body = Inr (unwrap_or (dm_get (ur_headers up) ''authorization'') [])\<rparr>)\<rparr>"

definition sample_proxy :: proxy_state where
  "sample_proxy = new_proxy_state sample_registry [(''GITHUB_TOKEN'', ''ghp_1'')]"

definition sample_proxy_request :: proxy_request where
  "sample_proxy_request = \<lparr>pr_method = ''GET'', pr_path = ''/https://api.github.com/user'', pr_query = None,
     pr_headers = [(tool_header, ''github_api''), (''authorization'', ''mine'')], pr_body = Inr []\<rparr>"

lemma sample_proxy_run:
  "proxy_handler echo_env sample_proxy sample_proxy_request =
    (Some \<lparr>ur_method = ''GET'', ur_url = \<lparr>pu_text = ''https://api.github.com/user'', pu_host = Some ''api.github.com''\<rparr>,
       ur_headers = [(''authorization'', ''Bearer ghp_1'')], ur_body = None\<rparr>,
     \<lparr>ps_status = 200, ps_headers = [], ps_body = ''Bearer [REDACTED]''\<rparr>)"
  by code_simp

theorem credential_only_to_listed_host_witness:
  "\<exists>up resp cfg host. proxy_handler echo_env sample_proxy sample_proxy_request = (Some up, resp)
     \<and> registry_get sample_registry ''github_api'' = Some cfg \<and> pu_host (ur_url up) = Some host
     \<and> host_only host \<in> set (tc_hosts cfg)"
proof -
  have "tool_of echo_env (pr_headers sample_proxy_request) = Some ''github_api''" by code_simp
  moreover have "px_registry sample_proxy = sample_registry" by (simp add: sample_proxy_def new_proxy_state_def)
  ultimately show ?thesis
    using credential_only_to_listed_host [OF sample_proxy_run] sample_proxy_run by fastforce
qed

theorem relayed_body_hides_secrets_witness:
  "\<not> contains (ps_body (snd (proxy_handler echo_env sample_proxy sample_proxy_request))) ''ghp_1''"
proof -
  let ?up = "\<lparr>ur_method = ''GET'', ur_url = \<lparr>pu_text = ''https://api.github.com/user'', pu_host = Some ''api.github.com''\<rparr>,
       ur_headers = [(''authorization'', ''Bearer ghp_1'')], ur_body = None\<rparr>"
  let ?r = "\<lparr>us_status = 200, us_headers = [], us_body = Inr ''Bearer ghp_1''\<rparr>"
  have "px_redact_responses sample_proxy" "px_send echo_env ?up = Inr ?r" "utf8_valid ''Bearer ghp_1''"
    "''ghp_1'' \<in> set (secret_values (px_secrets sample_proxy))" by code_simp+
  moreover have "redactable ''ghp_1''" by code_simp
  ultimately have "\<not> contains (ps_body \<lparr>ps_status = 200, ps_headers = [], ps_body = ''Bearer [REDACTED]''\<rparr>) ''ghp_1''"
    using relayed_body_hides_secrets [OF sample_proxy_run, of ?r "''Bearer ghp_1''" "''ghp_1''"]
    unfolding upstream_response.simps by blast
  then show ?thesis unfolding sample_proxy_run by (simp only: snd_conv not_False_eq_True)
qed

end
