(* ===== verification/Telemetry_Model.thy ===== *)
theory Telemetry_Model
  imports Text_Util
begin

text \<open>
  Data of the telemetry service: the provider and category enumerations of
  \<open>telemetry-proto/src/lib.rs\<close>, the errors of \<open>telemetry-core/src/error.rs\<close>, the records of
  \<open>model.rs\<close>, and the access rule of \<open>acl.rs\<close>.
\<close>

section \<open>Enumerations\<close>

datatype source_provider = Unspecified | Github | Gitlab | Jira | Linear | Slack | Teams | Zendesk

datatype event_category = CatUnspecified | CatCode | CatWorkItem | CatCommunication | CatIdentity

fun provider_name :: "source_provider \<Rightarrow> string" where
  "provider_name Unspecified = ''unspecified''"
| "provider_name Github = ''github''"
| "provider_name Gitlab = ''gitlab''"
| "provider_name Jira = ''jira''"
| "provider_name Linear = ''linear''"
| "provider_name Slack = ''slack''"
| "provider_name Teams = ''teams''"
| "provider_name Zendesk = ''zendesk''"

text \<open>The name a provider has in debug output.\<close>

fun provider_debug :: "source_provider \<Rightarrow> string" where
  "provider_debug Unspecified = ''Unspecified''"
| "provider_debug Github = ''Github''"
| "provider_debug Gitlab = ''Gitlab''"
| "provider_debug Jira = ''Jira''"
| "provider_debug Linear = ''Linear''"
| "provider_debug Slack = ''Slack''"
| "provider_debug Teams = ''Teams''"
| "provider_debug Zendesk = ''Zendesk''"

definition provider_parse :: "string \<Rightarrow> source_provider option" where
  "provider_parse s =
     (let l = to_ascii_lowercase s in
      if l = ''github'' then Some Github
      else if l = ''gitlab'' then Some Gitlab
      else if l = ''jira'' then Some Jira
      else if l = ''linear'' then Some Linear
      else if l = ''slack'' then Some Slack
      else if l = ''teams'' \<or> l = ''microsoft_teams'' \<or> l = ''msteams'' then Some Teams
      else if l = ''zendesk'' then Some Zendesk
      else None)"

fun provider_label :: "source_provider \<Rightarrow> string" where
  "provider_label Unspecified = ''GITHUB''"
| "provider_label Github = ''GITHUB''"
| "provider_label Gitlab = ''GITLAB''"
| "provider_label Jira = ''JIRA''"
| "provider_label Linear = ''LINEAR''"
| "provider_label Slack = ''SLACK''"
| "provider_label Teams = ''TEAMS''"
| "provider_label Zendesk = ''ZENDESK''"

fun category_name :: "event_category \<Rightarrow> string" where
  "category_name CatUnspecified = ''unspecified''"
| "category_name CatCode = ''code''"
| "category_name CatWorkItem = ''work_item''"
| "category_name CatCommunication = ''communication''"
| "category_name CatIdentity = ''identity''"

fun category_label :: "event_category \<Rightarrow> string" where
  "category_label CatUnspecified = ''CODE''"
| "category_label CatCode = ''CODE''"
| "category_label CatWorkItem = ''WORK_ITEM''"
| "category_label CatCommunication = ''COMMUNICATION''"
| "category_label CatIdentity = ''IDENTITY''"

lemma provider_roundtrip:
  "provider_parse (provider_name p) = (if p = Unspecified then None else Some p)"
  by (cases p) (simp_all add: provider_parse_def ascii_case_eval)

section \<open>Errors\<close>

datatype core_error =
    CAuth string
  | CRateLimited "64 word"
  | CDuplicate string
  | CValidation string
  | CNormalization string
  | CAclDenied string
  | CStorage string
  | CBus string
  | CObjectStore string
  | CNotFound string
  | CInternal string
  | CDeadLetter string

fun is_client_error :: "core_error \<Rightarrow> bool" where
  "is_client_error (CAuth _) = True"
| "is_client_error (CRateLimited _) = True"
| "is_client_error (CValidation _) = True"
| "is_client_error (CAclDenied _) = True"
| "is_client_error _ = False"

fun is_benign_duplicate :: "core_error \<Rightarrow> bool" where
  "is_benign_duplicate (CDuplicate _) = True"
| "is_benign_duplicate _ = False"

section \<open>Records\<close>

record actor_identity =
  ai_global_user_id :: string
  ai_provider_user_id :: string
  ai_email :: string
  ai_display_name :: string

definition no_actor :: actor_identity where
  "no_actor = \<lparr>ai_global_user_id = [], ai_provider_user_id = [], ai_email = [], ai_display_name = []\<rparr>"

record acl_info =
  al_tenant_id :: string
  al_allowed_group_ids :: "string list"
  al_is_private :: bool
  al_acl_version :: "64 word"

record canonical_event =
  ce_event_id :: string
  ce_tenant_id :: string
  ce_provider :: source_provider
  ce_category :: event_category
  ce_event_type :: string
  ce_event_timestamp :: instant
  ce_ingested_at :: instant
  ce_actor :: actor_identity
  ce_acl :: acl_info
  ce_resource_id :: string
  ce_parent_resource_id :: string
  ce_attributes :: json
  ce_raw_payload_s3_uri :: string
  ce_event_sequence_number :: "64 word"

record acl_revocation =
  ar_event_id :: string
  ar_tenant_id :: string
  ar_global_user_id :: string
  ar_provider_user_id :: string
  ar_provider :: source_provider
  ar_group_id :: string
  ar_change_type :: string
  ar_acl_version :: "64 word"
  ar_timestamp :: instant

record reader =
  rd_tenant_id :: string
  rd_global_user_id :: string
  rd_group_ids :: "string list"

record event_query =
  eq_tenant_id :: string
  eq_categories :: "event_category list"
  eq_providers :: "source_provider list"
  eq_resource_id :: "string option"
  eq_parent_resource_id :: "string option"
  eq_event_type :: "string option"
  eq_since :: "instant option"
  eq_until :: "instant option"
  eq_limit :: nat

definition default_query :: event_query where
  "default_query =
     \<lparr>eq_tenant_id = [], eq_categories = [], eq_providers = [], eq_resource_id = None,
      eq_parent_resource_id = None, eq_event_type = None, eq_since = None, eq_until = None,
      eq_limit = 100\<rparr>"

datatype ingest_status = Accepted | DuplicateDelivery | DeadLettered

record ingest_outcome =
  io_event_id :: string
  io_status :: ingest_status
  io_latency_ms :: "64 word"

datatype bus_topic = EventsRaw | EventsRealtime | EventsBackfill | EventsAcl

fun topic_name :: "bus_topic \<Rightarrow> string" where
  "topic_name EventsRaw = ''events.raw''"
| "topic_name EventsRealtime = ''events.realtime''"
| "topic_name EventsBackfill = ''events.backfill''"
| "topic_name EventsAcl = ''events.acl''"

definition topic_parse :: "string \<Rightarrow> bus_topic option" where
  "topic_parse s =
     (if s = ''events.raw'' then Some EventsRaw
      else if s = ''events.realtime'' then Some EventsRealtime
      else if s = ''events.backfill'' then Some EventsBackfill
      else if s = ''events.acl'' then Some EventsAcl
      else None)"

lemma topic_roundtrip: "topic_parse (topic_name t) = Some t"
  by (cases t) (simp_all add: topic_parse_def)

datatype bus_payload = BusEvent canonical_event | BusAcl acl_revocation

record bus_message =
  bm_topic :: bus_topic
  bm_partition_key :: string
  bm_payload :: bus_payload

record tenant_config =
  tc_tenant_id :: string
  tc_github_webhook_secret :: "string option"
  tc_gitlab_webhook_secret :: "string option"
  tc_jira_webhook_secret :: "string option"
  tc_linear_webhook_secret :: "string option"
  tc_slack_signing_secret :: "string option"
  tc_teams_webhook_secret :: "string option"
  tc_zendesk_webhook_secret :: "string option"
  tc_default_group_ids :: "string list"

fun secret_for :: "tenant_config \<Rightarrow> source_provider \<Rightarrow> string option" where
  "secret_for c Github = tc_github_webhook_secret c"
| "secret_for c Gitlab = tc_gitlab_webhook_secret c"
| "secret_for c Jira = tc_jira_webhook_secret c"
| "secret_for c Linear = tc_linear_webhook_secret c"
| "secret_for c Slack = tc_slack_signing_secret c"
| "secret_for c Teams = tc_teams_webhook_secret c"
| "secret_for c Zendesk = tc_zendesk_webhook_secret c"
| "secret_for c Unspecified = None"

definition resource_id :: "string list \<Rightarrow> string" where
  "resource_id parts = join_with ''/'' parts"

section \<open>Access rule\<close>

definition reader_allows :: "reader \<Rightarrow> bool \<Rightarrow> string list \<Rightarrow> bool" where
  "reader_allows ctx is_private allowed_group_ids =
     (if rd_tenant_id ctx = [] then False
      else if \<not> is_private then True
      else if allowed_group_ids = [] then False
      else list_ex (\<lambda>g. g \<in> set (rd_group_ids ctx)) allowed_group_ids)"

lemma reader_allows_iff:
  "reader_allows ctx p gs \<longleftrightarrow>
     rd_tenant_id ctx \<noteq> [] \<and> (\<not> p \<or> set gs \<inter> set (rd_group_ids ctx) \<noteq> {})"
  by (auto simp: reader_allows_def list_ex_iff)

definition groups_from_payload :: "string list option \<Rightarrow> string list \<Rightarrow> string list" where
  "groups_from_payload explicit defaults =
     (case explicit of Some g \<Rightarrow> if g \<noteq> [] then g else defaults | None \<Rightarrow> defaults)"

section \<open>Durations\<close>

text \<open>\<open>Instant::duration_since\<close> saturates at zero, \<open>as_secs\<close> drops the fraction of a second.\<close>

definition duration_since :: "instant \<Rightarrow> instant \<Rightarrow> int" where
  "duration_since now t = max 0 (now - t)"

definition as_secs :: "int \<Rightarrow> 64 word" where
  "as_secs d = word_of_int (d div 1000000000)"

lemma duration_since_le: "t \<le> t' \<Longrightarrow> duration_since now t' \<le> duration_since now t"
  by (simp add: duration_since_def)

lemma duration_since_later: "now \<le> now' \<Longrightarrow> duration_since now t \<le> duration_since now' t"
  by (simp add: duration_since_def)

end
