(* ===== verification/Telemetry_Edge.thy ===== *)
theory Telemetry_Edge
  imports Telemetry_Model
begin

text \<open>
  The two gates of the ingestion edge that are kept in process memory: the sliding-window rate limiter
  (\<open>rate_limit.rs\<close>) and the deduplication table with its time to live (\<open>dedup.rs\<close>). Time is
  a parameter of every operation. Each gate is compared with a reference that keeps the whole history.
\<close>

section \<open>Rate limiter\<close>

record rate_limiter =
  rl_limit_per_window :: "64 word"
  rl_window :: int
  rl_windows :: "(string, instant list) dashmap"

definition new_rate_limiter :: "64 word \<Rightarrow> rate_limiter" where
  "new_rate_limiter limit = \<lparr>rl_limit_per_window = limit, rl_window = seconds 60, rl_windows = []\<rparr>"

definition with_window :: "64 word \<Rightarrow> int \<Rightarrow> rate_limiter" where
  "with_window limit window = \<lparr>rl_limit_per_window = limit, rl_window = window, rl_windows = []\<rparr>"

definition expire_front :: "int \<Rightarrow> instant \<Rightarrow> instant list \<Rightarrow> instant list" where
  "expire_front window now q = dropWhile (\<lambda>t. window < duration_since now t) q"

definition retry_after :: "int \<Rightarrow> instant \<Rightarrow> instant list \<Rightarrow> 64 word" where
  "retry_after window now q =
     (case q of t # _ \<Rightarrow> max (as_secs (max 0 (window - duration_since now t))) 1 | [] \<Rightarrow> 1)"

definition rate_check ::
  "string \<Rightarrow> instant \<Rightarrow> rate_limiter \<Rightarrow> (core_error + unit) \<times> rate_limiter" where
  "rate_check tenant now rl =
     (let q = expire_front (rl_window rl) now (unwrap_or (dm_get (rl_windows rl) tenant) []) in
      if rl_limit_per_window rl \<le> word_of_nat (length q)
      then (Inl (CRateLimited (retry_after (rl_window rl) now q)),
            rl\<lparr>rl_windows := dm_put tenant q (rl_windows rl)\<rparr>)
      else (Inr (), rl\<lparr>rl_windows := dm_put tenant (q @ [now]) (rl_windows rl)\<rparr>))"

text \<open>A sequence of requests, and the instants at which a tenant was admitted, oldest first.\<close>

fun rate_run :: "(string \<times> instant) list \<Rightarrow> rate_limiter \<Rightarrow> rate_limiter" where
  "rate_run [] rl = rl"
| "rate_run ((t, now) # rs) rl = rate_run rs (snd (rate_check t now rl))"

definition rate_admits :: "string \<Rightarrow> instant \<Rightarrow> rate_limiter \<Rightarrow> bool" where
  "rate_admits tenant now rl \<longleftrightarrow> fst (rate_check tenant now rl) = Inr ()"

fun admitted :: "string \<Rightarrow> (string \<times> instant) list \<Rightarrow> rate_limiter \<Rightarrow> instant list" where
  "admitted k [] rl = []"
| "admitted k ((t, now) # rs) rl =
     (if t = k \<and> rate_admits t now rl then [now] else []) @ admitted k rs (snd (rate_check t now rl))"

lemma rate_run_append: "rate_run (as @ bs) rl = rate_run bs (rate_run as rl)"
  by (induction as rl rule: rate_run.induct) simp_all

lemma admitted_append: "admitted k (as @ bs) rl = admitted k as rl @ admitted k bs (rate_run as rl)"
  by (induction as rl rule: rate_run.induct) simp_all

lemma rate_check_config [simp]:
  "rl_window (snd (rate_check t now rl)) = rl_window rl"
  "rl_limit_per_window (snd (rate_check t now rl)) = rl_limit_per_window rl"
  by (simp_all add: rate_check_def Let_def)

lemma rate_run_config [simp]:
  "rl_window (rate_run rs rl) = rl_window rl" "rl_limit_per_window (rate_run rs rl) = rl_limit_per_window rl"
  by (induction rs rl rule: rate_run.induct) simp_all

subsection \<open>The queue of a tenant\<close>

definition tenant_queue :: "string \<Rightarrow> rate_limiter \<Rightarrow> instant list" where
  "tenant_queue k rl = unwrap_or (dm_get (rl_windows rl) k) []"

lemma tenant_queue_check:
  "tenant_queue k (snd (rate_check t now rl)) =
     (if t = k then expire_front (rl_window rl) now (tenant_queue k rl) @ (if rate_admits t now rl then [now] else [])
      else tenant_queue k rl)"
  by (auto simp: tenant_queue_def rate_check_def rate_admits_def Let_def)

lemma rate_admits_iff:
  assumes "length (tenant_queue k rl) < 2 ^ 64"
  shows "rate_admits k now rl \<longleftrightarrow>
    length (expire_front (rl_window rl) now (tenant_queue k rl)) < unat (rl_limit_per_window rl)"
proof -
  let ?q = "expire_front (rl_window rl) now (tenant_queue k rl)"
  have "length ?q < 2 ^ 64"
    using assms length_dropWhile_le [of "\<lambda>t. rl_window rl < duration_since now t" "tenant_queue k rl"]
    unfolding expire_front_def by simp
  then have "unat (word_of_nat (length ?q) :: 64 word) = length ?q"
    by (simp add: unat_of_nat take_bit_nat_eq_self)
  then show ?thesis
    unfolding rate_admits_def rate_check_def Let_def tenant_queue_def by (simp add: word_le_nat_alt)
qed

text \<open>
  The invariant: the queue of a tenant is a suffix of its admission history that is no longer than the
  limit, and what was dropped lies more than a window before some instant already seen.
\<close>

definition queue_inv :: "rate_limiter \<Rightarrow> instant \<Rightarrow> instant list \<Rightarrow> instant list \<Rightarrow> bool" where
  "queue_inv rl now hist q \<longleftrightarrow>
     sorted hist \<and> (\<forall>x \<in> set hist. x \<le> now) \<and> length q \<le> unat (rl_limit_per_window rl) \<and>
     (\<exists>old. hist = old @ q \<and> (\<forall>x \<in> set old. rl_window rl < now - x))"

lemma queue_invD:
  assumes "queue_inv rl now hist q"
  shows "sorted hist" "length q \<le> unat (rl_limit_per_window rl)"
    "\<forall>x \<in> set hist. x \<le> now"
  using assms by (auto simp: queue_inv_def)

lemma queue_inv_later: "queue_inv rl now hist q \<Longrightarrow> now \<le> now' \<Longrightarrow> queue_inv rl now' hist q"
  unfolding queue_inv_def by fastforce

lemma queue_inv_expire:
  assumes "queue_inv rl now hist q" "0 \<le> rl_window rl"
  shows "queue_inv rl now hist (expire_front (rl_window rl) now q)"
proof -
  obtain old where h: "hist = old @ q" "\<forall>x \<in> set old. rl_window rl < now - x"
    using assms by (auto simp: queue_inv_def)
  let ?P = "\<lambda>t. rl_window rl < duration_since now t"
  have "hist = (old @ takeWhile ?P q) @ dropWhile ?P q" using h by simp
  moreover have "rl_window rl < now - x" if "x \<in> set (takeWhile ?P q)" for x
    using set_takeWhileD [OF that] assms(2) by (auto simp: duration_since_def split: if_splits)
  ultimately have "\<exists>old. hist = old @ dropWhile ?P q \<and> (\<forall>x \<in> set old. rl_window rl < now - x)"
    using h(2) by (intro exI [of _ "old @ takeWhile ?P q"]) auto
  moreover have "length (dropWhile ?P q) \<le> unat (rl_limit_per_window rl)"
    using queue_invD(2) [OF assms(1)] length_dropWhile_le [of ?P q] by simp
  ultimately show ?thesis
    using queue_invD(1,3) [OF assms(1)] unfolding queue_inv_def expire_front_def by simp
qed

lemma queue_inv_admit:
  assumes "queue_inv rl now hist q" "length q < unat (rl_limit_per_window rl)"
  shows "queue_inv rl now (hist @ [now]) (q @ [now])"
  using assms unfolding queue_inv_def by (auto simp: sorted_append)

lemma expired_queue:
  assumes "queue_inv rl now hist q" "0 \<le> rl_window rl"
  shows "expire_front (rl_window rl) now q = filter (\<lambda>x. now - rl_window rl \<le> x) hist"
proof -
  obtain old where h: "hist = old @ q" "\<forall>x \<in> set old. rl_window rl < now - x"
    and s: "sorted q" and le: "\<forall>x \<in> set q. x \<le> now"
    using assms by (auto simp: queue_inv_def sorted_append)
  have "filter (\<lambda>x. now - rl_window rl \<le> x) old = []" using h(2) by (fastforce simp: filter_empty_conv)
  moreover have "expire_front (rl_window rl) now q = filter (\<lambda>x. now - rl_window rl \<le> x) q"
    using s le
  proof (induction q)
    case (Cons x q)
    then have d: "duration_since now x = now - x" by (simp add: duration_since_def)
    show ?case
    proof (cases "rl_window rl < now - x")
      case True
      then show ?thesis using Cons d by (simp add: expire_front_def)
    next
      case False
      then have "\<forall>y \<in> set q. now - rl_window rl \<le> y" using Cons.prems by auto
      then show ?thesis using False d by (simp add: expire_front_def)
    qed
  qed (simp add: expire_front_def)
  ultimately show ?thesis using h(1) by simp
qed

text \<open>Requests in the order of a monotonic clock.\<close>

definition clocked :: "(string \<times> instant) list \<Rightarrow> bool" where
  "clocked rs \<longleftrightarrow> sorted (map snd rs)"

lemma clocked_snoc: "clocked (rs @ [(t, now)]) \<longleftrightarrow> clocked rs \<and> (\<forall>r \<in> set rs. snd r \<le> now)"
  by (auto simp: clocked_def sorted_append)

definition last_tick :: "(string \<times> instant) list \<Rightarrow> instant \<Rightarrow> instant" where
  "last_tick rs d = (if rs = [] then d else snd (last rs))"

lemma rate_inv_step:
  assumes q: "queue_inv rl now (hist) (tenant_queue k rl)" and w: "0 \<le> rl_window rl"
  shows "queue_inv rl now (hist @ (if t = k \<and> rate_admits t now rl then [now] else []))
    (tenant_queue k (snd (rate_check t now rl)))"
proof (cases "t = k")
  case True
  let ?q = "expire_front (rl_window rl) now (tenant_queue k rl)"
  have e: "queue_inv rl now hist ?q" by (rule queue_inv_expire [OF q w])
  have "length (tenant_queue k rl) < 2 ^ 64"
    using queue_invD(2) [OF q] unsigned_less [of "rl_limit_per_window rl", where 'a = nat] by simp
  note adm = rate_admits_iff [OF this, of now]
  show ?thesis
  proof (cases "rate_admits k now rl")
    case True
    then show ?thesis using queue_inv_admit [OF e] adm \<open>t = k\<close> by (simp add: tenant_queue_check)
  qed (simp add: e tenant_queue_check \<open>t = k\<close>)
qed (simp add: q tenant_queue_check)

lemma queue_inv_config:
  "rl_window rl = rl_window rl' \<Longrightarrow> rl_limit_per_window rl = rl_limit_per_window rl' \<Longrightarrow>
   queue_inv rl now h q = queue_inv rl' now h q"
  by (simp add: queue_inv_def)

lemma rate_inv:
  assumes "clocked rs" "\<forall>r \<in> set rs. snd r \<le> now" "rl_windows rl = []" "0 \<le> rl_window rl"
  shows "queue_inv rl now (admitted k rs rl) (tenant_queue k (rate_run rs rl))"
  using assms(1,2)
proof (induction rs arbitrary: now rule: rev_induct)
  case Nil
  then show ?case using assms by (simp add: queue_inv_def tenant_queue_def)
next
  case (snoc r rs)
  obtain t n where r: "r = (t, n)" by (cases r)
  let ?rl = "rate_run rs rl"
  have "queue_inv rl n (admitted k rs rl) (tenant_queue k ?rl)"
    using snoc r by (simp add: clocked_snoc)
  then have "queue_inv ?rl n (admitted k rs rl) (tenant_queue k ?rl)"
    by (simp add: queue_inv_config [of ?rl rl])
  from rate_inv_step [OF this, of t] assms(4)
  have "queue_inv ?rl n (admitted k (rs @ [r]) rl) (tenant_queue k (rate_run (rs @ [r]) rl))"
    by (simp add: r rate_run_append admitted_append)
  then have "queue_inv rl n (admitted k (rs @ [r]) rl) (tenant_queue k (rate_run (rs @ [r]) rl))"
    by (simp add: queue_inv_config [of ?rl rl])
  then show ?case using queue_inv_later snoc.prems r by auto
qed

subsection \<open>What the limiter promises\<close>

lemma filter_length_mono:
  "(\<And>x. x \<in> set xs \<Longrightarrow> P x \<Longrightarrow> Q x) \<Longrightarrow> length (filter P xs) \<le> length (filter Q xs)"
  by (induction xs) auto

lemma retry_after_bounds:
  assumes "0 \<le> window" "window < 2 ^ 64"
  shows "1 \<le> unat (retry_after window now q)" "int (unat (retry_after window now q)) \<le> max 1 (window div 1000000000)"
proof -
  have "int (unat (as_secs d)) \<le> window div 1000000000" if "0 \<le> d" "d \<le> window" for d
  proof -
    have "0 \<le> d div 1000000000" "d div 1000000000 < 2 ^ 64" "d div 1000000000 \<le> window div 1000000000"
      using that assms by (auto simp: zdiv_mono1)
    then show ?thesis by (simp add: as_secs_def unsigned_of_int take_bit_int_eq_self)
  qed
  from this [of "max 0 (window - duration_since now (hd q))"] assms(1)
  show "int (unat (retry_after window now q)) \<le> max 1 (window div 1000000000)"
    by (cases q) (auto simp: retry_after_def max_def duration_since_def split: if_splits)
  show "1 \<le> unat (retry_after window now q)"
    by (cases q) (auto simp: retry_after_def max_def word_le_nat_alt)
qed

text \<open>
  The number of seconds handed out is rounded down, and an instant exactly one window old still counts:
  a caller who waits just that long is refused again.
\<close>

lemma retry_after_too_short:
  assumes "fst (rate_check k now rl) = Inl (CRateLimited s)" "1 \<le> unat s" "rl_window rl < 2 ^ 64"
    and "expire_front (rl_window rl) now (tenant_queue k rl) = t # ts" "t \<le> now"
    and "seconds 1 \<le> rl_window rl - (now - t)"
  shows "\<not> rate_admits k (now + seconds (int (unat s))) (snd (rate_check k now rl))"
proof -
  let ?d = "rl_window rl - (now - t)"
  have d: "duration_since now t = now - t" using assms by (simp add: duration_since_def)
  have pos: "1 \<le> ?d div 1000000000"
    using assms(6) by (simp add: seconds_def zdiv_mono1 [of 1000000000 ?d 1000000000, simplified])
  have small: "?d div 1000000000 < 2 ^ 64"
    using assms(3,5,6) by (simp add: seconds_def)
  have as: "as_secs ?d = word_of_int (?d div 1000000000)" by (simp add: as_secs_def)
  have n: "int (unat (as_secs ?d)) = ?d div 1000000000"
    using pos small by (simp add: as_secs_def unsigned_of_int take_bit_int_eq_self)
  then have "int 1 \<le> int (unat (as_secs ?d))" using pos by simp
  then have "(1 :: 64 word) \<le> as_secs ?d" by (simp only: word_le_nat_alt zle_int unsigned_1)
  then have "s = as_secs ?d"
    using assms(1,4,6) d by (auto simp: rate_check_def Let_def tenant_queue_def retry_after_def max_def seconds_def split: if_splits)
  have floor: "?d div 1000000000 * 1000000000 \<le> ?d"
    using minus_mod_eq_div_mult [of ?d 1000000000] pos_mod_sign [of 1000000000 ?d] by simp
  have "s = as_secs ?d" by fact
  then have keep: "now + seconds (int (unat s)) - t \<le> rl_window rl"
    using n floor by (simp add: seconds_def)
  have full: "rl_limit_per_window rl \<le> word_of_nat (length (t # ts))"
    using assms(1,4) by (auto simp: rate_check_def Let_def tenant_queue_def split: if_splits)
  have q: "tenant_queue k (snd (rate_check k now rl)) = t # ts"
    using assms(1,4) by (simp add: tenant_queue_check rate_admits_def)
  have "expire_front (rl_window rl) (now + seconds (int (unat s))) (t # ts) = t # ts"
    using keep assms(5,6) by (auto simp: expire_front_def duration_since_def seconds_def max_def)
  then show ?thesis
    using full q unfolding rate_admits_def by (simp add: rate_check_def [of k "now + _"] Let_def tenant_queue_def)
qed

lemma rate_decision:
  fixes limit :: "64 word"
  assumes "clocked (rs @ [(k, now)])" "0 \<le> window"
  defines "rl \<equiv> with_window limit window"
  shows "rate_admits k now (rate_run rs rl) \<longleftrightarrow>
    length (filter (\<lambda>x. now - window \<le> x) (admitted k rs rl)) < unat limit"
proof -
  have w: "rl_windows rl = []" "rl_window rl = window" "rl_limit_per_window rl = limit"
    by (simp_all add: rl_def with_window_def)
  have c: "clocked rs" "\<forall>r \<in> set rs. snd r \<le> now" using assms(1) by (simp_all add: clocked_snoc)
  have i: "queue_inv rl now (admitted k rs rl) (tenant_queue k (rate_run rs rl))"
    using rate_inv [OF c w(1)] w assms(2) by simp
  have "length (tenant_queue k (rate_run rs rl)) < 2 ^ 64"
    using queue_invD(2) [OF i] unsigned_less [of limit, where 'a = nat] w by simp
  from rate_admits_iff [OF this, of now] expired_queue [OF i] assms(2) w
  show ?thesis by simp
qed

text \<open>
  The limiter decides exactly as a full log of admissions would: the next request of a tenant is
  admitted when fewer than the limit of its requests were admitted in the window that ends now, whatever
  other tenants sent, and a refusal asks for a wait between one second and the length of the window.
\<close>

lemma rate_limiter_is_sliding_window:
  fixes limit :: "64 word"
  assumes "clocked (rs @ [(k, now)])" "0 \<le> window" "window < 2 ^ 64"
  defines "recent \<equiv> filter (\<lambda>x. now - window \<le> x) (admitted k rs (with_window limit window))"
  shows "if length recent < unat limit
    then fst (rate_check k now (rate_run rs (with_window limit window))) = Inr ()
    else \<exists>s. fst (rate_check k now (rate_run rs (with_window limit window))) = Inl (CRateLimited s) \<and>
      1 \<le> unat s \<and> int (unat s) \<le> max 1 (window div 1000000000)"
proof -
  let ?rl = "rate_run rs (with_window limit window)"
  have "rate_admits k now ?rl \<longleftrightarrow> length recent < unat limit"
    using rate_decision [OF assms(1,2)] by (simp add: recent_def)
  moreover have "\<exists>q. fst (rate_check k now ?rl) = Inl (CRateLimited (retry_after window now q))"
    if "\<not> rate_admits k now ?rl"
    using that by (auto simp: rate_admits_def rate_check_def Let_def with_window_def split: if_splits)
  ultimately show ?thesis
    using retry_after_bounds [OF assms(2,3), of now] by (auto simp: rate_admits_def)
qed

lemma rate_limiter_is_sliding_window_witness:
  "(\<exists>s. fst (rate_check ''t1'' (seconds 2) (rate_run [(''t1'', 0), (''t2'', 0), (''t1'', seconds 1)]
       (with_window 2 (seconds 60)))) = Inl (CRateLimited s) \<and> 1 \<le> unat s \<and>
     int (unat s) \<le> max 1 (seconds 60 div 1000000000)) \<and>
   fst (rate_check ''t2'' (seconds 2) (rate_run [(''t1'', 0), (''t2'', 0), (''t1'', seconds 1)]
     (with_window 2 (seconds 60)))) = Inr ()"
proof -
  let ?rs = "[(''t1'', 0), (''t2'', 0), (''t1'', seconds 1)]"
  have c: "clocked (?rs @ [(k, seconds 2)])" for k by (simp add: clocked_def seconds_def)
  have w: "0 \<le> seconds 60" "seconds 60 < 2 ^ 64" by (simp_all add: seconds_def)
  have a: "admitted ''t1'' ?rs (with_window 2 (seconds 60)) = [0, seconds 1]"
    "admitted ''t2'' ?rs (with_window 2 (seconds 60)) = [0]"
    by (simp_all add: rate_admits_def rate_check_def with_window_def expire_front_def Let_def
        duration_since_def seconds_def word_le_nat_alt)
  show ?thesis
    using rate_limiter_is_sliding_window [OF c [of "''t1''"] w, of 2]
      rate_limiter_is_sliding_window [OF c [of "''t2''"] w, of 2]
    unfolding a by (simp add: seconds_def)
qed

text \<open>
  C17. In no interval as long as the window are more requests of a tenant admitted than the limit,
  whatever the requests of all tenants and however the interval lies.
\<close>

theorem rate_limit_never_exceeded:
  fixes limit :: "64 word"
  assumes "clocked rs" "0 \<le> window"
  shows "length (filter (\<lambda>x. a \<le> x \<and> x \<le> a + window) (admitted k rs (with_window limit window)))
    \<le> unat limit"
  using assms(1)
proof (induction rs rule: rev_induct)
  case (snoc r rs)
  let ?rl = "with_window limit window"
  let ?in = "filter (\<lambda>x. a \<le> x \<and> x \<le> a + window)"
  obtain t now where r: "r = (t, now)" by (cases r)
  have IH: "length (?in (admitted k rs ?rl)) \<le> unat limit"
    using snoc r by (simp add: clocked_snoc)
  show ?case
  proof (cases "t = k \<and> rate_admits k now (rate_run rs ?rl) \<and> a \<le> now \<and> now \<le> a + window")
    case True
    have "length (?in (admitted k rs ?rl)) \<le> length (filter (\<lambda>x. now - window \<le> x) (admitted k rs ?rl))"
      using True by (intro filter_length_mono) auto
    also have "... < unat limit"
      using rate_decision [of rs k now window limit] snoc.prems True r assms(2) by simp
    finally show ?thesis using True r by (simp add: admitted_append)
  next
    case False
    then have "length (?in (admitted k (rs @ [r]) ?rl)) = length (?in (admitted k rs ?rl))"
      using r by (auto simp: admitted_append)
    with IH show ?thesis by simp
  qed
qed simp

theorem rate_limit_never_exceeded_witness:
  "length (filter (\<lambda>x. 0 \<le> x \<and> x \<le> 0 + seconds 60)
     (admitted ''t1'' [(''t1'', 0), (''t1'', seconds 1), (''t1'', seconds 60)] (with_window 2 (seconds 60)))) \<le> 2"
  using rate_limit_never_exceeded
    [where rs = "[(''t1'', 0), (''t1'', seconds 1), (''t1'', seconds 60)]" and window = "seconds 60" and a = 0
       and limit = 2 and k = "''t1''"]
  unfolding clocked_def by (simp only: seconds_def) simp

section \<open>Deduplication\<close>

record dedup =
  dp_ttl :: int
  dp_entries :: "(string, instant) dashmap"
  dp_order :: "(string \<times> instant) list"

definition new_dedup :: "int \<Rightarrow> dedup" where
  "new_dedup ttl_secs = \<lparr>dp_ttl = seconds ttl_secs, dp_entries = [], dp_order = []\<rparr>"

text \<open>The loop of \<open>gc\<close> pops the expired front and forgets its key when the key has expired too.\<close>

fun gc_loop ::
  "int \<Rightarrow> instant \<Rightarrow> (string \<times> instant) list \<Rightarrow> (string, instant) dashmap \<Rightarrow>
   (string, instant) dashmap \<times> (string \<times> instant) list" where
  "gc_loop ttl now [] m = (m, [])"
| "gc_loop ttl now ((k, inserted) # order) m =
     (if duration_since now inserted < ttl then (m, (k, inserted) # order)
      else gc_loop ttl now order
        (case dm_get m k of
           Some e \<Rightarrow> if ttl \<le> duration_since now e then dm_del k m else m
         | None \<Rightarrow> m))"

definition gc :: "instant \<Rightarrow> dedup \<Rightarrow> dedup" where
  "gc now d =
     (let (m, order) = gc_loop (dp_ttl d) now (dp_order d) (dp_entries d)
      in d\<lparr>dp_entries := m, dp_order := order\<rparr>)"

definition try_claim :: "string \<Rightarrow> instant \<Rightarrow> instant \<Rightarrow> dedup \<Rightarrow> bool \<times> dedup" where
  "try_claim k gc_now now d0 =
     (let d = gc gc_now d0;
          claimed = (True, d\<lparr>dp_entries := dm_put k now (dp_entries d), dp_order := dp_order d @ [(k, now)]\<rparr>)
      in case dm_get (dp_entries d) k of
           Some e \<Rightarrow> if duration_since now e < dp_ttl d then (False, d) else claimed
         | None \<Rightarrow> claimed)"

definition release :: "string \<Rightarrow> dedup \<Rightarrow> dedup" where
  "release k d = d\<lparr>dp_entries := dm_del k (dp_entries d)\<rparr>"

definition len_approx :: "dedup \<Rightarrow> nat" where
  "len_approx d = length (dp_entries d)"

definition claim_or_duplicate :: "string \<Rightarrow> instant \<Rightarrow> instant \<Rightarrow> dedup \<Rightarrow> (core_error + unit) \<times> dedup"
where
  "claim_or_duplicate k gc_now now d =
     (let (first, d') = try_claim k gc_now now d
      in (if first then Inr () else Inl (CDuplicate k), d'))"

text \<open>
  A history of claims (with the clock readings of the collection and of the claim) and releases, and the
  table without collection that it is compared with: the instant of the last successful claim of a key
  that was not released.
\<close>

datatype dedup_op = Claim string instant instant | Release string

fun dedup_step :: "dedup_op \<Rightarrow> dedup \<Rightarrow> dedup" where
  "dedup_step (Claim k g now) d = snd (try_claim k g now d)"
| "dedup_step (Release k) d = release k d"

fun table_step :: "int \<Rightarrow> dedup_op \<Rightarrow> (string \<rightharpoonup> instant) \<Rightarrow> (string \<rightharpoonup> instant)" where
  "table_step ttl (Claim k g now) m =
     (case m k of Some t \<Rightarrow> if now - t < ttl then m else m(k \<mapsto> now) | None \<Rightarrow> m(k \<mapsto> now))"
| "table_step ttl (Release k) m = m(k := None)"

fun ticks :: "dedup_op \<Rightarrow> instant list" where
  "ticks (Claim k g now) = [g, now]"
| "ticks (Release k) = []"

definition ordered_ops :: "dedup_op list \<Rightarrow> bool" where
  "ordered_ops ops \<longleftrightarrow> sorted (concat (map ticks ops))"

lemma ordered_ops_snoc:
  "ordered_ops (ops @ [Claim k g now]) \<Longrightarrow> ordered_ops ops \<and> g \<le> now \<and> (\<forall>x \<in> set (concat (map ticks ops)). x \<le> g)"
  by (auto simp: ordered_ops_def sorted_append)

lemma gc_loop_get:
  "dm_get (fst (gc_loop ttl now order m)) k = dm_get m k \<or>
   dm_get (fst (gc_loop ttl now order m)) k = None \<and> (\<exists>e. dm_get m k = Some e \<and> ttl \<le> duration_since now e)"
proof (induction ttl now order m rule: gc_loop.induct)
  case (2 ttl now key inserted order m)
  show ?case
  proof (cases "duration_since now inserted < ttl")
    case False
    define m' where "m' = (case dm_get m key of
      Some e \<Rightarrow> if ttl \<le> duration_since now e then dm_del key m else m | None \<Rightarrow> m)"
    have "dm_get m' k = dm_get m k \<or> dm_get m' k = None \<and> (\<exists>e. dm_get m k = Some e \<and> ttl \<le> duration_since now e)"
      by (auto simp: m'_def split: option.split)
    with "2.IH" [OF False, folded m'_def] False show ?thesis
      by (simp flip: m'_def) metis
  qed simp
qed simp

lemma gc_config [simp]: "dp_ttl (gc now d) = dp_ttl d"
  by (simp add: gc_def split: prod.split)

lemma gc_get:
  "dm_get (dp_entries (gc now d)) k = dm_get (dp_entries d) k \<or>
   dm_get (dp_entries (gc now d)) k = None \<and>
     (\<exists>e. dm_get (dp_entries d) k = Some e \<and> dp_ttl d \<le> duration_since now e)"
  using gc_loop_get [of "dp_ttl d" now "dp_order d" "dp_entries d" k] by (simp add: gc_def case_prod_beta)

lemma dedup_step_config [simp]: "dp_ttl (dedup_step op d) = dp_ttl d"
  by (cases op) (simp_all add: try_claim_def release_def Let_def split: option.split)

lemma dedup_run_config [simp]: "dp_ttl (fold dedup_step ops d) = dp_ttl d"
  by (induction ops arbitrary: d) simp_all

text \<open>The table kept by the program approximates the reference: what it has lost has expired.\<close>

definition approx_at :: "int \<Rightarrow> instant \<Rightarrow> instant option \<Rightarrow> instant option \<Rightarrow> bool" where
  "approx_at ttl now kept claimed \<longleftrightarrow>
     (case claimed of
        None \<Rightarrow> kept = None
      | Some t \<Rightarrow> t \<le> now \<and> (kept = Some t \<or> kept = None \<and> ttl \<le> now - t))"

definition approximates :: "instant \<Rightarrow> dedup \<Rightarrow> (string \<rightharpoonup> instant) \<Rightarrow> bool" where
  "approximates now d m \<longleftrightarrow> (\<forall>k. approx_at (dp_ttl d) now (dm_get (dp_entries d) k) (m k))"

lemma approx_at_later: "approx_at ttl now e r \<Longrightarrow> now \<le> now' \<Longrightarrow> approx_at ttl now' e r"
  by (auto simp: approx_at_def split: option.splits)

lemma approx_at_simps [simp]: "approx_at ttl now None None" "approx_at ttl now (Some now) (Some now)"
  by (simp_all add: approx_at_def)

lemma approximates_later: "approximates now d m \<Longrightarrow> now \<le> now' \<Longrightarrow> approximates now' d m"
  using approx_at_later by (fastforce simp: approximates_def)

lemma approximates_gc:
  assumes "approximates now d m"
  shows "approximates now (gc now d) m"
  unfolding approximates_def
proof
  fix k
  show "approx_at (dp_ttl (gc now d)) now (dm_get (dp_entries (gc now d)) k) (m k)"
    using assms [unfolded approximates_def, rule_format, of k] gc_get [of now d k]
    by (auto simp: approx_at_def duration_since_def split: option.splits)
qed

lemma approximates_claim:
  assumes "approximates g d m" "g \<le> now" "0 < dp_ttl d"
  shows "fst (try_claim k g now d) \<longleftrightarrow> (case m k of Some t \<Rightarrow> dp_ttl d \<le> now - t | None \<Rightarrow> True)"
    and "approximates now (snd (try_claim k g now d)) (table_step (dp_ttl d) (Claim k g now) m)"
proof -
  let ?d = "gc g d"
  have a: "approximates now ?d m"
    using approximates_later [OF approximates_gc [OF assms(1)] assms(2)] .
  have k: "approx_at (dp_ttl d) now (dm_get (dp_entries ?d) k) (m k)"
    using a [unfolded approximates_def, rule_format, of k] unfolding gc_config .
  show res: "fst (try_claim k g now d) \<longleftrightarrow> (case m k of Some t \<Rightarrow> dp_ttl d \<le> now - t | None \<Rightarrow> True)"
    using k by (auto simp: approx_at_def try_claim_def Let_def duration_since_def split: option.splits)
  have claimed: "approximates now (?d\<lparr>dp_entries := dm_put k now (dp_entries ?d), dp_order := ord\<rparr>) (m(k \<mapsto> now))" for ord
    using a by (simp add: approximates_def)
  show "approximates now (snd (try_claim k g now d)) (table_step (dp_ttl d) (Claim k g now) m)"
    using k a claimed assms(3)
    by (auto simp: approx_at_def try_claim_def Let_def duration_since_def split: option.splits)
qed

lemma approximates_release: "approximates now d m \<Longrightarrow> approximates now (release k d) (m(k := None))"
  by (simp add: approximates_def release_def)

lemma dedup_refines:
  assumes "ordered_ops ops" "\<forall>x \<in> set (concat (map ticks ops)). x \<le> now" "0 < ttl"
  shows "approximates now (fold dedup_step ops (new_dedup ttl)) (fold (table_step (seconds ttl)) ops (\<lambda>_. None))"
  using assms(1,2)
proof (induction ops arbitrary: now rule: rev_induct)
  case Nil
  then show ?case by (simp add: approximates_def new_dedup_def)
next
  case (snoc op ops)
  show ?case
  proof (cases op)
    case (Claim k g t)
    have o: "ordered_ops ops" "g \<le> t" "\<forall>x \<in> set (concat (map ticks ops)). x \<le> g" "t \<le> now"
      using ordered_ops_snoc snoc.prems Claim by auto
    have "0 < dp_ttl (fold dedup_step ops (new_dedup ttl))"
      using assms(3) by (simp add: new_dedup_def seconds_def)
    from approximates_claim(2) [OF snoc.IH [OF o(1,3)] o(2) this, of k] approximates_later [OF _ o(4)]
    show ?thesis by (simp add: Claim new_dedup_def del: table_step.simps)
  next
    case (Release k)
    then show ?thesis using snoc approximates_release by (simp add: ordered_ops_def fun_upd_def)
  qed
qed

text \<open>
  C16. The collection of expired claims is invisible: whatever claims and releases came before, a claim
  succeeds exactly when the key was never claimed, was released since, or its last successful claim is
  at least the time to live in the past.
\<close>

theorem claims_are_exclusive:
  assumes "ordered_ops (ops @ [Claim k g now])" "0 < ttl"
  shows "fst (try_claim k g now (fold dedup_step ops (new_dedup ttl))) \<longleftrightarrow>
    (case fold (table_step (seconds ttl)) ops (\<lambda>_. None) k of
       None \<Rightarrow> True | Some t \<Rightarrow> seconds ttl \<le> now - t)"
proof -
  let ?d = "fold dedup_step ops (new_dedup ttl)"
  have ttl: "dp_ttl ?d = seconds ttl" "0 < seconds ttl"
    using assms(2) by (simp_all add: new_dedup_def seconds_def)
  have o: "ordered_ops ops" "g \<le> now" "\<forall>x \<in> set (concat (map ticks ops)). x \<le> g"
    using ordered_ops_snoc [OF assms(1)] by auto
  show ?thesis
    using approximates_claim(1) [OF dedup_refines [OF o(1,3) assms(2)] o(2), of k] ttl
    by (simp split: option.splits)
qed

theorem claims_are_exclusive_witness:
  "\<not> fst (try_claim ''e'' (seconds 5) (seconds 5)
       (fold dedup_step [Claim ''e'' 0 (seconds 1), Claim ''f'' (seconds 2) (seconds 2)] (new_dedup 60))) \<and>
   fst (try_claim ''e'' (seconds 5) (seconds 5)
     (fold dedup_step [Claim ''e'' 0 (seconds 1), Release ''e''] (new_dedup 60)))"
  using claims_are_exclusive [where ops = "[Claim ''e'' 0 (seconds 1), Claim ''f'' (seconds 2) (seconds 2)]"
      and k = "''e''" and g = "seconds 5" and now = "seconds 5" and ttl = 60]
    claims_are_exclusive [where ops = "[Claim ''e'' 0 (seconds 1), Release ''e'']"
      and k = "''e''" and g = "seconds 5" and now = "seconds 5" and ttl = 60]
  by (simp add: ordered_ops_def seconds_def)

text \<open>A retry after a release, and a second delivery within the time to live.\<close>

lemma claim_after_release: "fst (try_claim k g now (release k d))"
  using gc_get [of g "release k d" k] by (auto simp: try_claim_def Let_def release_def split: option.split)

end
