(* ===== verification/Telemetry_Auth.thy ===== *)
theory Telemetry_Auth
  imports Telemetry_Model
begin

text \<open>
  Authentication of webhooks (\<open>telemetry-core/src/auth.rs\<close>), the secrets of a tenant with the
  overlay from a secrets file (\<open>secrets.rs\<close>) and the tenant registry of \<open>pipeline.rs\<close>.
  \<open>hmac key message\<close> stands for the hexadecimal HMAC-SHA256 digest; comparing in constant time is
  comparing for equality.
\<close>

section \<open>Lossy decoding\<close>

text \<open>\<open>String::from_utf8_lossy\<close>: every maximal ill-formed part becomes the replacement character.\<close>

definition replacement :: "nat list" where "replacement = [239, 191, 189]"

fun lossy_nat :: "nat list \<Rightarrow> nat list" where
  "lossy_nat [] = []"
| "lossy_nat (a # bs) =
     (let cont = (\<lambda>b. 128 \<le> b \<and> b < (192::nat)) in
      if a < 128 then a # lossy_nat bs
      else if 194 \<le> a \<and> a < 224 then
        (case bs of
           b # cs \<Rightarrow> if cont b then a # b # lossy_nat cs else replacement @ lossy_nat bs
         | [] \<Rightarrow> replacement)
      else if 224 \<le> a \<and> a < 240 then
        (case bs of
           b # cs \<Rightarrow>
             if cont b \<and> (a = 224 \<longrightarrow> 160 \<le> b) \<and> (a = 237 \<longrightarrow> b < 160) then
               (case cs of
                  c # ds \<Rightarrow> if cont c then a # b # c # lossy_nat ds else replacement @ lossy_nat cs
                | [] \<Rightarrow> replacement)
             else replacement @ lossy_nat bs
         | [] \<Rightarrow> replacement)
      else if 240 \<le> a \<and> a < 245 then
        (case bs of
           b # cs \<Rightarrow>
             if cont b \<and> (a = 240 \<longrightarrow> 144 \<le> b) \<and> (a = 244 \<longrightarrow> b < 144) then
               (case cs of
                  c # ds \<Rightarrow>
                    if cont c then
                      (case ds of
                         d # es \<Rightarrow> if cont d then a # b # c # d # lossy_nat es else replacement @ lossy_nat ds
                       | [] \<Rightarrow> replacement)
                    else replacement @ lossy_nat cs
                | [] \<Rightarrow> replacement)
             else replacement @ lossy_nat bs
         | [] \<Rightarrow> replacement)
      else replacement @ lossy_nat bs)"

definition from_utf8_lossy :: "string \<Rightarrow> string" where
  "from_utf8_lossy s = map char_of (lossy_nat (map of_char s))"

section \<open>Signatures\<close>

record webhook_headers =
  wh_signature_256 :: "string option"
  wh_signature :: "string option"
  wh_gitlab_token :: "string option"
  wh_shared_secret :: "string option"
  wh_linear_signature :: "string option"
  wh_slack_signature :: "string option"
  wh_slack_timestamp :: "string option"
  wh_delivery_id :: "string option"
  wh_event_name :: "string option"

definition no_headers :: webhook_headers where
  "no_headers =
     \<lparr>wh_signature_256 = None, wh_signature = None, wh_gitlab_token = None, wh_shared_secret = None,
      wh_linear_signature = None, wh_slack_signature = None, wh_slack_timestamp = None,
      wh_delivery_id = None, wh_event_name = None\<rparr>"

definition constant_time_hex_eq :: "string \<Rightarrow> string \<Rightarrow> bool" where
  "constant_time_hex_eq a b = (length a = length b \<and> a = b)"

definition verify_github_style ::
  "(string \<Rightarrow> string \<Rightarrow> string) \<Rightarrow> string \<Rightarrow> string \<Rightarrow> string \<Rightarrow> core_error + unit" where
  "verify_github_style hmac secret body sig =
     (let hex_part = unwrap_or (or_else (strip_prefix sig ''sha256='') (strip_prefix sig ''sha1='')) sig
      in if starts_with sig ''sha1=''
         then Inl (CAuth ''sha1 signatures are not accepted; use sha256'')
         else if \<not> constant_time_hex_eq (hmac secret body) hex_part
         then Inl (CAuth ''invalid HMAC signature'')
         else Inr ())"

definition verify_github ::
  "(string \<Rightarrow> string \<Rightarrow> string) \<Rightarrow> string \<Rightarrow> string \<Rightarrow> string option \<Rightarrow> core_error + unit" where
  "verify_github hmac secret body sig =
     (case sig of
        None \<Rightarrow> Inl (CAuth ''missing X-Hub-Signature-256'')
      | Some s \<Rightarrow> verify_github_style hmac secret body s)"

definition verify_shared_token :: "string \<Rightarrow> string option \<Rightarrow> core_error + unit" where
  "verify_shared_token secret provided =
     (case provided of
        None \<Rightarrow> Inl (CAuth ''missing shared secret header'')
      | Some p \<Rightarrow> if secret \<noteq> p then Inl (CAuth ''invalid shared secret'') else Inr ())"

text \<open>
  The age of a Slack request in 64-bit arithmetic: \<open>(now - ts).abs()\<close> wraps, and the most negative
  value is its own absolute value. A time stamp that is not a number is not checked at all.
\<close>

definition slack_age :: "int \<Rightarrow> int \<Rightarrow> int" where
  "slack_age now ts =
     (let d = word_of_int (now - ts) :: 64 word in sint (if sint d < 0 then - d else d))"

definition slack_stale :: "int \<Rightarrow> string \<Rightarrow> bool" where
  "slack_stale now timestamp =
     (case parse_i64 timestamp of Some ts \<Rightarrow> 60 * 5 < slack_age now ts | None \<Rightarrow> False)"

definition sign_github :: "(string \<Rightarrow> string \<Rightarrow> string) \<Rightarrow> string \<Rightarrow> string \<Rightarrow> string" where
  "sign_github hmac secret body = ''sha256='' @ hmac secret body"

definition sign_slack :: "(string \<Rightarrow> string \<Rightarrow> string) \<Rightarrow> string \<Rightarrow> string \<Rightarrow> string \<Rightarrow> string" where
  "sign_slack hmac secret timestamp body =
     ''v0='' @ hmac secret (''v0:'' @ timestamp @ '':'' @ from_utf8_lossy body)"

definition verify_slack ::
  "(string \<Rightarrow> string \<Rightarrow> string) \<Rightarrow> int \<Rightarrow> string \<Rightarrow> string \<Rightarrow> string option \<Rightarrow> string option \<Rightarrow> core_error + unit"
where
  "verify_slack hmac now secret body sig timestamp =
     (case sig of
        None \<Rightarrow> Inl (CAuth ''missing X-Slack-Signature'')
      | Some s \<Rightarrow>
          (case timestamp of
             None \<Rightarrow> Inl (CAuth ''missing X-Slack-Request-Timestamp'')
           | Some ts \<Rightarrow>
               if slack_stale now ts then Inl (CAuth ''slack timestamp too old'')
               else
                 (let base = ''v0:'' @ ts @ '':'' @ from_utf8_lossy body; expected = ''v0='' @ hmac secret base
                  in if expected \<noteq> s then Inl (CAuth ''invalid slack signature'') else Inr ())))"

definition verify_webhook ::
  "(string \<Rightarrow> string \<Rightarrow> string) \<Rightarrow> int \<Rightarrow> source_provider \<Rightarrow> string \<Rightarrow> string \<Rightarrow> webhook_headers \<Rightarrow> core_error + unit"
where
  "verify_webhook hmac now p secret body h =
     (case p of
        Github \<Rightarrow> verify_github hmac secret body (wh_signature_256 h)
      | Gitlab \<Rightarrow> verify_shared_token secret (wh_gitlab_token h)
      | Jira \<Rightarrow>
          (case or_else (wh_signature h) (wh_signature_256 h) of
             Some sig \<Rightarrow> verify_github_style hmac secret body sig
           | None \<Rightarrow> verify_shared_token secret (wh_shared_secret h))
      | Linear \<Rightarrow> verify_shared_token secret (or_else (wh_shared_secret h) (wh_linear_signature h))
      | Slack \<Rightarrow> verify_slack hmac now secret body (wh_slack_signature h) (wh_slack_timestamp h)
      | Teams \<Rightarrow> verify_shared_token secret (wh_shared_secret h)
      | Zendesk \<Rightarrow> verify_shared_token secret (wh_shared_secret h)
      | Unspecified \<Rightarrow> Inl (CAuth ''unspecified provider''))"

section \<open>Secrets of a tenant\<close>

definition overlay :: "(string \<rightharpoonup> string) \<Rightarrow> string \<Rightarrow> string option \<Rightarrow> string option" where
  "overlay secrets key old = (case secrets key of Some v \<Rightarrow> Some v | None \<Rightarrow> old)"

definition apply_to_tenant :: "(string \<rightharpoonup> string) \<Rightarrow> tenant_config \<Rightarrow> tenant_config" where
  "apply_to_tenant secrets c =
     (let prefix = ''WEBHOOK_SECRET_'' @ tc_tenant_id c
      in c\<lparr>tc_github_webhook_secret := overlay secrets (prefix @ ''_GITHUB'')
             (overlay secrets prefix (tc_github_webhook_secret c)),
           tc_gitlab_webhook_secret := overlay secrets (prefix @ ''_GITLAB'') (tc_gitlab_webhook_secret c),
           tc_jira_webhook_secret := overlay secrets (prefix @ ''_JIRA'') (tc_jira_webhook_secret c),
           tc_linear_webhook_secret := overlay secrets (prefix @ ''_LINEAR'') (tc_linear_webhook_secret c),
           tc_slack_signing_secret := overlay secrets (prefix @ ''_SLACK'') (tc_slack_signing_secret c),
           tc_teams_webhook_secret := overlay secrets (prefix @ ''_TEAMS'') (tc_teams_webhook_secret c),
           tc_zendesk_webhook_secret := overlay secrets (prefix @ ''_ZENDESK'') (tc_zendesk_webhook_secret c)\<rparr>)"

definition tenant_config_from_secrets :: "(string \<rightharpoonup> string) \<Rightarrow> string \<Rightarrow> string list \<Rightarrow> tenant_config" where
  "tenant_config_from_secrets secrets t groups = apply_to_tenant secrets
     \<lparr>tc_tenant_id = t, tc_github_webhook_secret = None, tc_gitlab_webhook_secret = None,
      tc_jira_webhook_secret = None, tc_linear_webhook_secret = None, tc_slack_signing_secret = None,
      tc_teams_webhook_secret = None, tc_zendesk_webhook_secret = None, tc_default_group_ids = groups\<rparr>"

type_synonym tenant_registry = "(string, tenant_config) dashmap"

definition with_tenant :: "tenant_config \<Rightarrow> tenant_registry" where
  "with_tenant c = dm_put (tc_tenant_id c) c []"

definition registry_lookup :: "tenant_registry \<Rightarrow> string \<Rightarrow> tenant_config option" where
  "registry_lookup reg t = dm_get reg t"

definition registry_upsert :: "tenant_config \<Rightarrow> tenant_registry \<Rightarrow> tenant_registry" where
  "registry_upsert c reg = dm_put (tc_tenant_id c) c reg"

section \<open>What authentication promises\<close>

text \<open>The proof of knowledge each provider asks for.\<close>

definition proves_secret ::
  "(string \<Rightarrow> string \<Rightarrow> string) \<Rightarrow> source_provider \<Rightarrow> string \<Rightarrow> string \<Rightarrow> webhook_headers \<Rightarrow> bool" where
  "proves_secret hmac p secret body h \<longleftrightarrow>
     (let digest = hmac secret body; signed = (\<lambda>s. s = Some (''sha256='' @ digest) \<or> s = Some digest) in
      case p of
        Github \<Rightarrow> signed (wh_signature_256 h)
      | Gitlab \<Rightarrow> wh_gitlab_token h = Some secret
      | Jira \<Rightarrow>
          if wh_signature h \<noteq> None then signed (wh_signature h)
          else if wh_signature_256 h \<noteq> None then signed (wh_signature_256 h)
          else wh_shared_secret h = Some secret
      | Linear \<Rightarrow> or_else (wh_shared_secret h) (wh_linear_signature h) = Some secret
      | Slack \<Rightarrow> (\<exists>ts. wh_slack_timestamp h = Some ts \<and> wh_slack_signature h = Some (sign_slack hmac secret ts body))
      | Teams \<Rightarrow> wh_shared_secret h = Some secret
      | Zendesk \<Rightarrow> wh_shared_secret h = Some secret
      | Unspecified \<Rightarrow> False)"

lemma strip_prefix_Some: "strip_prefix s p = Some r \<longleftrightarrow> s = p @ r"
  by (auto simp: strip_prefix_def prefix_def)

lemma strip_prefix_None: "strip_prefix s p = None \<longleftrightarrow> \<not> starts_with s p"
  by (simp add: strip_prefix_def starts_with_def)

lemma github_style_iff:
  assumes "\<not> starts_with (hmac secret body) ''sha256=''" "\<not> starts_with (hmac secret body) ''sha1=''"
  shows "verify_github_style hmac secret body s = Inr () \<longleftrightarrow> s = ''sha256='' @ hmac secret body \<or> s = hmac secret body"
proof (cases "strip_prefix s ''sha256=''")
  case (Some r)
  then have s: "s = ''sha256='' @ r" by (simp only: strip_prefix_Some)
  then have "s \<noteq> hmac secret body" using assms(1) starts_with_append by metis
  then show ?thesis using Some s
    by (auto simp: verify_github_style_def constant_time_hex_eq_def starts_with_def)
next
  case None
  then have n: "\<not> starts_with s ''sha256=''" by (simp add: strip_prefix_None)
  show ?thesis
  proof (cases "starts_with s ''sha1=''")
    case True
    then show ?thesis using assms n by (auto simp: verify_github_style_def starts_with_def)
  next
    case False
    then have "strip_prefix s ''sha1='' = None" by (simp add: strip_prefix_None)
    then show ?thesis using assms None n False
      by (auto simp: verify_github_style_def constant_time_hex_eq_def starts_with_def)
  qed
qed

text \<open>
  C20. A webhook is accepted exactly when its headers prove knowledge of the tenant's secret for that
  provider: the digest of this body (bare or after \<open>sha256=\<close>), the digest over time stamp and body, or
  the secret itself; for Slack the time stamp, when it is a number, must also be at most five minutes off.
\<close>

theorem webhook_accepted_iff_secret_proved:
  assumes "\<not> starts_with (hmac secret body) ''sha256=''" "\<not> starts_with (hmac secret body) ''sha1=''"
  shows "verify_webhook hmac now p secret body h = Inr () \<longleftrightarrow>
    proves_secret hmac p secret body h \<and>
    \<not> (p = Slack \<and> slack_stale now (unwrap_or (wh_slack_timestamp h) []))"
proof -
  note style = github_style_iff [where hmac = hmac and secret = secret and body = body, OF assms]
  show ?thesis
  proof (cases p)
    case Github
    then show ?thesis
      by (cases "wh_signature_256 h") (simp_all add: verify_webhook_def proves_secret_def verify_github_def style Let_def)
  next
    case Jira
    then show ?thesis
      by (cases "wh_signature h"; cases "wh_signature_256 h")
        (auto simp: verify_webhook_def proves_secret_def verify_shared_token_def style Let_def split: option.splits)
  next
    case Slack
    then show ?thesis
      by (cases "wh_slack_timestamp h"; cases "wh_slack_signature h")
        (auto simp: verify_webhook_def proves_secret_def verify_slack_def sign_slack_def Let_def)
  qed (auto simp: verify_webhook_def proves_secret_def verify_shared_token_def Let_def split: option.splits)
qed

theorem webhook_accepted_iff_secret_proved_witness:
  "verify_webhook (\<lambda>k m. ''00'') 0 Github ''s'' ''{}'' (no_headers\<lparr>wh_signature_256 := Some ''sha256=00''\<rparr>) = Inr () \<and>
   verify_webhook (\<lambda>k m. ''00'') 0 Github ''s'' ''{}'' (no_headers\<lparr>wh_signature_256 := Some ''sha256=01''\<rparr>) \<noteq> Inr ()"
  using webhook_accepted_iff_secret_proved [where hmac = "\<lambda>k m. ''00''" and secret = "''s''" and body = "''{}''" and now = 0
      and p = Github and h = "no_headers\<lparr>wh_signature_256 := Some ''sha256=00''\<rparr>"]
    webhook_accepted_iff_secret_proved [where hmac = "\<lambda>k m. ''00''" and secret = "''s''" and body = "''{}''" and now = 0
      and p = Github and h = "no_headers\<lparr>wh_signature_256 := Some ''sha256=01''\<rparr>"]
  by (simp add: proves_secret_def starts_with_def)

text \<open>A request signed by the helpers is accepted; a time stamp that is no number is never stale.\<close>

lemma signed_github_accepted:
  "verify_webhook hmac now Github secret body (h\<lparr>wh_signature_256 := Some (sign_github hmac secret body)\<rparr>) = Inr ()"
  by (simp add: verify_webhook_def verify_github_def verify_github_style_def sign_github_def strip_prefix_def
      constant_time_hex_eq_def starts_with_def)

lemma slack_age_near:
  assumes "\<bar>now - ts\<bar> < 2 ^ 63"
  shows "slack_age now ts = \<bar>now - ts\<bar>"
proof -
  have small: "sint (word_of_int d :: 64 word) = d" if "\<bar>d\<bar> < 2 ^ 63" for d :: int
    using that by (simp add: signed_of_int signed_take_bit_int_eq_self)
  have neg: "- (word_of_int d :: 64 word) = word_of_int (- d)" for d :: int by simp
  have "slack_age now ts = (if sint (word_of_int (now - ts) :: 64 word) < 0
      then sint (word_of_int (- (now - ts)) :: 64 word) else sint (word_of_int (now - ts) :: 64 word))"
    unfolding slack_age_def Let_def neg by (simp only: if_distrib [of sint])
  also have "... = \<bar>now - ts\<bar>"
    using small [of "now - ts"] small [of "- (now - ts)"] assms by (simp only: abs_minus_cancel) simp
  finally show ?thesis .
qed

text \<open>Exactly half the range away, the subtraction wraps to a value that counts as fresh.\<close>

lemma slack_age_wraps: "slack_age now (now - 2 ^ 63) = - (2 ^ 63)"
  by (simp add: slack_age_def)

lemma unparsable_timestamp_never_stale: "parse_i64 ts = None \<Longrightarrow> \<not> slack_stale now ts"
  by (simp add: slack_stale_def)

text \<open>
  The short form of the overlay for one tenant is the provider form for another: the Slack secret of
  \<open>t\<close> becomes the GitHub secret of the tenant \<open>t_SLACK\<close>.
\<close>

lemma overlay_names_collide:
  assumes "secrets (''WEBHOOK_SECRET_'' @ t @ ''_SLACK'') = Some v" "secrets (''WEBHOOK_SECRET_'' @ t @ ''_SLACK_GITHUB'') = None"
  shows "secret_for (tenant_config_from_secrets secrets (t @ ''_SLACK'') gs) Github = Some v \<and>
    secret_for (tenant_config_from_secrets secrets t gs) Slack = Some v"
  using assms by (simp add: tenant_config_from_secrets_def apply_to_tenant_def overlay_def Let_def)

end
