(* ===== verification/Telemetry_Acl.thy ===== *)
theory Telemetry_Acl
  imports Telemetry_Model
begin

text \<open>
  The in-memory access store of the telemetry service (\<open>telemetry-core/src/acl.rs\<close>): identities,
  users with their groups, the version of each tenant and the invalidations sent so far, with the snapshot
  and the read-through cache. A \<open>HashSet\<close> of groups is a list without duplicates, a fresh UUID is a
  parameter. Saving to and loading from a file are left out: an operation only counts the change.
\<close>

section \<open>State\<close>

record acl_invalidation =
  iv_tenant_id :: string
  iv_global_user_id :: string
  iv_acl_version :: "64 word"

record user_record =
  ur_global_user_id :: string
  ur_email :: string
  ur_display_name :: string
  ur_groups :: "string list"

record acl_user_snap =
  au_tenant_id :: string
  au_global_user_id :: string
  au_email :: string
  au_display_name :: string
  au_groups :: "string list"

record acl_persist_snapshot =
  ap_version :: nat
  ap_saved_at :: "string option"
  ap_identity :: "(string \<times> string \<times> string) list"
  ap_users :: "acl_user_snap list"
  ap_versions :: "(string \<times> 64 word) list"

record acl_store =
  as_identity_map :: "(string \<times> string, string) dashmap"
  as_users :: "(string \<times> string, user_record) dashmap"
  as_versions :: "(string, 64 word) dashmap"
  as_sent :: "acl_invalidation list"
  as_dirty :: "64 word"

definition new_acl_store :: acl_store where
  "new_acl_store = \<lparr>as_identity_map = [], as_users = [], as_versions = [], as_sent = [], as_dirty = 0\<rparr>"

section \<open>Operations\<close>

definition count_change :: "acl_store \<Rightarrow> acl_store" where
  "count_change s = s\<lparr>as_dirty := as_dirty s + 1\<rparr>"

definition current_acl_version :: "acl_store \<Rightarrow> string \<Rightarrow> 64 word" where
  "current_acl_version s t = unwrap_or (dm_get (as_versions s) t) 0"

definition bump_version :: "string \<Rightarrow> acl_store \<Rightarrow> 64 word \<times> acl_store" where
  "bump_version t s =
     (let v = current_acl_version s t + 1 in (v, s\<lparr>as_versions := dm_put t v (as_versions s)\<rparr>))"

definition send_invalidation :: "string \<Rightarrow> string \<Rightarrow> 64 word \<Rightarrow> acl_store \<Rightarrow> acl_store" where
  "send_invalidation t u v s =
     s\<lparr>as_sent := as_sent s @ [\<lparr>iv_tenant_id = t, iv_global_user_id = u, iv_acl_version = v\<rparr>]\<rparr>"

definition ensure_user ::
  "string \<Rightarrow> string \<Rightarrow> string \<Rightarrow> string \<Rightarrow> string \<Rightarrow> acl_store \<Rightarrow> string \<times> acl_store" where
  "ensure_user uuid t provider_user email name s =
     (case dm_get (as_identity_map s) (t, provider_user) of
        Some existing \<Rightarrow> (existing, s)
      | None \<Rightarrow>
          (let gu = ''gu_'' @ uuid;
               user = \<lparr>ur_global_user_id = gu, ur_email = email, ur_display_name = name, ur_groups = []\<rparr>
           in (gu, count_change
                (s\<lparr>as_identity_map := dm_put (t, provider_user) gu (as_identity_map s),
                   as_users := dm_put (t, gu) user (as_users s)\<rparr>))))"

definition resolve_global_user_id :: "acl_store \<Rightarrow> string \<Rightarrow> string \<Rightarrow> string option" where
  "resolve_global_user_id s t provider_user = dm_get (as_identity_map s) (t, provider_user)"

text \<open>The three membership changes: an unknown user is an error; otherwise the version grows and is announced.\<close>

definition change_groups ::
  "string \<Rightarrow> string \<Rightarrow> (string list \<Rightarrow> string list) \<Rightarrow> acl_store \<Rightarrow> (core_error + 64 word) \<times> acl_store" where
  "change_groups t u f s =
     (case dm_get (as_users s) (t, u) of
        None \<Rightarrow> (Inl (CNotFound (''user '' @ u)), s)
      | Some r \<Rightarrow>
          (let s1 = s\<lparr>as_users := dm_put (t, u) (r\<lparr>ur_groups := f (ur_groups r)\<rparr>) (as_users s)\<rparr>;
               (v, s2) = bump_version t s1
           in (Inr v, count_change (send_invalidation t u v s2))))"

definition set_user_groups ::
  "string \<Rightarrow> string \<Rightarrow> string list \<Rightarrow> acl_store \<Rightarrow> (core_error + 64 word) \<times> acl_store" where
  "set_user_groups t u gs s = change_groups t u (\<lambda>_. remdups gs) s"

definition add_user_to_group ::
  "string \<Rightarrow> string \<Rightarrow> string \<Rightarrow> acl_store \<Rightarrow> (core_error + 64 word) \<times> acl_store" where
  "add_user_to_group t u g s = change_groups t u (List.insert g) s"

definition remove_user_from_group ::
  "string \<Rightarrow> string \<Rightarrow> string \<Rightarrow> acl_store \<Rightarrow> (core_error + 64 word) \<times> acl_store" where
  "remove_user_from_group t u g s = change_groups t u (removeAll g) s"

definition get_user_groups :: "acl_store \<Rightarrow> string \<Rightarrow> string \<Rightarrow> string list" where
  "get_user_groups s t u = (case dm_get (as_users s) (t, u) of Some r \<Rightarrow> ur_groups r | None \<Rightarrow> [])"

definition apply_revocation :: "acl_revocation \<Rightarrow> acl_store \<Rightarrow> (core_error + 64 word) \<times> acl_store" where
  "apply_revocation rvk s =
     (if ar_change_type rvk = ''removed_from_group''
      then remove_user_from_group (ar_tenant_id rvk) (ar_global_user_id rvk) (ar_group_id rvk) s
      else if ar_change_type rvk = ''added_to_group''
      then add_user_to_group (ar_tenant_id rvk) (ar_global_user_id rvk) (ar_group_id rvk) s
      else (Inl (CValidation (''unknown ACL change_type: '' @ ar_change_type rvk)), s))"

definition build_query_context :: "acl_store \<Rightarrow> string \<Rightarrow> string \<Rightarrow> reader" where
  "build_query_context s t u = \<lparr>rd_tenant_id = t, rd_global_user_id = u, rd_group_ids = get_user_groups s t u\<rparr>"

definition seed_membership ::
  "string \<Rightarrow> string \<Rightarrow> string \<Rightarrow> string \<Rightarrow> string \<Rightarrow> string list \<Rightarrow> acl_store \<Rightarrow> (core_error + string) \<times> acl_store"
where
  "seed_membership uuid t provider_user email name gs s =
     (let (gid, s1) = ensure_user uuid t provider_user email name s
      in case set_user_groups t gid gs s1 of
           (Inl e, s2) \<Rightarrow> (Inl e, s2)
         | (Inr v, s2) \<Rightarrow> (Inr gid, s2))"

definition dump_identity_count :: "acl_store \<Rightarrow> nat" where
  "dump_identity_count s = length (as_identity_map s)"

definition dump_group_map :: "acl_store \<Rightarrow> string \<Rightarrow> (string, string list) dashmap" where
  "dump_group_map s t = fold (\<lambda>((t', u), r) m. if t' = t then dm_put u (ur_groups r) m else m) (as_users s) []"

section \<open>Snapshot\<close>

definition acl_export :: "string \<Rightarrow> acl_store \<Rightarrow> acl_persist_snapshot" where
  "acl_export saved_at s =
     \<lparr>ap_version = 1, ap_saved_at = Some saved_at,
      ap_identity = map (\<lambda>((t, p), gu). (t, p, gu)) (as_identity_map s),
      ap_users = map (\<lambda>((t, gu), r). \<lparr>au_tenant_id = t, au_global_user_id = gu, au_email = ur_email r,
        au_display_name = ur_display_name r, au_groups = ur_groups r\<rparr>) (as_users s),
      ap_versions = as_versions s\<rparr>"

definition acl_import :: "acl_persist_snapshot \<Rightarrow> acl_store \<Rightarrow> acl_store" where
  "acl_import snap s =
     s\<lparr>as_identity_map := fold (\<lambda>(t, p, gu). dm_put (t, p) gu) (ap_identity snap) (as_identity_map s),
       as_users := fold (\<lambda>u. dm_put (au_tenant_id u, au_global_user_id u)
         \<lparr>ur_global_user_id = au_global_user_id u, ur_email = au_email u, ur_display_name = au_display_name u,
          ur_groups = remdups (au_groups u)\<rparr>) (ap_users snap) (as_users s),
       as_versions := fold (\<lambda>(t, v). dm_put t v) (ap_versions snap) (as_versions s)\<rparr>"

section \<open>Invariant and laws\<close>

text \<open>
  Maps without repeated keys, users stored under their own id with distinct groups, and every identity of
  the table naming a stored user.
\<close>

definition acl_ok :: "acl_store \<Rightarrow> bool" where
  "acl_ok s \<longleftrightarrow>
     dm_ok (as_identity_map s) \<and> dm_ok (as_users s) \<and> dm_ok (as_versions s) \<and>
     (\<forall>t u r. dm_get (as_users s) (t, u) = Some r \<longrightarrow> ur_global_user_id r = u \<and> distinct (ur_groups r)) \<and>
     (\<forall>t p u. dm_get (as_identity_map s) (t, p) = Some u \<longrightarrow> dm_get (as_users s) (t, u) \<noteq> None)"

lemma acl_ok_new: "acl_ok new_acl_store"
  by (simp add: acl_ok_def new_acl_store_def)

lemma acl_ok_getD:
  "acl_ok s \<Longrightarrow> dm_get (as_users s) (t, u) = Some r \<Longrightarrow> ur_global_user_id r = u \<and> distinct (ur_groups r)"
  unfolding acl_ok_def by blast

lemma acl_ok_counters [simp]:
  "acl_ok (count_change s) = acl_ok s" "acl_ok (send_invalidation t u v s) = acl_ok s"
  "acl_ok s \<Longrightarrow> acl_ok (s\<lparr>as_versions := dm_put t v (as_versions s)\<rparr>)"
  by (simp_all add: acl_ok_def count_change_def send_invalidation_def)

lemma acl_ok_put_user:
  assumes "acl_ok s" "ur_global_user_id r = u" "distinct (ur_groups r)"
  shows "acl_ok (s\<lparr>as_users := dm_put (t, u) r (as_users s)\<rparr>)"
  using assms by (auto simp: acl_ok_def)

lemma acl_ok_change:
  assumes "acl_ok s" "\<And>gs. distinct gs \<Longrightarrow> distinct (f gs)"
  shows "acl_ok (snd (change_groups t u f s))"
proof (cases "dm_get (as_users s) (t, u)")
  case (Some r)
  then have "acl_ok (s\<lparr>as_users := dm_put (t, u) (r\<lparr>ur_groups := f (ur_groups r)\<rparr>) (as_users s)\<rparr>)"
    using acl_ok_getD [OF assms(1) Some] assms by (intro acl_ok_put_user) auto
  then have "acl_ok (s\<lparr>as_users := dm_put (t, u) (r\<lparr>ur_groups := f (ur_groups r)\<rparr>) (as_users s),
      as_versions := dm_put t v (as_versions s)\<rparr>)" for v
    using acl_ok_counters(3) by fastforce
  with Some show ?thesis by (simp add: change_groups_def bump_version_def Let_def)
qed (simp add: change_groups_def assms)

lemma acl_ok_ops:
  assumes "acl_ok s"
  shows "acl_ok (snd (set_user_groups t u gs s))" "acl_ok (snd (add_user_to_group t u g s))"
    "acl_ok (snd (remove_user_from_group t u g s))" "acl_ok (snd (apply_revocation rvk s))"
proof -
  show set: "acl_ok (snd (set_user_groups t u gs s))"
    using acl_ok_change [OF assms] by (simp add: set_user_groups_def)
  show add: "acl_ok (snd (add_user_to_group t u g s))" for t u g
    using acl_ok_change [OF assms] by (simp add: add_user_to_group_def)
  show rem: "acl_ok (snd (remove_user_from_group t u g s))" for t u g
    using acl_ok_change [OF assms, of "removeAll g"] by (simp add: remove_user_from_group_def distinct_removeAll)
  show "acl_ok (snd (apply_revocation rvk s))"
    using add rem assms by (simp add: apply_revocation_def)
qed

lemma acl_ok_ensure_user:
  assumes "acl_ok s"
  shows "acl_ok (snd (ensure_user uuid t p e n s))"
proof (cases "dm_get (as_identity_map s) (t, p)")
  case None
  let ?u = "''gu_'' @ uuid"
  let ?r = "\<lparr>ur_global_user_id = ?u, ur_email = e, ur_display_name = n, ur_groups = []\<rparr>"
  have "acl_ok (s\<lparr>as_users := dm_put (t, ?u) ?r (as_users s)\<rparr>)"
    using acl_ok_put_user [OF assms] by simp
  then have "acl_ok (s\<lparr>as_identity_map := dm_put (t, p) ?u (as_identity_map s), as_users := dm_put (t, ?u) ?r (as_users s)\<rparr>)"
    by (auto simp: acl_ok_def)
  with None show ?thesis by (simp add: ensure_user_def Let_def)
qed (simp add: ensure_user_def assms)

text \<open>What a change does to the groups of every user, and that it is announced exactly when it happens.\<close>

lemma get_user_groups_change:
  "get_user_groups (snd (change_groups t u f s)) t' u' =
     (if (t', u') = (t, u) \<and> dm_get (as_users s) (t, u) \<noteq> None then f (get_user_groups s t u)
      else get_user_groups s t' u')"
  by (cases "dm_get (as_users s) (t, u)")
    (auto simp: change_groups_def bump_version_def Let_def get_user_groups_def count_change_def send_invalidation_def)

lemma get_user_groups_ensure:
  assumes "dm_get (as_users s) (t, ''gu_'' @ uuid) = None"
  shows "get_user_groups (snd (ensure_user uuid t p e n s)) t' u' = get_user_groups s t' u'"
  using assms by (auto simp: ensure_user_def get_user_groups_def count_change_def Let_def split: option.split)

lemma change_announced:
  "as_sent (snd (change_groups t u f s)) =
     (case fst (change_groups t u f s) of
        Inl _ \<Rightarrow> as_sent s
      | Inr v \<Rightarrow> as_sent s @ [\<lparr>iv_tenant_id = t, iv_global_user_id = u, iv_acl_version = v\<rparr>])"
  by (auto simp: change_groups_def bump_version_def Let_def count_change_def send_invalidation_def split: option.split)

lemma change_version:
  "fst (change_groups t u f s) = Inr v \<Longrightarrow> v = current_acl_version s t + 1 \<and>
     current_acl_version (snd (change_groups t u f s)) t = v"
  by (auto simp: change_groups_def bump_version_def Let_def count_change_def send_invalidation_def
      current_acl_version_def split: option.splits)

lemma same_identity_again:
  "ensure_user uuid' t p e' n' (snd (ensure_user uuid t p e n s))
     = (fst (ensure_user uuid t p e n s), snd (ensure_user uuid t p e n s))"
  by (auto simp: ensure_user_def count_change_def Let_def split: option.split)

section \<open>Restart\<close>

lemma dm_get_fold_put:
  "dm_ok kvs \<Longrightarrow> dm_get (fold (\<lambda>(k, v). dm_put k v) kvs m) k
     = (case map_of kvs k of Some v \<Rightarrow> Some v | None \<Rightarrow> dm_get m k)"
proof (induction kvs arbitrary: m)
  case (Cons kv kvs)
  then have "map_of kvs (fst kv) = None" by (simp add: dm_ok_def map_of_eq_None_iff)
  with Cons show ?case by (cases kv) (auto simp: dm_ok_def split: option.split)
qed simp

lemma dm_get_rebuild: "dm_ok m \<Longrightarrow> dm_get (fold (\<lambda>(k, v). dm_put k v) m []) k = dm_get m k"
  unfolding dm_get_fold_put by (simp add: dm_get_def split: option.split)

lemma acl_snapshot_roundtrip:
  assumes "acl_ok s"
  shows "resolve_global_user_id (acl_import (acl_export saved_at s) new_acl_store) t p = resolve_global_user_id s t p"
    "get_user_groups (acl_import (acl_export saved_at s) new_acl_store) t u = get_user_groups s t u"
    "current_acl_version (acl_import (acl_export saved_at s) new_acl_store) t = current_acl_version s t"
proof -
  let ?s = "acl_import (acl_export saved_at s) new_acl_store"
  have ok: "dm_ok (as_identity_map s)" "dm_ok (as_users s)" "dm_ok (as_versions s)"
    using assms by (simp_all add: acl_ok_def)
  have "(\<lambda>(t :: string, p :: string, gu). dm_put (t, p) gu) \<circ> (\<lambda>((t, p), gu). (t, p, gu)) = (\<lambda>(k, v). dm_put k (v :: string))"
    by auto
  then show "resolve_global_user_id ?s t p = resolve_global_user_id s t p"
    by (simp add: resolve_global_user_id_def acl_import_def acl_export_def new_acl_store_def fold_map dm_get_rebuild ok)
  define restore :: "(string \<times> string) \<times> user_record \<Rightarrow> user_record" where
    "restore = (\<lambda>((t, gu), r). \<lparr>ur_global_user_id = gu, ur_email = ur_email r,
        ur_display_name = ur_display_name r, ur_groups = remdups (ur_groups r)\<rparr>)"
  have "restore x = snd x" if x: "x \<in> set (as_users s)" for x
  proof -
    obtain t gu r where e: "x = ((t, gu), r)" by (cases x) auto
    with x have "dm_get (as_users s) (t, gu) = Some r" using dm_get_iff_mem [OF ok(2)] by simp
    from acl_ok_getD [OF assms this] have "ur_global_user_id r = gu" "remdups (ur_groups r) = ur_groups r"
      by (simp_all add: distinct_remdups_id)
    then show ?thesis by (cases r) (simp add: e restore_def)
  qed
  then have same: "fold (\<lambda>x. dm_put (fst x) (restore x)) (as_users s) m = fold (\<lambda>(k, v). dm_put k v) (as_users s) m" for m
    by (intro List.fold_cong) (auto simp: case_prod_beta)
  have "as_users ?s = fold (\<lambda>x. dm_put (fst x) (restore x)) (as_users s) []"
    by (simp add: acl_import_def acl_export_def new_acl_store_def fold_map comp_def case_prod_beta restore_def)
  then show "get_user_groups ?s t u = get_user_groups s t u"
    unfolding get_user_groups_def same by (simp add: dm_get_rebuild ok)
  show "current_acl_version ?s t = current_acl_version s t"
    by (simp add: current_acl_version_def acl_import_def acl_export_def new_acl_store_def dm_get_rebuild ok)
qed

section \<open>The read-through cache\<close>

text \<open>
  A lookup that misses first reads the store and later inserts what it read; the background listener takes
  the invalidations one by one and stops for good when it has fallen more than the capacity of the channel
  behind. Lookups of several callers, changes of the store and the listener interleave.
\<close>

type_synonym group_key = "string \<times> string"

record acl_cache =
  cc_store :: acl_store
  cc_cache :: "(group_key, string list) dashmap"
  cc_heard :: nat
  cc_listening :: bool
  cc_readers :: "(group_key \<times> string list) list"

definition new_cache :: "acl_store \<Rightarrow> acl_cache" where
  "new_cache s = \<lparr>cc_store = s, cc_cache = [], cc_heard = length (as_sent s), cc_listening = True, cc_readers = []\<rparr>"

definition cache_lookup :: "acl_cache \<Rightarrow> string \<Rightarrow> string \<Rightarrow> string list option" where
  "cache_lookup c t u = dm_get (cc_cache c) (t, u)"

definition cache_fetch :: "string \<Rightarrow> string \<Rightarrow> acl_cache \<Rightarrow> acl_cache" where
  "cache_fetch t u c = c\<lparr>cc_readers := cc_readers c @ [((t, u), get_user_groups (cc_store c) t u)]\<rparr>"

definition cache_insert :: "group_key \<times> string list \<Rightarrow> acl_cache \<Rightarrow> acl_cache" where
  "cache_insert r c = c\<lparr>cc_cache := dm_put (fst r) (snd r) (cc_cache c), cc_readers := remove1 r (cc_readers c)\<rparr>"

definition cache_listen :: "acl_cache \<Rightarrow> acl_cache" where
  "cache_listen c =
     (let iv = as_sent (cc_store c) ! cc_heard c
      in c\<lparr>cc_cache := dm_del (iv_tenant_id iv, iv_global_user_id iv) (cc_cache c), cc_heard := cc_heard c + 1\<rparr>)"

definition pending :: "acl_cache \<Rightarrow> nat" where
  "pending c = length (as_sent (cc_store c)) - cc_heard c"

inductive cache_step :: "acl_cache \<Rightarrow> acl_cache \<Rightarrow> bool" where
  change: "cache_step c (c\<lparr>cc_store := snd (change_groups t u f (cc_store c))\<rparr>)"
| fetch: "cache_lookup c t u = None \<Longrightarrow> cache_step c (cache_fetch t u c)"
| insert: "r \<in> set (cc_readers c) \<Longrightarrow> cache_step c (cache_insert r c)"
| listen: "cc_listening c \<Longrightarrow> 0 < pending c \<Longrightarrow> pending c \<le> 4096 \<Longrightarrow> cache_step c (cache_listen c)"
| lagged: "cc_listening c \<Longrightarrow> 4096 < pending c \<Longrightarrow> cache_step c (c\<lparr>cc_listening := False\<rparr>)"

text \<open>A lookup that is not interrupted.\<close>

definition cache_read :: "string \<Rightarrow> string \<Rightarrow> acl_cache \<Rightarrow> acl_cache" where
  "cache_read t u c =
     (if cache_lookup c t u = None then cache_insert ((t, u), get_user_groups (cc_store c) t u) (cache_fetch t u c) else c)"

inductive quiet_step :: "acl_cache \<Rightarrow> acl_cache \<Rightarrow> bool" where
  "quiet_step c (c\<lparr>cc_store := snd (change_groups t u f (cc_store c))\<rparr>)"
| "quiet_step c (cache_read t u c)"
| "cc_listening c \<Longrightarrow> 0 < pending c \<Longrightarrow> pending c \<le> 4096 \<Longrightarrow> quiet_step c (cache_listen c)"

text \<open>An entry is up to date or its invalidation is still on its way.\<close>

definition announced :: "acl_cache \<Rightarrow> string \<Rightarrow> string \<Rightarrow> bool" where
  "announced c t u \<longleftrightarrow>
     (\<exists>iv \<in> set (drop (cc_heard c) (as_sent (cc_store c))). iv_tenant_id iv = t \<and> iv_global_user_id iv = u)"

definition coherent :: "acl_cache \<Rightarrow> bool" where
  "coherent c \<longleftrightarrow> cc_heard c \<le> length (as_sent (cc_store c)) \<and>
     (\<forall>t u gs. cache_lookup c t u = Some gs \<longrightarrow> gs = get_user_groups (cc_store c) t u \<or> announced c t u)"

lemma coherent_change:
  assumes "coherent c"
  shows "coherent (c\<lparr>cc_store := snd (change_groups t u f (cc_store c))\<rparr>)"
proof (cases "dm_get (as_users (cc_store c)) (t, u)")
  case None
  then have "snd (change_groups t u f (cc_store c)) = cc_store c" by (simp add: change_groups_def)
  then show ?thesis using assms by simp
next
  case (Some r)
  let ?s = "cc_store c"
  let ?c = "c\<lparr>cc_store := snd (change_groups t u f ?s)\<rparr>"
  obtain v where "fst (change_groups t u f ?s) = Inr v"
    using Some by (auto simp: change_groups_def bump_version_def Let_def)
  then have sent: "as_sent (snd (change_groups t u f ?s)) = as_sent ?s @ [\<lparr>iv_tenant_id = t, iv_global_user_id = u, iv_acl_version = v\<rparr>]"
    by (simp add: change_announced)
  have here: "announced ?c t u"
    using assms by (simp add: announced_def sent coherent_def)
  have "gs = get_user_groups (cc_store ?c) t' u' \<or> announced ?c t' u'" if "cache_lookup ?c t' u' = Some gs" for t' u' gs
  proof (cases "(t', u') = (t, u)")
    case True
    with here show ?thesis by simp
  next
    case False
    have "gs = get_user_groups ?s t' u' \<or> announced c t' u'"
      using assms that by (simp add: coherent_def cache_lookup_def)
    moreover have "announced c t' u' \<Longrightarrow> announced ?c t' u'"
      using assms by (auto simp: announced_def sent coherent_def)
    ultimately show ?thesis using False by (auto simp: get_user_groups_change)
  qed
  then show ?thesis using assms by (simp add: coherent_def sent)
qed

lemma coherent_read: "coherent c \<Longrightarrow> coherent (cache_read t u c)"
  by (auto simp: coherent_def announced_def cache_lookup_def cache_read_def cache_insert_def cache_fetch_def)

lemma coherent_listen:
  assumes "coherent c" "0 < pending c"
  shows "coherent (cache_listen c)"
proof -
  let ?sent = "as_sent (cc_store c)" and ?h = "cc_heard c"
  have h: "?h < length ?sent" using assms by (simp add: pending_def)
  then have d: "drop ?h ?sent = ?sent ! ?h # drop (Suc ?h) ?sent" by (simp add: Cons_nth_drop_Suc)
  show ?thesis
    using assms h
    by (auto simp: coherent_def announced_def cache_lookup_def cache_listen_def Let_def d split: if_splits)
qed

lemma quiet_runs_coherent: "quiet_step\<^sup>*\<^sup>* (new_cache s) c \<Longrightarrow> coherent c"
proof (induction rule: rtranclp_induct)
  case base
  show ?case by (simp add: coherent_def new_cache_def cache_lookup_def)
next
  case (step c c')
  from step.hyps(2) step.IH show ?case
    by cases (auto simp: coherent_change coherent_read coherent_listen)
qed

lemma quiet_cache_is_current:
  assumes "quiet_step\<^sup>*\<^sup>* (new_cache s) c" "pending c = 0" "cache_lookup c t u = Some gs"
  shows "gs = get_user_groups (cc_store c) t u"
  using quiet_runs_coherent [OF assms(1)] assms(2,3)
  by (auto simp: coherent_def announced_def pending_def)

text \<open>
  With interleaving it is not: a lookup that read the store before a removal and inserts after the
  listener has handled it leaves an entry that no invalidation will ever remove.
\<close>

definition seeded :: acl_store where
  "seeded = snd (seed_membership ''1'' ''ten'' ''gh_1'' [] [] [''eng''] new_acl_store)"

lemma cache_keeps_revoked_group:
  "\<exists>c. cache_step\<^sup>*\<^sup>* (new_cache seeded) c \<and> pending c = 0 \<and> cc_readers c = [] \<and>
     cache_lookup c ''ten'' ''gu_1'' = Some [''eng''] \<and> get_user_groups (cc_store c) ''ten'' ''gu_1'' = []"
proof -
  let ?u = "''gu_1''" let ?t = "''ten''"
  let ?c0 = "new_cache seeded"
  let ?c1 = "cache_fetch ?t ?u ?c0"
  let ?c2 = "?c1\<lparr>cc_store := snd (change_groups ?t ?u (removeAll ''eng'') (cc_store ?c1))\<rparr>"
  let ?c3 = "cache_listen ?c2"
  let ?c4 = "cache_insert ((?t, ?u), [''eng'']) ?c3"
  note defs = seeded_def seed_membership_def ensure_user_def set_user_groups_def change_groups_def bump_version_def
    send_invalidation_def count_change_def new_acl_store_def current_acl_version_def Let_def new_cache_def
    cache_fetch_def cache_listen_def cache_insert_def cache_lookup_def pending_def get_user_groups_def
  have "cache_step ?c0 ?c1" by (rule cache_step.fetch) (simp add: defs)
  moreover have "cache_step ?c1 ?c2" by (rule cache_step.change)
  moreover have "cache_step ?c2 ?c3" by (rule cache_step.listen) (simp_all add: defs)
  moreover have "cache_step ?c3 ?c4" by (rule cache_step.insert) (simp add: defs)
  ultimately have "cache_step\<^sup>*\<^sup>* ?c0 ?c4"
    by (meson converse_rtranclp_into_rtranclp rtranclp.rtrancl_refl)
  moreover have "pending ?c4 = 0" "cc_readers ?c4 = []" "cache_lookup ?c4 ?t ?u = Some [''eng'']"
    "get_user_groups (cc_store ?c4) ?t ?u = []"
    by (simp_all add: defs)
  ultimately show ?thesis by blast
qed

end
