(* ===== verification/Telemetry_Store.thy ===== *)
theory Telemetry_Store
  imports Telemetry_Model
begin

text \<open>
  The in-memory event store (\<open>telemetry-core/src/store.rs\<close>): the events of a tenant by id and,
  for the reconstruction of state, by resource in the order of their origin time. The file snapshot is
  modelled as the list of events; reading and writing the file is left out.
\<close>

section \<open>State\<close>

record event_store =
  es_by_id :: "(string, (string, canonical_event) dashmap) dashmap"
  es_by_resource :: "(string, (string, canonical_event list) dashmap) dashmap"
  es_dirty :: "64 word"

definition new_event_store :: event_store where
  "new_event_store = \<lparr>es_by_id = [], es_by_resource = [], es_dirty = 0\<rparr>"

definition tenant_events :: "event_store \<Rightarrow> string \<Rightarrow> (string, canonical_event) dashmap" where
  "tenant_events s t = unwrap_or (dm_get (es_by_id s) t) []"

definition resource_events :: "event_store \<Rightarrow> string \<Rightarrow> string \<Rightarrow> canonical_event list" where
  "resource_events s t r = unwrap_or (dm_get (unwrap_or (dm_get (es_by_resource s) t) []) r) []"

section \<open>Operations\<close>

text \<open>
  The code compares versions and sequence numbers before it overwrites an event, and then overwrites it in
  any case; only the overwriting is modelled.
\<close>

definition upsert_no_persist :: "canonical_event \<Rightarrow> event_store \<Rightarrow> event_store" where
  "upsert_no_persist e s =
     (let t = ce_tenant_id e; r = ce_resource_id e;
          res = unwrap_or (dm_get (es_by_resource s) t) [];
          v = sort_key ce_event_timestamp (upsert_by ce_event_id e (unwrap_or (dm_get res r) []))
      in s\<lparr>es_by_id := dm_put t (dm_put (ce_event_id e) e (tenant_events s t)) (es_by_id s),
           es_by_resource := dm_put t (dm_put r v res) (es_by_resource s)\<rparr>)"

definition event_upsert :: "canonical_event \<Rightarrow> event_store \<Rightarrow> (core_error + unit) \<times> event_store" where
  "event_upsert e s =
     (let s' = upsert_no_persist e s in (Inr (), s'\<lparr>es_dirty := es_dirty s' + 1\<rparr>))"

fun event_upsert_batch :: "canonical_event list \<Rightarrow> event_store \<Rightarrow> (core_error + unit) \<times> event_store" where
  "event_upsert_batch [] s = (Inr (), s)"
| "event_upsert_batch (e # es) s =
     (case event_upsert e s of (Inl err, s') \<Rightarrow> (Inl err, s') | (Inr _, s') \<Rightarrow> event_upsert_batch es s')"

definition visible_to :: "reader \<Rightarrow> canonical_event \<Rightarrow> bool" where
  "visible_to ctx e = reader_allows ctx (al_is_private (ce_acl e)) (al_allowed_group_ids (ce_acl e))"

definition matches_query :: "event_query \<Rightarrow> canonical_event \<Rightarrow> bool" where
  "matches_query q e \<longleftrightarrow>
     (eq_categories q = [] \<or> ce_category e \<in> set (eq_categories q) \<or>
      category_label (ce_category e) \<in> set (map category_label (eq_categories q))) \<and>
     (eq_providers q = [] \<or> provider_label (ce_provider e) \<in> set (map provider_label (eq_providers q))) \<and>
     (case eq_resource_id q of Some r \<Rightarrow> ce_resource_id e = r | None \<Rightarrow> True) \<and>
     (case eq_parent_resource_id q of Some r \<Rightarrow> ce_parent_resource_id e = r | None \<Rightarrow> True) \<and>
     (case eq_event_type q of Some ty \<Rightarrow> ce_event_type e = ty | None \<Rightarrow> True) \<and>
     (case eq_since q of Some since \<Rightarrow> \<not> ce_event_timestamp e < since | None \<Rightarrow> True) \<and>
     (case eq_until q of Some until \<Rightarrow> \<not> until < ce_event_timestamp e | None \<Rightarrow> True)"

definition event_query_run :: "event_store \<Rightarrow> reader \<Rightarrow> event_query \<Rightarrow> core_error + canonical_event list" where
  "event_query_run s ctx q =
     (if rd_tenant_id ctx \<noteq> eq_tenant_id q
      then Inl (CAclDenied ''query tenant_id does not match context'')
      else
        (case dm_get (es_by_id s) (eq_tenant_id q) of
           None \<Rightarrow> Inr []
         | Some m \<Rightarrow>
             Inr (take (max 1 (eq_limit q))
               (sort_key (\<lambda>e. - ce_event_timestamp e)
                 (filter (\<lambda>e. visible_to ctx e \<and> matches_query q e) (map snd m))))))"

definition count_unique :: "event_store \<Rightarrow> string \<Rightarrow> nat" where
  "count_unique s t = (case dm_get (es_by_id s) t of Some m \<Rightarrow> length m | None \<Rightarrow> 0)"

definition get_raw :: "event_store \<Rightarrow> string \<Rightarrow> string \<Rightarrow> canonical_event option" where
  "get_raw s t i = Option.bind (dm_get (es_by_id s) t) (\<lambda>m. dm_get m i)"

text \<open>\<open>max_by_key\<close> returns the last of several greatest elements.\<close>

definition max_by_key :: "('a \<Rightarrow> 'b::linorder) \<Rightarrow> 'a list \<Rightarrow> 'a option" where
  "max_by_key key xs =
     fold (\<lambda>x best. case best of None \<Rightarrow> Some x | Some b \<Rightarrow> if key b \<le> key x then Some x else Some b) xs None"

definition state_key :: "canonical_event \<Rightarrow> instant \<times> 64 word" where
  "state_key e = (ce_event_timestamp e, ce_event_sequence_number e)"

definition latest_state_for_resource :: "event_store \<Rightarrow> reader \<Rightarrow> string \<Rightarrow> canonical_event option" where
  "latest_state_for_resource s ctx r =
     max_by_key state_key (filter (visible_to ctx) (resource_events s (rd_tenant_id ctx) r))"

definition derive_pr_state :: "string \<Rightarrow> string" where
  "derive_pr_state ty =
     (if ty \<in> {''pull_request.opened'', ''pull_request.reopened''} then ''OPEN''
      else if ty = ''pull_request.closed'' then ''CLOSED''
      else if ty = ''pull_request.merged'' then ''MERGED''
      else if ty = ''pull_request.synchronize'' then ''OPEN''
      else if contains ty ''closed'' then ''CLOSED''
      else if contains ty ''opened'' then ''OPEN''
      else ''UNKNOWN'')"

definition pr_state :: "event_store \<Rightarrow> reader \<Rightarrow> string \<Rightarrow> string option" where
  "pr_state s ctx r = map_option (\<lambda>e. derive_pr_state (ce_event_type e)) (latest_state_for_resource s ctx r)"

definition tenant_stats :: "event_store \<Rightarrow> (string \<times> nat) list" where
  "tenant_stats s = map (\<lambda>(t, m). (t, length m)) (es_by_id s)"

record event_persist_snapshot =
  ep_version :: nat
  ep_saved_at :: "string option"
  ep_events :: "canonical_event list"

definition export_events :: "string \<Rightarrow> event_store \<Rightarrow> event_persist_snapshot" where
  "export_events saved_at s =
     \<lparr>ep_version = 1, ep_saved_at = Some saved_at,
      ep_events = concat (map (\<lambda>(t, m). map snd m) (es_by_id s))\<rparr>"

definition import_events :: "event_persist_snapshot \<Rightarrow> event_store \<Rightarrow> event_store" where
  "import_events snap s = fold upsert_no_persist (ep_events snap) s"

section \<open>What is stored after a history of upserts\<close>

definition store_of :: "canonical_event list \<Rightarrow> event_store" where
  "store_of es = fold upsert_no_persist es new_event_store"

lemma event_upsert_state:
  "es_by_id (snd (event_upsert e s)) = es_by_id (upsert_no_persist e s)"
  "es_by_resource (snd (event_upsert e s)) = es_by_resource (upsert_no_persist e s)"
  by (simp_all add: event_upsert_def Let_def)

text \<open>The event last written for a tenant and an id.\<close>

definition current :: "canonical_event list \<Rightarrow> string \<Rightarrow> string \<Rightarrow> canonical_event option" where
  "current es t i = find (\<lambda>e. ce_tenant_id e = t \<and> ce_event_id e = i) (rev es)"

lemma current_simps [simp]:
  "current [] t i = None"
  "current (es @ [e]) t i = (if ce_tenant_id e = t \<and> ce_event_id e = i then Some e else current es t i)"
  by (simp_all add: current_def)

lemma current_Some: "current es t i = Some e \<Longrightarrow> e \<in> set es \<and> ce_tenant_id e = t \<and> ce_event_id e = i"
  by (auto simp: current_def find_Some_iff in_set_conv_nth rev_nth intro: exI [of _ "length es - Suc _"])

lemma tenant_events_upsert [simp]:
  "tenant_events (upsert_no_persist e s) t =
     (if t = ce_tenant_id e then dm_put (ce_event_id e) e (tenant_events s t) else tenant_events s t)"
  by (simp add: upsert_no_persist_def tenant_events_def Let_def)

lemma store_of_snoc [simp]: "store_of (es @ [e]) = upsert_no_persist e (store_of es)"
  by (simp add: store_of_def)

lemma tenant_events_current: "dm_get (tenant_events (store_of es) t) i = current es t i"
proof (induction es rule: rev_induct)
  case Nil
  show ?case by (simp add: store_of_def tenant_events_def new_event_store_def)
qed auto

lemma tenant_events_keyed: "dm_keyed ce_event_id (tenant_events (store_of es) t)"
proof (induction es rule: rev_induct)
  case Nil
  show ?case by (simp add: store_of_def tenant_events_def new_event_store_def)
qed auto

lemma tenant_events_values:
  "set (map snd (tenant_events (store_of es) t)) = {e. current es t (ce_event_id e) = Some e}"
  "distinct (map snd (tenant_events (store_of es) t))"
proof -
  let ?m = "tenant_events (store_of es) t"
  have k: "dm_keyed ce_event_id ?m" by (rule tenant_events_keyed)
  then have ok: "dm_ok ?m" by (simp add: dm_keyed_def)
  have mem: "(i, e) \<in> set ?m \<longleftrightarrow> current es t i = Some e" for i e
    using dm_get_iff_mem [OF ok, of i e] tenant_events_current [of es t i] by simp
  have "e \<in> set (map snd ?m) \<longleftrightarrow> (\<exists>i. (i, e) \<in> set ?m)" for e by force
  also have "... e \<longleftrightarrow> current es t (ce_event_id e) = Some e" for e
    unfolding mem using current_Some [of es t _ e] by blast
  finally show "set (map snd ?m) = {e. current es t (ce_event_id e) = Some e}" by blast
  have "map ce_event_id (map snd ?m) = map fst ?m"
    using k by (auto simp: dm_keyed_def)
  then show "distinct (map snd ?m)"
    using ok by (metis dm_ok_def distinct_map)
qed

section \<open>Queries\<close>

lemma sorted_prefix_rest:
  assumes "sorted (map f xs)" "a \<in> set (take n xs)" "b \<in> set xs - set (take n xs)"
  shows "f a \<le> f b"
proof -
  have "b \<in> set (drop n xs)" using assms(3) by (metis DiffE UnE append_take_drop_id set_append)
  moreover have "sorted (map f (take n xs) @ map f (drop n xs))"
    using assms(1) by (simp flip: map_append)
  ultimately show ?thesis using assms(2) by (auto simp: sorted_append)
qed

lemma query_rows:
  assumes "rd_tenant_id ctx = eq_tenant_id q"
  shows "event_query_run s ctx q = Inr (take (max 1 (eq_limit q)) (sort_key (\<lambda>e. - ce_event_timestamp e)
    (filter (\<lambda>e. visible_to ctx e \<and> matches_query q e) (map snd (tenant_events s (eq_tenant_id q))))))"
  using assms by (simp add: event_query_run_def tenant_events_def split: option.split)

text \<open>
  After any history of upserts a query in the caller's own tenant returns, newest first and without
  repetition, events that are the last written for their id, visible to the caller and matching every
  filter; as many as the limit allows, and none that is left out is newer than one that is returned. A
  query for another tenant is refused.
\<close>

lemma query_is_exact:
  defines "shown es ctx q \<equiv> {e. current es (eq_tenant_id q) (ce_event_id e) = Some e \<and> visible_to ctx e \<and> matches_query q e}"
  shows "if rd_tenant_id ctx = eq_tenant_id q
    then \<exists>rs. event_query_run (store_of es) ctx q = Inr rs \<and> distinct rs \<and> set rs \<subseteq> shown es ctx q \<and>
      length rs = min (max 1 (eq_limit q)) (card (shown es ctx q)) \<and>
      sorted (map (\<lambda>e. - ce_event_timestamp e) rs) \<and>
      (\<nexists>r e. r \<in> set rs \<and> e \<in> shown es ctx q - set rs \<and> ce_event_timestamp r < ce_event_timestamp e)
    else event_query_run (store_of es) ctx q = Inl (CAclDenied ''query tenant_id does not match context'')"
proof (cases "rd_tenant_id ctx = eq_tenant_id q")
  case True
  let ?rows = "filter (\<lambda>e. visible_to ctx e \<and> matches_query q e) (map snd (tenant_events (store_of es) (eq_tenant_id q)))"
  let ?sorted = "sort_key (\<lambda>e. - ce_event_timestamp e) ?rows"
  let ?rs = "take (max 1 (eq_limit q)) ?sorted"
  have set: "set ?sorted = shown es ctx q" and d: "distinct ?sorted"
    using tenant_events_values [of es "eq_tenant_id q"] by (auto simp: shown_def)
  have card: "length ?sorted = card (shown es ctx q)"
    using distinct_card [OF d] set by simp
  have "\<not> ce_event_timestamp r < ce_event_timestamp e" if "r \<in> set ?rs" "e \<in> shown es ctx q - set ?rs" for r e
    using sorted_prefix_rest [of "\<lambda>e. - ce_event_timestamp e" ?sorted r _ e] that set by fastforce
  moreover have "set ?rs \<subseteq> shown es ctx q" using set_take_subset [of _ ?sorted] set by blast
  moreover have "length ?rs = min (max 1 (eq_limit q)) (card (shown es ctx q))" using card by simp
  moreover have "sorted (map (\<lambda>e. - ce_event_timestamp e) ?rs)"
    by (simp add: take_map [symmetric] sorted_wrt_take)
  ultimately show ?thesis
    using query_rows [OF True, of "store_of es"] d distinct_take True by auto
qed (simp add: event_query_run_def)

section \<open>State of a resource\<close>

lemma resource_events_upsert [simp]:
  "resource_events (upsert_no_persist e s) t r =
     (if t = ce_tenant_id e \<and> r = ce_resource_id e
      then sort_key ce_event_timestamp (upsert_by ce_event_id e (resource_events s t r))
      else resource_events s t r)"
  by (auto simp: upsert_no_persist_def resource_events_def Let_def)

lemma distinct_sort_keys: "distinct (map f (sort_key g xs)) = distinct (map f xs)"
  by (metis (no_types, lifting) mset_map mset_sort mset_eq_imp_distinct_iff)

lemma resource_events_distinct: "distinct (map ce_event_id (resource_events (store_of es) t r))"
proof (induction es rule: rev_induct)
  case Nil
  show ?case by (simp add: store_of_def resource_events_def new_event_store_def)
next
  case (snoc e es)
  then show ?case by (auto simp: distinct_sort_keys intro!: distinct_upsert_by)
qed

text \<open>Deliveries of one event agree: an id names one event.\<close>

definition consistent_ids :: "canonical_event set \<Rightarrow> bool" where
  "consistent_ids E \<longleftrightarrow> (\<forall>a \<in> E. \<forall>b \<in> E. ce_event_id a = ce_event_id b \<longrightarrow> a = b)"

lemma resource_events_set:
  assumes "consistent_ids (set es)"
  shows "set (resource_events (store_of es) t r) = {e \<in> set es. ce_tenant_id e = t \<and> ce_resource_id e = r}"
  using assms
proof (induction es rule: rev_induct)
  case Nil
  show ?case by (simp add: store_of_def resource_events_def new_event_store_def)
next
  case (snoc e es)
  have "consistent_ids (set es)" using snoc.prems by (simp add: consistent_ids_def)
  note IH = snoc.IH [OF this]
  have same: "y = e" if "y \<in> set es" "ce_event_id y = ce_event_id e" for y
    using snoc.prems that by (simp add: consistent_ids_def)
  show ?case
    using IH same set_upsert_by [OF resource_events_distinct [of es t r], of e] by auto
qed

lemma max_by_key_fold:
  fixes key :: "'a \<Rightarrow> 'b::linorder"
  shows "fold (\<lambda>x best. case best of None \<Rightarrow> Some x | Some b \<Rightarrow> if key b \<le> key x then Some x else Some b) xs (Some a)
     = Some m \<Longrightarrow> m \<in> insert a (set xs) \<and> (\<forall>x \<in> insert a (set xs). key x \<le> key m)"
proof (induction xs arbitrary: a)
  case (Cons x xs)
  show ?case
  proof (cases "key a \<le> key x")
    case True
    then have "m \<in> insert x (set xs) \<and> (\<forall>y \<in> insert x (set xs). key y \<le> key m)"
      using Cons.prems by (intro Cons.IH) simp
    with True show ?thesis using order_trans [of "key a" "key x" "key m"] by auto
  next
    case False
    then have "m \<in> insert a (set xs) \<and> (\<forall>y \<in> insert a (set xs). key y \<le> key m)"
      using Cons.prems by (intro Cons.IH) simp
    with False show ?thesis by auto
  qed
qed simp

lemma max_by_key_Some:
  fixes key :: "'a \<Rightarrow> 'b::linorder"
  assumes "max_by_key key xs = Some m"
  shows "m \<in> set xs" "\<And>x. x \<in> set xs \<Longrightarrow> key x \<le> key m"
proof -
  obtain y ys where xs: "xs = y # ys" using assms by (cases xs) (simp_all add: max_by_key_def)
  with assms max_by_key_fold [of key ys y m] show "m \<in> set xs" "\<And>x. x \<in> set xs \<Longrightarrow> key x \<le> key m"
    by (auto simp: max_by_key_def)
qed

lemma max_by_key_None:
  fixes key :: "'a \<Rightarrow> 'b::linorder"
  shows "max_by_key key xs = None \<longleftrightarrow> xs = []"
proof -
  have "fold (\<lambda>x best. case best of None \<Rightarrow> Some x | Some b \<Rightarrow> if key b \<le> key x then Some x else Some b) ys (Some a) \<noteq> None"
    for ys and a :: 'a
    by (induction ys arbitrary: a) auto
  then show ?thesis by (cases xs) (simp_all add: max_by_key_def)
qed

definition seen_events :: "canonical_event set \<Rightarrow> reader \<Rightarrow> string \<Rightarrow> canonical_event set" where
  "seen_events E ctx r =
     {e \<in> E. ce_tenant_id e = rd_tenant_id ctx \<and> ce_resource_id e = r \<and> visible_to ctx e}"

definition is_latest :: "canonical_event set \<Rightarrow> canonical_event option \<Rightarrow> bool" where
  "is_latest S answer \<longleftrightarrow>
     (case answer of
        None \<Rightarrow> S = {}
      | Some e \<Rightarrow> e \<in> S \<and> (\<forall>e' \<in> S - {e}. state_key e' < state_key e))"

lemma is_latest_unique: "is_latest S a \<Longrightarrow> is_latest S b \<Longrightarrow> a = b"
  unfolding is_latest_def by (cases a; cases b; simp) (metis DiffI empty_iff insert_iff less_asym)+

lemma latest_state_decided:
  assumes "consistent_ids (set es)" "inj_on state_key (seen_events (set es) ctx r)"
  shows "is_latest (seen_events (set es) ctx r) (latest_state_for_resource (store_of es) ctx r)"
proof -
  let ?xs = "filter (visible_to ctx) (resource_events (store_of es) (rd_tenant_id ctx) r)"
  let ?seen = "seen_events (set es) ctx r"
  have set: "set ?xs = ?seen" using resource_events_set [OF assms(1)] by (auto simp: seen_events_def)
  show ?thesis
  proof (cases "latest_state_for_resource (store_of es) ctx r")
    case None
    then have "set ?xs = {}" by (simp only: latest_state_for_resource_def max_by_key_None set_empty)
    with set None show ?thesis by (simp add: is_latest_def)
  next
    case (Some e)
    then have m: "max_by_key state_key ?xs = Some e" by (simp only: latest_state_for_resource_def)
    have e: "e \<in> ?seen" "\<And>x. x \<in> ?seen \<Longrightarrow> state_key x \<le> state_key e"
      using max_by_key_Some [OF m] set by auto
    then have "state_key e' < state_key e" if "e' \<in> ?seen - {e}" for e'
      using assms(2) that by (metis DiffE inj_on_contraD insertI1 order_le_imp_less_or_eq)
    with Some e show ?thesis by (simp add: is_latest_def)
  qed
qed

text \<open>
  The state of a resource depends neither on the order in which its events arrive nor on
  redeliveries: it is the event visible to the caller with the latest origin time (and the greatest
  sequence number among those), and there is none exactly when the caller sees no event of the resource.
\<close>

lemma latest_state_ignores_arrival_order:
  assumes "consistent_ids (set es)" "inj_on state_key (seen_events (set es) ctx r)" "set es' = set es"
  shows "latest_state_for_resource (store_of es') ctx r = latest_state_for_resource (store_of es) ctx r \<and>
    is_latest (seen_events (set es) ctx r) (latest_state_for_resource (store_of es) ctx r)"
  using latest_state_decided [of es ctx r] latest_state_decided [of es' ctx r] is_latest_unique assms by simp

definition sample_pr :: "string \<Rightarrow> string \<Rightarrow> instant \<Rightarrow> canonical_event" where
  "sample_pr i ty ts =
     \<lparr>ce_event_id = i, ce_tenant_id = ''ten'', ce_provider = Github, ce_category = CatCode, ce_event_type = ty,
      ce_event_timestamp = ts, ce_ingested_at = 9, ce_actor = no_actor,
      ce_acl = \<lparr>al_tenant_id = ''ten'', al_allowed_group_ids = [], al_is_private = False, al_acl_version = 1\<rparr>,
      ce_resource_id = ''repo/pr/1'', ce_parent_resource_id = ''repo'', ce_attributes = JObj [],
      ce_raw_payload_s3_uri = [], ce_event_sequence_number = 1\<rparr>"

definition sample_reader :: reader where
  "sample_reader = \<lparr>rd_tenant_id = ''ten'', rd_global_user_id = ''u'', rd_group_ids = []\<rparr>"

lemma latest_state_ignores_arrival_order_witness:
  "latest_state_for_resource (store_of [sample_pr ''b'' ''pull_request.closed'' 5, sample_pr ''a'' ''pull_request.opened'' 0,
       sample_pr ''b'' ''pull_request.closed'' 5]) sample_reader ''repo/pr/1''
     = latest_state_for_resource (store_of [sample_pr ''a'' ''pull_request.opened'' 0,
       sample_pr ''b'' ''pull_request.closed'' 5]) sample_reader ''repo/pr/1''
   \<and> is_latest (seen_events {sample_pr ''a'' ''pull_request.opened'' 0, sample_pr ''b'' ''pull_request.closed'' 5}
       sample_reader ''repo/pr/1'')
     (latest_state_for_resource (store_of [sample_pr ''a'' ''pull_request.opened'' 0,
       sample_pr ''b'' ''pull_request.closed'' 5]) sample_reader ''repo/pr/1'')"
proof -
  let ?es = "[sample_pr ''a'' ''pull_request.opened'' 0, sample_pr ''b'' ''pull_request.closed'' 5]"
  have "consistent_ids (set ?es)" by (simp add: consistent_ids_def sample_pr_def)
  moreover have "inj_on state_key (seen_events (set ?es) sample_reader ''repo/pr/1'')"
    by (rule inj_on_subset [of _ "set ?es"]) (auto simp: inj_on_def state_key_def sample_pr_def seen_events_def)
  ultimately show ?thesis
    using latest_state_ignores_arrival_order [where es = ?es and ctx = sample_reader and r = "''repo/pr/1''" and
        es' = "[sample_pr ''b'' ''pull_request.closed'' 5, sample_pr ''a'' ''pull_request.opened'' 0,
          sample_pr ''b'' ''pull_request.closed'' 5]"]
    by auto
qed

text \<open>
  An older version of an event overwrites a newer one that arrived before it, and an event that comes back
  with another resource stays listed under the old one.
\<close>

lemma older_version_overwrites:
  "get_raw (upsert_no_persist old (upsert_no_persist new s)) (ce_tenant_id old) (ce_event_id old) = Some old"
  by (simp add: get_raw_def upsert_no_persist_def Let_def)

lemma moved_event_stays_listed:
  assumes "ce_tenant_id e' = ce_tenant_id e" "ce_resource_id e' \<noteq> ce_resource_id e"
  shows "e \<in> set (resource_events (upsert_no_persist e' (upsert_no_persist e s)) (ce_tenant_id e) (ce_resource_id e))"
  using assms by simp

lemma store_of_ok: "dm_ok (es_by_id (store_of es))"
proof (induction es rule: rev_induct)
  case Nil
  show ?case by (simp add: store_of_def new_event_store_def)
next
  case (snoc e es)
  then show ?case by (simp add: upsert_no_persist_def Let_def)
qed

lemma events_snapshot: "set (ep_events (export_events at (store_of es)))
    = {e. current es (ce_tenant_id e) (ce_event_id e) = Some e}"
proof -
  let ?s = "store_of es"
  have tenant: "(\<exists>m. (t, m) \<in> set (es_by_id ?s) \<and> e \<in> set (map snd m)) \<longleftrightarrow> e \<in> set (map snd (tenant_events ?s t))" for t e
    by (cases "dm_get (es_by_id ?s) t") (simp_all add: tenant_events_def flip: dm_get_iff_mem [OF store_of_ok])
  have "e \<in> set (ep_events (export_events at ?s)) \<longleftrightarrow> (\<exists>t m. (t, m) \<in> set (es_by_id ?s) \<and> e \<in> set (map snd m))" for e
    by (force simp: export_events_def)
  also have "... e \<longleftrightarrow> current es (ce_tenant_id e) (ce_event_id e) = Some e" for e
    unfolding tenant tenant_events_values using current_Some by blast
  finally show ?thesis by blast
qed

text \<open>A restart keeps every event: what the snapshot restores is what was stored.\<close>

lemma current_None: "current es t i = None \<Longrightarrow> e \<in> set es \<Longrightarrow> ce_tenant_id e = t \<Longrightarrow> ce_event_id e \<noteq> i"
  by (auto simp: current_def find_None_iff)

lemma current_restored: "current (ep_events (export_events at (store_of es))) t i = current es t i"
proof -
  let ?xs = "ep_events (export_events at (store_of es))"
  note set = events_snapshot [of at es]
  show ?thesis
  proof (cases "current es t i")
    case (Some e)
    then have e: "e \<in> set ?xs" "ce_tenant_id e = t" "ce_event_id e = i" using set current_Some [OF Some] by auto
    then obtain e' where e': "current ?xs t i = Some e'" using current_None by (cases "current ?xs t i") blast+
    from current_Some [OF this] have "current es t i = Some e'" using set by auto
    with e' Some show ?thesis by simp
  next
    case None
    then show ?thesis
      using set current_Some [of ?xs t i] by (cases "current ?xs t i") auto
  qed
qed

lemma events_restart:
  "get_raw (import_events (export_events at (store_of es)) new_event_store) t i = get_raw (store_of es) t i"
proof -
  have raw: "get_raw s t i = dm_get (tenant_events s t) i" for s
    by (cases "dm_get (es_by_id s) t") (simp_all add: get_raw_def tenant_events_def)
  have "import_events (export_events at (store_of es)) new_event_store = store_of (ep_events (export_events at (store_of es)))"
    by (simp add: import_events_def store_of_def)
  then show ?thesis by (simp add: raw tenant_events_current current_restored)
qed

end
