(* ===== verification/Telemetry_Bus.thy ===== *)
theory Telemetry_Bus
  imports Telemetry_Model
begin

text \<open>
  The in-process message bus (\<open>telemetry-core/src/bus.rs\<close>): per topic a log of the latest
  messages with their sequence numbers, and a cursor per consumer group that all subscriptions of the
  group share. The live broadcast channel is the program's wake-up: what a receive from it returns is a
  parameter (\<open>live\<close>) of the operations that read it. Sequence numbers are natural numbers: the
  counter would wrap after \<open>2^64\<close> messages.
\<close>

section \<open>State\<close>

record 'm topic_data =
  ts_log :: "(nat \<times> 'm) list"
  ts_seq :: nat
  ts_cursors :: "(string, nat) dashmap"

record 'm bus =
  bu_topics :: "(bus_topic, 'm topic_data) dashmap"
  bu_durable_cap :: nat

definition default_durable_cap :: nat where
  "default_durable_cap = 100000"

definition empty_topic :: "'m topic_data" where
  "empty_topic = \<lparr>ts_log = [], ts_seq = 0, ts_cursors = []\<rparr>"

definition new_bus :: "bus_message bus" where
  "new_bus = \<lparr>bu_topics = [], bu_durable_cap = default_durable_cap\<rparr>"

definition topic_state :: "bus_topic \<Rightarrow> 'm bus \<Rightarrow> 'm topic_data" where
  "topic_state t b = unwrap_or (dm_get (bu_topics b) t) empty_topic"

definition set_topic :: "bus_topic \<Rightarrow> 'm topic_data \<Rightarrow> 'm bus \<Rightarrow> 'm bus" where
  "set_topic t s b = b\<lparr>bu_topics := dm_put t s (bu_topics b)\<rparr>"

section \<open>Operations\<close>

text \<open>The append with the loop that drops the oldest messages above the capacity.\<close>

fun drop_above :: "nat \<Rightarrow> 'a list \<Rightarrow> 'a list" where
  "drop_above cap [] = []"
| "drop_above cap (x # xs) = (if cap < length (x # xs) then drop_above cap xs else x # xs)"

definition topic_publish :: "nat \<Rightarrow> 'm \<Rightarrow> 'm topic_data \<Rightarrow> 'm topic_data" where
  "topic_publish cap m s =
     (let seq = ts_seq s + 1 in s\<lparr>ts_seq := seq, ts_log := drop_above cap (ts_log s @ [(seq, m)])\<rparr>)"

definition bus_publish :: "bus_message \<Rightarrow> bus_message bus \<Rightarrow> (core_error + unit) \<times> bus_message bus" where
  "bus_publish m b =
     (let t = bm_topic m
      in (Inr (), set_topic t (topic_publish (bu_durable_cap b) m (topic_state t b)) b))"

definition cursor_of :: "string \<Rightarrow> 'm topic_data \<Rightarrow> nat" where
  "cursor_of g s = unwrap_or (dm_get (ts_cursors s) g) 0"

definition topic_subscribe :: "string \<Rightarrow> 'm topic_data \<Rightarrow> 'm topic_data" where
  "topic_subscribe g s = s\<lparr>ts_cursors := dm_put g (cursor_of g s) (ts_cursors s)\<rparr>"

definition bus_subscribe :: "bus_topic \<Rightarrow> string \<Rightarrow> 'm bus \<Rightarrow> 'm bus" where
  "bus_subscribe t g b = set_topic t (topic_subscribe g (topic_state t b)) b"

definition bus_lag :: "bus_topic \<Rightarrow> string \<Rightarrow> 'm bus \<Rightarrow> nat" where
  "bus_lag t g b = (let s = topic_state t b in ts_seq s - cursor_of g s)"

definition next_from_log :: "string \<Rightarrow> 'm topic_data \<Rightarrow> 'm option \<times> 'm topic_data" where
  "next_from_log g s =
     (case find (\<lambda>(seq, m). cursor_of g s < seq) (ts_log s) of
        Some (seq, m) \<Rightarrow> (Some m, s\<lparr>ts_cursors := dm_put g seq (ts_cursors s)\<rparr>)
      | None \<Rightarrow> (None, s))"

datatype 'm live = LiveMessage 'm | Lagged | Closed

text \<open>
  \<open>try_recv\<close>: the log, then the live channel (\<open>None\<close>: empty), then the log as the
  publishers have left it meanwhile (\<open>later\<close>).
\<close>

definition try_recv ::
  "string \<Rightarrow> 'm live option \<Rightarrow> ('m topic_data \<Rightarrow> 'm topic_data) \<Rightarrow> 'm topic_data \<Rightarrow>
   'm option \<times> 'm topic_data" where
  "try_recv g live later s =
     (case next_from_log g s of
        (Some m, s1) \<Rightarrow> (Some m, s1)
      | (None, s1) \<Rightarrow>
          (case live of
             Some (LiveMessage _) \<Rightarrow> next_from_log g (later s1)
           | Some Lagged \<Rightarrow> next_from_log g (later s1)
           | Some Closed \<Rightarrow> (None, later s1)
           | None \<Rightarrow> (None, later s1)))"

text \<open>
  \<open>recv\<close> waits on the live channel and goes round when it lagged. The wake-ups are a list, each
  with what the publishers did meanwhile; running out of them means still waiting.
\<close>

fun recv ::
  "string \<Rightarrow> ('m live \<times> ('m topic_data \<Rightarrow> 'm topic_data)) list \<Rightarrow> 'm topic_data \<Rightarrow>
   (core_error + 'm) option \<times> 'm topic_data" where
  "recv g wakes s =
     (case next_from_log g s of
        (Some m, s1) \<Rightarrow> (Some (Inr m), s1)
      | (None, s1) \<Rightarrow>
          (case wakes of
             [] \<Rightarrow> (None, s1)
           | (live, later) # ws \<Rightarrow>
               (case live of
                  LiveMessage m \<Rightarrow>
                    (case next_from_log g (later s1) of
                       (Some m', s2) \<Rightarrow> (Some (Inr m'), s2)
                     | (None, s2) \<Rightarrow> (Some (Inr m), s2))
                | Lagged \<Rightarrow> recv g ws (later s1)
                | Closed \<Rightarrow> (Some (Inl (CBus ''channel closed'')), later s1))))"

fun drain_log_n :: "nat \<Rightarrow> string \<Rightarrow> 'm topic_data \<Rightarrow> 'm list \<times> 'm topic_data" where
  "drain_log_n 0 g s = ([], s)"
| "drain_log_n (Suc n) g s =
     (case next_from_log g s of
        (Some m, s1) \<Rightarrow> (let (ms, s2) = drain_log_n n g s1 in (m # ms, s2))
      | (None, s1) \<Rightarrow> ([], s1))"

definition drain_log :: "string \<Rightarrow> 'm topic_data \<Rightarrow> 'm list \<times> 'm topic_data" where
  "drain_log g s = drain_log_n (Suc (length (ts_log s))) g s"

section \<open>The log of a topic\<close>

lemma drop_above_eq: "drop_above cap xs = drop (length xs - cap) xs"
  by (induction xs) (auto simp: Suc_diff_le not_less)

text \<open>
  The invariant: the log holds the last messages of everything published so far (\<open>hist\<close>) with
  their positions, at most \<open>cap\<close> of them and all of them as long as there are no more.
\<close>

definition log_inv :: "nat \<Rightarrow> 'm list \<Rightarrow> 'm topic_data \<Rightarrow> bool" where
  "log_inv cap hist s \<longleftrightarrow>
     ts_seq s = length hist \<and>
     ts_log s = drop (length hist - cap) (zip [1..<Suc (length hist)] hist)"

lemma log_inv_empty: "log_inv cap [] empty_topic"
  by (simp add: log_inv_def empty_topic_def)

lemma log_inv_publish:
  assumes "log_inv cap hist s"
  shows "log_inv cap (hist @ [m]) (topic_publish cap m s)"
proof -
  let ?n = "length hist"
  let ?z = "zip [1..<Suc ?n] hist"
  have z: "zip [1..<Suc (length (hist @ [m]))] (hist @ [m]) = ?z @ [(Suc ?n, m)]"
    by (simp del: upt_Suc add: upt_Suc_append)
  have l: "ts_log s = drop (?n - cap) ?z" and q: "ts_seq s = ?n"
    using assms by (simp_all add: log_inv_def)
  have "drop_above cap (ts_log s @ [(Suc ?n, m)]) = drop (Suc ?n - cap) (?z @ [(Suc ?n, m)])"
  proof -
    have zl: "length ?z = ?n" by (simp del: upt_Suc)
    then have a: "drop (?n - cap) ?z @ [(Suc ?n, m)] = drop (?n - cap) (?z @ [(Suc ?n, m)])"
      by (simp del: upt_Suc)
    have "length (?z @ [(Suc ?n, m)]) - (?n - cap) - cap + (?n - cap) = Suc ?n - cap"
      unfolding length_append zl by auto
    then show ?thesis
      unfolding drop_above_eq l a by (simp only: drop_drop length_drop)
  qed
  then show ?thesis
    using q z by (simp add: log_inv_def topic_publish_def Let_def)
qed

lemma find_first_above:
  assumes "\<And>i. i < length xs \<Longrightarrow> fst (xs ! i) = a + i + 1"
  shows "find (\<lambda>(seq, m). c < seq) xs = (if c - a < length xs then Some (xs ! (c - a)) else None)"
  using assms
proof (induction xs arbitrary: a)
  case (Cons x xs)
  have x: "fst x = Suc a" using Cons.prems [of 0] by simp
  show ?case
  proof (cases "c < Suc a")
    case True
    then show ?thesis using x by (simp add: case_prod_beta)
  next
    case False
    have "fst (xs ! i) = Suc a + i + 1" if "i < length xs" for i
      using Cons.prems [of "Suc i"] that by simp
    note IH = Cons.IH [OF this]
    have "c - a = Suc (c - Suc a)" using False by simp
    then show ?thesis using False x IH by (simp add: case_prod_beta)
  qed
qed simp

text \<open>The next message of a group: the one after its cursor, or the oldest that is left.\<close>

definition next_pos :: "nat \<Rightarrow> 'm list \<Rightarrow> nat \<Rightarrow> nat" where
  "next_pos cap hist c = max c (length hist - cap)"

lemma next_from_log_eq:
  assumes "log_inv cap hist s"
  shows "next_from_log g s =
    (let p = next_pos cap hist (cursor_of g s) in
     if p < length hist then (Some (hist ! p), s\<lparr>ts_cursors := dm_put g (Suc p) (ts_cursors s)\<rparr>) else (None, s))"
proof -
  let ?d = "length hist - cap" and ?c = "cursor_of g s"
  have log: "ts_log s = drop ?d (zip [1..<Suc (length hist)] hist)" using assms by (simp add: log_inv_def)
  have len: "length (ts_log s) = length hist - ?d" unfolding log by (simp del: upt_Suc)
  have nth: "ts_log s ! i = (Suc (?d + i), hist ! (?d + i))" if "i < length (ts_log s)" for i
    using that unfolding len unfolding log by (simp del: upt_Suc add: nth_zip)
  have "find (\<lambda>(seq, m). ?c < seq) (ts_log s) =
      (if ?c - ?d < length (ts_log s) then Some (ts_log s ! (?c - ?d)) else None)"
    by (rule find_first_above) (simp add: nth)
  moreover have "?c - ?d < length (ts_log s) \<longleftrightarrow> next_pos cap hist ?c < length hist"
    "?d + (?c - ?d) = next_pos cap hist ?c"
    using len by (auto simp: next_pos_def max_def)
  ultimately show ?thesis
    by (simp add: next_from_log_def Let_def nth)
qed

section \<open>Histories of a topic\<close>

datatype 'm topic_op = Publish 'm | Subscribe string | Receive string

fun topic_step :: "nat \<Rightarrow> 'm topic_op \<Rightarrow> 'm topic_data \<Rightarrow> 'm topic_data" where
  "topic_step cap (Publish m) s = topic_publish cap m s"
| "topic_step cap (Subscribe g) s = topic_subscribe g s"
| "topic_step cap (Receive g) s = snd (next_from_log g s)"

definition topic_run :: "nat \<Rightarrow> 'm topic_op list \<Rightarrow> 'm topic_data \<Rightarrow> 'm topic_data" where
  "topic_run cap ops s = fold (topic_step cap) ops s"

fun published :: "'m topic_op list \<Rightarrow> 'm list" where
  "published [] = []"
| "published (Publish m # ops) = m # published ops"
| "published (_ # ops) = published ops"

fun delivered :: "nat \<Rightarrow> string \<Rightarrow> 'm topic_op list \<Rightarrow> 'm topic_data \<Rightarrow> 'm list" where
  "delivered cap g [] s = []"
| "delivered cap g (op # ops) s =
     (if op = Receive g then case fst (next_from_log g s) of Some m \<Rightarrow> [m] | None \<Rightarrow> [] else [])
     @ delivered cap g ops (topic_step cap op s)"

lemma published_append [simp]: "published (as @ bs) = published as @ published bs"
  by (induction as rule: published.induct) simp_all

lemma delivered_append:
  "delivered cap g (as @ bs) s = delivered cap g as s @ delivered cap g bs (topic_run cap as s)"
  by (induction as arbitrary: s) (simp_all add: topic_run_def)

lemma topic_run_append: "topic_run cap (as @ bs) s = topic_run cap bs (topic_run cap as s)"
  by (simp add: topic_run_def)

lemma cursor_of_put: "cursor_of g (s\<lparr>ts_cursors := dm_put g' c (ts_cursors s)\<rparr>) = (if g = g' then c else cursor_of g s)"
  by (simp add: cursor_of_def)

lemma cursor_of_publish [simp]: "cursor_of g (topic_publish cap m s) = cursor_of g s"
  by (simp add: cursor_of_def topic_publish_def Let_def)

lemma cursor_of_subscribe [simp]: "cursor_of g (topic_subscribe g' s) = cursor_of g s"
  unfolding topic_subscribe_def cursor_of_put by simp

lemma log_inv_cursors [simp]: "log_inv cap hist (s\<lparr>ts_cursors := cs\<rparr>) = log_inv cap hist s"
  by (simp add: log_inv_def)

lemma log_inv_run: "log_inv cap (published ops) (topic_run cap ops empty_topic)"
proof (induction ops rule: rev_induct)
  case Nil
  show ?case by (simp add: topic_run_def log_inv_empty)
next
  case (snoc op ops)
  then show ?case
    by (cases op) (auto simp: topic_run_append topic_run_def [of cap "[_]"] log_inv_publish topic_subscribe_def
        next_from_log_eq [OF snoc.IH] Let_def)
qed

text \<open>What a group has received: a subsequence of what lies before its cursor, and all of it while nothing was dropped.\<close>

definition received_inv :: "nat \<Rightarrow> 'm list \<Rightarrow> nat \<Rightarrow> 'm list \<Rightarrow> bool" where
  "received_inv cap hist c ms \<longleftrightarrow>
     c \<le> length hist \<and> subseq ms (take c hist) \<and> (length hist \<le> cap \<longrightarrow> ms = take c hist)"

lemma received_inv_publish: "received_inv cap hist c ms \<Longrightarrow> received_inv cap (hist @ [m]) c ms"
  by (auto simp: received_inv_def)

lemma received_inv_receive:
  assumes "received_inv cap hist c ms" "next_pos cap hist c < length hist"
  shows "received_inv cap hist (Suc (next_pos cap hist c)) (ms @ [hist ! next_pos cap hist c])"
proof -
  let ?p = "next_pos cap hist c"
  have t: "take (Suc ?p) hist = take ?p hist @ [hist ! ?p]" using assms(2) by (rule take_Suc_conv_app_nth)
  have "prefix (take c hist) (take ?p hist)"
    by (metis next_pos_def max.cobounded1 min.absorb1 take_is_prefix take_take)
  then have "subseq ms (take ?p hist)"
    using assms(1) by (meson received_inv_def prefix_imp_subseq subseq_order.order_trans)
  moreover have "length hist \<le> cap \<Longrightarrow> ?p = c" by (simp add: next_pos_def)
  ultimately show ?thesis
    using assms unfolding received_inv_def t by (auto simp: list_emb_append_mono)
qed

lemma received_run:
  "received_inv cap (published ops) (cursor_of g (topic_run cap ops empty_topic)) (delivered cap g ops empty_topic)"
proof (induction ops rule: rev_induct)
  case Nil
  show ?case by (simp add: received_inv_def topic_run_def cursor_of_def empty_topic_def)
next
  case (snoc op ops)
  let ?s = "topic_run cap ops empty_topic"
  note inv = log_inv_run [of cap ops]
  show ?case
  proof (cases op)
    case (Publish m)
    then show ?thesis using received_inv_publish [OF snoc.IH]
      by (simp add: topic_run_append topic_run_def [of cap "[_]"] delivered_append)
  next
    case (Subscribe g')
    then show ?thesis using snoc.IH
      by (simp add: topic_run_append topic_run_def [of cap "[_]"] delivered_append)
  next
    case (Receive g')
    show ?thesis
    proof (cases "g' = g \<and> next_pos cap (published ops) (cursor_of g ?s) < length (published ops)")
      case True
      then show ?thesis using received_inv_receive [OF snoc.IH] Receive
        by (simp add: topic_run_append topic_run_def [of cap "[_]"] delivered_append next_from_log_eq [OF inv] Let_def
            cursor_of_put)
    next
      case False
      then show ?thesis using snoc.IH Receive
        by (auto simp: topic_run_append topic_run_def [of cap "[_]"] delivered_append next_from_log_eq [OF inv] Let_def
            cursor_of_put)
    qed
  qed
qed

text \<open>Draining is receiving until nothing is left.\<close>

lemma next_from_log_none: "next_from_log g s = (None, s') \<Longrightarrow> s' = s"
  by (auto simp: next_from_log_def split: option.splits)

lemma receive_none:
  "fst (next_from_log g s) = None \<Longrightarrow>
   delivered cap g (replicate n (Receive g)) s = [] \<and> topic_run cap (replicate n (Receive g)) s = s"
proof (induction n)
  case (Suc n)
  then have "snd (next_from_log g s) = s" using next_from_log_none [of g s "snd (next_from_log g s)"]
    by (metis prod.collapse)
  with Suc show ?case by (simp add: topic_run_def)
qed (simp add: topic_run_def)

lemma drain_is_receives:
  "drain_log_n n g s =
     (delivered cap g (replicate n (Receive g)) s, topic_run cap (replicate n (Receive g)) s)"
proof (induction n arbitrary: s)
  case (Suc n)
  show ?case
  proof (cases "next_from_log g s")
    case (Pair r s1)
    show ?thesis
    proof (cases r)
      case None
      then show ?thesis
        using Pair receive_none [of g s cap "Suc n"] next_from_log_none [of g s s1] by simp
    next
      case (Some m)
      then show ?thesis using Pair Suc [of s1] by (simp add: topic_run_def)
    qed
  qed
qed (simp add: topic_run_def)

lemma receives_exhaust:
  assumes "log_inv cap hist s" "length hist - next_pos cap hist (cursor_of g s) \<le> n"
  shows "length hist \<le> next_pos cap hist (cursor_of g (topic_run cap (replicate n (Receive g)) s))"
  using assms
proof (induction n arbitrary: s)
  case (Suc n)
  let ?p = "next_pos cap hist (cursor_of g s)"
  show ?case
  proof (cases "?p < length hist")
    case True
    let ?s = "s\<lparr>ts_cursors := dm_put g (Suc ?p) (ts_cursors s)\<rparr>"
    have "next_pos cap hist (cursor_of g ?s) = Suc ?p" by (simp add: cursor_of_put next_pos_def)
    then have "length hist - next_pos cap hist (cursor_of g ?s) \<le> n" using Suc.prems True by simp
    with Suc.IH [of ?s] Suc.prems(1) True show ?thesis
      by (simp add: topic_run_def next_from_log_eq [OF Suc.prems(1)] Let_def)
  next
    case False
    then have "fst (next_from_log g s) = None" using next_from_log_eq [OF Suc.prems(1), of g] by (simp add: Let_def)
    with False show ?thesis using receive_none [of g s cap "Suc n"] by simp
  qed
qed (simp add: topic_run_def)

lemma received_then_drained:
  fixes ops :: "'m topic_op list" and cap :: nat and g :: string
  defines "got \<equiv> delivered cap g ops empty_topic @ fst (drain_log g (topic_run cap ops empty_topic))"
  shows "subseq got (published ops)" "length (published ops) \<le> cap \<Longrightarrow> got = published ops"
proof -
  let ?s = "topic_run cap ops empty_topic"
  let ?n = "Suc (length (ts_log ?s))"
  let ?ops = "ops @ replicate ?n (Receive g)"
  have p: "published (replicate k (Receive g) :: 'm topic_op list) = []" for k :: nat
    by (induction k) simp_all
  have got: "got = delivered cap g ?ops empty_topic"
    unfolding got_def drain_log_def drain_is_receives [where cap = cap] delivered_append by simp
  have r: "received_inv cap (published ops) (cursor_of g (topic_run cap ?ops empty_topic)) got"
    using received_run [of cap ?ops g] p unfolding got by simp
  then show "subseq got (published ops)"
    by (meson received_inv_def prefix_imp_subseq subseq_order.order_trans take_is_prefix)
  assume small: "length (published ops) \<le> cap"
  note inv = log_inv_run [of cap ops]
  have "length (ts_log ?s) = length (published ops)"
    using inv small by (simp add: log_inv_def del: upt_Suc)
  then have "length (published ops) - next_pos cap (published ops) (cursor_of g ?s) \<le> ?n" by simp
  from receives_exhaust [OF inv this] small
  have "length (published ops) \<le> cursor_of g (topic_run cap ?ops empty_topic)"
    by (simp add: topic_run_append next_pos_def del: replicate.simps)
  with r small show "got = published ops" by (simp add: received_inv_def)
qed

section \<open>Histories of the bus\<close>

datatype bus_op = BPublish bus_message | BSubscribe bus_topic string
  | BTryRecv bus_topic string "bus_message live option"

fun bus_step :: "bus_op \<Rightarrow> bus_message bus \<Rightarrow> bus_message bus" where
  "bus_step (BPublish m) b = snd (bus_publish m b)"
| "bus_step (BSubscribe t g) b = bus_subscribe t g b"
| "bus_step (BTryRecv t g live) b = set_topic t (snd (try_recv g live id (topic_state t b))) b"

fun bus_delivered :: "bus_topic \<Rightarrow> string \<Rightarrow> bus_op list \<Rightarrow> bus_message bus \<Rightarrow> bus_message list" where
  "bus_delivered t g [] b = []"
| "bus_delivered t g (op # ops) b =
     (case op of
        BTryRecv t' g' live \<Rightarrow>
          if t' = t \<and> g' = g then case fst (try_recv g live id (topic_state t b)) of Some m \<Rightarrow> [m] | None \<Rightarrow> [] else []
      | _ \<Rightarrow> [])
     @ bus_delivered t g ops (bus_step op b)"

fun bus_published :: "bus_topic \<Rightarrow> bus_op list \<Rightarrow> bus_message list" where
  "bus_published t [] = []"
| "bus_published t (BPublish m # ops) = (if bm_topic m = t then [m] else []) @ bus_published t ops"
| "bus_published t (_ # ops) = bus_published t ops"

fun on_topic :: "bus_topic \<Rightarrow> bus_op list \<Rightarrow> bus_message topic_op list" where
  "on_topic t [] = []"
| "on_topic t (BPublish m # ops) = (if bm_topic m = t then [Publish m] else []) @ on_topic t ops"
| "on_topic t (BSubscribe t' g # ops) = (if t' = t then [Subscribe g] else []) @ on_topic t ops"
| "on_topic t (BTryRecv t' g live # ops) = (if t' = t then [Receive g] else []) @ on_topic t ops"

lemma topic_state_set [simp]: "topic_state t (set_topic t' s b) = (if t = t' then s else topic_state t b)"
  by (simp add: topic_state_def set_topic_def)

lemma set_topic_cap [simp]: "bu_durable_cap (set_topic t s b) = bu_durable_cap b"
  by (simp add: set_topic_def)

lemma try_recv_quiet: "try_recv g live id s = next_from_log g s"
proof (cases "next_from_log g s")
  case (Pair r s1)
  then show ?thesis
    using next_from_log_none [of g s s1]
    by (cases r) (auto simp: try_recv_def split: option.splits live.splits)
qed

lemma bus_step_cap [simp]: "bu_durable_cap (bus_step op b) = bu_durable_cap b"
  by (cases op) (simp_all add: bus_publish_def bus_subscribe_def Let_def)

lemma published_on_topic: "published (on_topic t ops) = bus_published t ops"
  by (induction t ops rule: on_topic.induct) simp_all

lemma topic_run_Cons: "topic_run cap (op # ops) s = topic_run cap ops (topic_step cap op s)"
  by (simp add: topic_run_def)

lemma bus_run_topic:
  "topic_state t (fold bus_step ops b) = topic_run (bu_durable_cap b) (on_topic t ops) (topic_state t b)"
proof (induction ops arbitrary: b)
  case (Cons op ops)
  then show ?case
    by (cases op) (auto simp: bus_publish_def bus_subscribe_def try_recv_quiet Let_def topic_run_Cons)
qed (simp add: topic_run_def)

lemma bus_delivered_topic:
  "bus_delivered t g ops b = delivered (bu_durable_cap b) g (on_topic t ops) (topic_state t b)"
proof (induction ops arbitrary: b)
  case (Cons op ops)
  then show ?case
    by (cases op) (auto simp: bus_publish_def bus_subscribe_def try_recv_quiet Let_def)
qed simp

text \<open>
  C18. For every consumer group and topic, what the group has received followed by what a drain still
  hands it is a subsequence of what was published on the topic, in order and without repetition,
  whatever other groups and topics do; and it is everything published as long as the topic has not
  seen more messages than the log holds.
\<close>

theorem bus_is_ordered_queue:
  defines "got t g ops \<equiv> bus_delivered t g ops new_bus @ fst (drain_log g (topic_state t (fold bus_step ops new_bus)))"
  shows "subseq (got t g ops) (bus_published t ops) \<and>
    (length (bus_published t ops) \<le> 100000 \<longrightarrow> got t g ops = bus_published t ops)"
proof -
  have "topic_state t new_bus = empty_topic" "bu_durable_cap new_bus = 100000"
    by (simp_all add: topic_state_def new_bus_def default_durable_cap_def)
  then show ?thesis
    using received_then_drained [where cap = 100000 and g = g and ops = "on_topic t ops"]
    by (simp add: got_def bus_delivered_topic bus_run_topic published_on_topic)
qed

definition sample_revocation :: "string \<Rightarrow> acl_revocation" where
  "sample_revocation g =
     \<lparr>ar_event_id = ''r1'', ar_tenant_id = ''ten'', ar_global_user_id = ''gu_1'', ar_provider_user_id = ''7'',
      ar_provider = Github, ar_group_id = g, ar_change_type = ''removed_from_group'', ar_acl_version = 1,
      ar_timestamp = 0\<rparr>"

definition sample_message :: "string \<Rightarrow> bus_topic \<Rightarrow> bus_message" where
  "sample_message g t = \<lparr>bm_topic = t, bm_partition_key = ''ten'', bm_payload = BusAcl (sample_revocation g)\<rparr>"

theorem bus_is_ordered_queue_witness:
  "bus_delivered EventsAcl ''cg''
     [BPublish (sample_message ''a'' EventsAcl), BTryRecv EventsAcl ''other'' None,
      BPublish (sample_message ''b'' EventsRaw), BTryRecv EventsAcl ''cg'' (Some Lagged),
      BPublish (sample_message ''c'' EventsAcl)] new_bus
   @ fst (drain_log ''cg'' (topic_state EventsAcl (fold bus_step
     [BPublish (sample_message ''a'' EventsAcl), BTryRecv EventsAcl ''other'' None,
      BPublish (sample_message ''b'' EventsRaw), BTryRecv EventsAcl ''cg'' (Some Lagged),
      BPublish (sample_message ''c'' EventsAcl)] new_bus)))
   = [sample_message ''a'' EventsAcl, sample_message ''c'' EventsAcl]"
  using bus_is_ordered_queue [where t = EventsAcl and g = "''cg''" and
      ops = "[BPublish (sample_message ''a'' EventsAcl), BTryRecv EventsAcl ''other'' None,
        BPublish (sample_message ''b'' EventsRaw), BTryRecv EventsAcl ''cg'' (Some Lagged),
        BPublish (sample_message ''c'' EventsAcl)]"]
  by (simp add: sample_message_def del: bus_delivered.simps bus_step.simps fold_simps)

text \<open>Beyond the capacity the oldest messages are gone for a group that had not read them.\<close>

lemma drain_log_n_eq:
  assumes "log_inv cap ms s"
  shows "fst (drain_log_n k g s) = take k (drop (next_pos cap ms (cursor_of g s)) ms)"
  using assms
proof (induction k arbitrary: s)
  case (Suc k)
  let ?q = "next_pos cap ms (cursor_of g s)"
  show ?case
  proof (cases "?q < length ms")
    case True
    let ?s = "s\<lparr>ts_cursors := dm_put g (Suc ?q) (ts_cursors s)\<rparr>"
    have "next_pos cap ms (cursor_of g ?s) = Suc ?q" by (simp add: cursor_of_put next_pos_def)
    with Suc.IH [of ?s] Suc.prems True show ?thesis
      by (simp add: next_from_log_eq [OF Suc.prems] Let_def case_prod_beta flip: Cons_nth_drop_Suc)
  qed (simp add: next_from_log_eq [OF Suc.prems] Let_def)
qed simp

lemma overflow_loses_oldest:
  assumes "length ms = cap + n" "0 < cap"
  shows "fst (drain_log g (topic_run cap (map Publish ms) empty_topic)) = drop n ms"
proof -
  let ?s = "topic_run cap (map Publish ms) empty_topic"
  have "published (map Publish ms) = ms" by (induction ms) simp_all
  then have i: "log_inv cap ms ?s" using log_inv_run [of cap "map Publish ms"] by simp
  have "cursor_of g (topic_run cap (map Publish xs) s) = cursor_of g s" for xs :: "'a list" and s
    by (induction xs arbitrary: s) (simp_all add: topic_run_def)
  then have c: "cursor_of g ?s = 0" by (simp add: cursor_of_def empty_topic_def)
  have "length (ts_log ?s) = cap" using i assms(1) by (simp add: log_inv_def del: upt_Suc)
  then show ?thesis
    unfolding drain_log_def drain_log_n_eq [OF i] c using assms(1) by (simp add: next_pos_def del: drain_log_n.simps)
qed

end
