(* ===== verification/Telemetry_Normalize.thy ===== *)
theory Telemetry_Normalize
  imports Telemetry_Model
begin

text \<open>
  Normalizing a webhook body into a canonical event: the helpers of \<open>normalize/mod.rs\<close> and the
  GitHub normalizer \<open>normalize/github.rs\<close>. \<open>norm_env\<close> holds what is read from outside: the
  JSON parser (the error text or the value), the parsers and range checks of \<open>chrono\<close>, the
  floating-point parser of Slack time stamps (truncated to whole seconds), a fresh event id and the clock, once
  for a missing time stamp and once for the ingestion time.
\<close>

section \<open>Helpers\<close>

record norm_env =
  nv_json_parse :: "string \<Rightarrow> string + json"
  nv_rfc3339 :: "string \<Rightarrow> instant option"
  nv_timestamp :: "int \<Rightarrow> instant option"
  nv_timestamp_millis :: "int \<Rightarrow> instant option"
  nv_f64_seconds :: "string \<Rightarrow> int option"
  nv_new_id :: string
  nv_now :: instant
  nv_ingested :: instant

record normalize_context =
  nc_tenant_id :: string
  nc_provider :: source_provider
  nc_delivery_id :: "string option"
  nc_event_name :: "string option"
  nc_raw_payload_s3_uri :: string
  nc_default_group_ids :: "string list"
  nc_actor_global_user_id :: string
  nc_acl_version :: "64 word"
  nc_allowed_group_ids :: "string list"
  nc_is_private :: bool

definition from_millis :: "norm_env \<Rightarrow> int \<Rightarrow> instant" where
  "from_millis env ms = unwrap_or (nv_timestamp_millis env ms) (nv_now env)"

definition from_secs :: "norm_env \<Rightarrow> int \<Rightarrow> instant" where
  "from_secs env secs = unwrap_or (nv_timestamp env secs) (nv_now env)"

definition to_millis :: "instant \<Rightarrow> int" where
  "to_millis t = t div 1000000"

definition base_event ::
  "norm_env \<Rightarrow> normalize_context \<Rightarrow> event_category \<Rightarrow> string \<Rightarrow> instant \<Rightarrow> actor_identity \<Rightarrow>
   string \<Rightarrow> string \<Rightarrow> json \<Rightarrow> canonical_event" where
  "base_event env ctx category event_type ts actor resource parent attributes =
     \<lparr>ce_event_id = unwrap_or (filter_opt (\<lambda>s. s \<noteq> []) (nc_delivery_id ctx)) (nv_new_id env),
      ce_tenant_id = nc_tenant_id ctx,
      ce_provider = nc_provider ctx,
      ce_category = category,
      ce_event_type = event_type,
      ce_event_timestamp = ts,
      ce_ingested_at = nv_ingested env,
      ce_actor = actor\<lparr>ai_global_user_id :=
        (if ai_global_user_id actor = [] then nc_actor_global_user_id ctx else ai_global_user_id actor)\<rparr>,
      ce_acl =
        \<lparr>al_tenant_id = nc_tenant_id ctx,
         al_allowed_group_ids = (if nc_allowed_group_ids ctx = [] then nc_default_group_ids ctx
           else nc_allowed_group_ids ctx),
         al_is_private = nc_is_private ctx,
         al_acl_version = nc_acl_version ctx\<rparr>,
      ce_resource_id = resource,
      ce_parent_resource_id = parent,
      ce_attributes = attributes,
      ce_raw_payload_s3_uri = nc_raw_payload_s3_uri ctx,
      ce_event_sequence_number = word_of_int (max 0 (to_millis ts))\<rparr>"

definition str_field :: "json \<Rightarrow> string \<Rightarrow> string option" where
  "str_field v k = Option.bind (json_get v k) as_str"

definition i64_field :: "json \<Rightarrow> string \<Rightarrow> int option" where
  "i64_field v k = Option.bind (json_get v k) as_i64"

definition bool_field :: "json \<Rightarrow> string \<Rightarrow> bool option" where
  "bool_field v k = Option.bind (json_get v k) as_bool"

definition nested :: "json \<Rightarrow> string list \<Rightarrow> json option" where
  "nested v keys = json_path v keys"

definition nested_str :: "json \<Rightarrow> string list \<Rightarrow> string option" where
  "nested_str v keys = Option.bind (nested v keys) as_str"

text \<open>\<open>as_f64\<close> truncated to seconds: a whole number beyond \<open>i64\<close> saturates, hundredths are cut off.\<close>

fun f64_as_i64 :: "json \<Rightarrow> int option" where
  "f64_as_i64 (JInt n) = Some (clamp (- (2 ^ 63)) (2 ^ 63 - 1) n)"
| "f64_as_i64 (JFloat h) = Some (sgn h * (\<bar>h\<bar> div 100))"
| "f64_as_i64 _ = None"

definition parse_timestamp :: "norm_env \<Rightarrow> json \<Rightarrow> instant" where
  "parse_timestamp env v =
     (case Option.bind (as_str v) (nv_rfc3339 env) of
        Some t \<Rightarrow> t
      | None \<Rightarrow>
          (case as_i64 v of
             Some n \<Rightarrow> if 1000000000000 < n then from_millis env n else from_secs env n
           | None \<Rightarrow>
               (case f64_as_i64 v of Some n \<Rightarrow> from_secs env n | None \<Rightarrow> nv_now env)))"

definition time_or_now :: "norm_env \<Rightarrow> json option \<Rightarrow> instant" where
  "time_or_now env v = (case v of Some t \<Rightarrow> parse_timestamp env t | None \<Rightarrow> nv_now env)"

definition actor_from_user :: "json \<Rightarrow> string \<Rightarrow> actor_identity" where
  "actor_from_user user global_user_id =
     \<lparr>ai_global_user_id = global_user_id,
      ai_provider_user_id =
        unwrap_or (or_else (or_else (or_else (str_field user ''id'') (map_option show_int (i64_field user ''id'')))
          (str_field user ''login'')) (str_field user ''accountId'')) [],
      ai_email = unwrap_or (str_field user ''email'') [],
      ai_display_name =
        unwrap_or (or_else (or_else (or_else (str_field user ''name'') (str_field user ''login''))
          (str_field user ''displayName'')) (str_field user ''real_name'')) []\<rparr>"

definition actor_or_none :: "normalize_context \<Rightarrow> json option \<Rightarrow> actor_identity" where
  "actor_or_none ctx user =
     (case user of Some u \<Rightarrow> actor_from_user u (nc_actor_global_user_id ctx) | None \<Rightarrow> no_actor)"

definition is_identity_event_type :: "string \<Rightarrow> bool" where
  "is_identity_event_type event_type =
     (let t = to_ascii_lowercase event_type in
      list_ex (contains t)
        [''membership'', ''member'', ''team_add'', ''team_remove'', ''removed_from'', ''added_to'', ''permission''])"

definition context_from_tenant ::
  "tenant_config \<Rightarrow> source_provider \<Rightarrow> string option \<Rightarrow> string option \<Rightarrow> string \<Rightarrow> string \<Rightarrow> 64 word \<Rightarrow>
   string list \<Rightarrow> bool \<Rightarrow> normalize_context" where
  "context_from_tenant tenant p delivery event_name uri user version groups private =
     \<lparr>nc_tenant_id = tc_tenant_id tenant, nc_provider = p, nc_delivery_id = delivery, nc_event_name = event_name,
      nc_raw_payload_s3_uri = uri, nc_default_group_ids = tc_default_group_ids tenant,
      nc_actor_global_user_id = user, nc_acl_version = version, nc_allowed_group_ids = groups,
      nc_is_private = private\<rparr>"

text \<open>A string, number or flag of the payload, with the default the code writes.\<close>

abbreviation sfield :: "json \<Rightarrow> string \<Rightarrow> string" where
  "sfield v k \<equiv> unwrap_or (str_field v k) []"

abbreviation ifield :: "json \<Rightarrow> string \<Rightarrow> int" where
  "ifield v k \<equiv> unwrap_or (i64_field v k) 0"

abbreviation bfield :: "json \<Rightarrow> string \<Rightarrow> bool" where
  "bfield v k \<equiv> unwrap_or (bool_field v k) False"

definition nonempty_or :: "string \<Rightarrow> string \<Rightarrow> string" where
  "nonempty_or s d = (if s = [] then d else s)"

definition preview :: "string \<Rightarrow> string" where
  "preview s = take_chars 280 s"

section \<open>GitHub\<close>

definition github_repo :: "json \<Rightarrow> string" where
  "github_repo v = unwrap_or (nested_str v [''repository'', ''full_name'']) ''unknown''"

definition label_name :: "json \<Rightarrow> string list" where
  "label_name lab =
     (case str_field lab ''name'' of
        Some name \<Rightarrow> if name \<noteq> [] then [name] else []
      | None \<Rightarrow> (case as_str lab of Some s \<Rightarrow> if s \<noteq> [] then [s] else [] | None \<Rightarrow> []))"

definition pr_label_names :: "json \<Rightarrow> string list" where
  "pr_label_names pr =
     (case Option.bind (json_get pr ''labels'') as_array of
        Some arr \<Rightarrow> concat (map label_name arr)
      | None \<Rightarrow> [])"

definition pr_body_preview :: "json \<Rightarrow> string" where
  "pr_body_preview pr = preview (sfield pr ''body'')"

definition json_strings :: "string list \<Rightarrow> json" where
  "json_strings xs = JArr (map JStr xs)"

definition updated_time :: "norm_env \<Rightarrow> json \<Rightarrow> instant" where
  "updated_time env v = time_or_now env (or_else (json_get v ''updated_at'') (json_get v ''created_at''))"

definition normalize_pr ::
  "norm_env \<Rightarrow> json \<Rightarrow> normalize_context \<Rightarrow> string \<Rightarrow> core_error + canonical_event" where
  "normalize_pr env v ctx action =
     (case json_get v ''pull_request'' of
        None \<Rightarrow> Inl (CNormalization ''missing pull_request'')
      | Some pr \<Rightarrow>
          (let repo = github_repo v;
               ev = base_event env ctx CatCode (''pull_request.'' @ nonempty_or action ''updated'')
                 (updated_time env pr)
                 (actor_or_none ctx (or_else (json_get v ''sender'') (json_get pr ''user'')))
                 (resource_id [repo, ''pr'', show_int (ifield pr ''number'')]) repo
                 (JObj
                   [(''title'', JStr (sfield pr ''title'')),
                    (''state'', JStr (sfield pr ''state'')),
                    (''draft'', JBool (bfield pr ''draft'')),
                    (''merged'', JBool (bfield pr ''merged'')),
                    (''base_ref'', JStr (unwrap_or (nested_str pr [''base'', ''ref'']) [])),
                    (''head_ref'', JStr (unwrap_or (nested_str pr [''head'', ''ref'']) [])),
                    (''additions'', JInt (ifield pr ''additions'')),
                    (''deletions'', JInt (ifield pr ''deletions'')),
                    (''changed_files'', JInt (ifield pr ''changed_files'')),
                    (''html_url'', JStr (sfield pr ''html_url'')),
                    (''labels'', json_strings (pr_label_names pr)),
                    (''body_preview'', JStr (pr_body_preview pr)),
                    (''body'', JStr (pr_body_preview pr)),
                    (''mergeable_state'', JStr (sfield pr ''mergeable_state'')),
                    (''updated_at'', JStr (sfield pr ''updated_at''))]);
               private = unwrap_or (Option.bind (nested v [''repository'']) (\<lambda>r. bool_field r ''private''))
                 (nc_is_private ctx)
           in Inr (ev\<lparr>ce_acl := (ce_acl ev)\<lparr>al_is_private := private\<rparr>\<rparr>)))"

definition normalize_issue ::
  "norm_env \<Rightarrow> json \<Rightarrow> normalize_context \<Rightarrow> string \<Rightarrow> core_error + canonical_event" where
  "normalize_issue env v ctx action =
     (case json_get v ''issue'' of
        None \<Rightarrow> Inl (CNormalization ''missing issue'')
      | Some issue \<Rightarrow>
          (let repo = github_repo v
           in Inr (base_event env ctx CatWorkItem (''issue.'' @ nonempty_or action ''updated'')
                (updated_time env issue) (actor_or_none ctx (json_get v ''sender''))
                (resource_id [repo, ''issue'', show_int (ifield issue ''number'')]) repo
                (JObj
                  [(''title'', JStr (sfield issue ''title'')),
                   (''state'', JStr (sfield issue ''state'')),
                   (''html_url'', JStr (sfield issue ''html_url'')),
                   (''labels'', json_strings (pr_label_names issue)),
                   (''body_preview'', JStr (pr_body_preview issue)),
                   (''body'', JStr (pr_body_preview issue))]))))"

definition commit_meta :: "json \<Rightarrow> json" where
  "commit_meta c =
     JObj [(''id'', JStr (sfield c ''id'')), (''message'', JStr (sfield c ''message'')),
           (''timestamp'', JStr (sfield c ''timestamp''))]"

definition commit_array :: "json \<Rightarrow> json list" where
  "commit_array v = unwrap_or (Option.bind (json_get v ''commits'') as_array) []"

definition normalize_push :: "norm_env \<Rightarrow> json \<Rightarrow> normalize_context \<Rightarrow> canonical_event" where
  "normalize_push env v ctx =
     (let repo = github_repo v;
          commits = map commit_meta (take 50 (commit_array v))
      in base_event env ctx CatCode ''push''
           (time_or_now env (if commits = [] then None else json_get (last commits) ''timestamp''))
           (actor_or_none ctx (or_else (json_get v ''sender'') (json_get v ''pusher'')))
           (resource_id [repo, ''ref'', unwrap_or (str_field v ''ref'') ''heads/unknown'']) repo
           (JObj
             [(''ref'', JStr (sfield v ''ref'')),
              (''before'', JStr (sfield v ''before'')),
              (''after'', JStr (sfield v ''after'')),
              (''commit_count'', JInt (int (length (commit_array v)))),
              (''commits'', JArr commits),
              (''forced'', JBool (bfield v ''forced''))]))"

definition normalize_branch :: "norm_env \<Rightarrow> json \<Rightarrow> normalize_context \<Rightarrow> canonical_event" where
  "normalize_branch env v ctx =
     (let repo = github_repo v; r = unwrap_or (str_field v ''ref'') ''unknown''
      in base_event env ctx CatCode ''branch.created'' (nv_now env)
           (actor_or_none ctx (json_get v ''sender''))
           (resource_id [repo, ''branch'', r]) repo
           (JObj [(''ref'', JStr r), (''ref_type'', JStr (unwrap_or (str_field v ''ref_type'') ''branch''))]))"

definition normalize_comment ::
  "norm_env \<Rightarrow> json \<Rightarrow> normalize_context \<Rightarrow> string \<Rightarrow> canonical_event" where
  "normalize_comment env v ctx action =
     (let comment = unwrap_or (json_get v ''comment'') v; repo = github_repo v
      in base_event env ctx CatCommunication (''comment.'' @ nonempty_or action ''created'')
           (updated_time env comment)
           (actor_or_none ctx (or_else (json_get comment ''user'') (json_get v ''sender'')))
           (resource_id [repo, ''comment'', show_int (ifield comment ''id'')]) repo
           (JObj
             [(''body_preview'', JStr (preview (sfield comment ''body''))),
              (''html_url'', JStr (sfield comment ''html_url''))]))"

definition normalize_check ::
  "norm_env \<Rightarrow> json \<Rightarrow> normalize_context \<Rightarrow> string \<Rightarrow> canonical_event" where
  "normalize_check env v ctx action =
     (let check = unwrap_or (json_get v ''check_run'') v; repo = github_repo v
      in base_event env ctx CatCode (''check_run.'' @ nonempty_or action ''completed'') (nv_now env) no_actor
           (resource_id [repo, ''check'', show_int (ifield check ''id'')]) repo
           (JObj
             [(''name'', JStr (sfield check ''name'')),
              (''status'', JStr (sfield check ''status'')),
              (''conclusion'', JStr (sfield check ''conclusion''))]))"

definition normalize_github_identity ::
  "norm_env \<Rightarrow> json \<Rightarrow> normalize_context \<Rightarrow> string \<Rightarrow> string \<Rightarrow> canonical_event" where
  "normalize_github_identity env v ctx event_name action =
     (let member = or_else (json_get v ''member'') (nested v [''membership'', ''user'']);
          team = unwrap_or (or_else (nested_str v [''team'', ''slug'']) (nested_str v [''team'', ''name''])) [];
          login = unwrap_or (Option.bind member (\<lambda>m. str_field m ''login'')) []
      in base_event env ctx CatIdentity
           (''identity.'' @ event_name @ ''.'' @ nonempty_or action ''changed'') (nv_now env)
           (actor_or_none ctx (json_get v ''sender''))
           (resource_id [''team'', team, ''member'', login]) (''team/'' @ team)
           (JObj
             [(''team'', JStr team), (''member'', JStr login), (''action'', JStr action),
              (''scope'', JStr (sfield v ''scope''))]))"

definition normalize_github_other ::
  "norm_env \<Rightarrow> json \<Rightarrow> normalize_context \<Rightarrow> string \<Rightarrow> string \<Rightarrow> canonical_event" where
  "normalize_github_other env v ctx event_name action =
     (let repo = github_repo v
      in base_event env ctx CatCode (nonempty_or event_name ''github'' @ ''.'' @ nonempty_or action ''event'')
           (time_or_now env (Option.bind (json_get v ''repository'') (\<lambda>r. json_get r ''updated_at'')))
           (actor_or_none ctx (json_get v ''sender'')) repo repo
           (JObj
             [(''provider_event'', JStr event_name), (''action'', JStr action), (''repository'', JStr repo)]))"

definition normalize_github :: "norm_env \<Rightarrow> json \<Rightarrow> normalize_context \<Rightarrow> core_error + canonical_event" where
  "normalize_github env v ctx =
     (let action = sfield v ''action'';
          event_name = unwrap_or (nc_event_name ctx) []
      in if event_name = ''membership'' \<or> event_name = ''member'' \<or> event_name = ''organization''
         then Inr (normalize_github_identity env v ctx event_name action)
         else if json_get v ''pull_request'' \<noteq> None \<or> event_name = ''pull_request''
         then normalize_pr env v ctx action
         else if json_get v ''issue'' \<noteq> None \<and> json_get v ''pull_request'' = None
         then normalize_issue env v ctx action
         else if event_name = ''push'' \<or> json_get v ''commits'' \<noteq> None
         then Inr (normalize_push env v ctx)
         else if event_name = ''create'' \<or> str_field v ''ref_type'' = Some ''branch''
         then Inr (normalize_branch env v ctx)
         else if json_get v ''comment'' \<noteq> None
         then Inr (normalize_comment env v ctx action)
         else if event_name = ''check_run'' \<or> json_get v ''check_run'' \<noteq> None
         then Inr (normalize_check env v ctx action)
         else Inr (normalize_github_other env v ctx event_name action))"

end
