(* ===== verification/Telemetry_Providers.thy ===== *)
theory Telemetry_Providers
  imports Telemetry_Normalize
begin

text \<open>
  The normalizers of the other providers (\<open>normalize/gitlab.rs\<close>, \<open>jira.rs\<close>, \<open>linear.rs\<close>,
  \<open>slack.rs\<close>, \<open>teams.rs\<close>, \<open>zendesk.rs\<close>) and the dispatch of \<open>normalize/mod.rs\<close>,
  with what every normalizer keeps of its context.
\<close>

section \<open>GitLab\<close>

definition gitlab_project :: "json \<Rightarrow> string" where
  "gitlab_project v = unwrap_or (nested_str v [''project'', ''path_with_namespace'']) ''unknown''"

definition gitlab_actor :: "normalize_context \<Rightarrow> json \<Rightarrow> actor_identity" where
  "gitlab_actor ctx v = actor_or_none ctx (json_get v ''user'')"

definition gitlab_mr :: "norm_env \<Rightarrow> json \<Rightarrow> normalize_context \<Rightarrow> core_error + canonical_event" where
  "gitlab_mr env v ctx =
     (case json_get v ''object_attributes'' of
        None \<Rightarrow> Inl (CNormalization ''missing object_attributes'')
      | Some attrs \<Rightarrow>
          (let project = gitlab_project v
           in Inr (base_event env ctx CatCode (''merge_request.'' @ unwrap_or (str_field attrs ''action'') ''update'')
                (updated_time env attrs) (gitlab_actor ctx v)
                (resource_id [project, ''mr'', show_int (ifield attrs ''iid'')]) project
                (JObj
                  [(''title'', JStr (sfield attrs ''title'')),
                   (''state'', JStr (sfield attrs ''state'')),
                   (''source_branch'', JStr (sfield attrs ''source_branch'')),
                   (''target_branch'', JStr (sfield attrs ''target_branch'')),
                   (''url'', JStr (sfield attrs ''url''))]))))"

definition gitlab_push :: "norm_env \<Rightarrow> json \<Rightarrow> normalize_context \<Rightarrow> string \<Rightarrow> canonical_event" where
  "gitlab_push env v ctx kind =
     (let project = gitlab_project v
      in base_event env ctx CatCode kind (nv_now env)
           \<lparr>ai_global_user_id = nc_actor_global_user_id ctx,
            ai_provider_user_id = unwrap_or (map_option show_int (i64_field v ''user_id'')) [],
            ai_email = sfield v ''user_email'', ai_display_name = sfield v ''user_name''\<rparr>
           (resource_id [project, ''ref'', unwrap_or (str_field v ''ref'') ''unknown'']) project
           (JObj
             [(''ref'', JStr (sfield v ''ref'')),
              (''checkout_sha'', JStr (sfield v ''checkout_sha'')),
              (''commit_count'', JInt (int (length (commit_array v)))),
              (''total_commits_count'', JInt (ifield v ''total_commits_count''))]))"

definition gitlab_issue :: "norm_env \<Rightarrow> json \<Rightarrow> normalize_context \<Rightarrow> canonical_event" where
  "gitlab_issue env v ctx =
     (let attrs = unwrap_or (json_get v ''object_attributes'') v; project = gitlab_project v
      in base_event env ctx CatWorkItem (''issue.'' @ unwrap_or (str_field attrs ''action'') ''update'')
           (time_or_now env (json_get attrs ''updated_at'')) (gitlab_actor ctx v)
           (resource_id [project, ''issue'', show_int (ifield attrs ''iid'')]) project
           (JObj [(''title'', JStr (sfield attrs ''title'')), (''state'', JStr (sfield attrs ''state''))]))"

definition gitlab_note :: "norm_env \<Rightarrow> json \<Rightarrow> normalize_context \<Rightarrow> canonical_event" where
  "gitlab_note env v ctx =
     (let attrs = unwrap_or (json_get v ''object_attributes'') v; project = gitlab_project v
      in base_event env ctx CatCommunication ''note.created'' (nv_now env) (gitlab_actor ctx v)
           (resource_id [project, ''note'', show_int (ifield attrs ''id'')]) project
           (JObj
             [(''body_preview'', JStr (preview (sfield attrs ''note''))),
              (''noteable_type'', JStr (sfield attrs ''noteable_type''))]))"

definition gitlab_pipeline :: "norm_env \<Rightarrow> json \<Rightarrow> normalize_context \<Rightarrow> string \<Rightarrow> canonical_event" where
  "gitlab_pipeline env v ctx kind =
     (let attrs = unwrap_or (json_get v ''object_attributes'') v; project = gitlab_project v
      in base_event env ctx CatCode (kind @ ''.'' @ unwrap_or (str_field attrs ''status'') ''updated'')
           (nv_now env) no_actor (resource_id [project, kind, show_int (ifield attrs ''id'')]) project
           (JObj [(''status'', JStr (sfield attrs ''status'')), (''ref'', JStr (sfield attrs ''ref''))]))"

definition gitlab_identity :: "norm_env \<Rightarrow> json \<Rightarrow> normalize_context \<Rightarrow> string \<Rightarrow> canonical_event" where
  "gitlab_identity env v ctx kind =
     base_event env ctx CatIdentity (''identity.'' @ kind) (nv_now env) (gitlab_actor ctx v)
       (''group/'' @ unwrap_or (str_field v ''group_name'') ''unknown'') ''group''
       (JObj
         [(''group_name'', JStr (sfield v ''group_name'')), (''user_name'', JStr (sfield v ''user_name'')),
          (''group_access'', JStr (sfield v ''group_access''))])"

definition gitlab_other :: "norm_env \<Rightarrow> json \<Rightarrow> normalize_context \<Rightarrow> string \<Rightarrow> canonical_event" where
  "gitlab_other env v ctx kind =
     (let project = unwrap_or (or_else (nested_str v [''project'', ''path_with_namespace''])
            (nested_str v [''project'', ''name''])) ''unknown''
      in base_event env ctx CatCode (''gitlab.'' @ kind) (nv_now env) (gitlab_actor ctx v) project project
           (JObj [(''object_kind'', JStr kind), (''project'', JStr project)]))"

definition normalize_gitlab :: "norm_env \<Rightarrow> json \<Rightarrow> normalize_context \<Rightarrow> core_error + canonical_event" where
  "normalize_gitlab env v ctx =
     (let kind = unwrap_or (or_else (str_field v ''object_kind'') (str_field v ''event_name'')) ''event''
      in if kind = ''merge_request'' then gitlab_mr env v ctx
         else if kind \<in> {''push'', ''tag_push''} then Inr (gitlab_push env v ctx kind)
         else if kind = ''issue'' then Inr (gitlab_issue env v ctx)
         else if kind \<in> {''note'', ''comment''} then Inr (gitlab_note env v ctx)
         else if kind \<in> {''pipeline'', ''build''} then Inr (gitlab_pipeline env v ctx kind)
         else if kind \<in> {''member'', ''user_add_to_group'', ''user_remove_from_group''}
         then Inr (gitlab_identity env v ctx kind)
         else Inr (gitlab_other env v ctx kind))"

section \<open>Jira\<close>

definition changelog_item :: "json \<Rightarrow> json" where
  "changelog_item item =
     JObj [(''field'', JStr (sfield item ''field'')), (''from'', JStr (sfield item ''fromString'')),
           (''to'', JStr (sfield item ''toString''))]"

definition extract_changelog :: "json \<Rightarrow> json list" where
  "extract_changelog v =
     map changelog_item (take 20 (unwrap_or (Option.bind (json_path v [''changelog'', ''items'']) as_array) []))"

definition jira_identity :: "norm_env \<Rightarrow> json \<Rightarrow> normalize_context \<Rightarrow> string \<Rightarrow> canonical_event" where
  "jira_identity env v ctx event =
     (let actor = actor_or_none ctx (json_get v ''user'')
      in base_event env ctx CatIdentity event (nv_now env) actor
           (''jira/identity/'' @ ai_provider_user_id actor) ''jira'' (JObj [(''event'', JStr event)]))"

definition normalize_jira :: "norm_env \<Rightarrow> json \<Rightarrow> normalize_context \<Rightarrow> core_error + canonical_event" where
  "normalize_jira env v ctx =
     (let event = unwrap_or (or_else (str_field v ''webhookEvent'') (str_field v ''issue_event_type_name''))
            ''jira:event''
      in if contains event ''user'' \<or> contains event ''permission''
         then Inr (jira_identity env v ctx event)
         else
           (let issue = json_get v ''issue'';
                key = unwrap_or (Option.bind issue (\<lambda>i. str_field i ''key'')) ''UNKNOWN-0'';
                fields = Option.bind issue (\<lambda>i. json_get i ''fields'');
                in_fields = (\<lambda>keys. unwrap_or (Option.bind fields (\<lambda>f. nested_str f keys)) []);
                project_key = unwrap_or (Option.bind fields (\<lambda>f. nested_str f [''project'', ''key''])) ''PROJ'';
                comment_preview = (case Option.bind (nested v [''comment'']) (\<lambda>c. str_field c ''body'') of
                  Some b \<Rightarrow> preview b | None \<Rightarrow> [])
            in Inr (base_event env ctx (if contains event ''comment'' then CatCommunication else CatWorkItem) event
                 (time_or_now env (or_else (Option.bind fields (\<lambda>f. json_get f ''updated''))
                   (Option.bind fields (\<lambda>f. json_get f ''created''))))
                 (actor_or_none ctx (or_else (json_get v ''user'') (nested v [''comment'', ''author''])))
                 (resource_id [project_key, key]) project_key
                 (JObj
                   [(''key'', JStr key),
                    (''summary'', JStr (in_fields [''summary''])),
                    (''status'', JStr (in_fields [''status'', ''name''])),
                    (''issue_type'', JStr (in_fields [''issuetype'', ''name''])),
                    (''assignee_account_id'', JStr (in_fields [''assignee'', ''accountId''])),
                    (''comment_preview'', JStr comment_preview),
                    (''changelog_items'', JArr (extract_changelog v))]))))"

section \<open>Linear\<close>

definition linear_identity :: "norm_env \<Rightarrow> json \<Rightarrow> normalize_context \<Rightarrow> string \<Rightarrow> canonical_event" where
  "linear_identity env v ctx action =
     (let data = unwrap_or (json_get v ''data'') v
      in base_event env ctx CatIdentity (''linear.identity.'' @ action) (nv_now env)
           (actor_from_user data (nc_actor_global_user_id ctx))
           (''linear/user/'' @ unwrap_or (str_field data ''id'') ''unknown'') ''linear''
           (JObj [(''email'', JStr (sfield data ''email''))]))"

definition normalize_linear :: "norm_env \<Rightarrow> json \<Rightarrow> normalize_context \<Rightarrow> core_error + canonical_event" where
  "normalize_linear env v ctx =
     (let action = unwrap_or (or_else (str_field v ''action'') (str_field v ''type'')) ''update'';
          data = unwrap_or (json_get v ''data'') v;
          type_name = unwrap_or (or_else (str_field v ''type'') (str_field data ''type'')) ''Issue''
      in if eq_ignore_ascii_case type_name ''User'' \<or> contains action ''member''
         then Inr (linear_identity env v ctx action)
         else
           (let identifier = unwrap_or (or_else (str_field data ''identifier'') (str_field data ''id'')) ''unknown'';
                team_key = unwrap_or (or_else (nested_str data [''team'', ''key'']) (str_field data ''teamId'')) ''TEAM''
            in Inr (base_event env ctx
                 (if eq_ignore_ascii_case type_name ''Comment'' then CatCommunication else CatWorkItem)
                 (''linear.'' @ to_ascii_lowercase type_name @ ''.'' @ action)
                 (time_or_now env (or_else (or_else (or_else (json_get v ''webhookTimestamp'')
                    (json_get data ''updatedAt'')) (json_get data ''createdAt'')) (json_get v ''createdAt'')))
                 (actor_or_none ctx (or_else (json_get v ''actor'') (json_get data ''creator'')))
                 (resource_id [team_key, identifier]) team_key
                 (JObj
                   [(''identifier'', JStr identifier),
                    (''title'', JStr (sfield data ''title'')),
                    (''state'', JStr (unwrap_or (nested_str data [''state'', ''name'']) [])),
                    (''priority'', JInt (ifield data ''priority'')),
                    (''url'', JStr (sfield data ''url'')),
                    (''assignee_id'', JStr (unwrap_or (nested_str data [''assignee'', ''id'']) []))]))))"

section \<open>Slack\<close>

definition plain_actor :: "normalize_context \<Rightarrow> string \<Rightarrow> string \<Rightarrow> actor_identity" where
  "plain_actor ctx user name =
     \<lparr>ai_global_user_id = nc_actor_global_user_id ctx, ai_provider_user_id = user, ai_email = [],
      ai_display_name = name\<rparr>"

definition slack_identity ::
  "norm_env \<Rightarrow> json \<Rightarrow> normalize_context \<Rightarrow> string \<Rightarrow> string \<Rightarrow> canonical_event" where
  "slack_identity env event ctx event_type team =
     (let user = unwrap_or (or_else (str_field event ''user'') (nested_str event [''user'', ''id''])) []
      in base_event env ctx CatIdentity (''slack.'' @ event_type) (nv_now env) (plain_actor ctx user [])
           (resource_id [team, ''user'', user]) team
           (JObj [(''channel'', JStr (sfield event ''channel'')), (''user'', JStr user)]))"

definition slack_membership_types :: "string set" where
  "slack_membership_types =
     {''member_joined_channel'', ''member_left_channel'', ''team_join'', ''user_change'', ''subteam_members_changed''}"

definition normalize_slack :: "norm_env \<Rightarrow> json \<Rightarrow> normalize_context \<Rightarrow> core_error + canonical_event" where
  "normalize_slack env v ctx =
     (if str_field v ''type'' = Some ''url_verification''
      then Inl (CValidation ''url_verification must be handled by HTTP layer'')
      else
        (let event = unwrap_or (json_get v ''event'') v;
             event_type = unwrap_or (str_field event ''type'') ''message'';
             team = unwrap_or (or_else (str_field v ''team_id'') (str_field event ''team'')) ''unknown'';
             channel = unwrap_or (str_field event ''channel'') ''unknown'';
             ts_str = or_else (str_field event ''ts'') (str_field event ''event_ts'');
             ts = (case Option.bind ts_str (nv_f64_seconds env) of
                     Some n \<Rightarrow> from_secs env n | None \<Rightarrow> nv_now env)
         in if event_type \<in> slack_membership_types
            then Inr (slack_identity env event ctx event_type team)
            else Inr (base_event env ctx CatCommunication (''slack.'' @ event_type) ts
                   (plain_actor ctx (sfield event ''user'') [])
                   (resource_id [team, channel, unwrap_or ts_str ''0'']) (resource_id [team, channel])
                   (JObj
                     [(''channel'', JStr channel),
                      (''team_id'', JStr team),
                      (''thread_ts'', JStr (sfield event ''thread_ts'')),
                      (''text_preview'', JStr (preview (sfield event ''text''))),
                      (''subtype'', JStr (sfield event ''subtype''))]))))"

section \<open>Teams\<close>

definition teams_identity :: "norm_env \<Rightarrow> json \<Rightarrow> normalize_context \<Rightarrow> string \<Rightarrow> canonical_event" where
  "teams_identity env v ctx activity =
     (let conversation = unwrap_or (nested_str v [''conversation'', ''id'']) ''unknown''
      in base_event env ctx CatIdentity (''teams.'' @ activity) (nv_now env) no_actor conversation conversation
           (JObj
             [(''members_added'', unwrap_or (json_get v ''membersAdded'') (JArr [])),
              (''members_removed'', unwrap_or (json_get v ''membersRemoved'') (JArr []))]))"

definition normalize_teams :: "norm_env \<Rightarrow> json \<Rightarrow> normalize_context \<Rightarrow> core_error + canonical_event" where
  "normalize_teams env v ctx =
     (let event_type = unwrap_or (or_else (str_field v ''type'') (nested_str v [''eventType''])) ''message'';
          activity = unwrap_or (str_field v ''type'') event_type
      in if contains activity ''conversationUpdate'' \<or> contains activity ''membersAdded''
           \<or> contains activity ''membersRemoved''
         then Inr (teams_identity env v ctx activity)
         else
           (let conversation = unwrap_or (nested_str v [''conversation'', ''id'']) ''unknown''
            in Inr (base_event env ctx CatCommunication (''teams.'' @ activity)
                 (time_or_now env (or_else (json_get v ''timestamp'') (json_get v ''localTimestamp'')))
                 (plain_actor ctx (unwrap_or (nested_str v [''from'', ''id'']) [])
                   (unwrap_or (nested_str v [''from'', ''name'']) []))
                 (resource_id [conversation, unwrap_or (str_field v ''id'') ''0'']) conversation
                 (JObj
                   [(''conversation_id'', JStr conversation),
                    (''text_preview'', JStr (preview (sfield v ''text''))),
                    (''channel_id'', JStr (unwrap_or (nested_str v [''channelData'', ''channel'', ''id'']) [])),
                    (''team_id'', JStr (unwrap_or (nested_str v [''channelData'', ''team'', ''id'']) []))]))))"

section \<open>Zendesk\<close>

definition normalize_zendesk :: "norm_env \<Rightarrow> json \<Rightarrow> normalize_context \<Rightarrow> core_error + canonical_event" where
  "normalize_zendesk env v ctx =
     (let detail = unwrap_or (or_else (json_get v ''detail'') (json_get v ''ticket'')) v;
          ticket_id = unwrap_or (or_else (or_else (i64_field detail ''id'')
            (Option.bind (str_field detail ''id'') parse_i64)) (i64_field v ''id'')) 0
      in Inr (base_event env ctx CatWorkItem
           (unwrap_or (or_else (str_field v ''type'') (str_field v ''event_type'')) ''ticket.updated'')
           (updated_time env detail)
           (actor_or_none ctx (or_else (or_else (json_get detail ''requester'') (json_get detail ''assignee''))
             (json_get v ''actor'')))
           (resource_id [''zendesk'', ''ticket'', show_int ticket_id]) ''zendesk''
           (JObj
             [(''ticket_id'', JInt ticket_id),
              (''subject'', JStr (unwrap_or (or_else (str_field detail ''subject'') (str_field detail ''title'')) [])),
              (''status'', JStr (sfield detail ''status'')),
              (''priority'', JStr (sfield detail ''priority'')),
              (''assignee_id'', JInt (ifield detail ''assignee_id'')),
              (''requester_id'', JInt (ifield detail ''requester_id'')),
              (''tags'', unwrap_or (json_get detail ''tags'') (JArr []))])))"

section \<open>Dispatch\<close>

definition normalize_value ::
  "norm_env \<Rightarrow> source_provider \<Rightarrow> json \<Rightarrow> normalize_context \<Rightarrow> core_error + canonical_event" where
  "normalize_value env p v ctx =
     (case p of
        Github \<Rightarrow> normalize_github env v ctx
      | Gitlab \<Rightarrow> normalize_gitlab env v ctx
      | Jira \<Rightarrow> normalize_jira env v ctx
      | Linear \<Rightarrow> normalize_linear env v ctx
      | Slack \<Rightarrow> normalize_slack env v ctx
      | Teams \<Rightarrow> normalize_teams env v ctx
      | Zendesk \<Rightarrow> normalize_zendesk env v ctx
      | Unspecified \<Rightarrow> Inl (CNormalization ''unspecified provider''))"

definition normalize ::
  "norm_env \<Rightarrow> source_provider \<Rightarrow> string \<Rightarrow> normalize_context \<Rightarrow> core_error + canonical_event" where
  "normalize env p body ctx =
     (case nv_json_parse env body of
        Inl e \<Rightarrow> Inl (CNormalization (''invalid JSON: '' @ e))
      | Inr v \<Rightarrow> normalize_value env p v ctx)"

section \<open>What a normalizer keeps of its context\<close>

text \<open>
  The provenance of an event: tenant, provider, id, archive address, groups and version come from the
  context, and the user is the resolved sender. The GitHub pull request is the only one to set privacy
  from the payload.
\<close>

definition from_context :: "norm_env \<Rightarrow> normalize_context \<Rightarrow> canonical_event \<Rightarrow> bool" where
  "from_context env ctx ev \<longleftrightarrow>
     ce_tenant_id ev = nc_tenant_id ctx \<and> ce_provider ev = nc_provider ctx \<and>
     ce_event_id ev = unwrap_or (filter_opt (\<lambda>s. s \<noteq> []) (nc_delivery_id ctx)) (nv_new_id env) \<and>
     ce_raw_payload_s3_uri ev = nc_raw_payload_s3_uri ctx \<and>
     ai_global_user_id (ce_actor ev) = nc_actor_global_user_id ctx \<and>
     al_tenant_id (ce_acl ev) = nc_tenant_id ctx \<and>
     al_allowed_group_ids (ce_acl ev) =
       (if nc_allowed_group_ids ctx = [] then nc_default_group_ids ctx else nc_allowed_group_ids ctx) \<and>
     al_acl_version (ce_acl ev) = nc_acl_version ctx"

text \<open>An actor is anonymous or carries the sender the context names.\<close>

definition known_actor :: "normalize_context \<Rightarrow> actor_identity \<Rightarrow> bool" where
  "known_actor ctx a \<longleftrightarrow> ai_global_user_id a \<in> {[], nc_actor_global_user_id ctx}"

lemma known_actors [simp]:
  "known_actor ctx no_actor" "known_actor ctx (actor_or_none ctx u)" "known_actor ctx (plain_actor ctx i n)"
  "known_actor ctx (gitlab_actor ctx v)" "known_actor ctx (actor_from_user j (nc_actor_global_user_id ctx))"
  by (simp_all add: known_actor_def no_actor_def actor_or_none_def plain_actor_def gitlab_actor_def
      actor_from_user_def split: option.split)

lemma from_context_base:
  "known_actor ctx a \<Longrightarrow> from_context env ctx (base_event env ctx c t ts a r p at)"
  by (auto simp: from_context_def base_event_def known_actor_def)

lemma from_context_private [simp]:
  "from_context env ctx (ev\<lparr>ce_acl := (ce_acl ev)\<lparr>al_is_private := b\<rparr>\<rparr>) = from_context env ctx ev"
  by (simp add: from_context_def)

lemmas gitlab_defs = gitlab_mr_def gitlab_push_def gitlab_issue_def gitlab_note_def gitlab_pipeline_def
  gitlab_identity_def gitlab_other_def
lemmas github_defs = normalize_pr_def normalize_issue_def normalize_push_def normalize_branch_def
  normalize_comment_def normalize_check_def normalize_github_identity_def normalize_github_other_def

lemma from_context_github: "normalize_github env v ctx = Inr ev \<Longrightarrow> from_context env ctx ev"
  unfolding normalize_github_def Let_def github_defs
  by (auto simp: from_context_base split: if_splits option.splits)

lemma from_context_gitlab: "normalize_gitlab env v ctx = Inr ev \<Longrightarrow> from_context env ctx ev"
proof -
  have "known_actor ctx \<lparr>ai_global_user_id = nc_actor_global_user_id ctx, ai_provider_user_id = i, ai_email = e,
      ai_display_name = n\<rparr>" for i e n by (simp add: known_actor_def)
  then show "normalize_gitlab env v ctx = Inr ev \<Longrightarrow> from_context env ctx ev"
    unfolding normalize_gitlab_def Let_def gitlab_defs
    by (auto simp: from_context_base split: if_splits option.splits)
qed

lemma from_context_value: "normalize_value env p v ctx = Inr ev \<Longrightarrow> from_context env ctx ev"
  using from_context_github from_context_gitlab
  by (cases p) (auto simp: normalize_value_def normalize_jira_def jira_identity_def normalize_linear_def
      linear_identity_def normalize_slack_def slack_identity_def normalize_teams_def teams_identity_def
      normalize_zendesk_def Let_def from_context_base split: if_splits)

text \<open>Privacy: the context decides, unless a pull request names its repository's flag.\<close>

lemma base_event_private [simp]: "al_is_private (ce_acl (base_event env ctx c t ts a r p at)) = nc_is_private ctx"
  by (simp add: base_event_def)

lemma private_value:
  assumes "normalize_value env p v ctx = Inr ev"
    and "p = Github \<Longrightarrow> unwrap_or (Option.bind (nested v [''repository'']) (\<lambda>r. bool_field r ''private'')) (nc_is_private ctx)
      = nc_is_private ctx"
  shows "al_is_private (ce_acl ev) = nc_is_private ctx"
  using assms
  by (cases p) (auto simp: normalize_value_def normalize_github_def github_defs normalize_gitlab_def gitlab_defs
      normalize_jira_def jira_identity_def normalize_linear_def linear_identity_def normalize_slack_def
      slack_identity_def normalize_teams_def teams_identity_def normalize_zendesk_def Let_def
      split: if_splits option.splits)

text \<open>Text of messages is kept only as a preview of at most 280 characters.\<close>

lemma utf8_chars_take: "utf8_chars (take_chars n s) = take n (utf8_chars s)"
proof (induction s arbitrary: n rule: utf8_chars.induct)
  case (2 c cs)
  show ?case
  proof (cases n)
    case (Suc m)
    let ?w = "takeWhile utf8_cont cs" and ?x = "take_chars m (dropWhile utf8_cont cs)"
    have x: "?x = [] \<or> \<not> utf8_cont (hd ?x)"
      using prefix_take_chars [of m "dropWhile utf8_cont cs"]
      by (cases ?x) (auto simp: prefix_def dropWhile_eq_Cons_conv)
    then have t: "takeWhile utf8_cont ?x = []" "dropWhile utf8_cont ?x = ?x" by (cases ?x; simp)+
    have w: "takeWhile utf8_cont (?w @ ?x) = ?w @ takeWhile utf8_cont ?x"
      "dropWhile utf8_cont (?w @ ?x) = dropWhile utf8_cont ?x"
      by (auto simp: takeWhile_append dropWhile_append dest: set_takeWhileD)
    have "take_chars n (c # cs) = c # ?w @ ?x" by (simp add: Suc take_chars_def)
    then show ?thesis using 2 Suc w t by simp
  qed (simp add: take_chars_def)
qed (simp add: take_chars_def)

definition short_text :: "string \<Rightarrow> bool" where
  "short_text s \<longleftrightarrow> length (utf8_chars s) \<le> 280"

lemma short_preview [simp]: "short_text (preview s)"
  by (simp add: short_text_def preview_def utf8_chars_take)

lemma short_empty [simp]: "short_text []"
  by (simp add: short_text_def)

definition text_keys :: "string list" where
  "text_keys = [''body'', ''body_preview'', ''text_preview'', ''comment_preview'']"

definition previews_short :: "json \<Rightarrow> bool" where
  "previews_short attributes \<longleftrightarrow>
     list_all (\<lambda>k. case str_field attributes k of Some s \<Rightarrow> short_text s | None \<Rightarrow> True) text_keys"

lemma base_event_attributes [simp]: "ce_attributes (base_event env ctx c t ts a r p at) = at"
  by (simp add: base_event_def)

text \<open>It is enough to look at the pairs an object is built from.\<close>

fun pair_short :: "string \<times> json \<Rightarrow> bool" where
  "pair_short (k, JStr s) \<longleftrightarrow> k \<notin> set text_keys \<or> short_text s"
| "pair_short _ \<longleftrightarrow> True"

lemma previews_short_JObj:
  assumes "list_all pair_short kvs"
  shows "previews_short (JObj kvs)"
proof -
  have "short_text s" if key: "k \<in> set text_keys" and field: "str_field (JObj kvs) k = Some s" for k s
  proof -
    obtain w where w: "map_of kvs k = Some w" "as_str w = Some s"
      using field by (auto simp: str_field_def bind_eq_Some_conv)
    then have "pair_short (k, w)" using assms map_of_SomeD by (fastforce simp: list_all_iff)
    then show ?thesis using w(2) key by (cases w) auto
  qed
  then show ?thesis by (auto simp: previews_short_def list_all_iff split: option.split)
qed

lemma previews_base [intro]:
  "list_all pair_short kvs \<Longrightarrow> previews_short (ce_attributes (base_event env ctx c t ts a r p (JObj kvs)))"
  by (simp add: previews_short_JObj)

lemma pair_short_json_strings [simp]: "pair_short (k, json_strings xs)"
  by (simp add: json_strings_def)

lemma pair_short_array:
  "k \<notin> set text_keys \<Longrightarrow> pair_short (k, w)"
  by (cases w) auto

lemmas previews_simps = previews_short_JObj text_keys_def pr_body_preview_def pair_short_array

lemma previews_github: "normalize_github env v ctx = Inr ev \<Longrightarrow> previews_short (ce_attributes ev)"
  unfolding normalize_github_def Let_def github_defs
  by (auto simp: previews_simps split: if_splits option.splits)

lemma previews_gitlab: "normalize_gitlab env v ctx = Inr ev \<Longrightarrow> previews_short (ce_attributes ev)"
  unfolding normalize_gitlab_def Let_def gitlab_defs
  by (auto simp: previews_simps split: if_splits option.splits)

lemma previews_tickets:
  "normalize_jira env v ctx = Inr ev \<Longrightarrow> previews_short (ce_attributes ev)"
  "normalize_linear env v ctx = Inr ev \<Longrightarrow> previews_short (ce_attributes ev)"
  "normalize_zendesk env v ctx = Inr ev \<Longrightarrow> previews_short (ce_attributes ev)"
  unfolding normalize_jira_def jira_identity_def normalize_linear_def linear_identity_def
    normalize_zendesk_def Let_def
  by (auto simp: previews_simps split: if_splits option.splits)

lemma previews_chat:
  "normalize_slack env v ctx = Inr ev \<Longrightarrow> previews_short (ce_attributes ev)"
  "normalize_teams env v ctx = Inr ev \<Longrightarrow> previews_short (ce_attributes ev)"
  unfolding normalize_slack_def slack_identity_def normalize_teams_def teams_identity_def Let_def
  by (auto simp: previews_simps split: if_splits option.splits)

lemma previews_value: "normalize_value env p v ctx = Inr ev \<Longrightarrow> previews_short (ce_attributes ev)"
  using previews_github previews_gitlab previews_tickets previews_chat
  by (cases p) (simp_all add: normalize_value_def)

lemma normalize_parsed:
  "normalize env p body ctx = Inr ev \<Longrightarrow>
   \<exists>v. nv_json_parse env body = Inr v \<and> normalize_value env p v ctx = Inr ev"
  by (auto simp: normalize_def split: sum.splits)

text \<open>
  C19. Whatever a provider sends, the event that comes out carries the tenant, provider, id, archive
  address, groups, access version and sender of the request's context and nothing the payload claims for
  them, and its message texts are previews of at most 280 characters.
\<close>

theorem normalized_event_keeps_provenance:
  assumes "normalize env p body ctx = Inr ev"
  shows "from_context env ctx ev \<and> previews_short (ce_attributes ev)"
  using normalize_parsed [OF assms] from_context_value previews_value by blast

definition slack_env :: norm_env where
  "slack_env =
     \<lparr>nv_json_parse = (\<lambda>_. Inr (JObj [(''team_id'', JStr ''T''),
        (''event'', JObj [(''type'', JStr ''message''), (''user'', JStr ''U''), (''text'', JStr ''hi'')])])),
      nv_rfc3339 = (\<lambda>_. None), nv_timestamp = (\<lambda>s. Some (seconds s)), nv_timestamp_millis = (\<lambda>_. None),
      nv_f64_seconds = (\<lambda>_. None), nv_new_id = ''id'', nv_now = 5, nv_ingested = 6\<rparr>"

definition slack_context :: normalize_context where
  "slack_context =
     \<lparr>nc_tenant_id = ''ten'', nc_provider = Slack, nc_delivery_id = Some ''d1'', nc_event_name = None,
      nc_raw_payload_s3_uri = ''s3'', nc_default_group_ids = [''eng''], nc_actor_global_user_id = ''gu_1'',
      nc_acl_version = 1, nc_allowed_group_ids = [], nc_is_private = True\<rparr>"

definition slack_event :: canonical_event where
  "slack_event = base_event slack_env slack_context CatCommunication ''slack.message'' 5
     (plain_actor slack_context ''U'' []) ''T/unknown/0'' ''T/unknown''
     (JObj [(''channel'', JStr ''unknown''), (''team_id'', JStr ''T''), (''thread_ts'', JStr []),
       (''text_preview'', JStr (preview ''hi'')), (''subtype'', JStr [])])"

lemma slack_normalized: "normalize slack_env Slack body slack_context = Inr slack_event"
  by (simp add: normalize_def slack_env_def normalize_value_def normalize_slack_def slack_event_def Let_def
      str_field_def slack_membership_types_def resource_id_def)

theorem normalized_event_keeps_provenance_witness:
  "from_context slack_env slack_context slack_event \<and> previews_short (ce_attributes slack_event)"
  by (rule normalized_event_keeps_provenance [OF slack_normalized [of "[]"]])

end
