(* ===== verification/Telemetry_Pipeline.thy ===== *)
theory Telemetry_Pipeline
  imports Telemetry_Edge Telemetry_Auth Telemetry_Acl Telemetry_Store Telemetry_Bus Telemetry_Providers
begin

text \<open>
  The ingestion pipeline (\<open>telemetry-core/src/pipeline.rs\<close>) with its counters (\<open>metrics.rs\<close>) and
  the in-memory object store (\<open>object_store.rs\<close>). The tenant registry, the rate limiter, the
  deduplication table and the access store are the in-memory ones; the message bus, the object store and the
  event store are the trait objects of the program, functions on states of their own that may fail.
  \<open>ingest_env\<close> also holds what one request reads from outside: clocks and fresh ids.
\<close>

section \<open>Counters\<close>

record ingest_metrics =
  im_accepted :: "64 word"
  im_duplicates :: "64 word"
  im_auth_failures :: "64 word"
  im_rate_limited :: "64 word"
  im_dead_lettered :: "64 word"
  im_errors :: "64 word"
  im_last_accepted_unix :: "64 word"
  im_latency_samples :: "64 word list"
  im_dedup_hits :: "64 word"
  im_dedup_misses :: "64 word"
  im_per_tenant :: "(string, 64 word) dashmap"

definition new_metrics :: ingest_metrics where
  "new_metrics =
     \<lparr>im_accepted = 0, im_duplicates = 0, im_auth_failures = 0, im_rate_limited = 0, im_dead_lettered = 0,
      im_errors = 0, im_last_accepted_unix = 0, im_latency_samples = [], im_dedup_hits = 0,
      im_dedup_misses = 0, im_per_tenant = []\<rparr>"

definition record_latency :: "64 word \<Rightarrow> ingest_metrics \<Rightarrow> ingest_metrics" where
  "record_latency ms m =
     (let samples = im_latency_samples m @ [ms]
      in m\<lparr>im_latency_samples := (if 50000 < length samples then drop (length samples - 25000) samples else samples)\<rparr>)"

definition record_accepted :: "64 word \<Rightarrow> ingest_metrics \<Rightarrow> ingest_metrics" where
  "record_accepted now m = m\<lparr>im_accepted := im_accepted m + 1, im_last_accepted_unix := now\<rparr>"

definition record_tenant :: "string \<Rightarrow> ingest_metrics \<Rightarrow> ingest_metrics" where
  "record_tenant t m = m\<lparr>im_per_tenant := dm_put t (unwrap_or (dm_get (im_per_tenant m) t) 0 + 1) (im_per_tenant m)\<rparr>"

definition record_dedup_hit :: "ingest_metrics \<Rightarrow> ingest_metrics" where
  "record_dedup_hit m = m\<lparr>im_dedup_hits := im_dedup_hits m + 1\<rparr>"

definition record_dedup_miss :: "ingest_metrics \<Rightarrow> ingest_metrics" where
  "record_dedup_miss m = m\<lparr>im_dedup_misses := im_dedup_misses m + 1\<rparr>"

lemma latency_samples_bounded:
  "length (im_latency_samples m) \<le> 50000 \<Longrightarrow> length (im_latency_samples (record_latency ms m)) \<le> 50000"
  by (simp add: record_latency_def Let_def)

section \<open>Object store\<close>

record object_store =
  ob_bucket :: string
  ob_objects :: "(string, string) dashmap"

definition object_put :: "string \<Rightarrow> string \<Rightarrow> object_store \<Rightarrow> (core_error + string) \<times> object_store" where
  "object_put key bytes s =
     (let uri = ''s3://'' @ ob_bucket s @ ''/'' @ key
      in (Inr uri, s\<lparr>ob_objects := dm_put uri bytes (ob_objects s)\<rparr>))"

definition object_get :: "string \<Rightarrow> object_store \<Rightarrow> core_error + string" where
  "object_get uri s =
     (case dm_get (ob_objects s) uri of Some b \<Rightarrow> Inr b | None \<Rightarrow> Inl (CNotFound (''object '' @ uri)))"

definition raw_payload_key :: "string \<Rightarrow> string \<Rightarrow> string \<Rightarrow> string \<Rightarrow> string" where
  "raw_payload_key t provider day event_id =
     ''raw/'' @ t @ ''/'' @ provider @ ''/'' @ day @ ''/'' @ event_id @ ''.json''"

definition dlq_key :: "string \<Rightarrow> string \<Rightarrow> string \<Rightarrow> string \<Rightarrow> string" where
  "dlq_key t day reason uuid = ''dlq/'' @ t @ ''/'' @ day @ ''/'' @ reason @ ''/'' @ uuid @ ''.json''"

lemma object_put_get:
  "case object_put key bytes s of (Inr uri, s') \<Rightarrow> object_get uri s' = Inr bytes | (Inl _, _) \<Rightarrow> False"
  by (simp add: object_put_def object_get_def Let_def)

section \<open>What the pipeline reads from a payload\<close>

fun extract_provider_user_id :: "source_provider \<Rightarrow> json \<Rightarrow> string" where
  "extract_provider_user_id Github v =
     unwrap_or (or_else
       (Option.bind (json_path v [''sender'', ''id'']) (\<lambda>id. or_else (map_option show_int (as_i64 id)) (as_str id)))
       (nested_str v [''sender'', ''login''])) []"
| "extract_provider_user_id Gitlab v =
     unwrap_or (or_else (map_option show_int (Option.bind (json_path v [''user'', ''id'']) as_i64))
       (map_option show_int (i64_field v ''user_id''))) []"
| "extract_provider_user_id Jira v =
     unwrap_or (Option.bind (Option.bind (json_get v ''user'') (\<lambda>u. or_else (json_get u ''accountId'') (json_get u ''key'')))
       as_str) []"
| "extract_provider_user_id Slack v = unwrap_or (nested_str v [''event'', ''user'']) []"
| "extract_provider_user_id Linear v =
     unwrap_or (Option.bind (or_else (json_path v [''data'', ''creator'', ''id'']) (json_path v [''actor'', ''id''])) as_str) []"
| "extract_provider_user_id Teams v = unwrap_or (nested_str v [''from'', ''id'']) []"
| "extract_provider_user_id Zendesk v =
     unwrap_or (map_option show_int (Option.bind (json_path v [''detail'', ''assignee_id'']) as_i64)) []"
| "extract_provider_user_id Unspecified v = []"

definition extract_email :: "json \<Rightarrow> string option" where
  "extract_email v =
     Option.bind (or_else (or_else (json_path v [''sender'', ''email'']) (json_path v [''user'', ''email'']))
       (json_path v [''event'', ''user'', ''profile'', ''email''])) as_str"

definition extract_display_name :: "json \<Rightarrow> string option" where
  "extract_display_name v =
     Option.bind (or_else (or_else (or_else (json_path v [''sender'', ''login'']) (json_path v [''sender'', ''name'']))
       (json_path v [''user'', ''name''])) (json_path v [''from'', ''name''])) as_str"

definition detect_private :: "source_provider \<Rightarrow> json \<Rightarrow> bool" where
  "detect_private p v =
     (case p of
        Github \<Rightarrow> unwrap_or (Option.bind (json_path v [''repository'', ''private'']) as_bool) False
      | Gitlab \<Rightarrow>
          unwrap_or (map_option (\<lambda>l. l = 0) (Option.bind (json_path v [''project'', ''visibility_level'']) as_i64)) False
      | _ \<Rightarrow> False)"

definition revocation_change :: "string \<Rightarrow> string option" where
  "revocation_change event_type =
     (let et = to_ascii_lowercase event_type in
      if contains et ''remove'' \<or> contains et ''left'' \<or> contains et ''deleted'' then Some ''removed_from_group''
      else if contains et ''add'' \<or> contains et ''joined'' \<or> contains et ''created'' then Some ''added_to_group''
      else None)"

definition extract_acl_revocation :: "instant \<Rightarrow> canonical_event \<Rightarrow> acl_revocation option" where
  "extract_acl_revocation now ev =
     (case revocation_change (ce_event_type ev) of
        None \<Rightarrow> None
      | Some change \<Rightarrow>
          (let get = json_get (ce_attributes ev) in
           Some \<lparr>ar_event_id = ce_event_id ev, ar_tenant_id = ce_tenant_id ev,
             ar_global_user_id = ai_global_user_id (ce_actor ev),
             ar_provider_user_id = unwrap_or (Option.bind (or_else (get ''member'') (get ''user'')) as_str)
               (ai_provider_user_id (ce_actor ev)),
             ar_provider = ce_provider ev,
             ar_group_id = unwrap_or (Option.bind (or_else (or_else (get ''team'') (get ''channel'')) (get ''group_name''))
               as_str) ''unknown'',
             ar_change_type = change, ar_acl_version = al_acl_version (ce_acl ev), ar_timestamp = now\<rparr>))"

section \<open>State and environment\<close>

record ingest_request =
  ir_tenant_id :: string
  ir_provider :: source_provider
  ir_body :: string
  ir_headers :: webhook_headers
  ir_is_backfill :: bool

record ('b, 'o, 's) ingest_world =
  iw_tenants :: tenant_registry
  iw_rate :: rate_limiter
  iw_dedup :: dedup
  iw_acl :: acl_store
  iw_metrics :: ingest_metrics
  iw_bus :: 'b
  iw_objects :: 'o
  iw_store :: 's

record ('b, 'o, 's) ingest_env =
  ie_auth_skip :: bool
  ie_hmac :: "string \<Rightarrow> string \<Rightarrow> string"
  ie_norm :: norm_env
  ie_put :: "string \<Rightarrow> string \<Rightarrow> 'o \<Rightarrow> (core_error + string) \<times> 'o"
  ie_publish :: "bus_message \<Rightarrow> 'b \<Rightarrow> (core_error + unit) \<times> 'b"
  ie_inline :: "(canonical_event \<Rightarrow> 's \<Rightarrow> (core_error + unit) \<times> 's) option"
  ie_day :: string
  ie_dlq_id :: string
  ie_user_uuid :: string
  ie_unix_now :: int
  ie_rate_now :: instant
  ie_gc_now :: instant
  ie_claim_now :: instant
  ie_latency_ms :: "64 word"

definition on_metrics ::
  "(ingest_metrics \<Rightarrow> ingest_metrics) \<Rightarrow> ('b, 'o, 's) ingest_world \<Rightarrow> ('b, 'o, 's) ingest_world" where
  "on_metrics f w = w\<lparr>iw_metrics := f (iw_metrics w)\<rparr>"

definition event_message :: "bus_topic \<Rightarrow> canonical_event \<Rightarrow> bus_message" where
  "event_message t ev = \<lparr>bm_topic = t, bm_partition_key = ce_tenant_id ev, bm_payload = BusEvent ev\<rparr>"

definition acl_message :: "acl_revocation \<Rightarrow> bus_message" where
  "acl_message r = \<lparr>bm_topic = EventsAcl, bm_partition_key = ar_tenant_id r, bm_payload = BusAcl r\<rparr>"

definition stream_topic :: "ingest_request \<Rightarrow> bus_topic" where
  "stream_topic req = (if ir_is_backfill req then EventsBackfill else EventsRealtime)"

section \<open>The steps\<close>

definition normalize_and_enrich ::
  "('b, 'o, 's) ingest_env \<Rightarrow> tenant_config \<Rightarrow> ingest_request \<Rightarrow> string \<Rightarrow> string \<Rightarrow> acl_store \<Rightarrow>
   (core_error + canonical_event) \<times> acl_store" where
  "normalize_and_enrich env tenant req delivery_id raw_uri acl =
     (case nv_json_parse (ie_norm env) (ir_body req) of
        Inl e \<Rightarrow> (Inl (CNormalization (''invalid JSON: '' @ e)), acl)
      | Inr v \<Rightarrow>
          (let user = extract_provider_user_id (ir_provider req) v;
               (gid, acl1) =
                 (if user = [] then ([], acl)
                  else ensure_user (ie_user_uuid env) (ir_tenant_id req) user (unwrap_or (extract_email v) [])
                    (unwrap_or (extract_display_name v) []) acl);
               ctx = \<lparr>nc_tenant_id = tc_tenant_id tenant, nc_provider = ir_provider req,
                 nc_delivery_id = Some delivery_id, nc_event_name = wh_event_name (ir_headers req),
                 nc_raw_payload_s3_uri = raw_uri, nc_default_group_ids = tc_default_group_ids tenant,
                 nc_actor_global_user_id = gid, nc_acl_version = max (current_acl_version acl1 (ir_tenant_id req)) 1,
                 nc_allowed_group_ids = tc_default_group_ids tenant,
                 nc_is_private = detect_private (ir_provider req) v\<rparr>
           in (normalize (ie_norm env) (ir_provider req) (ir_body req) ctx, acl1)))"

text \<open>Publishing one message, and the change of membership of an identity event with its message.\<close>

definition publish_step ::
  "('b, 'o, 's) ingest_env \<Rightarrow> bus_message \<Rightarrow> ('b, 'o, 's) ingest_world \<Rightarrow>
   (core_error + unit) \<times> ('b, 'o, 's) ingest_world" where
  "publish_step env m w = (let (r, b) = ie_publish env m (iw_bus w) in (r, w\<lparr>iw_bus := b\<rparr>))"

definition identity_step ::
  "('b, 'o, 's) ingest_env \<Rightarrow> canonical_event \<Rightarrow> ('b, 'o, 's) ingest_world \<Rightarrow>
   (core_error + unit) \<times> ('b, 'o, 's) ingest_world" where
  "identity_step env ev w =
     (if ce_category ev = CatIdentity then
        (case extract_acl_revocation (nv_now (ie_norm env)) ev of
           Some r \<Rightarrow> publish_step env (acl_message r) (w\<lparr>iw_acl := snd (apply_revocation r (iw_acl w))\<rparr>)
         | None \<Rightarrow> (Inr (), w))
      else (Inr (), w))"

definition inline_step ::
  "('b, 'o, 's) ingest_env \<Rightarrow> canonical_event \<Rightarrow> ('b, 'o, 's) ingest_world \<Rightarrow>
   (core_error + unit) \<times> ('b, 'o, 's) ingest_world" where
  "inline_step env ev w =
     (case ie_inline env of
        Some upsert \<Rightarrow> (let (r, s) = upsert ev (iw_store w) in (r, w\<lparr>iw_store := s\<rparr>))
      | None \<Rightarrow> (Inr (), w))"

text \<open>The chain of fallible steps of the success path: the first error ends it.\<close>

fun run_steps ::
  "(('b, 'o, 's) ingest_world \<Rightarrow> (core_error + unit) \<times> ('b, 'o, 's) ingest_world) list \<Rightarrow>
   ('b, 'o, 's) ingest_world \<Rightarrow> (core_error + unit) \<times> ('b, 'o, 's) ingest_world" where
  "run_steps [] w = (Inr (), w)"
| "run_steps (f # fs) w = (case f w of (Inl e, w') \<Rightarrow> (Inl e, w') | (Inr _, w') \<Rightarrow> run_steps fs w')"

definition deliver_steps ::
  "('b, 'o, 's) ingest_env \<Rightarrow> ingest_request \<Rightarrow> canonical_event \<Rightarrow>
   (('b, 'o, 's) ingest_world \<Rightarrow> (core_error + unit) \<times> ('b, 'o, 's) ingest_world) list" where
  "deliver_steps env req ev =
     [identity_step env ev, publish_step env (event_message EventsRaw ev),
      publish_step env (event_message (stream_topic req) ev), inline_step env ev]"

definition outcome :: "string \<Rightarrow> ingest_status \<Rightarrow> ingest_outcome" where
  "outcome i st = \<lparr>io_event_id = i, io_status = st, io_latency_ms = 0\<rparr>"

definition process_claimed ::
  "('b, 'o, 's) ingest_env \<Rightarrow> tenant_config \<Rightarrow> ingest_request \<Rightarrow> string \<Rightarrow> ('b, 'o, 's) ingest_world \<Rightarrow>
   (core_error + ingest_outcome) \<times> ('b, 'o, 's) ingest_world" where
  "process_claimed env tenant req delivery_id w =
     (let (put, objects) = ie_put env (raw_payload_key (ir_tenant_id req) (provider_name (ir_provider req))
            (ie_day env) delivery_id) (ir_body req) (iw_objects w);
          raw_uri = (case put of Inr uri \<Rightarrow> uri | Inl _ \<Rightarrow> []);
          (event, acl) = normalize_and_enrich env tenant req delivery_id raw_uri (iw_acl w);
          w1 = w\<lparr>iw_objects := objects, iw_acl := acl\<rparr>
      in case event of
           Inl e \<Rightarrow>
             (let (_, objects') = ie_put env (dlq_key (ir_tenant_id req) (ie_day env) ''normalize_error'' (ie_dlq_id env))
                    (ir_body req) (iw_objects w1)
              in (Inr (outcome delivery_id DeadLettered), w1\<lparr>iw_objects := objects'\<rparr>))
         | Inr ev \<Rightarrow>
             (case run_steps (deliver_steps env req ev) w1 of
                (Inl e, w2) \<Rightarrow> (Inl e, w2)
              | (Inr _, w2) \<Rightarrow> (Inr (outcome (ce_event_id ev) Accepted), w2)))"

fun is_dead_letter :: "core_error \<Rightarrow> bool" where
  "is_dead_letter (CDeadLetter _) = True"
| "is_dead_letter _ = False"

definition slack_challenge :: "('b, 'o, 's) ingest_env \<Rightarrow> ingest_request \<Rightarrow> bool" where
  "slack_challenge env req \<longleftrightarrow>
     ir_provider req = Slack \<and>
     (case nv_json_parse (ie_norm env) (ir_body req) of
        Inr v \<Rightarrow> str_field v ''type'' = Some ''url_verification'' | Inl _ \<Rightarrow> False)"

definition authenticate ::
  "('b, 'o, 's) ingest_env \<Rightarrow> tenant_config \<Rightarrow> ingest_request \<Rightarrow> core_error + unit" where
  "authenticate env tenant req =
     (if ie_auth_skip env then Inr ()
      else case secret_for tenant (ir_provider req) of
             None \<Rightarrow> Inl (CAuth (''no webhook secret configured for '' @ provider_debug (ir_provider req)))
           | Some secret \<Rightarrow>
               verify_webhook (ie_hmac env) (ie_unix_now env) (ir_provider req) secret (ir_body req) (ir_headers req))"

definition delivery_id_of :: "('b, 'o, 's) ingest_env \<Rightarrow> ingest_request \<Rightarrow> string" where
  "delivery_id_of env req =
     unwrap_or (filter_opt (\<lambda>s. s \<noteq> []) (wh_delivery_id (ir_headers req))) (nv_new_id (ie_norm env))"

definition ingest_inner ::
  "('b, 'o, 's) ingest_env \<Rightarrow> ingest_request \<Rightarrow> ('b, 'o, 's) ingest_world \<Rightarrow>
   (core_error + ingest_outcome) \<times> ('b, 'o, 's) ingest_world" where
  "ingest_inner env req w0 =
     (let w = on_metrics (record_tenant (ir_tenant_id req)) w0 in
      if slack_challenge env req then (Inl (CValidation ''slack_url_verification''), w)
      else case registry_lookup (iw_tenants w) (ir_tenant_id req) of
        None \<Rightarrow> (Inl (CNotFound (''tenant '' @ ir_tenant_id req)), w)
      | Some tenant \<Rightarrow>
          (case authenticate env tenant req of
             Inl e \<Rightarrow> (Inl e, w)
           | Inr _ \<Rightarrow>
               (let (limit, rate) = rate_check (ir_tenant_id req) (ie_rate_now env) (iw_rate w);
                    w1 = w\<lparr>iw_rate := rate\<rparr>
                in case limit of
                     Inl e \<Rightarrow> (Inl e, w1)
                   | Inr _ \<Rightarrow>
                       (let delivery_id = delivery_id_of env req;
                            (first, dedup) = try_claim delivery_id (ie_gc_now env) (ie_claim_now env) (iw_dedup w1);
                            w2 = w1\<lparr>iw_dedup := dedup\<rparr>
                        in if \<not> first
                           then (Inr (outcome delivery_id DuplicateDelivery), on_metrics record_dedup_hit w2)
                           else
                             (case process_claimed env tenant req delivery_id (on_metrics record_dedup_miss w2) of
                                (Inr out, w3) \<Rightarrow> (Inr out, w3)
                              | (Inl e, w3) \<Rightarrow>
                                  (Inl e, if is_dead_letter e then w3
                                          else w3\<lparr>iw_dedup := release delivery_id (iw_dedup w3)\<rparr>))))))"

definition count_outcome :: "64 word \<Rightarrow> core_error + ingest_outcome \<Rightarrow> ingest_metrics \<Rightarrow> ingest_metrics" where
  "count_outcome now r m =
     (case r of
        Inr out \<Rightarrow>
          (case io_status out of
             Accepted \<Rightarrow> record_accepted now m
           | DuplicateDelivery \<Rightarrow> record_dedup_hit (m\<lparr>im_duplicates := im_duplicates m + 1\<rparr>)
           | DeadLettered \<Rightarrow> m\<lparr>im_dead_lettered := im_dead_lettered m + 1\<rparr>)
      | Inl e \<Rightarrow>
          (case e of
             CAuth _ \<Rightarrow> m\<lparr>im_auth_failures := im_auth_failures m + 1\<rparr>
           | CRateLimited _ \<Rightarrow> m\<lparr>im_rate_limited := im_rate_limited m + 1\<rparr>
           | CDuplicate _ \<Rightarrow> record_dedup_hit (m\<lparr>im_duplicates := im_duplicates m + 1\<rparr>)
           | _ \<Rightarrow> m\<lparr>im_errors := im_errors m + 1\<rparr>))"

definition ingest ::
  "('b, 'o, 's) ingest_env \<Rightarrow> ingest_request \<Rightarrow> ('b, 'o, 's) ingest_world \<Rightarrow>
   (core_error + ingest_outcome) \<times> ('b, 'o, 's) ingest_world" where
  "ingest env req w =
     (let (r, w1) = ingest_inner env req w;
          ms = ie_latency_ms env;
          w2 = on_metrics (count_outcome (word_of_int (max 0 (ie_unix_now env))) r \<circ> record_latency ms) w1
      in (case r of
            Inr out \<Rightarrow> Inr (out\<lparr>io_latency_ms := ms\<rparr>)
          | Inl (CDuplicate i) \<Rightarrow> Inr \<lparr>io_event_id = i, io_status = DuplicateDelivery, io_latency_ms = ms\<rparr>
          | Inl e \<Rightarrow> Inl e, w2))"

end
