(* ===== verification/Telemetry_Flow.thy ===== *)
theory Telemetry_Flow
  imports Telemetry_Pipeline
begin

text \<open>
  What the ingestion pipeline promises: which requests have an effect, that an accepted event is on the bus,
  that a failed request can be retried and a repeated one is dropped, and that the embedded service answers.
\<close>

section \<open>The bus the pipeline needs\<close>

text \<open>
  A publish that succeeds makes the message the newest of its topic and leaves the other topics alone.
\<close>

locale event_bus =
  fixes publish :: "bus_message \<Rightarrow> 'b \<Rightarrow> (core_error + unit) \<times> 'b"
    and newest :: "'b \<Rightarrow> bus_topic \<Rightarrow> bus_message option"
    and usable :: "'b \<Rightarrow> bool"
  assumes publish_newest: "usable b \<Longrightarrow> publish m b = (Inr u, b') \<Longrightarrow> newest b' = (newest b)(bm_topic m \<mapsto> m)"
    and publish_usable: "usable b \<Longrightarrow> usable (snd (publish m b))"
begin

lemma publish_step_newest:
  assumes "usable (iw_bus w)" "ie_publish env = publish" "publish_step env m w = (Inr u, w')"
  shows "newest (iw_bus w') = (newest (iw_bus w))(bm_topic m \<mapsto> m) \<and> usable (iw_bus w')"
  using assms publish_newest [of "iw_bus w" m "()"] publish_usable [of "iw_bus w" m]
  by (auto simp: publish_step_def split: prod.splits)

lemma identity_step_usable:
  assumes "usable (iw_bus w)" "ie_publish env = publish"
  shows "usable (iw_bus (snd (identity_step env ev w)))"
  using assms publish_usable by (auto simp: identity_step_def publish_step_def case_prod_beta split: option.split)

lemma delivered_steps:
  assumes "usable (iw_bus w)" "ie_publish env = publish" "run_steps (deliver_steps env req ev) w = (Inr u, w')"
  shows "newest (iw_bus w') EventsRaw = Some (event_message EventsRaw ev)"
    "newest (iw_bus w') (stream_topic req) = Some (event_message (stream_topic req) ev)"
proof -
  obtain u1 w1 u2 w2 u3 w3 where
    s1: "identity_step env ev w = (Inr u1, w1)" and
    s2: "publish_step env (event_message EventsRaw ev) w1 = (Inr u2, w2)" and
    s3: "publish_step env (event_message (stream_topic req) ev) w2 = (Inr u3, w3)" and
    s4: "inline_step env ev w3 = (Inr u, w')"
    using assms(3) by (auto simp: deliver_steps_def split: prod.splits sum.splits)
  have "usable (iw_bus w1)" using identity_step_usable [OF assms(1,2), of ev] s1 by simp
  note p2 = publish_step_newest [OF this assms(2) s2]
  note p3 = publish_step_newest [OF conjunct2 [OF p2] assms(2) s3]
  have "iw_bus w' = iw_bus w3" using s4 by (auto simp: inline_step_def split: option.splits prod.splits)
  then show "newest (iw_bus w') EventsRaw = Some (event_message EventsRaw ev)"
    "newest (iw_bus w') (stream_topic req) = Some (event_message (stream_topic req) ev)"
    using p2 p3 by (auto simp: event_message_def stream_topic_def)
qed

end

definition newest_message :: "'m bus \<Rightarrow> bus_topic \<Rightarrow> 'm option" where
  "newest_message b t = (let l = ts_log (topic_state t b) in if l = [] then None else Some (snd (last l)))"

lemma drop_above_snoc: "0 < cap \<Longrightarrow> \<exists>ys. drop_above cap (xs @ [x]) = ys @ [x]"
  by (simp add: drop_above_eq)

lemma newest_message_set:
  "newest_message (set_topic t s b) t' =
     (if t' = t then if ts_log s = [] then None else Some (snd (last (ts_log s))) else newest_message b t')"
  by (simp add: newest_message_def Let_def)

interpretation memory_bus: event_bus bus_publish newest_message "\<lambda>b. 0 < bu_durable_cap b"
proof
  fix b b' :: "bus_message bus" and m u
  assume "0 < bu_durable_cap b" and pub: "bus_publish m b = (Inr u, b')"
  let ?s = "topic_state (bm_topic m) b"
  obtain ys where "drop_above (bu_durable_cap b) (ts_log ?s @ [(ts_seq ?s + 1, m)]) = ys @ [(ts_seq ?s + 1, m)]"
    using drop_above_snoc [OF \<open>0 < bu_durable_cap b\<close>, of "ts_log ?s" "(ts_seq ?s + 1, m)"] by (elim exE)
  then have "ts_log (topic_publish (bu_durable_cap b) m ?s) = ys @ [(ts_seq ?s + 1, m)]"
    by (simp add: topic_publish_def Let_def)
  moreover have "b' = set_topic (bm_topic m) (topic_publish (bu_durable_cap b) m ?s) b"
    using pub by (simp only: bus_publish_def Let_def prod.inject)
  ultimately show "newest_message b' = (newest_message b)(bm_topic m \<mapsto> m)"
    by (intro ext) (simp add: newest_message_set)
qed (simp add: bus_publish_def Let_def)

section \<open>Which requests have an effect\<close>

text \<open>The state outside the pipeline's own gates and counters.\<close>

definition effects :: "('b, 'o, 's) ingest_world \<Rightarrow> 'b \<times> 'o \<times> 's \<times> acl_store \<times> tenant_registry" where
  "effects w = (iw_bus w, iw_objects w, iw_store w, iw_acl w, iw_tenants w)"

lemma effects_simps [simp]:
  "effects (on_metrics f w) = effects w" "effects (w\<lparr>iw_rate := r\<rparr>) = effects w"
  "effects (w\<lparr>iw_dedup := d\<rparr>) = effects w"
  by (simp_all add: effects_def on_metrics_def)

lemma on_metrics_simps [simp]:
  "iw_tenants (on_metrics f w) = iw_tenants w" "iw_rate (on_metrics f w) = iw_rate w"
  "iw_dedup (on_metrics f w) = iw_dedup w" "iw_acl (on_metrics f w) = iw_acl w"
  "iw_bus (on_metrics f w) = iw_bus w" "iw_objects (on_metrics f w) = iw_objects w"
  "iw_store (on_metrics f w) = iw_store w"
  by (simp_all add: on_metrics_def)

text \<open>A request gets past the gates: tenant, signature, rate and first claim of its delivery id.\<close>

definition passes_gates ::
  "('b, 'o, 's) ingest_env \<Rightarrow> ingest_request \<Rightarrow> ('b, 'o, 's) ingest_world \<Rightarrow> tenant_config \<Rightarrow> bool" where
  "passes_gates env req w tenant \<longleftrightarrow>
     \<not> slack_challenge env req \<and> registry_lookup (iw_tenants w) (ir_tenant_id req) = Some tenant \<and>
     authenticate env tenant req = Inr () \<and> rate_admits (ir_tenant_id req) (ie_rate_now env) (iw_rate w) \<and>
     fst (try_claim (delivery_id_of env req) (ie_gc_now env) (ie_claim_now env) (iw_dedup w))"

text \<open>The state in which a request that passes is processed.\<close>

definition claimed_world ::
  "('b, 'o, 's) ingest_env \<Rightarrow> ingest_request \<Rightarrow> ('b, 'o, 's) ingest_world \<Rightarrow> ('b, 'o, 's) ingest_world" where
  "claimed_world env req w =
     on_metrics record_dedup_miss
       ((on_metrics (record_tenant (ir_tenant_id req)) w)
         \<lparr>iw_rate := snd (rate_check (ir_tenant_id req) (ie_rate_now env) (iw_rate w)),
          iw_dedup := snd (try_claim (delivery_id_of env req) (ie_gc_now env) (ie_claim_now env) (iw_dedup w))\<rparr>)"

lemma ingest_inner_passed:
  assumes "passes_gates env req w tenant"
  shows "ingest_inner env req w =
    (case process_claimed env tenant req (delivery_id_of env req) (claimed_world env req w) of
       (Inr out, w3) \<Rightarrow> (Inr out, w3)
     | (Inl e, w3) \<Rightarrow> (Inl e, if is_dead_letter e then w3
         else w3\<lparr>iw_dedup := release (delivery_id_of env req) (iw_dedup w3)\<rparr>))"
  using assms
  by (simp add: ingest_inner_def Let_def passes_gates_def claimed_world_def rate_admits_def case_prod_beta)

lemma ingest_inner_stopped:
  assumes "\<nexists>tenant. passes_gates env req w tenant" "ingest_inner env req w = (r, w')"
  shows "effects w' = effects w" "\<And>out. r = Inr out \<Longrightarrow> io_status out = DuplicateDelivery"
    "\<And>out. r = Inl e \<Longrightarrow> iw_dedup w' = iw_dedup w"
proof -
  obtain lim rate where rl: "rate_check (ir_tenant_id req) (ie_rate_now env) (iw_rate w) = (lim, rate)"
    by (cases "rate_check (ir_tenant_id req) (ie_rate_now env) (iw_rate w)")
  obtain first d where cl: "try_claim (delivery_id_of env req) (ie_gc_now env) (ie_claim_now env) (iw_dedup w) = (first, d)"
    by (cases "try_claim (delivery_id_of env req) (ie_gc_now env) (ie_claim_now env) (iw_dedup w)")
  have stop: "\<not> first" if "\<not> slack_challenge env req"
      "registry_lookup (iw_tenants w) (ir_tenant_id req) = Some tenant" "authenticate env tenant req = Inr ()" "lim = Inr ()"
    for tenant
    using assms(1) that rl cl by (auto simp: passes_gates_def rate_admits_def)
  show "effects w' = effects w" "\<And>out. r = Inr out \<Longrightarrow> io_status out = DuplicateDelivery"
    "\<And>out. r = Inl e \<Longrightarrow> iw_dedup w' = iw_dedup w"
    using assms(2) stop rl cl
    by (auto simp: ingest_inner_def Let_def outcome_def split: if_splits option.splits sum.splits)
qed

lemma ingest_effects: "effects (snd (ingest env req w)) = effects (snd (ingest_inner env req w))"
  "iw_dedup (snd (ingest env req w)) = iw_dedup (snd (ingest_inner env req w))"
  "iw_acl (snd (ingest env req w)) = iw_acl (snd (ingest_inner env req w))"
  "iw_bus (snd (ingest env req w)) = iw_bus (snd (ingest_inner env req w))"
  by (simp_all add: ingest_def Let_def case_prod_beta)

text \<open>
  A request changes the bus, the archive, the event store, the memberships or the tenants only if its
  tenant exists, its signature was verified (unless that is switched off), the rate limit admitted it and it
  was the first claim of its delivery id; everything else ends in an error or in \<open>Duplicate\<close>.
\<close>

lemma only_admitted_requests_have_effects:
  "(\<exists>tenant. passes_gates env req w tenant) \<or>
   effects (snd (ingest env req w)) = effects w \<and>
   (case fst (ingest env req w) of Inl e \<Rightarrow> True | Inr out \<Rightarrow> io_status out = DuplicateDelivery)"
proof (cases "\<exists>tenant. passes_gates env req w tenant")
  case False
  obtain r w' where i: "ingest_inner env req w = (r, w')" by (cases "ingest_inner env req w")
  from ingest_inner_stopped [OF _ i] False show ?thesis
    unfolding ingest_effects i ingest_def Let_def by (auto split: sum.split core_error.split)
qed blast

section \<open>Accepted events\<close>

lemma process_claimed_accepted:
  assumes "process_claimed env tenant req i w = (Inr out, w')" "io_status out = Accepted"
  obtains uri ev acl w1 u where
    "normalize_and_enrich env tenant req i uri (iw_acl w) = (Inr ev, acl)"
    "iw_acl w1 = acl" "iw_bus w1 = iw_bus w" "iw_store w1 = iw_store w"
    "run_steps (deliver_steps env req ev) w1 = (Inr u, w')" "io_event_id out = ce_event_id ev"
proof -
  obtain put objects where p: "ie_put env (raw_payload_key (ir_tenant_id req) (provider_name (ir_provider req))
      (ie_day env) i) (ir_body req) (iw_objects w) = (put, objects)" by fastforce
  let ?uri = "case put of Inr uri \<Rightarrow> uri | Inl _ \<Rightarrow> []"
  obtain event acl where n: "normalize_and_enrich env tenant req i ?uri (iw_acl w) = (event, acl)" by fastforce
  let ?w1 = "w\<lparr>iw_objects := objects, iw_acl := acl\<rparr>"
  note unfold = assms(1) [unfolded process_claimed_def Let_def p prod.case n]
  show ?thesis
  proof (cases event)
    case (Inl e)
    then show ?thesis using unfold assms(2) by (auto simp: outcome_def case_prod_beta)
  next
    case (Inr ev)
    obtain r w2 where r: "run_steps (deliver_steps env req ev) ?w1 = (r, w2)" by fastforce
    with unfold Inr obtain u where "r = Inr u" "w2 = w'" "io_event_id out = ce_event_id ev"
      by (cases r) (auto simp: outcome_def)
    then show ?thesis using that [of ?uri ev acl ?w1 u] n r Inr by simp
  qed
qed

lemma enriched_event:
  assumes "normalize_and_enrich env tenant req i uri acl = (Inr ev, acl')" "i \<noteq> []"
  shows "ce_event_id ev = i" "ce_tenant_id ev = tc_tenant_id tenant" "ce_provider ev = ir_provider req"
    "al_allowed_group_ids (ce_acl ev) = tc_default_group_ids tenant" "previews_short (ce_attributes ev)"
proof -
  obtain ctx where n: "normalize (ie_norm env) (ir_provider req) (ir_body req) ctx = Inr ev"
    and ctx: "nc_delivery_id ctx = Some i" "nc_tenant_id ctx = tc_tenant_id tenant" "nc_provider ctx = ir_provider req"
      "nc_allowed_group_ids ctx = tc_default_group_ids tenant" "nc_default_group_ids ctx = tc_default_group_ids tenant"
    using assms(1) unfolding normalize_and_enrich_def Let_def case_prod_beta by (auto split: sum.splits)
  obtain v where "normalize_value (ie_norm env) (ir_provider req) v ctx = Inr ev" using normalize_parsed [OF n] by blast
  from from_context_value [OF this] previews_value [OF this] ctx assms(2)
  show "ce_event_id ev = i" "ce_tenant_id ev = tc_tenant_id tenant" "ce_provider ev = ir_provider req"
    "al_allowed_group_ids (ce_acl ev) = tc_default_group_ids tenant" "previews_short (ce_attributes ev)"
    by (auto simp: from_context_def split: if_splits)
qed

lemma ingest_inner_accepted:
  assumes "ingest_inner env req w = (Inr out, w')" "io_status out = Accepted"
  obtains tenant where "passes_gates env req w tenant"
    "process_claimed env tenant req (delivery_id_of env req) (claimed_world env req w) = (Inr out, w')"
proof -
  obtain tenant where g: "passes_gates env req w tenant"
    using ingest_inner_stopped(2) [OF _ assms(1), of out] assms(2) by fastforce
  then have "process_claimed env tenant req (delivery_id_of env req) (claimed_world env req w) = (Inr out, w')"
    using ingest_inner_passed [OF g] assms(1) by (auto split: prod.splits sum.splits)
  with g show ?thesis by (rule that)
qed

lemma ingest_accepted:
  assumes "ingest env req w = (Inr out, w')" "io_status out = Accepted"
  obtains out' w1 where "ingest_inner env req w = (Inr out', w1)" "io_status out' = Accepted"
    "io_event_id out' = io_event_id out" "effects w' = effects w1" "iw_dedup w' = iw_dedup w1"
proof -
  obtain r w1 where i: "ingest_inner env req w = (r, w1)" by fastforce
  have w': "effects w' = effects w1" "iw_dedup w' = iw_dedup w1"
    using assms(1) i by (auto simp: ingest_def Let_def)
  have "fst (ingest env req w) = Inr out" using assms(1) by simp
  then obtain out' where "r = Inr out'" "io_status out' = Accepted" "io_event_id out' = io_event_id out"
    using assms(2) i by (auto simp: ingest_def Let_def split: sum.splits core_error.splits)
  with that i w' show ?thesis by blast
qed

text \<open>
  When a request is answered with \<open>Accepted\<close> its event is on the bus: it is the newest message of
  the raw topic and of the real-time (or backfill) topic, carries the delivery id that was answered, the
  tenant's id and groups, and went through all the gates.
\<close>

lemma accepted_is_published:
  assumes "ingest env req w = (Inr out, w')" "io_status out = Accepted"
    and "ie_publish env = bus_publish" "0 < bu_durable_cap (iw_bus w)" "delivery_id_of env req \<noteq> []"
  shows "\<exists>tenant ev. passes_gates env req w tenant \<and> io_event_id out = delivery_id_of env req \<and>
    ce_event_id ev = delivery_id_of env req \<and> ce_tenant_id ev = tc_tenant_id tenant \<and>
    al_allowed_group_ids (ce_acl ev) = tc_default_group_ids tenant \<and>
    newest_message (iw_bus w') EventsRaw = Some (event_message EventsRaw ev) \<and>
    newest_message (iw_bus w') (stream_topic req) = Some (event_message (stream_topic req) ev)"
proof -
  obtain out' w1 where i: "ingest_inner env req w = (Inr out', w1)" "io_status out' = Accepted"
    "io_event_id out' = io_event_id out" "effects w' = effects w1"
    by (rule ingest_accepted [OF assms(1,2)])
  obtain tenant where g: "passes_gates env req w tenant" and
    p: "process_claimed env tenant req (delivery_id_of env req) (claimed_world env req w) = (Inr out', w1)"
    by (rule ingest_inner_accepted [OF i(1,2)])
  obtain uri ev acl w2 u where n: "normalize_and_enrich env tenant req (delivery_id_of env req) uri
      (iw_acl (claimed_world env req w)) = (Inr ev, acl)"
    and b: "iw_bus w2 = iw_bus (claimed_world env req w)"
    and r: "run_steps (deliver_steps env req ev) w2 = (Inr u, w1)" and id: "io_event_id out' = ce_event_id ev"
    by (rule process_claimed_accepted [OF p i(2)])
  have "iw_bus w2 = iw_bus w" using b by (simp add: claimed_world_def on_metrics_def)
  then have "0 < bu_durable_cap (iw_bus w2)" using assms(4) by simp
  note new = memory_bus.delivered_steps [OF this assms(3) r]
  have "iw_bus w' = iw_bus w1" using i(4) by (simp add: effects_def)
  then show ?thesis
    using g i(3) id new enriched_event [OF n assms(5)] by auto
qed

section \<open>Failures and redeliveries\<close>

lemma run_steps_gates:
  assumes "\<And>f w. f \<in> set fs \<Longrightarrow> iw_dedup (snd (f w)) = iw_dedup w \<and> iw_rate (snd (f w)) = iw_rate w \<and> iw_tenants (snd (f w)) = iw_tenants w"
  shows "iw_dedup (snd (run_steps fs w)) = iw_dedup w \<and> iw_rate (snd (run_steps fs w)) = iw_rate w \<and>
    iw_tenants (snd (run_steps fs w)) = iw_tenants w"
  using assms
proof (induction fs arbitrary: w)
  case (Cons f fs)
  obtain r w1 where f: "f w = (r, w1)" by fastforce
  have "iw_dedup w1 = iw_dedup w \<and> iw_rate w1 = iw_rate w \<and> iw_tenants w1 = iw_tenants w"
    using Cons.prems [of f w] f by simp
  moreover have "iw_dedup (snd (run_steps fs w1)) = iw_dedup w1 \<and> iw_rate (snd (run_steps fs w1)) = iw_rate w1 \<and>
      iw_tenants (snd (run_steps fs w1)) = iw_tenants w1"
    by (rule Cons.IH) (simp add: Cons.prems)
  ultimately show ?case using f by (cases r) auto
qed simp

lemma deliver_steps_gates:
  "f \<in> set (deliver_steps env req ev) \<Longrightarrow>
   iw_dedup (snd (f w)) = iw_dedup w \<and> iw_rate (snd (f w)) = iw_rate w \<and> iw_tenants (snd (f w)) = iw_tenants w"
  by (auto simp: deliver_steps_def identity_step_def publish_step_def inline_step_def case_prod_beta split: option.split)

lemma process_claimed_gates:
  "iw_dedup (snd (process_claimed env tenant req i w)) = iw_dedup w"
  "iw_rate (snd (process_claimed env tenant req i w)) = iw_rate w"
  "iw_tenants (snd (process_claimed env tenant req i w)) = iw_tenants w"
proof -
  have s: "iw_dedup (snd (run_steps (deliver_steps env req ev) w1)) = iw_dedup w1"
    "iw_rate (snd (run_steps (deliver_steps env req ev) w1)) = iw_rate w1"
    "iw_tenants (snd (run_steps (deliver_steps env req ev) w1)) = iw_tenants w1" for ev w1
    using run_steps_gates [of "deliver_steps env req ev" w1] deliver_steps_gates [of _ env req ev] by auto
  show "iw_dedup (snd (process_claimed env tenant req i w)) = iw_dedup w"
    "iw_rate (snd (process_claimed env tenant req i w)) = iw_rate w"
    "iw_tenants (snd (process_claimed env tenant req i w)) = iw_tenants w"
    by (auto simp: process_claimed_def Let_def case_prod_beta s split: sum.split)
qed

text \<open>
  C22. A request that fails does not lose its delivery: either its id was not claimed, or the claim was
  released and the next attempt claims it again, whatever the error after the gates (a dead letter apart).
\<close>

theorem failed_request_can_be_retried:
  assumes "fst (ingest env req w) = Inl e" "\<not> is_dead_letter e"
  shows "iw_dedup (snd (ingest env req w)) = iw_dedup w \<or>
    fst (try_claim (delivery_id_of env req) g now (iw_dedup (snd (ingest env req w))))"
proof -
  obtain r w1 where i: "ingest_inner env req w = (r, w1)" by fastforce
  have r: "r = Inl e" using assms(1) i by (auto simp: ingest_def Let_def split: sum.splits core_error.splits)
  show ?thesis
  proof (cases "\<exists>tenant. passes_gates env req w tenant")
    case True
    then obtain tenant where g: "passes_gates env req w tenant" by blast
    let ?i = "delivery_id_of env req"
    obtain r3 w3 where p: "process_claimed env tenant req ?i (claimed_world env req w) = (r3, w3)" by fastforce
    then have "r3 = Inl e" using ingest_inner_passed [OF g] i r by (auto split: sum.splits)
    then have "iw_dedup w1 = release ?i (iw_dedup w3)"
      using ingest_inner_passed [OF g] i p assms(2) by simp
    then show ?thesis unfolding ingest_effects i by (simp add: claim_after_release)
  next
    case False
    with ingest_inner_stopped(3) [OF _ i, of e] r show ?thesis unfolding ingest_effects i by simp
  qed
qed

text \<open>What is left of a claim after the request was answered with an outcome.\<close>

lemma claim_kept:
  assumes "ingest env req w = (Inr out, w')" "io_status out \<noteq> DuplicateDelivery"
  shows "\<exists>tenant. passes_gates env req w tenant"
    "dm_get (dp_entries (iw_dedup w')) (delivery_id_of env req) = Some (ie_claim_now env)"
    "dp_ttl (iw_dedup w') = dp_ttl (iw_dedup w)"
proof -
  obtain r w1 where i: "ingest_inner env req w = (r, w1)" by fastforce
  obtain out' where o: "r = Inr out'" "io_status out' = io_status out \<or> False"
  proof -
    have "fst (ingest env req w) = Inr out" using assms(1) by simp
    then show ?thesis using that assms(2) i
      by (auto simp: ingest_def Let_def split: sum.splits core_error.splits)
  qed
  show g: "\<exists>tenant. passes_gates env req w tenant"
    using ingest_inner_stopped(2) [OF _ i, of out'] o assms(2) by auto
  then obtain tenant where g: "passes_gates env req w tenant" by blast
  let ?i = "delivery_id_of env req"
  obtain r3 w3 where p: "process_claimed env tenant req ?i (claimed_world env req w) = (r3, w3)" by fastforce
  have w1: "w1 = w3" using ingest_inner_passed [OF g] i p o by (auto split: sum.splits)
  have d: "iw_dedup w3 = iw_dedup (claimed_world env req w)"
    using process_claimed_gates(1) [of env tenant req ?i "claimed_world env req w"] p by simp
  have "iw_dedup w' = iw_dedup w1" using ingest_effects(2) [of env req w] assms(1) i by simp
  then have e: "iw_dedup w' = snd (try_claim ?i (ie_gc_now env) (ie_claim_now env) (iw_dedup w))"
    using w1 d by (simp add: claimed_world_def on_metrics_def)
  have "fst (try_claim ?i (ie_gc_now env) (ie_claim_now env) (iw_dedup w))" using g by (simp add: passes_gates_def)
  then show "dm_get (dp_entries (iw_dedup w')) ?i = Some (ie_claim_now env)"
    "dp_ttl (iw_dedup w') = dp_ttl (iw_dedup w)"
    unfolding e by (auto simp: try_claim_def Let_def split: option.splits if_splits)
qed

text \<open>
  A delivery that was accepted or dead-lettered is dropped when it comes again within the time to
  live, with the same id and past the same gates: the answer is \<open>Duplicate\<close> and nothing but the gates and
  counters changes.
\<close>

lemma redelivery_is_dropped:
  assumes "ingest env req w = (Inr out, w')" "io_status out \<noteq> DuplicateDelivery"
    and "delivery_id_of env' req' = delivery_id_of env req"
    and "ie_claim_now env \<le> ie_gc_now env'" "ie_gc_now env' \<le> ie_claim_now env'"
    and "ie_claim_now env' < ie_claim_now env + dp_ttl (iw_dedup w)"
    and "\<not> slack_challenge env' req'" "registry_lookup (iw_tenants w') (ir_tenant_id req') = Some tenant"
    and "authenticate env' tenant req' = Inr ()" "rate_admits (ir_tenant_id req') (ie_rate_now env') (iw_rate w')"
  shows "(case fst (ingest env' req' w') of Inl e \<Rightarrow> False
      | Inr out' \<Rightarrow> io_status out' = DuplicateDelivery \<and> io_event_id out' = delivery_id_of env req) \<and>
    effects (snd (ingest env' req' w')) = effects w'"
proof -
  let ?i = "delivery_id_of env req"
  note kept = claim_kept(2,3) [OF assms(1,2)]
  have "\<not> dp_ttl (iw_dedup w) \<le> duration_since (ie_gc_now env') (ie_claim_now env)"
    using assms(4-6) by (simp add: duration_since_def)
  then have "dm_get (dp_entries (gc (ie_gc_now env') (iw_dedup w'))) ?i = Some (ie_claim_now env)"
    using gc_get [of "ie_gc_now env'" "iw_dedup w'" ?i] kept by auto
  then have taken: "\<not> fst (try_claim ?i (ie_gc_now env') (ie_claim_now env') (iw_dedup w'))"
    using assms(4-6) kept(2) by (simp add: try_claim_def Let_def duration_since_def)
  obtain lim rate where rl: "rate_check (ir_tenant_id req') (ie_rate_now env') (iw_rate w') = (lim, rate)" by fastforce
  then have lim: "lim = Inr ()" using assms(10) by (simp add: rate_admits_def)
  have "fst (ingest_inner env' req' w') = Inr (outcome ?i DuplicateDelivery)"
    using assms(3,7-9) taken rl lim by (simp add: ingest_inner_def Let_def case_prod_beta)
  then have r: "fst (ingest env' req' w') = Inr ((outcome ?i DuplicateDelivery)\<lparr>io_latency_ms := ie_latency_ms env'\<rparr>)"
    by (simp add: ingest_def Let_def case_prod_beta)
  have "\<nexists>tenant. passes_gates env' req' w' tenant" using taken assms(3) by (simp add: passes_gates_def)
  with ingest_inner_stopped(1) [of env' req' w'] have "effects (snd (ingest env' req' w')) = effects w'"
    unfolding ingest_effects(1) by (metis prod.collapse)
  with r show ?thesis by (simp add: outcome_def)
qed

section \<open>The embedded service\<close>

text \<open>With the in-memory bus and store no step after the gates can fail.\<close>

lemma embedded_steps:
  assumes "\<And>m b. fst (ie_publish env m b) = Inr ()" "ie_inline env = Some event_upsert"
  shows "fst (run_steps (deliver_steps env req ev) w) = Inr ()"
  using assms by (simp add: deliver_steps_def identity_step_def publish_step_def inline_step_def
      event_upsert_def Let_def case_prod_beta split: option.split)

lemma bus_publish_succeeds: "fst (bus_publish m b) = Inr ()"
  by (simp add: bus_publish_def Let_def)

lemma ingest_passed:
  assumes "passes_gates env req w tenant" "ie_publish env = bus_publish" "ie_inline env = Some event_upsert"
  defines "enriched \<equiv> fst (normalize_and_enrich env tenant req (delivery_id_of env req)
      (case fst (ie_put env (raw_payload_key (ir_tenant_id req) (provider_name (ir_provider req)) (ie_day env)
        (delivery_id_of env req)) (ir_body req) (iw_objects w)) of Inr uri \<Rightarrow> uri | Inl _ \<Rightarrow> []) (iw_acl w))"
  shows "fst (ingest env req w) = Inr (case enriched of
      Inr ev \<Rightarrow> \<lparr>io_event_id = ce_event_id ev, io_status = Accepted, io_latency_ms = ie_latency_ms env\<rparr>
    | Inl _ \<Rightarrow> \<lparr>io_event_id = delivery_id_of env req, io_status = DeadLettered, io_latency_ms = ie_latency_ms env\<rparr>)"
proof -
  let ?i = "delivery_id_of env req" and ?w = "claimed_world env req w"
  have w: "iw_objects ?w = iw_objects w" "iw_acl ?w = iw_acl w" by (simp_all add: claimed_world_def on_metrics_def)
  have "fst (process_claimed env tenant req ?i ?w) = Inr (case enriched of
      Inr ev \<Rightarrow> outcome (ce_event_id ev) Accepted | Inl _ \<Rightarrow> outcome ?i DeadLettered)"
    unfolding process_claimed_def Let_def case_prod_beta w
    using embedded_steps [OF _ assms(3)] assms(2) bus_publish_succeeds
    by (cases enriched) (auto simp: enriched_def case_prod_beta split: sum.split)
  then have "fst (ingest_inner env req w) = Inr (case enriched of
      Inr ev \<Rightarrow> outcome (ce_event_id ev) Accepted | Inl _ \<Rightarrow> outcome ?i DeadLettered)"
    using ingest_inner_passed [OF assms(1)] by (auto simp: case_prod_beta split: sum.splits)
  then show ?thesis
    by (cases enriched) (simp_all add: ingest_def Let_def case_prod_beta outcome_def)
qed

section \<open>A concrete service\<close>

definition demo_env :: "instant \<Rightarrow> (bus_message bus, object_store, event_store) ingest_env" where
  "demo_env now =
     \<lparr>ie_auth_skip = False, ie_hmac = (\<lambda>k m. ''00''), ie_norm = slack_env, ie_put = object_put,
      ie_publish = bus_publish, ie_inline = Some event_upsert, ie_day = ''2026/01/01'', ie_dlq_id = ''q'',
      ie_user_uuid = ''1'', ie_unix_now = 0, ie_rate_now = now, ie_gc_now = now, ie_claim_now = now,
      ie_latency_ms = 1\<rparr>"

definition demo_request :: ingest_request where
  "demo_request =
     \<lparr>ir_tenant_id = ''ten'', ir_provider = Slack, ir_body = ''{}'',
      ir_headers = no_headers\<lparr>wh_slack_signature := Some ''v0=00'', wh_slack_timestamp := Some ''x'',
        wh_delivery_id := Some ''d1''\<rparr>,
      ir_is_backfill = False\<rparr>"

definition demo_tenant :: tenant_config where
  "demo_tenant =
     \<lparr>tc_tenant_id = ''ten'', tc_github_webhook_secret = None, tc_gitlab_webhook_secret = None,
      tc_jira_webhook_secret = None, tc_linear_webhook_secret = None, tc_slack_signing_secret = Some ''s'',
      tc_teams_webhook_secret = None, tc_zendesk_webhook_secret = None, tc_default_group_ids = [''eng'']\<rparr>"

definition demo_world :: "(bus_message bus, object_store, event_store) ingest_world" where
  "demo_world =
     \<lparr>iw_tenants = with_tenant demo_tenant, iw_rate = with_window 10 (seconds 60), iw_dedup = new_dedup 60,
      iw_acl = new_acl_store, iw_metrics = new_metrics, iw_bus = new_bus,
      iw_objects = \<lparr>ob_bucket = ''b'', ob_objects = []\<rparr>, iw_store = new_event_store\<rparr>"

lemma demo_delivery_id: "delivery_id_of (demo_env t) demo_request = ''d1''"
  by (simp add: delivery_id_of_def demo_request_def no_headers_def)

lemma demo_unchallenged: "\<not> slack_challenge (demo_env t) demo_request"
  by (simp add: slack_challenge_def demo_env_def slack_env_def demo_request_def str_field_def)

lemma demo_authentic: "authenticate (demo_env t) demo_tenant demo_request = Inr ()"
  by (simp add: authenticate_def demo_env_def demo_request_def demo_tenant_def verify_webhook_def verify_slack_def
      no_headers_def slack_stale_def parse_i64_def parse_nat_def digit_def Let_def)

lemma demo_gates: "passes_gates (demo_env 0) demo_request demo_world demo_tenant"
proof -
  have "registry_lookup (iw_tenants demo_world) (ir_tenant_id demo_request) = Some demo_tenant"
    by (simp add: demo_world_def demo_request_def registry_lookup_def with_tenant_def demo_tenant_def)
  moreover have "rate_admits (ir_tenant_id demo_request) (ie_rate_now (demo_env 0)) (iw_rate demo_world)"
    by (simp add: demo_world_def rate_admits_def rate_check_def with_window_def expire_front_def Let_def word_le_nat_alt)
  moreover have "fst (try_claim ''d1'' (ie_gc_now (demo_env 0)) (ie_claim_now (demo_env 0)) (iw_dedup demo_world))"
    by (simp add: demo_world_def try_claim_def gc_def new_dedup_def Let_def)
  ultimately show ?thesis
    by (simp add: passes_gates_def demo_delivery_id demo_unchallenged demo_authentic)
qed

definition demo_event :: "string \<Rightarrow> string \<Rightarrow> canonical_event" where
  "demo_event uri gid = base_event slack_env
     \<lparr>nc_tenant_id = ''ten'', nc_provider = Slack, nc_delivery_id = Some ''d1'', nc_event_name = None,
      nc_raw_payload_s3_uri = uri, nc_default_group_ids = [''eng''], nc_actor_global_user_id = gid, nc_acl_version = 1,
      nc_allowed_group_ids = [''eng''], nc_is_private = False\<rparr>
     CatCommunication ''slack.message'' 5
     \<lparr>ai_global_user_id = gid, ai_provider_user_id = ''U'', ai_email = [], ai_display_name = []\<rparr>
     ''T/unknown/0'' ''T/unknown''
     (JObj [(''channel'', JStr ''unknown''), (''team_id'', JStr ''T''), (''thread_ts'', JStr []),
       (''text_preview'', JStr (preview ''hi'')), (''subtype'', JStr [])])"

lemma demo_normalized:
  "fst (normalize_and_enrich (demo_env t) demo_tenant demo_request ''d1'' uri new_acl_store) = Inr (demo_event uri ''gu_1'')"
  by (simp add: normalize_and_enrich_def demo_env_def demo_request_def demo_tenant_def slack_env_def no_headers_def
      ensure_user_def new_acl_store_def count_change_def current_acl_version_def detect_private_def normalize_def
      normalize_value_def normalize_slack_def demo_event_def plain_actor_def Let_def str_field_def nested_str_def
      nested_def slack_membership_types_def resource_id_def max_def)

lemma demo_accepted:
  "fst (ingest (demo_env 0) demo_request demo_world) = Inr \<lparr>io_event_id = ''d1'', io_status = Accepted, io_latency_ms = 1\<rparr>"
proof -
  have e: "ie_publish (demo_env 0) = bus_publish" "ie_inline (demo_env 0) = Some event_upsert"
    "ie_latency_ms (demo_env 0) = 1" "iw_acl demo_world = new_acl_store"
    by (simp_all add: demo_env_def demo_world_def)
  have "ce_event_id (demo_event uri gid) = ''d1''" for uri gid by (simp add: demo_event_def base_event_def)
  then show ?thesis
    unfolding ingest_passed [OF demo_gates e(1,2)] demo_delivery_id e(3,4) demo_normalized by simp
qed

lemma demo_ran:
  "ingest (demo_env 0) demo_request demo_world = (Inr \<lparr>io_event_id = ''d1'', io_status = Accepted, io_latency_ms = 1\<rparr>,
     snd (ingest (demo_env 0) demo_request demo_world))"
  using demo_accepted by (metis prod.collapse)

lemma accepted_is_published_witness:
  "\<exists>tenant ev. passes_gates (demo_env 0) demo_request demo_world tenant \<and>
    ce_event_id ev = ''d1'' \<and> ce_tenant_id ev = tc_tenant_id tenant \<and>
    newest_message (iw_bus (snd (ingest (demo_env 0) demo_request demo_world))) EventsRaw
      = Some (event_message EventsRaw ev) \<and>
    newest_message (iw_bus (snd (ingest (demo_env 0) demo_request demo_world))) EventsRealtime
      = Some (event_message EventsRealtime ev)"
proof -
  have "stream_topic demo_request = EventsRealtime" by (simp add: stream_topic_def demo_request_def)
  moreover have "ie_publish (demo_env 0) = bus_publish" "0 < bu_durable_cap (iw_bus demo_world)"
    by (simp_all add: demo_env_def demo_world_def new_bus_def default_durable_cap_def)
  ultimately show ?thesis
    using accepted_is_published [OF demo_ran] demo_delivery_id by auto
qed

definition broken_env :: "(bus_message bus, object_store, event_store) ingest_env" where
  "broken_env = (demo_env 0)\<lparr>ie_publish := (\<lambda>m b. (Inl (CBus ''down''), b))\<rparr>"

lemma other_bus [simp]:
  "authenticate (env\<lparr>ie_publish := p\<rparr>) tenant req = authenticate env tenant req"
  "slack_challenge (env\<lparr>ie_publish := p\<rparr>) req = slack_challenge env req"
  "delivery_id_of (env\<lparr>ie_publish := p\<rparr>) req = delivery_id_of env req"
  "normalize_and_enrich (env\<lparr>ie_publish := p\<rparr>) tenant req i uri acl = normalize_and_enrich env tenant req i uri acl"
  by (simp_all add: authenticate_def slack_challenge_def delivery_id_of_def normalize_and_enrich_def
      Let_def split: option.split sum.split)

lemma broken_gates: "passes_gates broken_env demo_request demo_world demo_tenant"
  using demo_gates by (simp add: passes_gates_def broken_env_def)

lemma broken_fails: "fst (ingest broken_env demo_request demo_world) = Inl (CBus ''down'')"
proof -
  let ?i = "delivery_id_of broken_env demo_request" and ?w = "claimed_world broken_env demo_request demo_world"
  have i: "?i = ''d1''" using demo_delivery_id [of 0] by (simp add: broken_env_def)
  have a: "iw_acl ?w = new_acl_store" by (simp add: claimed_world_def on_metrics_def demo_world_def)
  have n: "fst (normalize_and_enrich broken_env demo_tenant demo_request ''d1'' uri new_acl_store)
      = Inr (demo_event uri ''gu_1'')" for uri
    using demo_normalized [of 0 uri] by (simp add: broken_env_def)
  have "ce_category (demo_event uri gid) = CatCommunication" for uri gid by (simp add: demo_event_def base_event_def)
  then have r: "fst (run_steps (deliver_steps broken_env demo_request (demo_event uri gid)) w) = Inl (CBus ''down'')" for uri gid w
    by (simp add: deliver_steps_def identity_step_def publish_step_def broken_env_def)
  have "fst (process_claimed broken_env demo_tenant demo_request ''d1'' ?w) = Inl (CBus ''down'')"
    unfolding process_claimed_def Let_def case_prod_beta a n using r by (simp split: sum.split prod.split)
  then have "fst (ingest_inner broken_env demo_request demo_world) = Inl (CBus ''down'')"
    using ingest_inner_passed [OF broken_gates] i by (simp add: case_prod_beta split: sum.splits)
  then show ?thesis by (simp add: ingest_def Let_def case_prod_beta)
qed

theorem failed_request_can_be_retried_witness:
  "iw_dedup (snd (ingest broken_env demo_request demo_world)) = iw_dedup demo_world \<or>
    fst (try_claim (delivery_id_of broken_env demo_request) 0 0 (iw_dedup (snd (ingest broken_env demo_request demo_world))))"
  by (rule failed_request_can_be_retried [OF broken_fails]) simp

lemma redelivery_is_dropped_witness:
  "\<exists>out. fst (ingest (demo_env (seconds 30)) demo_request (snd (ingest (demo_env 0) demo_request demo_world))) = Inr out \<and>
     io_status out = DuplicateDelivery \<and> io_event_id out = ''d1'' \<and>
     effects (snd (ingest (demo_env (seconds 30)) demo_request (snd (ingest (demo_env 0) demo_request demo_world))))
       = effects (snd (ingest (demo_env 0) demo_request demo_world))"
proof -
  let ?w' = "snd (ingest (demo_env 0) demo_request demo_world)"
  let ?w3 = "snd (process_claimed (demo_env 0) demo_tenant demo_request ''d1'' (claimed_world (demo_env 0) demo_request demo_world))"
  have "iw_rate (snd (ingest_inner (demo_env 0) demo_request demo_world)) = iw_rate ?w3"
    "iw_tenants (snd (ingest_inner (demo_env 0) demo_request demo_world)) = iw_tenants ?w3"
    unfolding ingest_inner_passed [OF demo_gates] demo_delivery_id by (auto simp: case_prod_beta split: sum.split)
  then have w: "iw_rate ?w' = snd (rate_check ''ten'' 0 (with_window 10 (seconds 60)))" "iw_tenants ?w' = with_tenant demo_tenant"
    unfolding process_claimed_gates
    by (simp_all add: ingest_def Let_def case_prod_beta claimed_world_def on_metrics_def demo_world_def demo_request_def demo_env_def)
  have tenant: "registry_lookup (iw_tenants ?w') (ir_tenant_id demo_request) = Some demo_tenant"
    unfolding w by (simp add: registry_lookup_def with_tenant_def demo_tenant_def demo_request_def)
  have rate: "rate_admits (ir_tenant_id demo_request) (ie_rate_now (demo_env (seconds 30))) (iw_rate ?w')"
    unfolding w by (simp add: rate_admits_def rate_check_def with_window_def expire_front_def Let_def word_le_nat_alt
        duration_since_def demo_env_def demo_request_def seconds_def)
  have clock: "ie_claim_now (demo_env 0) \<le> ie_gc_now (demo_env (seconds 30))"
    "ie_gc_now (demo_env (seconds 30)) \<le> ie_claim_now (demo_env (seconds 30))"
    "ie_claim_now (demo_env (seconds 30)) < ie_claim_now (demo_env 0) + dp_ttl (iw_dedup demo_world)"
    by (simp_all add: demo_env_def demo_world_def new_dedup_def seconds_def)
  have "io_status \<lparr>io_event_id = ''d1'', io_status = Accepted, io_latency_ms = 1\<rparr> \<noteq> DuplicateDelivery" by simp
  from redelivery_is_dropped [OF demo_ran this _ clock demo_unchallenged tenant demo_authentic rate]
  show ?thesis unfolding demo_delivery_id by (auto split: sum.splits)
qed

section \<open>Answers of the embedded service\<close>

lemma stored_inline:
  assumes "run_steps (deliver_steps env req ev) w = (Inr u, w')" "ie_inline env = Some event_upsert"
  shows "get_raw (iw_store w') (ce_tenant_id ev) (ce_event_id ev) = Some ev"
proof -
  obtain w3 u3 where "inline_step env ev w3 = (Inr u3, w')"
    using assms(1) by (auto simp: deliver_steps_def split: prod.splits sum.splits)
  then have "iw_store w' = snd (event_upsert ev (iw_store w3))"
    using assms(2) by (auto simp: inline_step_def split: prod.splits)
  then show ?thesis
    by (simp add: get_raw_def event_upsert_def upsert_no_persist_def Let_def)
qed

text \<open>
  In the embedded service a request that passes the gates is always answered with success:
  \<open>Accepted\<close>, and then its event can be read back from the event store under the delivery id, or
  \<open>DeadLettered\<close> when its payload cannot be normalized; never with an error.
\<close>

lemma embedded_request_is_answered:
  fixes env :: "('b, 'o, event_store) ingest_env"
  assumes "passes_gates env req w tenant" "delivery_id_of env req \<noteq> []"
    and "\<And>m b. fst (ie_publish env m b) = Inr ()" "ie_inline env = Some event_upsert"
  shows "\<exists>out. fst (ingest env req w) = Inr out \<and> io_event_id out = delivery_id_of env req \<and>
    (case io_status out of
       Accepted \<Rightarrow> (\<exists>ev. get_raw (iw_store (snd (ingest env req w))) (tc_tenant_id tenant) (delivery_id_of env req) = Some ev)
     | DeadLettered \<Rightarrow> True
     | DuplicateDelivery \<Rightarrow> False)"
proof -
  let ?i = "delivery_id_of env req"
  obtain r w3 where p: "process_claimed env tenant req ?i (claimed_world env req w) = (r, w3)" by fastforce
  obtain put objects where o: "ie_put env (raw_payload_key (ir_tenant_id req) (provider_name (ir_provider req))
      (ie_day env) ?i) (ir_body req) (iw_objects (claimed_world env req w)) = (put, objects)" by fastforce
  let ?uri = "case put of Inr uri \<Rightarrow> uri | Inl _ \<Rightarrow> []"
  obtain event acl where n: "normalize_and_enrich env tenant req ?i ?uri (iw_acl (claimed_world env req w)) = (event, acl)"
    by fastforce
  note p' = p [unfolded process_claimed_def Let_def o prod.case n]
  have "\<exists>out. r = Inr out \<and> io_event_id out = ?i \<and> (case io_status out of
       Accepted \<Rightarrow> (\<exists>ev. get_raw (iw_store w3) (tc_tenant_id tenant) ?i = Some ev) | DeadLettered \<Rightarrow> True
     | DuplicateDelivery \<Rightarrow> False)"
  proof (cases event)
    case (Inl e)
    then show ?thesis using p' by (auto simp: outcome_def case_prod_beta)
  next
    case (Inr ev)
    let ?w1 = "(claimed_world env req w)\<lparr>iw_objects := objects, iw_acl := acl\<rparr>"
    have ok: "fst (run_steps (deliver_steps env req ev) ?w1) = Inr ()"
      by (rule embedded_steps [OF assms(3,4)])
    then obtain w4 where s: "run_steps (deliver_steps env req ev) ?w1 = (Inr (), w4)" by (metis prod.collapse)
    with p' Inr have "r = Inr (outcome (ce_event_id ev) Accepted)" "w3 = w4" by simp_all
    then show ?thesis
      using stored_inline [OF s assms(4)] enriched_event(1,2) [OF n [unfolded Inr] assms(2)] by (simp add: outcome_def)
  qed
  then obtain out where out: "r = Inr out" "io_event_id out = ?i" "case io_status out of
       Accepted \<Rightarrow> (\<exists>ev. get_raw (iw_store w3) (tc_tenant_id tenant) ?i = Some ev) | DeadLettered \<Rightarrow> True
     | DuplicateDelivery \<Rightarrow> False" by blast
  have i: "ingest_inner env req w = (Inr out, w3)" using ingest_inner_passed [OF assms(1)] p out(1) by simp
  have "iw_store (snd (ingest env req w)) = iw_store w3"
    using ingest_effects(1) [of env req w] i by (simp add: effects_def)
  moreover have "fst (ingest env req w) = Inr (out\<lparr>io_latency_ms := ie_latency_ms env\<rparr>)"
    using i by (simp add: ingest_def Let_def)
  ultimately show ?thesis using out by (simp split: ingest_status.splits)
qed

lemma embedded_request_is_answered_witness:
  "\<exists>ev. get_raw (iw_store (snd (ingest (demo_env 0) demo_request demo_world))) ''ten'' ''d1'' = Some ev"
proof -
  have "fst (ie_publish (demo_env 0) m b) = Inr ()" for m b by (simp add: demo_env_def bus_publish_succeeds)
  moreover have "ie_inline (demo_env 0) = Some event_upsert" by (simp add: demo_env_def)
  ultimately show ?thesis
    using embedded_request_is_answered [OF demo_gates] demo_delivery_id demo_accepted by (simp add: demo_tenant_def)
qed

end
