(* ===== verification/Telemetry_Consumer.thy ===== *)
theory Telemetry_Consumer
  imports Telemetry_Flow
begin

text \<open>
  The consumer loop (\<open>run_consumer_loop\<close> in \<open>telemetry-core/src/pipeline.rs\<close>): it
  writes the raw topic into the event store and the access topic into the access store, one message at a
  time, in whatever order the two topics have something to read. The second part follows a membership
  webhook of GitHub into the access store.
\<close>

section \<open>The loop\<close>

record consumer_world =
  cw_bus :: "bus_message bus"
  cw_store :: event_store
  cw_acl :: acl_store

definition acl_group :: "string \<Rightarrow> string" where
  "acl_group g = g @ ''-acl''"

definition start_consumer :: "string \<Rightarrow> consumer_world \<Rightarrow> consumer_world" where
  "start_consumer g w =
     w\<lparr>cw_bus := bus_subscribe EventsAcl (acl_group g) (bus_subscribe EventsRaw g (cw_bus w))\<rparr>"

text \<open>What is done with a received message; a failed write is logged and passed over.\<close>

definition handle_raw :: "core_error + bus_message \<Rightarrow> event_store \<Rightarrow> event_store" where
  "handle_raw r s =
     (case r of
        Inr m \<Rightarrow> (case bm_payload m of BusEvent e \<Rightarrow> snd (event_upsert e s) | _ \<Rightarrow> s)
      | Inl _ \<Rightarrow> s)"

definition handle_acl :: "core_error + bus_message \<Rightarrow> acl_store \<Rightarrow> acl_store" where
  "handle_acl r s =
     (case r of
        Inr m \<Rightarrow> (case bm_payload m of BusAcl rvk \<Rightarrow> snd (apply_revocation rvk s) | _ \<Rightarrow> s)
      | Inl _ \<Rightarrow> s)"

text \<open>The two receiving branches; without a message the branch keeps waiting and changes nothing.\<close>

type_synonym wake = "bus_message live \<times> (bus_message topic_data \<Rightarrow> bus_message topic_data)"

definition consume_raw :: "string \<Rightarrow> wake list \<Rightarrow> consumer_world \<Rightarrow> consumer_world" where
  "consume_raw g wakes w =
     (let (r, s) = recv g wakes (topic_state EventsRaw (cw_bus w));
          w1 = w\<lparr>cw_bus := set_topic EventsRaw s (cw_bus w)\<rparr>
      in case r of Some msg \<Rightarrow> w1\<lparr>cw_store := handle_raw msg (cw_store w1)\<rparr> | None \<Rightarrow> w1)"

definition consume_acl :: "string \<Rightarrow> wake list \<Rightarrow> consumer_world \<Rightarrow> consumer_world" where
  "consume_acl g wakes w =
     (let (r, s) = recv (acl_group g) wakes (topic_state EventsAcl (cw_bus w));
          w1 = w\<lparr>cw_bus := set_topic EventsAcl s (cw_bus w)\<rparr>
      in case r of Some msg \<Rightarrow> w1\<lparr>cw_acl := handle_acl msg (cw_acl w1)\<rparr> | None \<Rightarrow> w1)"

text \<open>The loop beside the other users of the bus: each round takes one branch of the select.\<close>

datatype consumer_op = Others bus_op | TakeRaw | TakeAcl

fun consumer_step :: "string \<Rightarrow> consumer_op \<Rightarrow> consumer_world \<Rightarrow> consumer_world" where
  "consumer_step g (Others op) w = w\<lparr>cw_bus := bus_step op (cw_bus w)\<rparr>"
| "consumer_step g TakeRaw w = consume_raw g [] w"
| "consumer_step g TakeAcl w = consume_acl g [] w"

definition run_consumer_loop :: "string \<Rightarrow> consumer_op list \<Rightarrow> consumer_world \<Rightarrow> consumer_world" where
  "run_consumer_loop g ops w = fold (consumer_step g) ops (start_consumer g w)"

section \<open>What the loop has done\<close>

fun as_bus_op :: "string \<Rightarrow> consumer_op \<Rightarrow> bus_op" where
  "as_bus_op g (Others op) = op"
| "as_bus_op g TakeRaw = BTryRecv EventsRaw g None"
| "as_bus_op g TakeAcl = BTryRecv EventsAcl (acl_group g) None"

text \<open>No other member of the two groups: what it received would be lost to this loop.\<close>

fun receives_as :: "string \<Rightarrow> bus_op \<Rightarrow> bool" where
  "receives_as g (BTryRecv t g' live) = (g' = g)"
| "receives_as g _ = False"

definition sole_member :: "string \<Rightarrow> consumer_op list \<Rightarrow> bool" where
  "sole_member g ops = (\<forall>op \<in> set ops. case op of Others b \<Rightarrow> \<not> receives_as g b \<and> \<not> receives_as (acl_group g) b | _ \<Rightarrow> True)"

lemma recv_now: "recv g [] s = (case next_from_log g s of (Some m, s1) \<Rightarrow> (Some (Inr m), s1) | (None, s1) \<Rightarrow> (None, s1))"
  by (subst recv.simps) (auto split: prod.split option.split)

lemma consumer_step_bus: "cw_bus (consumer_step g op w) = bus_step (as_bus_op g op) (cw_bus w)"
  by (cases op) (auto simp: consume_raw_def consume_acl_def recv_now try_recv_quiet Let_def case_prod_beta
      split: option.split)

lemma consumer_run_bus: "cw_bus (fold (consumer_step g) ops w) = fold bus_step (map (as_bus_op g) ops) (cw_bus w)"
  by (induction ops arbitrary: w) (simp_all add: consumer_step_bus)

lemma acl_group_differs [simp]: "acl_group g \<noteq> g" "g \<noteq> acl_group g"
  by (simp_all add: acl_group_def)

lemma consumer_step_store:
  assumes "sole_member g [op]"
  shows "cw_store (consumer_step g op w) =
    fold (\<lambda>m. handle_raw (Inr m)) (bus_delivered EventsRaw g [as_bus_op g op] (cw_bus w)) (cw_store w)"
    "cw_acl (consumer_step g op w) =
    fold (\<lambda>m. handle_acl (Inr m)) (bus_delivered EventsAcl (acl_group g) [as_bus_op g op] (cw_bus w)) (cw_acl w)"
proof -
  show "cw_store (consumer_step g op w) =
    fold (\<lambda>m. handle_raw (Inr m)) (bus_delivered EventsRaw g [as_bus_op g op] (cw_bus w)) (cw_store w)"
  proof (cases op)
    case (Others b)
    then show ?thesis using assms by (cases b) (auto simp: sole_member_def)
  qed (auto simp: consume_raw_def consume_acl_def recv_now try_recv_quiet Let_def case_prod_beta split: option.split)
  show "cw_acl (consumer_step g op w) =
    fold (\<lambda>m. handle_acl (Inr m)) (bus_delivered EventsAcl (acl_group g) [as_bus_op g op] (cw_bus w)) (cw_acl w)"
  proof (cases op)
    case (Others b)
    then show ?thesis using assms by (cases b) (auto simp: sole_member_def)
  qed (auto simp: consume_raw_def consume_acl_def recv_now try_recv_quiet Let_def case_prod_beta split: option.split)
qed

lemma consumer_run_store:
  assumes "sole_member g ops"
  shows "cw_store (fold (consumer_step g) ops w) =
      fold (\<lambda>m. handle_raw (Inr m)) (bus_delivered EventsRaw g (map (as_bus_op g) ops) (cw_bus w)) (cw_store w) \<and>
    cw_acl (fold (consumer_step g) ops w) =
      fold (\<lambda>m. handle_acl (Inr m)) (bus_delivered EventsAcl (acl_group g) (map (as_bus_op g) ops) (cw_bus w)) (cw_acl w)"
  using assms
proof (induction ops arbitrary: w)
  case (Cons op ops)
  have "sole_member g [op]" and rest: "sole_member g ops" using Cons.prems by (auto simp: sole_member_def)
  note one = consumer_step_store [OF this(1), of w]
  show ?case using Cons.IH [OF rest, of "consumer_step g op w"] one by (simp add: consumer_step_bus)
qed simp

text \<open>A group that receives often enough after the last publish has received everything.\<close>

lemma all_received:
  fixes ops :: "'m topic_op list"
  assumes "length (published ops) \<le> cap" "length (published ops) \<le> n"
  shows "delivered cap g (ops @ replicate n (Receive g)) empty_topic = published ops"
proof -
  let ?s = "topic_run cap ops empty_topic" and ?ops = "ops @ replicate n (Receive g)"
  have "published (replicate n (Receive g) :: 'm topic_op list) = []" by (induction n) simp_all
  then have r: "received_inv cap (published ops) (cursor_of g (topic_run cap ?ops empty_topic)) (delivered cap g ?ops empty_topic)"
    using received_run [of cap ?ops g] by simp
  have "length (published ops) - next_pos cap (published ops) (cursor_of g ?s) \<le> n" using assms(2) by simp
  from receives_exhaust [OF log_inv_run this] assms(1)
  have "length (published ops) \<le> cursor_of g (topic_run cap ?ops empty_topic)"
    by (simp add: topic_run_append next_pos_def)
  with r assms(1) show ?thesis by (simp add: received_inv_def)
qed

lemma on_topic_append [simp]: "on_topic t (as @ bs) = on_topic t as @ on_topic t bs"
  by (induction t as rule: on_topic.induct) simp_all

lemma on_topic_takes:
  assumes "set rest \<subseteq> {TakeRaw, TakeAcl}"
  shows "on_topic EventsRaw (map (as_bus_op g) rest) = replicate (count_list rest TakeRaw) (Receive g)"
    "on_topic EventsAcl (map (as_bus_op g) rest) = replicate (count_list rest TakeAcl) (Receive (acl_group g))"
  using assms by (induction rest) (auto simp: replicate_append_same)

lemma new_bus_topics [simp]: "topic_state t new_bus = empty_topic" "bu_durable_cap new_bus = 100000"
  by (simp_all add: topic_state_def new_bus_def default_durable_cap_def)

lemma bus_delivered_append: "bus_delivered t g (as @ bs) b = bus_delivered t g as b @ bus_delivered t g bs (fold bus_step as b)"
  by (induction as arbitrary: b) simp_all

lemma nothing_delivered: "\<forall>op \<in> set ops. \<not> receives_as g op \<Longrightarrow> bus_delivered t g ops b = []"
  by (induction ops arbitrary: b) (auto split: bus_op.split)

definition subscriptions :: "string \<Rightarrow> bus_op list" where
  "subscriptions g = [BSubscribe EventsRaw g, BSubscribe EventsAcl (acl_group g)]"

lemma start_consumer_bus: "cw_bus (start_consumer g w) = fold bus_step (subscriptions g) (cw_bus w)"
  by (simp add: start_consumer_def subscriptions_def)

lemma start_consumer_stores [simp]: "cw_store (start_consumer g w) = cw_store w" "cw_acl (start_consumer g w) = cw_acl w"
  by (simp_all add: start_consumer_def)

lemma delivered_to_loop:
  fixes g :: string and pre :: "bus_op list" and ops rest :: "consumer_op list"
  assumes "sole_member g (map Others pre)" "set rest \<subseteq> {TakeRaw, TakeAcl}"
  defines "b \<equiv> fold bus_step (pre @ subscriptions g) new_bus" and "h \<equiv> pre @ map (as_bus_op g) ops"
  shows "length (bus_published EventsRaw h) \<le> min 100000 (count_list rest TakeRaw) \<Longrightarrow>
      bus_delivered EventsRaw g (map (as_bus_op g) (ops @ rest)) b = bus_published EventsRaw h"
    "length (bus_published EventsAcl h) \<le> min 100000 (count_list rest TakeAcl) \<Longrightarrow>
      bus_delivered EventsAcl (acl_group g) (map (as_bus_op g) (ops @ rest)) b = bus_published EventsAcl h"
proof -
  let ?h = "pre @ subscriptions g @ map (as_bus_op g) ops"
  have none: "bus_delivered t g' (pre @ subscriptions g) new_bus = []" if "g' \<in> {g, acl_group g}" for t g'
    using assms(1) that by (intro nothing_delivered) (auto simp: sole_member_def subscriptions_def)
  have same: "published (on_topic t ?h) = bus_published t h" for t
    by (simp add: published_on_topic [symmetric] h_def subscriptions_def)
  have "bus_delivered t g' (map (as_bus_op g) (ops @ rest)) b =
      delivered 100000 g' (on_topic t ?h @ on_topic t (map (as_bus_op g) rest)) empty_topic"
    if "g' \<in> {g, acl_group g}" for t g'
    using none [OF that, of t] bus_delivered_append [of t g' "pre @ subscriptions g" "map (as_bus_op g) (ops @ rest)" new_bus]
      bus_delivered_topic [of t g' "?h @ map (as_bus_op g) rest" new_bus] by (simp add: b_def)
  note d = this
  { assume len: "length (bus_published EventsRaw h) \<le> min 100000 (count_list rest TakeRaw)"
    have "bus_delivered EventsRaw g (map (as_bus_op g) (ops @ rest)) b
        = delivered 100000 g (on_topic EventsRaw ?h @ replicate (count_list rest TakeRaw) (Receive g)) empty_topic"
      using d [of g EventsRaw] on_topic_takes(1) [OF assms(2), of g] by simp
    moreover have "... = published (on_topic EventsRaw ?h)"
      by (rule all_received) (use len same in simp_all)
    ultimately show "bus_delivered EventsRaw g (map (as_bus_op g) (ops @ rest)) b = bus_published EventsRaw h" using same by simp }
  { assume len: "length (bus_published EventsAcl h) \<le> min 100000 (count_list rest TakeAcl)"
    have "bus_delivered EventsAcl (acl_group g) (map (as_bus_op g) (ops @ rest)) b = delivered 100000 (acl_group g)
        (on_topic EventsAcl ?h @ replicate (count_list rest TakeAcl) (Receive (acl_group g))) empty_topic"
      using d [of "acl_group g" EventsAcl] on_topic_takes(2) [OF assms(2), of g] by simp
    moreover have "... = published (on_topic EventsAcl ?h)"
      by (rule all_received) (use len same in simp_all)
    ultimately show "bus_delivered EventsAcl (acl_group g) (map (as_bus_op g) (ops @ rest)) b = bus_published EventsAcl h" using same by simp }
qed

definition events_in :: "bus_message list \<Rightarrow> canonical_event list" where
  "events_in ms = List.map_filter (\<lambda>m. case bm_payload m of BusEvent e \<Rightarrow> Some e | _ \<Rightarrow> None) ms"

definition revocations_in :: "bus_message list \<Rightarrow> acl_revocation list" where
  "revocations_in ms = List.map_filter (\<lambda>m. case bm_payload m of BusAcl r \<Rightarrow> Some r | _ \<Rightarrow> None) ms"

lemma events_in_simps [simp]:
  "events_in [] = []"
  "events_in (ms @ [m]) = events_in ms @ (case bm_payload m of BusEvent e \<Rightarrow> [e] | _ \<Rightarrow> [])"
  by (simp_all add: events_in_def List.map_filter_def split: bus_payload.split)

lemma revocations_in_simps [simp]:
  "revocations_in [] = []"
  "revocations_in (m # ms) = (case bm_payload m of BusAcl r \<Rightarrow> [r] | _ \<Rightarrow> []) @ revocations_in ms"
  by (simp_all add: revocations_in_def List.map_filter_def split: bus_payload.split)

lemma upsert_by_id_only:
  "es_by_id s1 = es_by_id s2 \<Longrightarrow> es_by_id (upsert_no_persist e s1) = es_by_id (upsert_no_persist e s2)"
  by (simp add: upsert_no_persist_def tenant_events_def Let_def)

lemma fold_handle_raw: "es_by_id (fold (\<lambda>m. handle_raw (Inr m)) ms s) = es_by_id (fold upsert_no_persist (events_in ms) s)"
proof (induction ms rule: rev_induct)
  case (snoc m ms)
  show ?case
  proof (cases "bm_payload m")
    case (BusEvent e)
    then show ?thesis using upsert_by_id_only [OF snoc] by (simp add: handle_raw_def event_upsert_state(1))
  qed (use snoc in \<open>simp_all add: handle_raw_def\<close>)
qed simp

lemma fold_handle_acl: "fold (\<lambda>m. handle_acl (Inr m)) ms a = fold (\<lambda>r s. snd (apply_revocation r s)) (revocations_in ms) a"
proof (induction ms arbitrary: a)
  case (Cons m ms)
  then show ?case by (cases "bm_payload m") (simp_all add: handle_acl_def)
qed simp

lemma get_raw_current: "get_raw (store_of es) t i = current es t i"
  using tenant_events_current [of es t i]
  by (cases "dm_get (es_by_id (store_of es)) t") (simp_all add: get_raw_def tenant_events_def)

text \<open>A loop about to start on a bus with a history, and what was published in the whole history.\<close>

definition before_start :: "bus_op list \<Rightarrow> acl_store \<Rightarrow> consumer_world" where
  "before_start pre acl = \<lparr>cw_bus = fold bus_step pre new_bus, cw_store = new_event_store, cw_acl = acl\<rparr>"

definition sent :: "bus_topic \<Rightarrow> string \<Rightarrow> bus_op list \<Rightarrow> consumer_op list \<Rightarrow> bus_message list" where
  "sent t g pre ops = bus_published t (pre @ map (as_bus_op g) ops)"


definition raw_message :: "canonical_event \<Rightarrow> bus_message" where
  "raw_message e = event_message EventsRaw e"


section \<open>A membership webhook of GitHub\<close>

lemma github_removal_revokes:
  assumes "nc_event_name ctx = Some e" "e = ''membership'' \<or> e = ''member''" "sfield v ''action'' = ''removed''"
    and "json_get v ''sender'' = Some sender" "normalize_github nenv v ctx = Inr ev"
  shows "ce_category ev = CatIdentity \<and> extract_acl_revocation now ev = Some
      \<lparr>ar_event_id = ce_event_id ev, ar_tenant_id = nc_tenant_id ctx, ar_global_user_id = nc_actor_global_user_id ctx,
       ar_provider_user_id = unwrap_or (Option.bind (or_else (json_get v ''member'') (nested v [''membership'', ''user'']))
         (\<lambda>m. str_field m ''login'')) [],
       ar_provider = ce_provider ev,
       ar_group_id = unwrap_or (or_else (nested_str v [''team'', ''slug'']) (nested_str v [''team'', ''name''])) [],
       ar_change_type = ''removed_from_group'', ar_acl_version = al_acl_version (ce_acl ev), ar_timestamp = now\<rparr>"
proof -
  have ev: "ev = normalize_github_identity nenv v ctx e ''removed''"
    using assms by (auto simp: normalize_github_def Let_def)
  have "revocation_change ''identity.membership.removed'' = Some ''removed_from_group''"
    "revocation_change ''identity.member.removed'' = Some ''removed_from_group''" by code_simp+
  then have "revocation_change (''identity.'' @ e @ ''.'' @ ''removed'') = Some ''removed_from_group''"
    using assms(2) by (elim disjE) simp_all
  then show ?thesis
    using assms(4) by (simp add: ev normalize_github_identity_def Let_def base_event_def extract_acl_revocation_def
        nonempty_or_def actor_or_none_def actor_from_user_def)
qed

text \<open>
  A GitHub webhook that reports the removal of a member from a team takes the team away from the user
  who \<^emph>\<open>sent\<close> it, the administrator who removed the member, and from nobody else: the removed member
  keeps the group.
\<close>

lemma github_removal_hits_the_sender:
  assumes "nc_event_name ctx = Some e" "e = ''membership'' \<or> e = ''member''" "sfield v ''action'' = ''removed''"
    and "json_get v ''sender'' = Some sender" "normalize_github nenv v ctx = Inr ev"
  shows "get_user_groups (iw_acl (snd (identity_step env ev w))) t u =
    (if t = nc_tenant_id ctx \<and> u = nc_actor_global_user_id ctx
     then removeAll (unwrap_or (or_else (nested_str v [''team'', ''slug'']) (nested_str v [''team'', ''name''])) [])
       (get_user_groups (iw_acl w) t u)
     else get_user_groups (iw_acl w) t u)"
proof -
  have unknown: "get_user_groups s t' u' = []" if "dm_get (as_users s) (t', u') = None" for s t' u'
    using that by (simp add: get_user_groups_def)
  show ?thesis
    using github_removal_revokes [OF assms, of "nv_now (ie_norm env)"] unknown [of "iw_acl w" t u]
    by (auto simp: identity_step_def publish_step_def case_prod_beta apply_revocation_def remove_user_from_group_def
        get_user_groups_change)
qed

definition removal_payload :: json where
  "removal_payload = JObj
     [(''action'', JStr ''removed''), (''sender'', JObj [(''login'', JStr ''boss'')]),
      (''member'', JObj [(''login'', JStr ''bob'')]), (''team'', JObj [(''slug'', JStr ''eng'')])]"

definition removal_context :: normalize_context where
  "removal_context =
     \<lparr>nc_tenant_id = ''ten'', nc_provider = Github, nc_delivery_id = Some ''d2'', nc_event_name = Some ''membership'',
      nc_raw_payload_s3_uri = [], nc_default_group_ids = [], nc_actor_global_user_id = ''gu_1'', nc_acl_version = 1,
      nc_allowed_group_ids = [], nc_is_private = False\<rparr>"

definition team_of_two :: acl_store where
  "team_of_two = snd (seed_membership ''2'' ''ten'' ''bob'' [] [] [''eng'']
     (snd (seed_membership ''1'' ''ten'' ''boss'' [] [] [''eng''] new_acl_store)))"

lemma github_removal_hits_the_sender_witness:
  "get_user_groups (iw_acl (snd (identity_step (demo_env 0)
      (normalize_github_identity slack_env removal_payload removal_context ''membership'' ''removed'')
      (demo_world\<lparr>iw_acl := team_of_two\<rparr>)))) ''ten'' ''gu_1'' = [] \<and>
   get_user_groups (iw_acl (snd (identity_step (demo_env 0)
      (normalize_github_identity slack_env removal_payload removal_context ''membership'' ''removed'')
      (demo_world\<lparr>iw_acl := team_of_two\<rparr>)))) ''ten'' ''gu_2'' = [''eng'']"
proof -
  have n: "normalize_github slack_env removal_payload removal_context
      = Inr (normalize_github_identity slack_env removal_payload removal_context ''membership'' ''removed'')"
    by (simp add: normalize_github_def Let_def removal_context_def removal_payload_def str_field_def)
  have e: "nc_event_name removal_context = Some ''membership''" "nc_tenant_id removal_context = ''ten''"
    "nc_actor_global_user_id removal_context = ''gu_1''" by (simp_all add: removal_context_def)
  have p: "sfield removal_payload ''action'' = ''removed''"
    "json_get removal_payload ''sender'' = Some (JObj [(''login'', JStr ''boss'')])"
    "nested_str removal_payload [''team'', ''slug''] = Some ''eng''"
    by (simp_all add: removal_payload_def str_field_def nested_str_def nested_def)
  have two: "get_user_groups team_of_two ''ten'' ''gu_1'' = [''eng'']" "get_user_groups team_of_two ''ten'' ''gu_2'' = [''eng'']"
    by (simp_all add: team_of_two_def seed_membership_def ensure_user_def new_acl_store_def count_change_def
        set_user_groups_def change_groups_def bump_version_def send_invalidation_def get_user_groups_def Let_def)
  have "''membership'' = ''membership'' \<or> ''membership'' = ''member''" by simp
  note hit = github_removal_hits_the_sender [OF e(1) this p(1,2) n, where env = "demo_env 0"
      and w = "demo_world\<lparr>iw_acl := team_of_two\<rparr>" and t = "''ten''"]
  show ?thesis using hit [of "''gu_1''"] hit [of "''gu_2''"] two p(3) e(2,3) by simp
qed

end
