(* ===== verification/Commit_Text.thy ===== *)
theory Commit_Text
  imports Text_Util
begin

text \<open>
  What the commitment tracker reads in chat text (\<open>twin-api/src/commitments.rs\<close>): the phrases of
  promises and of finished work, summaries, Slack mentions, the resolution of a name against the
  directory of people, and the labels shown to people. A confidence is kept in hundredths; the
  Unicode tables for letters outside ASCII are parameters. The lemmas show that the label of an
  owner is never a machine identifier, and that the mention scanner finds exactly the mentions.
\<close>

section \<open>Phrases\<close>

definition apostrophe_ill :: string where
  "apostrophe_ill = ''i'' @ [CHR 0xE2, CHR 0x80, CHR 0x99] @ ''ll''"

definition light_check :: string where "light_check = [CHR 0xE2, CHR 0x9C, CHR 0x93]"

definition done_patterns :: "string list" where
  "done_patterns =
     [''done '' @ em_dash, ''done-'', ''done.'', ''it''@[CHR 39]@''s done'', ''its done'', ''all done'',
      ''just shipped'', ''shipped it'', ''i shipped'', ''i sent'', ''sent it'', ''sent the'', ''merged'',
      ''pr is merged'', ''closed the'', ''resolved'', ''finished the'', ''completed the'', ''already done'',
      ''took care of'', ''handled it'', light_check, check_mark, ''marked done'']"

definition is_resolution_phrase :: "string \<Rightarrow> bool" where
  "is_resolution_phrase hay =
     (if contains hay (''i'' @ [CHR 39] @ ''ll'') \<or> contains hay ''i will'' \<or> contains hay apostrophe_ill
      then False else list_ex (contains hay) done_patterns)"

definition long_words :: "string \<Rightarrow> string list" where
  "long_words s = take 6 (filter (\<lambda>w. 4 < length w) (split_whitespace s))"

definition message_resolves_commitment :: "string \<Rightarrow> string \<Rightarrow> bool" where
  "message_resolves_commitment message text =
     (let hay = to_ascii_lowercase message in
      if is_resolution_phrase hay
      then (let ws = long_words text;
                hits = length (filter (\<lambda>w. contains hay (to_ascii_lowercase w)) ws)
            in if ws = [] then True
               else 1 \<le> hits \<or> contains hay ''done'' \<or> contains hay ''shipped'' \<or> contains hay ''sent'')
      else False)"

definition promise_patterns :: "(string \<times> nat) list" where
  "promise_patterns =
     (let i_ll = ''i'' @ [CHR 39] @ ''ll'' in
     [(i_ll @ '' '', 88), (''i will '', 90), (apostrophe_ill @ '' '', 88), (''i can send'', 85), (''i can get'', 80),
      (i_ll @ '' send'', 90), (''i will send'', 92), (i_ll @ '' share'', 88), (i_ll @ '' update'', 85),
      (i_ll @ '' fix'', 88), (i_ll @ '' push'', 85), (i_ll @ '' merge'', 85), (i_ll @ '' review'', 85),
      (i_ll @ '' follow up'', 88), (i_ll @ '' get back'', 88), (''let me send'', 80), (''let me get'', 78),
      (''going to ship'', 82), (''will ship'', 82), (''will have it'', 85), (''by eod'', 75),
      (''by end of day'', 78), (''by tomorrow'', 78), (''by friday'', 78), (''by monday'', 78),
      (''tomorrow '' @ i_ll, 88), (''i owe you'', 90), (''i promise'', 90), (''you have my word'', 85),
      (''consider it done'', 70), (''on it '' @ em_dash @ '' will'', 80), (''on it, will'', 80)])"

section \<open>Summaries\<close>

text \<open>The Unicode tables: letters and digits outside ASCII, and the upper case of such a letter.\<close>

record unicode_tables =
  uni_alnum :: "string \<Rightarrow> bool"
  uni_upper :: "string \<Rightarrow> string"

definition upper_first :: "unicode_tables \<Rightarrow> string \<Rightarrow> string" where
  "upper_first u s =
     (case utf8_chars s of
        [] \<Rightarrow> s
      | f # r \<Rightarrow> (case f of [c] \<Rightarrow> [ascii_upper_char c] | _ \<Rightarrow> uni_upper u f) @ concat r)"

definition preview_max :: nat where "preview_max = 280"

definition strip_leading_mention :: "string \<Rightarrow> string" where
  "strip_leading_mention s =
     (if starts_with s ''<''
      then (case find_sub ''>'' s of Some i \<Rightarrow> trim (drop (i + 1) s) | None \<Rightarrow> s)
      else s)"

definition plain_commitment_summary :: "unicode_tables \<Rightarrow> string \<Rightarrow> string" where
  "plain_commitment_summary u raw =
     (let s = strip_leading_mention (trim raw);
          s = (if preview_max < length (utf8_chars s) then take_chars preview_max s @ ellipsis else s)
      in upper_first u s)"

definition extract_commitment :: "unicode_tables \<Rightarrow> string \<Rightarrow> (string \<times> nat \<times> string) option" where
  "extract_commitment u text =
     (let t = trim text in
      if length t < 8 then None
      else (let hay = to_ascii_lowercase t in
            if is_resolution_phrase hay then None
            else (case find (\<lambda>(p, c). contains hay p) promise_patterns of
                    Some (p, c) \<Rightarrow> Some (plain_commitment_summary u t, c, ''phrase:'' @ p)
                  | None \<Rightarrow> None)))"

section \<open>Names in the text\<close>

definition word_char :: "unicode_tables \<Rightarrow> string \<Rightarrow> bool" where
  "word_char u c \<longleftrightarrow> is_alnum (uni_alnum u) c \<or> c = ''_'' \<or> c = ''-''"

definition trim_word :: "unicode_tables \<Rightarrow> string \<Rightarrow> string" where
  "trim_word u s =
     concat (rev (dropWhile (\<lambda>c. \<not> word_char u c)
       (rev (dropWhile (\<lambda>c. \<not> word_char u c) (utf8_chars s)))))"

fun named_after :: "unicode_tables \<Rightarrow> string \<Rightarrow> string \<Rightarrow> string list \<Rightarrow> string option" where
  "named_after u text hay [] = None"
| "named_after u text hay (p # ps) =
     (case find_sub p hay of
        Some i \<Rightarrow>
          (let rest = trim (drop (i + length p) text);
               word = trim_word u (takeWhile (\<lambda>c. \<not> (is_ascii_ws c \<or> c = CHR '','' \<or> c = CHR ''.'')) rest)
           in if 2 \<le> length word \<and> length word < 40 then Some word else named_after u text hay ps)
      | None \<Rightarrow> named_after u text hay ps)"

definition first_mention :: "string \<Rightarrow> string option" where
  "first_mention text =
     (case find_sub ''<@'' text of
        None \<Rightarrow> None
      | Some start \<Rightarrow>
          (case find_sub ''>'' (drop start text) of
             None \<Rightarrow> None
           | Some e \<Rightarrow>
               (let i = take (e - 2) (drop (start + 2) text) in if i \<noteq> [] then Some i else None)))"

definition guess_promisee :: "unicode_tables \<Rightarrow> string \<Rightarrow> string option" where
  "guess_promisee u text =
     or_else (first_mention text)
       (named_after u text (to_ascii_lowercase text) ['' for '', '' to '', '' with ''])"

text \<open>The scan for Slack mentions; each round consumes the text up to the next closing bracket.\<close>

lemma find_sub_bound: "find_sub p s = Some i \<Longrightarrow> i + length p \<le> length s"
proof (induction s arbitrary: i)
  case (Cons c cs)
  then show ?case by (cases i) (auto split: if_splits dest: prefix_length_le)
qed (auto split: if_splits)

function mention_scan :: "string \<Rightarrow> string list \<Rightarrow> string list" where
  "mention_scan rest out =
     (case find_sub ''<@'' rest of
        None \<Rightarrow> out
      | Some start \<Rightarrow>
          (let after = drop (start + 2) rest in
           case find_sub ''>'' after of
             None \<Rightarrow> out
           | Some e \<Rightarrow>
               (let uid = trim (hd (split_on CHR ''|'' (take e after)))
                in mention_scan (drop (e + 1) after)
                     (if uid \<noteq> [] \<and> \<not> list_ex (\<lambda>x. x = uid) out then out @ [uid] else out))))"
  by pat_completeness auto
termination
  by (relation "measure (\<lambda>(rest, out). length rest)") (auto dest!: find_sub_bound)

declare mention_scan.simps [simp del]

definition extract_slack_mention_ids :: "string \<Rightarrow> string list" where
  "extract_slack_mention_ids text = mention_scan text []"

section \<open>People\<close>

record person_dir_entry =
  pd_subject_id :: string
  pd_display_name :: string
  pd_slack_user_id :: "string option"
  pd_aliases :: "string list"

definition slack_id_is :: "string \<Rightarrow> person_dir_entry \<Rightarrow> bool" where
  "slack_id_is r p = unwrap_or (map_option (\<lambda>s. eq_ignore_ascii_case s r) (pd_slack_user_id p)) False"

definition named_exactly :: "string \<Rightarrow> person_dir_entry \<Rightarrow> bool" where
  "named_exactly r p \<longleftrightarrow> eq_ignore_ascii_case (pd_subject_id p) r \<or> eq_ignore_ascii_case (pd_display_name p) r
     \<or> list_ex (\<lambda>a. eq_ignore_ascii_case a r) (pd_aliases p)"

definition named_partly :: "string \<Rightarrow> person_dir_entry \<Rightarrow> bool" where
  "named_partly rl p \<longleftrightarrow> contains (to_ascii_lowercase (pd_display_name p)) rl
     \<or> list_ex (\<lambda>a. contains (to_ascii_lowercase a) rl) (pd_aliases p)"

definition resolve_person_ref :: "string \<Rightarrow> person_dir_entry list \<Rightarrow> (string \<times> string) option" where
  "resolve_person_ref raw dir =
     (let r = dropWhile (\<lambda>c. c = CHR ''@'') (trim raw); rl = to_ascii_lowercase r in
      if r = [] then None
      else map_option (\<lambda>p. (pd_subject_id p, pd_display_name p))
             (or_else (find (slack_id_is r) dir)
               (or_else (find (named_exactly r) dir)
                 (if 3 \<le> length rl then find (named_partly rl) dir else None))))"

definition looks_machine_id :: "string \<Rightarrow> bool" where
  "looks_machine_id s =
     (let t = trim s in
      list_ex (starts_with t) [''person:'', ''twin:'', ''intent:'', ''gu_'', ''dft_'', ''led_'', ''cmt:'']
      \<or> contains t '':gu_'')"

text \<open>The last resort: an entry whose subject or alias occurs in the raw text.\<close>

definition shown_name :: "person_dir_entry \<Rightarrow> bool" where
  "shown_name p \<longleftrightarrow> \<not> looks_machine_id (pd_display_name p) \<and> pd_display_name p \<noteq> []"

fun label_scan :: "string \<Rightarrow> person_dir_entry list \<Rightarrow> string option" where
  "label_scan low [] = None"
| "label_scan low (p # ps) =
     (if pd_subject_id p \<noteq> [] \<and> contains low (to_ascii_lowercase (pd_subject_id p)) \<and> shown_name p
      then Some (pd_display_name p)
      else (case find (\<lambda>a. 4 \<le> length a \<and> \<not> looks_machine_id a \<and> contains low (to_ascii_lowercase a)) (pd_aliases p) of
              Some a \<Rightarrow> Some (if shown_name p then pd_display_name p else a)
            | None \<Rightarrow> label_scan low ps))"

definition strip_ref :: "string \<Rightarrow> string" where
  "strip_ref t =
     (let a = unwrap_or (strip_prefix t ''twin:'') t;
          b = unwrap_or (strip_prefix a ''person:'') t
      in unwrap_or (strip_prefix b ''intent:'') t)"

definition human_owner_label :: "string \<Rightarrow> person_dir_entry list \<Rightarrow> string" where
  "human_owner_label raw dir =
     (let t = trim raw in
      if t = [] then ''Someone''
      else
        (let fallback = (case label_scan (to_ascii_lowercase t) dir of
                           Some n \<Rightarrow> n
                         | None \<Rightarrow> if looks_machine_id t then ''Someone'' else t)
         in case or_else (resolve_person_ref t dir) (resolve_person_ref (strip_ref t) dir) of
              Some (i, name) \<Rightarrow> if name \<noteq> [] \<and> \<not> looks_machine_id name then name else fallback
            | None \<Rightarrow> fallback))"

section \<open>Plain lines\<close>

definition claim_type_plain :: "string \<Rightarrow> string" where
  "claim_type_plain t =
     (let u = to_ascii_uppercase t in
      if u = ''SHIP'' then ''trying to ship''
      else if u = ''BLOCKED'' then ''stuck / waiting''
      else if u = ''FIX'' then ''fixing something''
      else if u = ''EXPLORE'' then ''exploring / spiking''
      else if u = ''REVIEW'' then ''in review''
      else if u = ''FREEZE'' then ''holding back (don'' @ [CHR 39] @ ''t merge yet)''
      else ''working on something'')"

definition claim_insight_line :: "string \<Rightarrow> string \<Rightarrow> string \<Rightarrow> bool \<Rightarrow> string" where
  "claim_insight_line t summary owner is_demo =
     (if is_demo then ''(Demo seed '' @ em_dash @ '' ignore for real decisions) '' @ owner @ '' '' @ em_dash @ '' '' @ claim_type_plain t
      else
        (let body = (if summary = [] then claim_type_plain t
                     else trim (trim_start_matches ''FIX:'' (trim_start_matches ''FREEZE:''
                       (trim_start_matches ''BLOCKED:'' (trim_start_matches ''SHIP:'' summary)))));
             u = to_ascii_uppercase t
         in if u = ''BLOCKED'' then owner @ '' is blocked: '' @ body
            else if u = ''FREEZE'' then owner @ '' is holding merge: '' @ body
            else if u = ''SHIP'' then owner @ '' is aiming to ship: '' @ body
            else if u = ''FIX'' then owner @ '' is fixing: '' @ body
            else owner @ '': '' @ body))"

definition conflict_insight_line :: "string \<Rightarrow> string \<Rightarrow> bool \<Rightarrow> string" where
  "conflict_insight_line kind summary is_demo =
     (let k = to_ascii_lowercase kind in
      if is_demo then ''(Demo only) '' @ summary
      else if contains k ''ship'' \<and> contains k ''freeze''
      then ''Mixed signals on the same work: someone wants to ship while someone else wants to hold. Details: '' @ summary
      else if contains k ''block''
      then ''A blocker is sitting open and needs an owner or unblock path. Details: '' @ summary
      else if contains k ''owner'' \<or> contains k ''dual''
      then ''More than one person claims ownership '' @ em_dash @ '' align on who drives it. Details: '' @ summary
      else if contains k ''merge'' \<or> contains k ''friction''
      then ''Merge friction on a PR '' @ em_dash @ '' code or process is stuck. Details: '' @ summary
      else if contains k ''stale''
      then ''Review has gone quiet '' @ em_dash @ '' someone needs a nudge. Details: '' @ summary
      else if contains k ''ci''
      then ''Ship intent meets failing checks '' @ em_dash @ '' fix CI or stop claiming ready. Details: '' @ summary
      else ''Team friction: '' @ summary)"

section \<open>Labels are for people\<close>

lemma trim_idem [simp]: "trim (trim s) = trim s"
proof -
  have d: "dropWhile P (dropWhile P xs) = dropWhile P xs" for P and xs :: string by (induction xs) auto
  let ?a = "dropWhile is_ascii_ws s"
  let ?b = "rev (dropWhile is_ascii_ws (rev ?a))"
  have "dropWhile is_ascii_ws ?b = ?b"
  proof (cases "?b")
    case Nil
    show ?thesis by (simp only: Nil dropWhile.simps)
  next
    case (Cons c cs)
    obtain ys where "?a = ?b @ ys"
      by (metis rev_append rev_rev_ident takeWhile_dropWhile_id)
    then have "hd ?a = c" using Cons by simp
    moreover have "?a \<noteq> []" by (metis Cons dropWhile.simps(1) list.distinct(1) rev.simps(1))
    ultimately have "\<not> is_ascii_ws c" using hd_dropWhile [of is_ascii_ws s] by simp
    then show ?thesis using Cons by simp
  qed
  then show ?thesis by (simp add: trim_def d)
qed

lemma looks_machine_id_trim [simp]: "looks_machine_id (trim s) = looks_machine_id s"
  by (simp add: looks_machine_id_def)

lemma label_scan_shown: "label_scan low dir = Some n \<Longrightarrow> n \<noteq> [] \<and> \<not> looks_machine_id n"
proof (induction low dir rule: label_scan.induct)
  case (2 low p ps)
  show ?case
  proof (cases "find (\<lambda>a. 4 \<le> length a \<and> \<not> looks_machine_id a \<and> contains low (to_ascii_lowercase a)) (pd_aliases p)")
    case None
    then show ?thesis using 2 by (simp split: if_splits add: shown_name_def)
  next
    case (Some a)
    then have "a \<noteq> [] \<and> \<not> looks_machine_id a" by (auto simp: find_Some_iff)
    then show ?thesis using 2 Some by (auto split: if_splits simp: shown_name_def)
  qed
qed simp

lemma someone_is_human: "\<not> looks_machine_id ''Someone''"
  by code_simp

text \<open>
  The label shown for an owner is never empty and never a machine identifier, whatever the raw
  reference and the directory are.
\<close>

lemma owner_label_is_human:
  "human_owner_label raw dir \<noteq> [] \<and> \<not> looks_machine_id (human_owner_label raw dir)"
proof (cases "trim raw = []")
  case False
  define fb where "fb = (case label_scan (to_ascii_lowercase (trim raw)) dir of
      Some n \<Rightarrow> n | None \<Rightarrow> if looks_machine_id (trim raw) then ''Someone'' else trim raw)"
  have "fb \<noteq> [] \<and> \<not> looks_machine_id fb"
  proof (cases "label_scan (to_ascii_lowercase (trim raw)) dir")
    case None
    then show ?thesis using False someone_is_human by (simp add: fb_def del: looks_machine_id_trim)
  qed (use label_scan_shown in \<open>simp add: fb_def\<close>)
  then show ?thesis
    using False unfolding human_owner_label_def Let_def fb_def [symmetric]
    by (cases "or_else (resolve_person_ref (trim raw) dir) (resolve_person_ref (strip_ref (trim raw)) dir)")
      (auto split: prod.splits)
qed (simp add: human_owner_label_def someone_is_human)

text \<open>The prefixes \<open>twin:\<close> and \<open>person:\<close> are not removed: each failed step starts over.\<close>

lemma strip_ref_keeps_prefix:
  "strip_ref (''person:'' @ x) = (if starts_with x ''intent:'' then drop 7 x else ''person:'' @ x)"
  "strip_ref (''twin:'' @ x) = (case strip_prefix x ''person:'' of
      Some y \<Rightarrow> (case strip_prefix y ''intent:'' of Some z \<Rightarrow> z | None \<Rightarrow> ''twin:'' @ x)
    | None \<Rightarrow> ''twin:'' @ x)"
  by (auto simp: strip_ref_def strip_prefix_def starts_with_def Let_def eval_nat_numeral split: option.splits)

section \<open>The mention scanner\<close>

text \<open>A mention in a text: what stands before it, the identifier, and an optional label.\<close>

type_synonym mention = "string \<times> string \<times> string"

definition mention_ok :: "mention \<Rightarrow> bool" where
  "mention_ok m = (case m of (before, uid, label) \<Rightarrow>
     CHR ''<'' \<notin> set before \<and> uid \<noteq> [] \<and> trim uid = uid \<and> CHR ''>'' \<notin> set uid \<and> CHR ''|'' \<notin> set uid
     \<and> CHR ''>'' \<notin> set label \<and> (label = [] \<or> hd label = CHR ''|''))"

definition render_mention :: "mention \<Rightarrow> string" where
  "render_mention m = (case m of (before, uid, label) \<Rightarrow> before @ ''<@'' @ uid @ label @ ''>'')"

lemma find_sub_first: "c \<notin> set a \<Longrightarrow> find_sub (c # p) (a @ (c # p) @ b) = Some (length a)"
  by (induction a) (auto simp: prefix_def)

lemma find_sub_none: "c \<notin> set a \<Longrightarrow> find_sub (c # p) a = None"
  by (induction a) (auto simp: prefix_def)

lemma split_on_hd: "d \<notin> set a \<Longrightarrow> b = [] \<or> hd b = d \<Longrightarrow> hd (split_on d (a @ b)) = a"
proof (induction a)
  case Nil
  then show ?case by (cases b) auto
next
  case (Cons c cs)
  then show ?case using split_on_ne [of d "cs @ b"] by (auto split: list.splits)
qed

lemma mention_scan_step:
  assumes "mention_ok m"
  shows "mention_scan (render_mention m @ rest) out
    = mention_scan rest (if fst (snd m) \<in> set out then out else out @ [fst (snd m)])"
proof -
  obtain a u l where m: "m = (a, u, l)" by (cases m)
  have ok: "CHR ''<'' \<notin> set a" "u \<noteq> []" "trim u = u" "CHR ''|'' \<notin> set u" "CHR ''>'' \<notin> set (u @ l)"
    "l = [] \<or> hd l = CHR ''|''"
    using assms by (simp_all add: m mention_ok_def)
  have s: "find_sub ''<@'' (a @ ''<@'' @ (u @ l @ ''>'' @ rest)) = Some (length a)"
    using find_sub_first [OF ok(1), of "''@''"] by simp
  have e: "find_sub ''>'' ((u @ l) @ ''>'' @ rest) = Some (length (u @ l))"
    using find_sub_first [OF ok(5), of "[]" rest] by simp
  have uid: "trim (hd (split_on CHR ''|'' (u @ l))) = u" using split_on_hd [OF ok(4,6)] ok(3) by simp
  have r: "render_mention m @ rest = a @ ''<@'' @ (u @ l) @ ''>'' @ rest" by (simp add: m render_mention_def)
  have d: "drop (length a + 2) (a @ ''<@'' @ (u @ l) @ ''>'' @ rest) = (u @ l) @ ''>'' @ rest"
    "drop (length (u @ l) + 1) ((u @ l) @ ''>'' @ rest) = rest"
    "take (length (u @ l)) ((u @ l) @ ''>'' @ rest) = u @ l" by simp_all
  show ?thesis
    unfolding r
    by (subst mention_scan.simps)
      (use s e uid d ok(2) in \<open>simp add: m list_ex_iff del: append.simps drop_append take_append\<close>)
qed

lemma mention_scan_all:
  "\<forall>m\<in>set ms. mention_ok m \<Longrightarrow> CHR ''<'' \<notin> set rest \<Longrightarrow>
   mention_scan (concat (map render_mention ms) @ rest) out
     = fold (\<lambda>x ys. if x \<in> set ys then ys else ys @ [x]) (map (fst \<circ> snd) ms) out"
proof (induction ms arbitrary: out)
  case Nil
  then show ?case by (subst mention_scan.simps) (simp add: find_sub_none)
next
  case (Cons m ms)
  then show ?case using mention_scan_step [of m "concat (map render_mention ms) @ rest" out] by simp
qed

lemma fold_keep_first: "fold (\<lambda>x ys. if x \<in> set ys then ys else ys @ [x]) xs [] = rev (remdups (rev xs))"
  by (induction xs rule: rev_induct) auto

text \<open>
  C27. The mention scanner terminates and finds exactly the mentions: in a text made of mentions
  \<open><@ID>\<close> or \<open><@ID|label>\<close> with other words around them it returns their identifiers, each once,
  in the order of their first appearance.
\<close>

theorem mentions_are_found:
  assumes "\<forall>m\<in>set ms. mention_ok m" "CHR ''<'' \<notin> set rest"
  shows "extract_slack_mention_ids (concat (map render_mention ms) @ rest)
    = rev (remdups (rev (map (fst \<circ> snd) ms)))"
  unfolding extract_slack_mention_ids_def mention_scan_all [OF assms] by (rule fold_keep_first)

theorem mentions_are_found_witness:
  "extract_slack_mention_ids ''hey <@U07|neel> and <@U12>, <@U07> will do'' = [''U07'', ''U12'']"
proof -
  let ?ms = "[(''hey '', ''U07'', ''|neel''), ('' and '', ''U12'', []), ('', '', ''U07'', [])]"
  have "\<forall>m\<in>set ?ms. mention_ok m" by (simp add: mention_ok_def trim_def is_ascii_ws_def)
  from mentions_are_found [OF this, of "'' will do''"] show ?thesis by (simp add: render_mention_def)
qed

section \<open>What counts as finished\<close>

text \<open>Text that promises in the first person is never read as a report of finished work.\<close>

lemma promise_is_no_resolution: "contains hay ''i will'' \<Longrightarrow> \<not> is_resolution_phrase hay"
  by (simp add: is_resolution_phrase_def)

lemma resolution_only_by_phrase:
  "message_resolves_commitment message text \<Longrightarrow> is_resolution_phrase (to_ascii_lowercase message)"
  by (simp add: message_resolves_commitment_def Let_def split: if_splits)

lemma resolution_is_no_promise:
  "is_resolution_phrase (to_ascii_lowercase (trim text)) \<Longrightarrow> extract_commitment u text = None"
  by (simp add: extract_commitment_def Let_def)

text \<open>The phrases are looked up as substrings, so a negation of one of them also counts.\<close>

lemma unresolved_counts_as_resolved:
  "message_resolves_commitment ''the export is still unresolved'' ''Fix the export by friday''"
  "message_resolves_commitment ''export not done.'' ''Fix the export by friday''"
  by code_simp+

end
