(* ===== verification/Claim_Ledger.thy ===== *)
theory Claim_Ledger
  imports Commit_Board Graph_Intent
begin

text \<open>
  The claim ledger of the intent engine (\<open>twin-api/src/intent_engine.rs\<close>) and the requests on it
  (\<open>twin-api/src/main.rs\<close>, \<open>with_is_demo_tag\<close> and \<open>push_slack_intent_claim\<close> to
  \<open>intent_claim_supersede\<close>): claims from the graph, from chat and explicit ones, normalised into one
  record, merged, counted, captured and superseded. The clock, the calendar, the JSON writer and
  the intents of the graph service are parameters. The lemmas: what is captured is listed, what is
  superseded is not, the merge is exact, and how the vocabulary compares with the graph's.
\<close>

section \<open>Times\<close>

text \<open>The parsers and the formatters of \<open>chrono\<close>, the clock, and the JSON writer.\<close>

record claim_env =
  ce_rfc3339 :: "string \<Rightarrow> instant option"
  ce_naive :: "string \<Rightarrow> string \<Rightarrow> instant option"
  ce_format_ist :: "instant \<Rightarrow> string"
  ce_format_utc :: "instant \<Rightarrow> string"
  ce_now :: instant
  ce_show :: "json \<Rightarrow> string"

definition parse_as_utc :: "claim_env \<Rightarrow> string \<Rightarrow> instant option" where
  "parse_as_utc env s0 =
     (let s = trim s0; cleaned = map (\<lambda>c. if c = CHR '' '' then CHR ''T'' else c) s in
      if s = [] then None
      else or_else (ce_rfc3339 env s)
        (or_else (ce_naive env ''%Y-%m-%dT%H:%M:%S%.f'' cleaned)
          (or_else (ce_naive env ''%Y-%m-%dT%H:%M:%S'' cleaned)
            (ce_naive env ''%Y-%m-%d %H:%M:%S'' s))))"

definition reformat_stored_to_ist_rfc3339 :: "claim_env \<Rightarrow> string \<Rightarrow> string" where
  "reformat_stored_to_ist_rfc3339 env s =
     (case parse_as_utc env s of Some t \<Rightarrow> ce_format_ist env t | None \<Rightarrow> s)"

definition list_at :: "claim_env \<Rightarrow> string \<Rightarrow> string" where
  "list_at env stored =
     (if trim stored = [] then ce_format_ist env (ce_now env) else reformat_stored_to_ist_rfc3339 env stored)"

section \<open>Vocabulary\<close>

datatype claim_type = CShip | CBlocked | CFix | CExplore | CReview | CFreeze | COther

fun claim_type_str :: "claim_type \<Rightarrow> string" where
  "claim_type_str CShip = ''SHIP''"
| "claim_type_str CBlocked = ''BLOCKED''"
| "claim_type_str CFix = ''FIX''"
| "claim_type_str CExplore = ''EXPLORE''"
| "claim_type_str CReview = ''REVIEW''"
| "claim_type_str CFreeze = ''FREEZE''"
| "claim_type_str COther = ''OTHER''"

definition claim_type_parse :: "string \<Rightarrow> claim_type option" where
  "claim_type_parse s =
     (let u = to_ascii_uppercase (trim s) in
      if u \<in> {''SHIP'', ''SHIPPING'', ''RELEASE''} then Some CShip
      else if u \<in> {''BLOCKED'', ''BLOCKER'', ''BLOCKING''} then Some CBlocked
      else if u \<in> {''FIX'', ''BUGFIX'', ''HOTFIX''} then Some CFix
      else if u \<in> {''EXPLORE'', ''SPIKE'', ''POC'', ''RESEARCH''} then Some CExplore
      else if u \<in> {''REVIEW'', ''RFC''} then Some CReview
      else if u \<in> {''FREEZE'', ''HOLD'', ''PAUSE''} then Some CFreeze
      else if u = ''OTHER'' then Some COther
      else None)"

datatype claim_source =
  GithubPr | GithubIssue | SlackChannel | SlackDm | ExplicitSrc | SeedSrc | DigestEdit | UnknownSrc

fun claim_source_str :: "claim_source \<Rightarrow> string" where
  "claim_source_str GithubPr = ''github_pr''"
| "claim_source_str GithubIssue = ''github_issue''"
| "claim_source_str SlackChannel = ''slack_channel''"
| "claim_source_str SlackDm = ''slack_dm''"
| "claim_source_str ExplicitSrc = ''explicit''"
| "claim_source_str SeedSrc = ''seed''"
| "claim_source_str DigestEdit = ''digest_edit''"
| "claim_source_str UnknownSrc = ''unknown''"

definition claim_source_parse :: "string \<Rightarrow> claim_source" where
  "claim_source_parse s =
     (if s \<in> {''github_pr'', ''github'', ''github_rules'', ''pr_poller''} then GithubPr
      else if s = ''github_issue'' then GithubIssue
      else if s \<in> {''slack_channel'', ''channel''} then SlackChannel
      else if s \<in> {''slack_dm'', ''dm'', ''im''} then SlackDm
      else if s \<in> {''explicit'', ''bot'', ''slash'', ''champion''} then ExplicitSrc
      else if s \<in> {''seed'', ''intent_demo'', ''graph_story''} then SeedSrc
      else if s = ''digest_edit'' then DigestEdit
      else UnknownSrc)"

datatype claim_lifecycle = LcOpen | LcSuperseded | LcResolved

fun lifecycle_str :: "claim_lifecycle \<Rightarrow> string" where
  "lifecycle_str LcOpen = ''open''"
| "lifecycle_str LcSuperseded = ''superseded''"
| "lifecycle_str LcResolved = ''resolved''"

definition claim_patterns :: "(string \<times> claim_type \<times> nat) list" where
  "claim_patterns =
     (let q = [CHR 39] in
     [(''blocked by'', CBlocked, 90), (''blocked on'', CBlocked, 90), (''waiting on'', CBlocked, 80),
      (''blocked:'', CBlocked, 85), (''[blocked]'', CBlocked, 90), (''i'' @ q @ ''m blocked'', CBlocked, 90),
      (''im blocked'', CBlocked, 90), (''code freeze'', CFreeze, 90), (''do not merge'', CFreeze, 90),
      (''don'' @ q @ ''t merge'', CFreeze, 90), (''donotmerge'', CFreeze, 90), (''hold merge'', CFreeze, 80),
      (''freeze '', CFreeze, 75), (''freeze:'', CFreeze, 80), (''hotfix'', CFix, 85), (''bugfix'', CFix, 85),
      (''fix:'', CFix, 80), (''fix '', CFix, 70), (''working on'', CShip, 72), (''ready to ship'', CShip, 90),
      (''ship '', CShip, 75), (''shipping '', CShip, 75), (''release '', CShip, 75), (''deploy '', CShip, 70),
      (''launch '', CShip, 70), (''merge to main'', CShip, 75), (''feat:'', CShip, 65), (''feature:'', CShip, 65),
      (''spike:'', CExplore, 85), (''spike '', CExplore, 80), (''poc:'', CExplore, 80), (''explore '', CExplore, 70),
      (''research '', CExplore, 70), (''rfc:'', CReview, 85), (''wip:'', CExplore, 60), (''[wip]'', CExplore, 65)])"

definition classify_claim_text :: "string \<Rightarrow> string \<times> nat \<times> string" where
  "classify_claim_text text =
     (case find (\<lambda>(p, t, c). contains (to_ascii_lowercase text) p) claim_patterns of
        Some (p, t, c) \<Rightarrow> (claim_type_str t, c, ''text:'' @ p)
      | None \<Rightarrow> (claim_type_str COther, 25, ''default:other''))"

definition truncate_preview :: "string \<Rightarrow> nat \<Rightarrow> string" where
  "truncate_preview text mx =
     (let t = trim text in if length (utf8_chars t) \<le> mx then t else take_chars mx t @ ellipsis)"

definition text_preview_max :: nat where "text_preview_max = 280"

definition looks_like_demo :: "string \<Rightarrow> bool" where
  "looks_like_demo blob =
     (let b = to_ascii_lowercase blob; q = [CHR 0x22] in
      contains b ''gu_demo_'' \<or> contains b ''intent_demo'' \<or> contains b ''graph_story''
      \<or> contains b ''/pr/story-1'' \<or> contains b (q @ ''is_demo'' @ q @ '':true'')
      \<or> contains b (q @ ''seed'' @ q @ '':'' @ q))"

section \<open>The claim record\<close>

record ledger_claim =
  lc_claim_id :: string
  lc_tenant_id :: string
  lc_intent_type :: string
  lc_summary :: string
  lc_owner_subject :: "string option"
  lc_about_node_id :: "string option"
  lc_confidence :: int
  lc_evidence :: "string list"
  lc_source :: string
  lc_is_demo :: bool
  lc_lifecycle :: string
  lc_at :: string
  lc_text_preview :: "string option"
  lc_channel :: "string option"

definition ledger_claim_to_json :: "claim_env \<Rightarrow> ledger_claim \<Rightarrow> json" where
  "ledger_claim_to_json env c = JObj
     [(''claim_id'', JStr (lc_claim_id c)), (''tenant_id'', JStr (lc_tenant_id c)),
      (''intent_type'', JStr (lc_intent_type c)), (''summary'', JStr (lc_summary c)),
      (''owner_subject'', json_opt (lc_owner_subject c)), (''about_node_id'', json_opt (lc_about_node_id c)),
      (''confidence'', JFloat (lc_confidence c)), (''evidence'', JArr (map JStr (lc_evidence c))),
      (''source'', JStr (lc_source c)), (''is_demo'', JBool (lc_is_demo c)),
      (''lifecycle'', JStr (lc_lifecycle c)), (''at'', JStr (list_at env (lc_at c))),
      (''text_preview'', json_opt (lc_text_preview c)), (''channel'', json_opt (lc_channel c))]"

text \<open>The derived \<open>Deserialize\<close>, on objects.\<close>

definition ledger_claim_of_json :: "json \<Rightarrow> ledger_claim option" where
  "ledger_claim_of_json v =
     Option.bind (string_field v ''claim_id'') (\<lambda>i. Option.bind (string_field v ''tenant_id'') (\<lambda>t.
     Option.bind (string_field v ''intent_type'') (\<lambda>ty. Option.bind (string_field v ''summary'') (\<lambda>s.
     Option.bind (opt_field v ''owner_subject'') (\<lambda>ow. Option.bind (opt_field v ''about_node_id'') (\<lambda>ab.
     Option.bind (Option.bind (json_get v ''confidence'') hundredths) (\<lambda>cf.
     Option.bind (Option.bind (Option.bind (json_get v ''evidence'') as_array) str_list) (\<lambda>ev.
     Option.bind (string_field v ''source'') (\<lambda>src.
     Option.bind (Option.bind (json_get v ''is_demo'') as_bool) (\<lambda>d.
     Option.bind (string_field v ''lifecycle'') (\<lambda>lc. Option.bind (string_field v ''at'') (\<lambda>at.
     Option.bind (opt_field v ''text_preview'') (\<lambda>tp. Option.bind (opt_field v ''channel'') (\<lambda>ch.
       Some \<lparr>lc_claim_id = i, lc_tenant_id = t, lc_intent_type = ty, lc_summary = s, lc_owner_subject = ow,
         lc_about_node_id = ab, lc_confidence = cf, lc_evidence = ev, lc_source = src, lc_is_demo = d,
         lc_lifecycle = lc, lc_at = at, lc_text_preview = tp, lc_channel = ch\<rparr>))))))))))))))"

section \<open>Normalisation\<close>

definition get_str_or :: "json option \<Rightarrow> string \<Rightarrow> string" where
  "get_str_or v d = unwrap_or (Option.bind v as_str) d"

definition claim_from_graph_intent :: "claim_env \<Rightarrow> string \<Rightarrow> string \<Rightarrow> json \<Rightarrow> ledger_claim" where
  "claim_from_graph_intent env uuid tenant v =
     (let is_demo = unwrap_or (Option.bind (json_get v ''is_demo'') as_bool) (looks_like_demo (ce_show env v));
          props = unwrap_or (json_get v ''properties'') (JObj []);
          both = (\<lambda>k. or_else (json_get v k) (json_get props k));
          claim_id = get_str_or (or_else (or_else (json_get v ''id'') (json_get v ''node_id'')) (json_get v ''claim_id'')) []
      in \<lparr>lc_claim_id = (if claim_id = [] then ''graph:'' @ uuid else claim_id), lc_tenant_id = tenant,
          lc_intent_type = get_str_or (both ''intent_type'') ''OTHER'',
          lc_summary = get_str_or (or_else (or_else (json_get v ''display_name'') (json_get v ''label''))
             (json_get v ''summary'')) [],
          lc_owner_subject = Option.bind (or_else (both ''owner_node_id'') (json_get v ''owner_subject'')) as_str,
          lc_about_node_id = Option.bind (both ''about_node_id'') as_str,
          lc_confidence = unwrap_or (Option.bind (both ''confidence'') hundredths) 50,
          lc_evidence = unwrap_or (map_option (List.map_filter as_str) (Option.bind (both ''evidence'') as_array)) [],
          lc_source = (case Option.bind (both ''source'') as_str of
             Some s \<Rightarrow> claim_source_str (claim_source_parse s)
           | None \<Rightarrow> claim_source_str (if is_demo then SeedSrc else UnknownSrc)),
          lc_is_demo = is_demo, lc_lifecycle = ''open'',
          lc_at = list_at env (get_str_or (or_else (or_else (json_get v ''at'') (json_get v ''updated_at''))
             (json_get v ''created_at'')) []),
          lc_text_preview = None, lc_channel = None\<rparr>)"

text \<open>The identifier of a stored chat claim: its own, or the time stamp of the message.\<close>

definition slack_claim_key :: "json \<Rightarrow> string option" where
  "slack_claim_key c = Option.bind (or_else (json_get c ''claim_id'') (json_get c ''ts'')) as_str"

definition claim_from_slack_kv :: "claim_env \<Rightarrow> string \<Rightarrow> string \<Rightarrow> json \<Rightarrow> ledger_claim" where
  "claim_from_slack_kv env uuid tenant c =
     (let is_demo = unwrap_or (Option.bind (json_get c ''is_demo'') as_bool) (looks_like_demo (ce_show env c));
          channel = get_str_or (json_get c ''channel'') [];
          preview = get_str_or (json_get c ''text_preview'') [];
          itype = get_str_or (json_get c ''intent_type'') ''OTHER''
      in \<lparr>lc_claim_id = ''slack:'' @ unwrap_or (slack_claim_key c) uuid, lc_tenant_id = tenant,
          lc_intent_type = itype,
          lc_summary = (if preview = [] then itype @ '' (slack)'' else itype @ '': '' @ preview),
          lc_owner_subject = Option.bind (json_get c ''subject'') as_str, lc_about_node_id = None,
          lc_confidence = unwrap_or (Option.bind (json_get c ''confidence'') hundredths) 50,
          lc_evidence = filter (\<lambda>e. \<not> ends_with e '':'')
            [''slack_user:'' @ get_str_or (json_get c ''slack_user'') [], ''channel:'' @ channel,
             ''ts:'' @ get_str_or (json_get c ''ts'') []],
          lc_source = claim_source_str (if channel = ''dm'' \<or> starts_with channel ''D'' then SlackDm else SlackChannel),
          lc_is_demo = is_demo, lc_lifecycle = get_str_or (json_get c ''lifecycle'') ''open'',
          lc_at = list_at env (get_str_or (json_get c ''at'') []),
          lc_text_preview = Some (truncate_preview preview text_preview_max), lc_channel = Some channel\<rparr>)"

definition build_explicit_claim ::
  "claim_env \<Rightarrow> string \<Rightarrow> string \<Rightarrow> string \<Rightarrow> string \<Rightarrow> string option \<Rightarrow> string option \<Rightarrow> string list
   \<Rightarrow> string option \<Rightarrow> ledger_claim" where
  "build_explicit_claim env uuid tenant intent_type summary owner about evidence channel =
     (let itype = claim_type_str (unwrap_or (claim_type_parse intent_type) COther); sum = trim summary in
      \<lparr>lc_claim_id = ''explicit:'' @ uuid, lc_tenant_id = tenant, lc_intent_type = itype,
       lc_summary = (if sum = [] then itype @ '' (explicit)'' else truncate_preview sum text_preview_max),
       lc_owner_subject = owner, lc_about_node_id = about, lc_confidence = 95,
       lc_evidence = (if evidence = [] then [''source:explicit''] else evidence),
       lc_source = claim_source_str ExplicitSrc, lc_is_demo = False, lc_lifecycle = lifecycle_str LcOpen,
       lc_at = ce_format_ist env (ce_now env),
       lc_text_preview = Some (truncate_preview sum text_preview_max), lc_channel = channel\<rparr>)"

section \<open>The ledger\<close>

definition claim_shown :: "bool \<Rightarrow> bool \<Rightarrow> ledger_claim \<Rightarrow> bool" where
  "claim_shown include_demo open_only c \<longleftrightarrow>
     (include_demo \<or> \<not> lc_is_demo c) \<and> (open_only \<longrightarrow> lc_lifecycle c = ''open'')"

definition relist :: "claim_env \<Rightarrow> ledger_claim \<Rightarrow> ledger_claim" where
  "relist env c = c\<lparr>lc_at := list_at env (lc_at c)\<rparr>"

definition merge_ledger ::
  "claim_env \<Rightarrow> ledger_claim list \<Rightarrow> ledger_claim list \<Rightarrow> ledger_claim list \<Rightarrow> bool \<Rightarrow> bool \<Rightarrow> ledger_claim list" where
  "merge_ledger env graph slack explicit include_demo open_only =
     rev (sort_key lc_at (rev (map (relist env) (filter (claim_shown include_demo open_only) (graph @ slack @ explicit)))))"

definition counts_by :: "(ledger_claim \<Rightarrow> string) \<Rightarrow> ledger_claim list \<Rightarrow> json" where
  "counts_by f cs =
     JObj (map (\<lambda>k. (k, JInt (int (length (filter (\<lambda>c. f c = k) cs))))) (sort (remdups (map f cs))))"

definition ledger_stats :: "ledger_claim list \<Rightarrow> json" where
  "ledger_stats cs = JObj
     [(''total'', JInt (int (length cs))), (''live'', JInt (int (length (filter (\<lambda>c. \<not> lc_is_demo c) cs)))),
      (''demo'', JInt (int (length (filter lc_is_demo cs)))),
      (''open'', JInt (int (length (filter (\<lambda>c. lc_lifecycle c = ''open'') cs)))),
      (''by_type'', counts_by lc_intent_type cs), (''by_source'', counts_by lc_source cs)]"

section \<open>Requests\<close>

text \<open>\<open>Map::insert\<close> on an object; other values are left alone.\<close>

fun json_insert :: "string \<Rightarrow> json \<Rightarrow> json \<Rightarrow> json" where
  "json_insert k v (JObj kvs) = JObj (AList.update k v kvs)"
| "json_insert k v w = w"

definition json_looks_like_demo_seed :: "claim_env \<Rightarrow> json \<Rightarrow> bool" where
  "json_looks_like_demo_seed env v =
     (let b = to_ascii_lowercase (ce_show env v); q = [CHR 0x22] in
      list_ex (contains b)
        [''gu_demo_'', ''demo-repo'', ''intent_demo'', ''seed:intent_demo'',
         q @ ''seed'' @ q @ '':'' @ q @ ''intent_demo'' @ q, q @ ''is_demo'' @ q @ '':true'',
         q @ ''seed'' @ q @ '':'' @ q @ ''graph_story'' @ q, ''seed:graph_story'', ''/pr/story-1'',
         ''pr:neeljoshi18/ai-manager/pr/story-1''])"

definition with_is_demo_tag :: "claim_env \<Rightarrow> json \<Rightarrow> json" where
  "with_is_demo_tag env v =
     json_insert ''is_demo'' (JBool (json_looks_like_demo_seed env v
       \<or> unwrap_or (Option.bind (json_get v ''is_demo'') as_bool) False
       \<or> (case Option.bind (json_path v [''properties'', ''seed'']) as_str of
            Some s \<Rightarrow> contains s ''demo'' \<or> contains s ''seed'' | None \<Rightarrow> False)
       \<or> unwrap_or (Option.bind (json_path v [''properties'', ''is_demo'']) as_bool) False)) v"

definition explicit_claims_kv :: string where "explicit_claims_kv = ''intent_explicit_claims''"
definition slack_claims_kv :: string where "slack_claims_kv = ''slack_intent_claims''"

text \<open>Both lists are rings: the oldest entries go first.\<close>

definition push_ring :: "string \<Rightarrow> nat \<Rightarrow> string \<Rightarrow> json \<Rightarrow> twin_store \<Rightarrow> twin_store" where
  "push_ring key mx tenant claim s =
     put_tenant_kv tenant key (JArr (keep_last mx (kv_array s tenant key @ [claim]))) s"

definition push_explicit_claim :: "string \<Rightarrow> json \<Rightarrow> twin_store \<Rightarrow> twin_store" where
  "push_explicit_claim tenant claim s = push_ring explicit_claims_kv 200 tenant claim s"

definition push_slack_intent_claim :: "string \<Rightarrow> json \<Rightarrow> twin_store \<Rightarrow> twin_store" where
  "push_slack_intent_claim tenant claim s = push_ring slack_claims_kv 100 tenant claim s"

definition explicit_claims :: "twin_store \<Rightarrow> string \<Rightarrow> ledger_claim list" where
  "explicit_claims s tenant = List.map_filter ledger_claim_of_json (kv_array s tenant explicit_claims_kv)"

definition slack_claims :: "claim_env \<Rightarrow> (nat \<Rightarrow> string) \<Rightarrow> twin_store \<Rightarrow> string \<Rightarrow> ledger_claim list" where
  "slack_claims env uuid s tenant =
     map (\<lambda>(n, c). claim_from_slack_kv env (uuid n) tenant c) (enumerate 0 (kv_array s tenant slack_claims_kv))"

definition graph_claims :: "claim_env \<Rightarrow> (nat \<Rightarrow> string) \<Rightarrow> string \<Rightarrow> json list \<Rightarrow> ledger_claim list" where
  "graph_claims env uuid tenant raw =
     map (\<lambda>(n, v). claim_from_graph_intent env (uuid n) tenant (with_is_demo_tag env v)) (enumerate 0 raw)"

text \<open>The intents of the graph service: its list, or the intent nodes of its snapshot.\<close>

definition graph_intents :: "json list \<Rightarrow> json option \<Rightarrow> json list" where
  "graph_intents listed snapshot =
     (if listed \<noteq> [] then listed
      else (case snapshot of
              None \<Rightarrow> []
            | Some snap \<Rightarrow>
                filter (\<lambda>n. Option.bind (json_get n ''type'') as_str = Some ''Intent''
                          \<or> Option.bind (json_get n ''node_type'') as_str = Some ''Intent'')
                  (unwrap_or (Option.bind (json_get snap ''nodes'') as_array) [])))"

definition collect_intent_ledger ::
  "claim_env \<Rightarrow> (nat \<Rightarrow> string) \<Rightarrow> (nat \<Rightarrow> string) \<Rightarrow> json list \<Rightarrow> json option \<Rightarrow> string \<Rightarrow> bool \<Rightarrow> bool
   \<Rightarrow> twin_store \<Rightarrow> ledger_claim list" where
  "collect_intent_ledger env gid sid listed snapshot tenant include_demo open_only s =
     merge_ledger env (graph_claims env gid tenant (graph_intents listed snapshot))
       (slack_claims env sid s tenant) (explicit_claims s tenant) include_demo open_only"

definition intent_ledger ::
  "claim_env \<Rightarrow> (nat \<Rightarrow> string) \<Rightarrow> (nat \<Rightarrow> string) \<Rightarrow> json list \<Rightarrow> json option \<Rightarrow> string
   \<Rightarrow> bool option \<Rightarrow> bool option \<Rightarrow> nat option \<Rightarrow> twin_store \<Rightarrow> json \<times> json list" where
  "intent_ledger env gid sid listed snapshot tenant include_demo open_only limit s =
     (let cs = collect_intent_ledger env gid sid listed snapshot tenant (unwrap_or include_demo False)
                 (unwrap_or open_only True) s
      in (ledger_stats cs, map (ledger_claim_to_json env) (take (min (unwrap_or limit 100) 500) cs)))"

record claim_body =
  ib_intent_type :: "string option"
  ib_summary :: "string option"
  ib_text :: "string option"
  ib_owner_subject :: "string option"
  ib_about_node_id :: "string option"
  ib_evidence :: "string list option"
  ib_channel :: "string option"

definition body_type :: "claim_body \<Rightarrow> (string \<times> string) option" where
  "body_type body =
     (let text = unwrap_or (ib_text body) [];
          classified = (let (t, c, e) = classify_claim_text text in (t, e))
      in case ib_intent_type body of
           Some t \<Rightarrow> if claim_type_parse t \<noteq> None then Some (to_ascii_uppercase t, ''source:explicit'')
                     else Some classified
         | None \<Rightarrow> if trim text \<noteq> [] then Some classified else None)"

definition intent_claim_create ::
  "claim_env \<Rightarrow> string \<Rightarrow> string \<Rightarrow> claim_body \<Rightarrow> twin_store \<Rightarrow> (string + json) \<times> twin_store" where
  "intent_claim_create env uuid tenant body s =
     (case body_type body of
        None \<Rightarrow> (Inl (''Provide intent_type and/or text (e.g. '' @ [CHR 0x22] @ ''blocked on security'' @ [CHR 0x22] @ '')''), s)
      | Some (itype, tag) \<Rightarrow>
          (let text = unwrap_or (ib_text body) [];
               summary = unwrap_or (or_else (filter_opt (\<lambda>x. trim x \<noteq> []) (ib_summary body))
                           (if trim text = [] then None else Some text)) (itype @ '' (explicit)'');
               ev0 = unwrap_or (ib_evidence body) [];
               ev1 = (if tag \<noteq> [] \<and> \<not> list_ex (\<lambda>e. e = tag) ev0 then ev0 @ [tag] else ev0);
               claim = build_explicit_claim env uuid tenant itype summary (ib_owner_subject body)
                         (ib_about_node_id body) (ev1 @ [''capture:explicit_api'']) (ib_channel body);
               j = ledger_claim_to_json env claim
           in (Inr j,
               observer_log (ce_format_utc env (ce_now env)) tenant ''intent_claim_explicit'' (lc_intent_type claim)
                 (JObj [(''claim_id'', JStr (lc_claim_id claim)), (''owner'', json_opt (lc_owner_subject claim)),
                        (''confidence'', JFloat (lc_confidence claim))])
                 (push_explicit_claim tenant j s))))"

definition supersede_explicit :: "claim_env \<Rightarrow> string \<Rightarrow> json \<Rightarrow> json" where
  "supersede_explicit env i c =
     (if Option.bind (json_get c ''claim_id'') as_str = Some i
      then json_insert ''superseded_at'' (JStr (ce_format_ist env (ce_now env)))
             (json_insert ''lifecycle'' (JStr ''superseded'') c)
      else c)"

definition slack_claim_named :: "string \<Rightarrow> json \<Rightarrow> bool" where
  "slack_claim_named i c \<longleftrightarrow>
     (let k = unwrap_or (slack_claim_key c) [] in i = k \<or> i = ''slack:'' @ k)"

definition supersede_slack :: "string \<Rightarrow> json \<Rightarrow> json" where
  "supersede_slack i c =
     (if slack_claim_named i c then json_insert ''lifecycle'' (JStr ''superseded'') c else c)"

definition intent_claim_supersede ::
  "claim_env \<Rightarrow> string \<Rightarrow> string \<Rightarrow> twin_store \<Rightarrow> (string + json) \<times> twin_store" where
  "intent_claim_supersede env tenant i s =
     (let ex = kv_array s tenant explicit_claims_kv; sl = kv_array s tenant slack_claims_kv in
      if \<not> list_ex (\<lambda>c. Option.bind (json_get c ''claim_id'') as_str = Some i) ex
         \<and> \<not> list_ex (slack_claim_named i) sl
      then (Inl (''claim_id not found in explicit or slack ledgers ''
              @ ''(graph intents supersede via V2 lifecycle later)''), s)
      else (Inr (JObj [(''ok'', JBool True), (''claim_id'', JStr i), (''lifecycle'', JStr ''superseded'')]),
            observer_log (ce_format_utc env (ce_now env)) tenant ''intent_claim_supersede'' i (JObj [(''ok'', JBool True)])
              (put_tenant_kv tenant slack_claims_kv (JArr (map (supersede_slack i) sl))
                 (put_tenant_kv tenant explicit_claims_kv (JArr (map (supersede_explicit env i) ex)) s))))"

section \<open>Reading back what was written\<close>

lemma kv_array_put [simp]:
  "kv_array (put_tenant_kv t k (JArr xs) s) t k = xs"
  "k' \<noteq> k \<Longrightarrow> kv_array (put_tenant_kv t k v s) t' k' = kv_array s t' k'"
  by (simp_all add: kv_array_def get_tenant_kv_def put_tenant_kv_def)

lemma kv_array_observer_log [simp]:
  "k \<noteq> event_log_kv \<Longrightarrow> kv_array (observer_log now t kind subject detail s) t' k = kv_array s t' k"
  by (simp add: observer_log_def)

lemma claim_keys_differ [simp]:
  "explicit_claims_kv \<noteq> event_log_kv" "slack_claims_kv \<noteq> event_log_kv" "explicit_claims_kv \<noteq> slack_claims_kv"
  "slack_claims_kv \<noteq> explicit_claims_kv"
  by (simp_all add: explicit_claims_kv_def slack_claims_kv_def event_log_kv_def)

lemma opt_str_of_json_opt [simp]: "opt_str_of_json (Some (json_opt s)) = Some s"
  by (cases s) (simp_all add: json_opt_def)

lemma str_list_of_map [simp]: "str_list (map JStr xs) = Some xs"
  by (induction xs) simp_all

lemma ledger_claim_roundtrip: "ledger_claim_of_json (ledger_claim_to_json env c) = Some (relist env c)"
  by (simp add: ledger_claim_of_json_def ledger_claim_to_json_def string_field_def opt_field_def relist_def)

section \<open>The merge\<close>

lemma merge_ledger_mset:
  "mset (merge_ledger env graph slack explicit d op)
     = mset (map (relist env) (filter (claim_shown d op) (graph @ slack @ explicit)))"
  unfolding merge_ledger_def by simp

lemma merge_ledger_set:
  "set (merge_ledger env graph slack explicit d op)
     = relist env ` {c \<in> set graph \<union> set slack \<union> set explicit. claim_shown d op c}"
  unfolding merge_ledger_def by auto

lemma merge_ledger_newest_first:
  "sorted_wrt (\<lambda>a b. lc_at b \<le> lc_at a) (merge_ledger env graph slack explicit d op)"
proof -
  have "sorted_wrt (\<lambda>a b. lc_at a \<le> lc_at b)
      (sort_key lc_at (rev (map (relist env) (filter (claim_shown d op) (graph @ slack @ explicit)))))"
    using sorted_sort_key unfolding sorted_wrt_map .
  then show ?thesis unfolding merge_ledger_def sorted_wrt_rev by simp
qed

lemma relist_simps [simp]:
  "lc_claim_id (relist env c) = lc_claim_id c" "lc_intent_type (relist env c) = lc_intent_type c"
  "lc_summary (relist env c) = lc_summary c" "lc_owner_subject (relist env c) = lc_owner_subject c"
  "lc_evidence (relist env c) = lc_evidence c" "lc_is_demo (relist env c) = lc_is_demo c"
  "lc_lifecycle (relist env c) = lc_lifecycle c" "lc_source (relist env c) = lc_source c"
  by (simp_all add: relist_def)

lemma claim_shown_relist [simp]: "claim_shown d op (relist env c) = claim_shown d op c"
  by (simp add: claim_shown_def)

section \<open>The vocabulary\<close>

lemma claim_type_roundtrip: "claim_type_parse (claim_type_str k) = Some k"
  by (induction k) code_simp+

lemma claim_source_roundtrip: "claim_source_parse (claim_source_str k) = k"
  by (induction k) code_simp+

text \<open>The vocabulary is the one of the graph, and parsed alike.\<close>

fun of_intent :: "intent_type \<Rightarrow> claim_type" where
  "of_intent Ship = CShip"
| "of_intent Blocked = CBlocked"
| "of_intent Fix = CFix"
| "of_intent Explore = CExplore"
| "of_intent Review = CReview"
| "of_intent Freeze = CFreeze"
| "of_intent Other = COther"

lemma same_vocabulary:
  "claim_type_parse s = map_option of_intent (intent_parse s)" "claim_type_str (of_intent t) = intent_as_str t"
  by (simp add: claim_type_parse_def intent_parse_def Let_def) (cases t; simp)

text \<open>
  The sources the graph gives to claims on tickets and merge requests are not in the vocabulary of
  the ledger: only GitHub pull requests and issues keep theirs.
\<close>

lemma graph_sources_kept:
  "claim_source_str (claim_source_parse (infer_intent_source ev about)) = infer_intent_source ev about
     \<longleftrightarrow> infer_intent_source ev about \<in> {''github_pr'', ''github_issue''}"
  by (simp add: infer_intent_source_def Let_def claim_source_parse_def)

text \<open>A stored chat claim without user, channel and time stamp becomes a claim without evidence.\<close>

lemma claim_without_evidence: "lc_evidence (claim_from_slack_kv env uuid t (JObj [])) = []"
  by (simp add: claim_from_slack_kv_def get_str_or_def ends_with_def suffix_def Let_def)

section \<open>Captured claims\<close>

lemma keep_last_snoc: "0 < n \<Longrightarrow> x \<in> set (keep_last n (xs @ [x]))"
  by (cases "n < length (xs @ [x])") (auto simp: keep_last_def)

lemma pushed_claim_read:
  "relist env c \<in> set (explicit_claims (push_explicit_claim t (ledger_claim_to_json env c) s) t)"
proof -
  have "ledger_claim_to_json env c \<in> set (kv_array (push_explicit_claim t (ledger_claim_to_json env c) s) t explicit_claims_kv)"
    by (simp add: push_explicit_claim_def push_ring_def keep_last_snoc)
  then show ?thesis
    using ledger_claim_roundtrip [of env c]
    by (force simp: explicit_claims_def List.map_filter_def)
qed

lemma explicit_claim_fields:
  "lc_claim_id (build_explicit_claim env uuid t ty x ow ab ev ch) = ''explicit:'' @ uuid"
  "lc_intent_type (build_explicit_claim env uuid t ty x ow ab ev ch) = claim_type_str (unwrap_or (claim_type_parse ty) COther)"
  "lc_owner_subject (build_explicit_claim env uuid t ty x ow ab ev ch) = ow"
  "lc_evidence (build_explicit_claim env uuid t ty x ow ab ev ch) \<noteq> []"
  "\<not> lc_is_demo (build_explicit_claim env uuid t ty x ow ab ev ch)"
  "lc_lifecycle (build_explicit_claim env uuid t ty x ow ab ev ch) = ''open''"
  by (simp_all add: build_explicit_claim_def Let_def)

text \<open>
  A captured claim is listed. When a request to capture a claim is answered, the default ledger
  (no demo data, open claims only) of the tenant holds a claim with the new identifier and the owner
  of the request, of a type of the closed vocabulary and with evidence, whatever the graph and the
  chat claims are.
\<close>

lemma captured_claim_is_listed:
  assumes "fst (intent_claim_create env uuid tenant body s) = Inr j"
  shows "\<exists>c\<in>set (collect_intent_ledger env gid sid listed snapshot tenant False True
        (snd (intent_claim_create env uuid tenant body s))).
      lc_claim_id c = ''explicit:'' @ uuid \<and> lc_owner_subject c = ib_owner_subject body
      \<and> claim_type_parse (lc_intent_type c) \<noteq> None \<and> lc_evidence c \<noteq> [] \<and> lc_source c = ''explicit''"
proof -
  obtain ty tag where t: "body_type body = Some (ty, tag)"
    using assms by (cases "body_type body") (auto simp: intent_claim_create_def)
  obtain x ev kind subject detail now where s: "snd (intent_claim_create env uuid tenant body s)
      = observer_log now tenant kind subject detail (push_explicit_claim tenant (ledger_claim_to_json env
          (build_explicit_claim env uuid tenant ty x (ib_owner_subject body) (ib_about_node_id body) ev (ib_channel body))) s)"
    by (simp add: intent_claim_create_def t Let_def)
  define c where "c = build_explicit_claim env uuid tenant ty x (ib_owner_subject body) (ib_about_node_id body) ev (ib_channel body)"
  have m: "relist env c \<in> set (explicit_claims (snd (intent_claim_create env uuid tenant body s)) tenant)"
    using pushed_claim_read [of env c tenant s] unfolding s c_def [symmetric]
    by (simp add: explicit_claims_def)
  have sh: "claim_shown False True (relist env c)" by (simp add: claim_shown_def c_def explicit_claim_fields)
  have "relist env (relist env c) \<in> set (collect_intent_ledger env gid sid listed snapshot tenant False True
      (snd (intent_claim_create env uuid tenant body s)))"
    unfolding collect_intent_ledger_def merge_ledger_set using m sh by blast
  moreover have "lc_source c = ''explicit''" by (simp add: c_def build_explicit_claim_def Let_def)
  ultimately show ?thesis
    by (intro bexI [of _ "relist env (relist env c)"]) (simp_all add: c_def explicit_claim_fields claim_type_roundtrip)
qed

section \<open>Superseded claims\<close>

lemma json_get_insert: "is_object v \<Longrightarrow> json_get (json_insert k x v) k' = (if k' = k then Some x else json_get v k')"
  by (cases v) (simp_all add: update_conv')

lemma json_get_object: "json_get v k \<noteq> None \<Longrightarrow> is_object v"
  by (cases v) simp_all

lemma superseded_explicit_claim:
  assumes "ledger_claim_of_json (supersede_explicit env i v) = Some c" "lc_claim_id c = i"
  shows "lc_lifecycle c = ''superseded''"
proof -
  have f: "string_field w ''claim_id'' = Some (lc_claim_id c) \<and> string_field w ''lifecycle'' = Some (lc_lifecycle c)"
    if "ledger_claim_of_json w = Some c" for w
    using that by (auto simp: ledger_claim_of_json_def bind_eq_Some_conv)
  show ?thesis
  proof (cases "Option.bind (json_get v ''claim_id'') as_str = Some i")
    case True
    then have "json_get v ''claim_id'' \<noteq> None" by (cases "json_get v ''claim_id''") simp_all
    then have "is_object v" by (rule json_get_object)
    moreover have "is_object (json_insert ''lifecycle'' (JStr ''superseded'') v)"
      using \<open>is_object v\<close> by (cases v) simp_all
    ultimately show ?thesis
      using f [OF assms(1)] True by (simp add: supersede_explicit_def string_field_def json_get_insert)
  next
    case False
    then show ?thesis using f [OF assms(1)] assms(2) by (simp add: supersede_explicit_def string_field_def)
  qed
qed

lemma superseded_slack_claim:
  assumes "lc_claim_id (claim_from_slack_kv env uuid t (supersede_slack i v)) = i" "i \<noteq> ''slack:'' @ uuid"
  shows "lc_lifecycle (claim_from_slack_kv env uuid t (supersede_slack i v)) = ''superseded''"
proof -
  have keep: "slack_claim_key (supersede_slack i v) = slack_claim_key v"
  proof (cases "is_object v")
    case True
    then show ?thesis by (simp add: supersede_slack_def slack_claim_key_def json_get_insert)
  next
    case False
    then show ?thesis by (cases v) (simp_all add: supersede_slack_def)
  qed
  have "lc_claim_id (claim_from_slack_kv env uuid t w) = ''slack:'' @ unwrap_or (slack_claim_key w) uuid" for w
    by (simp add: claim_from_slack_kv_def Let_def)
  then obtain k where k: "slack_claim_key v = Some k" "i = ''slack:'' @ k"
    using assms unfolding keep [symmetric] by (cases "slack_claim_key (supersede_slack i v)") auto
  then have "is_object v" by (cases v) (simp_all add: slack_claim_key_def)
  then show ?thesis
    using k by (simp add: claim_from_slack_kv_def Let_def supersede_slack_def slack_claim_named_def json_get_insert
        get_str_or_def del: append_Cons)
qed

text \<open>
  A superseded claim is closed. When a request to supersede a claim is answered, no open claim of
  the ledger carries the identifier any more, except claims of the graph itself, which the request
  does not reach.
\<close>

lemma superseded_claim_is_closed:
  assumes "fst (intent_claim_supersede env tenant i s) = Inr r"
    and "\<And>n. i \<noteq> ''slack:'' @ sid n"
    and "c \<in> set (collect_intent_ledger env gid sid listed snapshot tenant d True (snd (intent_claim_supersede env tenant i s)))"
    and "lc_claim_id c = i"
  shows "c \<in> relist env ` set (graph_claims env gid tenant (graph_intents listed snapshot))"
proof -
  let ?s = "snd (intent_claim_supersede env tenant i s)"
  have kv: "kv_array ?s tenant explicit_claims_kv = map (supersede_explicit env i) (kv_array s tenant explicit_claims_kv)"
    "kv_array ?s tenant slack_claims_kv = map (supersede_slack i) (kv_array s tenant slack_claims_kv)"
    using assms(1) unfolding intent_claim_supersede_def Let_def
    by (cases "\<not> list_ex (\<lambda>c. Option.bind (json_get c ''claim_id'') as_str = Some i) (kv_array s tenant explicit_claims_kv)
         \<and> \<not> list_ex (slack_claim_named i) (kv_array s tenant slack_claims_kv)"; simp only: if_True if_False; simp)+
  obtain b where b: "c = relist env b" "claim_shown d True b"
    "b \<in> set (graph_claims env gid tenant (graph_intents listed snapshot)) \<union> set (slack_claims env sid ?s tenant)
       \<union> set (explicit_claims ?s tenant)"
    using assms(3) unfolding collect_intent_ledger_def merge_ledger_set by blast
  have i: "lc_claim_id b = i" and op: "lc_lifecycle b \<noteq> ''superseded''"
    using b(1,2) assms(4) by (auto simp: claim_shown_def)
  have "b \<notin> set (explicit_claims ?s tenant)"
    using superseded_explicit_claim [of env i _ b] i op unfolding explicit_claims_def kv by (auto simp: List.map_filter_def)
  moreover have "b \<notin> set (slack_claims env sid ?s tenant)"
  proof
    assume "b \<in> set (slack_claims env sid ?s tenant)"
    then obtain n v where "b = claim_from_slack_kv env (sid n) tenant (supersede_slack i v)"
      unfolding slack_claims_def kv by (auto simp: in_set_enumerate_eq)
    then show False using superseded_slack_claim [of env "sid n" tenant i v] i op assms(2) by simp
  qed
  ultimately show ?thesis using b by blast
qed

section \<open>A sample ledger\<close>

definition sample_claim_env :: claim_env where
  "sample_claim_env =
     \<lparr>ce_rfc3339 = (\<lambda>s. None), ce_naive = (\<lambda>f s. None), ce_format_ist = (\<lambda>t. ''2026-08-12T17:30:00+05:30''),
      ce_format_utc = (\<lambda>t. ''2026-08-12T12:00:00+00:00''), ce_now = 0, ce_show = (\<lambda>v. [])\<rparr>"

definition sample_claim_body :: claim_body where
  "sample_claim_body =
     \<lparr>ib_intent_type = None, ib_summary = None, ib_text = Some ''blocked on security'',
      ib_owner_subject = Some ''gu_1'', ib_about_node_id = None, ib_evidence = None, ib_channel = None\<rparr>"

definition sample_claim_store :: twin_store where
  "sample_claim_store = snd (intent_claim_create sample_claim_env ''1'' ''t'' sample_claim_body new_twin_store)"

lemma sample_body_type: "body_type sample_claim_body \<noteq> None"
  by (simp add: body_type_def sample_claim_body_def trim_def is_ascii_ws_def)

lemma create_pushes:
  assumes "body_type body \<noteq> None"
  shows "\<exists>c now kind subject detail. lc_claim_id c = ''explicit:'' @ uuid
    \<and> fst (intent_claim_create env uuid tenant body s) = Inr (ledger_claim_to_json env c)
    \<and> snd (intent_claim_create env uuid tenant body s)
        = observer_log now tenant kind subject detail (push_explicit_claim tenant (ledger_claim_to_json env c) s)"
proof -
  obtain ty tag where "body_type body = Some (ty, tag)" using assms by (cases "body_type body") auto
  then show ?thesis by (simp add: intent_claim_create_def Let_def) (metis explicit_claim_fields(1) append_Cons append_Nil)
qed

lemma captured_claim_is_listed_witness:
  "\<exists>c. c \<in> set (collect_intent_ledger sample_claim_env (\<lambda>n. ''g'') (\<lambda>n. ''s'') [] None ''t'' False True sample_claim_store)
     \<and> lc_claim_id c = ''explicit:1'' \<and> lc_owner_subject c = Some ''gu_1''"
proof -
  obtain j where "fst (intent_claim_create sample_claim_env ''1'' ''t'' sample_claim_body new_twin_store) = Inr j"
    using create_pushes [OF sample_body_type] by blast
  from captured_claim_is_listed [OF this, of "\<lambda>n. ''g''" "\<lambda>n. ''s''" "[]" None]
  show ?thesis by (auto simp: sample_claim_store_def sample_claim_body_def)
qed

lemma superseded_claim_is_closed_witness:
  "\<not> list_ex (\<lambda>c. lc_claim_id c = ''explicit:1'')
     (collect_intent_ledger sample_claim_env (\<lambda>n. ''g'') (\<lambda>n. ''s'') [] None ''t'' True True
        (snd (intent_claim_supersede sample_claim_env ''t'' ''explicit:1'' sample_claim_store)))"
proof -
  obtain claim now kind subject detail where c: "lc_claim_id claim = ''explicit:'' @ ''1''"
    "sample_claim_store = observer_log now ''t'' kind subject detail
       (push_explicit_claim ''t'' (ledger_claim_to_json sample_claim_env claim) new_twin_store)"
    using create_pushes [OF sample_body_type] unfolding sample_claim_store_def by blast
  have "kv_array new_twin_store ''t'' explicit_claims_kv = []"
    by (simp add: kv_array_def get_tenant_kv_def new_twin_store_def)
  then have "kv_array sample_claim_store ''t'' explicit_claims_kv = [ledger_claim_to_json sample_claim_env claim]"
    unfolding c(2) by (simp add: push_explicit_claim_def push_ring_def keep_last_def)
  then have "list_ex (\<lambda>c. Option.bind (json_get c ''claim_id'') as_str = Some ''explicit:1'')
      (kv_array sample_claim_store ''t'' explicit_claims_kv)"
    using c(1) by (simp add: ledger_claim_to_json_def)
  then obtain r where "fst (intent_claim_supersede sample_claim_env ''t'' ''explicit:1'' sample_claim_store) = Inr r"
    by (simp add: intent_claim_supersede_def)
  from superseded_claim_is_closed [OF this, of "\<lambda>n. ''s''" _ "\<lambda>n. ''g''" "[]" None True]
  show ?thesis by (auto simp: list_ex_iff graph_claims_def graph_intents_def)
qed

end
