(* ===== verification/Commit_Flow.thy ===== *)
theory Commit_Flow
  imports Commit_Board
begin

text \<open>
  What the service makes of the board (\<open>twin-api/src/commitments.rs\<close>, \<open>twin-api/src/main.rs\<close>): the
  morning digest, the one-way export to Linear, and the plain insights; and what holds over every
  history of the board. The environment variables, the chat client and the answer of Linear are
  parameters. The lemmas: the stored board round-trips; its invariant holds over every history and
  a closed promise is never reopened; who can close a promise; what the insights show.
\<close>

section \<open>The morning digest\<close>

definition good_morning :: string where "good_morning = ''Good morning '' @ em_dash @ '' ''"

definition format_morning_digest :: "string \<Rightarrow> commitment list \<Rightarrow> string list" where
  "format_morning_digest tenant open_cs =
     (let n = length open_cs in
      if n = 0 then [good_morning @ ''no open commitments for '' @ tenant @ ''. Quiet board. Have a focused day.'']
      else [good_morning @ show_nat n @ '' open commitment'' @ (if n = 1 then [] else ''s'') @ '':'']
        @ map (\<lambda>(i, c). show_nat (i + 1) @ ''. '' @ commitment_headline c) (enumerate 0 (take 8 open_cs))
        @ [if 8 < n then ellipsis @ ''and '' @ show_nat (n - 8) @ '' more. Open Cockpit '' @ right_arrow @ '' Commitments.''
           else ''Mark done in Cockpit when finished, or say done/shipped in the channel.''])"

text \<open>The environment of the digest, with the hours already parsed.\<close>

record send_env =
  de_hour_ist :: "nat option"
  de_hour_utc :: "nat option"
  de_tenant :: string
  de_channel :: string
  de_enabled :: bool

definition digest_hour :: "send_env \<Rightarrow> nat" where
  "digest_hour env =
     (case de_hour_ist env of
        Some h \<Rightarrow> h
      | None \<Rightarrow> (case de_hour_utc env of Some h \<Rightarrow> (h + 5) mod 24 | None \<Rightarrow> 18))"

type_synonym channel_post = "string \<Rightarrow> string \<Rightarrow> string + (string \<times> string)"

definition open_commitments :: "twin_store \<Rightarrow> string \<Rightarrow> commitment list" where
  "open_commitments s tenant = filter (\<lambda>c. cm_status c = ''open'') (load_commitments s tenant)"

text \<open>The answer: whether the digest was posted, and the detail. A failed post is not an error.\<close>

definition send_commitment_digest ::
  "channel_post \<Rightarrow> send_env \<Rightarrow> string \<Rightarrow> string \<Rightarrow> bool \<Rightarrow> twin_store \<Rightarrow> (bool \<times> string) \<times> twin_store" where
  "send_commitment_digest post env now tenant force s =
     (let open_cs = open_commitments s tenant;
          text = join_with newline (format_morning_digest tenant open_cs);
          (posted, detail) =
            (if de_channel env \<noteq> [] \<and> (force \<or> de_enabled env)
             then (case post (de_channel env) text of
                     Inr (ch, ts) \<Rightarrow> (True, ''posted to '' @ ch @ '' ts='' @ ts)
                   | Inl e \<Rightarrow> (False, ''slack post failed: '' @ e))
             else (False, ''preview only '' @ em_dash @ '' set COMMITMENT_DIGEST_CHANNEL to post to Slack''))
      in ((posted, detail),
          observer_log now tenant ''commitment_digest'' (if posted then ''sent'' else ''preview'')
            (JObj [(''open'', JInt (int (length open_cs))), (''detail'', JStr detail), (''force'', JBool force)]) s))"

definition digest_meta_kv :: string where "digest_meta_kv = ''commitment_digest_meta''"

definition last_digest_day :: "twin_store \<Rightarrow> string \<Rightarrow> string option" where
  "last_digest_day s tenant =
     Option.bind (get_tenant_kv s tenant digest_meta_kv) (\<lambda>m. Option.bind (json_get m ''last_day'') as_str)"

text \<open>The scheduler's call: \<open>hour\<close> and \<open>day\<close> are those of the clock in IST.\<close>

definition morning_digest ::
  "channel_post \<Rightarrow> send_env \<Rightarrow> nat \<Rightarrow> string \<Rightarrow> string \<Rightarrow> string \<Rightarrow> twin_store \<Rightarrow> twin_store" where
  "morning_digest post env hour day now_ist now s =
     (if hour \<noteq> digest_hour env then s
      else if last_digest_day s (de_tenant env) = Some day then s
      else put_tenant_kv (de_tenant env) digest_meta_kv
             (JObj [(''last_day'', JStr day), (''sent_at'', JStr now_ist), (''timezone'', JStr ''Asia/Kolkata'')])
             (snd (send_commitment_digest post env now (de_tenant env) False s)))"

section \<open>Export to Linear\<close>

definition esc_graphql :: "string \<Rightarrow> string" where
  "esc_graphql s = concat (map (\<lambda>c.
     if c = CHR 0x5C then [CHR 0x5C, CHR 0x5C]
     else if c = CHR 0x22 then [CHR 0x5C, CHR 0x22]
     else if c = CHR 0x0A then [CHR 0x5C, CHR ''n'']
     else [c]) s)"

definition linear_title :: "commitment \<Rightarrow> string" where
  "linear_title c = ''Commitment: '' @ take_chars 120 (cm_text c)"

definition linear_description :: "commitment \<Rightarrow> string" where
  "linear_description c =
     (let nl = newline in
      ''**From AI Manager commitments** (not a full ticket system)'' @ nl @ nl @
      ''**Who promised:** '' @ promiser_display c @ '' ('' @ cm_promiser c @ '')'' @ nl @
      ''**Owed to:** '' @ unwrap_or (promisee_display c) ''team'' @ nl @
      ''**Source:** '' @ cm_source c @ nl @
      ''**Commitment id:** `'' @ cm_id c @ ''`'' @ nl @ nl @ cm_text c)"

definition linear_query :: "string \<Rightarrow> commitment \<Rightarrow> string" where
  "linear_query team c =
     (let q = [CHR 0x22] in
      ''mutation { issueCreate(input: { teamId: '' @ q @ esc_graphql team @ q @ '', title: '' @ q
      @ esc_graphql (linear_title c) @ q @ '', description: '' @ q @ esc_graphql (linear_description c) @ q
      @ '' }) { success issue { id identifier url } } }'')"

text \<open>Linear's side: the answer to a query (an error of the request or a JSON body), and JSON text.\<close>

record linear_env =
  le_api_key :: string
  le_team_id :: string
  le_call :: "string \<Rightarrow> string + json"
  le_show :: "json \<Rightarrow> string"

definition linear_mark :: "string \<Rightarrow> string \<Rightarrow> string \<Rightarrow> string \<Rightarrow> commitment \<Rightarrow> commitment" where
  "linear_mark i issue ident url c =
     (if cm_id c = i
      then c\<lparr>cm_linear_issue_id := Some (if ident = [] then issue else ident), cm_linear_url := Some url,
             cm_evidence := cm_evidence c @ [''linear:'' @ issue]\<rparr>
      else c)"

definition issue_field :: "json \<Rightarrow> string \<Rightarrow> string" where
  "issue_field body k =
     unwrap_or (Option.bind (Option.bind (json_path body [''data'', ''issueCreate'', ''issue'']) (\<lambda>i. json_get i k)) as_str) []"

definition export_commitment_linear ::
  "linear_env \<Rightarrow> string \<Rightarrow> string \<Rightarrow> string \<Rightarrow> twin_store \<Rightarrow> (string + json) \<times> twin_store" where
  "export_commitment_linear env tenant i now s =
     (if le_api_key env = [] \<or> le_team_id env = []
      then (Inl (''Linear export needs LINEAR_API_KEY and LINEAR_TEAM_ID in staging env (optional). ''
                 @ ''Commitment stays the source of truth.''), s)
      else
        (let cs = load_commitments s tenant in
         case find (\<lambda>c. cm_id c = i) cs of
           None \<Rightarrow> (Inl ''commitment not found'', s)
         | Some c \<Rightarrow>
             (case cm_linear_url c of
                Some url \<Rightarrow> (Inr (JObj [(''ok'', JBool True), (''already_exported'', JBool True),
                   (''linear_url'', JStr url), (''linear_issue_id'', json_opt (cm_linear_issue_id c))]), s)
              | None \<Rightarrow>
                  (case le_call env (linear_query (le_team_id env) c) of
                     Inl e \<Rightarrow> (Inl e, s)
                   | Inr body \<Rightarrow>
                       (case json_get body ''errors'' of
                          Some e \<Rightarrow> (Inl (''Linear GraphQL error: '' @ le_show env e), s)
                        | None \<Rightarrow>
                            (let issue = issue_field body ''id''; url = issue_field body ''url'';
                                 ident = issue_field body ''identifier''
                             in if issue = [] then (Inl (''Linear create failed: '' @ le_show env body), s)
                                else (Inr (JObj [(''ok'', JBool True),
                                        (''linear_issue_id'', JStr (if ident = [] then issue else ident)),
                                        (''linear_url'', JStr url)]),
                                      observer_log now tenant ''commitment_export_linear'' i
                                        (JObj [(''linear_url'', JStr url), (''identifier'', JStr ident)])
                                        (save_commitments tenant (map (linear_mark i issue ident url) cs) s))))))))"

section \<open>Plain insights\<close>

definition insight :: "string \<Rightarrow> string \<Rightarrow> string \<Rightarrow> string \<Rightarrow> (string \<times> json) list \<Rightarrow> json" where
  "insight kind priority text action extra =
     JObj ([(''kind'', JStr kind), (''priority'', JStr priority), (''text'', JStr text), (''action'', JStr action)] @ extra)"

definition commitment_insight :: "commitment \<Rightarrow> json" where
  "commitment_insight c =
     insight ''commitment'' ''high'' (commitment_headline c)
       (''Ask '' @ promiser_display c @ '' if this is still open, or mark done when finished.'')
       [(''id'', JStr (cm_id c))]"

definition json_str_or :: "json \<Rightarrow> string \<Rightarrow> string \<Rightarrow> string" where
  "json_str_or v k d = unwrap_or (Option.bind (json_get v k) as_str) d"

definition not_demo :: "json \<Rightarrow> bool" where
  "not_demo v \<longleftrightarrow> Option.bind (json_get v ''is_demo'') as_bool \<noteq> Some True"

definition live_claim :: "json \<Rightarrow> bool" where
  "live_claim c \<longleftrightarrow> not_demo c \<and> json_str_or c ''lifecycle'' ''open'' = ''open''"

definition insight_claim_type :: "json \<Rightarrow> string" where "insight_claim_type c = json_str_or c ''intent_type'' ''OTHER''"

definition claim_line :: "person_dir_entry list \<Rightarrow> json \<Rightarrow> string" where
  "claim_line dir c =
     claim_insight_line (insight_claim_type c)
       (unwrap_or (Option.bind (or_else (json_get c ''summary'') (json_get c ''text_preview'')) as_str) [])
       (human_owner_label (json_str_or c ''owner_subject'' []) dir) False"

definition urgent_claim :: "json \<Rightarrow> bool" where
  "urgent_claim c \<longleftrightarrow> insight_claim_type c = ''BLOCKED'' \<or> insight_claim_type c = ''FREEZE''"

definition urgent_insight :: "person_dir_entry list \<Rightarrow> json \<Rightarrow> json" where
  "urgent_insight dir c =
     insight ''claim'' ''high'' (claim_line dir c)
       (if insight_claim_type c = ''BLOCKED'' then ''Unblock: name who can help, or drop the claim if it'' @ [CHR 39] @ ''s stale.''
        else ''Confirm whether the hold still applies; tell the team.'') []"

definition watch_insight :: "person_dir_entry list \<Rightarrow> json \<Rightarrow> json" where
  "watch_insight dir c =
     insight ''claim'' ''medium'' (claim_line dir c) ''Keep an eye on follow-through in the next day or two.'' []"

definition conflict_insight :: "json \<Rightarrow> json" where
  "conflict_insight cf =
     insight ''conflict'' ''high''
       (conflict_insight_line (json_str_or cf ''kind'' ''conflict'') (json_str_or cf ''summary'' ''team conflict'') False)
       ''Get the owners in one thread and pick ship vs hold (or split ownership).'' []"

definition trajectory_win :: "nat \<Rightarrow> json" where
  "trajectory_win n =
     insight ''trajectory'' ''info''
       (''The team has logged about '' @ show_nat n @ '' commits on the work graph recently '' @ em_dash
        @ '' motion is real even when status is quiet.'')
       ''Use digests to turn that motion into a short story for stakeholders.'' []"

definition digest_win :: "nat \<Rightarrow> json" where
  "digest_win p =
     insight ''status'' ''info''
       (show_nat p @ '' people already have real status digests '' @ em_dash @ '' multi-person status is working.'')
       ''Champion: scan digests once, not a standup round-robin.'' []"

record plain_insights =
  pi_headline :: string
  pi_act_on_today :: "json list"
  pi_worth_watching :: "json list"
  pi_good_news :: "json list"

definition oldest_open :: "commitment list \<Rightarrow> commitment list" where
  "oldest_open cs = take 8 (sort_key cm_created_at (filter (\<lambda>c. cm_status c = ''open'') cs))"

definition build_plain_insights ::
  "json list \<Rightarrow> json list \<Rightarrow> commitment list \<Rightarrow> nat option \<Rightarrow> nat option \<Rightarrow> person_dir_entry list \<Rightarrow> plain_insights" where
  "build_plain_insights claims conflicts cs commit_count people dir =
     (let live = filter live_claim claims;
          act = take 8 (map commitment_insight (oldest_open cs)
                  @ map (urgent_insight dir) (filter urgent_claim live)
                  @ map conflict_insight (filter not_demo conflicts));
          watch = take 6 (map (watch_insight dir)
                    (filter (\<lambda>c. \<not> urgent_claim c \<and> (insight_claim_type c = ''SHIP'' \<or> insight_claim_type c = ''FIX'')) live));
          wins = take 4 ((case commit_count of Some n \<Rightarrow> if 0 < n then [trajectory_win n] else [] | None \<Rightarrow> [])
                   @ (case people of Some p \<Rightarrow> if 2 \<le> p then [digest_win p] else [] | None \<Rightarrow> []))
      in \<lparr>pi_headline =
            (if act \<noteq> [] then show_nat (length act) @ '' thing'' @ (if length act = 1 then [] else ''s'') @ '' need attention today.''
             else if watch \<noteq> [] then ''Nothing urgent '' @ em_dash @ '' a few items worth a light check.''
             else ''Quiet board: no open commitments or live blockers in the ledger yet. Capture promises from Slack or the Capture button.''),
          pi_act_on_today = act, pi_worth_watching = watch, pi_good_news = wins\<rparr>)"

section \<open>The stored board\<close>

lemma opt_str_json_opt [simp]: "opt_str_of_json (Some (json_opt s)) = Some s"
  by (cases s) (simp_all add: json_opt_def)

lemma str_list_map [simp]: "str_list (map JStr xs) = Some xs"
  by (induction xs) simp_all

lemma commitment_storage_roundtrip: "commitment_of_json (to_storage_json c) = Some c"
  by (simp add: commitment_of_json_def to_storage_json_def string_field_def opt_field_def)

lemma keep_last_map: "keep_last n (map f xs) = map f (keep_last n xs)"
  by (simp add: keep_last_def drop_map)

lemma set_keep_last: "set (keep_last n xs) \<subseteq> set xs"
  by (auto simp: keep_last_def dest: in_set_dropD)

lemma length_keep_last: "length (keep_last n xs) \<le> n"
  by (simp add: keep_last_def)

lemma distinct_keep_last: "distinct (map f xs) \<Longrightarrow> distinct (map f (keep_last n xs))"
  by (simp add: keep_last_def drop_map [symmetric])

lemma keep_last_short: "length xs \<le> n \<Longrightarrow> keep_last n xs = xs"
  by (simp add: keep_last_def)

lemma map_filter_stored: "List.map_filter commitment_of_json (map to_storage_json cs) = cs"
  by (induction cs) (simp_all add: commitment_storage_roundtrip List.map_filter_simps)

lemma load_save [simp]:
  "load_commitments (save_commitments tenant cs s) tenant = keep_last commitments_max cs"
  by (simp add: load_commitments_def save_commitments_def kv_array_def get_tenant_kv_def put_tenant_kv_def
      keep_last_map map_filter_stored)

lemma load_other_key [simp]:
  "k \<noteq> commitments_kv \<Longrightarrow> load_commitments (put_tenant_kv t k v s) tenant = load_commitments s tenant"
  by (simp add: load_commitments_def kv_array_def get_tenant_kv_def put_tenant_kv_def)

lemma load_observer_log [simp]:
  "load_commitments (observer_log now t kind subject detail s) tenant = load_commitments s tenant"
  by (simp add: observer_log_def event_log_kv_def commitments_kv_def)

section \<open>What an operation may do to the board\<close>

definition well_formed :: "commitment \<Rightarrow> bool" where
  "well_formed c \<longleftrightarrow> cm_status c \<in> {''open'', ''done'', ''dismissed''}
     \<and> (cm_status c = ''open'' \<longleftrightarrow> cm_resolved_at c = None)"

definition board_ok :: "commitment list \<Rightarrow> bool" where
  "board_ok cs \<longleftrightarrow> length cs \<le> commitments_max \<and> distinct (map cm_id cs) \<and> list_all well_formed cs"

text \<open>A commitment may only move on: same promise, and never back to open.\<close>

definition moved_on :: "commitment \<Rightarrow> commitment \<Rightarrow> bool" where
  "moved_on c c' \<longleftrightarrow> cm_id c' = cm_id c \<and> cm_text c' = cm_text c \<and> (well_formed c \<longrightarrow> well_formed c')
     \<and> (cm_status c \<noteq> ''open'' \<longrightarrow> cm_status c' \<noteq> ''open'')"

lemma moved_on_refl [simp]: "moved_on c c"
  by (simp add: moved_on_def)

inductive board_effect :: "string option \<Rightarrow> commitment list \<Rightarrow> commitment list \<Rightarrow> bool" where
  keep: "board_effect i cs cs"
| move: "list_all2 moved_on cs cs' \<Longrightarrow> board_effect i cs (keep_last commitments_max cs')"
| add: "cm_status c = ''open'' \<Longrightarrow> cm_resolved_at c = None \<Longrightarrow> i = Some (cm_id c)
    \<Longrightarrow> board_effect i cs (keep_last commitments_max (cs @ [c]))"

lemma enumerate_moved:
  "(\<And>n c. moved_on c (f n c)) \<Longrightarrow> list_all2 moved_on cs (map (\<lambda>(n, c). f n c) (enumerate k cs))"
  by (induction cs arbitrary: k) simp_all

lemma moved_close: "cm_status c = ''open'' \<Longrightarrow> moved_on c (close_commitment now ts text c)"
  by (simp add: moved_on_def close_commitment_def well_formed_def)

lemma resolve_list_moved: "list_all2 moved_on cs (resolve_list subject label channel text clk ts cs)"
  unfolding resolve_list_def by (rule enumerate_moved) (simp add: moved_close closed_by_def)

lemma set_status_moved:
  "status = ''done'' \<or> status = ''dismissed'' \<Longrightarrow> list_all2 moved_on cs (mark_status i status clk cs)"
  unfolding mark_status_def by (rule enumerate_moved) (auto simp: moved_on_def well_formed_def)

lemma linear_mark_moved: "list_all2 moved_on cs (map (linear_mark i issue ident url) cs)"
proof -
  have "moved_on c (linear_mark i issue ident url c)" for c
    by (auto simp: moved_on_def linear_mark_def well_formed_def)
  then show ?thesis by (simp add: list_all2_map2 list_all2_same)
qed

lemma build_open:
  "cm_status (build_commitment u uid now t p pl q ql x src ch ev cf) = ''open''"
  "cm_resolved_at (build_commitment u uid now t p pl q ql x src ch ev cf) = None"
  "cm_id (build_commitment u uid now t p pl q ql x src ch ev cf) = cmt_id uid"
  by (simp_all add: build_commitment_def)

lemma added_effect:
  "board_effect (Some (cmt_id uid)) cs
     (keep_last commitments_max (cs @ [build_commitment u uid now t p pl q ql x src ch ev cf]))"
  by (rule board_effect.add) (simp_all add: build_open)

lemma moved_effect: "list_all2 moved_on cs cs' \<Longrightarrow> board_effect i cs (keep_last commitments_max cs')"
  by (rule board_effect.move)

lemma maybe_handle_effect:
  "board_effect (Some (cmt_id uid)) (load_commitments s tenant)
     (load_commitments (maybe_handle_commitment u tenant subject text channel ts is_dm uid clk s) tenant)"
  unfolding maybe_handle_commitment_def Let_def
  by (cases "extract_commitment u text")
    (simp_all add: board_effect.keep added_effect moved_effect resolve_list_moved split: prod.split)

lemma create_effect:
  "board_effect (Some (cmt_id uid)) (load_commitments s tenant)
     (load_commitments (snd (create_commitment u cal tenant body uid now s)) tenant)"
  unfolding create_commitment_def Let_def
  by (simp add: board_effect.keep added_effect split: prod.split)

lemma status_effect:
  "status = ''done'' \<or> status = ''dismissed'' \<Longrightarrow> board_effect i (load_commitments s tenant)
     (load_commitments (snd (set_commitment_status tenant j status clk now s)) tenant)"
  unfolding set_commitment_status_def Let_def
  by (simp add: board_effect.keep moved_effect set_status_moved)

lemma export_effect:
  "board_effect j (load_commitments s tenant)
     (load_commitments (snd (export_commitment_linear env tenant i now s)) tenant)"
  unfolding export_commitment_linear_def Let_def
  by (simp add: board_effect.keep moved_effect linear_mark_moved split: option.split sum.split)

lemma digest_board: "load_commitments (morning_digest post env hour day now_ist now s) tenant = load_commitments s tenant"
  by (auto simp: morning_digest_def send_commitment_digest_def Let_def digest_meta_kv_def commitments_kv_def
      split: prod.split sum.split)

section \<open>Histories\<close>

datatype board_op =
  HearMessage string string string string bool string "nat \<Rightarrow> string"
| CreateOne commitment_body string string
| CompleteOne string "nat \<Rightarrow> string" string
| DismissOne string "nat \<Rightarrow> string" string
| ExportOne linear_env string string
| MorningDigest channel_post send_env nat string string string

fun board_step :: "unicode_tables \<Rightarrow> ist_calendar \<Rightarrow> string \<Rightarrow> board_op \<Rightarrow> twin_store \<Rightarrow> twin_store" where
  "board_step u cal tenant (HearMessage subject text channel ts is_dm uid clk) s =
     maybe_handle_commitment u tenant subject text channel ts is_dm uid clk s"
| "board_step u cal tenant (CreateOne body uid now) s = snd (create_commitment u cal tenant body uid now s)"
| "board_step u cal tenant (CompleteOne i clk now) s = snd (complete_commitment tenant i clk now s)"
| "board_step u cal tenant (DismissOne i clk now) s = snd (dismiss_commitment tenant i clk now s)"
| "board_step u cal tenant (ExportOne env i now) s = snd (export_commitment_linear env tenant i now s)"
| "board_step u cal tenant (MorningDigest post env hour day now_ist now) s =
     morning_digest post env hour day now_ist now s"

definition board_run :: "unicode_tables \<Rightarrow> ist_calendar \<Rightarrow> string \<Rightarrow> board_op list \<Rightarrow> twin_store \<Rightarrow> twin_store" where
  "board_run u cal tenant ops s = fold (board_step u cal tenant) ops s"

text \<open>The identifier an operation may use for a new commitment: a fresh UUID.\<close>

fun op_id :: "board_op \<Rightarrow> string option" where
  "op_id (HearMessage subject text channel ts is_dm uid clk) = Some (cmt_id uid)"
| "op_id (CreateOne body uid now) = Some (cmt_id uid)"
| "op_id _ = None"

definition fresh_ids :: "board_op list \<Rightarrow> commitment list \<Rightarrow> bool" where
  "fresh_ids ops cs \<longleftrightarrow> distinct (List.map_filter op_id ops)
     \<and> set (List.map_filter op_id ops) \<inter> cm_id ` set cs = {}"

lemma board_step_effect:
  "board_effect (op_id op) (load_commitments s tenant) (load_commitments (board_step u cal tenant op s) tenant)"
proof (cases op)
  case (HearMessage subject msg channel ts is_dm uid clk)
  then show ?thesis by (simp only: board_step.simps op_id.simps maybe_handle_effect)
next
  case (CreateOne body uid now)
  then show ?thesis by (simp only: board_step.simps op_id.simps create_effect)
next
  case (CompleteOne i clk now)
  then show ?thesis by (simp only: board_step.simps op_id.simps complete_commitment_def status_effect simp_thms)
next
  case (DismissOne i clk now)
  then show ?thesis by (simp only: board_step.simps op_id.simps dismiss_commitment_def status_effect simp_thms)
next
  case (ExportOne env i now)
  then show ?thesis by (simp only: board_step.simps op_id.simps export_effect)
next
  case (MorningDigest post env hour day now_ist now)
  then show ?thesis by (simp only: board_step.simps op_id.simps digest_board board_effect.keep)
qed

text \<open>A board stays well formed; what is on it later was on it before, moved on, or is new.\<close>

definition came_from :: "string set \<Rightarrow> commitment list \<Rightarrow> commitment list \<Rightarrow> bool" where
  "came_from new cs cs' \<longleftrightarrow>
     (\<forall>c'\<in>set cs'. (\<exists>c\<in>set cs. moved_on c c') \<or> cm_id c' \<in> new \<and> cm_id c' \<notin> cm_id ` set cs)"

lemma moved_ids: "list_all2 moved_on cs cs' \<Longrightarrow> map cm_id cs' = map cm_id cs"
  by (induction rule: list_all2_induct) (simp_all add: moved_on_def)

lemma moved_well_formed: "list_all2 moved_on cs cs' \<Longrightarrow> list_all well_formed cs \<Longrightarrow> list_all well_formed cs'"
  by (induction rule: list_all2_induct) (simp_all add: moved_on_def)

lemma moved_source: "list_all2 moved_on cs cs' \<Longrightarrow> c' \<in> set cs' \<Longrightarrow> \<exists>c\<in>set cs. moved_on c c'"
  by (induction rule: list_all2_induct) auto

lemma keep_last_ok:
  "distinct (map cm_id cs) \<Longrightarrow> list_all well_formed cs \<Longrightarrow> board_ok (keep_last commitments_max cs)"
  using set_keep_last [of commitments_max cs] length_keep_last [of commitments_max cs]
  by (auto simp: board_ok_def distinct_keep_last list_all_iff)

lemma effect_ok:
  assumes "board_effect i cs cs'" "board_ok cs" "\<And>x. i = Some x \<Longrightarrow> x \<notin> cm_id ` set cs"
  shows "board_ok cs' \<and> came_from (set_option i) cs cs'"
  using assms(1)
proof cases
  case keep
  have "\<exists>c\<in>set cs. moved_on c c'" if "c' \<in> set cs" for c' using that moved_on_refl by blast
  then show ?thesis using assms(2) keep by (simp add: came_from_def)
next
  case (move ds)
  have "board_ok (keep_last commitments_max ds)"
    using assms(2) moved_ids [OF move(2)] moved_well_formed [OF move(2)]
    by (intro keep_last_ok) (simp_all add: board_ok_def)
  moreover have "\<exists>c\<in>set cs. moved_on c c'" if "c' \<in> set (keep_last commitments_max ds)" for c'
    using moved_source [OF move(2) subsetD [OF set_keep_last that]] .
  ultimately show ?thesis using move(1) by (simp add: came_from_def)
next
  case (add c)
  have new: "cm_id c \<notin> cm_id ` set cs" using assms(3) add(4) by blast
  have "board_ok (keep_last commitments_max (cs @ [c]))"
    using assms(2) new add(2,3) by (intro keep_last_ok) (auto simp: board_ok_def well_formed_def)
  moreover have "(\<exists>d\<in>set cs. moved_on d c') \<or> c' = c" if "c' \<in> set (keep_last commitments_max (cs @ [c]))" for c'
    using that set_keep_last [of commitments_max "cs @ [c]"] moved_on_refl by fastforce
  ultimately show ?thesis using add(1,4) new unfolding came_from_def by auto
qed

lemma moved_on_trans: "moved_on a b \<Longrightarrow> moved_on b c \<Longrightarrow> moved_on a c"
  by (simp add: moved_on_def)

lemma moved_on_id: "moved_on a b \<Longrightarrow> cm_id b = cm_id a"
  by (simp add: moved_on_def)

lemma came_from_ids: "came_from new cs cs' \<Longrightarrow> cm_id ` set cs' \<subseteq> cm_id ` set cs \<union> new"
  unfolding came_from_def using moved_on_id by fastforce

lemma came_from_trans:
  assumes "came_from A as bs" "came_from B bs cs" "B \<inter> cm_id ` set as = {}"
  shows "came_from (A \<union> B) as cs"
  unfolding came_from_def
proof
  fix c assume "c \<in> set cs"
  then consider b where "b \<in> set bs" "moved_on b c" | "cm_id c \<in> B"
    using assms(2) unfolding came_from_def by blast
  then show "(\<exists>a\<in>set as. moved_on a c) \<or> cm_id c \<in> A \<union> B \<and> cm_id c \<notin> cm_id ` set as"
  proof cases
    case 1
    then consider a where "a \<in> set as" "moved_on a b" | "cm_id b \<in> A" "cm_id b \<notin> cm_id ` set as"
      using assms(1) unfolding came_from_def by blast
    then show ?thesis
      using moved_on_trans [OF _ 1(2)] moved_on_id [OF 1(2)] by cases auto
  qed (use assms(3) in blast)
qed

lemma board_run_ok:
  "board_ok (load_commitments s tenant) \<Longrightarrow> fresh_ids ops (load_commitments s tenant) \<Longrightarrow>
   board_ok (load_commitments (board_run u cal tenant ops s) tenant)
   \<and> came_from (set (List.map_filter op_id ops)) (load_commitments s tenant)
       (load_commitments (board_run u cal tenant ops s) tenant)"
proof (induction ops arbitrary: s)
  case Nil
  have "came_from {} cs cs" for cs using moved_on_refl unfolding came_from_def by blast
  then show ?case using Nil by (simp add: board_run_def List.map_filter_simps)
next
  case (Cons op ops)
  let ?cs = "load_commitments s tenant" and ?s = "board_step u cal tenant op s"
  let ?ds = "load_commitments ?s tenant"
  have ids: "set (List.map_filter op_id (op # ops)) = set_option (op_id op) \<union> set (List.map_filter op_id ops)"
    by (cases "op_id op") (simp_all add: List.map_filter_simps)
  have new: "x \<notin> cm_id ` set ?cs" if "op_id op = Some x" for x
    using Cons.prems(2) ids that unfolding fresh_ids_def by auto
  have s: "board_ok ?ds \<and> came_from (set_option (op_id op)) ?cs ?ds"
    by (rule effect_ok [OF board_step_effect Cons.prems(1)]) (use new in blast)
  have d: "distinct (List.map_filter op_id ops)" "set_option (op_id op) \<inter> set (List.map_filter op_id ops) = {}"
    using Cons.prems(2) by (cases "op_id op"; simp add: fresh_ids_def List.map_filter_simps)+
  have "set (List.map_filter op_id ops) \<inter> cm_id ` set ?ds = {}"
    using came_from_ids [OF conjunct2 [OF s]] d(2) Cons.prems(2) ids unfolding fresh_ids_def by blast
  then have f: "fresh_ids ops ?ds" using d(1) unfolding fresh_ids_def by blast
  note r = Cons.IH [OF conjunct1 [OF s] f]
  have "came_from (set_option (op_id op) \<union> set (List.map_filter op_id ops)) ?cs
      (load_commitments (board_run u cal tenant ops ?s) tenant)"
    using s r Cons.prems(2) ids unfolding fresh_ids_def by (intro came_from_trans) auto
  then show ?case using r unfolding ids by (simp add: board_run_def)
qed


section \<open>Who closes a promise\<close>

lemma resolve_list_closes:
  assumes "c \<in> set cs" "closed_by subject label channel text c"
  shows "\<exists>c'\<in>set (resolve_list subject label channel text clk ts cs).
    cm_id c' = cm_id c \<and> cm_status c' = ''done''
      \<and> cm_resolve_evidence c' = Some (''slack:'' @ ts @ '' '' @ take_chars 120 text)"
proof -
  obtain n where n: "n < length cs" "cs ! n = c" using assms(1) by (auto simp: in_set_conv_nth)
  let ?rs = "resolve_list subject label channel text clk ts cs"
  have "n < length ?rs" using n(1) by (simp add: resolve_list_def)
  moreover have "?rs ! n = close_commitment (clk n) ts text c"
    using n assms(2) by (simp add: resolve_list_def nth_enumerate_eq)
  ultimately have "close_commitment (clk n) ts text c \<in> set ?rs" by (metis nth_mem)
  then show ?thesis by (rule bexI [rotated]) (simp add: close_commitment_def)
qed

text \<open>
  Anybody can close anybody's promise in a channel: an open commitment recorded in a channel is
  marked done by every message there that reads as finished work, whoever sends it.
\<close>

lemma anyone_can_close_in_channel:
  assumes "c \<in> set (load_commitments s tenant)" "board_ok (load_commitments s tenant)"
    and "cm_status c = ''open''" "cm_channel c = Some channel"
    and "message_resolves_commitment msg (cm_text c)"
  shows "\<exists>c'\<in>set (load_commitments (maybe_handle_commitment u tenant anyone msg channel ts is_dm uid clk s) tenant).
    cm_id c' = cm_id c \<and> cm_status c' = ''done''
      \<and> cm_resolve_evidence c' = Some (''slack:'' @ ts @ '' '' @ take_chars 120 msg)"
proof -
  let ?label = "speaker_label (build_person_directory s tenant) anyone"
  have cl: "closed_by anyone ?label channel msg c" using assms by (simp add: closed_by_def)
  then have "list_ex (closed_by anyone ?label channel msg) (load_commitments s tenant)"
    using assms(1) by (auto simp: list_ex_iff)
  moreover have "is_resolution_phrase (to_ascii_lowercase msg)" using assms(5) by (rule resolution_only_by_phrase)
  moreover have "length (resolve_list anyone ?label channel msg clk ts (load_commitments s tenant)) \<le> commitments_max"
    using assms(2) by (simp add: resolve_list_def board_ok_def)
  ultimately have "load_commitments (maybe_handle_commitment u tenant anyone msg channel ts is_dm uid clk s) tenant
      = resolve_list anyone ?label channel msg clk ts (load_commitments s tenant)"
    unfolding maybe_handle_commitment_def by (simp add: keep_last_short Let_def)
  then show ?thesis using resolve_list_closes [OF assms(1) cl] by simp
qed

section \<open>Digest and insights\<close>

text \<open>A digest that could not be posted still counts as sent for the day.\<close>

lemma failed_digest_not_retried:
  assumes "hour = digest_hour env"
  shows "last_digest_day (morning_digest post env hour day now_ist now s) (de_tenant env) = Some day"
  using assms
  by (auto simp: morning_digest_def last_digest_day_def get_tenant_kv_def put_tenant_kv_def)

text \<open>A full board drops its oldest entry for a new one, whatever its status.\<close>

lemma full_board_drops_oldest:
  "length cs = commitments_max \<Longrightarrow>
   load_commitments (save_commitments tenant (cs @ [c]) s) tenant = tl cs @ [c]"
  by (simp add: keep_last_def drop_Suc Suc_diff_le commitments_max_def)

lemma insert_insight_kind: "json_get (insight k p t a x) ''kind'' = Some (JStr k)"
  by (simp add: insight_def)

text \<open>
  The insights show at most eight things to act on, six to watch and four good news. Open
  promises come first, the oldest first: with eight or more open ones nothing else is shown, so no
  blocked or frozen claim and no conflict appears; with fewer, the rest is filled with the urgent
  live claims and then the conflicts, demo data excluded.
\<close>

lemma insights_put_promises_first:
  fixes claims conflicts cs commits people dir
  defines "i \<equiv> build_plain_insights claims conflicts cs commits people dir"
    and "live \<equiv> filter (\<lambda>c. not_demo c \<and> json_str_or c ''lifecycle'' ''open'' = ''open'') claims"
    and "promises \<equiv> sort_key cm_created_at (filter (\<lambda>c. cm_status c = ''open'') cs)"
  shows "length (pi_act_on_today i) \<le> 8 \<and> length (pi_worth_watching i) \<le> 6 \<and> length (pi_good_news i) \<le> 4
    \<and> take (length promises) (pi_act_on_today i) = map commitment_insight (take 8 promises)
    \<and> (length promises < 8 \<or> pi_act_on_today i = map commitment_insight (take 8 promises))
    \<and> drop (length promises) (pi_act_on_today i)
        = take (8 - length promises) (map (urgent_insight dir) (filter urgent_claim live)
            @ map conflict_insight (filter not_demo conflicts))"
proof -
  have live: "filter live_claim claims = live" by (simp add: live_def live_claim_def [abs_def])
  define rest where "rest = map (urgent_insight dir) (filter urgent_claim live) @ map conflict_insight (filter not_demo conflicts)"
  have act: "pi_act_on_today i = map commitment_insight (take 8 promises) @ take (8 - length promises) rest"
    by (simp add: i_def build_plain_insights_def Let_def live oldest_open_def promises_def rest_def min_def)
  have "length (pi_worth_watching i) \<le> 6" "length (pi_good_news i) \<le> 4"
    by (simp_all add: i_def build_plain_insights_def Let_def)
  then show ?thesis
    unfolding act rest_def [symmetric] by (cases "length promises < 8") (simp_all add: take_map)
qed

section \<open>A sample board\<close>

definition sample_promise :: commitment where
  "sample_promise =
     \<lparr>cm_id = ''cmt:1'', cm_tenant_id = ''t'', cm_promiser = ''gu_alice'', cm_promiser_label = Some ''Alice'',
      cm_promisee = None, cm_promisee_label = None, cm_text = ''Send the deck to Carol'', cm_status = ''open'',
      cm_source = ''slack_channel'', cm_channel = Some ''C1'', cm_evidence = [], cm_confidence = 88,
      cm_created_at = ''2026-08-12T12:00:00Z'', cm_resolved_at = None, cm_resolve_evidence = None,
      cm_linear_issue_id = None, cm_linear_url = None\<rparr>"

definition sample_board :: twin_store where
  "sample_board = save_commitments ''t'' [sample_promise] new_twin_store"

definition sample_tables :: unicode_tables where
  "sample_tables = \<lparr>uni_alnum = (\<lambda>c. False), uni_upper = (\<lambda>c. c)\<rparr>"

definition sample_calendar :: ist_calendar where
  "sample_calendar = \<lparr>ist_rfc3339 = (\<lambda>s. None), ist_list = (\<lambda>s. None)\<rparr>"

lemma sample_board_ok: "load_commitments sample_board ''t'' = [sample_promise]" "board_ok [sample_promise]"
  by (simp_all add: sample_board_def keep_last_short commitments_max_def board_ok_def well_formed_def sample_promise_def)

lemma anyone_can_close_in_channel_witness:
  "\<exists>c'. c' \<in> set (load_commitments
      (maybe_handle_commitment sample_tables ''t'' ''gu_bob'' ''just shipped the other thing'' ''C1'' ''17'' False ''2'' (\<lambda>n. ''now'') sample_board) ''t'')
    \<and> cm_id c' = ''cmt:1'' \<and> cm_status c' = ''done''"
proof -
  have "message_resolves_commitment ''just shipped the other thing'' (cm_text sample_promise)"
    by (simp add: sample_promise_def) code_simp
  then obtain c' where "c' \<in> set (load_commitments
      (maybe_handle_commitment sample_tables ''t'' ''gu_bob'' ''just shipped the other thing'' ''C1'' ''17'' False ''2'' (\<lambda>n. ''now'') sample_board) ''t'')"
      "cm_id c' = cm_id sample_promise" "cm_status c' = ''done''"
    using anyone_can_close_in_channel [of sample_promise sample_board "''t''" "''C1''"
        "''just shipped the other thing''" sample_tables "''gu_bob''" "''17''" False "''2''" "\<lambda>n. ''now''"] sample_board_ok
    by (auto simp: sample_promise_def)
  then show ?thesis by (auto simp: sample_promise_def)
qed


lemma insights_put_promises_first_witness:
  "pi_act_on_today (build_plain_insights [] [JObj [(''kind'', JStr ''stale_review'')]]
      (replicate 8 sample_promise) None None []) = replicate 8 (commitment_insight sample_promise)"
proof -
  have p: "sort_key cm_created_at (filter (\<lambda>c. cm_status c = ''open'') (replicate 8 sample_promise))
      = replicate 8 sample_promise"
    by (simp add: sample_promise_def eval_nat_numeral)
  show ?thesis
    using insights_put_promises_first [where cs = "replicate 8 sample_promise" and claims = "[]" and
        conflicts = "[JObj [(''kind'', JStr ''stale_review'')]]" and commits = None and people = None and dir = "[]"]
    unfolding p by simp
qed

end
