(* ===== verification/Url_Text.thy ===== *)
theory Url_Text
  imports Text_Util
begin

text \<open>
  The text of URLs: hexadecimal digits, the two encoders of the code base for path and query segments, the
  decoding of the URL standard that a server applies to them, and when a segment survives.
\<close>

section \<open>Hexadecimal digits\<close>

definition hex_digit :: "char \<Rightarrow> nat option" where
  "hex_digit c =
     (let n = of_char c :: nat in
      if 48 \<le> n \<and> n \<le> 57 then Some (n - 48)
      else if 65 \<le> n \<and> n \<le> 70 then Some (n - 55)
      else if 97 \<le> n \<and> n \<le> 102 then Some (n - 87) else None)"

definition hex_byte :: "char \<Rightarrow> char \<Rightarrow> nat option" where
  "hex_byte a b =
     (case (hex_digit a, hex_digit b) of (Some x, Some y) \<Rightarrow> Some (16 * x + y) | _ \<Rightarrow> None)"

definition hex_char :: "nat \<Rightarrow> char" where
  "hex_char n = (if n < 10 then char_of (48 + n) else char_of (55 + n))"

lemma hex_digit_char: "n < 16 \<Longrightarrow> hex_digit (hex_char n) = Some n"
  by (auto simp: hex_digit_def hex_char_def Let_def of_char_of)

lemma hex_char_ascii: "n < 16 \<Longrightarrow> hex_char n \<noteq> CHR ''+''"
  by (auto simp: hex_char_def dest!: arg_cong [where f = "of_char :: char \<Rightarrow> nat"] simp: of_char_of split: if_splits)

lemma hex_byte_char: "n < 256 \<Longrightarrow> hex_byte (hex_char (n div 16)) (hex_char (n mod 16)) = Some n"
proof -
  assume "n < 256"
  then have "n div 16 < 16" by simp
  then show ?thesis by (simp add: hex_byte_def hex_digit_char)
qed

definition percent_byte :: "nat \<Rightarrow> string" where
  "percent_byte n = [CHR 0x25, hex_char (n div 16), hex_char (n mod 16)]"

section \<open>Encoders\<close>

definition trim_end_slash :: "string \<Rightarrow> string" where
  "trim_end_slash s = rev (dropWhile (\<lambda>c. c = CHR ''/'') (rev s))"

definition url_unreserved :: "char \<Rightarrow> bool" where
  "url_unreserved c \<longleftrightarrow> ascii_alnum c \<or> c \<in> {CHR ''-'', CHR ''_'', CHR ''.'', CHR ''~''}"

text \<open>Byte by byte (\<open>teams.rs\<close>).\<close>

definition urlencoding_path :: "string \<Rightarrow> string" where
  "urlencoding_path s = concat (map (\<lambda>c. if url_unreserved c then [c] else percent_byte (of_char c)) s)"

text \<open>Character by character (\<open>http_v2.rs\<close>): the number of a character is cut to eight bits.\<close>

fun code_point :: "string \<Rightarrow> nat" where
  "code_point [a] = of_char a"
| "code_point [a, b] = (of_char a mod 32) * 64 + of_char b mod 64"
| "code_point [a, b, c] = ((of_char a mod 16) * 64 + of_char b mod 64) * 64 + of_char c mod 64"
| "code_point [a, b, c, d] =
     (((of_char a mod 8) * 64 + of_char b mod 64) * 64 + of_char c mod 64) * 64 + of_char d mod 64"
| "code_point _ = 0"

definition encode_char :: "string \<Rightarrow> string" where
  "encode_char ch = (if length ch = 1 \<and> url_unreserved (hd ch) then ch else percent_byte (code_point ch mod 256))"

definition urlencoding_lite :: "string \<Rightarrow> string" where
  "urlencoding_lite s = concat (map encode_char (utf8_chars s))"

section \<open>Decoding\<close>

fun percent_decode :: "string \<Rightarrow> string" where
  "percent_decode (p # a # b # rest) =
     (if p = CHR 0x25
      then (case hex_byte a b of
              Some v \<Rightarrow> char_of v # percent_decode rest
            | None \<Rightarrow> p # percent_decode (a # b # rest))
      else p # percent_decode (a # b # rest))"
| "percent_decode (p # rest) = p # percent_decode rest"
| "percent_decode [] = []"

definition ascii_text :: "string \<Rightarrow> bool" where
  "ascii_text s = (\<forall>c\<in>set s. (of_char c :: nat) < 128)"

lemma decode_plain: "p \<noteq> CHR 0x25 \<Longrightarrow> percent_decode (p # s) = p # percent_decode s"
  by (cases s; cases "tl s") auto

lemma decode_no_percent: "CHR 0x25 \<notin> set s \<Longrightarrow> percent_decode s = s"
  by (induction s) (auto simp: decode_plain)

lemma decode_percent_byte: "n < 256 \<Longrightarrow> percent_decode (percent_byte n @ s) = char_of n # percent_decode s"
  by (simp add: percent_byte_def hex_byte_char)

lemma unreserved_plain: "url_unreserved c \<Longrightarrow> c \<noteq> CHR 0x25"
  by (auto simp: url_unreserved_def ascii_alnum_def Let_def)

lemma decode_path: "percent_decode (urlencoding_path s) = s"
proof (induction s)
  case (Cons c s)
  have "(of_char c :: nat) < 256" by (metis mod_less_divisor of_char_mod_256 zero_less_numeral)
  with Cons show ?case
    by (simp add: urlencoding_path_def decode_plain unreserved_plain decode_percent_byte)
qed (simp add: urlencoding_path_def)

lemma utf8_chars_ascii: "ascii_text s \<Longrightarrow> utf8_chars s = map (\<lambda>c. [c]) s"
proof (induction s)
  case (Cons c s)
  have "takeWhile utf8_cont s = []" "dropWhile utf8_cont s = s"
    using Cons.prems by (cases s; auto simp: ascii_text_def utf8_cont_def Let_def)+
  with Cons show ?case by (simp add: ascii_text_def)
qed simp

text \<open>A segment in ASCII is read back; the letter L with stroke (U+0141) becomes the letter A.\<close>

lemma decode_lite: "ascii_text s \<Longrightarrow> percent_decode (urlencoding_lite s) = s"
proof (induction s)
  case (Cons c s)
  have lt: "(of_char c :: nat) < 128" using Cons.prems by (simp add: ascii_text_def)
  have s: "ascii_text s" "utf8_chars (c # s) = [c] # utf8_chars s"
    using Cons.prems utf8_chars_ascii [of "c # s"] utf8_chars_ascii [of s] by (simp_all add: ascii_text_def)
  have "urlencoding_lite (c # s) = encode_char [c] @ urlencoding_lite s"
    using s(2) by (simp add: urlencoding_lite_def del: utf8_chars.simps)
  moreover have "percent_decode (encode_char [c] @ t) = c # percent_decode t" for t
    using lt by (simp add: encode_char_def decode_plain unreserved_plain decode_percent_byte)
  ultimately show ?case using Cons.IH s(1) by simp
qed (simp add: urlencoding_lite_def ascii_text_def)

lemma lite_confuses: "percent_decode (urlencoding_lite [CHR 0xC5, CHR 0x81]) = ''A''"
  by code_simp

end
