(* ===== verification/Twin_Gateway.thy ===== *)
theory Twin_Gateway
  imports Claim_Ledger Commit_Flow Twin_Delivery Url_Text
begin

text \<open>
  The requests of the twin service that change its state (\<open>twin-api/src/main.rs\<close>): veto, publish,
  edit and silence of a draft, the button actions and messages of Slack and Teams, roles and the
  focus of tomorrow, with the form decoder and the translation of errors.

  \<^item> The state is the delivery world: the embedded store and the chat log. \<open>gate_env\<close> holds the
    collaborators and the settings, \<open>gate_call\<close> what one request draws: clock readings and UUIDs.
  \<^item> A reply keeps the values the handler puts into its JSON, without the fixed explanations.
  \<^item> A request to the graph service whose answer is ignored is an output, a list of JSON bodies.
  \<^item> Metrics and the file write after a request are left out; the store is the embedded one.
\<close>

section \<open>Environment, replies and errors\<close>

record gate_env =
  ge_claim :: claim_env
  ge_tables :: unicode_tables
  ge_calendar :: ist_calendar
  ge_parse :: "string \<Rightarrow> json option"
  ge_serde_time :: "instant \<Rightarrow> string"
  ge_service :: delivery_service
  ge_default_tenant :: string
  ge_v2_base :: string

record gate_call =
  gc_now :: instant
  gc_clk :: "nat \<Rightarrow> instant"
  gc_texts :: "nat \<Rightarrow> string"
  gc_publish_uuid :: string
  gc_uuid :: string

record api_error =
  ae_status :: nat
  ae_message :: string

definition api_bad :: "string \<Rightarrow> api_error" where "api_bad m = \<lparr>ae_status = 400, ae_message = m\<rparr>"
definition api_not_found :: "string \<Rightarrow> api_error" where "api_not_found m = \<lparr>ae_status = 404, ae_message = m\<rparr>"
definition api_forbidden :: "string \<Rightarrow> api_error" where "api_forbidden m = \<lparr>ae_status = 403, ae_message = m\<rparr>"

fun api_status :: "twin_error \<Rightarrow> nat" where
  "api_status (TNotFound _) = 404"
| "api_status (TValidation _) = 400"
| "api_status (TConflict _) = 409"
| "api_status (TAclDenied _) = 403"
| "api_status (TEgress _) = 502"
| "api_status _ = 500"

definition api_of_twin :: "twin_error \<Rightarrow> api_error" where
  "api_of_twin e = \<lparr>ae_status = api_status e, ae_message = twin_error_to_string e\<rparr>"

datatype gate_reply =
    DraftReply draft_delivery
  | VetoReply draft_delivery
  | AlreadyPublished draft_delivery "publish_record option" string
  | PublishedReply draft_delivery "publish_record option" string
  | SilenceReply draft_delivery "publish_record option"
  | OkReply
  | NoDraftReply
  | ChallengeReply "json option"
  | RecordedReply string
  | JsonReply json

definition gate_time :: "gate_env \<Rightarrow> gate_call \<Rightarrow> string" where
  "gate_time env c = ce_format_utc (ge_claim env) (gc_now c)"

definition gate_ist_time :: "gate_env \<Rightarrow> gate_call \<Rightarrow> string" where
  "gate_ist_time env c = ce_format_ist (ge_claim env) (gc_now c)"

definition gate_log ::
  "gate_env \<Rightarrow> gate_call \<Rightarrow> string \<Rightarrow> string \<Rightarrow> string \<Rightarrow> json \<Rightarrow> delivery_world \<Rightarrow> delivery_world" where
  "gate_log env c tenant kind subject detail w =
     w\<lparr>dw_store := observer_log (gate_time env c) tenant kind subject detail (dw_store w)\<rparr>"

definition publish_json :: "gate_env \<Rightarrow> publish_record option \<Rightarrow> json" where
  "publish_json env p =
     (case p of
        None \<Rightarrow> JNull
      | Some r \<Rightarrow> JObj [(''tenant_id'', JStr (pr_tenant_id r)), (''publish_id'', JStr (pr_publish_id r)),
          (''ledger_id'', JStr (pr_ledger_id r)), (''draft_id'', JStr (pr_draft_id r)),
          (''channel_id'', JStr (pr_channel_id r)), (''slack_ts'', JStr (pr_slack_ts r)),
          (''body_hash'', JStr (pr_body_hash r)), (''published_at'', JStr (ge_serde_time env (pr_published_at r)))])"

section \<open>Requests on a draft\<close>

definition veto_draft_request ::
  "gate_env \<Rightarrow> gate_call \<Rightarrow> string \<Rightarrow> string \<Rightarrow> delivery_world
   \<Rightarrow> (api_error + gate_reply) \<times> delivery_world" where
  "veto_draft_request env c tenant i w =
     (case veto_draft tenant i (gc_clk c) w of
        (Inl e, w1) \<Rightarrow> (Inl (api_of_twin e), w1)
      | (Inr d, w1) \<Rightarrow>
          (Inr (VetoReply d),
           gate_log env c tenant ''dont_send'' (dd_twin_id d)
             (JObj [(''draft_id'', JStr i), (''ledger_id'', JStr (dd_ledger_id d)),
                    (''status'', JStr (status_as_str (dd_status d))), (''source'', JStr ''product_ui'')]) w1))"

definition with_draft_and_twin ::
  "string \<Rightarrow> string \<Rightarrow> (draft_delivery \<Rightarrow> twin \<Rightarrow> (api_error + gate_reply) \<times> delivery_world)
   \<Rightarrow> delivery_world \<Rightarrow> (api_error + gate_reply) \<times> delivery_world" where
  "with_draft_and_twin tenant i k w =
     (case get_draft (dw_store w) tenant i of
        None \<Rightarrow> (Inl (api_not_found ''draft''), w)
      | Some d \<Rightarrow>
          (case get_twin (dw_store w) tenant (dd_twin_id d) of
             None \<Rightarrow> (Inl (api_not_found ''twin''), w)
           | Some tw \<Rightarrow> k d tw))"

definition egress_failed_message :: "string \<Rightarrow> string" where
  "egress_failed_message detail =
     ''Approve needs Slack egress (channel share). Delivery proxy failed '' @ em_dash
     @ '' check egress health + vault SLACK_BOT_TOKEN, then retry. ('' @ detail @ '')''"

definition publish_draft_request ::
  "gate_env \<Rightarrow> gate_call \<Rightarrow> string \<Rightarrow> string \<Rightarrow> delivery_world
   \<Rightarrow> (api_error + gate_reply) \<times> delivery_world" where
  "publish_draft_request env c tenant i w =
     with_draft_and_twin tenant i (\<lambda>d0 tw.
       if dd_status d0 = Published
       then (let existing = get_publish_by_ledger (dw_store w) tenant (dd_ledger_id d0) in
             (Inr (AlreadyPublished d0 existing (unwrap_or (map_option pr_channel_id existing) [])),
              gate_log env c tenant ''approve_already'' (tw_subject_id tw)
                (JObj [(''draft_id'', JStr i), (''ledger_id'', JStr (dd_ledger_id d0)),
                       (''publish'', publish_json env existing), (''source'', JStr ''product_ui'')]) w))
       else case explicit_publish (ge_service env) tw tenant i (gc_publish_uuid c) (gc_clk c) w of
         (Inr (d, p), w1) \<Rightarrow>
           (let where_to = unwrap_or (map_option pr_channel_id p) ''(no channel record)'' in
            (Inr (PublishedReply d p where_to),
             gate_log env c tenant ''approve'' (tw_subject_id tw)
               (JObj [(''draft_id'', JStr i), (''ledger_id'', JStr (dd_ledger_id d)),
                      (''status'', JStr (status_as_str (dd_status d))), (''where'', JStr where_to),
                      (''publish'', publish_json env p), (''source'', JStr ''product_ui'')]) w1))
       | (Inl e, w1) \<Rightarrow>
           (case e of
              TEgress _ \<Rightarrow>
                (Inl \<lparr>ae_status = 502, ae_message = egress_failed_message (twin_error_to_string e)\<rparr>,
                 gate_log env c tenant ''approve_failed'' (tw_subject_id tw)
                   (JObj [(''draft_id'', JStr i), (''error'', JStr (twin_error_to_string e))]) w1)
            | _ \<Rightarrow> (Inl (api_of_twin e), w1))) w"

definition edit_draft_request ::
  "gate_call \<Rightarrow> string \<Rightarrow> string \<Rightarrow> string \<Rightarrow> delivery_world
   \<Rightarrow> (api_error + gate_reply) \<times> delivery_world" where
  "edit_draft_request c tenant i body_text w =
     (case edit_draft tenant i body_text (gc_clk c) w of
        (Inl e, w1) \<Rightarrow> (Inl (api_of_twin e), w1)
      | (Inr d, w1) \<Rightarrow> (Inr (DraftReply d), w1))"

definition silence_draft_request ::
  "gate_env \<Rightarrow> gate_call \<Rightarrow> string \<Rightarrow> string \<Rightarrow> delivery_world
   \<Rightarrow> (api_error + gate_reply) \<times> delivery_world" where
  "silence_draft_request env c tenant i w =
     with_draft_and_twin tenant i (\<lambda>d0 tw.
       case silence_timeout (ge_service env) tw tenant i (gc_publish_uuid c) (gc_clk c) w of
         (Inl e, w1) \<Rightarrow> (Inl (api_of_twin e), w1)
       | (Inr (d, p), w1) \<Rightarrow> (Inr (SilenceReply d p), w1)) w"

section \<open>Button actions\<close>

text \<open>Form decoding, byte by byte: a byte becomes the character of that number. Slicing a string inside
  a character panics, which is \<open>None\<close> here.\<close>

definition latin1 :: "nat \<Rightarrow> string" where
  "latin1 n = (if n < 128 then [char_of n] else [char_of (192 + n div 64), char_of (128 + n mod 64)])"

fun decode_bytes :: "string \<Rightarrow> string option" where
  "decode_bytes [] = Some []"
| "decode_bytes (p # a # b # rest) =
     (if p = CHR 0x25
      then (if rest \<noteq> [] \<and> utf8_cont (hd rest) then None
            else case hex_byte a b of
              Some v \<Rightarrow> map_option (append (latin1 v)) (decode_bytes rest)
            | None \<Rightarrow> map_option (append (latin1 (of_char p))) (decode_bytes (a # b # rest)))
      else map_option (append (latin1 (of_char p))) (decode_bytes (a # b # rest)))"
| "decode_bytes (p # rest) = map_option (append (latin1 (of_char p))) (decode_bytes rest)"

definition urlencoding_decode :: "string \<Rightarrow> string option" where
  "urlencoding_decode s = decode_bytes (map (\<lambda>c. if c = CHR ''+'' then CHR '' '' else c) s)"

text \<open>\<open>serde_json::Value::pointer\<close>, for tokens without escapes.\<close>

fun json_token :: "json \<Rightarrow> string \<Rightarrow> json option" where
  "json_token (JObj kvs) k = map_of kvs k"
| "json_token (JArr xs) k =
     (if starts_with k ''+'' \<or> starts_with k ''0'' \<and> length k \<noteq> 1 then None
      else case parse_nat k of
        Some n \<Rightarrow> if n < length xs then Some (xs ! n) else None
      | None \<Rightarrow> None)"
| "json_token _ k = None"

fun json_pointer :: "json \<Rightarrow> string list \<Rightarrow> json option" where
  "json_pointer v [] = Some v"
| "json_pointer v (k # ks) = Option.bind (json_token v k) (\<lambda>x. json_pointer x ks)"

definition pointer_str :: "json \<Rightarrow> string list \<Rightarrow> string" where
  "pointer_str v ks = unwrap_or (Option.bind (json_pointer v ks) as_str) []"

text \<open>Approval from a chat: the draft and its twin are looked up, the result of the publish is dropped.\<close>

definition chat_publish ::
  "gate_env \<Rightarrow> gate_call \<Rightarrow> string \<Rightarrow> string \<Rightarrow> delivery_world \<Rightarrow> (twin \<times> delivery_world) option" where
  "chat_publish env c tenant i w =
     (case get_draft (dw_store w) tenant i of
        None \<Rightarrow> None
      | Some d \<Rightarrow>
          map_option (\<lambda>tw. (tw, snd (explicit_publish (ge_service env) tw tenant i (gc_publish_uuid c) (gc_clk c) w)))
            (get_twin (dw_store w) tenant (dd_twin_id d)))"

definition slack_payload :: "gate_env \<Rightarrow> string \<Rightarrow> json option" where
  "slack_payload env body =
     map_option (\<lambda>p. unwrap_or (ge_parse env p) (JObj []))
       (case strip_prefix body ''payload='' of Some rest \<Rightarrow> urlencoding_decode rest | None \<Rightarrow> Some body)"

definition slack_interaction ::
  "gate_env \<Rightarrow> gate_call \<Rightarrow> json \<Rightarrow> delivery_world \<Rightarrow> gate_reply \<times> delivery_world" where
  "slack_interaction env c v w =
     (let action = pointer_str v [''actions'', ''0'', ''action_id''];
          i = pointer_str v [''actions'', ''0'', ''value''];
          tenant = ge_default_tenant env
      in if i = [] then (NoDraftReply, w)
         else if action \<in> {''veto'', ''dont_send'', ''don'' @ [CHR 39] @ ''t_send''}
         then (OkReply, gate_log env c tenant ''dont_send'' i
                 (JObj [(''source'', JStr ''slack_interaction''), (''action'', JStr action)])
                 (snd (veto_draft tenant i (gc_clk c) w)))
         else if action \<in> {''publish'', ''approve''}
         then (OkReply,
               (case chat_publish env c tenant i w of
                  None \<Rightarrow> w
                | Some (tw, w1) \<Rightarrow> gate_log env c tenant ''approve'' (tw_subject_id tw)
                    (JObj [(''source'', JStr ''slack_interaction''), (''draft_id'', JStr i)]) w1))
         else (OkReply, w))"

text \<open>\<open>None\<close>: the decoder panics, and the request has no effect.\<close>

definition slack_interactions ::
  "gate_env \<Rightarrow> gate_call \<Rightarrow> string \<Rightarrow> delivery_world \<Rightarrow> gate_reply option \<times> delivery_world" where
  "slack_interactions env c body w =
     (case slack_payload env body of
        None \<Rightarrow> (None, w)
      | Some v \<Rightarrow> (let (r, w1) = slack_interaction env c v w in (Some r, w1)))"

definition teams_messages ::
  "gate_env \<Rightarrow> gate_call \<Rightarrow> json \<Rightarrow> delivery_world \<Rightarrow> gate_reply \<times> delivery_world" where
  "teams_messages env c body w =
     (if json_str_or body ''type'' [] = ''invoke''
         \<or> Option.bind (json_pointer body [''value'', ''action'']) as_str \<noteq> None
      then
        (let action = unwrap_or (Option.bind (or_else (json_pointer body [''value'', ''action''])
                        (json_pointer body [''value'', ''data'', ''action''])) as_str) [];
             i = unwrap_or (Option.bind (or_else (json_pointer body [''value'', ''draft_id''])
                        (json_pointer body [''value'', ''data'', ''draft_id''])) as_str) [];
             tenant = unwrap_or (Option.bind (json_pointer body [''channelData'', ''tenant'', ''id'']) as_str)
                        (ge_default_tenant env);
             w1 = (if i = [] then w
                   else if action = ''veto'' then snd (veto_draft tenant i (gc_clk c) w)
                   else if action = ''publish''
                   then (case chat_publish env c tenant i w of None \<Rightarrow> w | Some (tw, w1) \<Rightarrow> w1)
                   else w)
         in (RecordedReply action, w1))
      else (OkReply, w))"

section \<open>Messages\<close>

definition is_slack_channel_message :: "json \<Rightarrow> bool" where
  "is_slack_channel_message ev \<longleftrightarrow>
     json_str_or ev ''channel_type'' [] = ''channel'' \<or> json_str_or ev ''channel_type'' [] = ''group''
     \<or> starts_with (json_str_or ev ''channel'' []) ''C'' \<or> starts_with (json_str_or ev ''channel'' []) ''G''"

definition is_slack_dm_message :: "json \<Rightarrow> bool" where
  "is_slack_dm_message ev \<longleftrightarrow>
     json_str_or ev ''channel_type'' [] = ''im'' \<or> json_str_or ev ''channel_type'' [] = ''mpim''
     \<or> starts_with (json_str_or ev ''channel'' []) ''D''"

definition chat_word :: "string \<Rightarrow> string option" where
  "chat_word text =
     (if text = ''approve'' \<or> text = ''a'' \<or> starts_with text ''approve '' \<or> text = check_mark
      then Some ''approve''
      else if text = ''don'' @ [CHR 39] @ ''t send'' \<or> text = ''dont send'' \<or> text = ''veto''
              \<or> text = ''reject'' \<or> text = ''no''
      then Some ''dont_send'' else None)"

text \<open>The draft a word in the chat speaks of: the newest one of the speaker's own twin.\<close>

definition spoken_draft :: "twin_store \<Rightarrow> string \<Rightarrow> string \<Rightarrow> (twin \<times> draft_delivery) option" where
  "spoken_draft s tenant uid =
     Option.bind (find (\<lambda>m. sm_slack_user_id m = uid) (list_slack_maps s tenant)) (\<lambda>m.
     Option.bind (get_twin s tenant (person_twin_id (sm_global_user_id m))) (\<lambda>tw.
       case list_drafts_for_twin s tenant (tw_twin_id tw) of [] \<Rightarrow> None | d # _ \<Rightarrow> Some (tw, d)))"

definition handle_chat_word ::
  "gate_env \<Rightarrow> gate_call \<Rightarrow> string \<Rightarrow> string \<Rightarrow> string \<Rightarrow> string \<Rightarrow> delivery_world \<Rightarrow> delivery_world" where
  "handle_chat_word env c tenant act text uid w =
     (case spoken_draft (dw_store w) tenant uid of
        None \<Rightarrow> w
      | Some (tw, d) \<Rightarrow>
          gate_log env c tenant act (tw_subject_id tw)
            (JObj [(''source'', JStr ''slack_text''), (''text'', JStr text),
                   (''draft_id'', JStr (dd_draft_id d)), (''slack_user'', JStr uid)])
            (if act = ''dont_send'' then snd (veto_draft tenant (dd_draft_id d) (gc_clk c) w)
             else if act = ''approve''
             then snd (explicit_publish (ge_service env) tw tenant (dd_draft_id d) (gc_publish_uuid c) (gc_clk c) w)
             else w))"

definition speaker :: "twin_store \<Rightarrow> string \<Rightarrow> string \<Rightarrow> string" where
  "speaker s tenant uid =
     (case find (\<lambda>m. sm_slack_user_id m = uid) (list_slack_maps s tenant) of
        Some m \<Rightarrow> sm_global_user_id m
      | None \<Rightarrow> if uid = [] then ''unknown'' else ''slack:'' @ uid)"

definition keyword_hit :: "nat \<Rightarrow> string \<Rightarrow> bool" where
  "keyword_hit conf text \<longleftrightarrow>
     70 \<le> conf \<or> contains text ''blocked on'' \<or> contains text ''working on'' \<or> contains text ''freeze''
     \<or> contains text ''ready to ship'' \<or> contains text ''do not merge''
     \<or> contains text (''don'' @ [CHR 39] @ ''t merge'')"

definition project_request ::
  "gate_env \<Rightarrow> gate_call \<Rightarrow> string \<Rightarrow> string \<Rightarrow> string \<Rightarrow> string \<Rightarrow> string \<Rightarrow> string \<Rightarrow> nat \<Rightarrow> json" where
  "project_request env c tenant subject channel ts itype preview conf =
     (let event_id = ''slack-intent-'' @ channel @ ''-'' @ map (\<lambda>x. if x = CHR ''.'' then CHR ''_'' else x) ts in
      JObj [(''tenant_id'', JStr tenant), (''event_id'', JStr event_id), (''event_type'', JStr ''intent.stated''),
            (''provider'', JStr ''slack''), (''occurred_at'', JStr (gate_time env c)),
            (''actor'', JObj [(''provider_user_id'', JStr subject)]),
            (''resource'', JObj [(''kind'', JStr ''intent''), (''provider_id'', JStr (''intent:slack:'' @ event_id)),
               (''title'', JStr (itype @ '': '' @ preview))]),
            (''payload'', JObj [(''intent_type'', JStr itype), (''confidence'', JFloat (int conf)),
               (''source'', JStr ''slack_channel_claim''), (''text_preview'', JStr preview),
               (''channel'', JStr channel)])])"

definition chat_claim ::
  "gate_env \<Rightarrow> gate_call \<Rightarrow> string \<Rightarrow> string \<Rightarrow> string \<Rightarrow> string \<Rightarrow> nat \<Rightarrow> string \<Rightarrow> string \<Rightarrow> bool \<Rightarrow> json" where
  "chat_claim env c uid subject preview itype conf channel ts is_dm =
     JObj [(''at'', JStr (gate_ist_time env c)), (''slack_user'', JStr uid), (''subject'', JStr subject),
           (''text_preview'', JStr preview), (''intent_type'', JStr itype), (''channel'', JStr channel),
           (''ts'', JStr ts), (''confidence'', JFloat (int conf)),
           (''source'', JStr (if is_dm then ''slack_dm'' else ''slack_channel''))]"

definition capture_chat_claim ::
  "gate_env \<Rightarrow> gate_call \<Rightarrow> string \<Rightarrow> string \<Rightarrow> string \<Rightarrow> string \<Rightarrow> string \<Rightarrow> string \<Rightarrow> bool \<Rightarrow> delivery_world
   \<Rightarrow> json list \<times> delivery_world" where
  "capture_chat_claim env c tenant uid subject text_raw channel ts is_dm w =
     (let (itype, conf, ev) = classify_claim_text text_raw in
      if \<not> keyword_hit conf (to_ascii_lowercase text_raw) then ([], w)
      else
        (let preview = truncate_preview text_raw text_preview_max;
             claim = chat_claim env c uid subject preview itype conf channel ts is_dm;
             w1 = gate_log env c tenant ''slack_intent'' subject claim w
         in (if trim_end_slash (ge_v2_base env) \<noteq> [] \<and> 75 \<le> conf
             then [project_request env c tenant subject channel ts itype preview conf] else [],
             w1\<lparr>dw_store := push_slack_intent_claim tenant claim (dw_store w1)\<rparr>)))"

definition plain_message :: "json \<Rightarrow> bool" where
  "plain_message ev \<longleftrightarrow>
     json_str_or ev ''type'' [] = ''message''
     \<and> json_str_or ev ''subtype'' [] \<in> {[], ''file_share'', ''thread_broadcast''}
     \<and> json_get ev ''bot_id'' = None"

definition handle_message ::
  "gate_env \<Rightarrow> gate_call \<Rightarrow> json \<Rightarrow> delivery_world \<Rightarrow> json list \<times> delivery_world" where
  "handle_message env c ev w =
     (let text_raw = trim (json_str_or ev ''text'' []);
          text = to_ascii_lowercase text_raw;
          uid = json_str_or ev ''user'' [];
          ts = json_str_or ev ''ts'' [];
          tenant = ge_default_tenant env;
          is_dm = is_slack_dm_message ev
      in case chat_word text of
           Some act \<Rightarrow> ([], handle_chat_word env c tenant act text uid w)
         | None \<Rightarrow>
             if is_slack_channel_message ev \<or> is_dm
             then (let subject = speaker (dw_store w) tenant uid;
                       channel = (if is_dm then ''dm'' else json_str_or ev ''channel'' []);
                       s1 = maybe_handle_commitment (ge_tables env) tenant subject text_raw channel ts is_dm
                              (gc_uuid c) (gc_texts c) (dw_store w)
                   in capture_chat_claim env c tenant uid subject text_raw channel ts is_dm (w\<lparr>dw_store := s1\<rparr>))
             else ([], w))"

definition slack_events ::
  "gate_env \<Rightarrow> gate_call \<Rightarrow> json \<Rightarrow> delivery_world \<Rightarrow> gate_reply \<times> json list \<times> delivery_world" where
  "slack_events env c body w =
     (if Option.bind (json_get body ''type'') as_str = Some ''url_verification''
      then (ChallengeReply (json_get body ''challenge''), [], w)
      else if Option.bind (json_get body ''type'') as_str = Some ''event_callback''
              \<and> plain_message (unwrap_or (json_get body ''event'') (JObj []))
      then (OkReply, handle_message env c (unwrap_or (json_get body ''event'') (JObj [])) w)
      else (OkReply, [], w))"

section \<open>Roles and the focus of tomorrow\<close>

definition roles_kv :: string where "roles_kv = ''roles''"
definition focus_kv :: string where "focus_kv = ''tomorrow_focus''"

definition default_roles_json :: json where
  "default_roles_json = JObj
     [(''champions'', JArr []), (''default_role'', JStr ''champion''),
      (''note'', JStr (''Pilot: all seats act as champion until champions[] is set. When champions is non-empty, ''
         @ ''only those subjects may perform cockpit writes (pass ?actor= or body.actor_subject). ''
         @ ''Members still Approve/Don'' @ [CHR 39] @ ''t send their own digests.''))]"

definition load_roles_config :: "twin_store \<Rightarrow> string \<Rightarrow> json" where
  "load_roles_config s tenant = unwrap_or (get_tenant_kv s tenant roles_kv) default_roles_json"

definition list_kv_updated_at_ist :: "claim_env \<Rightarrow> json \<Rightarrow> json" where
  "list_kv_updated_at_ist env v =
     (case Option.bind (json_get v ''updated_at'') as_str of
        Some at \<Rightarrow> json_insert ''updated_at'' (JStr (reformat_stored_to_ist_rfc3339 env at)) v
      | None \<Rightarrow> v)"

definition champions_of :: "json \<Rightarrow> string list" where
  "champions_of roles =
     filter (\<lambda>s. s \<noteq> [])
       (map trim (List.map_filter as_str
          (unwrap_or (Option.bind (json_get roles ''champions'') as_array) [])))"

definition actor_is_champion :: "twin_store \<Rightarrow> string \<Rightarrow> string option \<Rightarrow> bool" where
  "actor_is_champion s tenant actor =
     (let champions = champions_of (load_roles_config s tenant) in
      if champions = [] then True
      else (case filter_opt (\<lambda>a. a \<noteq> []) (map_option trim actor) of
              None \<Rightarrow> False
            | Some a \<Rightarrow>
                (let al = to_ascii_lowercase a in
                 list_ex (\<lambda>x. to_ascii_lowercase x = al \<or> contains al (to_ascii_lowercase x)
                            \<or> contains (to_ascii_lowercase x) al) champions)))"

definition champion_required :: api_error where
  "champion_required = api_forbidden
     (''Champion role required for this write. Set roles.champions (empty = all open) and pass ?actor=<subject> ''
      @ ''or body.actor_subject. Members can still Approve/Don'' @ [CHR 39] @ ''t send their own digests.'')"

definition require_champion :: "twin_store \<Rightarrow> string \<Rightarrow> string option \<Rightarrow> api_error + unit" where
  "require_champion s tenant actor = (if actor_is_champion s tenant actor then Inr () else Inl champion_required)"

record actor_query =
  aq_actor :: "string option"
  aq_actor_subject :: "string option"

definition get_roles :: "gate_env \<Rightarrow> string \<Rightarrow> actor_query \<Rightarrow> twin_store \<Rightarrow> json \<times> string option \<times> bool" where
  "get_roles env tenant q s =
     (let actor = or_else (aq_actor q) (aq_actor_subject q) in
      (list_kv_updated_at_ist (ge_claim env) (load_roles_config s tenant), actor,
       actor_is_champion s tenant actor))"

record roles_body =
  rb_champions :: "string list option"
  rb_default_role :: "string option"
  rb_actor_subject :: "string option"
  rb_actor :: "string option"

definition put_roles ::
  "gate_env \<Rightarrow> gate_call \<Rightarrow> string \<Rightarrow> actor_query \<Rightarrow> roles_body \<Rightarrow> twin_store
   \<Rightarrow> (api_error + json) \<times> twin_store" where
  "put_roles env c tenant q body s =
     (let actor = or_else (or_else (or_else (rb_actor_subject body) (rb_actor body)) (aq_actor q)) (aq_actor_subject q)
      in case require_champion s tenant actor of
           Inl e \<Rightarrow> (Inl e, s)
         | Inr _ \<Rightarrow>
             (let role = (if eq_ignore_ascii_case (unwrap_or (rb_default_role body) ''champion'') ''member''
                          then ''member'' else ''champion'');
                  value = JObj [(''champions'', JArr (map JStr (unwrap_or (rb_champions body) []))),
                                (''default_role'', JStr role), (''updated_at'', JStr (gate_ist_time env c))]
              in (Inr value, put_tenant_kv tenant roles_kv value s)))"

definition get_tomorrow_focus :: "gate_env \<Rightarrow> string \<Rightarrow> twin_store \<Rightarrow> json" where
  "get_tomorrow_focus env tenant s =
     list_kv_updated_at_ist (ge_claim env)
       (unwrap_or (get_tenant_kv s tenant focus_kv)
          (JObj [(''items'', JArr []),
                 (''note'', JStr (''Empty '' @ em_dash @ '' cockpit suggestions can be pinned here.''))]))"

record focus_body =
  fb_items :: "json list"
  fb_note :: "string option"
  fb_actor_subject :: "string option"
  fb_actor :: "string option"

definition put_tomorrow_focus ::
  "gate_env \<Rightarrow> gate_call \<Rightarrow> string \<Rightarrow> actor_query \<Rightarrow> focus_body \<Rightarrow> twin_store
   \<Rightarrow> (api_error + json) \<times> twin_store" where
  "put_tomorrow_focus env c tenant q body s =
     (let actor = or_else (or_else (or_else (fb_actor_subject body) (fb_actor body)) (aq_actor q)) (aq_actor_subject q)
      in case require_champion s tenant actor of
           Inl e \<Rightarrow> (Inl e, s)
         | Inr _ \<Rightarrow>
             (let value = JObj [(''items'', JArr (fb_items body)),
                                (''note'', JStr (unwrap_or (fb_note body) ''Pinned by champion'')),
                                (''updated_at'', JStr (gate_ist_time env c))]
              in (Inr value, put_tenant_kv tenant focus_kv value s)))"

section \<open>Histories of requests\<close>

datatype gate_op =
    VetoRequest string string
  | PublishRequest string string
  | EditRequest string string string
  | SilenceRequest string string
  | SlackAction string
  | SlackEvent json
  | TeamsMessage json
  | RolesRequest string actor_query roles_body
  | FocusRequest string actor_query focus_body
  | ClaimRequest string claim_body
  | SupersedeRequest string string
  | BoardRequest string board_op
  | WorkerRun delivery_op

definition on_store :: "(twin_store \<Rightarrow> twin_store) \<Rightarrow> delivery_world \<Rightarrow> delivery_world" where
  "on_store f w = w\<lparr>dw_store := f (dw_store w)\<rparr>"

definition claim_env_at :: "gate_env \<Rightarrow> gate_call \<Rightarrow> claim_env" where
  "claim_env_at env c = (ge_claim env)\<lparr>ce_now := gc_now c\<rparr>"

fun gate_step :: "gate_env \<Rightarrow> gate_call \<Rightarrow> gate_op \<Rightarrow> delivery_world \<Rightarrow> delivery_world" where
  "gate_step env c (VetoRequest t i) w = snd (veto_draft_request env c t i w)"
| "gate_step env c (PublishRequest t i) w = snd (publish_draft_request env c t i w)"
| "gate_step env c (EditRequest t i x) w = snd (edit_draft_request c t i x w)"
| "gate_step env c (SilenceRequest t i) w = snd (silence_draft_request env c t i w)"
| "gate_step env c (SlackAction body) w = snd (slack_interactions env c body w)"
| "gate_step env c (SlackEvent body) w = snd (snd (slack_events env c body w))"
| "gate_step env c (TeamsMessage body) w = snd (teams_messages env c body w)"
| "gate_step env c (RolesRequest t q body) w = on_store (\<lambda>s. snd (put_roles env c t q body s)) w"
| "gate_step env c (FocusRequest t q body) w = on_store (\<lambda>s. snd (put_tomorrow_focus env c t q body s)) w"
| "gate_step env c (ClaimRequest t body) w =
     on_store (\<lambda>s. snd (intent_claim_create (claim_env_at env c) (gc_uuid c) t body s)) w"
| "gate_step env c (SupersedeRequest t i) w =
     on_store (\<lambda>s. snd (intent_claim_supersede (claim_env_at env c) t i s)) w"
| "gate_step env c (BoardRequest t p) w = on_store (board_step (ge_tables env) (ge_calendar env) t p) w"
| "gate_step env c (WorkerRun p) w = delivery_step (ge_service env) p w"

definition uuid_unused :: "string \<Rightarrow> twin_store \<Rightarrow> bool" where
  "uuid_unused u s \<longleftrightarrow> list_all (\<lambda>e. snd (fst e) \<noteq> ''pub_'' @ u) (ts_publishes s)"

fun call_fresh :: "gate_call \<Rightarrow> gate_op \<Rightarrow> delivery_world \<Rightarrow> bool" where
  "call_fresh c (WorkerRun p) w \<longleftrightarrow> uuids_fresh p w"
| "call_fresh c _ w \<longleftrightarrow> uuid_unused (gc_publish_uuid c) (dw_store w)"

fun gate_run :: "gate_env \<Rightarrow> (gate_call \<times> gate_op) list \<Rightarrow> delivery_world \<Rightarrow> delivery_world" where
  "gate_run env [] w = w"
| "gate_run env ((c, p) # ps) w = gate_run env ps (gate_step env c p w)"

fun gate_run_ok :: "gate_env \<Rightarrow> (gate_call \<times> gate_op) list \<Rightarrow> delivery_world \<Rightarrow> bool" where
  "gate_run_ok env [] w \<longleftrightarrow> True"
| "gate_run_ok env ((c, p) # ps) w \<longleftrightarrow> call_fresh c p w \<and> gate_run_ok env ps (gate_step env c p w)"

section \<open>Requests are sequences of effects\<close>

named_theorems kv_steps

definition kv_reach :: "delivery_world \<Rightarrow> twin_store \<Rightarrow> bool" where
  "kv_reach w s \<longleftrightarrow> effects w (w\<lparr>dw_store := s\<rparr>)"

lemma kv_reach_put [kv_steps]: "kv_reach w s \<Longrightarrow> kv_reach w (put_tenant_kv t k v s)"
  using eff_kv [of "w\<lparr>dw_store := s\<rparr>" t k v] by (simp add: kv_reach_def)

lemma kv_reach_observer_log [kv_steps]: "kv_reach w s \<Longrightarrow> kv_reach w (observer_log now t k sub d s)"
  by (simp add: observer_log_def kv_steps)

lemma kv_reach_save [kv_steps]: "kv_reach w s \<Longrightarrow> kv_reach w (save_commitments t cs s)"
  by (simp add: save_commitments_def kv_steps)

lemma kv_reach_claim [kv_steps]:
  "kv_reach w s \<Longrightarrow> kv_reach w (push_explicit_claim t v s)"
  "kv_reach w s \<Longrightarrow> kv_reach w (push_slack_intent_claim t v s)"
  by (simp_all add: push_explicit_claim_def push_slack_intent_claim_def push_ring_def kv_steps)

lemma kv_reach_hear [kv_steps]:
  "kv_reach w s \<Longrightarrow> kv_reach w (maybe_handle_commitment u t subject x ch ts dm uid clk s)"
  by (simp add: maybe_handle_commitment_def Let_def kv_steps split: option.split prod.split)

lemma kv_reach_board [kv_steps]: "kv_reach w s \<Longrightarrow> kv_reach w (board_step u cal t p s)"
proof (cases p)
  case (CreateOne body uid now)
  then show "kv_reach w s \<Longrightarrow> ?thesis"
    by (simp add: create_commitment_def Let_def kv_steps split: prod.split)
next
  case (ExportOne env i now)
  then show "kv_reach w s \<Longrightarrow> ?thesis"
    by (simp add: export_commitment_linear_def Let_def kv_steps split: option.split sum.split)
next
  case (MorningDigest post env hour day now_ist now)
  then show "kv_reach w s \<Longrightarrow> ?thesis"
    by (simp add: morning_digest_def send_commitment_digest_def Let_def kv_steps split: prod.split)
qed (simp_all add: kv_steps complete_commitment_def dismiss_commitment_def set_commitment_status_def Let_def)

lemma kv_reach_requests [kv_steps]:
  "kv_reach w s \<Longrightarrow> kv_reach w (snd (put_roles env c t q rb s))"
  "kv_reach w s \<Longrightarrow> kv_reach w (snd (put_tomorrow_focus env c t q fb s))"
  "kv_reach w s \<Longrightarrow> kv_reach w (snd (intent_claim_create ce uid t cb s))"
  "kv_reach w s \<Longrightarrow> kv_reach w (snd (intent_claim_supersede ce t i s))"
  by (simp_all add: put_roles_def put_tomorrow_focus_def intent_claim_create_def intent_claim_supersede_def
    Let_def kv_steps split: sum.split option.split prod.split)

lemma on_store_effects: "(\<And>s. kv_reach w s \<Longrightarrow> kv_reach w (f s)) \<Longrightarrow> effects w (on_store f w)"
  by (simp add: on_store_def kv_reach_def)

lemma gate_log_effects: "effects w w1 \<Longrightarrow> effects w (gate_log env c t k sub d w1)"
  using kv_reach_observer_log [of w1 "dw_store w1"] by (simp add: gate_log_def kv_reach_def rtranclp_trans)

lemma unused_fresh: "uuid_unused u s \<Longrightarrow> fresh_publish_id t u s"
proof (cases "dm_get (ts_publishes s) (t, ''pub_'' @ u)")
  case (Some r)
  from dm_get_mem [OF this] show "uuid_unused u s \<Longrightarrow> ?thesis"
    by (auto simp: uuid_unused_def list_all_iff)
qed (simp add: fresh_publish_id_def)

lemma chat_publish_effects:
  "twin_store_inv (dw_store w) \<Longrightarrow> uuid_unused (gc_publish_uuid c) (dw_store w) \<Longrightarrow>
   chat_publish env c t i w = Some (tw, w1) \<Longrightarrow> effects w w1"
  by (auto simp: chat_publish_def intro!: explicit_publish_effects unused_fresh split: option.splits)

lemma request_effects:
  assumes i: "twin_store_inv (dw_store w)" and u: "uuid_unused (gc_publish_uuid c) (dw_store w)"
  shows "effects w (snd (veto_draft_request env c t j w))"
    "effects w (snd (publish_draft_request env c t j w))"
    "effects w (snd (edit_draft_request c t j x w))"
    "effects w (snd (silence_draft_request env c t j w))"
proof -
  note f = unused_fresh [OF u]
  show "effects w (snd (veto_draft_request env c t j w))"
    using veto_draft_effects [OF i, of t j "gc_clk c"]
    by (auto simp: veto_draft_request_def gate_log_effects split: prod.split sum.split)
  show "effects w (snd (edit_draft_request c t j x w))"
    using edit_draft_effects [OF i, of t j x "gc_clk c"]
    by (auto simp: edit_draft_request_def split: prod.split sum.split)
  have p: "effects w w1" if "explicit_publish (ge_service env) tw t j (gc_publish_uuid c) (gc_clk c) w = (r, w1)" for tw r w1
    using explicit_publish_effects [OF i f, of "ge_service env" tw t j "gc_clk c"] that by simp
  show "effects w (snd (publish_draft_request env c t j w))"
    by (auto simp: publish_draft_request_def with_draft_and_twin_def gate_log_effects Let_def
      split: prod.split sum.split option.split twin_error.split dest: p)
  have q: "effects w w1" if "silence_timeout (ge_service env) tw t j (gc_publish_uuid c) (gc_clk c) w = (r, w1)" for tw r w1
    using silence_timeout_effects [OF i f, of "ge_service env" tw t j "gc_clk c"] that by simp
  show "effects w (snd (silence_draft_request env c t j w))"
    by (auto simp: silence_draft_request_def with_draft_and_twin_def split: prod.split sum.split option.split dest: q)
qed

lemma slack_interactions_effects:
  assumes i: "twin_store_inv (dw_store w)" and u: "uuid_unused (gc_publish_uuid c) (dw_store w)"
  shows "effects w (snd (slack_interactions env c body w))"
proof -
  have "effects w (snd (slack_interaction env c v w))" for v
    using veto_draft_effects [OF i] chat_publish_effects [OF i u]
    by (simp add: slack_interaction_def Let_def gate_log_effects split: option.split)
  then show ?thesis by (auto simp: slack_interactions_def case_prod_beta split: option.split)
qed

lemma teams_messages_effects:
  assumes i: "twin_store_inv (dw_store w)" and u: "uuid_unused (gc_publish_uuid c) (dw_store w)"
  shows "effects w (snd (teams_messages env c body w))"
  using veto_draft_effects [OF i] chat_publish_effects [OF i u]
  by (simp add: teams_messages_def Let_def split: option.split)

lemma slack_events_effects:
  assumes i: "twin_store_inv (dw_store w)" and u: "uuid_unused (gc_publish_uuid c) (dw_store w)"
  shows "effects w (snd (snd (slack_events env c body w)))"
proof -
  have word: "effects w (handle_chat_word env c t act x uid w)" for t act x uid
    using veto_draft_effects [OF i] explicit_publish_effects [OF i unused_fresh [OF u]]
    by (simp add: handle_chat_word_def gate_log_effects split: option.split)
  have capture: "effects w (snd (capture_chat_claim env c t uid sub x ch ts dm (w\<lparr>dw_store := s\<rparr>)))"
    if "kv_reach w s" for t uid sub x ch ts dm s
    using that by (simp add: capture_chat_claim_def Let_def gate_log_def kv_steps flip: kv_reach_def split: prod.split)
  have "effects w (snd (handle_message env c ev w))" for ev
    using word capture [OF kv_reach_hear] kv_reach_def
    by (simp add: handle_message_def Let_def split: option.split)
  then show ?thesis by (simp add: slack_events_def)
qed

lemma gate_step_effects:
  assumes "twin_store_inv (dw_store w)" "call_fresh c p w"
  shows "effects w (gate_step env c p w)"
proof (cases p)
  case (WorkerRun q)
  with assms show ?thesis by (simp add: delivery_step_effects)
qed (use assms in \<open>simp_all add: request_effects slack_interactions_effects teams_messages_effects
      slack_events_effects on_store_effects kv_steps\<close>)

lemma gate_run_effects:
  "world_inv w \<Longrightarrow> gate_run_ok env ps w \<Longrightarrow> effects w (gate_run env ps w)"
proof (induction ps arbitrary: w)
  case (Cons cp ps)
  obtain c p where cp: "cp = (c, p)" by fastforce
  have e: "effects w (gate_step env c p w)"
    using Cons.prems cp by (auto intro: gate_step_effects world_inv_store)
  then have "effects (gate_step env c p w) (gate_run env ps (gate_step env c p w))"
    using Cons cp effects_world_inv by simp
  with e show ?case by (simp add: cp)
qed simp

lemma gate_run_append: "gate_run env (ps @ qs) w = gate_run env qs (gate_run env ps w)"
  by (induction env ps w rule: gate_run.induct) simp_all

lemma gate_run_ok_append:
  "gate_run_ok env (ps @ qs) w \<longleftrightarrow> gate_run_ok env ps w \<and> gate_run_ok env qs (gate_run env ps w)"
  by (induction env ps w rule: gate_run_ok.induct) simp_all

lemma gate_run_inv: "gate_run_ok env ps new_world \<Longrightarrow> world_inv (gate_run env ps new_world)"
  using gate_run_effects [of new_world env ps] effects_world_inv world_inv_new by (simp add: new_world_def)

section \<open>Properties\<close>

text \<open>
  The delivery rules hold at the service's edge. Over any history of HTTP requests, Slack and
  Teams callbacks, board and claim requests and compiles, the chat accepts at most one publish
  per ledger, exactly when a publish record exists; and once a draft is vetoed, no later request of any
  kind changes it or makes a call to publish its ledger.
\<close>

lemma requests_keep_delivery_rules:
  assumes "gate_run_ok env (ps @ qs) new_world"
  defines "w \<equiv> gate_run env ps new_world" and "w' \<equiv> gate_run env (ps @ qs) new_world"
  shows "length (published_posts (t, l) w') = (if get_publish_by_ledger (dw_store w') t l \<noteq> None then 1 else 0)
    \<and> (get_draft (dw_store w) t i = Some d \<longrightarrow> dd_status d = Vetoed \<longrightarrow>
        get_draft (dw_store w') t i = Some d
        \<and> publish_calls (t, dd_ledger_id d) w' = publish_calls (t, dd_ledger_id d) w)"
proof (intro conjI impI)
  have ok: "gate_run_ok env ps new_world" "gate_run_ok env qs w"
    using assms(1) by (simp_all add: w_def gate_run_ok_append)
  have i: "world_inv w" "world_inv w'"
    using gate_run_inv [OF ok(1)] gate_run_inv [OF assms(1)] by (simp_all add: w_def w'_def)
  have e: "effects w w'"
    using gate_run_effects [OF i(1) ok(2)] by (simp add: w_def w'_def gate_run_append)
  show "length (published_posts (t, l) w') = (if get_publish_by_ledger (dw_store w') t l \<noteq> None then 1 else 0)"
    using world_inv_posts [OF i(2), of "(t, l)"] by (simp add: ledger_published_def publish_lookup_def)
  assume g: "get_draft (dw_store w) t i = Some d" and v: "dd_status d = Vetoed"
  then have c: "draft_closed d" by (simp add: draft_closed_def)
  have k: "dd_tenant_id d = t"
    using g world_inv_store [OF i(1)] by (auto simp: twin_store_inv_def get_draft_def dest: dm_keyed_getD)
  show "get_draft (dw_store w') t i = Some d" "publish_calls (t, dd_ledger_id d) w' = publish_calls (t, dd_ledger_id d) w"
    using effects_closed_draft [OF e, of "(t, i)" d] effects_closed_no_call [OF e i(1), of "(t, i)" d] g c k
    by (simp_all add: get_draft_def)
qed

text \<open>The world without the key-value blobs: drafts, ledgers, publish records, twins and chat calls.\<close>

definition delivery_part :: "delivery_world \<Rightarrow> delivery_world" where
  "delivery_part w = w\<lparr>dw_store := (dw_store w)\<lparr>ts_tenant_kv := []\<rparr>\<rparr>"

lemma delivery_part_log [simp]: "delivery_part (gate_log env c t k sub d w) = delivery_part w"
  by (simp add: delivery_part_def gate_log_def observer_log_def put_tenant_kv_def)

lemma explicit_publish_again:
  assumes "get_draft (dw_store w) t i = Some d" "dd_status d = Published"
  shows "snd (explicit_publish sv tw t i pid clk w) = w"
  using assms by (simp add: explicit_publish_def with_draft_and_ledger_def split: option.split)

lemma publish_request_part:
  "delivery_part (snd (publish_draft_request env c t i w))
     = delivery_part (case chat_publish env c t i w of None \<Rightarrow> w | Some (tw, w1) \<Rightarrow> w1)"
  using explicit_publish_again [of w t i]
  by (auto simp: publish_draft_request_def with_draft_and_twin_def chat_publish_def Let_def
    split: option.split prod.split sum.split twin_error.split)

lemma veto_request_part:
  "delivery_part (snd (veto_draft_request env c t i w)) = delivery_part (snd (veto_draft t i (gc_clk c) w))"
  by (simp add: veto_draft_request_def split: prod.split sum.split)

text \<open>
  C24. Approval is the same on every route and asks nobody's name. Whatever else a button payload
  contains (user, team, signature), an approve action with a draft's id does to drafts, publish
  records and the chat exactly what the product's own publish request does to it, and a veto action what
  the veto request does; a Teams card does the same, in the tenant that the card itself names.
\<close>

theorem approval_is_the_same_on_every_route:
  assumes "slack_payload env body = Some v" "pointer_str v [''actions'', ''0'', ''value''] = i" "i \<noteq> []"
    and "pointer_str v [''actions'', ''0'', ''action_id''] = a"
    and "json_pointer msg [''value'', ''action''] = Some (JStr b)"
    and "json_pointer msg [''value'', ''draft_id''] = Some (JStr i)"
    and "json_pointer msg [''channelData'', ''tenant'', ''id''] = Some (JStr t)"
  shows "(a \<in> {''approve'', ''publish''} \<longrightarrow>
        delivery_part (snd (slack_interactions env c body w))
          = delivery_part (snd (publish_draft_request env c (ge_default_tenant env) i w)))
    \<and> (a \<in> {''veto'', ''dont_send''} \<longrightarrow>
        delivery_part (snd (slack_interactions env c body w))
          = delivery_part (snd (veto_draft_request env c (ge_default_tenant env) i w)))
    \<and> (b = ''publish'' \<longrightarrow>
        delivery_part (snd (teams_messages env c msg w)) = delivery_part (snd (publish_draft_request env c t i w)))
    \<and> (b = ''veto'' \<longrightarrow>
        delivery_part (snd (teams_messages env c msg w)) = delivery_part (snd (veto_draft_request env c t i w)))"
proof -
  have s: "delivery_part (snd (slack_interactions env c body w)) = delivery_part (snd (slack_interaction env c v w))"
    using assms(1) by (simp add: slack_interactions_def split: prod.split)
  have "a \<in> {''approve'', ''publish''} \<Longrightarrow> delivery_part (snd (slack_interaction env c v w))
      = delivery_part (snd (publish_draft_request env c (ge_default_tenant env) i w))"
    using assms(2-4) unfolding publish_request_part
    by (auto simp: slack_interaction_def Let_def split: option.split)
  moreover have "a \<in> {''veto'', ''dont_send''} \<Longrightarrow> delivery_part (snd (slack_interaction env c v w))
      = delivery_part (snd (veto_draft_request env c (ge_default_tenant env) i w))"
    using assms(2-4) unfolding veto_request_part by (auto simp: slack_interaction_def Let_def)
  moreover have "b = ''publish'' \<Longrightarrow>
      delivery_part (snd (teams_messages env c msg w)) = delivery_part (snd (publish_draft_request env c t i w))"
    using assms(3,5-7) unfolding publish_request_part
    by (simp add: teams_messages_def Let_def del: json_pointer.simps)
  moreover have "b = ''veto'' \<Longrightarrow>
      delivery_part (snd (teams_messages env c msg w)) = delivery_part (snd (veto_draft_request env c t i w))"
    using assms(3,5-7) unfolding veto_request_part
    by (simp add: teams_messages_def Let_def del: json_pointer.simps)
  ultimately show ?thesis unfolding s by blast
qed

text \<open>What a word in the chat can reach.\<close>

lemma post_chat_drafts [simp]: "ts_drafts (dw_store (snd (post_chat cl k b p w))) = ts_drafts (dw_store w)"
  by (simp add: post_chat_def Let_def)

lemma update_other:
  "update_draft d s = Inr s' \<Longrightarrow> k \<noteq> draft_key d \<Longrightarrow> dm_get (ts_drafts s') k = dm_get (ts_drafts s) k"
  by (auto simp: update_draft_def split: if_splits)

lemma finish_other:
  "k \<noteq> draft_key d \<Longrightarrow>
   dm_get (ts_drafts (dw_store (snd (snd (finish_draft d st t r w))))) k = dm_get (ts_drafts (dw_store w)) k"
  using update_other [of "set_status d st t" "dw_store w" _ k] by (simp add: finish_draft_def Let_def split: sum.split)

lemma put_publish_drafts [simp]: "ts_drafts (fst (put_publish_if_absent r s)) = ts_drafts s"
  by (simp add: put_publish_if_absent_def Let_def)

lemma try_publish_other:
  assumes "k \<noteq> draft_key d"
  shows "dm_get (ts_drafts (dw_store (snd (snd (try_publish_channel sv tw pid clk d w))))) k
    = dm_get (ts_drafts (dw_store w)) k"
proof -
  have f: "dm_get (ts_drafts (dw_store (snd (snd (publish_fallback sv tw pid clk d ch m w1))))) k
      = dm_get (ts_drafts (dw_store w1)) k" for ch m w1
    using assms post_chat_drafts [of "ds_client sv" "draft_ledger_key d" True _ w1]
    by (auto simp: publish_fallback_def Let_def finish_other case_prod_beta split: sum.split)
  have p: "dm_get (ts_drafts (dw_store (snd (snd (publish_posted sv pid clk d ch ts w1))))) k
      = dm_get (ts_drafts (dw_store w1)) k" for ch ts w1
    using assms by (auto simp: publish_posted_def Let_def finish_other case_prod_beta)
  show ?thesis
    using assms update_other [of "set_status d Published (clk 0)" "dw_store w" _ k]
    by (auto simp: try_publish_channel_def Let_def f p finish_other case_prod_beta keep_on_error_def
      split: option.split sum.split)
qed

lemma draft_requests_other:
  assumes i: "twin_store_inv (dw_store w)" and k: "k \<noteq> (t, j)"
  shows "dm_get (ts_drafts (dw_store (snd (explicit_publish sv tw t j pid clk w)))) k = dm_get (ts_drafts (dw_store w)) k"
    "dm_get (ts_drafts (dw_store (snd (veto_draft t j clk w)))) k = dm_get (ts_drafts (dw_store w)) k"
proof -
  have key: "draft_key d = (t, j)" if "get_draft (dw_store w) t j = Some d" for d
    using that i by (auto simp: get_draft_def twin_store_inv_def dest: dm_keyed_getD)
  have n: "k \<noteq> draft_key (set_status d st x)" "k \<noteq> draft_key d" if "get_draft (dw_store w) t j = Some d" for d st x
    using key [OF that] k by simp_all
  show "dm_get (ts_drafts (dw_store (snd (explicit_publish sv tw t j pid clk w)))) k = dm_get (ts_drafts (dw_store w)) k"
    using n update_other
    by (auto simp: explicit_publish_def with_draft_and_ledger_def Let_def drop_draft_def case_prod_beta try_publish_other
      split: option.split sum.split)
  show "dm_get (ts_drafts (dw_store (snd (veto_draft t j clk w)))) k = dm_get (ts_drafts (dw_store w)) k"
    using n update_other
    by (auto simp: veto_draft_def with_draft_and_ledger_def Let_def split: option.split sum.split)
qed

lemma capture_drafts:
  "ts_drafts (dw_store (snd (capture_chat_claim env c t uid sub x ch ts dm w))) = ts_drafts (dw_store w)"
  "dw_log (snd (capture_chat_claim env c t uid sub x ch ts dm w)) = dw_log w"
  by (simp_all add: capture_chat_claim_def Let_def gate_log_def observer_log_def push_slack_intent_claim_def
    push_ring_def split: prod.split)

lemma hear_drafts: "ts_drafts (maybe_handle_commitment u t sub x ch ts dm uid clk s) = ts_drafts s"
  by (simp add: maybe_handle_commitment_def Let_def save_commitments_def split: option.split prod.split)

lemma gate_log_drafts [simp]:
  "ts_drafts (dw_store (gate_log env c t k sub d w)) = ts_drafts (dw_store w)" "dw_log (gate_log env c t k sub d w) = dw_log w"
  by (simp_all add: gate_log_def observer_log_def)

text \<open>The draft a Slack event can reach: the sender's newest.\<close>

definition spoken_key :: "gate_env \<Rightarrow> twin_store \<Rightarrow> json \<Rightarrow> (string \<times> string) option" where
  "spoken_key env s body =
     map_option (\<lambda>(tw, d). (ge_default_tenant env, dd_draft_id d))
       (spoken_draft s (ge_default_tenant env)
          (json_str_or (unwrap_or (json_get body ''event'') (JObj [])) ''user'' []))"

lemma handle_message_reach:
  assumes i: "twin_store_inv (dw_store w)"
    and k: "map_option (\<lambda>(tw, d). (ge_default_tenant env, dd_draft_id d))
       (spoken_draft (dw_store w) (ge_default_tenant env) (json_str_or ev ''user'' [])) = own" "own \<noteq> Some k"
  shows "dm_get (ts_drafts (dw_store (snd (handle_message env c ev w)))) k = dm_get (ts_drafts (dw_store w)) k
    \<and> (own = None \<longrightarrow> dw_log (snd (handle_message env c ev w)) = dw_log w)"
proof (cases "spoken_draft (dw_store w) (ge_default_tenant env) (json_str_or ev ''user'' [])")
  case None
  with k show ?thesis
    by (simp add: handle_message_def Let_def handle_chat_word_def capture_drafts hear_drafts split: option.split)
next
  case (Some x)
  obtain tw d where x: "x = (tw, d)" by fastforce
  with k Some have n: "k \<noteq> (ge_default_tenant env, dd_draft_id d)" "own \<noteq> None" by auto
  show ?thesis
    using n by (auto simp: handle_message_def Let_def handle_chat_word_def capture_drafts hear_drafts Some x
      draft_requests_other [OF i n(1)] split: option.split)
qed


text \<open>
  The champion gate can be passed with a part of a name. In a tenant whose champions are set, any
  non-empty piece of one champion's name (in any case) passes the gate, and the roles request of
  that caller succeeds and leaves exactly the champions it names.
\<close>

lemma partial_name_takes_the_roles:
  assumes "x \<in> set (champions_of (load_roles_config s tenant))"
    and "rb_actor_subject body = Some a" "trim a \<noteq> []"
    and "contains (to_ascii_lowercase x) (to_ascii_lowercase (trim a))"
  shows "\<exists>v s'. put_roles env c tenant q body s = (Inr v, s')
    \<and> champions_of (load_roles_config s' tenant)
        = filter (\<lambda>n. n \<noteq> []) (map trim (unwrap_or (rb_champions body) []))"
proof -
  have "actor_is_champion s tenant (Some a)"
    using assms by (auto simp: actor_is_champion_def Let_def list_ex_iff)
  moreover have "List.map_filter as_str (map JStr xs) = xs" for xs
    by (induction xs) (simp_all add: List.map_filter_simps)
  ultimately show ?thesis
    using assms(2) by (simp add: put_roles_def require_champion_def load_roles_config_def get_tenant_kv_def
      put_tenant_kv_def champions_of_def Let_def)
qed

section \<open>Form decoding\<close>

definition percent_encode :: "string \<Rightarrow> string" where
  "percent_encode s = concat (map (\<lambda>c. let n = of_char c in [CHR 0x25, hex_char (n div 16), hex_char (n mod 16)]) s)"

lemma percent_head: "percent_encode s \<noteq> [] \<Longrightarrow> hd (percent_encode s) = CHR 0x25"
  by (cases s) (simp_all add: percent_encode_def Let_def)

text \<open>Text in ASCII survives; a character outside ASCII does not: its bytes are read as characters.\<close>

lemma decode_ascii:
  assumes "\<forall>c\<in>set s. (of_char c :: nat) < 128"
  shows "urlencoding_decode (percent_encode s) = Some s"
proof -
  have ne: "hex_char (of_char c div 16) \<noteq> CHR ''+''" "hex_char (of_char c mod 16) \<noteq> CHR ''+''" if "c \<in> set s" for c
    using assms that by (auto intro!: hex_char_ascii)
  have plus: "map (\<lambda>c. if c = CHR ''+'' then CHR '' '' else c) (percent_encode s) = percent_encode s"
    using ne [symmetric] by (intro map_idI) (auto simp: percent_encode_def Let_def split: if_splits)
  have "decode_bytes (percent_encode s) = Some s"
    using assms
  proof (induction s)
    case (Cons c s)
    have b: "hex_byte (hex_char (of_char c div 16)) (hex_char (of_char c mod 16)) = Some (of_char c)"
    proof -
      have "(of_char c :: nat) div 16 < 16" using Cons.prems by auto
      then show ?thesis by (simp add: hex_byte_def hex_digit_char)
    qed
    have "percent_encode (c # s) = CHR 0x25 # hex_char (of_char c div 16) # hex_char (of_char c mod 16) # percent_encode s"
      by (simp add: percent_encode_def Let_def)
    moreover have "\<not> utf8_cont (hd (percent_encode s))" if "percent_encode s \<noteq> []"
      using percent_head [OF that] by (simp add: utf8_cont_def)
    ultimately show ?case using Cons b by (auto simp: latin1_def)
  qed (simp add: percent_encode_def)
  with plus show ?thesis by (simp add: urlencoding_decode_def)
qed

lemma decode_not_utf8:
  "urlencoding_decode ''%C3%A9'' = Some [CHR 0xC3, CHR 0x83, CHR 0xC2, CHR 0xA9]"
  "urlencoding_decode [CHR 0x25, CHR ''a'', CHR 0xC3, CHR 0xA9] = None"
  by code_simp+

section \<open>A sample service\<close>

definition sample_payload :: json where
  "sample_payload = JObj [(''actions'', JArr [JObj [(''action_id'', JStr ''approve''), (''value'', JStr ''dft_1'')]])]"

definition sample_card :: json where
  "sample_card = JObj [(''value'', JObj [(''action'', JStr ''publish''), (''draft_id'', JStr ''dft_1'')]),
     (''channelData'', JObj [(''tenant'', JObj [(''id'', JStr ''t'')])])]"

definition sample_gate_env :: gate_env where
  "sample_gate_env =
     \<lparr>ge_claim = sample_claim_env, ge_tables = sample_tables, ge_calendar = sample_calendar,
      ge_parse = (\<lambda>s. Some sample_payload), ge_serde_time = (\<lambda>t. ''1970-01-01T00:00:00Z''),
      ge_service = sample_service, ge_default_tenant = ''t'', ge_v2_base = []\<rparr>"

definition sample_call :: gate_call where
  "sample_call = \<lparr>gc_now = 9, gc_clk = (\<lambda>n. 9), gc_texts = (\<lambda>n. ''now''), gc_publish_uuid = ''1'', gc_uuid = ''2''\<rparr>"

lemma gate_worker:
  "gate_run env (map (\<lambda>p. (c, WorkerRun p)) ps) w = run_worker (ge_service env) ps w"
  "gate_run_ok env (map (\<lambda>p. (c, WorkerRun p)) ps) w = worker_run_ok (ge_service env) ps w"
  by (induction ps arbitrary: w) simp_all

lemma sample_env_simps [simp]:
  "ge_service sample_gate_env = sample_service" "ge_default_tenant sample_gate_env = ''t''"
  "slack_payload sample_gate_env ''{}'' = Some sample_payload"
  "gc_clk sample_call = (\<lambda>n. 9)" "gc_publish_uuid sample_call = ''1''"
  by (simp_all add: sample_gate_env_def sample_call_def slack_payload_def strip_prefix_def)

lemma sample_pointers:
  "pointer_str sample_payload [''actions'', ''0'', ''action_id''] = ''approve''"
  "pointer_str sample_payload [''actions'', ''0'', ''value''] = ''dft_1''"
  "json_pointer sample_card [''value'', ''action''] = Some (JStr ''publish'')"
  "json_pointer sample_card [''value'', ''draft_id''] = Some (JStr ''dft_1'')"
  "json_pointer sample_card [''channelData'', ''tenant'', ''id''] = Some (JStr ''t'')"
  by code_simp+

lemma requests_keep_delivery_rules_witness:
  "publish_calls (''t'', ''l'') (gate_run sample_gate_env
     ((map (\<lambda>p. (sample_call, WorkerRun p)) sample_history @ [(sample_call, VetoRequest ''t'' ''dft_1'')])
       @ [(sample_call, SlackAction ''{}'')]) new_world) = []"
proof -
  let ?ps = "map (\<lambda>p. (sample_call, WorkerRun p)) sample_history @ [(sample_call, VetoRequest ''t'' ''dft_1'')]"
  let ?w = "gate_run sample_gate_env ?ps new_world"
  let ?d = "sample_pending\<lparr>dd_status := Vetoed, dd_updated_at := 9\<rparr>"
  have w: "\<exists>s. ?w = \<lparr>dw_store = s, dw_log = []\<rparr> \<and> ts_publishes s = []
      \<and> ts_drafts s = [((''t'', ''dft_1''), ?d)]"
    by (simp add: gate_run_append gate_worker sample_after_start veto_draft_request_def sample_veto gate_log_def
      observer_log_def put_tenant_kv_def) (simp add: sample_store_def new_twin_store_def)
  then obtain s where s: "?w = \<lparr>dw_store = s, dw_log = []\<rparr>" "ts_publishes s = []"
    "ts_drafts s = [((''t'', ''dft_1''), ?d)]" by blast
  have "gate_run_ok sample_gate_env ?ps new_world"
    by (simp add: gate_run_ok_append gate_worker sample_history_ok sample_after_start uuid_unused_def)
      (simp add: sample_store_def new_twin_store_def)
  moreover have "gate_run_ok sample_gate_env [(sample_call, SlackAction ''{}'')] ?w"
    using s by (simp add: uuid_unused_def)
  ultimately have "gate_run_ok sample_gate_env (?ps @ [(sample_call, SlackAction ''{}'')]) new_world"
    by (simp only: gate_run_ok_append simp_thms)
  from requests_keep_delivery_rules [OF this, of "''t''" "''l''" "''dft_1''" ?d] s
  show ?thesis by (simp add: get_draft_def dm_get_def publish_calls_def sample_store_reads)
qed

theorem approval_is_the_same_on_every_route_witness:
  "delivery_part (snd (slack_interactions sample_gate_env sample_call ''{}''
       \<lparr>dw_store = upsert_twin sample_twin sample_store, dw_log = []\<rparr>))
   = delivery_part (snd (teams_messages sample_gate_env sample_call sample_card
       \<lparr>dw_store = upsert_twin sample_twin sample_store, dw_log = []\<rparr>))"
  using approval_is_the_same_on_every_route [of sample_gate_env "''{}''" sample_payload "''dft_1''"
      "''approve''" sample_card "''publish''" "''t''" sample_call
      "\<lparr>dw_store = upsert_twin sample_twin sample_store, dw_log = []\<rparr>"] sample_pointers
  by simp


definition sample_roles_body :: roles_body where
  "sample_roles_body = \<lparr>rb_champions = Some [''mallory''], rb_default_role = None, rb_actor_subject = Some ''o'',
     rb_actor = None\<rparr>"

definition sample_roles :: twin_store where
  "sample_roles = put_tenant_kv ''t'' roles_kv (JObj [(''champions'', JArr [JStr ''octocat''])]) new_twin_store"

lemma partial_name_takes_the_roles_witness:
  "\<exists>v s'. put_roles sample_gate_env sample_call ''t'' \<lparr>aq_actor = None, aq_actor_subject = None\<rparr>
       sample_roles_body sample_roles = (Inr v, s')
     \<and> champions_of (load_roles_config s' ''t'') = [''mallory'']"
proof -
  have c: "''octocat'' \<in> set (champions_of (load_roles_config sample_roles ''t''))" by code_simp
  have t: "trim ''o'' = ''o''" "trim ''mallory'' = ''mallory''"
    "contains (to_ascii_lowercase ''octocat'') (to_ascii_lowercase ''o'')" by code_simp+
  from partial_name_takes_the_roles [OF c, of sample_roles_body "''o''" sample_gate_env sample_call] t
  show ?thesis by (simp add: sample_roles_body_def)
qed

end
