(* ===== verification/Graph_Api.thy ===== *)
theory Graph_Api
  imports Graph_Conflicts Graph_Project Text_Util
begin

text \<open>
  The graph service (\<open>graph-api/src/main.rs\<close>): its requests over the store, the membership and the
  projection engine of the embedded mode. \<open>now\<close> is the reading of the clock, \<open>busy\<close> says that all
  permits of the projection semaphore are taken. Metrics and the file facts of \<open>stats\<close> are left
  out; an embedded projection never waits, so its time limit cannot strike. The lemmas: what an
  answer may depend on, what the merge of people does, and what membership and seed requests change.
\<close>

section \<open>Service and errors\<close>

record graph_service =
  gv_env :: project_env
  gv_dates :: date_parsers
  gv_max_hops :: nat
  gv_default_hops :: nat

record graph_api_error =
  ga_status :: nat
  ga_message :: string

fun graph_api_status :: "graph_error \<Rightarrow> nat" where
  "graph_api_status (GNotFound _) = 404"
| "graph_api_status (GAclDenied _) = 403"
| "graph_api_status (GValidation _) = 400"
| "graph_api_status (GDuplicateEvent _) = 200"
| "graph_api_status _ = 500"

definition api_of_graph :: "graph_error \<Rightarrow> graph_api_error" where
  "api_of_graph e = \<lparr>ga_status = graph_api_status e, ga_message = graph_error_to_string e\<rparr>"

section \<open>Projection and membership\<close>

definition project_event_request ::
  "graph_service \<Rightarrow> bool \<Rightarrow> v1_event \<Rightarrow> project_world \<Rightarrow> (graph_api_error + project_outcome) \<times> project_world" where
  "project_event_request sv busy ev w =
     (if busy then (Inl \<lparr>ga_status = 503, ga_message = ''graph project concurrency limit; retry''\<rparr>, w)
      else (let (w1, out) = project_event (gv_env sv) ev w in (Inr out, w1)))"

definition project_acl_request ::
  "v1_acl_revocation \<Rightarrow> project_world \<Rightarrow> (graph_api_error + project_outcome) \<times> project_world" where
  "project_acl_request rv w =
     (case project_acl_revocation rv w of
        (w1, Inl e) \<Rightarrow> (Inl (api_of_graph e), w1)
      | (w1, Inr out) \<Rightarrow> (Inr out, w1))"

definition on_members :: "(membership \<Rightarrow> membership) \<Rightarrow> project_world \<Rightarrow> project_world" where
  "on_members f w = w\<lparr>pw_members := f (pw_members w)\<rparr>"

definition seed_user :: "string \<Rightarrow> string \<Rightarrow> string list \<Rightarrow> project_world \<Rightarrow> project_world" where
  "seed_user tenant user groups w = on_members (set_groups tenant user groups) w"

definition add_group_request :: "string \<Rightarrow> string \<Rightarrow> string \<Rightarrow> project_world \<Rightarrow> project_world" where
  "add_group_request tenant user g w = on_members (add_group tenant user g) w"

definition remove_group_request :: "string \<Rightarrow> string \<Rightarrow> string \<Rightarrow> project_world \<Rightarrow> project_world" where
  "remove_group_request tenant user g w = on_members (remove_group tenant user g) w"

section \<open>Reads\<close>

definition ctx_for :: "project_world \<Rightarrow> string \<Rightarrow> string \<Rightarrow> query_context" where
  "ctx_for w tenant user =
     \<lparr>qc_tenant_id = tenant, qc_global_user_id = user, qc_group_ids = get_groups (pw_members w) tenant user\<rparr>"

definition get_node_request ::
  "project_world \<Rightarrow> string \<Rightarrow> string \<Rightarrow> string \<Rightarrow> graph_api_error + graph_node" where
  "get_node_request w tenant user i =
     (case get_node (pw_store w) (ctx_for w tenant user) i of
        Some n \<Rightarrow> Inr n
      | None \<Rightarrow> Inl \<lparr>ga_status = 404, ga_message = ''not found or acl denied''\<rparr>)"

definition neighborhood_request ::
  "graph_service \<Rightarrow> instant \<Rightarrow> project_world \<Rightarrow> string \<Rightarrow> string \<Rightarrow> string \<Rightarrow> nat option
   \<Rightarrow> graph_api_error + neighborhood_result" where
  "neighborhood_request sv now w tenant user i hops =
     (case neighborhood (pw_store w) (ctx_for w tenant user) now i
             (min (unwrap_or hops (gv_default_hops sv)) (gv_max_hops sv)) of
        Inl e \<Rightarrow> Inl (api_of_graph e)
      | Inr nb \<Rightarrow> Inr nb)"

definition path_query ::
  "graph_service \<Rightarrow> instant \<Rightarrow> project_world \<Rightarrow> string \<Rightarrow> string \<Rightarrow> string \<Rightarrow> string \<Rightarrow> nat option
   \<Rightarrow> graph_path option option" where
  "path_query sv now w tenant user from_id to_id hops =
     path (pw_store w) (ctx_for w tenant user) now from_id to_id
       (min (unwrap_or hops (gv_default_hops sv)) (gv_max_hops sv))"

definition state_node :: "string \<Rightarrow> string" where
  "state_node i =
     (if starts_with i ''pr:'' \<or> starts_with i ''person:'' then i
      else if contains i ''/pr/'' then pr_node_id i else i)"

definition state_query :: "project_world \<Rightarrow> string \<Rightarrow> string \<Rightarrow> string \<Rightarrow> string option \<Rightarrow> entity_state option" where
  "state_query w tenant user i key =
     get_state (pw_store w) (ctx_for w tenant user) (state_node i) (unwrap_or key ''lifecycle'')"

definition blockers_request :: "instant \<Rightarrow> project_world \<Rightarrow> string \<Rightarrow> string \<Rightarrow> string \<Rightarrow> graph_edge list" where
  "blockers_request now w tenant user i = blockers (pw_store w) (ctx_for w tenant user) now i"

text \<open>An intent is shown with its provenance; its fields are those of the node.\<close>

definition list_intents ::
  "project_world \<Rightarrow> string \<Rightarrow> string \<Rightarrow> nat option \<Rightarrow> bool option \<Rightarrow> (graph_node \<times> bool) list" where
  "list_intents w tenant user limit include_demo =
     (let l = unwrap_or limit 100; demo = unwrap_or include_demo False;
          fetch = (if demo then l else min (max (l * 2) l) 500);
          raw = list_nodes_by_type (pw_store w) (ctx_for w tenant user) ''Intent'' fetch
      in map (\<lambda>n. (n, node_is_demo n)) (take l (filter (\<lambda>n. demo \<or> \<not> node_is_demo n) raw)))"

definition pull_node :: "graph_store \<Rightarrow> query_context \<Rightarrow> string \<Rightarrow> graph_node list \<Rightarrow> graph_node list" where
  "pull_node s ctx i nodes =
     (if list_ex (\<lambda>n. gn_node_id n = i) nodes then nodes
      else case get_node s ctx i of Some n \<Rightarrow> nodes @ [n] | None \<Rightarrow> nodes)"

definition pull_ends :: "graph_store \<Rightarrow> query_context \<Rightarrow> graph_edge list \<Rightarrow> graph_node list \<Rightarrow> graph_node list" where
  "pull_ends s ctx es nodes =
     fold (\<lambda>e ns. pull_node s ctx (ge_to_node_id e) (pull_node s ctx (ge_from_node_id e) ns)) es nodes"

text \<open>The nodes and edges from which the cards are computed; the seed request uses smaller pages.\<close>

definition conflict_inputs ::
  "graph_store \<Rightarrow> query_context \<Rightarrow> instant \<Rightarrow> nat \<Rightarrow> graph_node list \<times> graph_edge list" where
  "conflict_inputs s ctx now page =
     (let intents = list_nodes_by_type s ctx ''Intent'' page;
          blocks = list_edges_by_type s ctx now ''BLOCKS'' page;
          about = list_edges_by_type s ctx now ''ABOUT'' page;
          claims = list_edges_by_type s ctx now ''CLAIMS'' page
      in (pull_ends s ctx (blocks @ about) intents, blocks @ about @ claims))"

definition list_conflicts ::
  "graph_service \<Rightarrow> instant \<Rightarrow> project_world \<Rightarrow> string \<Rightarrow> string \<Rightarrow> nat option \<Rightarrow> bool option
   \<Rightarrow> conflict_card list" where
  "list_conflicts sv now w tenant user limit include_demo =
     (let (nodes, edges) = conflict_inputs (pw_store w) (ctx_for w tenant user) now 300;
          cards = detect_conflicts (gv_dates sv) tenant nodes edges now
      in take (clamp 1 200 (unwrap_or limit 50))
           (if unwrap_or include_demo False then cards else filter (\<lambda>c. \<not> cc_is_demo c) cards))"

definition graph_stats :: "project_world \<Rightarrow> string \<Rightarrow> nat \<times> nat" where
  "graph_stats w tenant = (count_nodes (pw_store w) tenant, count_edges (pw_store w) tenant)"

section \<open>The snapshot for the map\<close>

definition is_demo_seed_node :: "graph_node \<Rightarrow> bool" where
  "is_demo_seed_node n =
     (let i = to_ascii_lowercase (gn_node_id n); lab = to_ascii_lowercase (gn_display_name n);
          resource = to_ascii_lowercase (gn_resource_id n)
      in if opt_str (json_get (gn_properties n) ''seed'') = Some ''intent_demo'' then True
         else if contains i ''gu_demo_'' \<or> contains i ''demo-repo'' \<or> contains i ''/demo-repo/''
                 \<or> contains resource ''demo-repo'' then True
         else eq_ignore_ascii_case (gn_node_type n) ''Person'' \<and> (lab = ''alice'' \<or> lab = ''bob'')
              \<and> (contains i ''demo'' \<or> resource = ''alice'' \<or> resource = ''bob''))"

definition is_person :: "graph_node \<Rightarrow> bool" where
  "is_person n \<longleftrightarrow> eq_ignore_ascii_case (gn_node_type n) ''Person''"

definition node_label :: "graph_node \<Rightarrow> string" where
  "node_label n = (if gn_display_name n = [] then gn_node_id n else gn_display_name n)"

definition person_label :: "graph_node \<Rightarrow> string" where
  "person_label n = to_ascii_lowercase (node_label n)"

definition edge_degree :: "graph_edge list \<Rightarrow> string \<Rightarrow> nat" where
  "edge_degree es i = length (filter (\<lambda>e. ge_from_node_id e = i) es) + length (filter (\<lambda>e. ge_to_node_id e = i) es)"

definition person_score :: "graph_edge list \<Rightarrow> graph_node \<Rightarrow> nat \<times> nat \<times> nat" where
  "person_score es n =
     (edge_degree es (gn_node_id n),
      if list_all (\<lambda>c. digit c \<noteq> None) (gn_resource_id n) then 1 else 0,
      if contains (gn_node_id n) ''gu_seed_'' then 0 else 1)"

text \<open>People of one label, the best first: a stable sort by descending score.\<close>

definition ranked_people :: "graph_node list \<Rightarrow> graph_edge list \<Rightarrow> string \<Rightarrow> graph_node list" where
  "ranked_people ns es lab =
     rev (sort_key (person_score es) (rev (filter (\<lambda>n. is_person n \<and> person_label n = lab) ns)))"

definition person_aliases :: "graph_node list \<Rightarrow> graph_edge list \<Rightarrow> (string \<times> string) list" where
  "person_aliases ns es =
     concat (map (\<lambda>lab. case ranked_people ns es lab of
         [] \<Rightarrow> []
       | r # rs \<Rightarrow> map (\<lambda>n. (gn_node_id n, gn_node_id r)) rs)
       (remdups (map person_label (filter is_person ns))))"

record node_view =
  nv_id :: string
  nv_type :: string
  nv_label :: string
  nv_resource_id :: string
  nv_intent_type :: string
  nv_title :: string
  nv_message :: string
  nv_is_private :: bool

record edge_view =
  ew_id :: string
  ew_type :: string
  ew_from :: string
  ew_to :: string
  ew_event :: string
  ew_valid_from :: instant

definition view_node :: "graph_node \<Rightarrow> node_view" where
  "view_node n =
     (let p = json_get (gn_properties n);
          title = unwrap_or (opt_str (or_else (or_else (p ''title'') (p ''summary'')) (p ''message''))) []
      in \<lparr>nv_id = gn_node_id n, nv_type = gn_node_type n, nv_label = node_label n,
          nv_resource_id = gn_resource_id n, nv_intent_type = unwrap_or (opt_str (p ''intent_type'')) [],
          nv_title = title, nv_message = unwrap_or (opt_str (or_else (p ''message'') (p ''title''))) title,
          nv_is_private = gn_is_private n\<rparr>)"

definition view_edge :: "(string \<times> string) list \<Rightarrow> graph_edge \<Rightarrow> edge_view" where
  "view_edge aliases e =
     \<lparr>ew_id = ge_edge_id e, ew_type = ge_edge_type e,
      ew_from = unwrap_or (map_of aliases (ge_from_node_id e)) (ge_from_node_id e),
      ew_to = unwrap_or (map_of aliases (ge_to_node_id e)) (ge_to_node_id e),
      ew_event = ge_event_id e, ew_valid_from = ge_valid_from e\<rparr>"

definition type_counts :: "string list \<Rightarrow> (string \<times> nat) list" where
  "type_counts ts = map (\<lambda>t. (t, count_list ts t)) (sort (remdups ts))"

record snapshot_view =
  sv_totals :: "nat \<times> nat"
  sv_by_type :: "(string \<times> nat) list"
  sv_edge_by_type :: "(string \<times> nat) list"
  sv_nodes :: "node_view list"
  sv_edges :: "edge_view list"
  sv_aliases_collapsed :: nat
  sv_demo_hidden :: nat
  sv_truncated :: bool

definition hide_demo :: "bool \<Rightarrow> graph_node list \<Rightarrow> string list" where
  "hide_demo include_demo ns =
     (if include_demo then [] else remdups (map gn_node_id (filter is_demo_seed_node ns)))"

definition snapshot_of :: "nat \<times> nat \<Rightarrow> bool \<Rightarrow> graph_node list \<times> graph_edge list \<Rightarrow> snapshot_view" where
  "snapshot_of totals include_demo page =
     (let demo = hide_demo include_demo (fst page);
          nodes = filter (\<lambda>n. gn_node_id n \<notin> set demo) (fst page);
          edges = filter (\<lambda>e. ge_from_node_id e \<notin> set demo \<and> ge_to_node_id e \<notin> set demo) (snd page);
          aliases = person_aliases nodes edges;
          nviews = map view_node (filter (\<lambda>n. gn_node_id n \<notin> fst ` set aliases) nodes);
          eviews = map (view_edge aliases) edges
      in \<lparr>sv_totals = totals, sv_by_type = type_counts (map gn_node_type nodes),
          sv_edge_by_type = type_counts (map ge_edge_type edges), sv_nodes = nviews, sv_edges = eviews,
          sv_aliases_collapsed = length aliases, sv_demo_hidden = length demo,
          sv_truncated = (length nviews + length demo < fst totals \<or> length eviews < snd totals)\<rparr>)"

definition snapshot_request ::
  "instant \<Rightarrow> project_world \<Rightarrow> string \<Rightarrow> string \<Rightarrow> nat option \<Rightarrow> nat option \<Rightarrow> bool option \<Rightarrow> snapshot_view" where
  "snapshot_request now w tenant user node_limit edge_limit include_demo =
     snapshot_of (graph_stats w tenant) (unwrap_or include_demo False)
       (graph_snapshot (pw_store w) (ctx_for w tenant user) now (unwrap_or node_limit 400) (unwrap_or edge_limit 800))"

section \<open>Seed requests\<close>

definition seed_groups :: "string list" where "seed_groups = [''grp_eng'', ''grp_default'']"

definition hours :: "int \<Rightarrow> int" where "hours n = seconds (3600 * n)"

definition seeded_node ::
  "string \<Rightarrow> string \<Rightarrow> string \<Rightarrow> string \<Rightarrow> string \<Rightarrow> (string \<times> json) list \<Rightarrow> bool \<Rightarrow> graph_node" where
  "seeded_node tenant i ty name res props private =
     \<lparr>gn_tenant_id = tenant, gn_node_id = i, gn_node_type = ty, gn_display_name = name, gn_resource_id = res,
      gn_properties = JObj props, gn_is_private = private, gn_allowed_group_ids = seed_groups, gn_acl_version = 1\<rparr>"

definition seeded_edge ::
  "string \<Rightarrow> string \<Rightarrow> string \<Rightarrow> string \<Rightarrow> string \<Rightarrow> instant \<Rightarrow> string \<Rightarrow> (string \<times> json) list \<Rightarrow> bool \<Rightarrow> graph_edge" where
  "seeded_edge tenant eid ty from_id to_id from_time event props private =
     \<lparr>ge_tenant_id = tenant, ge_edge_id = eid, ge_edge_type = ty, ge_from_node_id = from_id, ge_to_node_id = to_id,
      ge_valid_from = from_time, ge_valid_to = None, ge_event_id = event, ge_properties = JObj props,
      ge_is_private = private, ge_allowed_group_ids = seed_groups, ge_acl_version = 1\<rparr>"

definition apply_seed :: "graph_node list \<Rightarrow> graph_edge list \<Rightarrow> project_world \<Rightarrow> project_world" where
  "apply_seed ns es w =
     w\<lparr>pw_store := apply_mutation \<lparr>gm_nodes = ns, gm_edges = es, gm_states = []\<rparr> (pw_store w)\<rparr>"

definition seed_members :: "string \<Rightarrow> string list \<Rightarrow> project_world \<Rightarrow> project_world" where
  "seed_members tenant users w = on_members (fold (\<lambda>u. set_groups tenant u seed_groups) users) w"

definition intent_props ::
  "string \<Rightarrow> nat \<Rightarrow> (string \<times> json) list \<Rightarrow> string \<Rightarrow> string \<Rightarrow> string \<Rightarrow> (string \<times> json) list" where
  "intent_props ty conf evidence about owner seed =
     [(''intent_type'', JStr ty), (''confidence'', JFloat (int conf))] @ evidence
     @ [(''about_node_id'', JStr about), (''owner_node_id'', JStr owner), (''classified_by'', JStr ''rules_v0''),
        (''source'', JStr ''seed''), (''is_demo'', JBool True), (''seed'', JStr seed)]"

definition demo_pr :: "string \<Rightarrow> string" where "demo_pr tenant = ''pr:'' @ tenant @ ''/demo-repo/pr/42''"
definition demo_repo :: "string \<Rightarrow> string" where "demo_repo tenant = ''repo:'' @ tenant @ ''/demo-repo''"
definition demo_person :: "string \<Rightarrow> string" where "demo_person name = ''person:gu_demo_'' @ name"
definition demo_intent :: "string \<Rightarrow> string \<Rightarrow> string \<Rightarrow> string" where
  "demo_intent tenant name tail = ''intent:'' @ demo_person name @ '':'' @ demo_pr tenant @ tail"

definition demo_nodes :: "string \<Rightarrow> graph_node list" where
  "demo_nodes tenant =
     (let seed = (''seed'', JStr ''intent_demo''); pr = demo_pr tenant; res = tenant @ ''/demo-repo/pr/42'';
          p1 = demo_person ''alice''; p2 = demo_person ''bob'';
          title = ''Ship release '' @ em_dash @ '' DO NOT MERGE until freeze lifts'';
          ev = (\<lambda>xs. [(''evidence'', JArr (map JStr (xs @ [''seed:intent_demo''])))])
      in [seeded_node tenant p1 ''Person'' ''alice'' ''alice'' [seed] False,
          seeded_node tenant p2 ''Person'' ''bob'' ''bob'' [seed] False,
          seeded_node tenant (demo_repo tenant) ''Repo'' (tenant @ ''/demo-repo'') (tenant @ ''/demo-repo'') [seed] False,
          seeded_node tenant pr ''PullRequest'' title res
            [(''title'', JStr title), (''state'', JStr ''OPEN''), seed] False,
          seeded_node tenant (demo_intent tenant ''alice'' []) ''Intent'' ''SHIP: ready to ship release'' res
            (intent_props ''SHIP'' 90 (ev [''text:ready to ship'']) pr p1 ''intent_demo'') False,
          seeded_node tenant (demo_intent tenant ''bob'' []) ''Intent''
            (''FREEZE: code freeze '' @ em_dash @ '' do not merge'') res
            (intent_props ''FREEZE'' 95 (ev [''text:do not merge'', ''label:freeze'']) pr p2 ''intent_demo'') False,
          seeded_node tenant (demo_intent tenant ''alice'' '':blocked'') ''Intent'' ''BLOCKED: waiting on security review'' res
            (intent_props ''BLOCKED'' 90 (ev [''text:blocked on'']) pr p1 ''intent_demo'') False,
          seeded_node tenant (''pr:'' @ tenant @ ''/demo-repo/pr/7'') ''PullRequest'' ''Depends on release PR''
            (tenant @ ''/demo-repo/pr/7'') [(''title'', JStr ''Depends on release PR''), seed] False])"

definition demo_edges :: "(string \<Rightarrow> string) \<Rightarrow> instant \<Rightarrow> string \<Rightarrow> graph_edge list" where
  "demo_edges sha now tenant =
     (let edge = (\<lambda>ty a b. seeded_edge tenant (stable_edge_id sha tenant ty a b) ty a b now
                      (''seed-intent-demo-'' @ ty) [(''seed'', JStr ''intent_demo'')] False);
          pr = demo_pr tenant; p1 = demo_person ''alice''; p2 = demo_person ''bob'';
          ship = demo_intent tenant ''alice'' []; freeze = demo_intent tenant ''bob'' [];
          blocked = demo_intent tenant ''alice'' '':blocked''
      in [edge ''AUTHORED'' p1 pr, edge ''BELONGS_TO'' pr (demo_repo tenant), edge ''CLAIMS'' p1 ship,
          edge ''CLAIMS'' p2 freeze, edge ''CLAIMS'' p1 blocked, edge ''ABOUT'' ship pr, edge ''ABOUT'' freeze pr,
          edge ''ABOUT'' blocked pr, edge ''BLOCKS'' pr (''pr:'' @ tenant @ ''/demo-repo/pr/7'')])"

definition seed_intent_demo ::
  "graph_service \<Rightarrow> instant \<Rightarrow> string \<Rightarrow> project_world \<Rightarrow> conflict_card list \<times> project_world" where
  "seed_intent_demo sv now tenant w =
     (let w1 = seed_members tenant [''gu_demo_alice'', ''gu_demo_bob'', ''bridge_reader''] w;
          w2 = apply_seed (demo_nodes tenant) (demo_edges (env_sha (gv_env sv)) now tenant) w1;
          (nodes, edges) = conflict_inputs (pw_store w2) (ctx_for w2 tenant ''gu_demo_alice'') now 50
      in (detect_conflicts (gv_dates sv) tenant nodes edges now, w2))"

record activity_subject =
  as_global_user_id :: string
  as_display_name :: "string option"
  as_provider_user_id :: "string option"

text \<open>\<open>hash\<close> gives the hexadecimal digits of the default hasher on a user and an index.\<close>

definition seed_commit ::
  "(string \<Rightarrow> string) \<Rightarrow> (string \<Rightarrow> nat \<Rightarrow> string) \<Rightarrow> instant \<Rightarrow> string \<Rightarrow> string \<Rightarrow> string \<Rightarrow> string \<Rightarrow> nat
   \<Rightarrow> graph_node \<times> graph_edge" where
  "seed_commit sha hash now tenant repo gu display i =
     (let seed = (''seed'', JStr ''team_activity'');
          c = ''seed'' @ gu @ (if i < 10 then ''0'' else []) @ show_nat i @ ''deadbeefcafe'';
          msg = ''team seed: '' @ display @ '' activity '' @ show_nat (i + 1) @ '' (dual digest pilot)'';
          cid = commit_node_id repo c; p = person_node_id gu
      in (seeded_node tenant cid ''Commit'' (take 7 (hash gu i)) c
            [(''message'', JStr msg), (''title'', JStr msg), (''sha'', JStr c), seed] True,
          seeded_edge tenant (edge_id sha tenant ''AUTHORED'' p cid (''seed:team:'' @ gu @ '':'' @ show_nat i)) ''AUTHORED''
            p cid (now - hours (int i + 1)) (''seed:team:commit:'' @ gu @ '':'' @ show_nat i) [seed] True))"

definition seed_subject ::
  "(string \<Rightarrow> string) \<Rightarrow> (string \<Rightarrow> nat \<Rightarrow> string) \<Rightarrow> instant \<Rightarrow> string \<Rightarrow> string \<Rightarrow> nat \<Rightarrow> activity_subject
   \<Rightarrow> graph_node list \<times> graph_edge list" where
  "seed_subject sha hash now tenant repo n sub =
     (let gu = trim (as_global_user_id sub); seed = (''seed'', JStr ''team_activity'');
          display = unwrap_or (as_display_name sub) gu; provider = unwrap_or (as_provider_user_id sub) display;
          p = person_node_id gu; r = repo_node_id repo;
          cs = map (seed_commit sha hash now tenant repo gu display) [0..<n]
      in if gu = [] then ([], [])
         else (seeded_node tenant p ''Person'' display provider [(''provider_user_id'', JStr provider), seed] False
                 # map fst cs,
               seeded_edge tenant (edge_id sha tenant ''PUSHED_TO'' p r (''seed:team:'' @ gu)) ''PUSHED_TO'' p r
                 (now - hours 2) (''seed:team:push:'' @ gu) [(''ref'', JStr ''refs/heads/main''), seed] True
                 # map snd cs))"

definition seed_team_activity ::
  "graph_service \<Rightarrow> (string \<Rightarrow> nat \<Rightarrow> string) \<Rightarrow> instant \<Rightarrow> string \<Rightarrow> activity_subject list option \<Rightarrow> string option
   \<Rightarrow> nat option \<Rightarrow> project_world \<Rightarrow> bool \<times> project_world" where
  "seed_team_activity sv hash now tenant subjects repo commits w =
     (let r = unwrap_or repo ''neeljoshi18/AI-Manager''; n = clamp 1 8 (unwrap_or commits 3);
          subs = unwrap_or subjects [];
          parts = map (seed_subject (env_sha (gv_env sv)) hash now tenant r n) subs;
          users = filter (\<lambda>u. u \<noteq> []) (map (trim \<circ> as_global_user_id) subs)
      in if subs = [] then (False, w)
         else (True, apply_seed
                 (seeded_node tenant (repo_node_id r) ''Repo'' r r [(''seed'', JStr ''team_activity'')] True
                  # concat (map fst parts)) (concat (map snd parts))
                 (seed_members tenant (users @ [''bridge_reader'']) w)))"

definition story_person :: "string \<Rightarrow> string \<Rightarrow> activity_subject" where
  "story_person x name =
     \<lparr>as_global_user_id = ''gu_story_'' @ x, as_display_name = Some name, as_provider_user_id = Some (''story_'' @ x)\<rparr>"

definition story_subjects :: "activity_subject list option \<Rightarrow> activity_subject list" where
  "story_subjects subjects =
     (case unwrap_or subjects [] of
        [] \<Rightarrow> [story_person ''a'' ''Engineer A'', story_person ''b'' ''Engineer B'']
      | [s] \<Rightarrow> [s, story_person ''b'' ''Engineer B'']
      | ss \<Rightarrow> ss)"

definition story_node :: "string \<Rightarrow> activity_subject \<Rightarrow> graph_node" where
  "story_node tenant s =
     (let name = unwrap_or (as_display_name s) (as_global_user_id s);
          provider = unwrap_or (as_provider_user_id s) name
      in seeded_node tenant (person_node_id (trim (as_global_user_id s))) ''Person'' name provider
           [(''seed'', JStr ''graph_story''), (''provider_user_id'', JStr provider)] False)"

definition story_nodes :: "string \<Rightarrow> string \<Rightarrow> activity_subject \<Rightarrow> activity_subject \<Rightarrow> graph_node list" where
  "story_nodes tenant repo s1 s2 =
     (let p1 = person_node_id (trim (as_global_user_id s1)); p2 = person_node_id (trim (as_global_user_id s2));
          res = repo @ ''/pr/story-1''; pr = pr_node_id res;
          title = ''Ship pilot release '' @ em_dash @ '' dual-owner review'';
          intent = (\<lambda>p tail ty conf name. seeded_node tenant (''intent:'' @ p @ '':'' @ pr @ tail) ''Intent'' name res
                      (intent_props ty conf [] pr p ''graph_story'') True)
      in [story_node tenant s1, story_node tenant s2,
          seeded_node tenant (repo_node_id repo) ''Repo'' repo repo [(''seed'', JStr ''graph_story'')] True,
          seeded_node tenant pr ''PullRequest'' title res
            [(''title'', JStr title), (''state'', JStr ''OPEN''), (''seed'', JStr ''graph_story'')] True,
          intent p1 '':ship'' ''SHIP'' 88 ''SHIP: ready for pilot'',
          intent p2 '':freeze'' ''FREEZE'' 90 ''FREEZE: hold merge until demo'',
          intent p1 '':blocked'' ''BLOCKED'' 85 ''BLOCKED: waiting on partner review''])"

definition story_edges ::
  "(string \<Rightarrow> string) \<Rightarrow> instant \<Rightarrow> string \<Rightarrow> string \<Rightarrow> string \<Rightarrow> string \<Rightarrow> graph_edge list" where
  "story_edges sha now tenant repo p1 p2 =
     (let edge = (\<lambda>ty a b ev h. seeded_edge tenant (edge_id sha tenant ty a b ev) ty a b (now - hours h) ev
                      [(''seed'', JStr ''graph_story'')] True);
          pr = pr_node_id (repo @ ''/pr/story-1''); r = repo_node_id repo;
          ship = ''intent:'' @ p1 @ '':'' @ pr @ '':ship''; freeze = ''intent:'' @ p2 @ '':'' @ pr @ '':freeze'';
          blocked = ''intent:'' @ p1 @ '':'' @ pr @ '':blocked''
      in [edge ''AUTHORED'' p1 pr ''story:authored:p1'' 6, edge ''BELONGS_TO'' pr r ''story:belongs'' 6,
          edge ''PUSHED_TO'' p1 r ''story:push:p1'' 5, edge ''PUSHED_TO'' p2 r ''story:push:p2'' 4,
          edge ''CLAIMS'' p1 ship ''story:claims:ship'' 3, edge ''CLAIMS'' p2 freeze ''story:claims:freeze'' 3,
          edge ''ABOUT'' ship pr ''story:about:ship'' 3, edge ''ABOUT'' freeze pr ''story:about:freeze'' 3,
          edge ''ABOUT'' blocked pr ''story:about:blocked'' 2, edge ''BLOCKS'' freeze ship ''story:blocks'' 2,
          seeded_edge tenant (stable_edge_id sha tenant ''BLOCKS'' blocked pr) ''BLOCKS'' blocked pr (now - hours 1)
            ''story:blocks:pr'' [(''seed'', JStr ''graph_story'')] True])"

definition seed_graph_story ::
  "graph_service \<Rightarrow> instant \<Rightarrow> string \<Rightarrow> activity_subject list option \<Rightarrow> string option \<Rightarrow> project_world \<Rightarrow> project_world" where
  "seed_graph_story sv now tenant subjects repo w =
     (let r = unwrap_or repo ''neeljoshi18/AI-Manager''; subs = story_subjects subjects;
          s1 = subs ! 0; s2 = subs ! 1
      in apply_seed (story_nodes tenant r s1 s2)
           (story_edges (env_sha (gv_env sv)) now tenant r
              (person_node_id (trim (as_global_user_id s1))) (person_node_id (trim (as_global_user_id s2))))
           (seed_members tenant (map (trim \<circ> as_global_user_id) subs @ [''bridge_reader'']) w))"

section \<open>Answers and visibility\<close>

text \<open>The world in which everything the caller may not see has been removed.\<close>

definition seen_by :: "string \<Rightarrow> string \<Rightarrow> project_world \<Rightarrow> project_world" where
  "seen_by tenant user w = w\<lparr>pw_store := visible_part (ctx_for w tenant user) (pw_store w)\<rparr>"

lemma ctx_for_seen [simp]: "ctx_for (seen_by tenant user w) t u = ctx_for w t u"
  by (simp add: ctx_for_def seen_by_def)

lemma pull_ends_cong:
  assumes "get_node s ctx = get_node s' ctx"
  shows "pull_ends s ctx = pull_ends s' ctx"
proof -
  have "pull_node s ctx = pull_node s' ctx" by (intro ext) (simp add: pull_node_def assms)
  then show ?thesis by (intro ext) (simp add: pull_ends_def)
qed

lemma conflict_inputs_visible:
  assumes "graph_store_inv s"
  shows "conflict_inputs (visible_part ctx s) ctx now page = conflict_inputs s ctx now page"
  using pull_ends_cong [of "visible_part ctx s" ctx s] reads_visible_part [OF assms]
  by (simp add: conflict_inputs_def Let_def fun_eq_iff)

text \<open>
  C28. The answers of the graph service depend on what the caller may see, and on two totals. For
  every tenant, user and query, the node, state, neighbourhood, path, blocker, intent and conflict
  requests and the map answer the same, errors included, when all hidden nodes, edges and states are
  taken out of the store; only the numbers of nodes and edges of the tenant, and the flag
  \<open>truncated\<close> computed from them, count hidden ones.
\<close>

theorem answers_show_visible_part_only:
  assumes "graph_store_inv (pw_store w)" "w' = seen_by t u w"
  shows "get_node_request w' t u i = get_node_request w t u i
    \<and> state_query w' t u i key = state_query w t u i key
    \<and> neighborhood_request sv now w' t u i hops = neighborhood_request sv now w t u i hops
    \<and> path_query sv now w' t u i j hops = path_query sv now w t u i j hops
    \<and> blockers_request now w' t u i = blockers_request now w t u i
    \<and> list_intents w' t u lim demo = list_intents w t u lim demo
    \<and> list_conflicts sv now w' t u lim demo = list_conflicts sv now w t u lim demo
    \<and> (snapshot_request now w' t u nl el demo)\<lparr>sv_totals := x, sv_truncated := b\<rparr>
        = (snapshot_request now w t u nl el demo)\<lparr>sv_totals := x, sv_truncated := b\<rparr>"
proof -
  note r = reads_visible_part [OF assms(1)]
  have s: "pw_store w' = visible_part (ctx_for w t u) (pw_store w)" and c: "ctx_for w' t u = ctx_for w t u"
    by (simp_all add: assms(2) seen_by_def ctx_for_def)
  show ?thesis
    unfolding get_node_request_def state_query_def neighborhood_request_def path_query_def blockers_request_def
      list_intents_def list_conflicts_def snapshot_request_def s c r conflict_inputs_visible [OF assms(1)]
    by (simp add: snapshot_of_def Let_def)
qed

section \<open>Membership and seed requests\<close>

lemma groups_set [simp]:
  "set (get_groups (set_groups t u gs m) t' u') = (if t' = t \<and> u' = u then set gs else set (get_groups m t' u'))"
  by (simp add: get_groups_def set_groups_def)

lemma seed_members_groups:
  "set (get_groups (pw_members (seed_members t us w)) t u)
     = (if u \<in> set us then set seed_groups else set (get_groups (pw_members w) t u))"
proof -
  have "set (get_groups (fold (\<lambda>u. set_groups t u seed_groups) us m) t u)
      = (if u \<in> set us then set seed_groups else set (get_groups m t u))" for m
    by (induction us arbitrary: m) simp_all
  then show ?thesis by (simp add: seed_members_def on_members_def)
qed

text \<open>
  Seeding activity for real people replaces their groups: whatever groups a subject had, only the
  two seed groups are left.
\<close>

lemma seeding_replaces_groups:
  assumes "sub \<in> set subs" "trim (as_global_user_id sub) = u" "u \<noteq> []"
  shows "set (get_groups (pw_members (snd (seed_team_activity sv hash now t (Some subs) repo n w))) t u)
    = {''grp_eng'', ''grp_default''}"
proof -
  have "u \<in> set (filter (\<lambda>u. u \<noteq> []) (map (trim \<circ> as_global_user_id) subs) @ [''bridge_reader''])"
    using assms by auto
  with seed_members_groups [of t _ w u] assms(1) show ?thesis
    by (auto simp: seed_team_activity_def Let_def apply_seed_def seed_groups_def)
qed

text \<open>The nodes of the story count as demo data for the lists, and are no demo data for the map.\<close>

lemma story_shown_on_map:
  "list_all node_is_demo (story_nodes ''t'' ''acme/app'' (story_person ''a'' ''Ann'') (story_person ''b'' ''Ben''))"
  "\<not> list_ex is_demo_seed_node (story_nodes ''t'' ''acme/app'' (story_person ''a'' ''Ann'') (story_person ''b'' ''Ben''))"
  by code_simp+

lemma demo_hidden_everywhere:
  "list_all node_is_demo (demo_nodes t)" "list_all is_demo_seed_node (demo_nodes t)"
  by (simp_all add: demo_nodes_def Let_def seeded_node_def node_is_demo_def is_demo_seed_node_def intent_props_def opt_str_def)

text \<open>
  Access can be granted by anyone who can reach the service. One membership request naming any
  group that may see a node makes the node readable for any chosen user, whatever the user could see
  before; there is no caller to check, the user is a parameter of the request.
\<close>

lemma membership_request_opens_node:
  assumes "graph_store_inv (pw_store w)" "t \<noteq> []"
    and "dm_get (gs_nodes (pw_store w)) (t, i) = Some n" "g \<in> set (gn_allowed_group_ids n)"
  shows "get_node_request (seed_user t u [g] w) t u i = Inr n
    \<and> get_node_request (add_group_request t u g w) t u i = Inr n"
proof -
  have "gn_tenant_id n = t"
    using assms(1,3) by (auto simp: graph_store_inv_def dest: dm_keyed_getD)
  moreover have "g \<in> set (get_groups (add_group t u g m) t u)" for m
    by (simp add: get_groups_def add_group_def)
  moreover have "get_groups (set_groups t u [g] m) t u = [g]" for m
    by (simp add: get_groups_def set_groups_def)
  ultimately show ?thesis
    using assms(2-4)
    by (auto simp: get_node_request_def get_node_def seed_user_def add_group_request_def on_members_def ctx_for_def
      visible_node_def acl_allows_iff)
qed

section \<open>The merge of people\<close>

lemma page_ids_distinct:
  assumes "graph_store_inv s"
  shows "distinct (map gn_node_id (fst (graph_snapshot s ctx now nl el)))"
proof -
  let ?xs = "filter (\<lambda>e. fst (fst e) = qc_tenant_id ctx \<and> visible_node ctx (snd e)) (gs_nodes s)"
  have k: "dm_keyed (\<lambda>n. (gn_tenant_id n, gn_node_id n)) (gs_nodes s)" using assms by (simp add: graph_store_inv_def)
  then have "distinct (map fst ?xs)" by (simp add: dm_keyed_def dm_ok_def distinct_map_filter)
  moreover have "map fst ?xs = map (\<lambda>n. (qc_tenant_id ctx, gn_node_id n)) (map snd ?xs)"
    using k by (auto simp: dm_keyed_def)
  ultimately have "distinct (map (Pair (qc_tenant_id ctx)) (map gn_node_id (map snd ?xs)))"
    by (simp add: o_def)
  then have d: "distinct (map gn_node_id (map snd ?xs))" unfolding distinct_map [of "Pair _"] by blast
  have "distinct (map gn_node_id (take k (sort_key f (map snd ?xs))))" for k and f :: "graph_node \<Rightarrow> nat \<times> string"
  proof -
    have "mset (map gn_node_id (sort_key f (map snd ?xs))) = mset (map gn_node_id (map snd ?xs))"
      by (simp only: mset_map mset_sort)
    then have "distinct (map gn_node_id (sort_key f (map snd ?xs)))" using d mset_eq_imp_distinct_iff by blast
    then show ?thesis by (simp only: take_map [symmetric] distinct_take)
  qed
  then show ?thesis by (simp add: graph_snapshot_def Let_def)
qed

lemma ranked_set: "set (ranked_people ns es lab) = {n \<in> set ns. is_person n \<and> person_label n = lab}"
  by (auto simp: ranked_people_def)

lemma ranked_distinct: "distinct ns \<Longrightarrow> distinct (ranked_people ns es lab)"
  by (simp add: ranked_people_def)

text \<open>Everyone of a label but the best is merged into the best, who is not merged.\<close>

lemma aliases_iff:
  "(i, j) \<in> set (person_aliases ns es) \<longleftrightarrow>
     (\<exists>lab r rs n. ranked_people ns es lab = r # rs \<and> n \<in> set rs \<and> i = gn_node_id n \<and> j = gn_node_id r)"
proof -
  define P where "P lab \<longleftrightarrow> (\<exists>r rs n. ranked_people ns es lab = r # rs \<and> n \<in> set rs \<and> i = gn_node_id n \<and> j = gn_node_id r)"
    for lab
  have c: "(i, j) \<in> set (case ranked_people ns es lab of [] \<Rightarrow> [] | r # rs \<Rightarrow> map (\<lambda>n. (gn_node_id n, gn_node_id r)) rs)
      \<longleftrightarrow> P lab" for lab
    by (cases "ranked_people ns es lab") (auto simp: P_def)
  have "lab \<in> set (map person_label (filter is_person ns))" if "P lab" for lab
    using ranked_set [of ns es lab] that by (auto simp: P_def)
  moreover have "(i, j) \<in> set (person_aliases ns es)
      \<longleftrightarrow> (\<exists>lab\<in>set (remdups (map person_label (filter is_person ns))). P lab)"
    unfolding person_aliases_def set_concat set_map [of _ "remdups _"] by (simp only: UN_iff bex_simps c image_image)
  ultimately show ?thesis unfolding P_def [symmetric] by (metis set_remdups)
qed

lemma alias_target:
  assumes d: "distinct (map gn_node_id ns)" and m: "(i, j) \<in> set (person_aliases ns es)"
  shows "\<exists>r\<in>set ns. j = gn_node_id r \<and> j \<notin> fst ` set (person_aliases ns es)"
proof -
  obtain lab r rs n where r: "ranked_people ns es lab = r # rs" "j = gn_node_id r"
    using m unfolding aliases_iff by blast
  have rn: "r \<in> set ns" "person_label r = lab" using ranked_set [of ns es lab] r by auto
  have "j \<notin> fst ` set (person_aliases ns es)"
  proof
    assume "j \<in> fst ` set (person_aliases ns es)"
    then obtain k where "(j, k) \<in> set (person_aliases ns es)" by force
    then obtain lab' r' rs' n' where n': "ranked_people ns es lab' = r' # rs'" "n' \<in> set rs'" "j = gn_node_id n'"
      unfolding aliases_iff by blast
    have "n' \<in> set ns" "person_label n' = lab'" using ranked_set [of ns es lab'] n' by auto
    then have "n' = r" using d r(2) n'(3) rn(1) by (auto simp: distinct_map inj_on_def)
    then have "lab' = lab" using rn \<open>person_label n' = lab'\<close> by simp
    then have "r \<in> set rs" using n' r(1) \<open>n' = r\<close> by simp
    then show False using ranked_distinct [of ns es lab] d r(1) by (simp add: distinct_map)
  qed
  with r rn show ?thesis by blast
qed

lemma shown_people_differ:
  assumes d: "distinct (map gn_node_id ns)" and m: "a \<in> set ns" "b \<in> set ns" "a \<noteq> b"
    and p: "is_person a" "is_person b" "person_label a = person_label b"
  shows "gn_node_id a \<in> fst ` set (person_aliases ns es) \<or> gn_node_id b \<in> fst ` set (person_aliases ns es)"
proof -
  have "a \<in> set (ranked_people ns es (person_label a))" "b \<in> set (ranked_people ns es (person_label a))"
    using m p by (simp_all add: ranked_set)
  moreover then obtain r rs where r: "ranked_people ns es (person_label a) = r # rs"
    by (cases "ranked_people ns es (person_label a)") auto
  ultimately have "a \<in> set rs \<or> b \<in> set rs" using m(3) by auto
  then have "\<exists>i\<in>{gn_node_id a, gn_node_id b}. (i, gn_node_id r) \<in> set (person_aliases ns es)"
    unfolding aliases_iff using r by blast
  then show ?thesis by force
qed

definition shown_nodes :: "bool \<Rightarrow> graph_node list \<Rightarrow> graph_node list" where
  "shown_nodes include_demo ns = filter (\<lambda>n. include_demo \<or> \<not> is_demo_seed_node n) ns"

lemma hidden_ids:
  assumes "distinct (map gn_node_id ns)"
  shows "filter (\<lambda>n. gn_node_id n \<notin> set (hide_demo demo ns)) ns = shown_nodes demo ns"
  using assms by (auto simp: shown_nodes_def hide_demo_def distinct_map inj_on_def intro!: filter_cong)

lemma view_end:
  assumes "distinct (map gn_node_id ns)" "i \<in> gn_node_id ` set ns"
  shows "unwrap_or (map_of (person_aliases ns es) i) i
    \<in> gn_node_id ` {n \<in> set ns. gn_node_id n \<notin> fst ` set (person_aliases ns es)}"
proof (cases "map_of (person_aliases ns es) i")
  case None
  then have "i \<notin> fst ` set (person_aliases ns es)" by (simp add: map_of_eq_None_iff)
  with assms(2) None show ?thesis by auto
next
  case (Some j)
  then show ?thesis using alias_target [OF assms(1) map_of_SomeD [OF Some]] by auto
qed

text \<open>
  The map merges people and leaves no edge dangling. In every answer no two people have the
  same label up to case; every edge of the page between two nodes that are no hidden demo data is in
  the answer, and both its ends are nodes of the answer, so merging a duplicate moves its edges to
  the person that stands for it.
\<close>

lemma snapshot_people_are_merged:
  assumes "graph_store_inv (pw_store w)"
    and "page = graph_snapshot (pw_store w) (ctx_for w t u) now (unwrap_or nl 400) (unwrap_or el 800)"
    and "v = snapshot_request now w t u nl el demo"
    and "e \<in> set (snd page)"
    and "{ge_from_node_id e, ge_to_node_id e} \<subseteq> gn_node_id ` set (shown_nodes (demo = Some True) (fst page))"
  shows "distinct (map (to_ascii_lowercase \<circ> nv_label)
      (filter (\<lambda>n. eq_ignore_ascii_case (nv_type n) ''Person'') (sv_nodes v)))
    \<and> (\<exists>x\<in>set (sv_edges v). ew_id x = ge_edge_id e \<and> {ew_from x, ew_to x} \<subseteq> nv_id ` set (sv_nodes v))"
proof -
  define ns where "ns = shown_nodes (demo = Some True) (fst page)"
  have flag: "unwrap_or demo False = (demo = Some True)" by (cases demo) auto
  have dp: "distinct (map gn_node_id (fst page))" unfolding assms(2) by (rule page_ids_distinct [OF assms(1)])
  then have d: "distinct (map gn_node_id ns)" by (simp add: ns_def shown_nodes_def distinct_map_filter)
  define hidden where "hidden = set (hide_demo (demo = Some True) (fst page))"
  define es where "es = filter (\<lambda>e. ge_from_node_id e \<notin> hidden \<and> ge_to_node_id e \<notin> hidden) (snd page)"
  have hn: "filter (\<lambda>n. gn_node_id n \<notin> hidden) (fst page) = ns"
    unfolding hidden_def ns_def by (rule hidden_ids [OF dp])
  have vn: "sv_nodes v = map view_node (filter (\<lambda>n. gn_node_id n \<notin> fst ` set (person_aliases ns es)) ns)"
    and ve: "sv_edges v = map (view_edge (person_aliases ns es)) es"
    using hn by (simp_all del: filter_filter add: assms(3) snapshot_request_def snapshot_of_def Let_def flag
        flip: assms(2) hidden_def es_def)
  let ?kept = "filter (\<lambda>n. is_person n \<and> gn_node_id n \<notin> fst ` set (person_aliases ns es)) ns"
  have "filter (\<lambda>n. eq_ignore_ascii_case (nv_type n) ''Person'') (sv_nodes v) = map view_node ?kept"
    unfolding vn by (simp add: filter_map o_def is_person_def view_node_def Let_def conj_commute)
  moreover have "distinct (map person_label ?kept)"
    using d shown_people_differ [OF d, of _ _ es] by (auto simp: distinct_map inj_on_def)
  ultimately have "distinct (map (to_ascii_lowercase \<circ> nv_label)
      (filter (\<lambda>n. eq_ignore_ascii_case (nv_type n) ''Person'') (sv_nodes v)))"
    by (simp add: o_def view_node_def Let_def person_label_def [abs_def])
  moreover have "gn_node_id n \<notin> hidden" if "n \<in> set ns" for n using that unfolding hn [symmetric] by simp
  then have "e \<in> set es" using assms(4,5) unfolding es_def ns_def [symmetric] by auto
  moreover have "nv_id ` set (sv_nodes v) = gn_node_id ` {n \<in> set ns. gn_node_id n \<notin> fst ` set (person_aliases ns es)}"
    unfolding vn by (auto simp: view_node_def Let_def image_iff)
  ultimately show ?thesis
    using view_end [OF d] assms(5) unfolding ns_def [symmetric] ve
    by (intro conjI bexI [of _ "view_edge (person_aliases ns es) e"]) (simp_all add: view_edge_def)
qed

section \<open>The properties at concrete requests\<close>

definition sample_service_graph :: graph_service where
  "sample_service_graph =
     \<lparr>gv_env = \<lparr>env_sha = (\<lambda>s. s), env_alnum = (\<lambda>c. False)\<rparr>, gv_dates = no_dates, gv_max_hops = 6, gv_default_hops = 3\<rparr>"

definition sample_pw :: project_world where
  "sample_pw = \<lparr>pw_store = sample_graph, pw_members = []\<rparr>"

theorem answers_show_visible_part_only_witness:
  "map snd (gs_nodes (pw_store (seen_by ''t'' ''gu_x'' sample_pw))) = [sample_node ''a'' False, sample_node ''b'' False]
   \<and> blockers_request 5 (seen_by ''t'' ''gu_x'' sample_pw) ''t'' ''gu_x'' ''b'' = blockers_request 5 sample_pw ''t'' ''gu_x'' ''b''"
proof (intro conjI)
  have i: "graph_store_inv (pw_store sample_pw)" by (simp add: sample_pw_def sample_graph_inv)
  show "map snd (gs_nodes (pw_store (seen_by ''t'' ''gu_x'' sample_pw))) = [sample_node ''a'' False, sample_node ''b'' False]"
    by code_simp
  show "blockers_request 5 (seen_by ''t'' ''gu_x'' sample_pw) ''t'' ''gu_x'' ''b'' = blockers_request 5 sample_pw ''t'' ''gu_x'' ''b''"
    using answers_show_visible_part_only [OF i refl, of "''t''" "''gu_x''" "''b''" _ sample_service_graph 5] by blast
qed

lemma membership_request_opens_node_witness:
  "get_node_request sample_pw ''t'' ''gu_x'' ''c'' = Inl \<lparr>ga_status = 404, ga_message = ''not found or acl denied''\<rparr>
   \<and> get_node_request (seed_user ''t'' ''gu_x'' [''grp''] sample_pw) ''t'' ''gu_x'' ''c'' = Inr (sample_node ''c'' True)"
proof (intro conjI)
  have i: "graph_store_inv (pw_store sample_pw)" by (simp add: sample_pw_def sample_graph_inv)
  have n: "dm_get (gs_nodes (pw_store sample_pw)) (''t'', ''c'') = Some (sample_node ''c'' True)"
    by (simp add: sample_pw_def sample_graph_value dm_get_def)
  show "get_node_request sample_pw ''t'' ''gu_x'' ''c'' = Inl \<lparr>ga_status = 404, ga_message = ''not found or acl denied''\<rparr>"
    by code_simp
  show "get_node_request (seed_user ''t'' ''gu_x'' [''grp''] sample_pw) ''t'' ''gu_x'' ''c'' = Inr (sample_node ''c'' True)"
    using membership_request_opens_node [OF i _ n, of "''grp''"] by (simp add: sample_node_def)
qed

definition sample_people :: graph_mutation where
  "sample_people = \<lparr>gm_nodes =
      [(sample_node ''person:1'' False)\<lparr>gn_node_type := ''Person'', gn_display_name := ''Ann''\<rparr>,
       (sample_node ''person:2'' False)\<lparr>gn_node_type := ''Person'', gn_display_name := ''ann''\<rparr>,
       sample_node ''a'' False],
     gm_edges = [sample_edge ''e1'' ''person:1'' ''a'', sample_edge ''e2'' ''person:2'' ''a'',
                 sample_edge ''e3'' ''a'' ''person:2''], gm_states = []\<rparr>"

definition sample_team :: project_world where
  "sample_team = \<lparr>pw_store = apply_mutation sample_people new_graph_store, pw_members = []\<rparr>"

lemma snapshot_people_are_merged_witness:
  "map nv_id (sv_nodes (snapshot_request 5 sample_team ''t'' ''gu_x'' None None None)) = [''person:2'', ''a'']
   \<and> list_ex (\<lambda>x. ew_id x = ''e1'' \<and> ew_from x \<in> {''person:2'', ''a''})
        (sv_edges (snapshot_request 5 sample_team ''t'' ''gu_x'' None None None))"
proof -
  let ?page = "graph_snapshot (pw_store sample_team) (ctx_for sample_team ''t'' ''gu_x'') 5 (unwrap_or None 400) (unwrap_or None 800)"
  let ?v = "snapshot_request 5 sample_team ''t'' ''gu_x'' None None None"
  have i: "graph_store_inv (pw_store sample_team)" by (simp add: sample_team_def)
  have e: "sample_edge ''e1'' ''person:1'' ''a'' \<in> set (snd ?page)" by code_simp
  have n: "{ge_from_node_id (sample_edge ''e1'' ''person:1'' ''a''), ge_to_node_id (sample_edge ''e1'' ''person:1'' ''a'')}
      \<subseteq> gn_node_id ` set (shown_nodes (None = Some True) (fst ?page))" by code_simp
  have v: "map nv_id (sv_nodes ?v) = [''person:2'', ''a'']" by code_simp
  then have "nv_id ` set (sv_nodes ?v) = {''person:2'', ''a''}" by (metis empty_set list.simps(15) set_map)
  with snapshot_people_are_merged [OF i refl refl e n] v show ?thesis
    by (auto simp: list_ex_iff sample_edge_def)
qed

end
