(* ===== verification/Graph_Projector.thy ===== *)
theory Graph_Projector
  imports Graph_Project
begin

text \<open>
  The projector (\<open>graph-projector/src/main.rs\<close>): one consuming loop per topic, all on one projection
  engine, each with a stored offset. The loops are cut at their suspension points, so that loops of
  different topics interleave and the process can stop at any point; the graph and the stored offsets
  survive. The answers of the broker and the JSON decoders are parameters; a stored offset may
  fail to be written. Lemmas: a run is an in-order projection of each topic, every record once.
\<close>

section \<open>Stored offsets and topics\<close>

type_synonym offsets = "((string \<times> string \<times> int) \<times> int) list"

definition load_offset :: "offsets \<Rightarrow> string \<Rightarrow> string \<Rightarrow> int \<Rightarrow> int option" where
  "load_offset os g topic part = dm_get os (g, topic, part)"

definition save_offset :: "string \<Rightarrow> string \<Rightarrow> int \<Rightarrow> int \<Rightarrow> offsets \<Rightarrow> offsets" where
  "save_offset g topic part next os = dm_put (g, topic, part) next os"

definition resolve_start_offset :: "offsets \<Rightarrow> string \<Rightarrow> string \<Rightarrow> int \<Rightarrow> int \<Rightarrow> int" where
  "resolve_start_offset os g topic part earliest =
     (case load_offset os g topic part of Some n \<Rightarrow> n | None \<Rightarrow> earliest)"

text \<open>\<open>topics_env\<close> and \<open>legacy\<close> are the environment variables \<open>KAFKA_TOPICS\<close> and \<open>KAFKA_TOPIC\<close>.\<close>

definition topic_list :: "string \<Rightarrow> string list" where
  "topic_list s = filter (\<lambda>t. t \<noteq> []) (map trim (split_on (CHR '','') s))"

definition default_topics :: string where "default_topics = ''events.raw,events.acl''"

definition parse_topics :: "string option \<Rightarrow> string option \<Rightarrow> string \<Rightarrow> string list" where
  "parse_topics topics_env legacy raw =
     (if trim raw = [] then topic_list (unwrap_or legacy default_topics)
      else if raw = default_topics \<and> topics_env = None \<and> trim (unwrap_or legacy []) \<noteq> []
      then topic_list (unwrap_or legacy [])
      else topic_list raw)"

section \<open>Payloads\<close>

record projector_conf =
  pc_group :: string
  pc_partition :: int
  pc_env :: project_env
  pc_message :: "string \<Rightarrow> v1_bus_payload option"
  pc_event :: "string \<Rightarrow> v1_event option"
  pc_acl :: "string \<Rightarrow> v1_acl_revocation option"
  pc_earliest :: "string \<Rightarrow> int"

definition decode_payload :: "projector_conf \<Rightarrow> string \<Rightarrow> v1_bus_payload option" where
  "decode_payload c v =
     (case pc_message c v of Some p \<Rightarrow> Some p
      | None \<Rightarrow> (case pc_event c v of Some ev \<Rightarrow> Some (PEvent ev)
                | None \<Rightarrow> map_option PAcl (pc_acl c v)))"

datatype payload_result = Projected | Unrecognized | ProjectFailed graph_error

definition handle_value :: "projector_conf \<Rightarrow> string \<Rightarrow> project_world \<Rightarrow> payload_result \<times> project_world" where
  "handle_value c v w =
     (case decode_payload c v of
        None \<Rightarrow> (Unrecognized, w)
      | Some (PEvent ev) \<Rightarrow> (Projected, fst (project_event (pc_env c) ev w))
      | Some (PAcl rv) \<Rightarrow>
          (case project_acl_revocation rv w of
             (w1, Inr out) \<Rightarrow> (Projected, w1)
           | (w1, Inl e) \<Rightarrow> (ProjectFailed e, w1)))"

section \<open>The loops\<close>

record bus_record =
  br_offset :: int
  br_value :: "string option"

text \<open>The local state of one loop: the next offset and the records fetched and not yet taken.\<close>

record topic_reader =
  tr_offset :: int
  tr_batch :: "bus_record list"

record projector =
  pj_world :: project_world
  pj_offsets :: offsets
  pj_readers :: "string \<Rightarrow> topic_reader"

definition start_reader :: "projector_conf \<Rightarrow> offsets \<Rightarrow> string \<Rightarrow> topic_reader" where
  "start_reader c os t =
     \<lparr>tr_offset = resolve_start_offset os (pc_group c) t (pc_partition c) (pc_earliest c t), tr_batch = []\<rparr>"

definition advance_past :: "projector_conf \<Rightarrow> string \<Rightarrow> bool \<Rightarrow> bus_record \<Rightarrow> bus_record list \<Rightarrow> projector \<Rightarrow> projector" where
  "advance_past c t saved r rest p =
     p\<lparr>pj_readers := (pj_readers p)(t := \<lparr>tr_offset = br_offset r + 1, tr_batch = rest\<rparr>),
       pj_offsets := (if saved then save_offset (pc_group c) t (pc_partition c) (br_offset r + 1) (pj_offsets p)
                      else pj_offsets p)\<rparr>"

definition take_record :: "projector_conf \<Rightarrow> string \<Rightarrow> bool \<Rightarrow> projector \<Rightarrow> projector" where
  "take_record c t saved p =
     (case tr_batch (pj_readers p t) of
        [] \<Rightarrow> p
      | r # rest \<Rightarrow>
          (case br_value r of
             None \<Rightarrow> advance_past c t saved r rest p
           | Some v \<Rightarrow>
               (case handle_value c v (pj_world p) of
                  (ProjectFailed e, w) \<Rightarrow>
                    p\<lparr>pj_world := w, pj_readers := (pj_readers p)(t := (pj_readers p t)\<lparr>tr_batch := []\<rparr>)\<rparr>
                | (_, w) \<Rightarrow> advance_past c t saved r rest (p\<lparr>pj_world := w\<rparr>))))"

text \<open>
  A failed fetch changes nothing and has no step. \<open>Restart\<close> is the end of the process, at
  whatever point, and its next start.
\<close>

datatype projector_op = Fetch string "bus_record list" | Take string bool | Restart

fun projector_step :: "projector_conf \<Rightarrow> projector_op \<Rightarrow> projector \<Rightarrow> projector" where
  "projector_step c (Fetch t batch) p =
     (if tr_batch (pj_readers p t) = []
      then p\<lparr>pj_readers := (pj_readers p)(t := (pj_readers p t)\<lparr>tr_batch := batch\<rparr>)\<rparr> else p)"
| "projector_step c (Take t saved) p = take_record c t saved p"
| "projector_step c Restart p = p\<lparr>pj_readers := start_reader c (pj_offsets p)\<rparr>"

definition start_projector :: "projector_conf \<Rightarrow> project_world \<Rightarrow> projector" where
  "start_projector c w = \<lparr>pj_world = w, pj_offsets = [], pj_readers = start_reader c []\<rparr>"

section \<open>The broker\<close>

text \<open>
  What the broker holds for each topic, with growing offsets from the earliest one. A fetch at an offset
  is answered with the first so many records from there on, perhaps none.
\<close>

definition topic_log_ok :: "projector_conf \<Rightarrow> (string \<Rightarrow> bus_record list) \<Rightarrow> bool" where
  "topic_log_ok c log =
     (\<forall>t. sorted_wrt (<) (map br_offset (log t)) \<and> (\<forall>r\<in>set (log t). pc_earliest c t \<le> br_offset r))"

definition log_from :: "(string \<Rightarrow> bus_record list) \<Rightarrow> string \<Rightarrow> int \<Rightarrow> bus_record list" where
  "log_from log t i = filter (\<lambda>r. i \<le> br_offset r) (log t)"

fun broker_answers :: "(string \<Rightarrow> bus_record list) \<Rightarrow> projector_op \<Rightarrow> projector \<Rightarrow> bool" where
  "broker_answers log (Fetch t batch) p = prefix batch (log_from log t (tr_offset (pj_readers p t)))"
| "broker_answers log _ p = True"

fun projector_run_ok :: "projector_conf \<Rightarrow> (string \<Rightarrow> bus_record list) \<Rightarrow> projector_op list \<Rightarrow> projector \<Rightarrow> bool" where
  "projector_run_ok c log [] p = True"
| "projector_run_ok c log (op # ops) p =
     (broker_answers log op p \<and> projector_run_ok c log ops (projector_step c op p))"

definition run_projector :: "projector_conf \<Rightarrow> projector_op list \<Rightarrow> projector \<Rightarrow> projector" where
  "run_projector c ops p = fold (projector_step c) ops p"

section \<open>Every record once, in the order of its topic\<close>

text \<open>
  The specification: a list of records with their topics, in the order in which each was first handled.
  Each topic contributes a beginning of its log; the graph is what projecting the list gives.
\<close>

definition project_record :: "projector_conf \<Rightarrow> bus_record \<Rightarrow> project_world \<Rightarrow> project_world" where
  "project_record c r w =
     (case Option.bind (br_value r) (decode_payload c) of
        None \<Rightarrow> w | Some p \<Rightarrow> handle_payload (pc_env c) p w)"

definition records_of :: "string \<Rightarrow> (string \<times> bus_record) list \<Rightarrow> bus_record list" where
  "records_of t done = map snd (filter (\<lambda>x. fst x = t) done)"

definition projected_once :: "projector_conf \<Rightarrow> (string \<times> bus_record) list \<Rightarrow> project_world \<Rightarrow> project_world" where
  "projected_once c done w = fold (\<lambda>x. project_record c (snd x)) done w"

definition in_log_order :: "(string \<Rightarrow> bus_record list) \<Rightarrow> (string \<times> bus_record) list \<Rightarrow> bool" where
  "in_log_order log done = (\<forall>t. prefix (records_of t done) (log t))"

text \<open>Everything of a topic before an offset has been handled.\<close>

definition reached :: "(string \<Rightarrow> bus_record list) \<Rightarrow> (string \<times> bus_record) list \<Rightarrow> string \<Rightarrow> int \<Rightarrow> bool" where
  "reached log done t i = (\<forall>r\<in>set (log t). br_offset r < i \<longrightarrow> r \<in> set (records_of t done))"

definition projector_inv ::
  "projector_conf \<Rightarrow> (string \<Rightarrow> bus_record list) \<Rightarrow> project_world \<Rightarrow> (string \<times> bus_record) list \<Rightarrow> projector \<Rightarrow> bool" where
  "projector_inv c log w0 done p \<longleftrightarrow>
     in_log_order log done \<and> pj_world p = projected_once c done w0
     \<and> (\<forall>t. reached log done t (tr_offset (pj_readers p t))
          \<and> prefix (tr_batch (pj_readers p t)) (log_from log t (tr_offset (pj_readers p t))))
     \<and> (\<forall>t i. load_offset (pj_offsets p) (pc_group c) t (pc_partition c) = Some i \<longrightarrow> reached log done t i)"

lemma records_of_simps [simp]:
  "records_of t [] = []"
  "records_of t (d @ [(t', r)]) = records_of t d @ (if t' = t then [r] else [])"
  by (simp_all add: records_of_def)

lemma mem_records_of: "r \<in> set (records_of t d) \<longleftrightarrow> (t, r) \<in> set d"
  by (force simp: records_of_def)

lemma projected_snoc [simp]: "projected_once c (d @ [(t, r)]) w = project_record c r (projected_once c d w)"
  by (simp add: projected_once_def)

lemma reached_snoc: "reached log d t i \<Longrightarrow> reached log (d @ [x]) t i"
  by (cases x) (auto simp: reached_def)

lemma offsets_load_save [simp]:
  "load_offset (save_offset g t' q n os) g t q = (if t = t' then Some n else load_offset os g t q)"
  by (simp add: load_offset_def save_offset_def)

text \<open>What one value does: the same as the projection of its payload; it fails only when new.\<close>

definition marked :: "v1_bus_payload \<Rightarrow> project_world \<Rightarrow> bool" where
  "marked p w \<longleftrightarrow> world_lookup w (payload_key p) \<noteq> None"

lemma handle_value_world:
  "snd (handle_value c v w) = (case decode_payload c v of None \<Rightarrow> w | Some p \<Rightarrow> handle_payload (pc_env c) p w)"
  by (auto simp: handle_value_def handle_payload_def split: option.split v1_bus_payload.split prod.split sum.split)

lemma handle_payload_marks: "marked p (handle_payload env p w)"
  using projection.deliver_marks [where s = w and env = env and v = "payload_key p" and m = p]
  by (simp add: handle_payload_deliver marked_def del: deliver.simps)

lemma handle_payload_keeps_mark: "marked p w \<Longrightarrow> marked p (handle_payload env q w)"
  using projection.deliver_get_stable [where s = w and env = env and k = "payload_key p" and x = "(payload_key q, q)"]
  by (auto simp: handle_payload_deliver marked_def simp del: deliver.simps)

lemma handle_payload_marked: "marked p w \<Longrightarrow> handle_payload env p w = w"
  using projection.deliver_known [where s = w and env = env and v = "payload_key p" and m = p]
  by (simp add: handle_payload_deliver marked_def del: deliver.simps)

lemma revocation_marked: "marked (PAcl rv) w \<Longrightarrow> \<exists>out. project_acl_revocation rv w = (w, Inr out)"
  using event_marks.put_taken [of "pw_store w" "(rv_tenant_id rv, rv_event_id rv)"]
  by (auto simp: marked_def world_lookup_def project_acl_revocation_def Let_def)

lemma handle_failed_new:
  assumes "handle_value c v w = (ProjectFailed e, w')"
  shows "\<exists>p. decode_payload c v = Some p \<and> \<not> marked p w"
proof (cases "decode_payload c v")
  case (Some p)
  then show ?thesis using assms revocation_marked [of _ w]
    by (cases p) (fastforce simp: handle_value_def split: prod.splits sum.splits)+
qed (use assms in \<open>simp add: handle_value_def\<close>)

definition record_marked :: "projector_conf \<Rightarrow> bus_record \<Rightarrow> project_world \<Rightarrow> bool" where
  "record_marked c r w = (case Option.bind (br_value r) (decode_payload c) of None \<Rightarrow> True | Some p \<Rightarrow> marked p w)"

lemma record_marks: "record_marked c r (project_record c r w)"
  by (auto simp: record_marked_def project_record_def handle_payload_marks split: option.split)

lemma record_keeps_mark: "record_marked c r w \<Longrightarrow> record_marked c r (project_record c q w)"
  by (auto simp: record_marked_def project_record_def handle_payload_keeps_mark split: option.splits)

lemma record_again: "record_marked c r w \<Longrightarrow> project_record c r w = w"
  by (auto simp: record_marked_def project_record_def handle_payload_marked split: option.splits)

lemma handled_marked: "x \<in> set d \<Longrightarrow> record_marked c (snd x) (projected_once c d w)"
proof (induction d rule: rev_induct)
  case (snoc y d)
  then show ?case by (cases y) (auto simp: record_marks record_keeps_mark)
qed simp

text \<open>The next record of a topic is handled, or was.\<close>

lemma log_from_split:
  assumes "sorted_wrt (<) (map br_offset xs)" "filter (\<lambda>r. i \<le> br_offset r) xs = r # rest"
  shows "\<exists>before. xs = before @ r # rest \<and> (\<forall>x\<in>set before. br_offset x < i)"
  using assms
proof (induction xs)
  case (Cons x xs)
  show ?case
  proof (cases "i \<le> br_offset x")
    case True
    then have "\<forall>y\<in>set xs. i \<le> br_offset y" using Cons.prems(1) by auto
    then show ?thesis using True Cons.prems(2) by (auto intro!: exI [of _ "[]"])
  next
    case False
    then obtain before where "xs = before @ r # rest" "\<forall>x\<in>set before. br_offset x < i"
      using Cons by auto
    then show ?thesis using False by (intro exI [of _ "x # before"]) simp
  qed
qed simp

lemma next_in_order:
  assumes log: "distinct xs" "xs = before @ r # rest" and done_set: "set before \<subseteq> set d" "prefix d xs" "r \<notin> set d"
  shows "d = before"
proof -
  obtain ys where ys: "before @ r # rest = d @ ys" using done_set(2) log(2) by (auto simp: prefix_def)
  have "r \<in> set ys" using done_set(3) ys by (metis Un_iff in_set_conv_decomp set_append)
  then consider zs where "before = d @ zs" | zs where "d = before @ zs" "r # rest = zs @ ys"
    using ys unfolding append_eq_append_conv2 by blast
  then show ?thesis
  proof cases
    case (1 zs)
    then have "zs = []" using log done_set(1) by (cases zs) auto
    with 1 show ?thesis by simp
  next
    case (2 zs)
    then show ?thesis using ys done_set(3) by (cases zs) auto
  qed
qed

lemma handled_next:
  assumes ok: "topic_log_ok c log" and i: "projector_inv c log w0 d p" and next_r: "tr_batch (pj_readers p t) = r # rest"
  shows "\<exists>d'. d' \<in> {d, d @ [(t, r)]} \<and> in_log_order log d' \<and> r \<in> set (records_of t d')
    \<and> project_record c r (pj_world p) = projected_once c d' w0"
proof (cases "r \<in> set (records_of t d)")
  case True
  then have "(t, r) \<in> set d" by (auto simp: records_of_def)
  then have "project_record c r (pj_world p) = pj_world p"
    using i record_again handled_marked [of "(t, r)" d c w0] by (auto simp: projector_inv_def)
  then show ?thesis using i True by (auto simp: projector_inv_def)
next
  case False
  let ?i = "tr_offset (pj_readers p t)"
  have s: "sorted_wrt (<) (map br_offset (log t))" using ok by (simp add: topic_log_ok_def)
  have "prefix (r # rest) (log_from log t ?i)" using i next_r by (metis projector_inv_def)
  then obtain more where "filter (\<lambda>r. ?i \<le> br_offset r) (log t) = r # rest @ more"
    by (auto simp: log_from_def prefix_def)
  from log_from_split [OF s this] obtain before
    where b: "log t = before @ r # rest @ more" "\<forall>x\<in>set before. br_offset x < ?i" by blast
  have "distinct (map br_offset (log t))" using s by (simp add: strict_sorted_iff)
  then have "distinct (log t)" by (simp add: distinct_map)
  moreover have "reached log d t ?i" "prefix (records_of t d) (log t)"
    using i by (simp_all add: projector_inv_def in_log_order_def)
  moreover then have "set before \<subseteq> set (records_of t d)" using b by (auto simp: reached_def)
  ultimately have "records_of t d = before" using next_in_order b(1) False by metis
  then have "in_log_order log (d @ [(t, r)])"
    using i b(1) by (auto simp: projector_inv_def in_log_order_def)
  then show ?thesis using i by (auto simp: projector_inv_def)
qed

lemma take_record_cases:
  assumes "tr_batch (pj_readers p t) = r # rest"
  shows "take_record c t saved p = advance_past c t saved r rest (p\<lparr>pj_world := project_record c r (pj_world p)\<rparr>)
    \<or> (\<not> record_marked c r (pj_world p) \<and> take_record c t saved p =
         p\<lparr>pj_world := project_record c r (pj_world p), pj_readers := (pj_readers p)(t := (pj_readers p t)\<lparr>tr_batch := []\<rparr>)\<rparr>)"
proof (cases "br_value r")
  case None
  then show ?thesis using assms by (simp add: take_record_def project_record_def)
next
  case (Some v)
  obtain res w where h: "handle_value c v (pj_world p) = (res, w)" by fastforce
  then have "w = project_record c r (pj_world p)"
    using handle_value_world [of c v "pj_world p"] Some by (simp add: project_record_def split: option.splits)
  then show ?thesis using assms Some h handle_failed_new [of c v "pj_world p"]
    by (cases res) (auto simp: take_record_def record_marked_def)
qed

lemma log_around:
  assumes "sorted_wrt (<) (map br_offset (log t))" "prefix (r # rest) (log_from log t i)"
  shows "\<exists>before more. log t = before @ r # rest @ more \<and> i \<le> br_offset r \<and> (\<forall>x\<in>set before. br_offset x < i)
    \<and> (\<forall>x\<in>set (rest @ more). br_offset r < br_offset x)"
proof -
  obtain more where f: "filter (\<lambda>r. i \<le> br_offset r) (log t) = r # rest @ more"
    using assms(2) by (auto simp: log_from_def prefix_def)
  from log_from_split [OF assms(1) this] obtain before
    where b: "log t = before @ r # rest @ more" "\<forall>x\<in>set before. br_offset x < i" by blast
  moreover have "i \<le> br_offset r" using f by (metis Cons_eq_filterD)
  moreover have "\<forall>x\<in>set (rest @ more). br_offset r < br_offset x" using assms(1) b by (auto simp: sorted_wrt_append)
  ultimately show ?thesis by blast
qed

lemma log_from_next:
  assumes "sorted_wrt (<) (map br_offset (log t))" "log_from log t i = r # rest"
  shows "log_from log t (br_offset r + 1) = rest"
proof -
  have "prefix (r # rest) (log_from log t i)" using assms(2) by simp
  from log_around [OF assms(1) this] obtain before after where b: "log t = before @ r # after" "i \<le> br_offset r"
    "\<forall>x\<in>set before. br_offset x < i" "\<forall>x\<in>set after. br_offset r < br_offset x" by blast
  have "filter (\<lambda>x. i \<le> br_offset x) before = []" "filter (\<lambda>x. br_offset r + 1 \<le> br_offset x) before = []"
    using b(2,3) by (auto simp: filter_empty_conv)
  moreover have "filter (\<lambda>x. i \<le> br_offset x) after = after"
    using b(2,4) by (intro filter_True ballI) (metis less_le_not_le order.trans)
  moreover have "filter (\<lambda>x. br_offset r + 1 \<le> br_offset x) after = after"
    using b(4) by (intro filter_True) (simp add: add1_zle_eq)
  ultimately show ?thesis using assms(2) b(2) by (simp add: log_from_def b(1))
qed

lemma log_from_tail:
  assumes "sorted_wrt (<) (map br_offset (log t))" "prefix (r # rest) (log_from log t i)"
  shows "prefix rest (log_from log t (br_offset r + 1))"
  using log_from_next [where log = log and t = t, OF assms(1)] assms(2) by (cases "log_from log t i") auto

lemma reached_next:
  assumes "sorted_wrt (<) (map br_offset (log t))" "prefix (r # rest) (log_from log t i)"
    and "reached log d t i" "r \<in> set (records_of t d)"
  shows "reached log d t (br_offset r + 1)"
proof -
  obtain before more where b: "log t = before @ r # rest @ more" "\<forall>x\<in>set before. br_offset x < i"
    "\<forall>x\<in>set (rest @ more). br_offset r < br_offset x" using log_around [OF assms(1,2)] by blast
  then have "x \<in> set before \<or> x = r" if "x \<in> set (log t)" "br_offset x < br_offset r + 1" for x
    using that by (metis Un_iff add1_zle_eq less_le_not_le set_ConsD set_append zle_add1_eq_le)
  then show ?thesis using assms(3,4) b(2) by (metis reached_def)
qed

lemma reached_earliest: "topic_log_ok c log \<Longrightarrow> reached log d t (pc_earliest c t)"
  by (force simp: reached_def topic_log_ok_def)

lemma projector_inv_start:
  assumes "topic_log_ok c log"
  shows "projector_inv c log w [] (start_projector c w)"
  using reached_earliest [OF assms]
  by (simp add: projector_inv_def start_projector_def start_reader_def resolve_start_offset_def load_offset_def
      in_log_order_def projected_once_def)

lemma take_keeps_inv:
  assumes ok: "topic_log_ok c log" and i: "projector_inv c log w0 d p"
  shows "\<exists>d'. prefix d d' \<and> projector_inv c log w0 d' (take_record c t saved p)"
proof (cases "tr_batch (pj_readers p t)")
  case Nil
  then show ?thesis using i by (auto simp: take_record_def)
next
  case (Cons r rest)
  obtain d' where d': "d' \<in> {d, d @ [(t, r)]}" "in_log_order log d'" "r \<in> set (records_of t d')"
    "project_record c r (pj_world p) = projected_once c d' w0" using handled_next [OF ok i Cons] by blast
  have keep: "reached log d' t' j" if "reached log d t' j" for t' j using d'(1) that reached_snoc by auto
  have s: "sorted_wrt (<) (map br_offset (log t))" using ok by (simp add: topic_log_ok_def)
  have b: "prefix (r # rest) (log_from log t (tr_offset (pj_readers p t)))" and o: "reached log d t (tr_offset (pj_readers p t))"
    using i Cons by (metis projector_inv_def)+
  have n: "reached log d' t (br_offset r + 1)" using reached_next [OF s b keep [OF o] d'(3)] .
  have i': "projector_inv c log w0 d' (p\<lparr>pj_world := project_record c r (pj_world p)\<rparr>)"
    using i d'(2,4) keep by (auto simp: projector_inv_def)
  then have "projector_inv c log w0 d' (advance_past c t saved r rest (p\<lparr>pj_world := project_record c r (pj_world p)\<rparr>))"
    using n log_from_tail [OF s b] by (auto simp: projector_inv_def advance_past_def)
  moreover have "projector_inv c log w0 d' (p\<lparr>pj_world := project_record c r (pj_world p),
      pj_readers := (pj_readers p)(t := (pj_readers p t)\<lparr>tr_batch := []\<rparr>)\<rparr>)"
    using i' by (auto simp: projector_inv_def)
  moreover have "prefix d d'" using d'(1) by auto
  ultimately show ?thesis using take_record_cases [OF Cons, of c saved] by metis
qed

lemma projector_inv_step:
  assumes ok: "topic_log_ok c log" and i: "projector_inv c log w0 d p" and b: "broker_answers log op p"
  shows "\<exists>d'. prefix d d' \<and> projector_inv c log w0 d' (projector_step c op p)"
proof (cases op)
  case (Fetch t batch)
  then have "projector_inv c log w0 d (projector_step c op p)" using i b by (auto simp: projector_inv_def)
  then show ?thesis by blast
next
  case (Take t saved)
  then show ?thesis using take_keeps_inv [OF ok i] by simp
next
  case Restart
  have "projector_inv c log w0 d (projector_step c op p)"
    using i Restart reached_earliest [OF ok]
    by (auto simp: projector_inv_def start_reader_def resolve_start_offset_def load_offset_def split: option.split)
  then show ?thesis by blast
qed

lemma projector_inv_run:
  assumes "topic_log_ok c log" "projector_inv c log w0 d p" "projector_run_ok c log ops p"
  shows "\<exists>d'. prefix d d' \<and> projector_inv c log w0 d' (run_projector c ops p)"
  using assms(2,3)
proof (induction ops arbitrary: d p)
  case (Cons op ops)
  obtain d1 where d1: "prefix d d1" "projector_inv c log w0 d1 (projector_step c op p)"
    using projector_inv_step [OF assms(1) Cons.prems(1)] Cons.prems(2) by auto
  then obtain d2 where "prefix d1 d2" "projector_inv c log w0 d2 (run_projector c ops (projector_step c op p))"
    using Cons.IH Cons.prems(2) by auto
  then show ?case using d1(1) by (auto simp: run_projector_def intro: prefix_order.trans)
qed (auto simp: run_projector_def)


section \<open>Catching up\<close>

text \<open>A round: fetch all there is, then take every record, unless a failure ends the round.\<close>

definition full_round :: "projector_conf \<Rightarrow> (string \<Rightarrow> bus_record list) \<Rightarrow> string \<Rightarrow> bool \<Rightarrow> projector \<Rightarrow> projector" where
  "full_round c log t saved p =
     (let batch = log_from log t (tr_offset (pj_readers p t))
      in run_projector c (Fetch t batch # replicate (length batch) (Take t saved)) p)"

definition unmarked_left :: "projector_conf \<Rightarrow> (string \<Rightarrow> bus_record list) \<Rightarrow> string \<Rightarrow> projector \<Rightarrow> nat" where
  "unmarked_left c log t p =
     length (filter (\<lambda>r. \<not> record_marked c r (pj_world p)) (log_from log t (tr_offset (pj_readers p t))))"

lemma takes_when_idle: "tr_batch (pj_readers p t) = [] \<Longrightarrow> run_projector c (replicate n (Take t saved)) p = p"
  by (induction n) (simp_all add: run_projector_def take_record_def)

lemma length_filter_mono: "(\<And>x. x \<in> set xs \<Longrightarrow> P x \<Longrightarrow> Q x) \<Longrightarrow> length (filter P xs) \<le> length (filter Q xs)"
  by (induction xs) auto

lemma unmarked_after_record:
  "length (filter (\<lambda>x. \<not> record_marked c x (project_record c r w)) xs) \<le> length (filter (\<lambda>x. \<not> record_marked c x w) xs)"
  using record_keeps_mark by (intro length_filter_mono) blast

lemma takes_make_progress:
  assumes "sorted_wrt (<) (map br_offset (log t))" "tr_batch (pj_readers p t) = log_from log t (tr_offset (pj_readers p t))"
    and "q = run_projector c (replicate (length (tr_batch (pj_readers p t))) (Take t saved)) p"
  shows "tr_batch (pj_readers q t) = [] \<and>
    (log_from log t (tr_offset (pj_readers q t)) = [] \<or> unmarked_left c log t q < unmarked_left c log t p)"
  using assms(2,3)
proof (induction "tr_batch (pj_readers p t)" arbitrary: p)
  case Nil
  then show ?case by (simp add: run_projector_def)
next
  case (Cons r rest)
  let ?p = "take_record c t saved p" and ?w = "project_record c r (pj_world p)"
  have l: "log_from log t (tr_offset (pj_readers p t)) = r # rest" using Cons.hyps(2) Cons.prems(1) by simp
  have q: "q = run_projector c (replicate (length rest) (Take t saved)) ?p"
    using Cons.prems(2) Cons.hyps(2) [symmetric] by (simp add: run_projector_def)
  from take_record_cases [OF Cons.hyps(2) [symmetric], of c saved] show ?case
  proof
    assume a: "?p = advance_past c t saved r rest (p\<lparr>pj_world := ?w\<rparr>)"
    have b: "tr_batch (pj_readers ?p t) = rest" "tr_offset (pj_readers ?p t) = br_offset r + 1" "pj_world ?p = ?w"
      by (simp_all add: a advance_past_def)
    note n = log_from_next [where log = log and t = t, OF assms(1) l]
    have "unmarked_left c log t ?p \<le> unmarked_left c log t p"
      using unmarked_after_record [of c r "pj_world p" rest] by (simp add: unmarked_left_def b n l)
    with Cons.hyps(1) [of ?p] b n q show ?thesis by auto
  next
    assume a: "\<not> record_marked c r (pj_world p) \<and> ?p =
      p\<lparr>pj_world := ?w, pj_readers := (pj_readers p)(t := (pj_readers p t)\<lparr>tr_batch := []\<rparr>)\<rparr>"
    then have b: "tr_batch (pj_readers ?p t) = []" "tr_offset (pj_readers ?p t) = tr_offset (pj_readers p t)"
      "pj_world ?p = ?w" by simp_all
    then have "q = ?p" using q takes_when_idle [OF b(1)] by simp
    moreover have "unmarked_left c log t ?p < unmarked_left c log t p"
      using a record_marks [of c r "pj_world p"] unmarked_after_record [of c r "pj_world p" rest]
      by (simp add: unmarked_left_def b l)
    ultimately show ?thesis using b by simp
  qed
qed

lemma full_round_progress:
  assumes "sorted_wrt (<) (map br_offset (log t))" "tr_batch (pj_readers p t) = []"
  shows "tr_batch (pj_readers (full_round c log t saved p) t) = [] \<and>
    (log_from log t (tr_offset (pj_readers (full_round c log t saved p) t)) = []
     \<or> unmarked_left c log t (full_round c log t saved p) < unmarked_left c log t p)"
proof -
  let ?p = "projector_step c (Fetch t (log_from log t (tr_offset (pj_readers p t)))) p"
  have b: "tr_batch (pj_readers ?p t) = log_from log t (tr_offset (pj_readers ?p t))" using assms(2) by simp
  have "full_round c log t saved p = run_projector c (replicate (length (tr_batch (pj_readers ?p t))) (Take t saved)) ?p"
    using assms(2) by (simp add: full_round_def run_projector_def Let_def)
  from takes_make_progress [where log = log and t = t, OF assms(1) b this] show ?thesis using assms(2) by (simp add: unmarked_left_def)
qed

lemma full_round_inv:
  assumes "topic_log_ok c log" "projector_inv c log w d p"
  shows "\<exists>d'. projector_inv c log w d' (full_round c log t saved p)"
proof -
  have "projector_run_ok c log (replicate n (Take t saved)) q" for n q by (induction n arbitrary: q) simp_all
  then have "projector_run_ok c log (Fetch t (log_from log t (tr_offset (pj_readers p t))) # replicate n (Take t saved)) p" for n
    by simp
  from projector_inv_run [OF assms this] show ?thesis unfolding full_round_def Let_def by blast
qed

lemma funpow_fixed: "f x = x \<Longrightarrow> (f ^^ n) x = x"
  by (induction n) simp_all

lemma rounds_reach_end:
  assumes "topic_log_ok c log" "projector_inv c log w d p" "tr_batch (pj_readers p t) = []" "unmarked_left c log t p < n"
    and "q = (full_round c log t saved ^^ n) p"
  shows "\<exists>d'. projector_inv c log w d' q \<and> log_from log t (tr_offset (pj_readers q t)) = []"
  using assms(2-5)
proof (induction n arbitrary: p d)
  case (Suc n)
  let ?p = "full_round c log t saved p"
  have s: "sorted_wrt (<) (map br_offset (log t))" using assms(1) by (simp add: topic_log_ok_def)
  have b: "tr_batch (pj_readers ?p t) = []" and u: "log_from log t (tr_offset (pj_readers ?p t)) = []
      \<or> unmarked_left c log t ?p < unmarked_left c log t p" using full_round_progress [where log = log and t = t and p = p, OF s Suc.prems(2)] by blast+
  obtain d1 where d1: "projector_inv c log w d1 ?p" using full_round_inv [OF assms(1) Suc.prems(1)] by blast
  have q: "q = (full_round c log t saved ^^ n) ?p" using Suc.prems(4) by (simp add: funpow_swap1)
  show ?case
  proof (cases "log_from log t (tr_offset (pj_readers ?p t)) = []")
    case True
    then have "full_round c log t saved ?p = ?p" by (simp add: full_round_def run_projector_def b fun_upd_idem)
    then have "q = ?p" using q funpow_fixed by metis
    then show ?thesis using d1 True by blast
  next
    case False
    then show ?thesis using Suc.IH [OF d1 b _ q] u Suc.prems(3) by auto
  qed
qed simp


section \<open>The properties on a concrete log\<close>

text \<open>
  Four records on the access topic: a member is added, a removal names no user, then a value that is no
  payload and a record without value.
\<close>

definition sample_change :: "string \<Rightarrow> string \<Rightarrow> string \<Rightarrow> v1_acl_revocation" where
  "sample_change i u change =
     \<lparr>rv_event_id = i, rv_tenant_id = ''t'', rv_global_user_id = u, rv_provider_user_id = ''42'', rv_provider = ''github'',
      rv_group_id = ''eng'', rv_change_type = change, rv_acl_version = 1, rv_timestamp = 0\<rparr>"

definition sample_projector :: projector_conf where
  "sample_projector =
     \<lparr>pc_group = ''g'', pc_partition = 0, pc_env = \<lparr>env_sha = (\<lambda>s. s), env_alnum = (\<lambda>_. True)\<rparr>,
      pc_message = (\<lambda>v. if v = ''add'' then Some (PAcl (sample_change ''e1'' ''u'' ''added_to_group'')) else None),
      pc_event = (\<lambda>_. None),
      pc_acl = (\<lambda>v. if v = ''remove'' then Some (sample_change ''e2'' [] ''removed_from_group'') else None),
      pc_earliest = (\<lambda>_. 5)\<rparr>"

definition sample_topics :: "string \<Rightarrow> bus_record list" where
  "sample_topics t =
     (if t = ''events.acl'' then [\<lparr>br_offset = 5, br_value = Some ''add''\<rparr>, \<lparr>br_offset = 6, br_value = Some ''remove''\<rparr>,
        \<lparr>br_offset = 8, br_value = Some ''junk''\<rparr>, \<lparr>br_offset = 9, br_value = None\<rparr>] else [])"

definition sample_start :: project_world where
  "sample_start = \<lparr>pw_store = new_graph_store, pw_members = new_membership\<rparr>"

text \<open>The first record is projected, its offset is lost, the process restarts and takes it again.\<close>

definition sample_run :: "projector_op list" where
  "sample_run =
     [Fetch ''events.acl'' (sample_topics ''events.acl''), Take ''events.acl'' False, Restart,
      Fetch ''events.acl'' (take 2 (sample_topics ''events.acl'')), Take ''events.acl'' True, Take ''events.acl'' True]"

lemma sample_topics_ok: "topic_log_ok sample_projector sample_topics"
  by (simp add: topic_log_ok_def sample_topics_def sample_projector_def)

lemma sample_run_ok: "projector_run_ok sample_projector sample_topics sample_run (start_projector sample_projector sample_start)"
  by code_simp

lemma sample_run_offsets:
  "pj_offsets (run_projector sample_projector sample_run (start_projector sample_projector sample_start))
     = [((''g'', ''events.acl'', 0), 6)]"
  "tr_batch (pj_readers (run_projector sample_projector sample_run (start_projector sample_projector sample_start)) ''events.acl'') = []"
  by code_simp+



end
