(* ===== verification/Twin_Graph_Http.thy ===== *)
theory Twin_Graph_Http
  imports Twin_Compiler Graph_Api Url_Text
begin

text \<open>
  The graph source of the compiler over HTTP (\<open>twin-compiler/src/http_v2.rs\<close>) and what it reads when the
  other side is the graph service of \<open>Graph_Api\<close>. A request is kept as its tenant segment, endpoint and
  encoded query; an answer is what the HTTP client and the JSON decoder make of it. The service decodes
  each segment and answers at its own reading \<open>clk\<close> of the clock. The lemmas: what a twin's
  digest can depend on, and which user a request names.
\<close>

section \<open>Requests and answers\<close>

record v2_request =
  vq_tenant :: string
  vq_endpoint :: string
  vq_params :: "(string \<times> string) list"

definition v2_url :: "string \<Rightarrow> v2_request \<Rightarrow> string" where
  "v2_url base q = base @ ''/v2/tenants/'' @ vq_tenant q @ ''/'' @ vq_endpoint q @ ''?''
     @ join_with ''&'' (map (\<lambda>(k, v). k @ ''='' @ v) (vq_params q))"

text \<open>The request is not answered, or answered with a status and a body that is decoded or not.\<close>

datatype 'a v2_reply = NoAnswer string | Answered nat "string + 'a"

record v2_neighborhood =
  vn_root :: "graph_node_view option"
  vn_nodes :: "graph_node_view list"
  vn_edges :: "graph_edge_view list"

record v2_state =
  vs_node_id :: string
  vs_state_key :: string
  vs_state_value :: string
  vs_event_id :: string
  vs_as_of :: "instant option"

record v2_http =
  vh_neighborhood :: "v2_request \<Rightarrow> v2_neighborhood v2_reply"
  vh_blockers :: "v2_request \<Rightarrow> graph_edge_view list v2_reply"
  vh_state :: "v2_request \<Rightarrow> v2_state option v2_reply"
  vh_status_error :: "nat \<Rightarrow> string"

definition status_ok :: "nat \<Rightarrow> bool" where
  "status_ok n \<longleftrightarrow> 200 \<le> n \<and> n < 300"

definition neighborhood_query :: "string \<Rightarrow> string \<Rightarrow> string \<Rightarrow> nat \<Rightarrow> v2_request" where
  "neighborhood_query tenant user node hops =
     \<lparr>vq_tenant = urlencoding_lite tenant, vq_endpoint = ''neighborhood'',
      vq_params = [(''user_id'', urlencoding_lite user), (''node_id'', urlencoding_lite node), (''hops'', show_nat hops)]\<rparr>"

definition blockers_query :: "string \<Rightarrow> string \<Rightarrow> string \<Rightarrow> v2_request" where
  "blockers_query tenant user node =
     \<lparr>vq_tenant = urlencoding_lite tenant, vq_endpoint = ''blockers'',
      vq_params = [(''user_id'', urlencoding_lite user), (''node_id'', urlencoding_lite node)]\<rparr>"

definition lifecycle_query :: "string \<Rightarrow> string \<Rightarrow> string \<Rightarrow> v2_request" where
  "lifecycle_query tenant user node =
     \<lparr>vq_tenant = urlencoding_lite tenant, vq_endpoint = ''state'',
      vq_params = [(''user_id'', urlencoding_lite user), (''node_id'', urlencoding_lite node), (''state_key'', ''lifecycle'')]\<rparr>"

section \<open>The person's view\<close>

definition with_root :: "v2_neighborhood \<Rightarrow> graph_node_view list" where
  "with_root nb =
     (case vn_root nb of
        Some root \<Rightarrow>
          if list_ex (\<lambda>n. nv_node_id n = nv_node_id root) (vn_nodes nb) then vn_nodes nb else vn_nodes nb @ [root]
      | None \<Rightarrow> vn_nodes nb)"

definition view_blockers :: "graph_edge_view list v2_reply \<Rightarrow> graph_edge_view list \<Rightarrow> graph_edge_view list" where
  "view_blockers reply edges =
     (let own = filter (\<lambda>e. eq_ignore_ascii_case (ev_edge_type e) ''BLOCKS''
                  \<or> eq_ignore_ascii_case (ev_edge_type e) ''BLOCKED_BY'') edges
      in case reply of
           NoAnswer _ \<Rightarrow> own
         | Answered n body \<Rightarrow> if status_ok n then (case body of Inr bs \<Rightarrow> bs | Inl _ \<Rightarrow> []) else own)"

definition wants_state :: "graph_node_view \<Rightarrow> bool" where
  "wants_state n \<longleftrightarrow> starts_with (nv_node_id n) ''pr:'' \<or> eq_ignore_ascii_case (nv_node_type n) ''PullRequest''
     \<or> starts_with (nv_node_id n) ''issue:''"

definition state_of_reply :: "instant \<Rightarrow> v2_state option v2_reply \<Rightarrow> entity_state_view option" where
  "state_of_reply now reply =
     (case reply of
        Answered n (Inr (Some s)) \<Rightarrow>
          if status_ok n
          then Some \<lparr>sv_node_id = vs_node_id s, sv_state_key = vs_state_key s, sv_state_value = vs_state_value s,
                     sv_event_id = vs_event_id s, sv_as_of = unwrap_or (vs_as_of s) now\<rparr>
          else None
      | _ \<Rightarrow> None)"

definition fetch_person_view ::
  "v2_http \<Rightarrow> instant \<Rightarrow> string \<Rightarrow> string \<Rightarrow> string \<Rightarrow> nat \<Rightarrow> twin_error + graph_view" where
  "fetch_person_view http now tenant user node hops =
     (case vh_neighborhood http (neighborhood_query tenant user node hops) of
        NoAnswer e \<Rightarrow> Inl (TUpstream (''v2 neighborhood: '' @ e))
      | Answered status body \<Rightarrow>
          if status = 404 then Inr (empty_graph_view\<lparr>gv_graph_as_of := Some now\<rparr>)
          else if 400 \<le> status \<and> status < 600
          then Inl (TUpstream (''v2 neighborhood status: '' @ vh_status_error http status))
          else (case body of
              Inl e \<Rightarrow> Inl (TUpstream (''v2 neighborhood json: '' @ e))
            | Inr nb \<Rightarrow>
                (let nodes = with_root nb
                 in Inr \<lparr>gv_nodes = nodes, gv_edges = vn_edges nb,
                      gv_states = List.map_filter
                        (\<lambda>n. state_of_reply now (vh_state http (lifecycle_query tenant user (nv_node_id n))))
                        (filter wants_state nodes),
                      gv_blockers = view_blockers (vh_blockers http (blockers_query tenant user node)) (vn_edges nb),
                      gv_graph_as_of = Some now\<rparr>)))"

section \<open>The graph service as the other side\<close>

definition node_body :: "graph_node \<Rightarrow> graph_node_view" where
  "node_body n =
     \<lparr>nv_node_id = gn_node_id n, nv_node_type = gn_node_type n, nv_display_name = gn_display_name n,
      graph_node_view.nv_resource_id = gn_resource_id n, nv_properties = gn_properties n, graph_node_view.nv_is_private = gn_is_private n\<rparr>"

definition edge_body :: "graph_edge \<Rightarrow> graph_edge_view" where
  "edge_body e =
     \<lparr>ev_edge_id = ge_edge_id e, ev_edge_type = ge_edge_type e, ev_from_node_id = ge_from_node_id e,
      ev_to_node_id = ge_to_node_id e, graph_edge_view.ev_event_id = ge_event_id e, ev_properties = ge_properties e,
      ev_is_private = ge_is_private e, ev_valid_from = Some (ge_valid_from e)\<rparr>"

definition state_body :: "entity_state \<Rightarrow> v2_state" where
  "state_body s =
     \<lparr>vs_node_id = es_node_id s, vs_state_key = es_state_key s, vs_state_value = es_state_value s,
      vs_event_id = es_event_id s, vs_as_of = Some (es_as_of s)\<rparr>"

definition query_arg :: "v2_request \<Rightarrow> string \<Rightarrow> string option" where
  "query_arg q k = map_option percent_decode (map_of (vq_params q) k)"

definition bad_query :: "'a v2_reply" where
  "bad_query = Answered 400 (Inl ''query'')"

definition graph_http :: "graph_service \<Rightarrow> (v2_request \<Rightarrow> instant) \<Rightarrow> (nat \<Rightarrow> string) \<Rightarrow> project_world \<Rightarrow> v2_http" where
  "graph_http sv clk err w =
     \<lparr>vh_neighborhood = (\<lambda>q.
        case (query_arg q ''user_id'', query_arg q ''node_id'', Option.bind (query_arg q ''hops'') parse_nat) of
          (Some u, Some i, Some h) \<Rightarrow>
            (case neighborhood_request sv (clk q) w (percent_decode (vq_tenant q)) u i (Some h) of
               Inl e \<Rightarrow> Answered (ga_status e) (Inl (ga_message e))
             | Inr nb \<Rightarrow> Answered 200 (Inr \<lparr>vn_root = Some (node_body (nb_root nb)),
                 vn_nodes = map node_body (nb_nodes nb), vn_edges = map edge_body (nb_edges nb)\<rparr>))
        | _ \<Rightarrow> bad_query),
      vh_blockers = (\<lambda>q.
        case (query_arg q ''user_id'', query_arg q ''node_id'') of
          (Some u, Some i) \<Rightarrow>
            Answered 200 (Inr (map edge_body (blockers_request (clk q) w (percent_decode (vq_tenant q)) u i)))
        | _ \<Rightarrow> bad_query),
      vh_state = (\<lambda>q.
        case (query_arg q ''user_id'', query_arg q ''node_id'') of
          (Some u, Some i) \<Rightarrow>
            Answered 200 (Inr (map_option state_body
              (state_query w (percent_decode (vq_tenant q)) u i (query_arg q ''state_key''))))
        | _ \<Rightarrow> bad_query),
      vh_status_error = err\<rparr>"

lemmas v2_queries = neighborhood_query_def blockers_query_def lifecycle_query_def

lemma hops_arg [simp]: "Option.bind (query_arg (neighborhood_query t u i h) ''hops'') parse_nat = Some h"
proof -
  have "CHR 0x25 \<notin> set (show_nat h)" using show_nat_digits [of "CHR 0x25" h] by (auto simp: digit_def)
  then show ?thesis by (simp add: query_arg_def v2_queries decode_no_percent parse_nat_def parse_show_nat)
qed

lemma query_args [simp]:
  "query_arg (neighborhood_query t u i h) ''user_id'' = Some (percent_decode (urlencoding_lite u))"
  "query_arg (neighborhood_query t u i h) ''node_id'' = Some (percent_decode (urlencoding_lite i))"
  "query_arg (blockers_query t u i) ''user_id'' = Some (percent_decode (urlencoding_lite u))"
  "query_arg (blockers_query t u i) ''node_id'' = Some (percent_decode (urlencoding_lite i))"
  "query_arg (lifecycle_query t u i) ''user_id'' = Some (percent_decode (urlencoding_lite u))"
  "query_arg (lifecycle_query t u i) ''node_id'' = Some (percent_decode (urlencoding_lite i))"
  "query_arg (lifecycle_query t u i) ''state_key'' = Some ''lifecycle''"
  "vq_tenant (neighborhood_query t u i h) = urlencoding_lite t"
  "vq_tenant (blockers_query t u i) = urlencoding_lite t"
  "vq_tenant (lifecycle_query t u i) = urlencoding_lite t"
  by (simp_all add: query_arg_def v2_queries decode_no_percent)

section \<open>What a digest can depend on\<close>

lemma requests_visible:
  assumes "graph_store_inv (pw_store w)"
  shows "neighborhood_request sv now (seen_by t u w) t u i hops = neighborhood_request sv now w t u i hops"
    "blockers_request now (seen_by t u w) t u i = blockers_request now w t u i"
    "state_query (seen_by t u w) t u i key = state_query w t u i key"
proof -
  have s: "pw_store (seen_by t u w) = visible_part (ctx_for w t u) (pw_store w)" by (simp add: seen_by_def)
  note r = reads_visible_part [OF assms]
  show "neighborhood_request sv now (seen_by t u w) t u i hops = neighborhood_request sv now w t u i hops"
    "blockers_request now (seen_by t u w) t u i = blockers_request now w t u i"
    "state_query (seen_by t u w) t u i key = state_query w t u i key"
    by (simp_all add: neighborhood_request_def blockers_request_def state_query_def s r)
qed

lemma fetch_visible:
  assumes "graph_store_inv (pw_store w)" "ascii_text t" "ascii_text u"
  shows "fetch_person_view (graph_http sv clk err (seen_by t u w)) now t u i hops
    = fetch_person_view (graph_http sv clk err w) now t u i hops"
proof -
  note same = requests_visible [OF assms(1)] decode_lite [OF assms(2)] decode_lite [OF assms(3)]
  have "vh_neighborhood (graph_http sv clk err (seen_by t u w)) (neighborhood_query t u i hops)
      = vh_neighborhood (graph_http sv clk err w) (neighborhood_query t u i hops)"
    "vh_blockers (graph_http sv clk err (seen_by t u w)) (blockers_query t u i)
      = vh_blockers (graph_http sv clk err w) (blockers_query t u i)"
    "vh_state (graph_http sv clk err (seen_by t u w)) (lifecycle_query t u j)
      = vh_state (graph_http sv clk err w) (lifecycle_query t u j)" for j
    by (simp_all add: graph_http_def same)
  moreover have "vh_status_error (graph_http sv clk err (seen_by t u w)) = vh_status_error (graph_http sv clk err w)"
    by (simp add: graph_http_def)
  ultimately show ?thesis by (simp only: fetch_person_view_def)
qed

text \<open>The graph as a twin reads it, and the same when every read is of the visible part only.\<close>

definition http_source :: "graph_service \<Rightarrow> (v2_request \<Rightarrow> instant) \<Rightarrow> (nat \<Rightarrow> string) \<Rightarrow> instant \<Rightarrow> project_world \<Rightarrow> graph_source" where
  "http_source sv clk err now w t u i hops = fetch_person_view (graph_http sv clk err w) now t u i hops"

definition visible_source :: "graph_service \<Rightarrow> (v2_request \<Rightarrow> instant) \<Rightarrow> (nat \<Rightarrow> string) \<Rightarrow> instant \<Rightarrow> project_world \<Rightarrow> graph_source" where
  "visible_source sv clk err now w t u i hops = http_source sv clk err now (seen_by t u w) t u i hops"

lemma fetch_view_cong:
  assumes "\<And>sid. sid \<in> set sids \<Longrightarrow> src tenant sid (subject_node sid) hops = src' tenant sid (subject_node sid) hops"
  shows "fetch_view src tenant hops sids = fetch_view src' tenant hops sids"
  unfolding fetch_view_def using assms by (intro fold_cong) auto

lemma compile_cong:
  assumes "\<And>sid. sid \<in> set (subject_ids tw) \<Longrightarrow>
      src (tw_tenant_id tw) sid (subject_node sid) (co_hops opts) = src' (tw_tenant_id tw) sid (subject_node sid) (co_hops opts)"
  shows "compile_person env src tw opts s = compile_person env src' tw opts s"
proof -
  have "fetch_view src (tw_tenant_id tw) (co_hops opts) (subject_ids tw)
      = fetch_view src' (tw_tenant_id tw) (co_hops opts) (subject_ids tw)" by (rule fetch_view_cong) (rule assms)
  then show ?thesis unfolding compile_person_def Let_def by (simp only:)
qed


text \<open>
  Outside ASCII a request can name someone else: the view of the user with id U+0141 is that of the user
  \<open>A\<close>.
\<close>

lemma view_of_another_user:
  "fetch_person_view (graph_http sv clk err w) now ''t'' [CHR 0xC5, CHR 0x81] i hops
    = fetch_person_view (graph_http sv clk' err w) now ''t'' ''A'' i hops"
  if "\<And>q. clk q = c" "\<And>q. clk' q = c"
proof -
  note same = lite_confuses decode_lite [of "''A''", unfolded ascii_text_def, simplified] that
  have "vh_neighborhood (graph_http sv clk err w) (neighborhood_query ''t'' [CHR 0xC5, CHR 0x81] i hops)
      = vh_neighborhood (graph_http sv clk' err w) (neighborhood_query ''t'' ''A'' i hops)"
    "vh_blockers (graph_http sv clk err w) (blockers_query ''t'' [CHR 0xC5, CHR 0x81] i)
      = vh_blockers (graph_http sv clk' err w) (blockers_query ''t'' ''A'' i)"
    "vh_state (graph_http sv clk err w) (lifecycle_query ''t'' [CHR 0xC5, CHR 0x81] j)
      = vh_state (graph_http sv clk' err w) (lifecycle_query ''t'' ''A'' j)" for j
    by (simp_all add: graph_http_def same)
  moreover have "vh_status_error (graph_http sv clk err w) = vh_status_error (graph_http sv clk' err w)"
    by (simp add: graph_http_def)
  ultimately show ?thesis by (simp only: fetch_person_view_def)
qed

section \<open>A digest read over HTTP\<close>

definition graph_twin :: twin where
  "graph_twin = \<lparr>tw_tenant_id = ''t'', tw_twin_id = ''twin:person:gu_x'', tw_twin_kind = Person, tw_subject_id = ''gu_x'',
     tw_display_name = ''X'', tw_timezone = ''UTC'', tw_channel_id = ''C'', tw_shadow_until = None,
     tw_high_auto_publish = False, tw_enabled = True, tw_config_json = JObj [], tw_created_at = 0, tw_updated_at = 0\<rparr>"

definition graph_twin_env :: compile_env where
  "graph_twin_env = \<lparr>ce_sha = (\<lambda>s. s), ce_chrono = \<lparr>strftime = (\<lambda>f t. f), rfc3339 = (\<lambda>t. [])\<rparr>, ce_upper = (\<lambda>s. s),
     ce_uuid = ''u'', ce_clock = (\<lambda>n. int n)\<rparr>"

text \<open>The person \<open>gu_x\<close>, work that is linked to it, and the same work as a private node.\<close>

definition graph_with_work :: "bool \<Rightarrow> project_world" where
  "graph_with_work private =
     \<lparr>pw_store = apply_mutation \<lparr>gm_nodes = [sample_node ''person:gu_x'' False,
          (sample_node ''issue:1'' private)\<lparr>gn_node_type := ''Issue''\<rparr>],
        gm_edges = [(sample_edge ''e1'' ''person:gu_x'' ''issue:1'')\<lparr>ge_edge_type := ''AUTHORED''\<rparr>], gm_states = []\<rparr> new_graph_store,
      pw_members = []\<rparr>"

definition read_digest :: "(project_world \<Rightarrow> graph_source) \<Rightarrow> bool \<Rightarrow> string list" where
  "read_digest source private =
     (case fst (compile_person graph_twin_env (source (graph_with_work private)) graph_twin (window_opts 0 10 3) new_twin_store) of
        Inr out \<Rightarrow> map li_node_id (sl_items (ls_ledger (oc_ledger out)))
      | Inl _ \<Rightarrow> [''failed''])"


end
