(* ===== verification/Egress_Client.thy ===== *)
theory Egress_Client
  imports Egress_Proxy Url_Text Twin_Model Telemetry_Model
begin

text \<open>
  The client side of the credential proxy: \<open>twin-core/src/egress.rs\<close> and
  \<open>telemetry-core/src/egress.rs\<close>. A call names a tool and a target; the client rewrites the target
  to the address of the proxy and sends no credential. The URL parser and the HTTP exchange are
  parameters. The lemmas follow a rewritten call into the proxy of \<open>Egress_Proxy\<close>.
\<close>

section \<open>Configuration and rewriting\<close>

record egress_conf =
  eg_proxy_url :: "string option"
  eg_enforce :: bool

text \<open>\<open>fallback\<close> is the setting without \<open>EGRESS_ENFORCE\<close>: on for the twin, off for telemetry.\<close>

definition egress_from_env :: "bool \<Rightarrow> string option \<Rightarrow> string option \<Rightarrow> egress_conf" where
  "egress_from_env fallback url enforce =
     \<lparr>eg_proxy_url = filter_opt (\<lambda>s. s \<noteq> []) (map_option trim url),
      eg_enforce = (case enforce of Some v \<Rightarrow> v = ''1'' \<or> eq_ignore_ascii_case v ''true'' | None \<Rightarrow> fallback)\<rparr>"

record target_url =
  tu_host :: "string option"
  tu_port :: "nat option"
  tu_path :: string
  tu_query :: "string option"

definition port_text :: "nat option \<Rightarrow> string" where
  "port_text p = (case p of Some n \<Rightarrow> '':'' @ show_nat n | None \<Rightarrow> [])"

definition query_text :: "string option \<Rightarrow> string" where
  "query_text q = (case q of Some s \<Rightarrow> ''?'' @ s | None \<Rightarrow> [])"

datatype rewrite_failure = NoProxy | BadTarget string | NoHost

definition rewrite_url ::
  "egress_conf \<Rightarrow> (string \<Rightarrow> string + target_url) \<Rightarrow> string \<Rightarrow> rewrite_failure + string" where
  "rewrite_url conf parse target =
     (case eg_proxy_url conf of
        None \<Rightarrow> if eg_enforce conf then Inl NoProxy else Inr target
      | Some p \<Rightarrow>
          (case parse target of
             Inl e \<Rightarrow> Inl (BadTarget e)
           | Inr u \<Rightarrow>
               (case tu_host u of
                  None \<Rightarrow> Inl NoHost
                | Some host \<Rightarrow>
                    Inr (trim_end_slash p @ ''/proxy/'' @ host @ port_text (tu_port u) @ tu_path u @ query_text (tu_query u)))))"

section \<open>Requests\<close>

record outbound =
  ob_method :: string
  ob_url :: string
  ob_headers :: "(string \<times> string) list"
  ob_body :: "string option"

definition tool_header_name :: string where "tool_header_name = ''X-AI-Manager-Tool''"

fun twin_rewrite_error :: "rewrite_failure \<Rightarrow> twin_error" where
  "twin_rewrite_error NoProxy = TEgress ''EGRESS_ENFORCE=true but EGRESS_PROXY_URL is unset (fail-closed)''"
| "twin_rewrite_error (BadTarget e) = TValidation (''invalid target URL: '' @ e)"
| "twin_rewrite_error NoHost = TValidation ''target URL missing host''"

text \<open>What the twin's client sends for a call, or why it sends nothing.\<close>

definition twin_outbound ::
  "egress_conf \<Rightarrow> (string \<Rightarrow> string + target_url) \<Rightarrow> string \<Rightarrow> string \<Rightarrow> string \<Rightarrow> string option
   \<Rightarrow> (string \<times> string) list \<Rightarrow> twin_error + outbound" where
  "twin_outbound conf parse meth tool target body extra =
     (if tool = [] then Inl (TValidation ''tool name required for egress'')
      else case rewrite_url conf parse target of
        Inl f \<Rightarrow> Inl (twin_rewrite_error f)
      | Inr url \<Rightarrow> Inr \<lparr>ob_method = meth, ob_url = url, ob_headers = (tool_header_name, tool) # extra, ob_body = body\<rparr>)"

definition twin_post_json ::
  "egress_conf \<Rightarrow> (string \<Rightarrow> string + target_url) \<Rightarrow> (json \<Rightarrow> string) \<Rightarrow> string \<Rightarrow> string \<Rightarrow> json \<Rightarrow> twin_error + outbound" where
  "twin_post_json conf parse show tool target body =
     twin_outbound conf parse ''POST'' tool target (Some (show body)) [(''content-type'', ''application/json'')]"

fun core_rewrite_error :: "rewrite_failure \<Rightarrow> core_error" where
  "core_rewrite_error NoProxy = CInternal ''EGRESS_ENFORCE=true but EGRESS_PROXY_URL is unset (fail-closed)''"
| "core_rewrite_error (BadTarget e) = CValidation (''invalid target URL: '' @ e)"
| "core_rewrite_error NoHost = CValidation ''target URL missing host''"

definition core_outbound ::
  "egress_conf \<Rightarrow> (string \<Rightarrow> string + target_url) \<Rightarrow> string \<Rightarrow> string \<Rightarrow> string \<Rightarrow> string option
   \<Rightarrow> (string \<times> string) list \<Rightarrow> core_error + outbound" where
  "core_outbound conf parse meth tool target body extra =
     (if tool = [] then Inl (CValidation ''tool name required for egress'')
      else if eg_enforce conf \<and> eg_proxy_url conf = None
      then Inl (CInternal ''EGRESS_ENFORCE=true: outbound API calls require EGRESS_PROXY_URL (no env secret fallback)'')
      else case rewrite_url conf parse target of
        Inl f \<Rightarrow> Inl (core_rewrite_error f)
      | Inr url \<Rightarrow>
          Inr \<lparr>ob_method = meth, ob_url = url,
               ob_headers = (if eg_proxy_url conf = None then [] else [(tool_header_name, tool)])
                 @ filter (\<lambda>(k, v). \<not> eq_ignore_ascii_case k ''authorization'') extra,
               ob_body = body\<rparr>)"

definition core_get :: "egress_conf \<Rightarrow> (string \<Rightarrow> string + target_url) \<Rightarrow> string \<Rightarrow> string \<Rightarrow> core_error + outbound" where
  "core_get conf parse tool target = core_outbound conf parse ''GET'' tool target None []"

definition core_post_json ::
  "egress_conf \<Rightarrow> (string \<Rightarrow> string + target_url) \<Rightarrow> (json \<Rightarrow> string) \<Rightarrow> string \<Rightarrow> string \<Rightarrow> json \<Rightarrow> core_error + outbound" where
  "core_post_json conf parse show tool target body =
     core_outbound conf parse ''POST'' tool target (Some (show body)) [(''content-type'', ''application/json'')]"

section \<open>Through the proxy\<close>

text \<open>
  What the proxy receives when it listens at \<open>base\<close>: the path and the query of the URL, the header
  names in lower case. The target again, as \<open>https\<close>.
\<close>

definition at_proxy :: "string \<Rightarrow> outbound \<Rightarrow> proxy_request option" where
  "at_proxy base ob =
     (case strip_prefix (ob_url ob) base of
        None \<Rightarrow> None
      | Some rest \<Rightarrow>
          (let (path, query) = split_once (CHR ''?'') rest
           in Some \<lparr>pr_method = ob_method ob, pr_path = path, pr_query = query,
                pr_headers = map (\<lambda>(k, v). (to_ascii_lowercase k, v)) (ob_headers ob),
                pr_body = Inr (unwrap_or (ob_body ob) [])\<rparr>))"

definition https_form :: "target_url \<Rightarrow> string \<Rightarrow> string" where
  "https_form u host = ''https://'' @ host @ port_text (tu_port u) @ tu_path u @ query_text (tu_query u)"

text \<open>The shape of a parsed URL: no delimiter in the host, a path from its slash up to the question mark.\<close>

definition url_parts_ok :: "target_url \<Rightarrow> string \<Rightarrow> bool" where
  "url_parts_ok u host \<longleftrightarrow> tu_host u = Some host \<and> host \<noteq> [] \<and> set host \<inter> {CHR '':'', CHR ''/'', CHR ''?''} = {}
     \<and> starts_with (tu_path u) ''/'' \<and> CHR ''?'' \<notin> set (tu_path u)"

lemma split_once_query:
  assumes "CHR ''?'' \<notin> set a"
  shows "split_once (CHR ''?'') (a @ query_text q) = (a, q)"
proof (cases q)
  case None
  then show ?thesis using assms takeWhile_eq_all_conv [of "\<lambda>c. c \<noteq> CHR ''?''" a]
    by (auto simp: split_once_def query_text_def dropWhile_eq_Nil_conv)
next
  case (Some s)
  then show ?thesis using split_once_join [OF assms, of s] by (simp add: query_text_def)
qed

lemma port_no_question: "CHR ''?'' \<notin> set (port_text p)" "CHR ''/'' \<notin> set (port_text p)"
  using show_nat_digits [of "CHR ''?''"] show_nat_digits [of "CHR ''/''"]
  by (auto simp: port_text_def digit_def split: option.splits)

lemma not_http_prefix:
  assumes "url_parts_ok u host"
  shows "\<not> http_prefix (host @ port_text (tu_port u) @ tu_path u)"
proof
  let ?p = "\<lambda>c. c \<notin> {CHR '':'', CHR ''/''}" and ?rest = "port_text (tu_port u) @ tu_path u"
  assume "http_prefix (host @ ?rest)"
  then have "prefix (''http'' @ ''://'') (host @ ?rest) \<or> prefix (''https'' @ ''://'') (host @ ?rest)"
    by (simp add: http_prefix_def starts_with_def)
  then obtain s r where s: "s = ''http'' \<or> s = ''https''" and eq: "host @ ?rest = s @ ''://'' @ r"
    unfolding prefix_def append_assoc by blast
  obtain path where path: "tu_path u = CHR ''/'' # path" using assms by (auto simp: url_parts_ok_def starts_with_def prefix_def)
  have "\<forall>c\<in>set host. ?p c" using assms by (auto simp: url_parts_ok_def)
  moreover obtain c cs where c: "?rest = c # cs" "\<not> ?p c" by (cases "tu_port u") (auto simp: port_text_def path)
  ultimately have "dropWhile ?p (host @ c # cs) = c # cs" by (auto simp: dropWhile_append2)
  then have "dropWhile ?p (host @ ?rest) = ?rest" by (simp only: c(1))
  moreover have "dropWhile ?p (s @ ''://'' @ r) = ''://'' @ r" using s by auto
  ultimately have rest: "?rest = ''://'' @ r" using eq by simp
  then obtain n where n: "tu_port u = Some n" by (cases "tu_port u") (auto simp: port_text_def path)
  obtain d ds where d: "show_nat n = d # ds" by (cases "show_nat n") auto
  then have "d = CHR ''/''" using rest n by (simp add: port_text_def)
  then show False using show_nat_digits [of d n] d by (simp add: digit_def)
qed

text \<open>The proxy resolves a rewritten URL to the target, with \<open>https\<close> whatever the scheme was.\<close>

lemma rewritten_url_resolves:
  assumes "parse target = Inr u" "url_parts_ok u host" "eg_proxy_url conf = Some base"
  shows "\<exists>path. rewrite_url conf parse target = Inr (trim_end_slash base @ path @ query_text (tu_query u))
    \<and> CHR ''?'' \<notin> set path
    \<and> resolve_target_url env path (tu_query u)
        = (case px_parse_url env (https_form u host) of Some x \<Rightarrow> Inr x | None \<Rightarrow> Inl ''invalid target URL'')"
proof (intro exI conjI)
  let ?path = "''/proxy/'' @ host @ port_text (tu_port u) @ tu_path u"
  have host: "tu_host u = Some host" "host \<noteq> []" "CHR ''?'' \<notin> set host" "CHR ''?'' \<notin> set (tu_path u)"
    using assms(2) by (auto simp: url_parts_ok_def)
  show "rewrite_url conf parse target = Inr (trim_end_slash base @ ?path @ query_text (tu_query u))"
    using assms(1,3) host(1) by (simp add: rewrite_url_def)
  show "CHR ''?'' \<notin> set ?path" using host port_no_question(1) by auto
  have c: "candidate_url ?path = Inr (''https://'' @ host @ port_text (tu_port u) @ tu_path u)"
    using not_http_prefix [OF assms(2)] by (simp add: candidate_url_def strip_prefix_def Let_def)
  have "CHR ''?'' \<notin> set (''https://'' @ host @ port_text (tu_port u) @ tu_path u)"
    using host port_no_question(1) by auto
  then show "resolve_target_url env ?path (tu_query u)
      = (case px_parse_url env (https_form u host) of Some x \<Rightarrow> Inr x | None \<Rightarrow> Inl ''invalid target URL'')"
    unfolding resolve_target_url_def c
    by (cases "tu_query u") (simp_all add: https_form_def query_text_def Let_def split: option.split)
qed

lemma at_proxy_request:
  assumes "ob_url ob = base @ path @ query_text q" "CHR ''?'' \<notin> set path"
  shows "at_proxy base ob = Some \<lparr>pr_method = ob_method ob, pr_path = path, pr_query = q,
    pr_headers = map (\<lambda>(k, v). (to_ascii_lowercase k, v)) (ob_headers ob), pr_body = Inr (unwrap_or (ob_body ob) [])\<rparr>"
  using split_once_query [OF assms(2), of q] assms(1) by (simp add: at_proxy_def strip_prefix_def)

lemma proxy_handler_passes:
  assumes "proxy_handler env st req = (Some up, resp)"
    and "pr_body req = Inr b"
  shows "ur_method up = pr_method req" "ur_body up = (if b = [] then None else Some b)"
  using assms by (auto simp: proxy_handler_def Let_def split: option.splits sum.splits if_splits)

text \<open>
  C32. A call of the twin arrives where it was meant to go, with the credential of its tool. Through a
  configured proxy every call with a well-formed target is sent to the proxy with the caller's headers after the
  tool header; if the proxy sends it on, then to the URL of the target as \<open>https\<close>, on the list of the tool that
  was named, with that tool's credential and the method and body of the call.
\<close>

theorem call_reaches_its_target:
  assumes "parse target = Inr u" "url_parts_ok u host" "eg_proxy_url conf = Some base" "tool \<noteq> []"
    and "px_to_str env tool = Some tool" "trim tool = tool"
  shows "\<exists>ob req. twin_outbound conf parse meth tool target body extra = Inr ob
    \<and> at_proxy (trim_end_slash base) ob = Some req
    \<and> ob_headers ob = (tool_header_name, tool) # extra
    \<and> (\<forall>up resp. proxy_handler env st req = (Some up, resp) \<longrightarrow>
         px_parse_url env (https_form u host) = Some (ur_url up) \<and> ur_method up = meth
         \<and> ur_body up = filter_opt (\<lambda>b. b \<noteq> []) body
         \<and> (\<exists>cfg h secret hn. registry_get (px_registry st) tool = Some cfg \<and> pu_host (ur_url up) = Some h
              \<and> host_only h \<in> set (tc_hosts cfg) \<and> secrets_get (px_secrets st) (tc_secret cfg) = Some secret
              \<and> px_header_name env (tc_header cfg) = Some hn \<and> dm_get (ur_headers up) hn = Some (tc_prefix cfg @ secret)))"
proof -
  obtain path where path: "rewrite_url conf parse target = Inr (trim_end_slash base @ path @ query_text (tu_query u))"
    "CHR ''?'' \<notin> set path" "resolve_target_url env path (tu_query u)
        = (case px_parse_url env (https_form u host) of Some x \<Rightarrow> Inr x | None \<Rightarrow> Inl ''invalid target URL'')"
    using rewritten_url_resolves [where parse = parse and target = target and env = env, OF assms(1-3)] by blast
  define ob where "ob = \<lparr>ob_method = meth, ob_url = trim_end_slash base @ path @ query_text (tu_query u),
    ob_headers = (tool_header_name, tool) # extra, ob_body = body\<rparr>"
  define req where "req = \<lparr>pr_method = meth, pr_path = path, pr_query = tu_query u,
    pr_headers = map (\<lambda>(k, v). (to_ascii_lowercase k, v)) (ob_headers ob), pr_body = Inr (unwrap_or body [])\<rparr>"
  have o: "twin_outbound conf parse meth tool target body extra = Inr ob"
    using path(1) assms(4) by (simp add: twin_outbound_def ob_def)
  have r: "at_proxy (trim_end_slash base) ob = Some req"
    using at_proxy_request [of ob "trim_end_slash base" path "tu_query u"] path(2) by (simp add: ob_def req_def)
  have "to_ascii_lowercase tool_header_name = tool_header" by code_simp
  then have t: "tool_of env (pr_headers req) = Some tool"
    using assms(4-6) by (simp add: tool_of_def req_def ob_def dm_get_def)
  { fix up resp assume h: "proxy_handler env st req = (Some up, resp)"
    have m: "ur_method up = meth" "ur_body up = filter_opt (\<lambda>b. b \<noteq> []) body"
      using proxy_handler_passes [OF h, of "unwrap_or body []"] by (cases body; simp add: req_def)+
    from proxy_handler_sent [OF h] t path(3) have "px_parse_url env (https_form u host) = Some (ur_url up)"
      by (auto simp: req_def split: option.splits)
    with proxy_handler_sent [OF h] t m have "px_parse_url env (https_form u host) = Some (ur_url up) \<and> ur_method up = meth
         \<and> ur_body up = filter_opt (\<lambda>b. b \<noteq> []) body
         \<and> (\<exists>cfg h secret hn. registry_get (px_registry st) tool = Some cfg \<and> pu_host (ur_url up) = Some h
              \<and> host_only h \<in> set (tc_hosts cfg) \<and> secrets_get (px_secrets st) (tc_secret cfg) = Some secret
              \<and> px_header_name env (tc_header cfg) = Some hn \<and> dm_get (ur_headers up) hn = Some (tc_prefix cfg @ secret))"
      by auto }
  with o r show ?thesis by (intro exI [of _ ob] exI [of _ req]) (simp add: ob_def)
qed

text \<open>Without a proxy an enforcing client sends nothing.\<close>

lemma enforced_without_proxy:
  assumes "eg_proxy_url conf = None" "eg_enforce conf"
  shows "\<exists>e. twin_outbound conf parse meth tool target body extra = Inl e"
    "\<exists>e. core_outbound conf parse meth tool target body extra = Inl e"
  using assms by (auto simp: twin_outbound_def core_outbound_def rewrite_url_def)

lemma core_never_sends_authorization:
  "core_outbound conf parse meth tool target body extra = Inr ob \<Longrightarrow> (k, v) \<in> set (ob_headers ob) \<Longrightarrow>
   \<not> eq_ignore_ascii_case k ''authorization''"
proof -
  have "\<not> eq_ignore_ascii_case tool_header_name ''authorization''" by code_simp
  then show "core_outbound conf parse meth tool target body extra = Inr ob \<Longrightarrow> (k, v) \<in> set (ob_headers ob) \<Longrightarrow> ?thesis"
    by (auto simp: core_outbound_def split: if_splits sum.splits)
qed

section \<open>A call at the proxy\<close>

definition sample_egress :: egress_conf where
  "sample_egress = egress_from_env True (Some '' http://127.0.0.1:18090/ '') None"

definition sample_parse :: "string \<Rightarrow> string + target_url" where
  "sample_parse t = Inr \<lparr>tu_host = Some ''api.github.com'', tu_port = None, tu_path = ''/user'', tu_query = Some ''q=1''\<rparr>"

theorem call_reaches_its_target_witness:
  "\<exists>ob req. twin_outbound sample_egress sample_parse ''GET'' ''github_api'' ''http://api.github.com/user?q=1'' None [] = Inr ob
     \<and> ob_url ob = ''http://127.0.0.1:18090/proxy/api.github.com/user?q=1''
     \<and> at_proxy ''http://127.0.0.1:18090'' ob = Some req
     \<and> map_option (\<lambda>up. pu_text (ur_url up)) (fst (proxy_handler echo_env sample_proxy req)) = Some ''https://api.github.com/user?q=1''"
proof -
  let ?u = "\<lparr>tu_host = Some ''api.github.com'', tu_port = None, tu_path = ''/user'', tu_query = Some ''q=1''\<rparr>"
  have p: "sample_parse ''http://api.github.com/user?q=1'' = Inr ?u" by (simp add: sample_parse_def)
  have k: "url_parts_ok ?u ''api.github.com''" by code_simp
  have b: "eg_proxy_url sample_egress = Some ''http://127.0.0.1:18090/''" "trim_end_slash ''http://127.0.0.1:18090/'' = ''http://127.0.0.1:18090''"
    by code_simp+
  have t: "px_to_str echo_env ''github_api'' = Some ''github_api''" "trim ''github_api'' = ''github_api''" by code_simp+
  obtain ob req where o: "twin_outbound sample_egress sample_parse ''GET'' ''github_api'' ''http://api.github.com/user?q=1'' None [] = Inr ob"
    and r: "at_proxy ''http://127.0.0.1:18090'' ob = Some req"
    and h: "\<forall>up resp. proxy_handler echo_env sample_proxy req = (Some up, resp) \<longrightarrow>
         px_parse_url echo_env (https_form ?u ''api.github.com'') = Some (ur_url up)"
    using call_reaches_its_target [where parse = sample_parse and target = "''http://api.github.com/user?q=1''" and env = echo_env
        and tool = "''github_api''" and meth = "''GET''" and body = None and extra = "[]" and st = sample_proxy, OF p k b(1) _ t]
    unfolding b(2) by force
  have e: "ob = \<lparr>ob_method = ''GET'', ob_url = ''http://127.0.0.1:18090/proxy/api.github.com/user?q=1'',
      ob_headers = [(tool_header_name, ''github_api'')], ob_body = None\<rparr>"
  proof -
    have "twin_outbound sample_egress sample_parse ''GET'' ''github_api'' ''http://api.github.com/user?q=1'' None []
      = Inr \<lparr>ob_method = ''GET'', ob_url = ''http://127.0.0.1:18090/proxy/api.github.com/user?q=1'',
          ob_headers = [(tool_header_name, ''github_api'')], ob_body = None\<rparr>" by code_simp
    with o show ?thesis by simp
  qed
  have "map_option (\<lambda>_. True) (fst (proxy_handler echo_env sample_proxy (the (at_proxy ''http://127.0.0.1:18090'' ob)))) = Some True"
    unfolding e by code_simp
  then obtain up where up: "fst (proxy_handler echo_env sample_proxy req) = Some up" using r by auto
  then have "px_parse_url echo_env (https_form ?u ''api.github.com'') = Some (ur_url up)" using h by (metis prod.collapse)
  moreover have "https_form ?u ''api.github.com'' = ''https://api.github.com/user?q=1''" by code_simp
  ultimately have "pu_text (ur_url up) = ''https://api.github.com/user?q=1''" by (simp add: echo_env_def) (metis parsed_url.select_convs(1))
  with o r e up show ?thesis by (intro exI [of _ ob] exI [of _ req]) simp
qed

end
