(* ===== verification/Chat_Clients.thy ===== *)
theory Chat_Clients
  imports Egress_Client Twin_Gateway
begin

text \<open>
  The chat clients of \<open>twin-delivery\<close>: Slack (\<open>slack.rs\<close>) and Teams (\<open>teams.rs\<close>), both over the
  egress client of \<open>Egress_Client\<close>, as delivery clients of \<open>Twin_Delivery\<close>. The HTTP exchange is a
  function of the chat calls so far and of the requests already made for the present post; JSON text and the
  text of a status are parameters. The lemmas: every request goes through the proxy, and what
  the buttons of a Teams card do.
\<close>

section \<open>The exchange\<close>

type_synonym http_answer = "string + nat \<times> (string + json)"

record chat_net =
  kn_conf :: egress_conf
  kn_parse :: "string \<Rightarrow> string + target_url"
  kn_show :: "json \<Rightarrow> string"
  kn_status :: "nat \<Rightarrow> string"
  kn_send :: "chat_call list \<Rightarrow> outbound list \<Rightarrow> outbound \<Rightarrow> http_answer"
  kn_app_id :: string
  kn_service_url :: string
  kn_tenant :: string

definition slack_tool :: string where "slack_tool = ''slack_api''"
definition teams_tool :: string where "teams_tool = ''teams_bot''"

text \<open>One call, and the requests made so far in this post.\<close>

definition egress_call ::
  "chat_net \<Rightarrow> chat_call list \<Rightarrow> string \<Rightarrow> string \<Rightarrow> json \<Rightarrow> outbound list
   \<Rightarrow> (twin_error + nat \<times> (string + json)) \<times> outbound list" where
  "egress_call k log tool target body tr =
     (case twin_post_json (kn_conf k) (kn_parse k) (kn_show k) tool target body of
        Inl e \<Rightarrow> (Inl e, tr)
      | Inr ob \<Rightarrow>
          (case kn_send k log tr ob of
             Inl e \<Rightarrow> (Inl (TEgress (''request failed: '' @ e)), tr @ [ob])
           | Inr a \<Rightarrow> (Inr a, tr @ [ob])))"

definition http_success :: "nat \<Rightarrow> bool" where
  "http_success n \<longleftrightarrow> 200 \<le> n \<and> n < 300"

section \<open>Slack\<close>

definition slack_post_channel ::
  "chat_net \<Rightarrow> chat_call list \<Rightarrow> string \<Rightarrow> string \<Rightarrow> outbound list \<Rightarrow> (twin_error + post_result) \<times> outbound list" where
  "slack_post_channel k log channel msg tr =
     (case egress_call k log slack_tool ''https://slack.com/api/chat.postMessage''
             (JObj [(''channel'', JStr channel), (''text'', JStr msg)]) tr of
        (Inl e, tr1) \<Rightarrow> (Inl e, tr1)
      | (Inr (_, Inl e), tr1) \<Rightarrow> (Inl (TEgress e), tr1)
      | (Inr (status, Inr j), tr1) \<Rightarrow>
          if \<not> http_success status \<or> Option.bind (json_get j ''ok'') as_bool = Some False
          then (Inl (TEgress (''slack post failed: status='' @ kn_status k status @ '' body='' @ kn_show k j)), tr1)
          else (Inr \<lparr>po_channel = channel, po_ts = unwrap_or (Option.bind (json_get j ''ts'') as_str) []\<rparr>, tr1))"

definition slack_post_dm ::
  "chat_net \<Rightarrow> chat_call list \<Rightarrow> string \<Rightarrow> string \<Rightarrow> outbound list \<Rightarrow> (twin_error + post_result) \<times> outbound list" where
  "slack_post_dm k log user msg tr =
     (case egress_call k log slack_tool ''https://slack.com/api/conversations.open'' (JObj [(''users'', JStr user)]) tr of
        (Inl e, tr1) \<Rightarrow> (Inl e, tr1)
      | (Inr (_, Inl e), tr1) \<Rightarrow> (Inl (TEgress e), tr1)
      | (Inr (_, Inr j), tr1) \<Rightarrow>
          slack_post_channel k log
            (unwrap_or (Option.bind (json_pointer j [''channel'', ''id'']) as_str) user) msg tr1)"

fun slack_post :: "chat_net \<Rightarrow> chat_call list \<Rightarrow> chat_post \<Rightarrow> (twin_error + post_result) \<times> outbound list" where
  "slack_post k log (ChatDm user msg) = slack_post_dm k log user msg []"
| "slack_post k log (ChatChannel channel msg) = slack_post_channel k log channel msg []"
| "slack_post k log (ChatDraftDm user draft msg deadline) =
     slack_post_dm k log user (draft_dm_plain_text msg deadline) []"

definition slack_client :: "chat_net \<Rightarrow> delivery_client" where
  "slack_client k = \<lparr>dc_adapter_kind = AdSlack, dc_post = (\<lambda>log p. fst (slack_post k log p))\<rparr>"

section \<open>Teams\<close>

definition activity_url :: "chat_net \<Rightarrow> string \<Rightarrow> string" where
  "activity_url k conv = trim_end_slash (kn_service_url k) @ ''/v3/conversations/'' @ urlencoding_path conv @ ''/activities''"

definition text_block :: "string \<Rightarrow> (string \<times> json) list \<Rightarrow> json" where
  "text_block msg style = JObj ([(''type'', JStr ''TextBlock''), (''text'', JStr msg)] @ style)"

definition dont_send :: string where "dont_send = ''Don'' @ [CHR 0x27] @ ''t send''"

definition submit_action :: "string \<Rightarrow> string \<Rightarrow> string \<Rightarrow> json" where
  "submit_action title action draft =
     JObj [(''type'', JStr ''Action.Submit''), (''title'', JStr title),
           (''data'', JObj [(''action'', JStr action), (''draft_id'', JStr draft)])]"

definition adaptive_card :: "string \<Rightarrow> string \<Rightarrow> string \<Rightarrow> json" where
  "adaptive_card draft msg deadline =
     JObj [(''type'', JStr ''AdaptiveCard''), (''$schema'', JStr ''http://adaptivecards.io/schemas/adaptive-card.json''),
           (''version'', JStr ''1.4''),
           (''body'', JArr [text_block ''Status digest'' [(''weight'', JStr ''Bolder''), (''size'', JStr ''Medium'')],
              text_block msg [(''wrap'', JBool True)],
              text_block (''Window until '' @ deadline @ ''. We'' @ [CHR 0x27] @ ''ll only ping again if this story changes.'')
                [(''wrap'', JBool True), (''isSubtle'', JBool True), (''size'', JStr ''Small'')]]),
           (''actions'', JArr [submit_action ''Approve'' ''publish'' draft, submit_action ''Edit'' ''edit'' draft,
              submit_action dont_send ''veto'' draft])]"

definition bot_from :: "chat_net \<Rightarrow> json" where
  "bot_from k = JObj [(''id'', JStr (kn_app_id k)), (''name'', JStr ''AI Manager'')]"

text \<open>The conversation of a user is created first, unless the target names a conversation.\<close>

definition teams_conversation ::
  "chat_net \<Rightarrow> chat_call list \<Rightarrow> string \<Rightarrow> outbound list \<Rightarrow> (twin_error + string) \<times> outbound list" where
  "teams_conversation k log target tr =
     (if starts_with target ''a:'' \<or> starts_with target ''19:'' then (Inr target, tr)
      else case egress_call k log teams_tool (trim_end_slash (kn_service_url k) @ ''/v3/conversations'')
             (JObj [(''bot'', bot_from k), (''members'', JArr [JObj [(''id'', JStr target)]]),
                    (''channelData'', JObj [(''tenant'', JObj [(''id'', JStr (kn_tenant k))])]), (''isGroup'', JBool False)]) tr of
        (Inl e, tr1) \<Rightarrow> (Inl e, tr1)
      | (Inr (_, Inl e), tr1) \<Rightarrow> (Inl (TEgress (''teams: '' @ e)), tr1)
      | (Inr (status, Inr j), tr1) \<Rightarrow>
          (Inr (if http_success status then unwrap_or (Option.bind (json_get j ''id'') as_str) target else target), tr1))"

definition post_activity ::
  "chat_net \<Rightarrow> chat_call list \<Rightarrow> string \<Rightarrow> json \<Rightarrow> (twin_error + post_result) \<times> outbound list" where
  "post_activity k log target activity =
     (case teams_conversation k log target [] of
        (Inl e, tr) \<Rightarrow> (Inl e, tr)
      | (Inr conv, tr) \<Rightarrow>
          (case egress_call k log teams_tool (activity_url k conv) activity tr of
             (Inl e, tr1) \<Rightarrow> (Inl e, tr1)
           | (Inr (_, Inl e), tr1) \<Rightarrow> (Inl (TEgress (''teams: '' @ e)), tr1)
           | (Inr (status, Inr j), tr1) \<Rightarrow>
               if \<not> http_success status
               then (Inl (TEgress (''teams: post activity failed: status='' @ kn_status k status @ '' body='' @ kn_show k j)), tr1)
               else (Inr \<lparr>po_channel = conv, po_ts = unwrap_or (Option.bind (json_get j ''id'') as_str) []\<rparr>, tr1)))"

definition message_activity :: "chat_net \<Rightarrow> string \<Rightarrow> json" where
  "message_activity k msg = JObj [(''type'', JStr ''message''), (''text'', JStr msg), (''from'', bot_from k)]"

definition draft_activity :: "chat_net \<Rightarrow> string \<Rightarrow> string \<Rightarrow> string \<Rightarrow> json" where
  "draft_activity k draft msg deadline =
     JObj [(''type'', JStr ''message''),
           (''summary'', JStr (''Status digest '' @ em_dash @ '' Approve / Edit / '' @ dont_send)), (''from'', bot_from k),
           (''attachments'', JArr [JObj [(''contentType'', JStr ''application/vnd.microsoft.card.adaptive''),
              (''content'', adaptive_card draft msg deadline)]]),
           (''text'', JStr (msg @ newline @ newline @ ''Approve '' @ middle_dot @ '' Edit '' @ middle_dot @ '' '' @ dont_send
              @ '' (draft '' @ draft @ '')'' @ newline @ ''Window until '' @ deadline @ ''.''))]"

fun teams_post :: "chat_net \<Rightarrow> chat_call list \<Rightarrow> chat_post \<Rightarrow> (twin_error + post_result) \<times> outbound list" where
  "teams_post k log (ChatDm user msg) = post_activity k log user (message_activity k msg)"
| "teams_post k log (ChatChannel channel msg) = post_activity k log channel (message_activity k msg)"
| "teams_post k log (ChatDraftDm user draft msg deadline) = post_activity k log user (draft_activity k draft msg deadline)"

definition teams_client :: "chat_net \<Rightarrow> delivery_client" where
  "teams_client k = \<lparr>dc_adapter_kind = AdTeams, dc_post = (\<lambda>log p. fst (teams_post k log p))\<rparr>"

section \<open>Every request goes through the proxy\<close>

definition via_proxy :: "chat_net \<Rightarrow> string \<Rightarrow> outbound \<Rightarrow> bool" where
  "via_proxy k tool ob \<longleftrightarrow>
     (\<exists>base rest. eg_proxy_url (kn_conf k) = Some base \<and> ob_url ob = trim_end_slash base @ ''/proxy/'' @ rest
        \<and> ob_headers ob = [(tool_header_name, tool), (''content-type'', ''application/json'')])"

text \<open>What a step of a post keeps: its requests are proxied, and without a proxy it makes none and fails.\<close>

definition proxied_step :: "chat_net \<Rightarrow> string \<Rightarrow> outbound list \<Rightarrow> (twin_error + 'a) \<times> outbound list \<Rightarrow> bool" where
  "proxied_step k tool tr res \<longleftrightarrow>
     (\<forall>ob\<in>set (snd res). ob \<in> set tr \<or> via_proxy k tool ob)
     \<and> (eg_proxy_url (kn_conf k) = None \<longrightarrow> snd res = tr \<and> (\<exists>e. fst res = Inl e))"

lemma egress_call_proxied:
  assumes "eg_enforce (kn_conf k)"
  shows "proxied_step k tool tr (egress_call k log tool target body tr)"
  using assms
  by (auto simp: proxied_step_def egress_call_def twin_post_json_def twin_outbound_def rewrite_url_def via_proxy_def
      split: sum.splits option.splits if_splits)

lemma proxied_then:
  assumes "proxied_step k tool tr (Inr x, tr1)" "proxied_step k tool tr1 res"
  shows "proxied_step k tool tr res"
  using assms by (auto simp: proxied_step_def)

lemma proxied_stop:
  assumes "proxied_step k tool tr (r, tr1)" "eg_proxy_url (kn_conf k) = None \<Longrightarrow> \<exists>e. r' = Inl e"
  shows "proxied_step k tool tr (r', tr1)"
  using assms by (auto simp: proxied_step_def)

lemma slack_channel_proxied:
  assumes "eg_enforce (kn_conf k)"
  shows "proxied_step k slack_tool tr (slack_post_channel k log channel msg tr)"
proof -
  obtain r tr1 where e: "egress_call k log slack_tool ''https://slack.com/api/chat.postMessage''
      (JObj [(''channel'', JStr channel), (''text'', JStr msg)]) tr = (r, tr1)" by fastforce
  have p: "proxied_step k slack_tool tr (r, tr1)" using egress_call_proxied [OF assms] e by metis
  have "snd (slack_post_channel k log channel msg tr) = tr1"
    "(\<exists>x. r = Inl x) \<Longrightarrow> \<exists>x. fst (slack_post_channel k log channel msg tr) = Inl x"
    by (auto simp: slack_post_channel_def e split: sum.split)
  then show ?thesis using p by (auto simp: proxied_step_def)
qed

lemma slack_dm_proxied:
  assumes "eg_enforce (kn_conf k)"
  shows "proxied_step k slack_tool tr (slack_post_dm k log user msg tr)"
proof -
  obtain r tr1 where e: "egress_call k log slack_tool ''https://slack.com/api/conversations.open'' (JObj [(''users'', JStr user)]) tr
      = (r, tr1)" by fastforce
  have p: "proxied_step k slack_tool tr (r, tr1)" using egress_call_proxied [OF assms] e by metis
  show ?thesis
  proof (cases "\<exists>status j. r = Inr (status, Inr j)")
    case True
    then obtain status j where r: "r = Inr (status, Inr j)" by blast
    then show ?thesis using proxied_then [OF p [unfolded r] slack_channel_proxied [OF assms]] e
      by (simp add: slack_post_dm_def)
  next
    case False
    then have "\<exists>err. slack_post_dm k log user msg tr = (Inl err, tr1)"
      by (auto simp: slack_post_dm_def e split: sum.split)
    then show ?thesis using p by (auto simp: proxied_step_def)
  qed
qed

lemma teams_activity_proxied:
  assumes "eg_enforce (kn_conf k)"
  shows "proxied_step k teams_tool [] (post_activity k log target activity)"
proof -
  obtain c tr where c: "teams_conversation k log target [] = (c, tr)" by fastforce
  have t: "(\<forall>ob\<in>set tr. via_proxy k teams_tool ob) \<and> (eg_proxy_url (kn_conf k) = None \<longrightarrow> tr = [])"
  proof (cases "starts_with target ''a:'' \<or> starts_with target ''19:''")
    case True
    then show ?thesis using c by (auto simp: teams_conversation_def)
  next
    case False
    then obtain r url body where "egress_call k log teams_tool url body [] = (r, tr)"
      using c by (auto simp: teams_conversation_def split: prod.splits sum.splits)
    then show ?thesis using egress_call_proxied [OF assms, of teams_tool "[]" log url body] by (simp add: proxied_step_def)
  qed
  show ?thesis
  proof (cases c)
    case (Inl e)
    then show ?thesis using t by (simp add: post_activity_def c proxied_step_def)
  next
    case (Inr conv)
    obtain r tr1 where e: "egress_call k log teams_tool (activity_url k conv) activity tr = (r, tr1)" by fastforce
    have p: "proxied_step k teams_tool tr (r, tr1)" using egress_call_proxied [OF assms] e by metis
    have "snd (post_activity k log target activity) = tr1"
      "(\<exists>x. r = Inl x) \<Longrightarrow> \<exists>x. fst (post_activity k log target activity) = Inl x"
      by (auto simp: post_activity_def c Inr e split: sum.split)
    then show ?thesis using p t by (auto simp: proxied_step_def)
  qed
qed

text \<open>
  C33. The chat clients reach the outside through the credential proxy only. While the egress client enforces,
  every request that a post of Slack or Teams makes goes to the configured proxy, with the tool of that chat and
  no other header than the content type, so without a credential; with no proxy configured a
  post makes no request at all and fails.
\<close>

theorem chat_uses_the_proxy_only:
  assumes "eg_enforce (kn_conf k)"
  shows "(\<forall>ob\<in>set (snd (slack_post k log p)). via_proxy k slack_tool ob)
    \<and> (\<forall>ob\<in>set (snd (teams_post k log p)). via_proxy k teams_tool ob)
    \<and> (eg_proxy_url (kn_conf k) = None \<longrightarrow>
        (\<exists>e1 e2. slack_post k log p = (Inl e1, []) \<and> teams_post k log p = (Inl e2, [])))"
proof -
  have "proxied_step k slack_tool [] (slack_post k log p)"
    by (cases p) (simp_all add: slack_dm_proxied slack_channel_proxied assms)
  moreover have "proxied_step k teams_tool [] (teams_post k log p)"
    by (cases p) (simp_all add: teams_activity_proxied assms)
  ultimately show ?thesis
    by (cases "slack_post k log p"; cases "teams_post k log p") (auto simp: proxied_step_def)
qed

section \<open>The buttons of a card\<close>

text \<open>
  Pressing the button of a title sends the data of its action back, together with the tenant the chat knows.
\<close>

definition card_press :: "json \<Rightarrow> string \<Rightarrow> string \<Rightarrow> json option" where
  "card_press shown title chat_tenant =
     (case json_get shown ''actions'' of
        Some (JArr xs) \<Rightarrow>
          (case find (\<lambda>x. Option.bind (json_get x ''title'') as_str = Some title) xs of
             Some x \<Rightarrow> map_option (\<lambda>d. JObj [(''type'', JStr ''message''), (''value'', d),
                 (''channelData'', JObj [(''tenant'', JObj [(''id'', JStr chat_tenant)])])]) (json_get x ''data'')
           | None \<Rightarrow> None)
      | _ \<Rightarrow> None)"

definition press_body :: "string \<Rightarrow> string \<Rightarrow> string \<Rightarrow> json" where
  "press_body action draft chat_tenant =
     JObj [(''type'', JStr ''message''), (''value'', JObj [(''action'', JStr action), (''draft_id'', JStr draft)]),
           (''channelData'', JObj [(''tenant'', JObj [(''id'', JStr chat_tenant)])])]"

lemma card_presses:
  "card_press (adaptive_card i msg deadline) dont_send t = Some (press_body ''veto'' i t)"
  "card_press (adaptive_card i msg deadline) ''Approve'' t = Some (press_body ''publish'' i t)"
  by (simp_all add: card_press_def adaptive_card_def submit_action_def press_body_def dont_send_def)

lemma press_handled:
  assumes "i \<noteq> []"
  shows "teams_messages env c (press_body ''veto'' i t) w = (RecordedReply ''veto'', snd (veto_draft t i (gc_clk c) w))"
    "teams_messages env c (press_body ''publish'' i t) w
      = (RecordedReply ''publish'', case chat_publish env c t i w of None \<Rightarrow> w | Some (tw, w1) \<Rightarrow> w1)"
  using assms by (simp_all add: teams_messages_def press_body_def Let_def split: option.split)

text \<open>
  C34. The buttons of a Teams card act on the draft the card shows, in the tenant that Teams names. A press of
  Approve or Don't send on the card of a draft is handled as the publish or the veto of that very draft; but the card
  carries no tenant, so when the tenant of the chat is not the one the draft is stored under, the
  press changes nothing and is still answered as recorded.
\<close>

theorem card_button_acts_on_its_draft:
  assumes "i \<noteq> []"
  shows "\<exists>v p. card_press (adaptive_card i msg deadline) dont_send t = Some v
    \<and> card_press (adaptive_card i msg deadline) ''Approve'' t = Some p
    \<and> teams_messages env c v w = (RecordedReply ''veto'', snd (veto_draft t i (gc_clk c) w))
    \<and> teams_messages env c p w = (RecordedReply ''publish'', case chat_publish env c t i w of None \<Rightarrow> w | Some (tw, w1) \<Rightarrow> w1)
    \<and> (get_draft (dw_store w) t i = None \<longrightarrow>
        snd (teams_messages env c v w) = w \<and> snd (teams_messages env c p w) = w)"
proof -
  have "snd (veto_draft t i (gc_clk c) w) = w \<and> chat_publish env c t i w = None" if "get_draft (dw_store w) t i = None"
    using that by (simp add: veto_draft_def chat_publish_def with_draft_and_ledger_def)
  then show ?thesis using card_presses [of i msg deadline t] press_handled [OF assms, of env c t w] by auto
qed

section \<open>A direct message and a press\<close>

definition sample_answer :: json where
  "sample_answer = JObj [(''ok'', JBool True), (''ts'', JStr ''9.1''), (''channel'', JObj [(''id'', JStr ''D1'')])]"

definition sample_net :: "egress_conf \<Rightarrow> chat_net" where
  "sample_net conf = \<lparr>kn_conf = conf, kn_parse = sample_parse, kn_show = (\<lambda>j. ''{}''), kn_status = (\<lambda>n. show_nat n),
     kn_send = (\<lambda>log tr ob. Inr (200, Inr sample_answer)), kn_app_id = ''bot'', kn_service_url = ''https://smba/'', kn_tenant = ''azure''\<rparr>"

theorem chat_uses_the_proxy_only_witness:
  "map ob_headers (snd (slack_post (sample_net sample_egress) [] (ChatDm ''U1'' ''hi'')))
     = [[(tool_header_name, slack_tool), (''content-type'', ''application/json'')],
        [(tool_header_name, slack_tool), (''content-type'', ''application/json'')]]
   \<and> (\<exists>e. teams_post (sample_net (egress_from_env True None None)) [] (ChatDm ''U1'' ''hi'') = (Inl e, []))"
proof
  let ?k = "sample_net sample_egress" and ?p = "ChatDm ''U1'' ''hi''"
  have "eg_enforce (kn_conf ?k)" by code_simp
  then have h: "\<forall>ob\<in>set (snd (slack_post ?k [] ?p)). ob_headers ob = [(tool_header_name, slack_tool), (''content-type'', ''application/json'')]"
    using chat_uses_the_proxy_only [of ?k "[]" ?p] by (auto simp: via_proxy_def)
  have "length (snd (slack_post ?k [] ?p)) = 2" by code_simp
  then obtain a b where "snd (slack_post ?k [] ?p) = [a, b]"
    by (auto simp: length_Suc_conv numeral_2_eq_2)
  with h show "map ob_headers (snd (slack_post ?k [] ?p))
     = [[(tool_header_name, slack_tool), (''content-type'', ''application/json'')],
        [(tool_header_name, slack_tool), (''content-type'', ''application/json'')]]" by simp
next
  let ?k = "sample_net (egress_from_env True None None)"
  have "eg_enforce (kn_conf ?k)" "eg_proxy_url (kn_conf ?k) = None" by code_simp+
  then show "\<exists>e. teams_post ?k [] (ChatDm ''U1'' ''hi'') = (Inl e, [])"
    using chat_uses_the_proxy_only [of ?k "[]" "ChatDm ''U1'' ''hi''"] by blast
qed

theorem card_button_acts_on_its_draft_witness:
  "\<exists>v. card_press (adaptive_card ''dft_1'' ''hi'' ''noon'') dont_send ''azure'' = Some v
     \<and> teams_messages sample_gate_env sample_call v \<lparr>dw_store = sample_store, dw_log = []\<rparr>
       = (RecordedReply ''veto'', \<lparr>dw_store = sample_store, dw_log = []\<rparr>)"
proof -
  have "get_draft sample_store ''azure'' ''dft_1'' = None"
    by (simp add: get_draft_def sample_store_def dm_get_def)
  then show ?thesis
    using card_button_acts_on_its_draft [of "''dft_1''" "''hi''" "''noon''" "''azure''" sample_gate_env sample_call
        "\<lparr>dw_store = sample_store, dw_log = []\<rparr>"] by (metis delivery_world.select_convs(1) list.distinct(1) prod.collapse fst_conv snd_conv)
qed

end
