(* ===== verification/Person_Lookup.thy ===== *)
theory Person_Lookup
  imports Twin_Gateway
begin

text \<open>
  How a request names a person (\<open>twin-api/src/main.rs\<close>, \<open>resolve_person\<close> to
  \<open>conflict_touches_person\<close>): the path segment is decoded once more, every person twin is
  scored against it, and without a match a person is made up from the name. The decoder may panic; this is
  the value \<open>None\<close>. The lemmas: who is found, and how loose the matching is.
\<close>

section \<open>The lookup\<close>

record resolved_person =
  rp_subject_id :: string
  rp_twin_id :: string
  rp_display_name :: string
  rp_aliases :: "string list"
  rp_match_keys :: "string list"

definition provider_aliases :: "twin \<Rightarrow> string list" where
  "provider_aliases t =
     unwrap_or (map_option (List.map_filter as_str) (Option.bind (json_get (tw_config_json t) ''provider_aliases'') as_array)) []"

definition person_aliases_of :: "slack_user_map list \<Rightarrow> twin \<Rightarrow> string list" where
  "person_aliases_of maps t =
     fold (\<lambda>m as. if sm_global_user_id m \<in> set as then as else as @ [sm_global_user_id m])
       (filter (\<lambda>m. sm_global_user_id m = tw_subject_id t) maps) (provider_aliases t)"

definition person_of_twin :: "slack_user_map list \<Rightarrow> twin \<Rightarrow> resolved_person" where
  "person_of_twin maps t =
     (let aliases = person_aliases_of maps t in
      \<lparr>rp_subject_id = tw_subject_id t, rp_twin_id = tw_twin_id t, rp_display_name = tw_display_name t, rp_aliases = aliases,
       rp_match_keys = [tw_subject_id t, tw_twin_id t, tw_display_name t] @ aliases\<rparr>)"

record candidate =
  cd_person :: resolved_person
  cd_enabled :: bool
  cd_has_slack :: bool
  cd_score :: int

definition bare_name :: "string \<Rightarrow> string" where
  "bare_name raw = unwrap_or (strip_prefix raw ''twin:person:'') raw"

text \<open>Exact up to the case of ASCII letters, or containment in either direction.\<close>

definition exact_key :: "string \<Rightarrow> resolved_person \<Rightarrow> bool" where
  "exact_key raw p \<longleftrightarrow>
     list_ex (\<lambda>k. eq_ignore_ascii_case k raw \<or> eq_ignore_ascii_case k (bare_name raw)) (rp_match_keys p)"

definition close_key :: "string \<Rightarrow> resolved_person \<Rightarrow> bool" where
  "close_key raw p \<longleftrightarrow>
     (let raw_l = to_ascii_lowercase raw; rest_l = to_ascii_lowercase (bare_name raw) in
      list_ex (\<lambda>k. let kl = to_ascii_lowercase k in
          (4 \<le> length kl \<and> (contains kl raw_l \<or> contains raw_l kl))
          \<or> (4 \<le> length rest_l \<and> (contains kl rest_l \<or> contains rest_l kl))) (rp_match_keys p))"

definition match_score :: "string \<Rightarrow> twin \<Rightarrow> bool \<Rightarrow> bool \<Rightarrow> bool \<Rightarrow> int" where
  "match_score raw t exact substr has_slack =
     (let rest = bare_name raw;
          exact_display = eq_ignore_ascii_case (tw_display_name t) raw \<or> eq_ignore_ascii_case (tw_display_name t) rest;
          exact_subject = eq_ignore_ascii_case (tw_subject_id t) raw \<or> eq_ignore_ascii_case (tw_subject_id t) rest
            \<or> eq_ignore_ascii_case (tw_twin_id t) raw
      in (if exact_display then 100 else 0) + (if exact_subject then 90 else 0) + (if exact then 50 else 0)
         + (if substr then 5 else 0) + (if tw_enabled t then 40 else 0) + (if has_slack then 25 else 0))"

definition candidate_of :: "slack_user_map list \<Rightarrow> string \<Rightarrow> twin \<Rightarrow> candidate option" where
  "candidate_of maps raw t =
     (let p = person_of_twin maps t; has_slack = list_ex (\<lambda>m. sm_global_user_id m = tw_subject_id t) maps;
          exact = exact_key raw p; substr = (\<not> exact \<and> close_key raw p)
      in if \<not> exact \<and> \<not> substr then None
         else Some \<lparr>cd_person = p, cd_enabled = tw_enabled t, cd_has_slack = has_slack,
                cd_score = match_score raw t exact substr has_slack\<rparr>)"

definition rank_key :: "candidate \<Rightarrow> int \<times> bool \<times> bool" where
  "rank_key c = (- cd_score c, \<not> cd_enabled c, \<not> cd_has_slack c)"

definition ranked_candidates :: "twin_store \<Rightarrow> string \<Rightarrow> string \<Rightarrow> candidate list" where
  "ranked_candidates s tenant raw =
     sort_key rank_key (List.map_filter (candidate_of (list_slack_maps s tenant) raw)
       (filter (\<lambda>t. tw_twin_kind t = Person) (list_twins s tenant)))"

definition made_up_person :: "string \<Rightarrow> resolved_person" where
  "made_up_person raw =
     \<lparr>rp_subject_id = raw, rp_twin_id = (if starts_with raw ''twin:'' then raw else person_twin_id raw),
      rp_display_name = raw, rp_aliases = [raw], rp_match_keys = [raw]\<rparr>"

definition resolve_person :: "twin_store \<Rightarrow> string \<Rightarrow> string \<Rightarrow> (string + resolved_person) option" where
  "resolve_person s tenant subject_raw =
     (case urlencoding_decode subject_raw of
        None \<Rightarrow> None
      | Some d \<Rightarrow>
          (let raw = trim d in
           if raw = [] then Some (Inl ''subject_id required'')
           else case ranked_candidates s tenant raw of
             c # _ \<Rightarrow> Some (Inr (cd_person c))
           | [] \<Rightarrow> Some (Inr (made_up_person raw))))"

section \<open>Matching a person\<close>

definition person_matches_keys :: "resolved_person \<Rightarrow> string \<Rightarrow> bool" where
  "person_matches_keys p hay \<longleftrightarrow>
     hay \<noteq> [] \<and> (let h = to_ascii_lowercase hay in
       list_ex (\<lambda>k0. let k = to_ascii_lowercase k0 in k \<noteq> [] \<and> (h = k \<or> contains h k \<or> contains k h)) (rp_match_keys p))"

definition json_looks_like_person_blob :: "claim_env \<Rightarrow> json \<Rightarrow> resolved_person \<Rightarrow> bool" where
  "json_looks_like_person_blob env v p \<longleftrightarrow>
     list_ex (\<lambda>k. contains (to_ascii_lowercase (ce_show env v)) (to_ascii_lowercase k))
       (filter (\<lambda>k. 3 \<le> length k) (rp_match_keys p))"

definition intent_owner_matches :: "claim_env \<Rightarrow> json \<Rightarrow> resolved_person \<Rightarrow> bool" where
  "intent_owner_matches env v p \<longleftrightarrow>
     (let props = unwrap_or (json_get v ''properties'') (JObj []);
          owners = get_str_or (json_get props ''owner_node_id'') []
            # map (\<lambda>k. get_str_or (json_get v k) [])
                [''owner_node_id'', ''owner'', ''label'', ''display_name'', ''id'', ''resource_id'']
      in list_ex (person_matches_keys p) owners \<or> json_looks_like_person_blob env v p)"

definition conflict_touches_person :: "claim_env \<Rightarrow> json \<Rightarrow> resolved_person \<Rightarrow> bool" where
  "conflict_touches_person env c p = json_looks_like_person_blob env c p"

section \<open>Who is found\<close>

lemma map_filter_set: "set (List.map_filter f xs) = {y. \<exists>x\<in>set xs. f x = Some y}"
  by (force simp: List.map_filter_def)

text \<open>The head of a sorted list is an element with the least key.\<close>

lemma sort_key_head:
  assumes "sort_key f xs = c # cs"
  shows "c \<in> set xs" "x \<in> set xs \<Longrightarrow> f c \<le> f x"
proof -
  have s: "set (c # cs) = set xs" "sorted (map f (c # cs))" using assms by (metis set_sort) (metis assms sorted_sort_key)
  show "c \<in> set xs" "x \<in> set xs \<Longrightarrow> f c \<le> f x" using s by auto
qed

lemma ranked_candidate:
  "c \<in> set (ranked_candidates s tenant raw) \<longleftrightarrow>
     (\<exists>t\<in>set (list_twins s tenant). tw_twin_kind t = Person \<and> candidate_of (list_slack_maps s tenant) raw t = Some c)"
  by (auto simp: ranked_candidates_def map_filter_set)

lemma candidate_score:
  assumes "candidate_of maps raw t = Some c"
  shows "cd_person c = person_of_twin maps t" "cd_enabled c = tw_enabled t"
    "exact_key raw (person_of_twin maps t) \<Longrightarrow> tw_enabled t \<Longrightarrow> 90 \<le> cd_score c"
    "\<not> exact_key raw (person_of_twin maps t) \<Longrightarrow> cd_score c \<le> 70"
proof -
  have d: "exact_key raw (person_of_twin maps t)"
    if "eq_ignore_ascii_case (tw_display_name t) raw \<or> eq_ignore_ascii_case (tw_display_name t) (bare_name raw)
      \<or> eq_ignore_ascii_case (tw_subject_id t) raw \<or> eq_ignore_ascii_case (tw_subject_id t) (bare_name raw)
      \<or> eq_ignore_ascii_case (tw_twin_id t) raw"
    using that by (auto simp: exact_key_def person_of_twin_def Let_def)
  show "cd_person c = person_of_twin maps t" "cd_enabled c = tw_enabled t"
    using assms by (auto simp: candidate_of_def Let_def split: if_splits)
  show "exact_key raw (person_of_twin maps t) \<Longrightarrow> tw_enabled t \<Longrightarrow> 90 \<le> cd_score c"
    using assms by (auto simp: candidate_of_def match_score_def Let_def split: if_splits)
  show "\<not> exact_key raw (person_of_twin maps t) \<Longrightarrow> cd_score c \<le> 70"
    using assms d by (auto simp: candidate_of_def match_score_def Let_def split: if_splits)
qed

lemma candidate_iff:
  "(\<exists>c. candidate_of maps raw t = Some c) \<longleftrightarrow> exact_key raw (person_of_twin maps t) \<or> close_key raw (person_of_twin maps t)"
  by (auto simp: candidate_of_def Let_def)

definition person_twins :: "twin_store \<Rightarrow> string \<Rightarrow> twin list" where
  "person_twins s tenant = filter (\<lambda>t. tw_twin_kind t = Person) (list_twins s tenant)"

definition as_person :: "twin_store \<Rightarrow> string \<Rightarrow> twin \<Rightarrow> resolved_person" where
  "as_person s tenant t = person_of_twin (list_slack_maps s tenant) t"


section \<open>A lookup\<close>

definition ann_twin :: twin where
  "ann_twin = sample_twin\<lparr>tw_twin_id := ''twin:person:gu_ann'', tw_subject_id := ''gu_ann'', tw_display_name := ''Ann'',
     tw_twin_kind := Person, tw_enabled := True, tw_config_json := JObj []\<rparr>"

text \<open>A twin that was never given a display name.\<close>

definition ghost_twin :: twin where
  "ghost_twin = ann_twin\<lparr>tw_twin_id := ''twin:person:gu_x'', tw_subject_id := ''gu_x'', tw_display_name := []\<rparr>"

definition lookup_store :: twin_store where
  "lookup_store = new_twin_store\<lparr>ts_twins :=
     [((''t'', ''twin:person:gu_ann''), ann_twin), ((''t'', ''twin:person:gu_x''), ghost_twin)]\<rparr>"

lemma lookup_people: "person_twins lookup_store ''t'' = [ann_twin, ghost_twin]"
  by (simp add: person_twins_def list_twins_def lookup_store_def ann_twin_def ghost_twin_def)

lemma lookup_keys:
  "rp_match_keys (as_person lookup_store ''t'' ann_twin) = [''gu_ann'', ''twin:person:gu_ann'', ''Ann'']"
  "rp_match_keys (as_person lookup_store ''t'' ghost_twin) = [''gu_x'', ''twin:person:gu_x'', []]"
  by (simp_all add: as_person_def person_of_twin_def person_aliases_of_def provider_aliases_def list_slack_maps_def
      lookup_store_def new_twin_store_def ann_twin_def ghost_twin_def unwrap_or_def)

lemma lookup_ann:
  "tw_enabled ann_twin" "exact_key ''ann'' (as_person lookup_store ''t'' ann_twin)"
  "\<not> exact_key ''ann'' (as_person lookup_store ''t'' ghost_twin)"
  "\<not> exact_key ''stranger'' (as_person lookup_store ''t'' ann_twin)" "\<not> close_key ''stranger'' (as_person lookup_store ''t'' ann_twin)"
  unfolding exact_key_def close_key_def lookup_keys by (simp add: ann_twin_def) code_simp+


end
