(* ===== verification/Follow_Through.thy ===== *)
theory Follow_Through
  imports Person_Lookup
begin

text \<open>
  Whether promises were kept (\<open>twin-api/src/main.rs\<close>, \<open>parse_time_flex\<close> to
  \<open>get_follow_through\<close>): intents of the graph, claims of the chat and of the ledger are held against
  the edges and commits of the graph and get a status. What the graph service answers, the clock and the
  calendar are parameters. The lemmas: how the status depends on activity, and which claims get one.
\<close>

section \<open>Times and activity\<close>

record follow_env =
  fe_claim :: claim_env
  fe_timestamp :: "int \<Rightarrow> instant option"

abbreviation "fe_now env \<equiv> ce_now (fe_claim env)"

definition parse_time_flex :: "follow_env \<Rightarrow> string \<Rightarrow> instant option" where
  "parse_time_flex env s =
     (if s = [] then None
      else or_else (ce_rfc3339 (fe_claim env) s) (Option.bind (parse_i64 s) (fe_timestamp env)))"

definition first_key :: "json \<Rightarrow> string list \<Rightarrow> json option" where
  "first_key v ks = fold (\<lambda>k r. or_else r (json_get v k)) ks None"

definition node_is :: "string \<Rightarrow> json \<Rightarrow> bool" where
  "node_is ty n \<longleftrightarrow> Option.bind (json_get n ''type'') as_str = Some ty \<or> Option.bind (json_get n ''node_type'') as_str = Some ty"

definition person_node_ids :: "resolved_person \<Rightarrow> json list \<Rightarrow> string list" where
  "person_node_ids p nodes =
     List.map_filter (\<lambda>n.
       let i = get_str_or (first_key n [''id'', ''node_id'']) []; lab = get_str_or (first_key n [''label'', ''display_name'']) []
       in if node_is ''Person'' n \<and> (person_matches_keys p i \<or> person_matches_keys p lab) \<and> i \<noteq> [] then Some i else None) nodes"

definition work_edge :: "string list" where
  "work_edge = [''AUTHORED'', ''PUSHED_TO'', ''OPENED'', ''MERGED'']"

text \<open>What the person worked on, with the time of the edge when it has one.\<close>

definition authored_targets :: "follow_env \<Rightarrow> resolved_person \<Rightarrow> json list \<Rightarrow> json list \<Rightarrow> (string \<times> instant option) list" where
  "authored_targets env p nodes edges =
     List.map_filter (\<lambda>e.
       let from = get_str_or (first_key e [''from'', ''from_node_id'']) []; target = get_str_or (first_key e [''to'', ''to_node_id'']) []
       in if get_str_or (first_key e [''type'', ''edge_type'']) [] \<in> set work_edge
            \<and> (from \<in> set (person_node_ids p nodes) \<or> person_matches_keys p from)
          then Some (target, Option.bind (Option.bind (json_get e ''valid_from'') as_str) (parse_time_flex env)) else None) edges"

definition commit_messages :: "json list \<Rightarrow> string list" where
  "commit_messages nodes =
     List.map_filter (\<lambda>n.
       if node_is ''Commit'' n
       then map_option to_ascii_lowercase
              (Option.bind (or_else (first_key n [''message'', ''title'']) (json_path n [''properties'', ''message''])) as_str)
       else None) nodes"

section \<open>The status of a promise\<close>

definition promise_words :: "string \<Rightarrow> string list" where
  "promise_words summary = take 4 (filter (\<lambda>w. 4 < length w) (split_whitespace (to_ascii_lowercase summary)))"

definition message_overlap :: "string list \<Rightarrow> string \<Rightarrow> bool" where
  "message_overlap msgs summary \<longleftrightarrow> list_ex (\<lambda>m. list_ex (contains m) (promise_words summary)) msgs"

fun not_before :: "instant option \<Rightarrow> instant option \<Rightarrow> bool" where
  "not_before (Some at) (Some t) \<longleftrightarrow> at < t"
| "not_before _ _ \<longleftrightarrow> True"

definition later_hits :: "instant option \<Rightarrow> string \<Rightarrow> (string \<times> instant option) list \<Rightarrow> (string \<times> instant option) list" where
  "later_hits at about targets =
     filter (\<lambda>(target, t). not_before at t \<and> about \<noteq> [] \<and> (target = about \<or> contains target about \<or> contains about target)) targets"

fun after :: "instant option \<Rightarrow> instant option \<Rightarrow> bool" where
  "after (Some at) (Some t) \<longleftrightarrow> at < t"
| "after _ _ \<longleftrightarrow> False"

definition any_later :: "instant option \<Rightarrow> (string \<times> instant option) list \<Rightarrow> bool" where
  "any_later at targets \<longleftrightarrow> list_ex (\<lambda>(target, t). after at t) targets"

definition aged :: "instant \<Rightarrow> instant option \<Rightarrow> bool" where
  "aged now at = (case at of Some t \<Rightarrow> seconds (72 * 3600) \<le> now - t | None \<Rightarrow> False)"

definition promise_status :: "string \<Rightarrow> bool \<Rightarrow> bool \<Rightarrow> bool \<Rightarrow> bool \<Rightarrow> string" where
  "promise_status itype hit any_l msg old =
     (if itype \<in> {''SHIP'', ''FIX'', ''EXPLORE''} then
        (if hit \<or> msg then ''supported'' else if old \<and> \<not> any_l then ''abandoned''
         else if any_l then ''supported'' else ''unknown'')
      else if itype = ''FREEZE'' then
        (if hit \<or> any_l \<and> msg then ''contradicted'' else if old then ''supported'' else ''unknown'')
      else if itype = ''BLOCKED'' then
        (if any_l \<or> msg then ''supported'' else if old then ''abandoned'' else ''unknown'')
      else ''unknown'')"

definition status_gap :: "string \<Rightarrow> string" where
  "status_gap st =
     (if st = ''unknown'' then ''Insufficient graph linkage between claim and later work''
      else if st = ''abandoned'' then ''No supporting activity found after claim aged out''
      else if st = ''contradicted'' then ''Later activity conflicts with FREEZE/hold claim''
      else if st = ''supported'' then ''Later commits/PRs align with claim'' else [])"

record follow_item =
  fi_intent_id :: "json option"
  fi_intent_type :: string
  fi_said :: string
  fi_about :: string
  fi_at :: "instant option"
  fi_authored_hits :: nat
  fi_any_later :: bool
  fi_overlap :: bool
  fi_status :: string

definition props_of :: "json \<Rightarrow> json" where
  "props_of v = unwrap_or (json_get v ''properties'') (JObj [])"

definition intent_type_text :: "json \<Rightarrow> string" where
  "intent_type_text v = get_str_or (or_else (json_get (props_of v) ''intent_type'') (json_get v ''intent_type'')) ''OTHER''"

definition said_text :: "json \<Rightarrow> string" where
  "said_text v =
     get_str_or (or_else (first_key v [''display_name'', ''label'', ''title'']) (json_get (props_of v) ''summary'')) (intent_type_text v)"

definition about_text :: "json \<Rightarrow> string" where
  "about_text v = get_str_or (or_else (json_get (props_of v) ''about_node_id'') (json_get v ''about_node_id'')) []"

definition stated_at :: "follow_env \<Rightarrow> json \<Rightarrow> instant option" where
  "stated_at env v =
     Option.bind (Option.bind (or_else (first_key (props_of v) [''stated_at'', ''created_at''])
       (first_key v [''created_at'', ''valid_from''])) as_str) (parse_time_flex env)"

definition too_fresh :: "follow_env \<Rightarrow> instant option \<Rightarrow> bool" where
  "too_fresh env at = (case at of Some t \<Rightarrow> fe_now env - t < seconds (24 * 3600) | None \<Rightarrow> False)"

definition judged :: "follow_env \<Rightarrow> resolved_person \<Rightarrow> json \<Rightarrow> bool" where
  "judged env p v \<longleftrightarrow>
     \<not> (json_looks_like_demo_seed (fe_claim env) v \<or> unwrap_or (Option.bind (json_get v ''is_demo'') as_bool) False)
     \<and> intent_owner_matches (fe_claim env) v p \<and> \<not> too_fresh env (stated_at env v)"

definition follow_item_of :: "follow_env \<Rightarrow> (string \<times> instant option) list \<Rightarrow> string list \<Rightarrow> json \<Rightarrow> follow_item" where
  "follow_item_of env targets msgs v =
     (let at = stated_at env v; later = later_hits at (about_text v) targets; any_l = any_later at targets;
          msg = message_overlap msgs (said_text v)
      in \<lparr>fi_intent_id = first_key v [''id'', ''node_id''], fi_intent_type = intent_type_text v, fi_said = said_text v,
          fi_about = about_text v, fi_at = at, fi_authored_hits = length later, fi_any_later = any_l, fi_overlap = msg,
          fi_status = promise_status (intent_type_text v) (later \<noteq> []) any_l msg (aged (fe_now env) at)\<rparr>)"

definition compute_follow_through_items ::
  "follow_env \<Rightarrow> resolved_person \<Rightarrow> json list \<Rightarrow> json list \<Rightarrow> json list \<Rightarrow> follow_item list" where
  "compute_follow_through_items env p intents nodes edges =
     take 40 (map (follow_item_of env (authored_targets env p nodes edges) (commit_messages nodes)) (filter (judged env p) intents))"

definition follow_item_json :: "follow_env \<Rightarrow> follow_item \<Rightarrow> json" where
  "follow_item_json env it = JObj
     [(''intent_id'', case fi_intent_id it of Some j \<Rightarrow> j | None \<Rightarrow> JNull), (''intent_type'', JStr (fi_intent_type it)),
      (''said_or_implied'', JStr (fi_said it)),
      (''about_node_id'', if fi_about it = [] then JNull else JStr (fi_about it)),
      (''intent_at'', json_opt (map_option (ce_format_ist (fe_claim env)) (fi_at it))),
      (''later_signal'', JObj [(''authored_hits'', JInt (int (fi_authored_hits it))),
         (''any_later_activity'', JBool (fi_any_later it)), (''commit_message_overlap'', JBool (fi_overlap it))]),
      (''status'', JStr (fi_status it)), (''is_demo'', JBool False), (''gap'', JStr (status_gap (fi_status it)))]"

section \<open>The claims of all sources\<close>

definition json_or_null :: "json option \<Rightarrow> json" where
  "json_or_null v = unwrap_or v JNull"

definition chat_claim_intent :: "json \<Rightarrow> json" where
  "chat_claim_intent c = JObj
     [(''id'', JStr (''slack_claim:'' @ get_str_or (json_get c ''ts'') ''?'')),
      (''display_name'', unwrap_or (json_get c ''text_preview'') (JStr [])),
      (''intent_type'', unwrap_or (json_get c ''intent_type'') (JStr ''OTHER'')),
      (''properties'', JObj [(''intent_type'', json_or_null (json_get c ''intent_type'')),
         (''stated_at'', json_or_null (json_get c ''at'')), (''source'', JStr ''slack_intent_claim''),
         (''confidence'', json_or_null (json_get c ''confidence''))]),
      (''is_demo'', JBool False)]"

definition fold_chat_claims :: "follow_env \<Rightarrow> resolved_person \<Rightarrow> json list \<Rightarrow> json list" where
  "fold_chat_claims env p claims =
     map chat_claim_intent (filter (\<lambda>c.
       person_matches_keys p (get_str_or (json_get c ''subject'') [])
       \<and> \<not> too_fresh env (parse_time_flex env (get_str_or (json_get c ''at'') []))) claims)"

definition ledger_claim_intent :: "ledger_claim \<Rightarrow> json" where
  "ledger_claim_intent c = JObj
     [(''id'', JStr (lc_claim_id c)),
      (''display_name'', JStr (if lc_summary c = [] then unwrap_or (lc_text_preview c) (lc_intent_type c) else lc_summary c)),
      (''intent_type'', JStr (lc_intent_type c)),
      (''properties'', JObj [(''intent_type'', JStr (lc_intent_type c)), (''stated_at'', JStr (lc_at c)),
         (''about_node_id'', json_opt (lc_about_node_id c)), (''source'', JStr (lc_source c)),
         (''confidence'', JFloat (lc_confidence c))]),
      (''is_demo'', JBool False)]"

definition fold_ledger :: "follow_env \<Rightarrow> resolved_person \<Rightarrow> ledger_claim list \<Rightarrow> json list" where
  "fold_ledger env p cs =
     map ledger_claim_intent (filter (\<lambda>c.
       let owner = unwrap_or (lc_owner_subject c) [] in
       \<not> lc_is_demo c
       \<and> (owner = [] \<or> person_matches_keys p owner \<or> list_ex (contains owner) (rp_aliases p) \<or> list_ex (contains owner) (rp_match_keys p))
       \<and> \<not> too_fresh env (parse_time_flex env (lc_at c))) cs)"

text \<open>What the graph service answers to the calls of one request, and the identifiers drawn for the ledger.\<close>

record follow_answers =
  fa_intents :: "json list"
  fa_snapshot :: "json option"
  fa_ledger_intents :: "json list"
  fa_ledger_snapshot :: "json option"
  fa_graph_uuid :: "nat \<Rightarrow> string"
  fa_slack_uuid :: "nat \<Rightarrow> string"

definition snapshot_list :: "json option \<Rightarrow> string \<Rightarrow> json list" where
  "snapshot_list snap k = unwrap_or (Option.bind (Option.bind snap (\<lambda>s. json_get s k)) as_array) []"

definition follow_intents :: "follow_env \<Rightarrow> follow_answers \<Rightarrow> twin_store \<Rightarrow> string \<Rightarrow> resolved_person \<Rightarrow> json list" where
  "follow_intents env a s tenant p =
     (let nodes = snapshot_list (fa_snapshot a) ''nodes'';
          listed = (if fa_intents a \<noteq> [] then fa_intents a
                    else filter (\<lambda>n. node_is ''Intent'' n \<and> intent_owner_matches (fe_claim env) n p) nodes)
      in listed @ fold_chat_claims env p (kv_array s tenant slack_claims_kv)
         @ fold_ledger env p (collect_intent_ledger (fe_claim env) (fa_graph_uuid a) (fa_slack_uuid a) (fa_ledger_intents a)
              (fa_ledger_snapshot a) tenant False True s))"

definition build_follow_through ::
  "follow_env \<Rightarrow> follow_answers \<Rightarrow> twin_store \<Rightarrow> string \<Rightarrow> resolved_person \<Rightarrow> follow_item list" where
  "build_follow_through env a s tenant p =
     compute_follow_through_items env p (follow_intents env a s tenant p)
       (snapshot_list (fa_snapshot a) ''nodes'') (snapshot_list (fa_snapshot a) ''edges'')"

definition follow_note :: string where
  "follow_note = ''Best-effort: non-demo intents older than ~24h; later AUTHORED/commit activity on about_node or matching resource ''
     @ right_arrow @ '' supported; FREEZE+later commits '' @ right_arrow @ '' contradicted; no signal after ~72h '' @ right_arrow
     @ '' abandoned; else unknown.''"

definition follow_reply :: "follow_env \<Rightarrow> string \<Rightarrow> resolved_person \<Rightarrow> follow_item list \<Rightarrow> json" where
  "follow_reply env tenant p items = JObj
     [(''tenant_id'', JStr tenant), (''subject_id'', JStr (rp_subject_id p)), (''twin_id'', JStr (rp_twin_id p)),
      (''as_of'', JStr (ce_format_ist (fe_claim env) (fe_now env))), (''timezone'', JStr ''Asia/Kolkata''),
      (''timezone_label'', JStr ''IST (UTC+05:30)''), (''count'', JInt (int (length items))),
      (''items'', JArr (map (follow_item_json env) items)), (''note'', JStr follow_note)]"

definition get_follow_through ::
  "follow_env \<Rightarrow> follow_answers \<Rightarrow> twin_store \<Rightarrow> string \<Rightarrow> string \<Rightarrow> (string + json) option" where
  "get_follow_through env a s tenant subject =
     map_option (map_sum id (\<lambda>p. follow_reply env tenant p (build_follow_through env a s tenant p)))
       (resolve_person s tenant subject)"

section \<open>More activity\<close>

lemma map_filter_mono: "set xs \<subseteq> set ys \<Longrightarrow> set (List.map_filter f xs) \<subseteq> set (List.map_filter f ys)"
  by (auto simp: map_filter_set)

lemma more_nodes:
  assumes "set nodes \<subseteq> set nodes'"
  shows "set (person_node_ids p nodes) \<subseteq> set (person_node_ids p nodes')"
    "set (commit_messages nodes) \<subseteq> set (commit_messages nodes')"
  unfolding person_node_ids_def commit_messages_def by (rule map_filter_mono [OF assms])+

lemma more_targets:
  assumes "set nodes \<subseteq> set nodes'" "set edges \<subseteq> set edges'"
  shows "set (authored_targets env p nodes edges) \<subseteq> set (authored_targets env p nodes' edges')"
proof
  fix x assume "x \<in> set (authored_targets env p nodes edges)"
  then obtain e where "e \<in> set edges" "get_str_or (first_key e [''type'', ''edge_type'']) [] \<in> set work_edge"
    "get_str_or (first_key e [''from'', ''from_node_id'']) [] \<in> set (person_node_ids p nodes)
      \<or> person_matches_keys p (get_str_or (first_key e [''from'', ''from_node_id'']) [])"
    "x = (get_str_or (first_key e [''to'', ''to_node_id'']) [], Option.bind (Option.bind (json_get e ''valid_from'') as_str) (parse_time_flex env))"
    unfolding authored_targets_def map_filter_set Let_def mem_Collect_eq by (metis option.distinct(1) option.inject)
  with more_nodes(1) [OF assms(1), of p] assms(2) show "x \<in> set (authored_targets env p nodes' edges')"
    unfolding authored_targets_def map_filter_set Let_def mem_Collect_eq by (intro bexI [of _ e]) auto
qed

lemma more_signals:
  assumes "set targets \<subseteq> set targets'" "set msgs \<subseteq> set msgs'"
  shows "later_hits at about targets \<noteq> [] \<Longrightarrow> later_hits at about targets' \<noteq> []"
    "any_later at targets \<Longrightarrow> any_later at targets'" "message_overlap msgs txt \<Longrightarrow> message_overlap msgs' txt"
  using assms by (auto simp: later_hits_def any_later_def message_overlap_def filter_empty_conv list_ex_iff)

text \<open>The table of \<open>promise_status\<close> for any four words and any three kinds.\<close>

definition verdict :: "'a \<Rightarrow> 'a \<Rightarrow> 'a \<Rightarrow> 'a \<Rightarrow> bool \<Rightarrow> bool \<Rightarrow> bool \<Rightarrow> bool \<Rightarrow> bool \<Rightarrow> bool \<Rightarrow> bool \<Rightarrow> 'a" where
  "verdict spd aba con unk wrk frz blk hit any_l msg old =
     (if wrk then (if hit \<or> msg then spd else if old \<and> \<not> any_l then aba else if any_l then spd else unk)
      else if frz then (if hit \<or> any_l \<and> msg then con else if old then spd else unk)
      else if blk then (if any_l \<or> msg then spd else if old then aba else unk) else unk)"

lemma verdict_mono:
  assumes "distinct [spd, aba, con, unk]" "hit \<longrightarrow> hit'" "a \<longrightarrow> a'" "m \<longrightarrow> m'"
  shows "verdict spd aba con unk wrk frz blk hit' a' m' old = aba \<Longrightarrow> verdict spd aba con unk wrk frz blk hit a m old = aba"
    "\<not> frz \<Longrightarrow> verdict spd aba con unk wrk frz blk hit a m old = spd \<Longrightarrow> verdict spd aba con unk wrk frz blk hit' a' m' old = spd"
    "verdict spd aba con unk wrk frz blk hit a m old = con \<Longrightarrow> verdict spd aba con unk wrk frz blk hit' a' m' old = con"
  using assms by (auto simp: verdict_def split: if_splits)

lemma promise_status_verdict:
  "promise_status ty = verdict ''supported'' ''abandoned'' ''contradicted'' ''unknown''
     (ty \<in> {''SHIP'', ''FIX'', ''EXPLORE''}) (ty = ''FREEZE'') (ty = ''BLOCKED'')"
  unfolding promise_status_def verdict_def by (intro ext) (rule refl)

lemma status_words: "distinct [''supported'', ''abandoned'', ''contradicted'', ''unknown'']"
  by code_simp

lemmas promise_status_mono = verdict_mono [OF status_words, where wrk = "ty \<in> {''SHIP'', ''FIX'', ''EXPLORE''}"
    and frz = "ty = ''FREEZE''" and blk = "ty = ''BLOCKED''" for ty, folded promise_status_verdict]

text \<open>What an item may become when more is known.\<close>

definition firmer :: "follow_item \<Rightarrow> follow_item \<Rightarrow> bool" where
  "firmer i j \<longleftrightarrow> fi_intent_id j = fi_intent_id i \<and> fi_intent_type j = fi_intent_type i \<and> fi_said j = fi_said i \<and> fi_at j = fi_at i
     \<and> (fi_status j = ''abandoned'' \<longrightarrow> fi_status i = ''abandoned'')
     \<and> (fi_intent_type i \<noteq> ''FREEZE'' \<and> fi_status i = ''supported'' \<longrightarrow> fi_status j = ''supported'')
     \<and> (fi_status i = ''contradicted'' \<longrightarrow> fi_status j = ''contradicted'')"

lemma item_firmer:
  assumes "set targets \<subseteq> set targets'" "set msgs \<subseteq> set msgs'"
  shows "firmer (follow_item_of env targets msgs v) (follow_item_of env targets' msgs' v)"
proof -
  let ?at = "stated_at env v" and ?old = "aged (fe_now env) (stated_at env v)"
  have h: "later_hits ?at (about_text v) targets \<noteq> [] \<longrightarrow> later_hits ?at (about_text v) targets' \<noteq> []"
    "any_later ?at targets \<longrightarrow> any_later ?at targets'"
    "message_overlap msgs (said_text v) \<longrightarrow> message_overlap msgs' (said_text v)"
    using more_signals [OF assms] by blast+
  note mono = promise_status_mono [where ty = "intent_type_text v" and old = ?old, OF h]
  show ?thesis unfolding firmer_def follow_item_of_def Let_def follow_item.select_convs
    by (intro conjI refl impI; (elim conjE)?) (rule mono(1), assumption, rule mono(2), assumption+, rule mono(3), assumption)
qed


section \<open>Superseded claims\<close>

lemma chat_intent_superseded:
  "chat_claim_intent (supersede_slack i c) = chat_claim_intent c"
  "json_get (supersede_slack i c) ''subject'' = json_get c ''subject''" "json_get (supersede_slack i c) ''at'' = json_get c ''at''"
proof -
  have k: "k \<noteq> ''lifecycle'' \<Longrightarrow> json_get (supersede_slack i c) k = json_get c k" for k
    by (cases c) (simp_all add: supersede_slack_def update_conv')
  show "chat_claim_intent (supersede_slack i c) = chat_claim_intent c"
    "json_get (supersede_slack i c) ''subject'' = json_get c ''subject''" "json_get (supersede_slack i c) ''at'' = json_get c ''at''"
    by (simp_all add: chat_claim_intent_def k)
qed

lemma fold_chat_superseded: "fold_chat_claims env p (map (supersede_slack i) cs) = fold_chat_claims env p cs"
  by (simp add: fold_chat_claims_def filter_map o_def chat_intent_superseded)

lemma superseded_chat_kv:
  assumes "fst (intent_claim_supersede env tenant i s) = Inr r"
  shows "kv_array (snd (intent_claim_supersede env tenant i s)) tenant slack_claims_kv
    = map (supersede_slack i) (kv_array s tenant slack_claims_kv)"
  using assms by (auto simp: intent_claim_supersede_def Let_def split: if_splits)

text \<open>
  The speaker of a chat claim is not among what is judged: a claim counts as the person's own only if its
  text, its time stamp or its JSON text mentions a key of the person.
\<close>

lemma chat_claim_owner:
  assumes "json_get c ''text_preview'' = Some (JStr pv)"
  shows "intent_owner_matches env (chat_claim_intent c) p \<longleftrightarrow>
    person_matches_keys p pv \<or> person_matches_keys p (''slack_claim:'' @ get_str_or (json_get c ''ts'') ''?'')
    \<or> json_looks_like_person_blob env (chat_claim_intent c) p"
proof -
  have e: "\<not> person_matches_keys p []" by (simp add: person_matches_keys_def)
  show ?thesis using assms by (simp add: intent_owner_matches_def chat_claim_intent_def get_str_or_def Let_def e)
qed

text \<open>The intents of the graph and the claims of the chat, as they are told to the judge.\<close>

definition told_intents :: "follow_env \<Rightarrow> follow_answers \<Rightarrow> twin_store \<Rightarrow> string \<Rightarrow> resolved_person \<Rightarrow> json list" where
  "told_intents env a s tenant p =
     (if fa_intents a \<noteq> [] then fa_intents a
      else filter (\<lambda>n. node_is ''Intent'' n \<and> intent_owner_matches (fe_claim env) n p) (snapshot_list (fa_snapshot a) ''nodes''))
     @ fold_chat_claims env p (kv_array s tenant slack_claims_kv)"

lemma items_prefix:
  "prefix (compute_follow_through_items env p xs nodes edges) (compute_follow_through_items env p (xs @ ys) nodes edges)"
  by (simp add: compute_follow_through_items_def take_append)

text \<open>
  C37. A superseded chat claim is still held against its speaker. The report on a person begins with the
  items of the graph's intents and of the stored chat claims; superseding a claim, which closes it in the
  ledger, leaves this part of the report exactly as it was.
\<close>

theorem superseded_claim_is_still_judged:
  assumes "fst (intent_claim_supersede cenv tenant i s) = Inr r"
  defines "s' \<equiv> snd (intent_claim_supersede cenv tenant i s)"
  shows "prefix (compute_follow_through_items env p (told_intents env a s tenant p)
        (snapshot_list (fa_snapshot a) ''nodes'') (snapshot_list (fa_snapshot a) ''edges''))
      (build_follow_through env a s' tenant p)
    \<and> told_intents env a s' tenant p = told_intents env a s tenant p"
proof
  show told: "told_intents env a s' tenant p = told_intents env a s tenant p"
    using superseded_chat_kv [OF assms(1)] by (simp add: told_intents_def s'_def fold_chat_superseded)
  have "follow_intents env a s' tenant p = told_intents env a s' tenant p
     @ fold_ledger env p (collect_intent_ledger (fe_claim env) (fa_graph_uuid a) (fa_slack_uuid a) (fa_ledger_intents a)
              (fa_ledger_snapshot a) tenant False True s')"
    by (simp add: follow_intents_def told_intents_def)
  then show "prefix (compute_follow_through_items env p (told_intents env a s tenant p)
        (snapshot_list (fa_snapshot a) ''nodes'') (snapshot_list (fa_snapshot a) ''edges''))
      (build_follow_through env a s' tenant p)"
    by (simp add: build_follow_through_def items_prefix flip: told)
qed

section \<open>A promise and a superseded claim\<close>

definition sample_follow_env :: follow_env where
  "sample_follow_env = \<lparr>fe_claim = sample_claim_env, fe_timestamp = (\<lambda>n. Some (seconds n))\<rparr>"

definition sample_said :: json where
  "sample_said = JObj [(''id'', JStr ''i1''), (''owner'', JStr ''ann''), (''intent_type'', JStr ''SHIP''),
     (''title'', JStr ''ship the payments page'')]"

definition strangers_commit :: json where
  "strangers_commit = JObj [(''id'', JStr ''c1''), (''type'', JStr ''Commit''), (''message'', JStr ''Revert payments'')]"


definition sample_chat_claims :: twin_store where
  "sample_chat_claims = put_tenant_kv ''t'' slack_claims_kv (JArr
     [JObj [(''at'', JStr []), (''subject'', JStr ''ann''), (''text_preview'', JStr ''ann will ship it''),
            (''intent_type'', JStr ''SHIP''), (''channel'', JStr ''C1''), (''ts'', JStr ''9.1''), (''confidence'', JFloat 75)]])
     new_twin_store"

definition silent_graph :: follow_answers where
  "silent_graph = \<lparr>fa_intents = [], fa_snapshot = None, fa_ledger_intents = [], fa_ledger_snapshot = None,
     fa_graph_uuid = (\<lambda>n. ''u''), fa_slack_uuid = (\<lambda>n. ''u'')\<rparr>"

theorem superseded_claim_is_still_judged_witness:
  "take 1 (map fi_intent_id (build_follow_through sample_follow_env silent_graph
     (snd (intent_claim_supersede sample_claim_env ''t'' ''slack:9.1'' sample_chat_claims)) ''t'' (made_up_person ''ann'')))
   = [Some (JStr ''slack_claim:9.1'')]"
proof -
  let ?r = "intent_claim_supersede sample_claim_env ''t'' ''slack:9.1'' sample_chat_claims"
  let ?xs = "compute_follow_through_items sample_follow_env (made_up_person ''ann'')
      (told_intents sample_follow_env silent_graph sample_chat_claims ''t'' (made_up_person ''ann''))
      (snapshot_list (fa_snapshot silent_graph) ''nodes'') (snapshot_list (fa_snapshot silent_graph) ''edges'')"
  have "map_sum (\<lambda>_. ()) (\<lambda>_. ()) (fst ?r) = Inr ()" by code_simp
  then obtain x where "fst ?r = Inr x" by (cases "fst ?r") auto
  then obtain ys where b: "build_follow_through sample_follow_env silent_graph (snd ?r) ''t'' (made_up_person ''ann'') = ?xs @ ys"
    using superseded_claim_is_still_judged by (metis prefixE)
  have "map fi_intent_id ?xs = [Some (JStr ''slack_claim:9.1'')]" by code_simp
  then show ?thesis unfolding b map_append by simp
qed

end
