(* ===== verification/Twin_Rounds.thy ===== *)
theory Twin_Rounds
  imports Twin_Gateway Twin_Digest
begin

text \<open>
  Compiling and delivering: the scheduler tick, the request for one twin and the request for a team
  (\<open>twin-api/src/main.rs\<close>, \<open>run_scheduled_compiles\<close>, \<open>compile_twin\<close>, \<open>compile_team\<close>,
  \<open>membership_user_ids_for_twins\<close>), with the table of last notifications. What a round draws from
  outside (clock, identifiers, the answers of the graph, the tenants of the console) is an argument. The lemmas:
  rounds are sequences of worker effects, and when a message is sent or missed.
\<close>

section \<open>The service\<close>

record round_env =
  rn_service :: delivery_service
  rn_window_secs :: int
  rn_notify_secs :: int
  rn_notify_default :: bool
  rn_upper :: "string \<Rightarrow> string"

record round_draws =
  rd_now :: instant
  rd_run_uuid :: "twin \<Rightarrow> string"
  rd_compile_clk :: "twin \<Rightarrow> nat \<Rightarrow> instant"
  rd_source :: "twin \<Rightarrow> graph_source"
  rd_draft_uuid :: "twin \<Rightarrow> string"
  rd_publish_uuid :: "twin \<Rightarrow> string"
  rd_clk :: "twin \<Rightarrow> nat \<Rightarrow> instant"
  rd_tenants :: "string list"

record twin_service =
  sv_world :: delivery_world
  sv_last_notify :: "(string \<times> string, instant) dashmap"

definition whole_seconds :: "int \<Rightarrow> int" where
  "whole_seconds d = (if d < 0 then - (- d div seconds 1) else d div seconds 1)"

definition notify_due :: "round_env \<Rightarrow> instant \<Rightarrow> instant option \<Rightarrow> bool" where
  "notify_due env now prev = (case prev of None \<Rightarrow> True | Some t \<Rightarrow> rn_notify_secs env \<le> whole_seconds (now - t))"

definition round_opts :: "round_env \<Rightarrow> instant \<Rightarrow> compile_opts" where
  "round_opts env now =
     (let (p0, p1) = aligned_period (rn_window_secs env) now; (a0, a1) = activity_lookback (rn_window_secs env) now
      in \<lparr>co_period_start = p0, co_period_end = p1, co_activity_start = a0, co_activity_end = a1, co_hops = 3\<rparr>)"

definition outcome_empty :: "compile_outcome \<Rightarrow> bool" where
  "outcome_empty out = (sl_items (ls_ledger (oc_ledger out)) = [] \<and> sl_open_blockers (ls_ledger (oc_ledger out)) = [])"

definition person_on :: "twin \<Rightarrow> bool" where
  "person_on t \<longleftrightarrow> tw_enabled t \<and> tw_twin_kind t = Person"

text \<open>The two steps that all three share.\<close>

definition round_compile_env :: "round_env \<Rightarrow> round_draws \<Rightarrow> twin \<Rightarrow> compile_env" where
  "round_compile_env env d tw =
     \<lparr>ce_sha = ds_sha (rn_service env), ce_chrono = ds_chrono (rn_service env), ce_upper = rn_upper env,
      ce_uuid = rd_run_uuid d tw, ce_clock = rd_compile_clk d tw\<rparr>"

definition service_compile ::
  "round_env \<Rightarrow> round_draws \<Rightarrow> twin \<Rightarrow> compile_opts \<Rightarrow> twin_service \<Rightarrow> (twin_error + compile_outcome) \<times> twin_service" where
  "service_compile env d tw opts st =
     (let (r, s) = compile_person (round_compile_env env d tw) (rd_source d tw) tw opts (dw_store (sv_world st))
      in (r, st\<lparr>sv_world := (sv_world st)\<lparr>dw_store := s\<rparr>\<rparr>))"

definition service_deliver ::
  "round_env \<Rightarrow> round_draws \<Rightarrow> string \<Rightarrow> twin \<Rightarrow> compile_outcome \<Rightarrow> bool \<Rightarrow> bool \<Rightarrow> twin_service
   \<Rightarrow> (twin_error + delivery_start_result) \<times> twin_service" where
  "service_deliver env d tenant tw out allow force st =
     (let (r, w) = start_after_compile_opts (rn_service env) tw (oc_ledger out) (oc_draft_text out) (rd_now d) allow force
            (rd_draft_uuid d tw) (rd_publish_uuid d tw) (rd_clk d tw) (sv_world st)
      in (r, st\<lparr>sv_world := w,
               sv_last_notify := (case r of
                  Inr del \<Rightarrow> if dr_dm_sent del then dm_put (tenant, tw_twin_id tw) (rd_now d) (sv_last_notify st)
                            else sv_last_notify st
                | Inl _ \<Rightarrow> sv_last_notify st)\<rparr>))"

section \<open>The scheduler\<close>

definition scheduled_tenants :: "string list \<Rightarrow> string list" where
  "scheduled_tenants known =
     fold (\<lambda>t ts. if t \<in> set ts then ts else ts @ [t])
       [''ten_github'', ''ten_demo'', ''ten_live'', ''ten_q'', ''ten_platform''] known"

definition schedule_twin ::
  "round_env \<Rightarrow> round_draws \<Rightarrow> string \<Rightarrow> twin \<Rightarrow> twin_service \<Rightarrow> twin_error option \<times> twin_service" where
  "schedule_twin env d tenant tw st =
     (case service_compile env d tw (round_opts env (rd_now d)) st of
        (Inl e, st1) \<Rightarrow> (None, st1)
      | (Inr out, st1) \<Rightarrow>
          (let due = notify_due env (rd_now d) (dm_get (sv_last_notify st1) (tenant, tw_twin_id tw)) in
           case service_deliver env d tenant tw out (due \<and> \<not> outcome_empty out) False st1 of
             (Inl e, st2) \<Rightarrow> (Some e, st2)
           | (Inr del, st2) \<Rightarrow> (None, st2)))"

fun schedule_twins ::
  "round_env \<Rightarrow> round_draws \<Rightarrow> string \<Rightarrow> twin list \<Rightarrow> twin_service \<Rightarrow> twin_error option \<times> twin_service" where
  "schedule_twins env d tenant [] st = (None, st)"
| "schedule_twins env d tenant (tw # tws) st =
     (if person_on tw
      then (case schedule_twin env d tenant tw st of
              (Some e, st1) \<Rightarrow> (Some e, st1)
            | (None, st1) \<Rightarrow> schedule_twins env d tenant tws st1)
      else schedule_twins env d tenant tws st)"

fun schedule_tenants :: "round_env \<Rightarrow> round_draws \<Rightarrow> string list \<Rightarrow> twin_service \<Rightarrow> twin_error option \<times> twin_service" where
  "schedule_tenants env d [] st = (None, st)"
| "schedule_tenants env d (t # ts) st =
     (case schedule_twins env d t (list_twins (dw_store (sv_world st)) t) st of
        (Some e, st1) \<Rightarrow> (Some e, st1)
      | (None, st1) \<Rightarrow> schedule_tenants env d ts st1)"

definition run_scheduled_compiles :: "round_env \<Rightarrow> round_draws \<Rightarrow> twin_service \<Rightarrow> twin_error option \<times> twin_service" where
  "run_scheduled_compiles env d st = schedule_tenants env d (scheduled_tenants (rd_tenants d)) st"

section \<open>The request for one twin\<close>

record compile_body =
  kb_period_start :: "instant option"
  kb_period_end :: "instant option"
  kb_hops :: "nat option"
  kb_skip_shadow :: "bool option"
  kb_force_notify :: "bool option"

definition no_compile_body :: compile_body where
  "no_compile_body = \<lparr>kb_period_start = None, kb_period_end = None, kb_hops = None, kb_skip_shadow = None, kb_force_notify = None\<rparr>"

record compile_reply =
  kr_run_id :: string
  kr_ledger_id :: string
  kr_confidence_rollup :: confidence_tier
  kr_ledger :: status_ledger
  kr_draft :: draft_delivery
  kr_acl_empty :: bool
  kr_notified :: bool

definition request_opts :: "round_env \<Rightarrow> instant \<Rightarrow> compile_body \<Rightarrow> compile_opts" where
  "request_opts env now body =
     (let out = round_opts env now; p0 = unwrap_or (kb_period_start body) (co_period_start out);
          p1 = unwrap_or (kb_period_end body) (co_period_end out);
          own = (kb_period_start body \<noteq> None \<or> kb_period_end body \<noteq> None)
      in \<lparr>co_period_start = p0, co_period_end = p1,
          co_activity_start = (if own then p0 else co_activity_start out), co_activity_end = (if own then p1 else co_activity_end out),
          co_hops = unwrap_or (kb_hops body) 3\<rparr>)"

definition allow_on_request :: "round_env \<Rightarrow> instant \<Rightarrow> bool \<Rightarrow> instant option \<Rightarrow> bool" where
  "allow_on_request env now force prev =
     (force \<or> (case prev of
                 None \<Rightarrow> rn_notify_default env
               | Some t \<Rightarrow> rn_notify_secs env \<le> whole_seconds (now - t) \<and> rn_notify_default env))"

definition compile_twin ::
  "round_env \<Rightarrow> round_draws \<Rightarrow> string \<Rightarrow> string \<Rightarrow> compile_body option \<Rightarrow> twin_service \<Rightarrow> (api_error + compile_reply) \<times> twin_service"
where
  "compile_twin env d tenant i body0 st =
     (case get_twin (dw_store (sv_world st)) tenant i of
        None \<Rightarrow> (Inl (api_not_found ''twin''), st)
      | Some tw0 \<Rightarrow>
          (let body = unwrap_or body0 no_compile_body; skip = (kb_skip_shadow body = Some True);
               tw = (if skip then tw0\<lparr>tw_shadow_until := None\<rparr> else tw0);
               st0 = (if skip then st\<lparr>sv_world := on_store (upsert_twin tw) (sv_world st)\<rparr> else st)
           in case service_compile env d tw (request_opts env (rd_now d) body) st0 of
                (Inl e, st1) \<Rightarrow> (Inl (api_of_twin e), st1)
              | (Inr out, st1) \<Rightarrow>
                  (let force = unwrap_or (kb_force_notify body) (rn_notify_default env);
                       allow = allow_on_request env (rd_now d) force (dm_get (sv_last_notify st1) (tenant, tw_twin_id tw))
                   in case service_deliver env d tenant tw out allow force st1 of
                        (Inl e, st2) \<Rightarrow> (Inl (api_of_twin e), st2)
                      | (Inr del, st2) \<Rightarrow>
                          (Inr \<lparr>kr_run_id = oc_run_id out, kr_ledger_id = ls_ledger_id (oc_ledger out),
                                kr_confidence_rollup = ls_confidence_rollup (oc_ledger out), kr_ledger = ls_ledger (oc_ledger out),
                                kr_draft = dr_draft del, kr_acl_empty = oc_acl_empty out,
                                kr_notified = (allow \<and> dd_slack_dm_ts (dr_draft del) \<noteq> [])\<rparr>, st2))))"

section \<open>The request for a team\<close>

text \<open>The users and their historical ids, which the graph is told about before a compile.\<close>

definition twin_alias_list :: "twin \<Rightarrow> string list" where
  "twin_alias_list t =
     unwrap_or (map_option (\<lambda>a. filter (\<lambda>s. s \<noteq> []) (List.map_filter (\<lambda>x. map_option trim (as_str x)) a))
       (Option.bind (json_get (tw_config_json t) ''provider_aliases'') as_array)) []"

definition push_id :: "string \<Rightarrow> string list \<Rightarrow> string list" where
  "push_id s ids = (let t = trim s in if t = [] \<or> t \<in> set ids then ids else ids @ [t])"

definition membership_user_ids_for_twins :: "twin list \<Rightarrow> string list" where
  "membership_user_ids_for_twins tws =
     fold (\<lambda>t ids. fold push_id (filter (\<lambda>a. starts_with a ''gu_'') (twin_alias_list t)) (push_id (tw_subject_id t) ids))
       (filter person_on tws) []"

datatype team_result =
    TeamFailed twin twin_error
  | TeamCompiled twin compile_outcome delivery_start_result

fun team_twins ::
  "round_env \<Rightarrow> round_draws \<Rightarrow> string \<Rightarrow> bool \<Rightarrow> bool \<Rightarrow> twin list \<Rightarrow> team_result list \<Rightarrow> twin_service
   \<Rightarrow> (twin_error + team_result list) \<times> twin_service" where
  "team_twins env d tenant allow force [] rs st = (Inr rs, st)"
| "team_twins env d tenant allow force (tw # tws) rs st =
     (if \<not> person_on tw then team_twins env d tenant allow force tws rs st
      else case service_compile env d tw (round_opts env (rd_now d)) st of
        (Inl e, st1) \<Rightarrow> team_twins env d tenant allow force tws (rs @ [TeamFailed tw e]) st1
      | (Inr out, st1) \<Rightarrow>
          (case service_deliver env d tenant tw out (allow \<and> \<not> outcome_empty out) force st1 of
             (Inl e, st2) \<Rightarrow> (Inl e, st2)
           | (Inr del, st2) \<Rightarrow> team_twins env d tenant allow force tws (rs @ [TeamCompiled tw out del]) st2))"

fun team_result_dm :: "team_result \<Rightarrow> bool" where
  "team_result_dm (TeamFailed tw e) = False"
| "team_result_dm (TeamCompiled tw out del) = dr_dm_sent del"

fun team_result_items :: "team_result \<Rightarrow> nat" where
  "team_result_items (TeamFailed tw e) = 0"
| "team_result_items (TeamCompiled tw out del) = length (sl_items (ls_ledger (oc_ledger out)))"

fun empty_reason :: "team_result \<Rightarrow> string option" where
  "empty_reason (TeamFailed tw e) = None"
| "empty_reason (TeamCompiled tw out del) =
     (if outcome_empty out then Some (if oc_acl_empty out then ''no_neighborhood'' else ''no_activity_in_lookback'') else None)"

record team_reply =
  te_compiled :: nat
  te_with_items :: nat
  te_dms_sent :: nat
  te_force_notify :: bool
  te_results :: "team_result list"

definition compile_team ::
  "round_env \<Rightarrow> round_draws \<Rightarrow> string \<Rightarrow> bool option \<Rightarrow> bool option \<Rightarrow> twin_service \<Rightarrow> (api_error + team_reply) \<times> twin_service" where
  "compile_team env d tenant force0 allow0 st =
     (let force = unwrap_or force0 False; allow = unwrap_or allow0 True in
      case team_twins env d tenant allow force (list_twins (dw_store (sv_world st)) tenant) [] st of
        (Inl e, st1) \<Rightarrow> (Inl (api_of_twin e), st1)
      | (Inr rs, st1) \<Rightarrow>
          (Inr \<lparr>te_compiled = length rs, te_with_items = length (filter (\<lambda>r. 0 < team_result_items r) rs),
                te_dms_sent = length (filter team_result_dm rs), te_force_notify = force, te_results = rs\<rparr>, st1))"

section \<open>Histories\<close>

datatype service_op =
    GateCall gate_call gate_op
  | SchedulerTick
  | CompileOne string string "compile_body option"
  | CompileTeam string "bool option" "bool option"

fun service_step :: "gate_env \<Rightarrow> round_env \<Rightarrow> round_draws \<Rightarrow> service_op \<Rightarrow> twin_service \<Rightarrow> twin_service" where
  "service_step g env d (GateCall c p) st = st\<lparr>sv_world := gate_step g c p (sv_world st)\<rparr>"
| "service_step g env d SchedulerTick st = snd (run_scheduled_compiles env d st)"
| "service_step g env d (CompileOne t i body) st = snd (compile_twin env d t i body st)"
| "service_step g env d (CompileTeam t force allow) st = snd (compile_team env d t force allow st)"

text \<open>The identifiers a round draws are new in the state it meets.\<close>

definition ids_fresh :: "round_draws \<Rightarrow> twin \<Rightarrow> twin_service \<Rightarrow> bool" where
  "ids_fresh d tw st \<longleftrightarrow> fresh_draft_id (tw_tenant_id tw) (rd_draft_uuid d tw) (dw_store (sv_world st))
     \<and> fresh_publish_id (tw_tenant_id tw) (rd_publish_uuid d tw) (dw_store (sv_world st))"

fun scheduled_fresh :: "round_env \<Rightarrow> round_draws \<Rightarrow> string \<Rightarrow> twin list \<Rightarrow> twin_service \<Rightarrow> bool" where
  "scheduled_fresh env d tenant [] st = True"
| "scheduled_fresh env d tenant (tw # tws) st =
     (if person_on tw then ids_fresh d tw st \<and> scheduled_fresh env d tenant tws (snd (schedule_twin env d tenant tw st))
      else scheduled_fresh env d tenant tws st)"

fun tenants_fresh :: "round_env \<Rightarrow> round_draws \<Rightarrow> string list \<Rightarrow> twin_service \<Rightarrow> bool" where
  "tenants_fresh env d [] st = True"
| "tenants_fresh env d (t # ts) st =
     (let tws = list_twins (dw_store (sv_world st)) t in
      scheduled_fresh env d t tws st \<and> tenants_fresh env d ts (snd (schedule_twins env d t tws st)))"

fun team_fresh :: "round_env \<Rightarrow> round_draws \<Rightarrow> string \<Rightarrow> bool \<Rightarrow> bool \<Rightarrow> twin list \<Rightarrow> twin_service \<Rightarrow> bool" where
  "team_fresh env d tenant allow force [] st = True"
| "team_fresh env d tenant allow force (tw # tws) st =
     (if person_on tw
      then ids_fresh d tw st
           \<and> team_fresh env d tenant allow force tws (snd (team_twins env d tenant allow force [tw] [] st))
      else team_fresh env d tenant allow force tws st)"

fun op_fresh :: "round_env \<Rightarrow> round_draws \<Rightarrow> service_op \<Rightarrow> twin_service \<Rightarrow> bool" where
  "op_fresh env d (GateCall c p) st = call_fresh c p (sv_world st)"
| "op_fresh env d SchedulerTick st = tenants_fresh env d (scheduled_tenants (rd_tenants d)) st"
| "op_fresh env d (CompileOne t i body) st = list_all (\<lambda>tw. ids_fresh d tw st \<and> ids_fresh d (tw\<lparr>tw_shadow_until := None\<rparr>) st)
     (list_twins (dw_store (sv_world st)) t)"
| "op_fresh env d (CompileTeam t force allow) st =
     team_fresh env d t (unwrap_or allow True) (unwrap_or force False) (list_twins (dw_store (sv_world st)) t) st"

fun service_run :: "gate_env \<Rightarrow> round_env \<Rightarrow> (round_draws \<times> service_op) list \<Rightarrow> twin_service \<Rightarrow> twin_service" where
  "service_run g env [] st = st"
| "service_run g env ((d, p) # ps) st = service_run g env ps (service_step g env d p st)"

fun service_run_ok :: "gate_env \<Rightarrow> round_env \<Rightarrow> (round_draws \<times> service_op) list \<Rightarrow> twin_service \<Rightarrow> bool" where
  "service_run_ok g env [] st = True"
| "service_run_ok g env ((d, p) # ps) st = (op_fresh env d p st \<and> service_run_ok g env ps (service_step g env d p st))"

definition new_service :: twin_service where
  "new_service = \<lparr>sv_world = new_world, sv_last_notify = []\<rparr>"

section \<open>Rounds are sequences of effects\<close>

abbreviation service_effects :: "twin_service \<Rightarrow> twin_service \<Rightarrow> bool" where
  "service_effects st st' \<equiv> effects (sv_world st) (sv_world st')"

lemma compile_person_store:
  "compile_person ce src tw opts s = (r, s') \<Longrightarrow>
     (\<exists>e. r = Inl e) \<and> s' = s \<or> (\<exists>out l run s1. r = Inr out \<and> l = oc_ledger out \<and> put_ledger (ce_chrono ce) l s = Inr s1 \<and> s' = put_compile_run run s1)"
  by (auto simp: compile_person_def Let_def split: if_splits sum.splits)

lemma service_compile_effects: "service_effects st (snd (service_compile env d tw opts st))"
proof -
  let ?ce = "round_compile_env env d tw" and ?s = "dw_store (sv_world st)"
  obtain r s' where c: "compile_person ?ce (rd_source d tw) tw opts ?s = (r, s')" by fastforce
  have "effects (sv_world st) ((sv_world st)\<lparr>dw_store := s'\<rparr>)"
    using compile_person_store [OF c]
  proof (elim disjE exE conjE)
    fix out l run s1 assume l: "put_ledger (ce_chrono ?ce) l ?s = Inr s1" and s': "s' = put_compile_run run s1"
    have "effect (sv_world st) ((sv_world st)\<lparr>dw_store := s1\<rparr>)" using l by (rule eff_ledger)
    moreover have "effect ((sv_world st)\<lparr>dw_store := s1\<rparr>) ((sv_world st)\<lparr>dw_store := s'\<rparr>)"
      using eff_run [of "(sv_world st)\<lparr>dw_store := s1\<rparr>" run] by (simp add: s')
    ultimately show ?thesis by simp
  qed simp
  then show ?thesis by (simp add: service_compile_def c)
qed

lemma service_compile_keeps_ids: "ids_fresh d t (snd (service_compile env d' tw opts st)) = ids_fresh d t st"
proof -
  obtain r s' where c: "compile_person (round_compile_env env d' tw) (rd_source d' tw) tw opts (dw_store (sv_world st)) = (r, s')"
    by fastforce
  have "ts_drafts s' = ts_drafts (dw_store (sv_world st)) \<and> ts_publishes s' = ts_publishes (dw_store (sv_world st))"
    using compile_person_store [OF c] by (auto simp: put_compile_run_def put_ledger_def Let_def split: if_splits)
  then show ?thesis by (simp add: service_compile_def c ids_fresh_def fresh_draft_id_def fresh_publish_id_def)
qed

lemma service_deliver_effects:
  assumes "world_inv (sv_world st)" "ids_fresh d tw st"
  shows "service_effects st (snd (service_deliver env d tenant tw out allow force st))"
  using start_after_compile_opts_effects [OF world_inv_store [OF assms(1)], of tw "rd_draft_uuid d tw" "rd_publish_uuid d tw"] assms(2)
  by (simp add: service_deliver_def ids_fresh_def split: prod.split) (metis snd_conv)

text \<open>Compile and deliver, with any choice of what to do in between.\<close>

lemma compile_deliver_effects:
  assumes "world_inv (sv_world st)" "ids_fresh d tw st" "service_compile env d tw opts st = (Inr out, st1)"
  shows "service_effects st (snd (service_deliver env d tenant tw out allow force st1))"
proof -
  have e: "service_effects st st1" using service_compile_effects [of st env d tw opts] assms(3) by simp
  moreover have "ids_fresh d tw st1" using service_compile_keeps_ids [of d tw env d tw opts st] assms(2,3) by simp
  ultimately show ?thesis using service_deliver_effects effects_world_inv [OF e assms(1)] by (metis rtranclp_trans)
qed

lemma schedule_twin_effects:
  assumes "world_inv (sv_world st)" "ids_fresh d tw st"
  shows "service_effects st (snd (schedule_twin env d tenant tw st))"
proof -
  obtain r st1 where c: "service_compile env d tw (round_opts env (rd_now d)) st = (r, st1)" by fastforce
  show ?thesis
  proof (cases r)
    case (Inl e)
    then show ?thesis using service_compile_effects [of st env d tw "round_opts env (rd_now d)"] c by (simp add: schedule_twin_def)
  next
    case (Inr out)
    then show ?thesis using compile_deliver_effects [OF assms c [unfolded Inr]]
      by (auto simp: schedule_twin_def c Let_def split: prod.split sum.split) (metis snd_conv)+
  qed
qed

lemma effects_then:
  assumes "service_effects st st1" "world_inv (sv_world st)" "world_inv (sv_world st1) \<Longrightarrow> service_effects st1 st2"
  shows "service_effects st st2"
  using assms effects_world_inv by (metis rtranclp_trans)

lemma schedule_twins_effects:
  "world_inv (sv_world st) \<Longrightarrow> scheduled_fresh env d tenant tws st \<Longrightarrow>
   service_effects st (snd (schedule_twins env d tenant tws st))"
proof (induction tws arbitrary: st)
  case (Cons tw tws)
  show ?case
  proof (cases "person_on tw")
    case True
    obtain r st1 where s: "schedule_twin env d tenant tw st = (r, st1)" by fastforce
    have e: "service_effects st st1" using schedule_twin_effects [OF Cons.prems(1), of d tw env tenant] Cons.prems(2) True s by simp
    then show ?thesis using Cons True s effects_then [OF e Cons.prems(1)] by (cases r) simp_all
  qed (use Cons in simp)
qed simp

lemma schedule_tenants_effects:
  "world_inv (sv_world st) \<Longrightarrow> tenants_fresh env d ts st \<Longrightarrow> service_effects st (snd (schedule_tenants env d ts st))"
proof (induction ts arbitrary: st)
  case (Cons t ts)
  obtain r st1 where s: "schedule_twins env d t (list_twins (dw_store (sv_world st)) t) st = (r, st1)" by fastforce
  have e: "service_effects st st1" using schedule_twins_effects [OF Cons.prems(1)] Cons.prems(2) s by (metis snd_conv tenants_fresh.simps(2))
  then show ?case using Cons s effects_then [OF e Cons.prems(1)] by (cases r) (simp_all add: Let_def)
qed simp

lemma team_one_step:
  "person_on tw \<Longrightarrow> team_twins env d tenant allow force (tw # tws) rs st =
     (case team_twins env d tenant allow force [tw] rs st of
        (Inl e, st1) \<Rightarrow> (Inl e, st1)
      | (Inr rs1, st1) \<Rightarrow> team_twins env d tenant allow force tws rs1 st1)"
  by (simp split: prod.split sum.split)

lemma team_results_irrelevant:
  "snd (team_twins env d tenant allow force [tw] rs st) = snd (team_twins env d tenant allow force [tw] [] st)"
  by (simp split: prod.split sum.split)

lemma team_twin_effects:
  assumes "world_inv (sv_world st)" "ids_fresh d tw st" "person_on tw"
  shows "service_effects st (snd (team_twins env d tenant allow force [tw] rs st))"
proof -
  obtain r st1 where c: "service_compile env d tw (round_opts env (rd_now d)) st = (r, st1)" by fastforce
  show ?thesis
  proof (cases r)
    case (Inl e)
    then show ?thesis using service_compile_effects [of st env d tw "round_opts env (rd_now d)"] c assms(3) by simp
  next
    case (Inr out)
    then show ?thesis using compile_deliver_effects [OF assms(1,2) c [unfolded Inr]] assms(3)
      by (auto simp: c split: prod.split sum.split) (metis snd_conv)+
  qed
qed

lemma team_twins_effects:
  "world_inv (sv_world st) \<Longrightarrow> team_fresh env d tenant allow force tws st \<Longrightarrow>
   service_effects st (snd (team_twins env d tenant allow force tws rs st))"
proof (induction tws arbitrary: st rs)
  case (Cons tw tws)
  show ?case
  proof (cases "person_on tw")
    case True
    obtain r st1 where s: "team_twins env d tenant allow force [tw] rs st = (r, st1)" by fastforce
    have e: "service_effects st st1"
      using team_twin_effects [OF Cons.prems(1) _ True, of d env tenant allow force rs] Cons.prems(2) True s by simp
    have "team_fresh env d tenant allow force tws st1"
      using Cons.prems(2) True s team_results_irrelevant [of env d tenant allow force tw rs st] by simp
    moreover have "team_twins env d tenant allow force (tw # tws) rs st
        = (case r of Inl x \<Rightarrow> (Inl x, st1) | Inr rs1 \<Rightarrow> team_twins env d tenant allow force tws rs1 st1)"
      by (simp only: team_one_step [OF True, of env d tenant allow force tws rs st] s prod.case)
    ultimately show ?thesis
      using Cons.IH effects_then [OF e Cons.prems(1)] e by (cases r) (simp_all del: team_twins.simps)
  qed (use Cons in simp)
qed simp

lemma compile_twin_effects:
  assumes "world_inv (sv_world st)" "op_fresh env d (CompileOne t i body) st"
  shows "service_effects st (snd (compile_twin env d t i body st))"
proof (cases "get_twin (dw_store (sv_world st)) t i")
  case None
  then show ?thesis by (simp add: compile_twin_def)
next
  case (Some tw0)
  let ?b = "unwrap_or body no_compile_body"
  let ?skip = "kb_skip_shadow ?b = Some True" and ?opts = "request_opts env (rd_now d) ?b"
  define tw where "tw = (if ?skip then tw0\<lparr>tw_shadow_until := None\<rparr> else tw0)"
  define st0 where "st0 = (if ?skip then st\<lparr>sv_world := on_store (upsert_twin tw) (sv_world st)\<rparr> else st)"
  have "tw0 \<in> set (list_twins (dw_store (sv_world st)) t)"
    using Some by (auto simp: get_twin_def list_twins_def dm_get_def dest!: map_of_SomeD intro!: rev_image_eqI)
  then have "ids_fresh d tw st" using assms(2) by (auto simp: list_all_iff tw_def)
  then have f: "ids_fresh d tw st0"
    by (auto simp: st0_def ids_fresh_def fresh_draft_id_def fresh_publish_id_def on_store_def upsert_twin_def)
  have e0: "service_effects st st0" by (auto simp: st0_def on_store_def intro!: r_into_rtranclp eff_twin)
  have i0: "world_inv (sv_world st0)" using effects_world_inv [OF e0 assms(1)] .
  obtain r st1 where c: "service_compile env d tw ?opts st0 = (r, st1)" by fastforce
  define allow where "allow = allow_on_request env (rd_now d) (unwrap_or (kb_force_notify ?b) (rn_notify_default env))
    (dm_get (sv_last_notify st1) (t, tw_twin_id tw))"
  have "service_effects st0 (snd (compile_twin env d t i body st))"
  proof (cases r)
    case (Inl x)
    then have "snd (compile_twin env d t i body st) = st1"
      unfolding compile_twin_def Some option.case Let_def tw_def [symmetric] st0_def [symmetric] c by simp
    then show ?thesis using service_compile_effects [of st0 env d tw ?opts] c by simp
  next
    case (Inr out)
    obtain q st2 where q: "service_deliver env d t tw out allow (unwrap_or (kb_force_notify ?b) (rn_notify_default env)) st1 = (q, st2)"
      by fastforce
    have "snd (compile_twin env d t i body st) = st2"
      unfolding compile_twin_def Some option.case Let_def tw_def [symmetric] st0_def [symmetric] c Inr prod.case sum.case
        allow_def [symmetric] q by (simp split: sum.split)
    then show ?thesis using compile_deliver_effects [OF i0 f c [unfolded Inr]] q by (metis snd_conv)
  qed
  with e0 show ?thesis by (rule rtranclp_trans)
qed

lemma service_step_effects:
  assumes "world_inv (sv_world st)" "op_fresh env d p st"
  shows "service_effects st (service_step g env d p st)"
proof (cases p)
  case (GateCall c q)
  with assms show ?thesis by (simp add: gate_step_effects world_inv_store)
next
  case SchedulerTick
  with assms show ?thesis by (simp add: run_scheduled_compiles_def schedule_tenants_effects)
next
  case (CompileOne t i body)
  with assms show ?thesis using compile_twin_effects by simp
next
  case (CompileTeam t force allow)
  with assms team_twins_effects [OF assms(1)] show ?thesis
    by (auto simp: compile_team_def Let_def split: prod.split sum.split) (metis snd_conv)+
qed

lemma service_run_effects:
  "world_inv (sv_world st) \<Longrightarrow> service_run_ok g env ps st \<Longrightarrow> service_effects st (service_run g env ps st)"
proof (induction ps arbitrary: st)
  case (Cons dp ps)
  obtain d p where dp: "dp = (d, p)" by fastforce
  have e: "service_effects st (service_step g env d p st)" using service_step_effects Cons.prems dp by simp
  show ?case using Cons dp effects_then [OF e Cons.prems(1)] by simp
qed simp

lemma service_run_append: "service_run g env (ps @ qs) st = service_run g env qs (service_run g env ps st)"
  by (induction g env ps st rule: service_run.induct) simp_all

lemma service_run_ok_append:
  "service_run_ok g env (ps @ qs) st \<longleftrightarrow> service_run_ok g env ps st \<and> service_run_ok g env qs (service_run g env ps st)"
  by (induction g env ps st rule: service_run_ok.induct) simp_all


section \<open>When nothing is sent\<close>

text \<open>A draft that was stored without a message, and whose text does not count as empty.\<close>

definition text_ok :: "string \<Rightarrow> bool" where
  "text_ok txt \<longleftrightarrow> \<not> contains txt ''No code or ticket signals'' \<and> \<not> contains txt ''nothing invented'' \<and> trim txt \<noteq> []"

definition silent_draft :: "twin_store \<Rightarrow> string \<Rightarrow> string \<Rightarrow> bool" where
  "silent_draft s tenant lid \<longleftrightarrow>
     (case get_draft_by_ledger s tenant lid of Some d \<Rightarrow> dd_slack_dm_ts d = [] \<and> text_ok (dd_draft_text d) | None \<Rightarrow> False)"

lemma emptyish_text: "was_emptyish d \<longleftrightarrow> \<not> text_ok (dd_draft_text d)"
  by (auto simp: was_emptyish_def text_ok_def)

definition period_ledger_id :: "round_env \<Rightarrow> string \<Rightarrow> string \<Rightarrow> instant \<Rightarrow> string" where
  "period_ledger_id env tenant i now =
     (let (p0, p1) = aligned_period (rn_window_secs env) now
      in ledger_id_for (ds_sha (rn_service env)) (ds_chrono (rn_service env)) tenant i p0 p1)"

definition digest_text :: "round_env \<Rightarrow> round_draws \<Rightarrow> twin \<Rightarrow> string" where
  "digest_text env d tw =
     (let ch = ds_chrono (rn_service env); sids = subject_ids tw; view = fetch_view (rd_source d tw) (tw_tenant_id tw) 3 sids
      in render_draft_text (rn_upper env) ch (compile_ledger ch tw (round_opts env (rd_now d)) view (map subject_node sids)
           (unwrap_or (gv_graph_as_of view) (rd_compile_clk d tw 1)) (rd_compile_clk d tw 2)))"

lemma round_opts_simps:
  "co_period_start (round_opts env now) = fst (aligned_period (rn_window_secs env) now)"
  "co_period_end (round_opts env now) = snd (aligned_period (rn_window_secs env) now)" "co_hops (round_opts env now) = 3"
  by (simp_all add: round_opts_def split: prod.split)

lemma request_opts_period:
  "kb_period_start body = None \<Longrightarrow> kb_period_end body = None \<Longrightarrow>
     co_period_start (request_opts env now body) = co_period_start (round_opts env now)
     \<and> co_period_end (request_opts env now body) = co_period_end (round_opts env now)"
  by (simp add: request_opts_def Let_def)

lemma draft_lookup_cong:
  "ts_drafts s = ts_drafts s' \<Longrightarrow> ts_draft_by_ledger s = ts_draft_by_ledger s' \<Longrightarrow> get_draft_by_ledger s = get_draft_by_ledger s'"
  by (intro ext) (simp add: get_draft_by_ledger_def get_draft_def split: option.split)

lemma compile_frame:
  assumes "service_compile env d tw opts st = (r, st1)"
  shows "dw_log (sv_world st1) = dw_log (sv_world st)" "sv_last_notify st1 = sv_last_notify st"
    "get_draft_by_ledger (dw_store (sv_world st1)) = get_draft_by_ledger (dw_store (sv_world st))"
    "ts_publish_by_ledger (dw_store (sv_world st1)) = ts_publish_by_ledger (dw_store (sv_world st))"
    "twin_store_inv (dw_store (sv_world st)) \<Longrightarrow> twin_store_inv (dw_store (sv_world st1))"
proof -
  obtain s' where c: "compile_person (round_compile_env env d tw) (rd_source d tw) tw opts (dw_store (sv_world st)) = (r, s')"
    and st1: "st1 = st\<lparr>sv_world := (sv_world st)\<lparr>dw_store := s'\<rparr>\<rparr>"
    using assms by (auto simp: service_compile_def split: prod.splits)
  show "dw_log (sv_world st1) = dw_log (sv_world st)" "sv_last_notify st1 = sv_last_notify st" by (simp_all add: st1)
  show "get_draft_by_ledger (dw_store (sv_world st1)) = get_draft_by_ledger (dw_store (sv_world st))"
    "ts_publish_by_ledger (dw_store (sv_world st1)) = ts_publish_by_ledger (dw_store (sv_world st))"
    using compile_person_store [OF c]
    by (auto simp: st1 put_compile_run_def put_ledger_def Let_def intro!: draft_lookup_cong split: if_splits)
  show "twin_store_inv (dw_store (sv_world st)) \<Longrightarrow> twin_store_inv (dw_store (sv_world st1))"
    using compile_person_store [OF c] by (auto simp: st1 inv_put_compile_run dest: inv_put_ledger)
qed

lemma compile_ledger_key:
  assumes "service_compile env d tw opts st = (Inr out, st1)"
  shows "ls_ledger_id (oc_ledger out) = ledger_id_for (ds_sha (rn_service env)) (ds_chrono (rn_service env))
      (tw_tenant_id tw) (tw_twin_id tw) (co_period_start opts) (co_period_end opts)"
    "opts = round_opts env (rd_now d) \<Longrightarrow> oc_draft_text out = digest_text env d tw"
  using assms by (auto simp: service_compile_def compile_person_def round_compile_env_def digest_text_def round_opts_simps Let_def
      split: prod.splits if_splits sum.splits)

lemma compile_succeeds:
  assumes "tw_twin_kind tw = Person" "tw_tenant_id tw \<noteq> []"
    "dm_get (ts_publish_by_ledger (dw_store (sv_world st)))
       (tw_tenant_id tw, period_ledger_id env (tw_tenant_id tw) (tw_twin_id tw) (rd_now d)) = None"
  shows "\<exists>out st1. service_compile env d tw (round_opts env (rd_now d)) st = (Inr out, st1)"
  using assms by (auto simp: service_compile_def compile_person_def round_compile_env_def put_ledger_def period_ledger_id_def
      round_opts_simps Let_def split: prod.splits)

lemma period_key: "ledger_id_for (ds_sha (rn_service env)) (ds_chrono (rn_service env)) tenant i
    (co_period_start (round_opts env now)) (co_period_end (round_opts env now)) = period_ledger_id env tenant i now"
  by (simp add: period_ledger_id_def round_opts_simps split: prod.split)

text \<open>Reading a ledger's draft after a draft was rewritten in place.\<close>

lemma draft_of_ledger_update:
  assumes "update_draft d s = Inr s'"
  shows "get_draft_by_ledger s' t l = (case get_draft_by_ledger s t l of
      None \<Rightarrow> if dm_get (ts_draft_by_ledger s) (t, l) = Some (dd_draft_id d) \<and> dd_tenant_id d = t then Some d else None
    | Some d0 \<Rightarrow> if dm_get (ts_draft_by_ledger s) (t, l) = Some (dd_draft_id d) \<and> dd_tenant_id d = t then Some d else Some d0)"
  using assms by (auto simp: update_draft_def get_draft_by_ledger_def get_draft_def split: if_splits option.splits)

lemma existing_is_silent:
  assumes "silent_draft (dw_store w) (tw_tenant_id tw) (ls_ledger_id l)"
    and "start_after_compile_opts sv tw l txt now allow force did pid clk w = (r, w')"
  shows "dw_log w' = dw_log w" "text_ok txt \<Longrightarrow> silent_draft (dw_store w') (tw_tenant_id tw) (ls_ledger_id l)"
    "r = Inr del \<Longrightarrow> \<not> dr_dm_sent del"
proof -
  obtain e where e: "get_draft_by_ledger (dw_store w) (tw_tenant_id tw) (ls_ledger_id l) = Some e" "dd_slack_dm_ts e = []"
    "text_ok (dd_draft_text e)" using assms(1) by (auto simp: silent_draft_def split: option.splits)
  define e' where "e' = (if draft_is_open (dd_status e) then e\<lparr>dd_draft_text := txt, dd_updated_at := now\<rparr> else e)"
  have w': "w' = w \<or> (\<exists>s. update_draft e' (dw_store w) = Inr s \<and> w' = w\<lparr>dw_store := s\<rparr>)"
    and r: "\<And>del. r = Inr del \<Longrightarrow> \<not> dr_dm_sent del"
    using assms(2) e by (auto simp: start_after_compile_opts_def emptyish_text Let_def e'_def split: if_splits sum.splits)
  show "dw_log w' = dw_log w" using w' by auto
  show "r = Inr del \<Longrightarrow> \<not> dr_dm_sent del" using r .
  assume t: "text_ok txt"
  then have "dd_slack_dm_ts e' = []" "text_ok (dd_draft_text e')" using e by (simp_all add: e'_def)
  then show "silent_draft (dw_store w') (tw_tenant_id tw) (ls_ledger_id l)"
    using w' assms(1) e by (auto simp: silent_draft_def draft_of_ledger_update split: option.splits if_splits)
qed

text \<open>Without permission nothing is sent, and a new draft is stored without a message.\<close>

lemma quiet_decision:
  "\<not> nd_allow_dm (decide_notify sha ch l ns now m False False sh)"
  "nd_suppress (decide_notify sha ch l ns now m False False sh) \<in> {Some SupShadow, Some SupQuiet}"
  by (simp_all add: decide_notify_def Let_def)

lemma quiet_will_not_dm:
  "\<not> new_will_dm (decide_notify sha ch l ns now m False False sh) sh st"
  "\<not> upgrade_will_dm (decide_notify sha ch l ns now m False False sh) sh st"
  using quiet_decision(1) by (simp_all add: new_will_dm_def upgrade_will_dm_def)

lemma undelivered_draft:
  assumes "deliver_new_draft sv tw tier txt now pid clk ns dec False d w = (r, w')"
  shows "dw_log w' = dw_log w"
    "put_draft d (dw_store w) = Inr s \<Longrightarrow> get_draft_by_ledger (dw_store w') = get_draft_by_ledger s"
  using assms by (auto simp: deliver_new_draft_def save_notify_state_def upsert_twin_def intro!: draft_lookup_cong
      split: sum.splits if_splits)

lemma quiet_new_draft:
  assumes "start_new_draft sv tw l txt now False False did pid clk w = (r, w')"
  shows "\<exists>tier ns dec d. deliver_new_draft sv tw tier txt now pid clk ns dec False d w = (r, w') \<and> draft_ledger_key d = (tw_tenant_id tw, ls_ledger_id l)
    \<and> dd_slack_dm_ts d = [] \<and> dd_draft_text d = txt"
proof -
  let ?dec = "decide_notify (ds_sha sv) (ds_chrono sv) (ls_ledger l) (load_notify_state tw) now (dp_max_dms_per_day (ds_policy sv))
      False False (is_in_shadow tw now)"
  obtain st d where d: "start_new_draft sv tw l txt now False False did pid clk w = deliver_new_draft sv tw (ls_confidence_rollup l) txt
      now pid clk (load_notify_state tw) ?dec (new_will_dm ?dec (is_in_shadow tw now) st) d w"
    "draft_ledger_key d = (tw_tenant_id tw, ls_ledger_id l)" "dd_slack_dm_ts d = []" "dd_draft_text d = txt"
    unfolding start_new_draft_def Let_def by fastforce
  have "new_will_dm ?dec (is_in_shadow tw now) st = False" using quiet_will_not_dm(1) by (rule Eq_FalseI [unfolded atomize_eq])
  with d assms show ?thesis by metis
qed

lemma quiet_upgrade: "dw_log (snd (upgrade_existing_draft sv tw l txt now False False clk d w)) = dw_log w"
  using quiet_will_not_dm(2)
  by (simp add: upgrade_existing_draft_def deliver_upgrade_def save_notify_state_def Let_def split: sum.split)

lemma quiet_is_silent:
  assumes "start_after_compile_opts sv tw l txt now False False did pid clk w = (r, w')"
  shows "dw_log w' = dw_log w"
    "get_draft_by_ledger (dw_store w) (tw_tenant_id tw) (ls_ledger_id l) = None \<Longrightarrow> twin_store_inv (dw_store w) \<Longrightarrow> text_ok txt \<Longrightarrow>
      silent_draft (dw_store w') (tw_tenant_id tw) (ls_ledger_id l)"
proof -
  let ?g = "get_draft_by_ledger (dw_store w) (tw_tenant_id tw) (ls_ledger_id l)"
  show "dw_log w' = dw_log w"
  proof (cases ?g)
    case None
    then have "start_new_draft sv tw l txt now False False did pid clk w = (r, w')" using assms by (simp add: start_after_compile_opts_def)
    then show ?thesis using quiet_new_draft undelivered_draft(1) by meson
  next
    case (Some e)
    have u: "upgrade_existing_draft sv tw l txt now False False clk d w = (r, w') \<Longrightarrow> ?thesis" for d
      using quiet_upgrade by (metis snd_conv)
    show ?thesis using Some assms
      by (auto simp: start_after_compile_opts_def Let_def split: if_splits sum.splits intro: u)
  qed
  assume n: "?g = None" and i: "twin_store_inv (dw_store w)" and t: "text_ok txt"
  then obtain tier ns dec d where d: "deliver_new_draft sv tw tier txt now pid clk ns dec False d w = (r, w')"
    "draft_ledger_key d = (tw_tenant_id tw, ls_ledger_id l)" "dd_slack_dm_ts d = []" "dd_draft_text d = txt"
    using quiet_new_draft [of sv tw l "txt" now did pid clk w r w'] assms by (auto simp: start_after_compile_opts_def)
  have "dm_get (ts_draft_by_ledger (dw_store w)) (tw_tenant_id tw, ls_ledger_id l) = None"
    using n i by (fastforce simp: twin_store_inv_def get_draft_by_ledger_def get_draft_def split: option.splits)
  then obtain s where s: "put_draft d (dw_store w) = Inr s" using d(2) by (simp add: put_draft_def)
  then have "get_draft_by_ledger s (tw_tenant_id tw) (ls_ledger_id l) = Some d"
    using d(2) by (auto simp: put_draft_def get_draft_by_ledger_def get_draft_def split: if_splits)
  then show "silent_draft (dw_store w') (tw_tenant_id tw) (ls_ledger_id l)"
    using undelivered_draft(2) [OF d(1) s] d(3,4) t by (simp add: silent_draft_def)
qed

section \<open>A message that is missed\<close>

lemma deliver_cases:
  assumes "service_deliver env d tenant tw out allow force st = (r, st')"
  shows "\<exists>w. start_after_compile_opts (rn_service env) tw (oc_ledger out) (oc_draft_text out) (rd_now d) allow force
      (rd_draft_uuid d tw) (rd_publish_uuid d tw) (rd_clk d tw) (sv_world st) = (r, w) \<and> sv_world st' = w"
  using assms by (auto simp: service_deliver_def split: prod.splits)

lemma silent_after_compile:
  assumes "service_compile env d tw opts st = (Inr out, st1)" "service_deliver env d tenant tw out allow force st1 = (r, st2)"
    and "silent_draft (dw_store (sv_world st)) (tw_tenant_id tw) (ls_ledger_id (oc_ledger out))"
  shows "dw_log (sv_world st2) = dw_log (sv_world st)"
    "text_ok (oc_draft_text out) \<Longrightarrow> silent_draft (dw_store (sv_world st2)) (tw_tenant_id tw) (ls_ledger_id (oc_ledger out))"
proof -
  have "silent_draft (dw_store (sv_world st1)) (tw_tenant_id tw) (ls_ledger_id (oc_ledger out))"
    using assms(3) by (simp add: silent_draft_def compile_frame(3) [OF assms(1)])
  then show "dw_log (sv_world st2) = dw_log (sv_world st)"
    "text_ok (oc_draft_text out) \<Longrightarrow> silent_draft (dw_store (sv_world st2)) (tw_tenant_id tw) (ls_ledger_id (oc_ledger out))"
    using deliver_cases [OF assms(2)] existing_is_silent compile_frame(1) [OF assms(1)] by metis+
qed

lemma tick_keeps_silent:
  assumes "silent_draft (dw_store (sv_world st)) tenant (period_ledger_id env tenant i (rd_now d))"
    and "tw_tenant_id tw = tenant" "tw_twin_id tw = i"
  shows "dw_log (sv_world (snd (schedule_twin env d tenant tw st))) = dw_log (sv_world st)"
    "text_ok (digest_text env d tw) \<Longrightarrow>
      silent_draft (dw_store (sv_world (snd (schedule_twin env d tenant tw st)))) tenant (period_ledger_id env tenant i (rd_now d))"
proof -
  obtain r st1 where c: "service_compile env d tw (round_opts env (rd_now d)) st = (r, st1)" by fastforce
  have "dw_log (sv_world (snd (schedule_twin env d tenant tw st))) = dw_log (sv_world st) \<and> (text_ok (digest_text env d tw) \<longrightarrow>
      silent_draft (dw_store (sv_world (snd (schedule_twin env d tenant tw st)))) tenant (period_ledger_id env tenant i (rd_now d)))"
  proof (cases r)
    case (Inl e)
    then show ?thesis using c compile_frame [OF c] assms(1) by (simp add: schedule_twin_def silent_draft_def)
  next
    case (Inr out)
    note c = c [unfolded Inr]
    have k: "ls_ledger_id (oc_ledger out) = period_ledger_id env tenant i (rd_now d)" "oc_draft_text out = digest_text env d tw"
      using compile_ledger_key [OF c] assms(2,3) by (simp_all add: period_key)
    define allow where "allow = (notify_due env (rd_now d) (dm_get (sv_last_notify st1) (tenant, i)) \<and> \<not> outcome_empty out)"
    obtain q st2 where q: "service_deliver env d tenant tw out allow False st1 = (q, st2)" by fastforce
    have "snd (schedule_twin env d tenant tw st) = st2"
      using c q assms(3) by (simp add: schedule_twin_def allow_def split: sum.split)
    then show ?thesis using silent_after_compile [OF c q] assms(1,2) k by simp
  qed
  then show "dw_log (sv_world (snd (schedule_twin env d tenant tw st))) = dw_log (sv_world st)"
    "text_ok (digest_text env d tw) \<Longrightarrow>
      silent_draft (dw_store (sv_world (snd (schedule_twin env d tenant tw st)))) tenant (period_ledger_id env tenant i (rd_now d))"
    by simp_all
qed

text \<open>
  C39. A digest that was not sent when its draft was stored is never sent. When the ledger of the running period
  has a draft without a message (its first message failed, was held back, or was not allowed yet)
  whose text is not one of the empty ones, neither the scheduler nor a request to compile, even one
  that forces the notification, makes any chat call for the twin in that period.
\<close>

theorem unsent_digest_is_never_sent:
  assumes "twin_store_inv (dw_store (sv_world st))"
    and "silent_draft (dw_store (sv_world st)) tenant (period_ledger_id env tenant i (rd_now d))"
    and "kb_period_start body = None" "kb_period_end body = None" "tw_tenant_id tw = tenant" "tw_twin_id tw = i"
  shows "dw_log (sv_world (snd (compile_twin env d tenant i (Some body) st))) = dw_log (sv_world st)
    \<and> dw_log (sv_world (snd (schedule_twin env d tenant tw st))) = dw_log (sv_world st)"
proof
  show "dw_log (sv_world (snd (schedule_twin env d tenant tw st))) = dw_log (sv_world st)"
    using tick_keeps_silent(1) [OF assms(2,5,6)] .
  show "dw_log (sv_world (snd (compile_twin env d tenant i (Some body) st))) = dw_log (sv_world st)"
  proof (cases "get_twin (dw_store (sv_world st)) tenant i")
    case None
    then show ?thesis by (simp add: compile_twin_def)
  next
    case (Some tw0)
    let ?skip = "kb_skip_shadow body = Some True" and ?opts = "request_opts env (rd_now d) body"
    have id: "tw_tenant_id tw0 = tenant" "tw_twin_id tw0 = i"
      using Some assms(1) by (auto simp: twin_store_inv_def get_twin_def dest: dm_keyed_getD)
    define t where "t = (if ?skip then tw0\<lparr>tw_shadow_until := None\<rparr> else tw0)"
    define st0 where "st0 = (if ?skip then st\<lparr>sv_world := on_store (upsert_twin t) (sv_world st)\<rparr> else st)"
    have l0: "dw_log (sv_world st0) = dw_log (sv_world st)" by (simp add: st0_def on_store_def)
    have "get_draft_by_ledger (dw_store (sv_world st0)) = get_draft_by_ledger (dw_store (sv_world st))"
      by (auto simp: st0_def on_store_def upsert_twin_def intro!: draft_lookup_cong)
    then have s0: "silent_draft (dw_store (sv_world st0)) tenant (period_ledger_id env tenant i (rd_now d))"
      using assms(2) by (simp add: silent_draft_def)
    obtain r st1 where c: "service_compile env d t ?opts st0 = (r, st1)" by fastforce
    show ?thesis
    proof (cases r)
      case (Inl x)
      then have "snd (compile_twin env d tenant i (Some body) st) = st1"
        unfolding compile_twin_def Some option.case Let_def unwrap_or_simps t_def [symmetric] st0_def [symmetric] c by simp
      then show ?thesis using compile_frame(1) [OF c] l0 by simp
    next
      case (Inr out)
      note c = c [unfolded Inr]
      define allow where "allow = allow_on_request env (rd_now d) (unwrap_or (kb_force_notify body) (rn_notify_default env))
        (dm_get (sv_last_notify st1) (tenant, tw_twin_id t))"
      obtain q st2 where q: "service_deliver env d tenant t out allow (unwrap_or (kb_force_notify body) (rn_notify_default env)) st1 = (q, st2)"
        by fastforce
      have e: "snd (compile_twin env d tenant i (Some body) st) = st2"
        unfolding compile_twin_def Some option.case Let_def unwrap_or_simps t_def [symmetric] st0_def [symmetric] c prod.case sum.case
          allow_def [symmetric] q by (simp split: sum.split)
      have "tw_tenant_id t = tenant" "tw_twin_id t = i" using id by (simp_all add: t_def)
      moreover from this have "ls_ledger_id (oc_ledger out) = period_ledger_id env tenant i (rd_now d)"
        using compile_ledger_key(1) [OF c] request_opts_period [OF assms(3,4), of env "rd_now d"] by (simp add: period_key)
      ultimately show ?thesis using silent_after_compile(1) [OF c q] s0 l0 e by simp
    qed
  qed
qed

fun twin_ticks :: "round_env \<Rightarrow> string \<Rightarrow> (round_draws \<times> twin) list \<Rightarrow> twin_service \<Rightarrow> twin_service" where
  "twin_ticks env tenant [] st = st"
| "twin_ticks env tenant ((d, tw) # ts) st = twin_ticks env tenant ts (snd (schedule_twin env d tenant tw st))"

lemma ticks_keep_silent:
  assumes "list_all (\<lambda>(d, tw). tw_tenant_id tw = tenant \<and> tw_twin_id tw = i \<and> period_ledger_id env tenant i (rd_now d) = lid
      \<and> text_ok (digest_text env d tw)) ticks" "silent_draft (dw_store (sv_world st)) tenant lid"
  shows "dw_log (sv_world (twin_ticks env tenant ticks st)) = dw_log (sv_world st)
    \<and> silent_draft (dw_store (sv_world (twin_ticks env tenant ticks st))) tenant lid"
  using assms
proof (induction ticks arbitrary: st)
  case (Cons x ticks)
  obtain d tw where x: "x = (d, tw)" by fastforce
  have p: "tw_tenant_id tw = tenant" "tw_twin_id tw = i" "period_ledger_id env tenant i (rd_now d) = lid"
    "text_ok (digest_text env d tw)" using Cons.prems(1) x by simp_all
  have s: "silent_draft (dw_store (sv_world st)) tenant (period_ledger_id env tenant i (rd_now d))" using Cons.prems(2) p by simp
  show ?case using Cons.IH [of "snd (schedule_twin env d tenant tw st)"] tick_keeps_silent [OF s p(1,2)] p Cons.prems(1) x by simp
qed simp

text \<open>A tick for a person whose draft was sent before: no call, but the table says notified now.\<close>

lemma reported_tick:
  assumes "twin_store_inv (dw_store (sv_world st))"
    and "get_draft_by_ledger (dw_store (sv_world st)) tenant (period_ledger_id env tenant i (rd_now d)) = Some dr" "dd_slack_dm_ts dr \<noteq> []"
    and "tw_tenant_id tw = tenant" "tw_twin_id tw = i" "tw_twin_kind tw = Person" "tenant \<noteq> []"
    and "dm_get (ts_publish_by_ledger (dw_store (sv_world st))) (tenant, period_ledger_id env tenant i (rd_now d)) = None"
  defines "st' \<equiv> snd (schedule_twin env d tenant tw st)"
  shows "dw_log (sv_world st') = dw_log (sv_world st)" "dm_get (sv_last_notify st') (tenant, i) = Some (rd_now d)"
    "twin_store_inv (dw_store (sv_world st'))"
    "ts_publish_by_ledger (dw_store (sv_world st')) = ts_publish_by_ledger (dw_store (sv_world st))"
    "get_draft_by_ledger (dw_store (sv_world st)) tenant l = None \<Longrightarrow> get_draft_by_ledger (dw_store (sv_world st')) tenant l = None"
proof -
  obtain out st1 where c: "service_compile env d tw (round_opts env (rd_now d)) st = (Inr out, st1)"
    using compile_succeeds [of tw st env d] assms by auto
  have k: "ls_ledger_id (oc_ledger out) = period_ledger_id env tenant i (rd_now d)"
    using compile_ledger_key(1) [OF c] assms by (simp add: period_key)
  define allow where "allow = (notify_due env (rd_now d) (dm_get (sv_last_notify st1) (tenant, i)) \<and> \<not> outcome_empty out)"
  obtain q st2 where q: "service_deliver env d tenant tw out allow False st1 = (q, st2)" by fastforce
  have st': "st' = st2" using c q assms(5) by (simp add: st'_def schedule_twin_def allow_def split: sum.split)
  define e where "e = (if draft_is_open (dd_status dr) then dr\<lparr>dd_draft_text := oc_draft_text out, dd_updated_at := rd_now d\<rparr> else dr)"
  have g: "get_draft_by_ledger (dw_store (sv_world st1)) tenant (ls_ledger_id (oc_ledger out)) = Some dr"
    using assms(2) by (simp add: compile_frame(3) [OF c] k)
  note i1 = compile_frame(5) [OF c assms(1)]
  have dr: "dm_get (ts_drafts (dw_store (sv_world st1))) (draft_key dr) = Some dr"
    using g i1 by (auto simp: get_draft_by_ledger_def get_draft_def twin_store_inv_def split: option.splits dest: dm_keyed_getD)
  have u: "update_draft e (dw_store (sv_world st1))
      = Inr ((dw_store (sv_world st1))\<lparr>ts_drafts := dm_put (draft_key e) e (ts_drafts (dw_store (sv_world st1)))\<rparr>)"
    using dr by (simp add: update_draft_def e_def)
  have w: "(sv_world st2 = sv_world st1 \<or> (\<exists>s. update_draft e (dw_store (sv_world st1)) = Inr s \<and> sv_world st2 = (sv_world st1)\<lparr>dw_store := s\<rparr>))
      \<and> sv_last_notify st2 = dm_put (tenant, i) (rd_now d) (sv_last_notify st1)"
    using q g assms(3,4,5) u by (auto simp: service_deliver_def start_after_compile_opts_def Let_def e_def split: if_splits)
  show "dw_log (sv_world st') = dw_log (sv_world st)" using w compile_frame(1) [OF c] st' by auto
  show "dm_get (sv_last_notify st') (tenant, i) = Some (rd_now d)" using w st' by simp
  have "\<not> draft_moves_ledger e (dw_store (sv_world st1))" using dr by (auto simp: draft_moves_ledger_def e_def)
  then show "twin_store_inv (dw_store (sv_world st'))" using w i1 inv_update_draft st' by auto
  show "ts_publish_by_ledger (dw_store (sv_world st')) = ts_publish_by_ledger (dw_store (sv_world st))"
    using w compile_frame(4) [OF c] st' by (auto simp: update_draft_def split: if_splits)
  assume n: "get_draft_by_ledger (dw_store (sv_world st)) tenant l = None"
  then have "get_draft_by_ledger (dw_store (sv_world st1)) tenant l = None" by (simp add: compile_frame(3) [OF c])
  moreover from this have "dm_get (ts_draft_by_ledger (dw_store (sv_world st1))) (tenant, l) = None"
    using i1 by (fastforce simp: get_draft_by_ledger_def get_draft_def twin_store_inv_def split: option.splits)
  ultimately show "get_draft_by_ledger (dw_store (sv_world st')) tenant l = None"
    using w st' by (auto simp: draft_of_ledger_update)
qed


section \<open>The properties at a concrete service\<close>

text \<open>Hourly periods, a notification at most every half hour, and two ticks ten minutes apart.\<close>

definition rounds_env :: round_env where
  "rounds_env = \<lparr>rn_service = sample_service\<lparr>ds_sha := rev, ds_chrono := \<lparr>strftime = (\<lambda>f t. f),
       rfc3339 = (\<lambda>t. if t = 0 then ''a'' else if t = seconds 3600 then ''b'' else ''c'')\<rparr>\<rparr>,
     rn_window_secs = 3600, rn_notify_secs = 1800, rn_notify_default = False, rn_upper = (\<lambda>s. s)\<rparr>"

definition blocked_source :: graph_source where
  "blocked_source tenant sid pn hops =
     Inr \<lparr>gv_nodes = [], gv_edges = [], gv_states = [], gv_blockers = [digest_edge ''issue:1''], gv_graph_as_of = Some 9\<rparr>"

definition rounds_draws :: "int \<Rightarrow> round_draws" where
  "rounds_draws now = \<lparr>rd_now = seconds now, rd_run_uuid = (\<lambda>t. ''u''), rd_compile_clk = (\<lambda>t n. now), rd_source = (\<lambda>t. blocked_source),
     rd_draft_uuid = (\<lambda>t. ''n''), rd_publish_uuid = (\<lambda>t. ''p''), rd_clk = (\<lambda>t n. now), rd_tenants = [''ten'']\<rparr>"

definition first_lid :: string where "first_lid = period_ledger_id rounds_env ''ten'' ''twin:person:gu_a'' (seconds 3300)"
definition second_lid :: string where "second_lid = period_ledger_id rounds_env ''ten'' ''twin:person:gu_a'' (seconds 3900)"

definition stored_draft :: "string \<Rightarrow> draft_delivery" where
  "stored_draft ts = sample_pending\<lparr>dd_tenant_id := ''ten'', dd_ledger_id := first_lid, dd_twin_id := ''twin:person:gu_a'', dd_slack_dm_ts := ts\<rparr>"

definition rounds_state :: "string \<Rightarrow> twin_service" where
  "rounds_state ts = \<lparr>sv_world = \<lparr>dw_store = new_twin_store\<lparr>ts_twins := [((''ten'', ''twin:person:gu_a''), digest_twin)],
       ts_drafts := [((''ten'', ''dft_1''), stored_draft ts)], ts_draft_by_ledger := [((''ten'', first_lid), ''dft_1'')]\<rparr>, dw_log = []\<rparr>,
     sv_last_notify = []\<rparr>"

lemma rounds_ids: "first_lid = ''led_b|a|a_ug:nosrep:niwt|net''" "second_lid = ''led_c|b|a_ug:nosrep:niwt|net''"
  by code_simp+

lemma rounds_state_inv: "twin_store_inv (dw_store (sv_world (rounds_state ts)))"
  by (auto simp: rounds_state_def twin_store_inv_def new_twin_store_def stored_draft_def sample_pending_def sample_draft_def digest_twin_def
      dm_keyed_def dm_ok_def dm_get_def split: if_splits)

lemma rounds_state_reads:
  "get_draft_by_ledger (dw_store (sv_world (rounds_state ts))) ''ten'' first_lid = Some (stored_draft ts)"
  "get_draft_by_ledger (dw_store (sv_world (rounds_state ts))) ''ten'' second_lid = None"
  "dm_get (ts_publish_by_ledger (dw_store (sv_world (rounds_state ts)))) k = None" "dw_log (sv_world (rounds_state ts)) = []"
  "dd_slack_dm_ts (stored_draft ts) = ts"
  by (simp_all add: rounds_state_def get_draft_by_ledger_def get_draft_def dm_get_def new_twin_store_def stored_draft_def rounds_ids)

lemma rounds_times: "rd_now (rounds_draws n) = seconds n" "rn_notify_secs rounds_env = 1800"
  by (simp_all add: rounds_draws_def rounds_env_def)

lemma rounds_text: "text_ok (digest_text rounds_env (rounds_draws 3900) digest_twin)"
  by code_simp


theorem unsent_digest_is_never_sent_witness:
  "dw_log (sv_world (snd (compile_twin rounds_env (rounds_draws 3300) ''ten'' ''twin:person:gu_a''
     (Some (no_compile_body\<lparr>kb_force_notify := Some True\<rparr>)) (rounds_state [])))) = []"
proof -
  have s: "silent_draft (dw_store (sv_world (rounds_state []))) ''ten'' first_lid"
    using rounds_state_reads [of "[]"] by (simp add: silent_draft_def) code_simp
  show ?thesis
    using unsent_digest_is_never_sent [of "rounds_state []" "''ten''" rounds_env "''twin:person:gu_a''" "rounds_draws 3300"
        "no_compile_body\<lparr>kb_force_notify := Some True\<rparr>" digest_twin, OF rounds_state_inv] s rounds_state_reads(4) [of "[]"]
    by (simp add: rounds_times first_lid_def [symmetric] no_compile_body_def digest_twin_def)
qed

text \<open>A compile, a veto and a compile of the team: the vetoed draft stays.\<close>

lemma service_gate:
  "service_run g env (map (\<lambda>q. (d, GateCall c q)) qs) st = st\<lparr>sv_world := gate_run g (map (\<lambda>q. (c, q)) qs) (sv_world st)\<rparr>"
  "service_run_ok g env (map (\<lambda>q. (d, GateCall c q)) qs) st = gate_run_ok g (map (\<lambda>q. (c, q)) qs) (sv_world st)"
  by (induction qs arbitrary: st) simp_all


end
