(* ===== verification/Spec2Isabelle.thy ===== *)
theory Spec2Isabelle
  imports Twin_Digest Twin_Delivery Twin_Publish_Race Graph_Order Graph_Conflicts Egress_Proxy Telemetry_Consumer
    Twin_Gateway Graph_Api Graph_Projector Twin_Graph_Http Chat_Clients
    Follow_Through Twin_Rounds
begin

text \<open>
  A verification development for AI-Manager. The program turns the webhooks of code hosts, trackers and chats
  into telemetry events (\<open>vertical-1\<close>), projects them into a graph of people and work with access rules
  (\<open>vertical-2\<close>), and lets a status twin of every person compile a digest from that graph, send it to
  its owner and publish it (\<open>vertical-3\<close>); a proxy adds credentials to outgoing calls
  (\<open>vertical-security\<close>).

  \<^bold>\<open>Shared.\<close> \<^theory_text>\<open>Prelude\<close> holds strings as UTF-8 bytes, instants as integers of nanoseconds, JSON
  values and hash maps as association lists with distinct keys (the list order stands for one iteration order);
  \<^theory_text>\<open>Text_Util\<close> the further string operations of the standard library and decimal numbers;
  \<^theory_text>\<open>Url_Text\<close> the two percent encoders of the code and the decoder on the other side.
  \<^theory_text>\<open>Once_Register\<close> holds the interface of a store that keeps the first value of a key
  (\<open>once_register\<close>) and of a consumer that applies every message once
  (\<open>idempotent_consumer\<close>); publish records, event marks and the projection are its instances.

  \<^bold>\<open>Telemetry\<close> (\<open>telemetry-proto\<close>, \<open>telemetry-core\<close>).
  \<^item> \<^theory_text>\<open>Telemetry_Model\<close>: the records of \<open>model.rs\<close>, errors, enumerations, access rule.
  \<^item> \<^theory_text>\<open>Telemetry_Edge\<close>: \<open>rate_limit.rs\<close> and \<open>dedup.rs\<close>. The limiter decides as a full
    log of admissions would; the claims behave as a plain table of claim times.
  \<^item> \<^theory_text>\<open>Telemetry_Bus\<close>: \<open>bus.rs\<close>. Topic logs and consumer cursors refine a queue per group.
  \<^item> \<^theory_text>\<open>Telemetry_Normalize\<close>, \<^theory_text>\<open>Telemetry_Providers\<close>: \<open>normalize/\<close>, one
    function per provider and event kind; the provenance of the normalized event.
  \<^item> \<^theory_text>\<open>Telemetry_Acl\<close>: \<open>acl.rs\<close>, memberships with versions, snapshot, read-through cache.
  \<^item> \<^theory_text>\<open>Telemetry_Store\<close>: \<open>store.rs\<close>, queries and the state of a resource.
  \<^item> \<^theory_text>\<open>Telemetry_Auth\<close>: \<open>auth.rs\<close>, the tenant overlay of \<open>secrets.rs\<close>, the registry.
  \<^item> \<^theory_text>\<open>Telemetry_Pipeline\<close>, \<^theory_text>\<open>Telemetry_Flow\<close>: \<open>pipeline.rs\<close> over any bus,
    object store and inline store (parameters of \<open>ingest_env\<close>); the bus it needs is the locale
    \<open>event_bus\<close>, interpreted by the in-memory bus. Which requests have effects, what an answer means.
  \<^item> \<^theory_text>\<open>Telemetry_Consumer\<close>: \<open>run_consumer_loop\<close>, and a membership webhook end to end.

  \<^bold>\<open>Graph\<close> (\<open>graph-core\<close>).
  \<^item> \<^theory_text>\<open>Graph_Model\<close>, \<^theory_text>\<open>Graph_Store\<close>, \<^theory_text>\<open>Graph_Query\<close>: \<open>model.rs\<close>,
    \<open>acl.rs\<close>, \<open>ids.rs\<close>, \<open>store.rs\<close>. Queries show the visible part only, neighbourhoods are
    balls, paths are shortest walks; breadth-first search is a terminating function with its own measure.
  \<^item> \<^theory_text>\<open>Graph_Event\<close>, \<^theory_text>\<open>Graph_Intent\<close>, \<^theory_text>\<open>Graph_Membership\<close>: the event as the graph reads
    it, the classification of intents, the membership store (locale \<open>membership_store\<close>).
  \<^item> \<^theory_text>\<open>Graph_Project\<close>, \<^theory_text>\<open>Graph_Order\<close>: \<open>project.rs\<close>, and what holds over histories of
    events: redelivery, order, privacy, revocation.
  \<^item> \<^theory_text>\<open>Graph_Conflicts\<close>: the conflicts that \<open>intent.rs\<close> finds between intents.
  \<^item> \<^theory_text>\<open>Graph_Api\<close>: \<open>graph-api/src/main.rs\<close>, the requests over store, membership and engine, the
    map with its merge of people, the seed requests. Answers depend on the visible part and two totals.
  \<^item> \<^theory_text>\<open>Graph_Projector\<close>: \<open>graph-projector/src/main.rs\<close>, the loop that feeds the engine
    from the topics, with offsets that may not be saved and restarts; each record has its effect once.

  \<^bold>\<open>Twin\<close> (\<open>twin-core\<close>, \<open>twin-compiler\<close>, \<open>twin-delivery\<close>).
  \<^item> \<^theory_text>\<open>Twin_Model\<close>, \<^theory_text>\<open>Twin_State_Machine\<close>, \<^theory_text>\<open>Twin_Confidence\<close>,
    \<^theory_text>\<open>Twin_Notify\<close>, \<^theory_text>\<open>Twin_Store\<close>: the data, the draft state machine, scoring, the notification
    policy and the store of \<open>twin-core\<close>, each with its invariant.
  \<^item> \<^theory_text>\<open>Twin_Ledger_Text\<close>, \<^theory_text>\<open>Twin_Compiler\<close>, \<^theory_text>\<open>Twin_Digest\<close>: the text of a draft, the
    compiler over any graph source, and what a digest contains.
  \<^item> \<^theory_text>\<open>Twin_Graph_Http\<close>: \<open>http_v2.rs\<close>, the graph source over HTTP with the graph
    service on the other side; a digest depends on nothing hidden from the identities of its twin.
  \<^item> \<^theory_text>\<open>Twin_Delivery\<close>: \<open>twin-delivery\<close>, over a chat client given as a function of its call history;
    publication happens once, a veto and a shadow period are respected.
  \<^item> \<^theory_text>\<open>Twin_Publish_Race\<close>: the publish request cut at its suspension points, run interleaved.

  \<^bold>\<open>Service\<close> (\<open>twin-api\<close>).
  \<^item> \<^theory_text>\<open>Commit_Text\<close>, \<^theory_text>\<open>Commit_Board\<close>, \<^theory_text>\<open>Commit_Flow\<close>: promises in chat
    messages (\<open>commitments.rs\<close>), the board and its requests, the digest, Linear and the insights.
  \<^item> \<^theory_text>\<open>Claim_Ledger\<close>: \<open>intent_engine.rs\<close>, claims of all sources in one ledger.
  \<^item> \<^theory_text>\<open>Twin_Gateway\<close>: the requests and chat callbacks of \<open>main.rs\<close> that change the state, as one
    step function over the delivery world; the delivery invariants hold over any history of them.
  \<^item> \<^theory_text>\<open>Twin_Rounds\<close>: the scheduler and the compile requests, compiler and worker together with
    the table of last notifications; the delivery rules hold over any history of the service, and which
    digests are never sent.
  \<^item> \<^theory_text>\<open>Person_Lookup\<close>, \<^theory_text>\<open>Follow_Through\<close>: how a request finds a person, and the report
    on kept and broken promises over graph, chat and ledger; more activity never counts against a promise.

  \<^bold>\<open>Proxy\<close> (\<open>vertical-security\<close>). \<^theory_text>\<open>Egress_Redact\<close>, \<^theory_text>\<open>Egress_Proxy\<close>: where a credential
  may go and what a relayed body may contain. \<^theory_text>\<open>Egress_Client\<close>: the two clients of the proxy
  (\<open>egress.rs\<close> of \<open>twin-core\<close> and \<open>telemetry-core\<close>) and a call followed through it.
  \<^theory_text>\<open>Chat_Clients\<close>: Slack and Teams over that client, as delivery clients, and the buttons of a card.

  \<^bold>\<open>Parameters.\<close> JSON, URL and timestamp parsing, SHA-256 and HMAC, \<open>chrono\<close> formatting, UUIDs, the
  clock, the HTTP servers on the other side and the live channel of the bus are arguments of the definitions
  that use them. Unicode tables outside ASCII are functions. \<^bold>\<open>Bounds.\<close> Counters are 64-bit or 32-bit words
  where they can wrap. Loops are recursion on their data or on an explicit count that the theorems cover
  (\<open>drain_log_n\<close> with the length of the log, \<open>nb_rounds\<close> with the clamped hops, at most six).

  \<^bold>\<open>Not modelled.\<close> The adapters to CockroachDB, ClickHouse, Kafka, Redis and S3, whose behaviour is the
  server's; HTTP routing, set-up, seeding, profiles and the JSON views of the services; reading of the environment and of files, and the
  writing of snapshots to disk; the locks of the concurrent maps; the percentile snapshot of the metrics.
\<close>

end
